(* ===== verification/Prelude.thy ===== *)
theory Prelude
  imports Main "HOL-Library.Word" "HOL-Library.Signed_Division"
    "HOL-Library.List_Lexorder" "HOL-Library.Char_ord"
begin

text \<open>
  What every component theory shares: the result type of the fallible functions, the
  machine-integer conversions of Rust, ordered maps (\<open>BTreeMap\<close>) as sorted association
  lists, and the string functions of the standard library that the agent calls.

  Conventions. A Rust \<open>Result\<close> is a sum, \<open>Inl\<close> the error. A \<open>u8\<close>, \<open>u16\<close>, \<open>u32\<close> or \<open>u64\<close>
  is a word, so that an unchecked \<open>+\<close> wraps as it does in the release build (the workspace
  sets no \<open>overflow-checks\<close>). An \<open>i64\<close> or \<open>i128\<close> is an integer; every place where the code
  narrows or checks is a range test. A string is its list of UTF-8 bytes; text whose
  characters are counted is a list of Unicode scalar values.
\<close>

section \<open>Results\<close>

named_theorems rsimps "evaluation of the result combinators"

definition rbind :: "'e + 'a \<Rightarrow> ('a \<Rightarrow> 'e + 'b) \<Rightarrow> 'e + 'b" where
  "rbind m f = (case m of Inl e \<Rightarrow> Inl e | Inr x \<Rightarrow> f x)"

definition ok_or :: "'a option \<Rightarrow> 'e \<Rightarrow> 'e + 'a" where
  "ok_or m e = (case m of None \<Rightarrow> Inl e | Some x \<Rightarrow> Inr x)"

definition map_err :: "('e \<Rightarrow> 'f) \<Rightarrow> 'e + 'a \<Rightarrow> 'f + 'a" where
  "map_err f m = (case m of Inl e \<Rightarrow> Inl (f e) | Inr x \<Rightarrow> Inr x)"

definition is_ok :: "'e + 'a \<Rightarrow> bool" where
  "is_ok m = (case m of Inl _ \<Rightarrow> False | Inr _ \<Rightarrow> True)"

fun rmap :: "('a \<Rightarrow> 'e + 'b) \<Rightarrow> 'a list \<Rightarrow> 'e + 'b list" where
  "rmap f [] = Inr []"
| "rmap f (x # xs) = rbind (f x) (\<lambda>y. rbind (rmap f xs) (\<lambda>ys. Inr (y # ys)))"

fun rfold :: "('s \<Rightarrow> 'a \<Rightarrow> 'e + 's) \<Rightarrow> 's \<Rightarrow> 'a list \<Rightarrow> 'e + 's" where
  "rfold f s [] = Inr s"
| "rfold f s (x # xs) = rbind (f s x) (\<lambda>s'. rfold f s' xs)"

lemma rbind_Inl [simp, rsimps]: "rbind (Inl e) f = Inl e"
  by (simp add: rbind_def)

lemma rbind_Inr [simp, rsimps]: "rbind (Inr x) f = f x"
  by (simp add: rbind_def)

lemma rbind_eq_Inr: "rbind m f = Inr y \<longleftrightarrow> (\<exists>x. m = Inr x \<and> f x = Inr y)"
  by (cases m) auto

lemma rbind_InrE [elim!]:
  assumes "rbind m f = Inr y"
  obtains x where "m = Inr x" and "f x = Inr y"
  using assms by (cases m) auto

lemma rbind_eq_Inl: "rbind m f = Inl e \<longleftrightarrow> m = Inl e \<or> (\<exists>x. m = Inr x \<and> f x = Inl e)"
  by (cases m) auto

lemma rbind_cong [fundef_cong]:
  "m = m' \<Longrightarrow> (\<And>x. m' = Inr x \<Longrightarrow> f x = f' x) \<Longrightarrow> rbind m f = rbind m' f'"
  by (cases m') auto

lemma ok_or_simps [simp, rsimps]: "ok_or None e = Inl e" "ok_or (Some x) e = Inr x"
  by (simp_all add: ok_or_def)

lemma ok_or_eq_Inr [simp]: "ok_or m e = Inr x \<longleftrightarrow> m = Some x"
  by (cases m) auto

lemma ok_or_eq_Inl [simp]: "ok_or m e = Inl e' \<longleftrightarrow> m = None \<and> e' = e"
  by (cases m) auto

lemma map_err_simps [simp, rsimps]: "map_err f (Inl e) = Inl (f e)" "map_err f (Inr x) = Inr x"
  by (simp_all add: map_err_def)

lemma map_err_eq_Inr [simp]: "map_err f m = Inr x \<longleftrightarrow> m = Inr x"
  by (cases m) auto

lemma is_ok_simps [simp, rsimps]: "is_ok (Inl e) = False" "is_ok (Inr x) = True"
  by (simp_all add: is_ok_def)

lemma is_ok_iff: "is_ok m \<longleftrightarrow> (\<exists>x. m = Inr x)"
  by (cases m) auto

lemma rmap_length: "rmap f xs = Inr ys \<Longrightarrow> length ys = length xs"
  by (induction xs arbitrary: ys) auto

lemma rmap_nth: "rmap f xs = Inr ys \<Longrightarrow> i < length xs \<Longrightarrow> f (xs ! i) = Inr (ys ! i)"
  by (induction xs arbitrary: ys i) (auto simp: nth_Cons split: nat.splits)

lemma rfold_append:
  "rfold f s (xs @ ys) = rbind (rfold f s xs) (\<lambda>s'. rfold f s' ys)"
proof (induction xs arbitrary: s)
  case (Cons x xs)
  then show ?case by (cases "f s x") auto
qed simp

lemma rfold_invariant:
  assumes "rfold f s xs = Inr s'" and "P s"
    and "\<And>s x s'. x \<in> set xs \<Longrightarrow> P s \<Longrightarrow> f s x = Inr s' \<Longrightarrow> P s'"
  shows "P s'"
  using assms by (induction xs arbitrary: s) auto

section \<open>Machine integers\<close>

type_synonym u8 = "8 word"
type_synonym u16 = "16 word"
type_synonym u32 = "32 word"
type_synonym u64 = "64 word"
type_synonym uuid = "128 word"

definition i64_max :: int where "i64_max = 9223372036854775807"

definition is_i64 :: "int \<Rightarrow> bool" where
  "is_i64 n \<longleftrightarrow> - 9223372036854775808 \<le> n \<and> n \<le> 9223372036854775807"

definition is_i128 :: "int \<Rightarrow> bool" where
  "is_i128 n \<longleftrightarrow> - (2 ^ 127) \<le> n \<and> n < 2 ^ 127"

definition i64_try :: "int \<Rightarrow> int option" where
  "i64_try n = (if is_i64 n then Some n else None)"

definition i128_try :: "int \<Rightarrow> int option" where
  "i128_try n = (if is_i128 n then Some n else None)"

text \<open>\<open>u16::try_from\<close> and \<open>u64::try_from\<close> on a signed value.\<close>

definition u16_try :: "int \<Rightarrow> u16 option" where
  "u16_try n = (if 0 \<le> n \<and> n < 65536 then Some (word_of_int n) else None)"

definition u64_try :: "int \<Rightarrow> u64 option" where
  "u64_try n = (if 0 \<le> n \<and> n < 18446744073709551616 then Some (word_of_int n) else None)"

text \<open>\<open>saturating_add\<close> and \<open>saturating_sub\<close>.\<close>

definition sat_add :: "'l::len word \<Rightarrow> 'l word \<Rightarrow> 'l word" where
  "sat_add a b = (if unat a + unat b < 2 ^ LENGTH('l) then a + b else - 1)"

definition sat_sub :: "'l::len word \<Rightarrow> 'l word \<Rightarrow> 'l word" where
  "sat_sub a b = (if b \<le> a then a - b else 0)"

definition sat_mul :: "'l::len word \<Rightarrow> 'l word \<Rightarrow> 'l word" where
  "sat_mul a b = (if unat a * unat b < 2 ^ LENGTH('l) then a * b else - 1)"

text \<open>An unchecked \<open>i64\<close> sum wraps in the release build.\<close>

definition wrap_i64 :: "int \<Rightarrow> int" where
  "wrap_i64 n = (n + 9223372036854775808) mod 18446744073709551616 - 9223372036854775808"

definition i64_sat :: "int \<Rightarrow> int" where
  "i64_sat n = max (- 9223372036854775808) (min 9223372036854775807 n)"

lemma i64_try_eq_Some [simp]: "i64_try n = Some m \<longleftrightarrow> is_i64 n \<and> m = n"
  by (auto simp: i64_try_def)

lemma i64_try_is: "is_i64 n \<Longrightarrow> i64_try n = Some n"
  by simp

lemma i128_try_eq_Some [simp]: "i128_try n = Some m \<longleftrightarrow> is_i128 n \<and> m = n"
  by (auto simp: i128_try_def)

lemma u16_try_eq_Some [simp]: "u16_try n = Some w \<longleftrightarrow> 0 \<le> n \<and> n < 65536 \<and> w = word_of_int n"
  by (auto simp: u16_try_def)

lemma u64_try_eq_Some [simp]:
  "u64_try n = Some w \<longleftrightarrow> 0 \<le> n \<and> n < 18446744073709551616 \<and> w = word_of_int n"
  by (auto simp: u64_try_def)

lemma i128_try_is: "is_i128 n \<Longrightarrow> i128_try n = Some n"
  by simp

lemma u64_try_is: "0 \<le> n \<Longrightarrow> n < 18446744073709551616 \<Longrightarrow> u64_try n = Some (word_of_int n)"
  by simp

lemma uint_u16_try: "u16_try n = Some w \<Longrightarrow> uint w = n"
  by (auto simp: uint_word_of_int take_bit_int_eq_self)

lemma uint_u64_try: "u64_try n = Some w \<Longrightarrow> uint w = n"
  by (auto simp: uint_word_of_int take_bit_int_eq_self)

lemma uint_u16_bounds: "0 \<le> uint (w :: u16)" "uint (w :: u16) < 65536"
  using uint_bounded [of w] by simp_all

lemma uint_u8_bounds: "0 \<le> uint (w :: u8)" "uint (w :: u8) < 256"
  using uint_bounded [of w] by simp_all

lemma unat_sat_add: "unat (sat_add a b :: 'l::len word) = min (unat a + unat b) (2 ^ LENGTH('l) - 1)"
  by (auto simp: sat_add_def unat_word_ariths unsigned_minus_1_eq_mask mask_eq_exp_minus_1)

lemma sat_add_ge: "a \<le> sat_add a (b :: 'l::len word)"
proof -
  have "unat a < 2 ^ LENGTH('l)" by simp
  then have "unat a \<le> 2 ^ LENGTH('l) - 1" by linarith
  then show ?thesis by (simp add: word_le_nat_alt unat_sat_add)
qed

lemma wrap_i64_id: "is_i64 n \<Longrightarrow> wrap_i64 n = n"
  by (simp add: wrap_i64_def is_i64_def)

lemma i64_sat_id: "is_i64 n \<Longrightarrow> i64_sat n = n"
  by (simp add: i64_sat_def is_i64_def)

lemma i64_sat_is: "is_i64 (i64_sat n)"
  by (simp add: i64_sat_def is_i64_def)

text \<open>Rust's \<open>/\<close> on signed integers truncates; on a nonnegative numerator it is \<open>div\<close>.\<close>

lemma sdiv_nonneg: "0 \<le> a \<Longrightarrow> 0 < b \<Longrightarrow> a sdiv b = a div (b :: int)"
  by (cases "a = 0") (auto simp: signed_divide_int_def)

lemma sdiv_neg: "0 \<le> a \<Longrightarrow> 0 < b \<Longrightarrow> (- a) sdiv b = - (a div (b :: int))"
  by (cases "a = 0") (auto simp: signed_divide_int_def)

lemma sdiv_mono: "a \<le> a' \<Longrightarrow> 0 < b \<Longrightarrow> a sdiv b \<le> a' sdiv (b :: int)"
proof -
  assume "a \<le> a'" and b: "0 < b"
  consider "0 \<le> a" | "a < 0" "0 \<le> a'" | "a' < 0" by linarith
  then show ?thesis
  proof cases
    case 1
    with \<open>a \<le> a'\<close> b show ?thesis by (simp add: sdiv_nonneg zdiv_mono1)
  next
    case 2
    have "a sdiv b = - ((- a) div b)" using sdiv_neg [of "- a" b] 2 b by simp
    moreover have "0 \<le> (- a) div b" using 2 b by (simp add: pos_imp_zdiv_nonneg_iff)
    moreover have "0 \<le> a' sdiv b" using 2 b by (simp add: sdiv_nonneg pos_imp_zdiv_nonneg_iff)
    ultimately show ?thesis by linarith
  next
    case 3
    have "a sdiv b = - ((- a) div b)" "a' sdiv b = - ((- a') div b)"
      using sdiv_neg [of "- a" b] sdiv_neg [of "- a'" b] 3 \<open>a \<le> a'\<close> b by simp_all
    moreover have "(- a') div b \<le> (- a) div b" using \<open>a \<le> a'\<close> b by (simp add: zdiv_mono1)
    ultimately show ?thesis by linarith
  qed
qed

lemma le_div_iff_int: "0 < b \<Longrightarrow> c \<le> a div b \<longleftrightarrow> c * b \<le> (a :: int)"
proof
  assume b: "0 < b" and "c \<le> a div b"
  then have "c * b \<le> a div b * b" by simp
  also have "\<dots> \<le> a" using b by (simp add: div_mult2_eq [symmetric] minus_mod_eq_div_mult [symmetric])
  finally show "c * b \<le> a" .
next
  assume b: "0 < b" and "c * b \<le> a"
  then have "c * b div b \<le> a div b" by (simp only: zdiv_mono1)
  with b show "c \<le> a div b" by simp
qed

lemma div_less_iff_int: "0 < b \<Longrightarrow> a div b < c \<longleftrightarrow> a < c * (b :: int)"
  using le_div_iff_int [of b c a] by linarith

section \<open>Ordered maps\<close>

text \<open>
  A \<open>BTreeMap\<close> is a sorted association list: \<open>bt_insert\<close> overwrites an equal key and keeps
  the order, \<open>map_of\<close> reads, iteration is the list itself.
\<close>

fun bt_insert :: "'k::linorder \<Rightarrow> 'v \<Rightarrow> ('k \<times> 'v) list \<Rightarrow> ('k \<times> 'v) list" where
  "bt_insert k v [] = [(k, v)]"
| "bt_insert k v ((k', v') # m) =
     (if k < k' then (k, v) # (k', v') # m
      else if k = k' then (k, v) # m
      else (k', v') # bt_insert k v m)"

definition bt_of_list :: "('k::linorder \<times> 'v) list \<Rightarrow> ('k \<times> 'v) list" where
  "bt_of_list kvs = fold (\<lambda>(k, v) m. bt_insert k v m) kvs []"

definition bt_ok :: "('k::linorder \<times> 'v) list \<Rightarrow> bool" where
  "bt_ok m \<longleftrightarrow> sorted_wrt (<) (map fst m)"

definition bt_remove :: "'k \<Rightarrow> ('k \<times> 'v) list \<Rightarrow> ('k \<times> 'v) list" where
  "bt_remove k m = filter (\<lambda>p. fst p \<noteq> k) m"

lemma map_of_bt_insert [simp]: "map_of (bt_insert k v m) = (map_of m)(k \<mapsto> v)"
  by (induction m) (auto simp: fun_eq_iff)

lemma keys_bt_insert [simp]: "fst ` set (bt_insert k v m) = insert k (fst ` set m)"
  by (induction k v m rule: bt_insert.induct) auto

lemma bt_ok_Nil [simp]: "bt_ok []"
  by (simp add: bt_ok_def)

lemma bt_ok_insert [simp]: "bt_ok m \<Longrightarrow> bt_ok (bt_insert k v m)"
  unfolding bt_ok_def
proof (induction k v m rule: bt_insert.induct)
  case (2 k v k' v' m)
  have keys: "set (map fst (bt_insert k v m)) = insert k (set (map fst m))"
    by (simp del: map_map)
  from 2 show ?case
    by (auto simp: keys simp del: set_map intro: less_trans)
qed simp

lemma bt_ok_distinct: "bt_ok m \<Longrightarrow> distinct (map fst m)"
  unfolding bt_ok_def by (induction m) auto

lemma bt_ok_fold_insert: "bt_ok m \<Longrightarrow> bt_ok (fold (\<lambda>(k, v) m. bt_insert k v m) kvs m)"
  by (induction kvs arbitrary: m) auto

lemma bt_ok_of_list [simp]: "bt_ok (bt_of_list kvs)"
  by (simp add: bt_of_list_def bt_ok_fold_insert)

lemma bt_ok_remove [simp]: "bt_ok m \<Longrightarrow> bt_ok (bt_remove k m)"
  unfolding bt_ok_def bt_remove_def by (induction m) auto

lemma map_of_bt_remove [simp]: "map_of (bt_remove k m) = (map_of m)(k := None)"
  by (induction m) (auto simp: bt_remove_def fun_eq_iff)

lemma map_of_fold_insert:
  "map_of (fold (\<lambda>(k, v) m. bt_insert k v m) kvs m) = map_of m ++ map_of (rev kvs)"
proof (induction kvs arbitrary: m)
  case (Cons p kvs)
  then show ?case by (cases p) (auto simp: fun_eq_iff map_add_def split: option.splits)
qed simp

lemma map_of_bt_of_list: "map_of (bt_of_list kvs) = map_of (rev kvs)"
  by (simp add: bt_of_list_def map_of_fold_insert)

text \<open>Two ordered maps with the same content are the same list: the order is canonical.\<close>

lemma bt_ok_Cons: "bt_ok ((k, v) # m) \<longleftrightarrow> (\<forall>k' \<in> fst ` set m. k < k') \<and> bt_ok m"
  by (auto simp: bt_ok_def)

lemma bt_canonical: "bt_ok m \<Longrightarrow> bt_ok m' \<Longrightarrow> map_of m = map_of m' \<Longrightarrow> m = m'"
proof (induction m arbitrary: m')
  case Nil
  then have "dom (map_of m') = {}" by simp
  then show ?case by (simp only: dom_map_of_conv_image_fst image_is_empty) simp
next
  case (Cons p m)
  obtain k v where p: "p = (k, v)" by (cases p)
  have "dom (map_of m') = insert k (fst ` set m)"
    using Cons.prems(3) p by (metis dom_map_of_conv_image_fst list.simps(15) image_insert fst_conv)
  then obtain k' v' n where m': "m' = (k', v') # n"
    by (cases m') auto
  have "k' = k"
  proof -
    have "insert k' (fst ` set n) = insert k (fst ` set m)"
      using \<open>dom (map_of m') = _\<close> m' by (simp add: dom_map_of_conv_image_fst)
    moreover have "\<forall>x \<in> fst ` set n. k' < x" "\<forall>x \<in> fst ` set m. k < x"
      using Cons.prems p m' by (simp_all add: bt_ok_Cons)
    ultimately show ?thesis by (metis insertE insertI1 less_asym)
  qed
  have "v' = v" using fun_cong [OF Cons.prems(3), of k] p m' \<open>k' = k\<close> by simp
  have notin: "map_of n k = None" "map_of m k = None"
    using Cons.prems p m' \<open>k' = k\<close> by (auto simp: bt_ok_Cons map_of_eq_None_iff)
  have "map_of n = map_of m"
  proof
    fix x
    show "map_of n x = map_of m x"
      using fun_cong [OF Cons.prems(3), of x] p m' \<open>k' = k\<close> notin by (cases "x = k") auto
  qed
  with Cons p m' \<open>k' = k\<close> \<open>v' = v\<close> show ?case by (simp add: bt_ok_Cons)
qed

section \<open>Strings\<close>

definition byte :: "char \<Rightarrow> nat" where "byte c = of_char c"

definition is_ascii_digit :: "char \<Rightarrow> bool" where
  "is_ascii_digit c \<longleftrightarrow> 48 \<le> byte c \<and> byte c \<le> 57"

definition is_ascii_hexdigit :: "char \<Rightarrow> bool" where
  "is_ascii_hexdigit c \<longleftrightarrow> is_ascii_digit c
     \<or> 65 \<le> byte c \<and> byte c \<le> 70 \<or> 97 \<le> byte c \<and> byte c \<le> 102"

definition to_ascii_lower :: "char \<Rightarrow> char" where
  "to_ascii_lower c = (if 65 \<le> byte c \<and> byte c \<le> 90 then char_of (byte c + 32) else c)"

definition eq_ignore_ascii_case :: "string \<Rightarrow> string \<Rightarrow> bool" where
  "eq_ignore_ascii_case a b \<longleftrightarrow> map to_ascii_lower a = map to_ascii_lower b"

fun starts_with :: "'a list \<Rightarrow> 'a list \<Rightarrow> bool" where
  "starts_with s [] = True"
| "starts_with [] (_ # _) = False"
| "starts_with (x # s) (y # p) = (x = y \<and> starts_with s p)"

fun contains_sub :: "'a list \<Rightarrow> 'a list \<Rightarrow> bool" where
  "contains_sub [] p = starts_with [] p"
| "contains_sub (x # s) p = (starts_with (x # s) p \<or> contains_sub s p)"

definition ends_with :: "'a list \<Rightarrow> 'a list \<Rightarrow> bool" where
  "ends_with s p = starts_with (rev s) (rev p)"

text \<open>
  \<open>s.trim().is_empty()\<close> on UTF-8 bytes: every character has the Unicode property
  White\_Space (six ASCII ones, U+0085, U+00A0, U+1680, U+2000 to U+200A, U+2028, U+2029,
  U+202F, U+205F, U+3000).
\<close>

definition ascii_ws :: "nat \<Rightarrow> bool" where
  "ascii_ws n \<longleftrightarrow> 9 \<le> n \<and> n \<le> 13 \<or> n = 32"

definition ws3 :: "nat \<Rightarrow> nat \<Rightarrow> nat \<Rightarrow> bool" where
  "ws3 a b c \<longleftrightarrow> (a = 225 \<and> b = 154 \<and> c = 128)
     \<or> (a = 226 \<and> b = 128 \<and> (128 \<le> c \<and> c \<le> 138 \<or> c = 168 \<or> c = 169 \<or> c = 175))
     \<or> (a = 226 \<and> b = 129 \<and> c = 159) \<or> (a = 227 \<and> b = 128 \<and> c = 128)"

fun blank_bytes :: "nat list \<Rightarrow> bool" where
  "blank_bytes [] = True"
| "blank_bytes [a] = ascii_ws a"
| "blank_bytes [a, b] =
     (ascii_ws a \<and> ascii_ws b \<or> a = 194 \<and> (b = 133 \<or> b = 160))"
| "blank_bytes (a # b # c # s) =
     (if ascii_ws a then blank_bytes (b # c # s)
      else if a = 194 \<and> (b = 133 \<or> b = 160) then blank_bytes (c # s)
      else ws3 a b c \<and> blank_bytes s)"

definition blank :: "string \<Rightarrow> bool" where
  "blank s = blank_bytes (map byte s)"

text \<open>Text: Unicode scalar values. \<open>utf8\<close> gives the bytes of a text.\<close>

type_synonym utext = "nat list"

definition ascii :: "string \<Rightarrow> utext" where "ascii s = map byte s"

definition is_whitespace :: "nat \<Rightarrow> bool" where
  "is_whitespace n \<longleftrightarrow> ascii_ws n \<or> n = 133 \<or> n = 160 \<or> n = 5760
     \<or> 8192 \<le> n \<and> n \<le> 8202 \<or> n = 8232 \<or> n = 8233 \<or> n = 8239 \<or> n = 8287 \<or> n = 12288"

definition is_control :: "nat \<Rightarrow> bool" where
  "is_control n \<longleftrightarrow> n < 32 \<or> 127 \<le> n \<and> n \<le> 159"

definition scalar_to_ascii_lower :: "nat \<Rightarrow> nat" where
  "scalar_to_ascii_lower n = (if 65 \<le> n \<and> n \<le> 90 then n + 32 else n)"

definition trim_start :: "utext \<Rightarrow> utext" where "trim_start t = dropWhile is_whitespace t"

definition trim_end :: "utext \<Rightarrow> utext" where
  "trim_end t = rev (dropWhile is_whitespace (rev t))"

definition trim :: "utext \<Rightarrow> utext" where "trim t = trim_end (trim_start t)"

fun split_whitespace :: "utext \<Rightarrow> utext \<Rightarrow> utext list" where
  "split_whitespace w [] = (if w = [] then [] else [rev w])"
| "split_whitespace w (c # t) =
     (if is_whitespace c then (if w = [] then split_whitespace [] t
                               else rev w # split_whitespace [] t)
      else split_whitespace (c # w) t)"

fun join_sep :: "'a list \<Rightarrow> 'a list list \<Rightarrow> 'a list" where
  "join_sep d [] = []"
| "join_sep d [w] = w"
| "join_sep d (w # v # ws) = w @ d @ join_sep d (v # ws)"

definition utf8_scalar :: "nat \<Rightarrow> char list" where
  "utf8_scalar n = map char_of
     (if n < 128 then [n]
      else if n < 2048 then [192 + n div 64, 128 + n mod 64]
      else if n < 65536 then [224 + n div 4096, 128 + n div 64 mod 64, 128 + n mod 64]
      else [240 + n div 262144, 128 + n div 4096 mod 64, 128 + n div 64 mod 64, 128 + n mod 64])"

definition utf8 :: "utext \<Rightarrow> string" where "utf8 t = concat (map utf8_scalar t)"

lemma starts_with_append: "starts_with s p \<longleftrightarrow> (\<exists>r. s = p @ r)"
  by (induction s p rule: starts_with.induct) auto

lemma contains_sub_iff: "contains_sub s p \<longleftrightarrow> (\<exists>l r. s = l @ p @ r)"
proof (induction s)
  case Nil
  then show ?case by (auto simp: starts_with_append)
next
  case (Cons x s)
  have "contains_sub (x # s) p \<longleftrightarrow> (\<exists>r. x # s = p @ r) \<or> (\<exists>l r. s = l @ p @ r)"
    using Cons by (simp add: starts_with_append)
  also have "\<dots> \<longleftrightarrow> (\<exists>l r. x # s = l @ p @ r)"
    by (metis append_Cons append_Nil neq_Nil_conv list.inject)
  finally show ?case .
qed

end
