(* ===== verification/Protocol.thy ===== *)
theory Protocol
  imports Prelude
begin

text \<open>
  The wire types of \<open>crates/crow-agent-protocol/src/lib.rs\<close>: risk rules, arena and dataset
  manifests, inference receipts, remote commands and run events, with their
  validation, signing and verification.

  The packages the crate calls (\<open>serde_json\<close>, \<open>sha2\<close>, \<open>hex\<close>, \<open>base64\<close>, \<open>ed25519-dalek\<close>,
  \<open>hmac\<close>, \<open>time\<close>, \<open>uuid\<close>) are the fields of a record \<open>prims\<close>, an argument of every function
  that uses them; the laws proofs rely on are the named predicates \<open>signature_law\<close> and
  \<open>b64_law\<close>. An \<open>OffsetDateTime\<close> is its number of nanoseconds since the epoch. Results that
  draw a random UUID take it as an argument.
\<close>

section \<open>JSON values\<close>

datatype json =
    JNull
  | JBool bool
  | JInt int
  | JFloat string
  | JStr string
  | JArr "json list"
  | JObj "(string \<times> json) list"

record prims =
  hex_encode :: "string \<Rightarrow> string"
  hex_decode :: "string \<Rightarrow> string option"
  b64_encode :: "string \<Rightarrow> string"
  b64_decode :: "string \<Rightarrow> string option"
  sha256 :: "string \<Rightarrow> string"
  json_to_vec :: "json \<Rightarrow> string option"
  verifying_key :: "string \<Rightarrow> string"
  ed_sign :: "string \<Rightarrow> string \<Rightarrow> string"
  ed_key_ok :: "string \<Rightarrow> bool"
  ed_sig_ok :: "string \<Rightarrow> bool"
  ed_verify :: "string \<Rightarrow> string \<Rightarrow> string \<Rightarrow> bool"
  hmac_sha256 :: "string \<Rightarrow> string \<Rightarrow> string"
  rfc3339 :: "int \<Rightarrow> string option"
  uuid_str :: "uuid \<Rightarrow> string"

definition b64_law :: "prims \<Rightarrow> bool" where
  "b64_law P \<longleftrightarrow> (\<forall>b. b64_decode P (b64_encode P b) = Some b)"

text \<open>
  What \<open>ed25519-dalek\<close> documents: a key derived from a seed is a valid 32-byte key, a
  signature decodes, and a key verifies the signatures its seed makes.
\<close>

definition signature_law :: "prims \<Rightarrow> bool" where
  "signature_law P \<longleftrightarrow> b64_law P
     \<and> (\<forall>sk. length (verifying_key P sk) = 32 \<and> ed_key_ok P (verifying_key P sk))
     \<and> (\<forall>sk m. ed_sig_ok P (ed_sign P sk m)
               \<and> ed_verify P (verifying_key P sk) m (ed_sign P sk m))"

datatype protocol_error =
    CanonicalJson
  | InvalidManifest string
  | InvalidEventHash
  | InvalidEventSignature
  | InvalidPublicKey
  | InvalidSignatureEncoding
  | InvalidRemoteCommand
  | InvalidInferenceReceipt

fun sort_json :: "json \<Rightarrow> json" where
  "sort_json (JObj fs) = JObj (bt_of_list (map (\<lambda>p. (fst p, sort_json (snd p))) fs))"
| "sort_json (JArr vs) = JArr (map sort_json vs)"
| "sort_json JNull = JNull"
| "sort_json (JBool b) = JBool b"
| "sort_json (JInt n) = JInt n"
| "sort_json (JFloat s) = JFloat s"
| "sort_json (JStr s) = JStr s"

text \<open>
  \<open>to_value\<close> of a typed struct is given as an optional JSON value: \<open>None\<close> where a time
  cannot be formatted.
\<close>

definition canonical_json :: "prims \<Rightarrow> json option \<Rightarrow> protocol_error + string" where
  "canonical_json P v =
     rbind (ok_or v CanonicalJson) (\<lambda>value. ok_or (json_to_vec P (sort_json value)) CanonicalJson)"

definition verify_signature :: "prims \<Rightarrow> string \<Rightarrow> string \<Rightarrow> string \<Rightarrow> protocol_error + unit" where
  "verify_signature P public_key encoded_signature message =
     rbind (ok_or (b64_decode P public_key) InvalidPublicKey) (\<lambda>public_raw.
       if length public_raw \<noteq> 32 then Inl InvalidPublicKey
       else if \<not> ed_key_ok P public_raw then Inl InvalidPublicKey
       else rbind (ok_or (b64_decode P encoded_signature) InvalidSignatureEncoding) (\<lambda>signature_raw.
         if \<not> ed_sig_ok P signature_raw then Inl InvalidSignatureEncoding
         else if ed_verify P public_raw message signature_raw then Inr ()
         else Inl InvalidEventSignature))"

definition is_sha256 :: "string \<Rightarrow> bool" where
  "is_sha256 value \<longleftrightarrow> length value = 64 \<and> list_all is_ascii_hexdigit value"

section \<open>Constants\<close>

definition HARNESS_PROTOCOL_V1 :: string where "HARNESS_PROTOCOL_V1 = ''crow.harness.v1''"
definition DEFAULT_STARTING_CAPITAL_MICRO_USDC :: u64 where
  "DEFAULT_STARTING_CAPITAL_MICRO_USDC = 1000000000"
definition MIN_STARTING_CAPITAL_MICRO_USDC :: u64 where
  "MIN_STARTING_CAPITAL_MICRO_USDC = 500000000"
definition REPLACEMENT_BETA_STARTING_CAPITAL_MICRO_USDC :: u64 where
  "REPLACEMENT_BETA_STARTING_CAPITAL_MICRO_USDC = 100000000"
definition MAX_STARTING_CAPITAL_MICRO_USDC :: u64 where
  "MAX_STARTING_CAPITAL_MICRO_USDC = 1000000000000"
definition MIN_LIVE_DECISION_INTERVAL_SECONDS :: u32 where
  "MIN_LIVE_DECISION_INTERVAL_SECONDS = 60"
definition MAX_CLIENT_DECISION_COOLDOWN_SECONDS :: u32 where
  "MAX_CLIENT_DECISION_COOLDOWN_SECONDS = 3600"
definition MIN_CLIENT_ISOLATED_LEVERAGE :: u8 where "MIN_CLIENT_ISOLATED_LEVERAGE = 1"
definition MAX_CLIENT_ISOLATED_LEVERAGE :: u8 where "MAX_CLIENT_ISOLATED_LEVERAGE = 10"
definition DATASET_SOURCE_V1 :: string where
  "DATASET_SOURCE_V1 = ''hyperliquid-mainnet-info-v1''"
definition ALLOWED_SYMBOLS :: "string list" where
  "ALLOWED_SYMBOLS = [''BTC'', ''ETH'', ''SOL'']"
definition ALLOWED_MODELS :: "string list" where
  "ALLOWED_MODELS = [''crow-qwen3-5-27b'', ''crow-qwen3-5-35b-a3b'', ''crow-gpt-oss-20b'']"

section \<open>Risk rules\<close>

datatype arena_mode = HistoricalBacktest | HyperliquidTestnet | HyperliquidMainnet

record risk_rules =
  cash_reserve_bps :: u16
  daily_loss_bps :: u16
  drawdown_bps :: u16
  max_order_bps :: u16
  max_position_bps :: u16
  max_spread_bps :: u16
  max_oracle_gap_bps :: u16
  book_max_age_seconds :: u16
  max_orders_day :: u16
  rr_isolated_leverage :: u8
  long_only :: bool
  ioc_only :: bool

definition default_rules :: risk_rules where
  "default_rules = \<lparr>cash_reserve_bps = 1000, daily_loss_bps = 200, drawdown_bps = 1000,
     max_order_bps = 200, max_position_bps = 1000, max_spread_bps = 40,
     max_oracle_gap_bps = 100, book_max_age_seconds = 10, max_orders_day = 20,
     rr_isolated_leverage = 1, long_only = False, ioc_only = True\<rparr>"

definition validate_ceiling :: "risk_rules \<Rightarrow> protocol_error + unit" where
  "validate_ceiling r =
     (let ceiling = default_rules in
      if cash_reserve_bps ceiling \<le> cash_reserve_bps r
        \<and> daily_loss_bps r \<le> daily_loss_bps ceiling
        \<and> drawdown_bps r \<le> drawdown_bps ceiling
        \<and> max_order_bps r \<le> max_order_bps ceiling
        \<and> max_position_bps r \<le> max_position_bps ceiling
        \<and> max_spread_bps r \<le> max_spread_bps ceiling
        \<and> book_max_age_seconds r \<le> book_max_age_seconds ceiling
        \<and> max_orders_day r \<le> max_orders_day ceiling
        \<and> rr_isolated_leverage r = 1
        \<and> ioc_only r
      then Inr ()
      else Inl (InvalidManifest ''risk rules exceed the Crow safety ceiling''))"

section \<open>Arena manifests\<close>

record scoring_weights =
  net_return :: u8
  sortino :: u8
  inverse_drawdown :: u8

record penalty_rules =
  policy_rejection_millis :: u32
  missed_cycle_millis :: u32
  cap_millis :: u32

record execution_assumptions =
  half_spread_bps :: u16
  slippage_bps :: u16
  taker_fee_bps :: u16

record ticket_config =
  tk_enabled :: bool
  tk_asset :: string
  tk_chain_id :: u64
  tk_token_address :: "string option"
  tk_ticket_base_units :: string
  tk_escrow_address :: "string option"
  tk_withdrawal_policy :: string
  tk_payout_policy :: string
  tk_prize_asset :: string
  tk_prize_base_units :: string
  tk_usdc_address :: "string option"
  tk_ticket_micro_usdc :: u64
  tk_participant_cap :: u32
  tk_prize_bps :: u16
  tk_protocol_bps :: u16
  tk_winner_bps :: "u16 \<times> u16 \<times> u16"

definition default_ticket :: ticket_config where
  "default_ticket = \<lparr>tk_enabled = False, tk_asset = '''', tk_chain_id = 0, tk_token_address = None,
     tk_ticket_base_units = '''', tk_escrow_address = None, tk_withdrawal_policy = '''',
     tk_payout_policy = '''', tk_prize_asset = '''', tk_prize_base_units = '''',
     tk_usdc_address = None, tk_ticket_micro_usdc = 0, tk_participant_cap = 0,
     tk_prize_bps = 9000, tk_protocol_bps = 1000, tk_winner_bps = (5000, 3000, 2000)\<rparr>"

definition default_scoring :: scoring_weights where
  "default_scoring = \<lparr>net_return = 100, sortino = 0, inverse_drawdown = 0\<rparr>"

record arena_manifest =
  am_protocol :: string
  am_arena_id :: uuid
  am_manifest_version :: u32
  am_mode :: arena_mode
  am_starts_at :: int
  am_ends_at :: int
  am_decision_interval_seconds :: u32
  am_symbols :: "string list"
  am_eligible_models :: "string list"
  am_dataset_sha256 :: "string option"
  am_required_client_version :: string
  am_starting_capital_micro_usdc :: u64
  am_risk_rules :: risk_rules
  am_execution :: execution_assumptions
  am_scoring :: scoring_weights
  am_penalties :: penalty_rules
  am_ticket :: ticket_config

definition whole_seconds :: "int \<Rightarrow> int" where
  "whole_seconds nanos = nanos sdiv 1000000000"

definition valid_address :: "string option \<Rightarrow> bool" where
  "valid_address value = (case value of None \<Rightarrow> False | Some address \<Rightarrow>
     length address = 42 \<and> starts_with address ''0x''
     \<and> list_all is_ascii_hexdigit (drop 2 address))"

definition cc_ticket :: "arena_manifest \<Rightarrow> bool" where
  "cc_ticket m \<longleftrightarrow> tk_enabled (am_ticket m) \<and> tk_asset (am_ticket m) = ''CC''"

definition cc_ticket_invalid :: "arena_manifest \<Rightarrow> bool" where
  "cc_ticket_invalid m = (let t = am_ticket m in
     am_mode m \<noteq> HyperliquidMainnet
     \<or> tk_chain_id t \<noteq> 4663
     \<or> am_starting_capital_micro_usdc m \<noteq> REPLACEMENT_BETA_STARTING_CAPITAL_MICRO_USDC
     \<or> tk_ticket_base_units t \<noteq> ''250000000000000000000000''
     \<or> tk_participant_cap t \<noteq> 100
     \<or> (case tk_token_address t of None \<Rightarrow> True | Some address \<Rightarrow>
          \<not> eq_ignore_ascii_case address ''0x859ead0ee2fd39a2804bb27713742577f7be79c1'')
     \<or> \<not> valid_address (tk_escrow_address t)
     \<or> tk_withdrawal_policy t \<noteq> ''owner_anytime''
     \<or> tk_payout_policy t \<noteq> ''manual_owner_payout''
     \<or> tk_prize_asset t \<noteq> ''ETH''
     \<or> tk_prize_base_units t \<noteq> ''1000000000000000000''
     \<or> tk_prize_bps t \<noteq> 0
     \<or> tk_protocol_bps t \<noteq> 0
     \<or> tk_winner_bps t \<noteq> (0, 0, 0))"

text \<open>The \<open>u16\<close> sums wrap, as in the release build; the scoring weights are widened first.\<close>

definition winner_sum :: "u16 \<times> u16 \<times> u16 \<Rightarrow> u16" where
  "winner_sum w = (case w of (a, b, c) \<Rightarrow> a + b + c)"

definition validate_manifest :: "arena_manifest \<Rightarrow> protocol_error + unit" where
  "validate_manifest m =
     (if am_protocol m \<noteq> HARNESS_PROTOCOL_V1 then Inl (InvalidManifest ''unsupported protocol'')
      else if am_ends_at m \<le> am_starts_at m
      then Inl (InvalidManifest ''arena time window is empty'')
      else let duration_seconds = whole_seconds (am_ends_at m - am_starts_at m) in
      if duration_seconds \<le> 0
         \<or> duration_seconds smod uint (max (am_decision_interval_seconds m) 1) \<noteq> 0
      then Inl (InvalidManifest ''arena duration must contain a whole number of decision cycles'')
      else if am_mode m = HistoricalBacktest \<and> am_decision_interval_seconds m \<noteq> 900
      then Inl (InvalidManifest ''historical arenas require the dataset's 15-minute cadence'')
      else if (am_mode m = HyperliquidTestnet \<or> am_mode m = HyperliquidMainnet)
         \<and> am_decision_interval_seconds m < MIN_LIVE_DECISION_INTERVAL_SECONDS
      then Inl (InvalidManifest ''live arena cadence must be at least one minute'')
      else let replacement_beta_capital = (am_mode m = HyperliquidMainnet
         \<and> tk_enabled (am_ticket m) \<and> tk_asset (am_ticket m) = ''CC''
         \<and> am_starting_capital_micro_usdc m = REPLACEMENT_BETA_STARTING_CAPITAL_MICRO_USDC) in
      if \<not> replacement_beta_capital
         \<and> \<not> (MIN_STARTING_CAPITAL_MICRO_USDC \<le> am_starting_capital_micro_usdc m
              \<and> am_starting_capital_micro_usdc m \<le> MAX_STARTING_CAPITAL_MICRO_USDC)
      then Inl (InvalidManifest ''starting capital must be between 500 and 1,000,000 USDC'')
      else if am_symbols m \<noteq> ALLOWED_SYMBOLS
      then Inl (InvalidManifest ''v1 symbols must be BTC, ETH, and SOL in canonical order'')
      else if am_eligible_models m = []
         \<or> list_ex (\<lambda>model. \<not> List.member ALLOWED_MODELS model) (am_eligible_models m)
      then Inl (InvalidManifest ''eligible model set is invalid'')
      else if (ucast (net_return (am_scoring m)) :: u16) + ucast (sortino (am_scoring m))
         + ucast (inverse_drawdown (am_scoring m)) \<noteq> 100
      then Inl (InvalidManifest ''scoring weights must sum to 100'')
      else if \<not> cc_ticket m
         \<and> (tk_prize_bps (am_ticket m) + tk_protocol_bps (am_ticket m) \<noteq> 10000
            \<or> winner_sum (tk_winner_bps (am_ticket m)) \<noteq> 10000)
      then Inl (InvalidManifest ''ticket and winner splits must each sum to 10000 bps'')
      else if cc_ticket m \<and> cc_ticket_invalid m
      then Inl (InvalidManifest ''CC-entry beta ticket configuration is invalid'')
      else if am_mode m = HistoricalBacktest
         \<and> (case am_dataset_sha256 m of None \<Rightarrow> True | Some digest \<Rightarrow> \<not> is_sha256 digest)
      then Inl (InvalidManifest ''historical arenas require a SHA-256 dataset digest'')
      else validate_ceiling (am_risk_rules m))"

end
