(* ===== verification/Policy.thy ===== *)
theory Policy
  imports Protocol
begin

text \<open>
  The local risk policy, \<open>crates/crow-agent-core/src/policy.rs\<close>: a model proposal is sized,
  rounded to the venue's lot size and checked against the arena's risk rules. Prices and
  notionals are micro-USDC, quantities are in units of \<open>1e-8\<close>. An \<open>i64\<close> is an integer;
  products are \<open>i128\<close> in the code and never overflow, and every narrowing is a range test.
\<close>

section \<open>Data\<close>

definition MIN_ORDER_MICRO_USDC :: int where "MIN_ORDER_MICRO_USDC = 10000000"
definition QUANTITY_SCALE :: int where "QUANTITY_SCALE = 100000000"

datatype side = Buy | Sell

record proposal =
  p_symbol :: string
  p_side :: side
  p_notional_bps :: u16
  p_limit_price :: int
  p_reduce_only :: bool

record market_state =
  mk_symbol :: string
  mark_price :: int
  oracle_price :: int
  spread_bps :: u16
  book_age_seconds :: u16
  ask_depth :: int
  bid_depth :: int
  size_decimals :: u8
  delisted :: bool

record portfolio_state =
  equity :: int
  available_collateral :: int
  trading_day_start_equity :: int
  peak_equity :: int
  symbol_position :: int
  orders_today :: u16

record policy_context =
  pc_rules :: risk_rules
  pc_market :: market_state
  pc_portfolio :: portfolio_state
  pc_starting_capital :: int
  pc_quantity_reference_price :: "int option"
  pc_isolated_leverage :: u8

record order_decision =
  o_symbol :: string
  o_side :: side
  o_quantity_e8 :: int
  o_limit_price :: int
  o_actual_notional :: int
  o_effective_notional_bps :: u16
  o_reduce_only :: bool

datatype policy_error =
    PSymbol | PMarket | PDelisted | PStaleBook | PSpread | PReduceOnly | PDailyLoss | PDrawdown
  | POrderLimit | POrderSize | PPositionSize | PCashReserve | PDepth | POverflow

section \<open>Fixed-point helpers\<close>

definition bps_amount :: "int \<Rightarrow> int \<Rightarrow> policy_error + int" where
  "bps_amount value bps = ok_or (i64_try ((value * bps) sdiv 10000)) POverflow"

definition bps_difference :: "int \<Rightarrow> int \<Rightarrow> policy_error + int" where
  "bps_difference left right =
     (let difference = \<bar>left - right\<bar>
      in ok_or (i64_try (difference * 10000 div \<bar>right\<bar>)) POverflow)"

definition loss_bps :: "int \<Rightarrow> int \<Rightarrow> policy_error + int" where
  "loss_bps high current =
     (if high \<le> 0 \<or> high \<le> current then Inr 0 else bps_difference high current)"

definition ceil_div :: "int \<Rightarrow> int \<Rightarrow> policy_error + int" where
  "ceil_div numerator denominator =
     (if numerator < 0 \<or> denominator \<le> 0 then Inl POverflow
      else ok_or (map_option (\<lambda>v. v sdiv denominator) (i128_try (numerator + (denominator - 1))))
             POverflow)"

definition round_up :: "int \<Rightarrow> int \<Rightarrow> policy_error + int" where
  "round_up v step =
     rbind (ceil_div v step) (\<lambda>steps. ok_or (i64_try (steps * step)) POverflow)"

definition u64_of_i64 :: "int \<Rightarrow> int option" where
  "u64_of_i64 n = (if 0 \<le> n then Some n else None)"

section \<open>The policy\<close>

definition capital_of :: "policy_context \<Rightarrow> int" where
  "capital_of c = min (equity (pc_portfolio c)) (pc_starting_capital c)"

definition reduces_position :: "proposal \<Rightarrow> policy_context \<Rightarrow> bool" where
  "reduces_position p c = (case p_side p of
      Buy \<Rightarrow> symbol_position (pc_portfolio c) < 0
    | Sell \<Rightarrow> symbol_position (pc_portfolio c) > 0)"

text \<open>The guards before sizing, in the order of the code.\<close>

definition admission :: "proposal \<Rightarrow> policy_context \<Rightarrow> policy_error + unit" where
  "admission p c =
     (let rules = pc_rules c; market = pc_market c; portfolio = pc_portfolio c;
          capital = capital_of c in
      if \<not> List.member ALLOWED_SYMBOLS (p_symbol p) \<or> p_symbol p \<noteq> mk_symbol market
      then Inl PSymbol
      else if mark_price market \<le> 0 \<or> oracle_price market \<le> 0 \<or> p_limit_price p \<le> 0
        \<or> (case pc_quantity_reference_price c of None \<Rightarrow> False | Some price \<Rightarrow> price \<le> 0)
        \<or> 8 < size_decimals market \<or> equity portfolio \<le> 0 \<or> capital \<le> 0
      then Inl PMarket
      else if delisted market then Inl PDelisted
      else if book_max_age_seconds rules < book_age_seconds market then Inl PStaleBook
      else if max_spread_bps rules < spread_bps market then Inl PSpread
      else if p_reduce_only p \<and> \<not> reduces_position p c then Inl PReduceOnly
      else rbind (loss_bps (trading_day_start_equity portfolio) (equity portfolio)) (\<lambda>day_loss.
      if uint (daily_loss_bps rules) \<le> day_loss then Inl PDailyLoss
      else rbind (loss_bps (peak_equity portfolio) (equity portfolio)) (\<lambda>down.
      if uint (drawdown_bps rules) \<le> down then Inl PDrawdown
      else if max_orders_day rules \<le> orders_today portfolio then Inl POrderLimit
      else Inr ())))"

text \<open>The lot-size rounding: quantity and the notional at the limit price.\<close>

definition size_order :: "proposal \<Rightarrow> policy_context \<Rightarrow> policy_error + int \<times> int" where
  "size_order p c =
     rbind (bps_amount (capital_of c) (uint (p_notional_bps p))) (\<lambda>requested.
       let normalized = max requested MIN_ORDER_MICRO_USDC;
           reference = (case pc_quantity_reference_price c of
                          None \<Rightarrow> p_limit_price p | Some price \<Rightarrow> price) in
       rbind (ceil_div (normalized * QUANTITY_SCALE) reference) (\<lambda>raw_quantity.
       rbind (ok_or (i64_try (10 ^ (8 - unat (size_decimals (pc_market c))))) POverflow) (\<lambda>step.
       rbind (ok_or (i64_try raw_quantity) POverflow) (\<lambda>raw.
       rbind (round_up raw step) (\<lambda>quantity_e8.
       rbind (ok_or (i64_try ((quantity_e8 * p_limit_price p) sdiv QUANTITY_SCALE)) POverflow)
         (\<lambda>actual_notional. Inr (quantity_e8, actual_notional)))))))"

text \<open>The limits on the sized order, in the order of the code.\<close>

definition check_limits :: "proposal \<Rightarrow> policy_context \<Rightarrow> int \<Rightarrow> policy_error + unit" where
  "check_limits p c actual_notional =
     (let rules = pc_rules c; portfolio = pc_portfolio c; capital = capital_of c in
      rbind (bps_amount capital (uint (max_order_bps rules))) (\<lambda>order_cap.
      if order_cap < actual_notional then Inl POrderSize
      else rbind
        (if p_reduce_only p then Inr ()
         else rbind (ok_or (i64_try (case p_side p of
                  Buy \<Rightarrow> symbol_position portfolio + actual_notional
                | Sell \<Rightarrow> symbol_position portfolio - actual_notional)) POverflow) (\<lambda>projected.
              rbind (bps_amount capital (uint (max_position_bps rules))) (\<lambda>cap.
              rbind (ok_or (u64_of_i64 cap) POverflow) (\<lambda>position_cap.
              if position_cap < \<bar>projected\<bar> then Inl PPositionSize else Inr ())))) (\<lambda>_.
      rbind
        (if p_reduce_only p
         then rbind (ok_or (u64_of_i64 actual_notional) POverflow) (\<lambda>n.
              if \<bar>symbol_position portfolio\<bar> < n then Inl PReduceOnly else Inr ())
         else Inr ()) (\<lambda>_.
      if pc_isolated_leverage c = 0 then Inl PMarket
      else rbind (bps_amount capital (uint (cash_reserve_bps rules))) (\<lambda>reserve.
      rbind (ceil_div actual_notional (uint (pc_isolated_leverage c))) (\<lambda>required_margin.
      rbind
        (if p_reduce_only p then Inr ()
         else rbind (ok_or (i64_try required_margin) POverflow) (\<lambda>margin.
              rbind (ok_or (i64_try (available_collateral portfolio - margin)) POverflow) (\<lambda>free.
              if free < reserve then Inl PCashReserve else Inr ()))) (\<lambda>_.
      if (case p_side p of Buy \<Rightarrow> ask_depth (pc_market c) | Sell \<Rightarrow> bid_depth (pc_market c))
           < actual_notional
      then Inl PDepth else Inr ())))))))"

definition evaluate_proposal :: "proposal \<Rightarrow> policy_context \<Rightarrow> policy_error + order_decision" where
  "evaluate_proposal p c =
     rbind (admission p c) (\<lambda>_.
     rbind (size_order p c) (\<lambda>(quantity_e8, actual_notional).
     rbind (check_limits p c actual_notional) (\<lambda>_.
     rbind (ceil_div (actual_notional * 10000) (capital_of c)) (\<lambda>effective_bps.
     rbind (ok_or (u16_try effective_bps) POverflow) (\<lambda>effective_notional_bps.
       Inr \<lparr>o_symbol = p_symbol p, o_side = p_side p, o_quantity_e8 = quantity_e8,
            o_limit_price = p_limit_price p, o_actual_notional = actual_notional,
            o_effective_notional_bps = effective_notional_bps,
            o_reduce_only = p_reduce_only p\<rparr>)))))"

section \<open>Arithmetic of the helpers\<close>

lemma bps_amount_Inr:
  "bps_amount v b = Inr r \<longleftrightarrow> is_i64 ((v * b) sdiv 10000) \<and> r = (v * b) sdiv 10000"
  by (auto simp: bps_amount_def)

lemma bps_amount_pos:
  assumes "bps_amount v b = Inr r" and "0 \<le> v" and "0 \<le> b"
  shows "r = v * b div 10000" and "0 \<le> r"
proof -
  have "0 \<le> v * b" using assms by simp
  then show "r = v * b div 10000" "0 \<le> r"
    using assms by (auto simp: bps_amount_Inr sdiv_nonneg pos_imp_zdiv_nonneg_iff)
qed

lemma ceil_div_Inr:
  "ceil_div a b = Inr q \<longleftrightarrow> 0 \<le> a \<and> 0 < b \<and> is_i128 (a + (b - 1)) \<and> q = (a + (b - 1)) div b"
  by (auto simp: ceil_div_def sdiv_nonneg split: if_splits)

text \<open>The quotient is the least integer whose multiple reaches the numerator.\<close>

lemma ceil_div_least:
  assumes "ceil_div a b = Inr q"
  shows "a \<le> q * b" and "(q - 1) * b < a" and "0 \<le> q"
proof -
  from assms have b: "0 < b" and a: "0 \<le> a" and q: "q = (a + (b - 1)) div b"
    by (auto simp: ceil_div_Inr)
  have eq: "a + (b - 1) = q * b + (a + (b - 1)) mod b"
    by (simp add: q)
  have "0 \<le> (a + (b - 1)) mod b" "(a + (b - 1)) mod b < b"
    using b by simp_all
  with eq show "a \<le> q * b" "(q - 1) * b < a"
    by (simp_all add: left_diff_distrib)
  show "0 \<le> q" using a b q by (simp add: pos_imp_zdiv_nonneg_iff)
qed

lemma ceil_div_pos: "ceil_div a b = Inr q \<Longrightarrow> 0 < a \<Longrightarrow> 0 < q"
  using ceil_div_least [of a b q] by (cases "q = 0") auto

lemma round_up_Inr:
  "round_up v step = Inr r \<longleftrightarrow> (\<exists>k. ceil_div v step = Inr k \<and> is_i64 (k * step) \<and> r = k * step)"
  by (auto simp: round_up_def rbind_eq_Inr)

lemma round_up_least:
  assumes "round_up v step = Inr r"
  shows "step dvd r" and "v \<le> r" and "r - step < v" and "is_i64 r"
proof -
  from assms obtain k where k: "ceil_div v step = Inr k" "is_i64 (k * step)" "r = k * step"
    by (auto simp: round_up_Inr)
  then show "step dvd r" "is_i64 r" by simp_all
  show "v \<le> r" "r - step < v"
    using ceil_div_least [OF k(1)] k(3) by (simp_all add: left_diff_distrib)
qed

lemma loss_bps_Inr:
  assumes "loss_bps high current = Inr l" and "0 < current"
  shows "l = (if high \<le> current then 0 else (high - current) * 10000 div current)"
  using assms by (auto simp: loss_bps_def bps_difference_def split: if_splits)

section \<open>What an accepted proposal guarantees\<close>

lemma evaluate_InrE:
  assumes "evaluate_proposal p c = Inr d"
  obtains e where "admission p c = Inr ()"
    and "size_order p c = Inr (o_quantity_e8 d, o_actual_notional d)"
    and "check_limits p c (o_actual_notional d) = Inr ()"
    and "ceil_div (o_actual_notional d * 10000) (capital_of c) = Inr e"
    and "u16_try e = Some (o_effective_notional_bps d)"
    and "o_symbol d = p_symbol p" and "o_side d = p_side p"
    and "o_limit_price d = p_limit_price p" and "o_reduce_only d = p_reduce_only p"
proof -
  obtain qn where "admission p c = Inr ()" and size: "size_order p c = Inr qn"
    and rest: "(case qn of (q, n) \<Rightarrow> rbind (check_limits p c n) (\<lambda>_.
       rbind (ceil_div (n * 10000) (capital_of c)) (\<lambda>e.
       rbind (ok_or (u16_try e) POverflow) (\<lambda>b.
         Inr \<lparr>o_symbol = p_symbol p, o_side = p_side p, o_quantity_e8 = q,
              o_limit_price = p_limit_price p, o_actual_notional = n,
              o_effective_notional_bps = b, o_reduce_only = p_reduce_only p\<rparr>)))) = Inr d"
    using assms unfolding evaluate_proposal_def by auto
  obtain q n where qn: "qn = (q, n)" by (cases qn)
  from rest[unfolded qn prod.case] obtain e b
    where e: "check_limits p c n = Inr ()" "ceil_div (n * 10000) (capital_of c) = Inr e"
      "u16_try e = Some b"
      "d = \<lparr>o_symbol = p_symbol p, o_side = p_side p, o_quantity_e8 = q,
              o_limit_price = p_limit_price p, o_actual_notional = n,
              o_effective_notional_bps = b, o_reduce_only = p_reduce_only p\<rparr>"
    by (auto simp del: u16_try_eq_Some)
  show thesis
    by (rule that [of e]) (use e qn size \<open>admission p c = Inr ()\<close> in simp_all)
qed

lemma admission_Inr:
  assumes "admission p c = Inr ()"
  shows "List.member ALLOWED_SYMBOLS (p_symbol p)" and "p_symbol p = mk_symbol (pc_market c)"
    and "0 < p_limit_price p" and "0 < equity (pc_portfolio c)" and "0 < capital_of c"
    and "size_decimals (pc_market c) \<le> 8" and "\<not> delisted (pc_market c)"
    and "\<forall>price. pc_quantity_reference_price c = Some price \<longrightarrow> 0 < price"
    and "book_age_seconds (pc_market c) \<le> book_max_age_seconds (pc_rules c)"
    and "spread_bps (pc_market c) \<le> max_spread_bps (pc_rules c)"
    and "p_reduce_only p \<Longrightarrow> reduces_position p c"
    and "orders_today (pc_portfolio c) < max_orders_day (pc_rules c)"
    and "\<exists>l. loss_bps (trading_day_start_equity (pc_portfolio c)) (equity (pc_portfolio c)) = Inr l
             \<and> l < uint (daily_loss_bps (pc_rules c))"
    and "\<exists>l. loss_bps (peak_equity (pc_portfolio c)) (equity (pc_portfolio c)) = Inr l
             \<and> l < uint (drawdown_bps (pc_rules c))"
  using assms unfolding admission_def Let_def
  by (auto simp: not_le not_less split: if_splits option.splits)

lemma size_order_Inr:
  assumes "size_order p c = Inr (q, n)" and "admission p c = Inr ()"
  defines "reference \<equiv> (case pc_quantity_reference_price c of
                          None \<Rightarrow> p_limit_price p | Some price \<Rightarrow> price)"
    and "step \<equiv> 10 ^ (8 - unat (size_decimals (pc_market c)))"
    and "target \<equiv> max (capital_of c * uint (p_notional_bps p) div 10000) MIN_ORDER_MICRO_USDC"
  shows "step dvd q" and "target * QUANTITY_SCALE \<le> q * reference"
    and "(q - step) * reference < target * QUANTITY_SCALE"
    and "0 < q" and "is_i64 q" and "n = q * p_limit_price p div QUANTITY_SCALE" and "is_i64 n"
    and "0 \<le> n"
proof -
  note adm = admission_Inr [OF assms(2)]
  have ref: "0 < reference"
    using adm(3,8) by (auto simp: reference_def split: option.splits)
  obtain req raw where req: "bps_amount (capital_of c) (uint (p_notional_bps p)) = Inr req"
    and raw: "ceil_div (max req MIN_ORDER_MICRO_USDC * QUANTITY_SCALE) reference = Inr raw"
    and q: "round_up raw step = Inr q"
    and n: "n = (q * p_limit_price p) sdiv QUANTITY_SCALE" "is_i64 n"
    using assms(1) unfolding size_order_def Let_def
    by (auto simp: reference_def [symmetric] step_def [symmetric])
  have tgt: "max req MIN_ORDER_MICRO_USDC = target"
    using bps_amount_pos(1) [OF req] adm(5) by (simp add: target_def)
  have step: "0 < step" by (simp add: step_def)
  note least = ceil_div_least [OF raw[unfolded tgt]] and up = round_up_least [OF q]
  show "step dvd q" "is_i64 q" using up by simp_all
  have "raw * reference \<le> q * reference"
    using up(2) ref by simp
  with least(1) show le: "target * QUANTITY_SCALE \<le> q * reference" by linarith
  have "q - step \<le> raw - 1" using up(3) by simp
  then have "(q - step) * reference \<le> (raw - 1) * reference" using ref by simp
  with least(2) show "(q - step) * reference < target * QUANTITY_SCALE" by linarith
  have "0 < target * QUANTITY_SCALE"
    by (simp add: target_def MIN_ORDER_MICRO_USDC_def QUANTITY_SCALE_def)
  with le have "0 < q * reference" by linarith
  then show qpos: "0 < q" using ref by (simp add: zero_less_mult_iff)
  then have "0 \<le> q * p_limit_price p" using adm(3) by simp
  then show "n = q * p_limit_price p div QUANTITY_SCALE"
    using n(1) by (simp add: sdiv_nonneg QUANTITY_SCALE_def)
  then show "0 \<le> n" "is_i64 n"
    using \<open>0 \<le> q * p_limit_price p\<close> n(2)
    by (simp_all add: pos_imp_zdiv_nonneg_iff QUANTITY_SCALE_def)
qed

lemma check_limits_Inr:
  assumes "check_limits p c n = Inr ()" and "0 < capital_of c" and "0 \<le> n"
  shows "n \<le> capital_of c * uint (max_order_bps (pc_rules c)) div 10000"
    and "n \<le> (case p_side p of Buy \<Rightarrow> ask_depth (pc_market c) | Sell \<Rightarrow> bid_depth (pc_market c))"
    and "pc_isolated_leverage c \<noteq> 0"
    and "p_reduce_only p \<Longrightarrow> n \<le> \<bar>symbol_position (pc_portfolio c)\<bar>"
    and "\<not> p_reduce_only p \<Longrightarrow>
           \<bar>case p_side p of Buy \<Rightarrow> symbol_position (pc_portfolio c) + n
             | Sell \<Rightarrow> symbol_position (pc_portfolio c) - n\<bar>
             \<le> capital_of c * uint (max_position_bps (pc_rules c)) div 10000"
    and "\<not> p_reduce_only p \<Longrightarrow> \<exists>margin. ceil_div n (uint (pc_isolated_leverage c)) = Inr margin
           \<and> capital_of c * uint (cash_reserve_bps (pc_rules c)) div 10000
               \<le> available_collateral (pc_portfolio c) - margin"
proof -
  have b: "bps_amount (capital_of c) (uint w) = Inr r \<Longrightarrow> r = capital_of c * uint w div 10000"
    for w :: u16 and r using bps_amount_pos(1) [of "capital_of c" "uint w" r] assms(2) by simp
  show "n \<le> capital_of c * uint (max_order_bps (pc_rules c)) div 10000"
    and "n \<le> (case p_side p of Buy \<Rightarrow> ask_depth (pc_market c) | Sell \<Rightarrow> bid_depth (pc_market c))"
    and "pc_isolated_leverage c \<noteq> 0"
    and "p_reduce_only p \<Longrightarrow> n \<le> \<bar>symbol_position (pc_portfolio c)\<bar>"
    and "\<not> p_reduce_only p \<Longrightarrow>
           \<bar>case p_side p of Buy \<Rightarrow> symbol_position (pc_portfolio c) + n
             | Sell \<Rightarrow> symbol_position (pc_portfolio c) - n\<bar>
             \<le> capital_of c * uint (max_position_bps (pc_rules c)) div 10000"
    and "\<not> p_reduce_only p \<Longrightarrow> \<exists>margin. ceil_div n (uint (pc_isolated_leverage c)) = Inr margin
           \<and> capital_of c * uint (cash_reserve_bps (pc_rules c)) div 10000
               \<le> available_collateral (pc_portfolio c) - margin"
    using assms(1) unfolding check_limits_def Let_def
    by (auto dest!: b simp: not_less u64_of_i64_def split: if_splits)
qed

text \<open>An accepted order cannot take the position out of the \<open>i64\<close> range.\<close>

lemma accepted_projection_i64:
  assumes "evaluate_proposal p c = Inr d" and "is_i64 (symbol_position (pc_portfolio c))"
  shows "is_i64 (case p_side p of Buy \<Rightarrow> symbol_position (pc_portfolio c) + o_actual_notional d
                  | Sell \<Rightarrow> symbol_position (pc_portfolio c) - o_actual_notional d)"
proof -
  from assms(1) obtain e where adm: "admission p c = Inr ()"
    and size: "size_order p c = Inr (o_quantity_e8 d, o_actual_notional d)"
    and lim: "check_limits p c (o_actual_notional d) = Inr ()"
    by (rule evaluate_InrE)
  show ?thesis
  proof (cases "p_reduce_only p")
    case True
    have "reduces_position p c" using admission_Inr(11) [OF adm True] .
    moreover have "o_actual_notional d \<le> \<bar>symbol_position (pc_portfolio c)\<bar>"
      using check_limits_Inr(4) [OF lim admission_Inr(5) [OF adm] size_order_Inr(8) [OF size adm] True] .
    ultimately show ?thesis
      using size_order_Inr(8) [OF size adm] assms(2)
      by (auto simp: reduces_position_def is_i64_def split: side.splits)
  next
    case False
    with lim show ?thesis by (auto simp: check_limits_def Let_def split: if_splits)
  qed
qed

section \<open>The interface to the clients of the policy\<close>

text \<open>
  What the backtest and the live cycle rely on: a decision echoes its proposal, its
  quantity is positive and its notional is the quantity at the limit price, inside the
  order cap and the displayed depth, and the day's order count was below its limit.
\<close>

locale order_policy =
  fixes evaluate :: "proposal \<Rightarrow> policy_context \<Rightarrow> policy_error + order_decision"
  assumes echo: "evaluate p c = Inr d \<Longrightarrow>
      o_symbol d = p_symbol p \<and> o_side d = p_side p \<and> o_limit_price d = p_limit_price p
      \<and> o_reduce_only d = p_reduce_only p"
    and priced: "evaluate p c = Inr d \<Longrightarrow> 0 < o_quantity_e8 d \<and> is_i64 (o_quantity_e8 d)
      \<and> 0 \<le> o_actual_notional d \<and> 0 < o_limit_price d
      \<and> o_actual_notional d = o_quantity_e8 d * o_limit_price d div QUANTITY_SCALE"
    and capped: "evaluate p c = Inr d \<Longrightarrow> 0 < capital_of c
      \<and> o_actual_notional d \<le> capital_of c * uint (max_order_bps (pc_rules c)) div 10000"
    and counted: "evaluate p c = Inr d \<Longrightarrow>
      orders_today (pc_portfolio c) < max_orders_day (pc_rules c)"
    and universe: "evaluate p c = Inr d \<Longrightarrow> List.member ALLOWED_SYMBOLS (p_symbol p)"
begin

lemma notional_le_equity:
  assumes "evaluate p c = Inr d" and "uint (max_order_bps (pc_rules c)) \<le> 10000"
  shows "o_actual_notional d \<le> equity (pc_portfolio c)"
proof -
  note cap = capped [OF assms(1)]
  have "capital_of c * uint (max_order_bps (pc_rules c)) \<le> capital_of c * 10000"
    using cap assms(2) by simp
  then have "capital_of c * uint (max_order_bps (pc_rules c)) div 10000 \<le> capital_of c"
    using zdiv_mono1 [of _ "capital_of c * 10000" 10000] by simp
  moreover have "capital_of c \<le> equity (pc_portfolio c)" by (simp add: capital_of_def)
  ultimately show ?thesis using cap by linarith
qed

lemma count_after_order:
  assumes "evaluate p c = Inr d"
  shows "sat_add (orders_today (pc_portfolio c)) 1 = orders_today (pc_portfolio c) + 1"
    and "orders_today (pc_portfolio c) + 1 \<le> max_orders_day (pc_rules c)"
proof -
  have lt: "unat (orders_today (pc_portfolio c)) < unat (max_orders_day (pc_rules c))"
    using counted [OF assms] by (simp add: word_less_nat_alt)
  moreover have "unat (max_orders_day (pc_rules c)) < 65536"
    using unsigned_less [of "max_orders_day (pc_rules c)"] by simp
  ultimately have small: "unat (orders_today (pc_portfolio c)) + 1 < 65536" by linarith
  then show "sat_add (orders_today (pc_portfolio c)) 1 = orders_today (pc_portfolio c) + 1"
    by (simp add: sat_add_def)
  have "unat (orders_today (pc_portfolio c) + 1) = unat (orders_today (pc_portfolio c)) + 1"
    using small by (simp add: unat_word_ariths)
  then show "orders_today (pc_portfolio c) + 1 \<le> max_orders_day (pc_rules c)"
    using lt by (simp add: word_le_nat_alt)
qed

end

interpretation pol: order_policy evaluate_proposal
proof
  fix p c d
  assume ok: "evaluate_proposal p c = Inr d"
  from ok obtain e where adm: "admission p c = Inr ()"
    and size: "size_order p c = Inr (o_quantity_e8 d, o_actual_notional d)"
    and lim: "check_limits p c (o_actual_notional d) = Inr ()"
    and f: "o_symbol d = p_symbol p" "o_side d = p_side p"
      "o_limit_price d = p_limit_price p" "o_reduce_only d = p_reduce_only p"
    by (rule evaluate_InrE)
  note adms = admission_Inr [OF adm] and sizes = size_order_Inr [OF size adm]
  note lims = check_limits_Inr [OF lim adms(5) sizes(8)]
  show "o_symbol d = p_symbol p \<and> o_side d = p_side p \<and> o_limit_price d = p_limit_price p
      \<and> o_reduce_only d = p_reduce_only p" using f by simp
  show "0 < o_quantity_e8 d \<and> is_i64 (o_quantity_e8 d)
      \<and> 0 \<le> o_actual_notional d \<and> 0 < o_limit_price d
      \<and> o_actual_notional d = o_quantity_e8 d * o_limit_price d div QUANTITY_SCALE"
    using sizes adms(3) f by simp
  show "0 < capital_of c
      \<and> o_actual_notional d \<le> capital_of c * uint (max_order_bps (pc_rules c)) div 10000"
    using adms(5) lims(1) by simp
  show "orders_today (pc_portfolio c) < max_orders_day (pc_rules c)" using adms(12) .
  show "List.member ALLOWED_SYMBOLS (p_symbol p)" using adms(1) .
qed

section \<open>A concrete order\<close>

text \<open>The first unit test of the source: 1\% of 999 USDC in ETH, raised to the venue minimum.\<close>

definition sample_market :: market_state where
  "sample_market = \<lparr>mk_symbol = ''ETH'', mark_price = 2000000000, oracle_price = 2000000000,
     spread_bps = 2, book_age_seconds = 1, ask_depth = 100000000, bid_depth = 100000000,
     size_decimals = 4, delisted = False\<rparr>"

definition sample_portfolio :: portfolio_state where
  "sample_portfolio = \<lparr>equity = 999000000, available_collateral = 999000000,
     trading_day_start_equity = 999000000, peak_equity = 999000000, symbol_position = 0,
     orders_today = 0\<rparr>"

definition sample_context :: "u8 \<Rightarrow> policy_context" where
  "sample_context leverage = \<lparr>pc_rules = default_rules, pc_market = sample_market,
     pc_portfolio = sample_portfolio, pc_starting_capital = 999000000,
     pc_quantity_reference_price = None, pc_isolated_leverage = leverage\<rparr>"

definition sample_proposal :: proposal where
  "sample_proposal = \<lparr>p_symbol = ''ETH'', p_side = Buy, p_notional_bps = 100,
     p_limit_price = 2000000000, p_reduce_only = False\<rparr>"

definition sample_order :: order_decision where
  "sample_order = \<lparr>o_symbol = ''ETH'', o_side = Buy, o_quantity_e8 = 500000,
     o_limit_price = 2000000000, o_actual_notional = 10000000, o_effective_notional_bps = 101,
     o_reduce_only = False\<rparr>"

lemma sample_accepted: "evaluate_proposal sample_proposal (sample_context 1) = Inr sample_order"
  by code_simp

lemma sample_accepted_leveraged:
  "evaluate_proposal sample_proposal (sample_context 10) = Inr sample_order"
  by code_simp

section \<open>Properties\<close>

text \<open>
  C20. A proposal the policy accepts stays inside every cap: the sizing capital is at most
  the arena's starting capital and the account's equity; the notional is at most the order
  cap and the displayed opposing depth; a reducing order is at most the position it
  reduces and on the opposite side; an opening order keeps the projected position inside
  the position cap and leaves the collateral reserve after its margin.
\<close>

theorem accepted_order_within_caps:
  assumes "evaluate_proposal p c = Inr d"
  shows "capital_of c \<le> pc_starting_capital c \<and> capital_of c \<le> equity (pc_portfolio c)
    \<and> 0 < capital_of c
    \<and> o_actual_notional d \<le> capital_of c * uint (max_order_bps (pc_rules c)) div 10000
    \<and> o_actual_notional d \<le> (case o_side d of Buy \<Rightarrow> ask_depth (pc_market c)
                                          | Sell \<Rightarrow> bid_depth (pc_market c))
    \<and> (if o_reduce_only d
       then reduces_position p c \<and> o_actual_notional d \<le> \<bar>symbol_position (pc_portfolio c)\<bar>
       else \<bar>case o_side d of Buy \<Rightarrow> symbol_position (pc_portfolio c) + o_actual_notional d
               | Sell \<Rightarrow> symbol_position (pc_portfolio c) - o_actual_notional d\<bar>
              \<le> capital_of c * uint (max_position_bps (pc_rules c)) div 10000
         \<and> (\<exists>margin. o_actual_notional d \<le> margin * uint (pc_isolated_leverage c)
              \<and> capital_of c * uint (cash_reserve_bps (pc_rules c)) div 10000
                  \<le> available_collateral (pc_portfolio c) - margin))"
proof -
  from assms obtain e where adm: "admission p c = Inr ()"
    and size: "size_order p c = Inr (o_quantity_e8 d, o_actual_notional d)"
    and lim: "check_limits p c (o_actual_notional d) = Inr ()"
    and f: "o_symbol d = p_symbol p" "o_side d = p_side p"
      "o_limit_price d = p_limit_price p" "o_reduce_only d = p_reduce_only p"
    by (rule evaluate_InrE)
  note adms = admission_Inr [OF adm]
  note lims = check_limits_Inr [OF lim adms(5) size_order_Inr(8) [OF size adm]]
  have cap: "capital_of c \<le> pc_starting_capital c" "capital_of c \<le> equity (pc_portfolio c)"
    by (simp_all add: capital_of_def)
  show ?thesis
  proof (cases "p_reduce_only p")
    case True
    with cap adms(5,11) lims(1,2,4) f show ?thesis by simp
  next
    case False
    from lims(6) [OF False] obtain margin
      where m: "ceil_div (o_actual_notional d) (uint (pc_isolated_leverage c)) = Inr margin"
        "capital_of c * uint (cash_reserve_bps (pc_rules c)) div 10000
           \<le> available_collateral (pc_portfolio c) - margin" by blast
    have "o_actual_notional d \<le> margin * uint (pc_isolated_leverage c)"
      by (rule ceil_div_least(1) [OF m(1)])
    with m(2) cap adms(5) lims(1,2) lims(5) [OF False] f False show ?thesis by auto
  qed
qed

theorem accepted_order_within_caps_witness:
  "evaluate_proposal sample_proposal (sample_context 1) = Inr sample_order
    \<and> o_actual_notional sample_order
        \<le> capital_of (sample_context 1) * uint (max_order_bps (pc_rules (sample_context 1))) div 10000"
  using accepted_order_within_caps [OF sample_accepted] sample_accepted by blast

text \<open>
  C21. The quantity of an accepted order is the least positive multiple of the venue's lot
  size whose value at the reference price reaches the larger of the requested share of the
  capital and the 10 USDC venue minimum, and its notional is its value at the limit price.
\<close>

theorem accepted_order_least_lot:
  assumes "evaluate_proposal p c = Inr d"
  defines "reference \<equiv> (case pc_quantity_reference_price c of
                          None \<Rightarrow> p_limit_price p | Some price \<Rightarrow> price)"
    and "lot \<equiv> 10 ^ (8 - unat (size_decimals (pc_market c)))"
    and "target \<equiv> max (capital_of c * uint (p_notional_bps p) div 10000) MIN_ORDER_MICRO_USDC"
  shows "lot dvd o_quantity_e8 d \<and> 0 < o_quantity_e8 d
    \<and> target * QUANTITY_SCALE \<le> o_quantity_e8 d * reference
    \<and> (\<forall>q. lot dvd q \<longrightarrow> target * QUANTITY_SCALE \<le> q * reference \<longrightarrow> o_quantity_e8 d \<le> q)
    \<and> o_actual_notional d = o_quantity_e8 d * o_limit_price d div QUANTITY_SCALE"
proof -
  from assms(1) obtain e where adm: "admission p c = Inr ()"
    and size: "size_order p c = Inr (o_quantity_e8 d, o_actual_notional d)"
    and price: "o_limit_price d = p_limit_price p"
    by (rule evaluate_InrE)
  note s = size_order_Inr [OF size adm, folded reference_def lot_def target_def]
  have ref: "0 < reference"
    using admission_Inr(3,8) [OF adm] by (auto simp: reference_def split: option.splits)
  have "o_quantity_e8 d \<le> q"
    if q: "lot dvd q" "target * QUANTITY_SCALE \<le> q * reference" for q
  proof (rule ccontr)
    assume "\<not> o_quantity_e8 d \<le> q"
    moreover have "lot dvd o_quantity_e8 d - q" using s(1) q(1) by (rule dvd_diff)
    ultimately have "lot \<le> o_quantity_e8 d - q" by (simp add: zdvd_imp_le)
    then have "q * reference \<le> (o_quantity_e8 d - lot) * reference" using ref by simp
    then show False using s(3) q(2) by linarith
  qed
  then show ?thesis using s price by simp
qed

theorem accepted_order_least_lot_witness:
  "evaluate_proposal sample_proposal (sample_context 1) = Inr sample_order
    \<and> 0 < o_quantity_e8 sample_order"
  using accepted_order_least_lot [OF sample_accepted] sample_accepted by blast

text \<open>
  The isolated leverage only decides how much margin an order needs: two contexts that
  differ in leverage alone and both accept a proposal give the same order.
\<close>

theorem leverage_does_not_change_order:
  assumes "evaluate_proposal p c = Inr d"
    and "evaluate_proposal p (c\<lparr>pc_isolated_leverage := l\<rparr>) = Inr d'"
  shows "d' = d"
proof -
  have "size_order p (c\<lparr>pc_isolated_leverage := l\<rparr>) = size_order p c"
    by (simp add: size_order_def capital_of_def)
  moreover have "capital_of (c\<lparr>pc_isolated_leverage := l\<rparr>) = capital_of c"
    by (simp add: capital_of_def)
  ultimately show ?thesis
    using assms by (elim evaluate_InrE) (auto intro!: order_decision.equality)
qed

theorem leverage_does_not_change_order_witness:
  "evaluate_proposal sample_proposal ((sample_context 1)\<lparr>pc_isolated_leverage := 10\<rparr>)
     = evaluate_proposal sample_proposal (sample_context 1)"
proof -
  obtain d where d: "evaluate_proposal sample_proposal
      ((sample_context 1)\<lparr>pc_isolated_leverage := 10\<rparr>) = Inr d"
    using sample_accepted_leveraged by (simp add: sample_context_def)
  have "d = sample_order" by (rule leverage_does_not_change_order [OF sample_accepted d])
  with d sample_accepted show ?thesis by simp
qed

text \<open>
  The effective size an accepted order reports, in basis points of the capital rounded
  up, never exceeds the arena's order cap, so the narrowing to \<open>u16\<close> cannot fail for it.
\<close>

theorem effective_bps_within_cap:
  assumes "evaluate_proposal p c = Inr d"
  shows "o_effective_notional_bps d \<le> max_order_bps (pc_rules c)
    \<and> o_actual_notional d * 10000 \<le> uint (o_effective_notional_bps d) * capital_of c"
proof -
  from assms obtain e where e: "ceil_div (o_actual_notional d * 10000) (capital_of c) = Inr e"
    "u16_try e = Some (o_effective_notional_bps d)"
    by (rule evaluate_InrE)
  note cap = pol.capped [OF assms] and least = ceil_div_least [OF e(1)]
  have eq: "uint (o_effective_notional_bps d) = e" by (rule uint_u16_try [OF e(2)])
  have "o_actual_notional d * 10000 \<le> uint (max_order_bps (pc_rules c)) * capital_of c"
    using cap by (simp add: le_div_iff_int mult.commute)
  then have "(e - 1) * capital_of c < uint (max_order_bps (pc_rules c)) * capital_of c"
    using least(2) by linarith
  then have "e \<le> uint (max_order_bps (pc_rules c))"
    using cap by (simp add: mult_less_cancel_right)
  then show ?thesis using eq least(1) by (simp add: word_le_def)
qed

theorem effective_bps_within_cap_witness:
  "evaluate_proposal sample_proposal (sample_context 1) = Inr sample_order
    \<and> o_effective_notional_bps sample_order \<le> max_order_bps (pc_rules (sample_context 1))"
  using effective_bps_within_cap [OF sample_accepted] sample_accepted by blast

text \<open>
  An accepted proposal passed every market and loss gate: an arena symbol that is
  listed, fresh evidence and spread, an order count below the daily limit, and losses from
  the day's start and from the peak below their limits, measured against current equity.
\<close>

theorem accepted_order_passed_gates:
  assumes "evaluate_proposal p c = Inr d"
  shows "o_symbol d \<in> set ALLOWED_SYMBOLS \<and> \<not> delisted (pc_market c)
    \<and> book_age_seconds (pc_market c) \<le> book_max_age_seconds (pc_rules c)
    \<and> spread_bps (pc_market c) \<le> max_spread_bps (pc_rules c)
    \<and> orders_today (pc_portfolio c) < max_orders_day (pc_rules c)
    \<and> (trading_day_start_equity (pc_portfolio c) - equity (pc_portfolio c)) * 10000
        < uint (daily_loss_bps (pc_rules c)) * equity (pc_portfolio c)
    \<and> (peak_equity (pc_portfolio c) - equity (pc_portfolio c)) * 10000
        < uint (drawdown_bps (pc_rules c)) * equity (pc_portfolio c)"
proof -
  from assms obtain e where adm: "admission p c = Inr ()" and sym: "o_symbol d = p_symbol p"
    by (rule evaluate_InrE)
  note a = admission_Inr [OF adm]
  have loss: "(high - equity (pc_portfolio c)) * 10000 < uint w * equity (pc_portfolio c)"
    if "\<exists>l. loss_bps high (equity (pc_portfolio c)) = Inr l \<and> l < uint w" for high :: int and w :: u16
  proof -
    from that obtain l where l: "loss_bps high (equity (pc_portfolio c)) = Inr l" "l < uint w" by blast
    have eq: "l = (if high \<le> equity (pc_portfolio c) then 0
        else (high - equity (pc_portfolio c)) * 10000 div equity (pc_portfolio c))"
      by (rule loss_bps_Inr [OF l(1) a(4)])
    show ?thesis
    proof (cases "high \<le> equity (pc_portfolio c)")
      case True
      then have "(high - equity (pc_portfolio c)) * 10000 \<le> 0" by simp
      moreover have "0 < uint w * equity (pc_portfolio c)" using eq True l(2) a(4) by simp
      ultimately show ?thesis by linarith
    next
      case False
      then have "(high - equity (pc_portfolio c)) * 10000 div equity (pc_portfolio c) < uint w"
        using eq l(2) by simp
      then show ?thesis by (simp only: div_less_iff_int [OF a(4)])
    qed
  qed
  show ?thesis
    using a(1,7,9,10,12) sym loss [OF a(13)] loss [OF a(14)] by simp
qed

theorem accepted_order_passed_gates_witness:
  "evaluate_proposal sample_proposal (sample_context 1) = Inr sample_order
    \<and> orders_today (pc_portfolio (sample_context 1)) < max_orders_day (pc_rules (sample_context 1))"
  using accepted_order_passed_gates [OF sample_accepted] sample_accepted by blast

end
