(* ===== verification/Backtest.thy ===== *)
theory Backtest
  imports Policy
begin

text \<open>
  The deterministic replay of \<open>crates/crow-agent-core/src/backtest.rs\<close>: a proposal decided on
  a closed candle is executed at the next candle's open with spread and slippage against
  it, if its limit still crosses, and only after the live policy accepts it at the fill
  price. The engine is its two fields, the risk rules and the execution assumptions. Two
  drivers: a static list of proposals on one symbol, and scheduled proposals on the three
  symbols in lock step with funding, daily counters and an equity curve.
\<close>

section \<open>Data\<close>

record candle =
  c_symbol :: string
  c_open_time :: int
  c_close_time :: int
  c_open :: int
  c_high :: int
  c_low :: int
  c_close :: int
  c_volume :: int
  c_funding_rate :: int
  c_size_decimals :: u8

record simulated_fill =
  f_symbol :: string
  f_side :: side
  f_quantity_e8 :: int
  f_price :: int
  f_fee :: int
  f_candle_open_time :: int

record equity_point =
  ep_close_time :: int
  ep_equity :: int

record backtest_result =
  br_ending_cash :: int
  br_ending_equity :: int
  br_fees :: int
  br_funding :: int
  br_fills :: "simulated_fill list"
  br_equity_curve :: "equity_point list"
  br_policy_rejections :: u32

record scheduled_proposal =
  sp_decision_open_time :: int
  sp_proposal :: proposal

datatype backtest_error = CandleOrder | Overflow | Policy policy_error

record engine =
  en_rules :: risk_rules
  en_execution :: execution_assumptions

definition DAY_MILLIS :: int where "DAY_MILLIS = 86400000"

section \<open>One execution\<close>

definition fill_price_of :: "engine \<Rightarrow> candle \<Rightarrow> side \<Rightarrow> backtest_error + int" where
  "fill_price_of en next_candle sd =
     (let direction = (case sd of Buy \<Rightarrow> 1 | Sell \<Rightarrow> - 1);
          impact_bps = uint (half_spread_bps (en_execution en) + slippage_bps (en_execution en)) in
      ok_or (i64_try ((c_open next_candle * (10000 + direction * impact_bps)) sdiv 10000)) Overflow)"

definition replay_market :: "engine \<Rightarrow> candle \<Rightarrow> market_state" where
  "replay_market en decision = \<lparr>mk_symbol = c_symbol decision, mark_price = c_close decision,
     oracle_price = c_close decision,
     spread_bps = sat_mul (half_spread_bps (en_execution en)) 2, book_age_seconds = 0,
     ask_depth = i64_max div 4, bid_depth = i64_max div 4,
     size_decimals = c_size_decimals decision, delisted = False\<rparr>"

definition replay_context :: "engine \<Rightarrow> candle \<Rightarrow> portfolio_state \<Rightarrow> policy_context" where
  "replay_context en decision portfolio = \<lparr>pc_rules = en_rules en,
     pc_market = replay_market en decision, pc_portfolio = portfolio,
     pc_starting_capital = equity portfolio, pc_quantity_reference_price = None,
     pc_isolated_leverage = rr_isolated_leverage (en_rules en)\<rparr>"

definition execute_next_open ::
    "engine \<Rightarrow> candle \<Rightarrow> candle \<Rightarrow> proposal \<Rightarrow> portfolio_state
      \<Rightarrow> backtest_error + simulated_fill option" where
  "execute_next_open en decision next_candle p portfolio =
     (if c_symbol decision \<noteq> c_symbol next_candle \<or> c_symbol decision \<noteq> p_symbol p
         \<or> c_close_time next_candle \<le> c_close_time decision
         \<or> c_open_time next_candle < c_close_time decision
      then Inl CandleOrder
      else rbind (fill_price_of en next_candle (p_side p)) (\<lambda>fill_price.
        let crosses = (case p_side p of Buy \<Rightarrow> fill_price \<le> p_limit_price p
                                      | Sell \<Rightarrow> p_limit_price p \<le> fill_price) in
        if \<not> crosses then Inr None
        else rbind (map_err Policy (evaluate_proposal (p\<lparr>p_limit_price := fill_price\<rparr>)
                      (replay_context en decision portfolio))) (\<lambda>order.
          rbind (ok_or (i64_try ((o_actual_notional order
                    * uint (taker_fee_bps (en_execution en))) sdiv 10000)) Overflow) (\<lambda>fee.
            Inr (Some \<lparr>f_symbol = p_symbol p, f_side = p_side p,
                       f_quantity_e8 = o_quantity_e8 order, f_price = fill_price, f_fee = fee,
                       f_candle_open_time = c_open_time next_candle\<rparr>)))))"

definition position_notional :: "int \<Rightarrow> int \<Rightarrow> backtest_error + int" where
  "position_notional quantity_e8 price =
     ok_or (i64_try ((quantity_e8 * price) sdiv 100000000)) Overflow"

section \<open>The static replay\<close>

record static_state =
  st_cash :: int
  st_position :: int
  st_fills :: "simulated_fill list"
  st_rejections :: u32

definition static_portfolio :: "int \<Rightarrow> static_state \<Rightarrow> portfolio_state" where
  "static_portfolio starting_cash s = \<lparr>equity = starting_cash, available_collateral = st_cash s,
     trading_day_start_equity = starting_cash, peak_equity = starting_cash,
     symbol_position = st_position s,
     orders_today = (if length (st_fills s) < 65536 then of_nat (length (st_fills s)) else - 1)\<rparr>"

definition static_fill :: "static_state \<Rightarrow> simulated_fill \<Rightarrow> backtest_error + static_state" where
  "static_fill s f =
     rbind (position_notional (f_quantity_e8 f) (f_price f)) (\<lambda>notional.
       case f_side f of
         Buy \<Rightarrow>
           rbind (ok_or (i64_try (st_cash s - notional)) Overflow) (\<lambda>v.
           rbind (ok_or (i64_try (v - f_fee f)) Overflow) (\<lambda>cash.
           rbind (ok_or (i64_try (st_position s + notional)) Overflow) (\<lambda>position.
             Inr (s\<lparr>st_cash := cash, st_position := position, st_fills := st_fills s @ [f]\<rparr>))))
       | Sell \<Rightarrow>
           rbind (ok_or (i64_try (st_cash s + notional)) Overflow) (\<lambda>v.
           rbind (ok_or (i64_try (v - f_fee f)) Overflow) (\<lambda>cash.
             Inr (s\<lparr>st_cash := cash, st_position := i64_sat (st_position s - notional),
                    st_fills := st_fills s @ [f]\<rparr>))))"

definition static_step ::
    "engine \<Rightarrow> int \<Rightarrow> static_state \<Rightarrow> (candle \<times> candle) \<times> proposal option
      \<Rightarrow> backtest_error + static_state" where
  "static_step en starting_cash s x =
     (case x of ((decision, next_candle), proposal) \<Rightarrow>
        (case proposal of
           None \<Rightarrow> Inr s
         | Some p \<Rightarrow>
             (case execute_next_open en decision next_candle p (static_portfolio starting_cash s) of
                Inr (Some fill) \<Rightarrow> static_fill s fill
              | Inr None \<Rightarrow> Inr s
              | Inl (Policy e) \<Rightarrow> Inr (s\<lparr>st_rejections := sat_add (st_rejections s) 1\<rparr>)
              | Inl e \<Rightarrow> Inl e)))"

definition total_fees :: "simulated_fill list \<Rightarrow> backtest_error + int" where
  "total_fees fills = rfold (\<lambda>total f. ok_or (i64_try (total + f_fee f)) Overflow) 0 fills"

definition run_static_proposals ::
    "engine \<Rightarrow> candle list \<Rightarrow> proposal option list \<Rightarrow> int \<Rightarrow> backtest_error + backtest_result" where
  "run_static_proposals en candles proposals starting_cash =
     (if length candles < 2 \<or> length proposals + 1 \<noteq> length candles then Inl CandleOrder
      else rbind (rfold (static_step en starting_cash)
                   \<lparr>st_cash = starting_cash, st_position = 0, st_fills = [], st_rejections = 0\<rparr>
                   (zip (zip candles (tl candles)) proposals)) (\<lambda>s.
        rbind (ok_or (i64_try (st_cash s + st_position s)) Overflow) (\<lambda>ending_equity.
        rbind (total_fees (st_fills s)) (\<lambda>fees.
          Inr \<lparr>br_ending_cash = st_cash s, br_ending_equity = ending_equity, br_fees = fees,
               br_funding = 0, br_fills = st_fills s, br_equity_curve = [],
               br_policy_rejections = st_rejections s\<rparr>))))"

section \<open>The synchronized replay\<close>

fun chunks3 :: "'a list \<Rightarrow> 'a list list" where
  "chunks3 (a # b # c # xs) = [a, b, c] # chunks3 xs"
| "chunks3 _ = []"

definition interval_ok :: "candle list option \<Rightarrow> candle list \<Rightarrow> bool" where
  "interval_ok previous interval =
     list_all (\<lambda>(i, c).
        c_symbol c = ALLOWED_SYMBOLS ! i
        \<and> c_open_time c = c_open_time (hd interval)
        \<and> c_close_time c = wrap_i64 (wrap_i64 (c_open_time (hd interval) + 900000) - 1)
        \<and> c_size_decimals c \<le> 8
        \<and> (case previous of None \<Rightarrow> True
            | Some pv \<Rightarrow> c_open_time c = wrap_i64 (c_open_time (pv ! i) + 900000)))
       (zip [0..<3] interval)"

fun intervals_ok :: "candle list option \<Rightarrow> candle list list \<Rightarrow> bool" where
  "intervals_ok previous [] = True"
| "intervals_ok previous (i # is) = (interval_ok previous i \<and> intervals_ok (Some i) is)"

definition schedule_proposals ::
    "scheduled_proposal list \<Rightarrow> backtest_error + (int \<times> proposal) list" where
  "schedule_proposals proposals =
     rfold (\<lambda>m sp. if map_of m (sp_decision_open_time sp) \<noteq> None then Inl CandleOrder
                   else Inr (bt_insert (sp_decision_open_time sp) (sp_proposal sp) m)) [] proposals"

type_synonym positions = "(string \<times> int) list"

record sync_state =
  sy_cash :: int
  sy_positions :: positions
  sy_fills :: "simulated_fill list"
  sy_curve :: "equity_point list"
  sy_fees :: int
  sy_funding :: int
  sy_rejections :: u32
  sy_peak :: int
  sy_day :: int
  sy_day_start :: int
  sy_orders_today :: u16
  sy_scheduled :: "(int \<times> proposal) list"

definition portfolio_equity :: "int \<Rightarrow> positions \<Rightarrow> candle list \<Rightarrow> backtest_error + int" where
  "portfolio_equity cash positions candles =
     rfold (\<lambda>eq c.
        rbind (ok_or (map_of positions (c_symbol c)) CandleOrder) (\<lambda>quantity.
        rbind (position_notional quantity (c_close c)) (\<lambda>notional.
          ok_or (i64_try (eq + notional)) Overflow))) cash candles"

definition pay_funding :: "sync_state \<Rightarrow> candle \<Rightarrow> backtest_error + sync_state" where
  "pay_funding s c =
     rbind (ok_or (map_of (sy_positions s) (c_symbol c)) CandleOrder) (\<lambda>quantity.
     rbind (position_notional quantity (c_close c)) (\<lambda>notional.
     rbind (ok_or (i64_try ((notional * c_funding_rate c) sdiv 1000000000000)) Overflow) (\<lambda>payment.
     rbind (ok_or (i64_try (sy_cash s - payment)) Overflow) (\<lambda>cash.
     rbind (ok_or (i64_try (sy_funding s + payment)) Overflow) (\<lambda>funding.
       Inr (s\<lparr>sy_cash := cash, sy_funding := funding\<rparr>))))))"

text \<open>The new day's counters and the running peak, at the interval's equity.\<close>

definition roll_day :: "sync_state \<Rightarrow> candle list \<Rightarrow> int \<Rightarrow> sync_state" where
  "roll_day s interval eq =
     (let current_day = c_close_time (hd interval) sdiv DAY_MILLIS;
          s' = (if current_day \<noteq> sy_day s
                then s\<lparr>sy_day := current_day, sy_day_start := eq, sy_orders_today := 0\<rparr> else s)
      in s'\<lparr>sy_peak := max (sy_peak s') eq\<rparr>)"

definition sync_fill :: "sync_state \<Rightarrow> simulated_fill \<Rightarrow> backtest_error + sync_state" where
  "sync_fill s f =
     rbind (position_notional (f_quantity_e8 f) (f_price f)) (\<lambda>notional.
     rbind (ok_or (map_of (sy_positions s) (f_symbol f)) CandleOrder) (\<lambda>held.
     rbind (case f_side f of
         Buy \<Rightarrow>
           rbind (ok_or (i64_try (sy_cash s - notional)) Overflow) (\<lambda>v.
           rbind (ok_or (i64_try (v - f_fee f)) Overflow) (\<lambda>cash.
           rbind (ok_or (i64_try (held + f_quantity_e8 f)) Overflow) (\<lambda>held'. Inr (cash, held'))))
       | Sell \<Rightarrow>
           if held < f_quantity_e8 f then Inl (Policy PReduceOnly)
           else
             rbind (ok_or (i64_try (sy_cash s + notional)) Overflow) (\<lambda>v.
             rbind (ok_or (i64_try (v - f_fee f)) Overflow) (\<lambda>cash.
               Inr (cash, wrap_i64 (held - f_quantity_e8 f))))) (\<lambda>(cash, held').
     rbind (ok_or (i64_try (sy_fees s + f_fee f)) Overflow) (\<lambda>fees.
       Inr (s\<lparr>sy_cash := cash, sy_positions := bt_insert (f_symbol f) held' (sy_positions s),
              sy_fees := fees, sy_orders_today := sat_add (sy_orders_today s) 1,
              sy_fills := sy_fills s @ [f]\<rparr>)))))"

definition sync_portfolio :: "sync_state \<Rightarrow> int \<Rightarrow> int \<Rightarrow> portfolio_state" where
  "sync_portfolio s eq position = \<lparr>equity = eq, available_collateral = sy_cash s,
     trading_day_start_equity = sy_day_start s, peak_equity = sy_peak s,
     symbol_position = position, orders_today = sy_orders_today s\<rparr>"

fun symbol_index :: "string list \<Rightarrow> string \<Rightarrow> nat option" where
  "symbol_index [] s = None"
| "symbol_index (x # xs) s = (if x = s then Some 0 else map_option Suc (symbol_index xs s))"

definition sync_decide ::
    "engine \<Rightarrow> candle list \<Rightarrow> candle list option \<Rightarrow> sync_state \<Rightarrow> int \<Rightarrow> proposal
      \<Rightarrow> backtest_error + sync_state" where
  "sync_decide en interval next_interval s eq p =
     rbind (ok_or next_interval CandleOrder) (\<lambda>nxt.
     rbind (ok_or (symbol_index ALLOWED_SYMBOLS (p_symbol p)) CandleOrder) (\<lambda>i.
     rbind (ok_or (map_of (sy_positions s) (p_symbol p)) CandleOrder) (\<lambda>quantity.
     rbind (position_notional quantity (c_close (interval ! i))) (\<lambda>position.
       case execute_next_open en (interval ! i) (nxt ! i) p (sync_portfolio s eq position) of
         Inr (Some fill) \<Rightarrow> sync_fill s fill
       | Inr None \<Rightarrow> Inr s
       | Inl (Policy e) \<Rightarrow> Inr (s\<lparr>sy_rejections := sat_add (sy_rejections s) 1\<rparr>)
       | Inl e \<Rightarrow> Inl e))))"

definition sync_step ::
    "engine \<Rightarrow> candle list \<Rightarrow> candle list option \<Rightarrow> sync_state \<Rightarrow> backtest_error + sync_state" where
  "sync_step en interval next_interval s =
     rbind (rfold pay_funding s interval) (\<lambda>s1.
     rbind (portfolio_equity (sy_cash s1) (sy_positions s1) interval) (\<lambda>eq.
       let s2 = roll_day s1 interval eq; opened = c_open_time (hd interval) in
     rbind (case map_of (sy_scheduled s2) opened of
         None \<Rightarrow> Inr (s2, eq)
       | Some p \<Rightarrow>
           rbind (sync_decide en interval next_interval
                    (s2\<lparr>sy_scheduled := bt_remove opened (sy_scheduled s2)\<rparr>) eq p) (\<lambda>s3.
           rbind (portfolio_equity (sy_cash s3) (sy_positions s3) interval) (\<lambda>eq'.
             Inr (s3\<lparr>sy_peak := max (sy_peak s3) eq'\<rparr>, eq')))) (\<lambda>(s4, eq4).
       Inr (s4\<lparr>sy_curve := sy_curve s4
              @ [\<lparr>ep_close_time = c_close_time (hd interval), ep_equity = eq4\<rparr>]\<rparr>))))"

fun sync_loop :: "engine \<Rightarrow> candle list list \<Rightarrow> sync_state \<Rightarrow> backtest_error + sync_state" where
  "sync_loop en [] s = Inr s"
| "sync_loop en (i # is) s =
     rbind (sync_step en i (case is of [] \<Rightarrow> None | n # _ \<Rightarrow> Some n) s) (\<lambda>s'. sync_loop en is s')"

definition sync_start ::
    "candle list list \<Rightarrow> (int \<times> proposal) list \<Rightarrow> int \<Rightarrow> sync_state" where
  "sync_start intervals scheduled starting_cash =
     \<lparr>sy_cash = starting_cash, sy_positions = [(''BTC'', 0), (''ETH'', 0), (''SOL'', 0)],
      sy_fills = [], sy_curve = [], sy_fees = 0, sy_funding = 0, sy_rejections = 0,
      sy_peak = starting_cash, sy_day = c_close_time (hd (hd intervals)) sdiv DAY_MILLIS,
      sy_day_start = starting_cash, sy_orders_today = 0, sy_scheduled = scheduled\<rparr>"

definition run_synchronized_proposals ::
    "engine \<Rightarrow> candle list \<Rightarrow> scheduled_proposal list \<Rightarrow> int \<Rightarrow> backtest_error + backtest_result" where
  "run_synchronized_proposals en candles proposals starting_cash =
     (if starting_cash \<le> 0 \<or> length candles < 6 \<or> length candles mod 3 \<noteq> 0
      then Inl CandleOrder
      else let intervals = chunks3 candles in
      if \<not> intervals_ok None intervals then Inl CandleOrder
      else rbind (schedule_proposals proposals) (\<lambda>scheduled.
      rbind (sync_loop en intervals (sync_start intervals scheduled starting_cash)) (\<lambda>s.
      if sy_scheduled s \<noteq> [] then Inl CandleOrder
      else rbind (portfolio_equity (sy_cash s) (sy_positions s) (last intervals)) (\<lambda>ending_equity.
        Inr \<lparr>br_ending_cash = sy_cash s, br_ending_equity = ending_equity, br_fees = sy_fees s,
             br_funding = sy_funding s, br_fills = sy_fills s, br_equity_curve = sy_curve s,
             br_policy_rejections = sy_rejections s\<rparr>))))"

section \<open>One execution: its result\<close>

lemma execute_next_open_Some:
  assumes "execute_next_open en d n p pf = Inr (Some f)"
  obtains order where
    "evaluate_proposal (p\<lparr>p_limit_price := f_price f\<rparr>) (replay_context en d pf) = Inr order"
    and "fill_price_of en n (p_side p) = Inr (f_price f)"
    and "f_symbol f = p_symbol p" and "f_side f = p_side p"
    and "f_quantity_e8 f = o_quantity_e8 order" and "0 < f_quantity_e8 f" and "0 < f_price f"
    and "position_notional (f_quantity_e8 f) (f_price f) = Inr (o_actual_notional order)"
    and "f_fee f = o_actual_notional order * uint (taker_fee_bps (en_execution en)) div 10000"
    and "0 \<le> f_fee f" and "0 \<le> o_actual_notional order"
    and "f_candle_open_time f = c_open_time n" and "c_close_time d \<le> c_open_time n"
    and "case p_side p of Buy \<Rightarrow> f_price f \<le> p_limit_price p | Sell \<Rightarrow> p_limit_price p \<le> f_price f"
proof -
  from assms obtain price order fee where
    w: "c_close_time d \<le> c_open_time n" "fill_price_of en n (p_side p) = Inr price"
      "case p_side p of Buy \<Rightarrow> price \<le> p_limit_price p | Sell \<Rightarrow> p_limit_price p \<le> price"
      "evaluate_proposal (p\<lparr>p_limit_price := price\<rparr>) (replay_context en d pf) = Inr order"
      "is_i64 ((o_actual_notional order * uint (taker_fee_bps (en_execution en))) sdiv 10000)"
      "fee = (o_actual_notional order * uint (taker_fee_bps (en_execution en))) sdiv 10000"
      "f = \<lparr>f_symbol = p_symbol p, f_side = p_side p, f_quantity_e8 = o_quantity_e8 order,
            f_price = price, f_fee = fee, f_candle_open_time = c_open_time n\<rparr>"
    unfolding execute_next_open_def Let_def by (auto simp: not_less split: if_splits)
  note pr = pol.priced [OF w(4)] and ec = pol.echo [OF w(4)]
  have nn: "0 \<le> o_actual_notional order * uint (taker_fee_bps (en_execution en))"
    using pr by simp
  have on: "o_actual_notional order = (o_quantity_e8 order * price) sdiv 100000000"
    using pr ec by (simp add: sdiv_nonneg QUANTITY_SCALE_def)
  from w(4) obtain e where adm: "admission (p\<lparr>p_limit_price := price\<rparr>) (replay_context en d pf) = Inr ()"
    and size: "size_order (p\<lparr>p_limit_price := price\<rparr>) (replay_context en d pf)
        = Inr (o_quantity_e8 order, o_actual_notional order)"
    by (rule evaluate_InrE)
  have "position_notional (o_quantity_e8 order) price = Inr (o_actual_notional order)"
    using size_order_Inr(7) [OF size adm] by (simp add: position_notional_def on)
  then show thesis
    by (intro that [of order])
      (use w pr ec nn in \<open>simp_all add: sdiv_nonneg pos_imp_zdiv_nonneg_iff cong: side.case_cong\<close>)
qed

lemma position_notional_Inr:
  "position_notional q v = Inr n \<longleftrightarrow> is_i64 n \<and> n = (q * v) sdiv 100000000"
  by (auto simp: position_notional_def)

section \<open>Accounting of the static replay\<close>

definition fee_sum :: "simulated_fill list \<Rightarrow> int" where
  "fee_sum fs = sum_list (map f_fee fs)"

lemma total_fees_Inr: "total_fees fs = Inr t \<Longrightarrow> t = fee_sum fs"
proof -
  have "rfold (\<lambda>total f. ok_or (i64_try (total + f_fee f)) Overflow) a fs = Inr t
      \<Longrightarrow> t = a + fee_sum fs" for a
    by (induction fs arbitrary: a) (fastforce simp: fee_sum_def)+
  from this [of 0] show "total_fees fs = Inr t \<Longrightarrow> t = fee_sum fs"
    by (simp add: total_fees_def)
qed

definition static_inv :: "int \<Rightarrow> static_state \<Rightarrow> bool" where
  "static_inv start s \<longleftrightarrow> is_i64 (st_position s)
     \<and> st_cash s + st_position s = start - fee_sum (st_fills s)"

lemma static_step_inv:
  assumes inv: "static_inv start s" and "static_step en start s x = Inr s'"
  shows "static_inv start s'"
proof -
  obtain d n q where x: "x = ((d, n), q)" by (metis prod.exhaust)
  show ?thesis
  proof (cases q)
    case None
    with assms x show ?thesis by (simp add: static_step_def)
  next
    case (Some p)
    show ?thesis
    proof (cases "execute_next_open en d n p (static_portfolio start s)")
      case (Inl e)
      with assms x Some show ?thesis
        by (cases e) (auto simp: static_step_def static_inv_def)
    next
      case (Inr r)
      show ?thesis
      proof (cases r)
        case None
        with Inr assms x Some show ?thesis by (simp add: static_step_def)
      next
        case (Some f)
        with Inr have ex: "execute_next_open en d n p (static_portfolio start s) = Inr (Some f)"
          by simp
        from ex obtain order where
          ord: "evaluate_proposal (p\<lparr>p_limit_price := f_price f\<rparr>)
              (replay_context en d (static_portfolio start s)) = Inr order"
          and sd: "f_side f = p_side p"
          and pn: "position_notional (f_quantity_e8 f) (f_price f) = Inr (o_actual_notional order)"
          by (rule execute_next_open_Some)
        have proj: "is_i64 (case p_side p of Buy \<Rightarrow> st_position s + o_actual_notional order
                  | Sell \<Rightarrow> st_position s - o_actual_notional order)"
          using accepted_projection_i64 [OF ord] inv
          by (simp add: replay_context_def static_portfolio_def static_inv_def cong: side.case_cong)
        from assms(2) x \<open>q = Some p\<close> ex have "static_fill s f = Inr s'"
          by (simp add: static_step_def)
        then show ?thesis
          using pn proj inv sd
          by (cases "f_side f")
            (auto simp: static_fill_def static_inv_def fee_sum_def i64_sat_id)
      qed
    qed
  qed
qed

text \<open>
  The static replay creates and loses no money: a completed replay ends with an equity
  of exactly the starting cash less the fees of its fills, and reports those fees.
\<close>

theorem static_replay_conserves:
  assumes "run_static_proposals en candles proposals start = Inr r"
  shows "br_ending_equity r = start - br_fees r \<and> br_fees r = fee_sum (br_fills r)"
proof -
  from assms obtain s where
    s: "rfold (static_step en start)
          \<lparr>st_cash = start, st_position = 0, st_fills = [], st_rejections = 0\<rparr>
          (zip (zip candles (tl candles)) proposals) = Inr s"
    and r: "br_ending_equity r = st_cash s + st_position s" "br_fills r = st_fills s"
      "total_fees (st_fills s) = Inr (br_fees r)"
    unfolding run_static_proposals_def by (auto split: if_splits)
  have "static_inv start s"
    by (rule rfold_invariant [where P = "static_inv start", OF s])
      (simp_all add: static_inv_def [of start "\<lparr>st_cash = start, st_position = 0, st_fills = [], st_rejections = 0\<rparr>"]
        fee_sum_def is_i64_def static_step_inv)
  then show ?thesis using r total_fees_Inr [OF r(3)] by (simp add: static_inv_def)
qed

section \<open>Accounting of the synchronized replay\<close>

definition fill_quantity :: "string \<Rightarrow> simulated_fill \<Rightarrow> int" where
  "fill_quantity tkr f = (if f_symbol f \<noteq> tkr then 0
     else case f_side f of Buy \<Rightarrow> f_quantity_e8 f | Sell \<Rightarrow> - f_quantity_e8 f)"

definition net_quantity :: "string \<Rightarrow> simulated_fill list \<Rightarrow> int" where
  "net_quantity tkr fs = sum_list (map (fill_quantity tkr) fs)"

definition fill_cash :: "simulated_fill \<Rightarrow> int" where
  "fill_cash f = (let n = (f_quantity_e8 f * f_price f) sdiv 100000000 in
     (case f_side f of Buy \<Rightarrow> - n | Sell \<Rightarrow> n) - f_fee f)"

text \<open>No prefix of the fills is short in any symbol.\<close>

definition never_short :: "simulated_fill list \<Rightarrow> bool" where
  "never_short fs \<longleftrightarrow> (\<forall>k tkr. 0 \<le> net_quantity tkr (take k fs))"

definition sync_inv :: "int \<Rightarrow> sync_state \<Rightarrow> bool" where
  "sync_inv start s \<longleftrightarrow>
     sy_cash s = start - sy_funding s + sum_list (map fill_cash (sy_fills s))
     \<and> sy_fees s = fee_sum (sy_fills s)
     \<and> (\<forall>tkr q. map_of (sy_positions s) tkr = Some q
            \<longrightarrow> q = net_quantity tkr (sy_fills s) \<and> is_i64 q)
     \<and> never_short (sy_fills s)"

lemma net_quantity_snoc: "net_quantity tkr (fs @ [f]) = net_quantity tkr fs + fill_quantity tkr f"
  by (simp add: net_quantity_def)

lemma never_short_snoc:
  assumes "never_short fs" and "\<And>tkr. 0 \<le> net_quantity tkr fs + fill_quantity tkr f"
  shows "never_short (fs @ [f])"
  unfolding never_short_def
proof (intro allI)
  fix k tkr
  show "0 \<le> net_quantity tkr (take k (fs @ [f]))"
  proof (cases "k \<le> length fs")
    case True
    then show ?thesis using assms(1) by (simp add: never_short_def)
  next
    case False
    then have "take k (fs @ [f]) = fs @ [f]" by simp
    with assms(2) show ?thesis by (simp add: net_quantity_snoc)
  qed
qed

lemma never_short_net: "never_short fs \<Longrightarrow> 0 \<le> net_quantity tkr fs"
  unfolding never_short_def by (metis order_refl take_all)

lemma pay_funding_inv:
  "sync_inv start s \<Longrightarrow> pay_funding s c = Inr s' \<Longrightarrow> sync_inv start s' \<and> sy_curve s' = sy_curve s"
  by (auto simp: pay_funding_def sync_inv_def)

lemma roll_day_inv [simp]: "sync_inv start (roll_day s i eq) = sync_inv start s"
  by (simp add: roll_day_def sync_inv_def Let_def)

lemma sync_inv_frame [simp]:
  "sync_inv start (s\<lparr>sy_scheduled := m\<rparr>) = sync_inv start s"
  "sync_inv start (s\<lparr>sy_peak := v\<rparr>) = sync_inv start s"
  "sync_inv start (s\<lparr>sy_curve := cs\<rparr>) = sync_inv start s"
  "sync_inv start (s\<lparr>sy_rejections := k\<rparr>) = sync_inv start s"
  by (simp_all add: sync_inv_def)

lemma sync_fill_inv:
  assumes inv: "sync_inv start s" and step: "sync_fill s f = Inr s'" and q: "0 < f_quantity_e8 f"
  shows "sync_inv start s'"
proof -
  from step obtain n held cash held' where
    n: "n = (f_quantity_e8 f * f_price f) sdiv 100000000"
    and held: "map_of (sy_positions s) (f_symbol f) = Some held"
    and upd: "cash = sy_cash s + (case f_side f of Buy \<Rightarrow> - n | Sell \<Rightarrow> n) - f_fee f"
      "held' = held + fill_quantity (f_symbol f) f" "0 \<le> held' \<or> f_side f = Buy" "is_i64 held'"
    and s': "s' = s\<lparr>sy_cash := cash, sy_positions := bt_insert (f_symbol f) held' (sy_positions s),
              sy_fees := sy_fees s + f_fee f, sy_orders_today := sat_add (sy_orders_today s) 1,
              sy_fills := sy_fills s @ [f]\<rparr>"
  proof -
    from step obtain held where h: "map_of (sy_positions s) (f_symbol f) = Some held"
      "f_side f = Sell \<Longrightarrow> f_quantity_e8 f \<le> held"
      by (auto simp: sync_fill_def not_less split: side.splits if_splits)
    with inv have "is_i64 held" by (simp add: sync_inv_def)
    with h q have "f_side f = Sell \<Longrightarrow> is_i64 (held - f_quantity_e8 f)"
      by (simp add: is_i64_def)
    with step h show thesis
      by (cases "f_side f"; intro that [of _ held _ "held + fill_quantity (f_symbol f) f"])
        (auto simp: sync_fill_def position_notional_Inr fill_quantity_def wrap_i64_id)
  qed
  have net: "held = net_quantity (f_symbol f) (sy_fills s)"
    using inv held by (simp add: sync_inv_def)
  have ns: "never_short (sy_fills s)" using inv by (simp add: sync_inv_def)
  have nonneg: "0 \<le> net_quantity tkr (sy_fills s) + fill_quantity tkr f" for tkr
  proof (cases "tkr = f_symbol f")
    case True
    then show ?thesis
      using upd(2,3) net never_short_net [OF ns, of tkr] q by (auto simp: fill_quantity_def)
  next
    case False
    then show ?thesis using never_short_net [OF ns, of tkr] by (simp add: fill_quantity_def)
  qed
  have other: "tkr \<noteq> f_symbol f \<Longrightarrow> fill_quantity tkr f = 0" for tkr
    by (simp add: fill_quantity_def)
  show ?thesis
    using inv upd net never_short_snoc [OF ns nonneg]
    by (auto simp: sync_inv_def s' fee_sum_def net_quantity_snoc other fill_cash_def Let_def n
        split: if_splits side.splits)
qed

lemma sync_decide_inv:
  assumes "sync_inv start s" and "sync_decide en i nx s eq p = Inr s'"
  shows "sync_inv start s'"
proof -
  from assms(2) obtain d n position where
    d: "(case execute_next_open en d n p (sync_portfolio s eq position) of
         Inr (Some fill) \<Rightarrow> sync_fill s fill
       | Inr None \<Rightarrow> Inr s
       | Inl (Policy e) \<Rightarrow> Inr (s\<lparr>sy_rejections := sat_add (sy_rejections s) 1\<rparr>)
       | Inl e \<Rightarrow> Inl e) = Inr s'"
    unfolding sync_decide_def by blast
  show ?thesis
  proof (cases "execute_next_open en d n p (sync_portfolio s eq position)")
    case (Inl e)
    with d assms(1) show ?thesis by (cases e) auto
  next
    case (Inr r)
    show ?thesis
    proof (cases r)
      case None
      with Inr d assms(1) show ?thesis by simp
    next
      case (Some f)
      with Inr have ex: "execute_next_open en d n p (sync_portfolio s eq position) = Inr (Some f)"
        by simp
      have "0 < f_quantity_e8 f" by (rule execute_next_open_Some [OF ex])
      moreover have "sync_fill s f = Inr s'" using d ex by simp
      ultimately show ?thesis using sync_fill_inv assms(1) by blast
    qed
  qed
qed

lemma sync_step_inv:
  assumes "sync_inv start s" and "sync_step en i nx s = Inr s'"
  shows "sync_inv start s' \<and> length (sy_curve s') = Suc (length (sy_curve s))"
proof -
  from assms(2) obtain s1 eq s4 eq4 where
    s1: "rfold pay_funding s i = Inr s1"
    and s4: "(case map_of (sy_scheduled (roll_day s1 i eq)) (c_open_time (hd i)) of
         None \<Rightarrow> Inr (roll_day s1 i eq, eq)
       | Some p \<Rightarrow>
           rbind (sync_decide en i nx (roll_day s1 i eq\<lparr>sy_scheduled :=
                     bt_remove (c_open_time (hd i)) (sy_scheduled (roll_day s1 i eq))\<rparr>) eq p) (\<lambda>s3.
           rbind (portfolio_equity (sy_cash s3) (sy_positions s3) i) (\<lambda>eq'.
             Inr (s3\<lparr>sy_peak := max (sy_peak s3) eq'\<rparr>, eq')))) = Inr (s4, eq4)"
    and s': "s' = s4\<lparr>sy_curve := sy_curve s4
              @ [\<lparr>ep_close_time = c_close_time (hd i), ep_equity = eq4\<rparr>]\<rparr>"
    unfolding sync_step_def Let_def by (auto simp: split_beta)
  have inv1: "sync_inv start s1 \<and> sy_curve s1 = sy_curve s"
    by (rule rfold_invariant [where P = "\<lambda>t. sync_inv start t \<and> sy_curve t = sy_curve s", OF s1])
      (use assms(1) pay_funding_inv in \<open>fastforce+\<close>)
  have curve: "sy_curve (roll_day s1 i eq) = sy_curve s1"
    by (simp add: roll_day_def Let_def)
  have dec: "sync_decide en i nx t eq p = Inr t' \<Longrightarrow> sy_curve t' = sy_curve t" for t t' p
    by (auto simp: sync_decide_def sync_fill_def
        split: sum.splits option.splits backtest_error.splits)
  have "sync_inv start s4 \<and> sy_curve s4 = sy_curve s"
    using s4 inv1 curve by (auto split: option.splits dest: sync_decide_inv [rotated] dec)
  then show ?thesis by (simp add: s')
qed

lemma sync_loop_inv:
  "sync_inv start s \<Longrightarrow> sync_loop en is s = Inr s' \<Longrightarrow>
    sync_inv start s' \<and> length (sy_curve s') = length (sy_curve s) + length is"
proof (induction "is" arbitrary: s)
  case (Cons i "is")
  from Cons.prems(2) obtain t where
    t: "sync_step en i (case is of [] \<Rightarrow> None | n # _ \<Rightarrow> Some n) s = Inr t"
      "sync_loop en is t = Inr s'" by auto
  from sync_step_inv [OF Cons.prems(1) t(1)] Cons.IH [OF _ t(2)] show ?case by auto
qed simp

lemma length_chunks3: "length (chunks3 xs) = length xs div 3"
  by (induction xs rule: chunks3.induct) auto

lemma sync_start_inv: "sync_inv start (sync_start is m start)"
  by (auto simp: sync_inv_def sync_start_def fee_sum_def net_quantity_def never_short_def
      is_i64_def split: if_splits)

lemma run_synchronized_Inr:
  assumes "run_synchronized_proposals en candles ps start = Inr r"
  obtains s where "sync_inv start s" and "length (sy_curve s) = length candles div 3"
    and "br_ending_cash r = sy_cash s" "br_fees r = sy_fees s" "br_funding r = sy_funding s"
    "br_fills r = sy_fills s" "br_equity_curve r = sy_curve s"
proof -
  from assms obtain m s where
    loop: "sync_loop en (chunks3 candles) (sync_start (chunks3 candles) m start) = Inr s"
    and r: "br_ending_cash r = sy_cash s" "br_fees r = sy_fees s" "br_funding r = sy_funding s"
    "br_fills r = sy_fills s" "br_equity_curve r = sy_curve s"
    unfolding run_synchronized_proposals_def Let_def by (auto split: if_splits)
  have "length (sy_curve (sync_start (chunks3 candles) m start)) = 0"
    by (simp add: sync_start_def)
  with sync_loop_inv [OF sync_start_inv loop] r show thesis
    by (intro that [of s]) (simp_all add: length_chunks3)
qed

section \<open>The ledger of the synchronized replay\<close>

text \<open>
  The ledger a replay must agree with: what a holding is worth at the closes of an interval, what it
  pays as funding there, and, interval by interval, the cash after the funding and the fills.
\<close>

definition lot_value :: "int \<Rightarrow> int \<Rightarrow> int" where
  "lot_value quantity price = (quantity * price) sdiv 100000000"

definition interval_funding :: "simulated_fill list \<Rightarrow> candle list \<Rightarrow> int" where
  "interval_funding fs interval = sum_list (map (\<lambda>c.
     (lot_value (net_quantity (c_symbol c) fs) (c_close c) * c_funding_rate c) sdiv 1000000000000) interval)"

definition book_value :: "int \<Rightarrow> simulated_fill list \<Rightarrow> candle list \<Rightarrow> int" where
  "book_value cash fs interval =
     cash + sum_list (map (\<lambda>c. lot_value (net_quantity (c_symbol c) fs) (c_close c)) interval)"

fun ledger_curve ::
    "int \<Rightarrow> simulated_fill list \<Rightarrow> (candle list \<times> simulated_fill list) list \<Rightarrow> equity_point list" where
  "ledger_curve cash fs [] = []"
| "ledger_curve cash fs ((interval, new) # rest) =
     (let cash' = cash - interval_funding fs interval + sum_list (map fill_cash new) in
      \<lparr>ep_close_time = c_close_time (hd interval), ep_equity = book_value cash' (fs @ new) interval\<rparr>
        # ledger_curve cash' (fs @ new) rest)"

fun ledger_funding :: "simulated_fill list \<Rightarrow> (candle list \<times> simulated_fill list) list \<Rightarrow> int" where
  "ledger_funding fs [] = 0"
| "ledger_funding fs ((interval, new) # rest) = interval_funding fs interval + ledger_funding (fs @ new) rest"

lemma pay_funding_step:
  assumes "sync_inv start s" and "pay_funding s c = Inr s'"
  shows "sy_fills s' = sy_fills s"
    and "sy_funding s' = sy_funding s
      + (lot_value (net_quantity (c_symbol c) (sy_fills s)) (c_close c) * c_funding_rate c) sdiv 1000000000000"
  using assms by (auto simp: pay_funding_def sync_inv_def position_notional_Inr lot_value_def)

lemma pay_funding_fold:
  "sync_inv start s \<Longrightarrow> rfold pay_funding s interval = Inr s' \<Longrightarrow>
    sync_inv start s' \<and> sy_fills s' = sy_fills s \<and> sy_curve s' = sy_curve s
    \<and> sy_funding s' = sy_funding s + interval_funding (sy_fills s) interval"
proof (induction interval arbitrary: s)
  case (Cons c cs)
  from Cons.prems(2) obtain t where t: "pay_funding s c = Inr t" "rfold pay_funding t cs = Inr s'" by auto
  have "sync_inv start t" "sy_curve t = sy_curve s" using pay_funding_inv [OF Cons.prems(1) t(1)] by auto
  with Cons.IH [OF this(1) t(2)] pay_funding_step [OF Cons.prems(1) t(1)] show ?case
    by (simp add: interval_funding_def)
qed (simp add: interval_funding_def)

lemma portfolio_equity_book:
  assumes "\<And>tkr q. map_of m tkr = Some q \<Longrightarrow> q = net_quantity tkr fs"
  shows "portfolio_equity cash m interval = Inr v \<Longrightarrow> v = book_value cash fs interval"
proof (induction interval arbitrary: cash)
  case (Cons c cs)
  from Cons.prems obtain q n where "map_of m (c_symbol c) = Some q" "n = lot_value q (c_close c)"
    "portfolio_equity (cash + n) m cs = Inr v"
    by (auto simp: portfolio_equity_def position_notional_Inr lot_value_def)
  with Cons.IH [of "cash + n"] assms show ?case by (auto simp: book_value_def)
qed (simp add: portfolio_equity_def book_value_def)

lemma symbol_index_less: "symbol_index xs s = Some i \<Longrightarrow> i < length xs"
  by (induction xs arbitrary: i) (auto split: if_splits)

text \<open>A decision adds no fill, or one at the open of the next interval.\<close>

lemma sync_decide_fills:
  assumes "sync_decide en interval next_interval s eq p = Inr s'"
  obtains new where "sy_fills s' = sy_fills s @ new" and "length new \<le> 1"
    and "sy_funding s' = sy_funding s" and "sy_curve s' = sy_curve s"
    and "\<And>f. f \<in> set new \<Longrightarrow> \<exists>nxt i. next_interval = Some nxt \<and> i < 3
           \<and> f_candle_open_time f = c_open_time (nxt ! i)"
proof -
  from assms obtain nxt i position where nxt: "next_interval = Some nxt"
    and i: "symbol_index ALLOWED_SYMBOLS (p_symbol p) = Some i"
    and d: "(case execute_next_open en (interval ! i) (nxt ! i) p (sync_portfolio s eq position) of
         Inr (Some fill) \<Rightarrow> sync_fill s fill
       | Inr None \<Rightarrow> Inr s
       | Inl (Policy e) \<Rightarrow> Inr (s\<lparr>sy_rejections := sat_add (sy_rejections s) 1\<rparr>)
       | Inl e \<Rightarrow> Inl e) = Inr s'"
    unfolding sync_decide_def by auto
  have "i < 3" using symbol_index_less [OF i] by (simp add: ALLOWED_SYMBOLS_def)
  show thesis
  proof (cases "execute_next_open en (interval ! i) (nxt ! i) p (sync_portfolio s eq position)")
    case (Inl e)
    with d show thesis by (intro that [of "[]"]; cases e) auto
  next
    case (Inr r)
    show thesis
    proof (cases r)
      case None
      with Inr d show thesis by (intro that [of "[]"]) auto
    next
      case (Some f)
      with Inr have ex: "execute_next_open en (interval ! i) (nxt ! i) p (sync_portfolio s eq position) = Inr (Some f)"
        by simp
      then have "f_candle_open_time f = c_open_time (nxt ! i)" by (rule execute_next_open_Some)
      moreover have "sync_fill s f = Inr s'" using d ex by simp
      ultimately show thesis using nxt \<open>i < 3\<close>
        by (intro that [of "[f]"]) (auto simp: sync_fill_def)
    qed
  qed
qed

text \<open>What one interval adds to the books.\<close>

definition booked_step ::
    "candle list \<Rightarrow> candle list option \<Rightarrow> sync_state \<Rightarrow> simulated_fill list \<Rightarrow> sync_state \<Rightarrow> bool" where
  "booked_step interval next_interval s new s' \<longleftrightarrow> length new \<le> 1
     \<and> sy_fills s' = sy_fills s @ new
     \<and> sy_funding s' = sy_funding s + interval_funding (sy_fills s) interval
     \<and> sy_curve s' = sy_curve s @ [\<lparr>ep_close_time = c_close_time (hd interval),
          ep_equity = book_value (sy_cash s') (sy_fills s') interval\<rparr>]
     \<and> (\<forall>f\<in>set new. \<exists>nxt i. next_interval = Some nxt \<and> i < 3 \<and> f_candle_open_time f = c_open_time (nxt ! i))"

lemma sync_step_booked:
  assumes inv: "sync_inv start s" and "sync_step en interval next_interval s = Inr s'"
  obtains new where "booked_step interval next_interval s new s'"
proof -
  from assms(2) obtain s1 eq s4 eq4 where
    s1: "rfold pay_funding s interval = Inr s1"
    and eq: "portfolio_equity (sy_cash s1) (sy_positions s1) interval = Inr eq"
    and s4: "(case map_of (sy_scheduled (roll_day s1 interval eq)) (c_open_time (hd interval)) of
         None \<Rightarrow> Inr (roll_day s1 interval eq, eq)
       | Some p \<Rightarrow>
           rbind (sync_decide en interval next_interval (roll_day s1 interval eq\<lparr>sy_scheduled :=
                     bt_remove (c_open_time (hd interval)) (sy_scheduled (roll_day s1 interval eq))\<rparr>) eq p) (\<lambda>s3.
           rbind (portfolio_equity (sy_cash s3) (sy_positions s3) interval) (\<lambda>eq'.
             Inr (s3\<lparr>sy_peak := max (sy_peak s3) eq'\<rparr>, eq')))) = Inr (s4, eq4)"
    and s': "s' = s4\<lparr>sy_curve := sy_curve s4
              @ [\<lparr>ep_close_time = c_close_time (hd interval), ep_equity = eq4\<rparr>]\<rparr>"
    unfolding sync_step_def Let_def by (auto simp: split_beta)
  note paid = pay_funding_fold [OF inv s1]
  have rolled: "sy_fills (roll_day s1 interval eq) = sy_fills s1" "sy_curve (roll_day s1 interval eq) = sy_curve s1"
    "sy_funding (roll_day s1 interval eq) = sy_funding s1" "sy_cash (roll_day s1 interval eq) = sy_cash s1"
    "sy_positions (roll_day s1 interval eq) = sy_positions s1"
    by (simp_all add: roll_day_def Let_def)
  have worth: "v = book_value (sy_cash t) (sy_fills t) interval"
    if "sync_inv start t" "portfolio_equity (sy_cash t) (sy_positions t) interval = Inr v" for t v
    using that(1) by (intro portfolio_equity_book [OF _ that(2)]) (auto simp: sync_inv_def)
  show thesis
  proof (cases "map_of (sy_scheduled (roll_day s1 interval eq)) (c_open_time (hd interval))")
    case None
    then show thesis
      using s4 s' paid rolled worth [OF _ eq] by (intro that [of "[]"]) (auto simp: booked_step_def)
  next
    case (Some p)
    let ?s2 = "roll_day s1 interval eq\<lparr>sy_scheduled :=
                     bt_remove (c_open_time (hd interval)) (sy_scheduled (roll_day s1 interval eq))\<rparr>"
    from s4 Some obtain s3 eq' where s3: "sync_decide en interval next_interval ?s2 eq p = Inr s3"
      and eq': "portfolio_equity (sy_cash s3) (sy_positions s3) interval = Inr eq'"
      and s4': "s4 = s3\<lparr>sy_peak := max (sy_peak s3) eq'\<rparr>" "eq4 = eq'"
      by auto
    have "sync_inv start ?s2" using paid by simp
    then have "sync_inv start s3" by (rule sync_decide_inv [OF _ s3])
    then have worth3: "eq' = book_value (sy_cash s3) (sy_fills s3) interval" by (rule worth [OF _ eq'])
    obtain new where new: "sy_fills s3 = sy_fills ?s2 @ new" "length new \<le> 1"
      "sy_funding s3 = sy_funding ?s2" "sy_curve s3 = sy_curve ?s2"
      and opened: "\<forall>f\<in>set new. \<exists>nxt i. next_interval = Some nxt \<and> i < 3 \<and> f_candle_open_time f = c_open_time (nxt ! i)"
      using sync_decide_fills [OF s3] by metis
    show thesis
      by (rule that [of new], unfold booked_step_def, intro conjI opened)
        (use s4' s' paid rolled worth3 new in simp_all)
  qed
qed

text \<open>Which fill belongs to which interval: it was decided there and executed at the next one's open.\<close>

definition filled_next :: "candle list list \<Rightarrow> simulated_fill list list \<Rightarrow> bool" where
  "filled_next intervals fss \<longleftrightarrow> (\<forall>k<length fss. \<forall>f\<in>set (fss ! k). Suc k < length intervals \<and>
     (\<exists>i<3. f_candle_open_time f = c_open_time (intervals ! Suc k ! i)))"

lemma filled_next_Cons:
  assumes "filled_next intervals fss" and "length fss = length intervals"
    and "\<forall>f\<in>set new. \<exists>nxt i. (case intervals of [] \<Rightarrow> None | n # _ \<Rightarrow> Some n) = Some nxt \<and> i < 3
           \<and> f_candle_open_time f = c_open_time (nxt ! i)"
  shows "filled_next (interval # intervals) (new # fss)"
  unfolding filled_next_def
proof (intro allI impI ballI)
  fix k f assume k: "k < length (new # fss)" and f: "f \<in> set ((new # fss) ! k)"
  show "Suc k < length (interval # intervals) \<and> (\<exists>i<3. f_candle_open_time f = c_open_time ((interval # intervals) ! Suc k ! i))"
    using assms k f by (cases k; cases intervals) (auto simp: filled_next_def)
qed

lemma sync_loop_booked:
  "sync_inv start s \<Longrightarrow> sync_loop en intervals s = Inr s' \<Longrightarrow>
    \<exists>fss. length fss = length intervals \<and> list_all (\<lambda>new. length new \<le> 1) fss
      \<and> sy_fills s' = sy_fills s @ concat fss \<and> filled_next intervals fss
      \<and> sy_funding s' = sy_funding s + ledger_funding (sy_fills s) (zip intervals fss)
      \<and> sy_curve s' = sy_curve s @ ledger_curve (sy_cash s) (sy_fills s) (zip intervals fss)"
proof (induction intervals arbitrary: s)
  case Nil
  then show ?case by (intro exI [of _ "[]"]) (simp add: filled_next_def)
next
  case (Cons interval intervals)
  from Cons.prems(2) obtain t where
    t: "sync_step en interval (case intervals of [] \<Rightarrow> None | n # _ \<Rightarrow> Some n) s = Inr t"
      "sync_loop en intervals t = Inr s'" by auto
  have inv: "sync_inv start t" using sync_step_inv [OF Cons.prems(1) t(1)] by simp
  obtain new where new: "booked_step interval (case intervals of [] \<Rightarrow> None | n # _ \<Rightarrow> Some n) s new t"
    by (rule sync_step_booked [OF Cons.prems(1) t(1)])
  have cash: "sy_cash t = sy_cash s - interval_funding (sy_fills s) interval + sum_list (map fill_cash new)"
    using Cons.prems(1) inv new by (simp add: sync_inv_def booked_step_def)
  obtain fss where fss: "length fss = length intervals" "list_all (\<lambda>new. length new \<le> 1) fss"
      "sy_fills s' = sy_fills t @ concat fss" "filled_next intervals fss"
      "sy_funding s' = sy_funding t + ledger_funding (sy_fills t) (zip intervals fss)"
      "sy_curve s' = sy_curve t @ ledger_curve (sy_cash t) (sy_fills t) (zip intervals fss)"
    using Cons.IH [OF inv t(2)] by blast
  show ?case
    using fss new cash filled_next_Cons [OF fss(4,1), of new interval]
    by (intro exI [of _ "new # fss"]) (simp add: booked_step_def Let_def)
qed

lemma ledger_curve_last:
  assumes "xs \<noteq> []"
  shows "ep_equity (last (ledger_curve cash fs xs)) = book_value (cash - ledger_funding fs xs
     + sum_list (map fill_cash (concat (map snd xs)))) (fs @ concat (map snd xs)) (fst (last xs))"
  using assms
proof (induction cash fs xs rule: ledger_curve.induct)
  case (2 cash fs interval new rest)
  show ?case
  proof (cases "rest = []")
    case False
    then have "ledger_curve c f rest \<noteq> []" for c f by (cases rest) (auto simp: Let_def)
    with 2 False show ?thesis by (simp add: Let_def algebra_simps)
  qed (simp add: Let_def)
qed simp

lemma run_synchronized_booked:
  assumes "run_synchronized_proposals en candles ps start = Inr r"
  obtains fss where "length fss = length (chunks3 candles)" and "list_all (\<lambda>new. length new \<le> 1) fss"
    and "concat fss = br_fills r" and "filled_next (chunks3 candles) fss"
    and "br_funding r = ledger_funding [] (zip (chunks3 candles) fss)"
    and "br_equity_curve r = ledger_curve start [] (zip (chunks3 candles) fss)"
    and "br_ending_equity r = book_value (br_ending_cash r) (br_fills r) (last (chunks3 candles))"
    and "chunks3 candles \<noteq> []"
proof -
  from assms obtain m s where
    loop: "sync_loop en (chunks3 candles) (sync_start (chunks3 candles) m start) = Inr s"
    and eq: "portfolio_equity (sy_cash s) (sy_positions s) (last (chunks3 candles)) = Inr (br_ending_equity r)"
    and r: "br_ending_cash r = sy_cash s" "br_fees r = sy_fees s" "br_funding r = sy_funding s"
    "br_fills r = sy_fills s" "br_equity_curve r = sy_curve s" and len: "6 \<le> length candles"
    unfolding run_synchronized_proposals_def Let_def by (auto split: if_splits)
  have inv: "sync_inv start s" using sync_loop_inv [OF sync_start_inv loop] by simp
  have "br_ending_equity r = book_value (sy_cash s) (sy_fills s) (last (chunks3 candles))"
    using inv by (intro portfolio_equity_book [OF _ eq]) (auto simp: sync_inv_def)
  moreover have "chunks3 candles \<noteq> []" using len length_chunks3 [of candles] by auto
  ultimately show thesis
    using sync_loop_booked [OF sync_start_inv loop] r
    by (auto simp: sync_start_def intro: that)
qed

text \<open>
  C25. The synchronized replay balances its books: the ending cash is the starting cash less the
  funding paid, plus the proceeds and less the costs and fees of the fills it reports, and the
  reported fees are the sum of the fills' fees. Its fills split into those of each 15-minute interval,
  at most one each, executed at an open of the next interval; with that split the reported funding is
  what the quantities held so far pay at each interval's closes, and the equity curve is, interval by
  interval, the cash after funding and fills plus the holdings valued at those closes. The ending
  equity is the last point of the curve.
\<close>

theorem synchronized_replay_balances:
  assumes "run_synchronized_proposals en candles ps start = Inr r"
  shows "br_ending_cash r = start - br_funding r + sum_list (map fill_cash (br_fills r))
    \<and> br_fees r = fee_sum (br_fills r)
    \<and> length (br_equity_curve r) = length candles div 3
    \<and> br_ending_equity r = ep_equity (last (br_equity_curve r))
    \<and> (\<exists>fss. length fss = length candles div 3 \<and> list_all (\<lambda>new. length new \<le> 1) fss
         \<and> concat fss = br_fills r \<and> filled_next (chunks3 candles) fss
         \<and> br_funding r = ledger_funding [] (zip (chunks3 candles) fss)
         \<and> br_equity_curve r = ledger_curve start [] (zip (chunks3 candles) fss))"
proof -
  obtain fss where fss: "length fss = length (chunks3 candles)" "list_all (\<lambda>new. length new \<le> 1) fss"
    "concat fss = br_fills r" "filled_next (chunks3 candles) fss"
    "br_funding r = ledger_funding [] (zip (chunks3 candles) fss)"
    "br_equity_curve r = ledger_curve start [] (zip (chunks3 candles) fss)"
    "br_ending_equity r = book_value (br_ending_cash r) (br_fills r) (last (chunks3 candles))" "chunks3 candles \<noteq> []"
    by (rule run_synchronized_booked [OF assms])
  have books: "br_ending_cash r = start - br_funding r + sum_list (map fill_cash (br_fills r))"
    "br_fees r = fee_sum (br_fills r)"
    "length (br_equity_curve r) = length candles div 3"
    using run_synchronized_Inr [OF assms] unfolding sync_inv_def by metis+
  have "zip (chunks3 candles) fss \<noteq> []" using fss(1,8) by (cases fss; cases "chunks3 candles") auto
  moreover have "fst (last (zip (chunks3 candles) fss)) = last (chunks3 candles)"
    using fss(1,8) by (metis length_0_conv list.map_disc_iff last_map map_fst_zip map_is_Nil_conv zip_eq_Nil_iff)
  ultimately have "br_ending_equity r = ep_equity (last (br_equity_curve r))"
    using ledger_curve_last [of "zip (chunks3 candles) fss" start "[]"] fss books by simp
  then show ?thesis using books fss length_chunks3 [of candles] by auto
qed

text \<open>
  A completed synchronized replay never held a short position: after every prefix of
  its fills the net quantity of every symbol is nonnegative.
\<close>

theorem synchronized_replay_never_short:
  assumes "run_synchronized_proposals en candles ps start = Inr r"
  shows "\<forall>k tkr. 0 \<le> net_quantity tkr (take k (br_fills r))"
  using run_synchronized_Inr [OF assms] unfolding sync_inv_def never_short_def by metis

text \<open>
  A fill happens at the open of the next candle, after the decision candle closed, at a
  price inside the proposal's limit and, for a positive open, no better than that open, and
  costs the configured taker fee on its notional.
\<close>

theorem fill_is_next_open_within_limit:
  assumes "execute_next_open en d n p pf = Inr (Some f)" and "0 < c_open n"
  shows "f_candle_open_time f = c_open_time n \<and> c_close_time d \<le> f_candle_open_time f
    \<and> 0 < f_quantity_e8 f
    \<and> (case p_side p of Buy \<Rightarrow> f_price f \<le> p_limit_price p \<and> c_open n \<le> f_price f
                     | Sell \<Rightarrow> p_limit_price p \<le> f_price f \<and> f_price f \<le> c_open n)
    \<and> f_fee f = (f_quantity_e8 f * f_price f div 100000000)
                 * uint (taker_fee_bps (en_execution en)) div 10000"
proof -
  let ?impact = "uint (half_spread_bps (en_execution en) + slippage_bps (en_execution en))"
  from assms(1) obtain order :: order_decision where
    fp: "fill_price_of en n (p_side p) = Inr (f_price f)"
    and pn: "position_notional (f_quantity_e8 f) (f_price f) = Inr (o_actual_notional order)"
    and fee: "f_fee f = o_actual_notional order * uint (taker_fee_bps (en_execution en)) div 10000"
    and q: "0 < f_quantity_e8 f" "0 < f_price f"
    and t: "f_candle_open_time f = c_open_time n" "c_close_time d \<le> c_open_time n"
    and lim: "case p_side p of Buy \<Rightarrow> f_price f \<le> p_limit_price p | Sell \<Rightarrow> p_limit_price p \<le> f_price f"
    by (rule execute_next_open_Some)
  have adverse: "case p_side p of Buy \<Rightarrow> c_open n \<le> f_price f | Sell \<Rightarrow> f_price f \<le> c_open n"
  proof (cases "p_side p")
    case Buy
    with fp have "f_price f = (c_open n * (10000 + ?impact)) sdiv 10000"
      by (auto simp: fill_price_of_def Let_def)
    moreover have "c_open n * 10000 \<le> c_open n * (10000 + ?impact)"
      using assms(2) by (simp add: algebra_simps)
    ultimately have "(c_open n * 10000) sdiv 10000 \<le> f_price f"
      by (simp add: sdiv_mono)
    then show ?thesis using assms(2) Buy by (simp add: sdiv_nonneg)
  next
    case Sell
    with fp have "f_price f = (c_open n * (10000 - ?impact)) sdiv 10000"
      by (auto simp: fill_price_of_def Let_def)
    moreover have "c_open n * (10000 - ?impact) \<le> c_open n * 10000"
      using assms(2) by (simp add: algebra_simps)
    ultimately have "f_price f \<le> (c_open n * 10000) sdiv 10000"
      by (simp add: sdiv_mono)
    then show ?thesis using assms(2) Sell by (simp add: sdiv_nonneg)
  qed
  have "o_actual_notional order = f_quantity_e8 f * f_price f div 100000000"
    using pn q by (simp add: position_notional_Inr sdiv_nonneg)
  with fee adverse lim t q show ?thesis by (cases "p_side p") auto
qed

end
