(* ===== verification/Replays.thy ===== *)
theory Replays
  imports Backtest
begin

text \<open>
  Concrete replays: one order on two candles, and the same order scheduled on two intervals
  of the three symbols, evaluated step by step. They witness the properties of
  \<open>Backtest\<close>, and the short order shows where the two drivers disagree.
\<close>

section \<open>Sample replays\<close>

definition sample_candle :: "string \<Rightarrow> int \<Rightarrow> int \<Rightarrow> candle" where
  "sample_candle tkr t price = \<lparr>c_symbol = tkr, c_open_time = t, c_close_time = t + 899999,
     c_open = price, c_high = price, c_low = price, c_close = price, c_volume = 0,
     c_funding_rate = 0, c_size_decimals = 4\<rparr>"

definition sample_engine :: engine where
  "sample_engine = \<lparr>en_rules = default_rules,
     en_execution = \<lparr>half_spread_bps = 2, slippage_bps = 3, taker_fee_bps = 5\<rparr>\<rparr>"

definition sample_buy :: proposal where
  "sample_buy = sample_proposal\<lparr>p_limit_price := 2100000000\<rparr>"

definition sample_short :: proposal where
  "sample_short = sample_proposal\<lparr>p_side := Sell, p_limit_price := 1900000000\<rparr>"

definition sample_pair :: "candle list" where
  "sample_pair = [sample_candle ''ETH'' 0 2000000000, sample_candle ''ETH'' 900000 2000000000]"

definition sample_series :: "candle list" where
  "sample_series = [sample_candle ''BTC'' 0 60000000000, sample_candle ''ETH'' 0 2000000000,
     sample_candle ''SOL'' 0 100000000, sample_candle ''BTC'' 900000 60000000000,
     sample_candle ''ETH'' 900000 2000000000, sample_candle ''SOL'' 900000 100000000]"

definition sample_schedule :: "proposal \<Rightarrow> scheduled_proposal list" where
  "sample_schedule p = [\<lparr>sp_decision_open_time = 0, sp_proposal = p\<rparr>]"

definition sample_fill :: simulated_fill where
  "sample_fill = \<lparr>f_symbol = ''ETH'', f_side = Buy, f_quantity_e8 = 500000,
     f_price = 2001000000, f_fee = 5002, f_candle_open_time = 900000\<rparr>"

definition sample_flat :: "int \<Rightarrow> portfolio_state" where
  "sample_flat cash = \<lparr>equity = cash, available_collateral = cash, trading_day_start_equity = cash,
     peak_equity = cash, symbol_position = 0, orders_today = 0\<rparr>"

definition sample_bought :: order_decision where
  "sample_bought = \<lparr>o_symbol = ''ETH'', o_side = Buy, o_quantity_e8 = 500000, o_limit_price = 2001000000,
       o_actual_notional = 10005000, o_effective_notional_bps = 101, o_reduce_only = False\<rparr>"

definition sample_replayed :: "policy_context" where
  "sample_replayed = \<lparr>pc_rules = default_rules,
     pc_market = \<lparr>mk_symbol = ''ETH'', mark_price = 2000000000, oracle_price = 2000000000,
       spread_bps = 4, book_age_seconds = 0, ask_depth = 2305843009213693951,
       bid_depth = 2305843009213693951, size_decimals = 4, delisted = False\<rparr>,
     pc_portfolio = sample_flat 1000000000, pc_starting_capital = 1000000000,
     pc_quantity_reference_price = None, pc_isolated_leverage = 1\<rparr>"

lemma sample_replayed:
  "replay_context sample_engine (sample_candle ''ETH'' 0 2000000000) (sample_flat 1000000000)
   = sample_replayed"
  by (simp add: replay_context_def replay_market_def sample_engine_def sample_candle_def
      sample_replayed_def sat_mul_def i64_max_def sample_flat_def default_rules_def)

lemma sample_decided:
  "evaluate_proposal (sample_buy\<lparr>p_limit_price := 2001000000\<rparr>) sample_replayed = Inr sample_bought"
  by code_simp

lemma sample_price:
  "fill_price_of sample_engine (sample_candle ''ETH'' 900000 2000000000) Buy = Inr 2001000000"
  "fill_price_of sample_engine (sample_candle ''ETH'' 900000 2000000000) Sell = Inr 1999000000"
  by code_simp+

lemma sample_executed:
  "execute_next_open sample_engine (sample_candle ''ETH'' 0 2000000000)
     (sample_candle ''ETH'' 900000 2000000000) sample_buy (sample_flat 1000000000)
   = Inr (Some sample_fill)"
proof -
  have f: "p_side sample_buy = Buy" "p_symbol sample_buy = ''ETH''" "p_limit_price sample_buy = 2100000000"
    by (simp_all add: sample_buy_def sample_proposal_def)
  have fee: "(o_actual_notional sample_bought * uint (taker_fee_bps (en_execution sample_engine))) sdiv 10000 = 5002"
    by code_simp
  show ?thesis
    unfolding execute_next_open_def f sample_price
    by (simp add: sample_replayed sample_decided fee i64_try_def is_i64_def)
     (simp add: sample_candle_def sample_bought_def sample_fill_def)
qed

lemma sample_static:
  "run_static_proposals sample_engine sample_pair [Some sample_buy] 1000000000
   = Inr \<lparr>br_ending_cash = 989989998, br_ending_equity = 999994998, br_fees = 5002,
       br_funding = 0, br_fills = [sample_fill], br_equity_curve = [], br_policy_rejections = 0\<rparr>"
proof -
  have "static_portfolio 1000000000 \<lparr>st_cash = 1000000000, st_position = 0, st_fills = [], st_rejections = 0\<rparr>
    = sample_flat 1000000000" by (simp add: static_portfolio_def sample_flat_def)
  then show ?thesis
    by (simp add: run_static_proposals_def sample_pair_def static_step_def sample_executed)
     (simp add: static_fill_def sample_fill_def position_notional_def sdiv_nonneg total_fees_def i64_try_def is_i64_def)
qed


definition sample_shorted :: order_decision where
  "sample_shorted = \<lparr>o_symbol = ''ETH'', o_side = Sell, o_quantity_e8 = 510000, o_limit_price = 1999000000,
       o_actual_notional = 10194900, o_effective_notional_bps = 102, o_reduce_only = False\<rparr>"

definition sample_short_fill :: simulated_fill where
  "sample_short_fill = \<lparr>f_symbol = ''ETH'', f_side = Sell, f_quantity_e8 = 510000,
     f_price = 1999000000, f_fee = 5097, f_candle_open_time = 900000\<rparr>"

lemma sample_decided_short:
  "evaluate_proposal (sample_short\<lparr>p_limit_price := 1999000000\<rparr>) sample_replayed = Inr sample_shorted"
  by code_simp

lemma sample_executed_short:
  "execute_next_open sample_engine (sample_candle ''ETH'' 0 2000000000)
     (sample_candle ''ETH'' 900000 2000000000) sample_short (sample_flat 1000000000)
   = Inr (Some sample_short_fill)"
proof -
  have f: "p_side sample_short = Sell" "p_symbol sample_short = ''ETH''" "p_limit_price sample_short = 1900000000"
    by (simp_all add: sample_short_def sample_proposal_def)
  have fee: "(o_actual_notional sample_shorted * uint (taker_fee_bps (en_execution sample_engine))) sdiv 10000 = 5097"
    by code_simp
  show ?thesis
    unfolding execute_next_open_def f sample_price
    by (simp add: sample_replayed sample_decided_short fee i64_try_def is_i64_def)
     (simp add: sample_candle_def sample_shorted_def sample_short_fill_def)
qed

lemma sample_intervals:
  "chunks3 sample_series = [take 3 sample_series, drop 3 sample_series]"
  "intervals_ok None [take 3 sample_series, drop 3 sample_series]"
proof -
  have u: "[0..<3] = [0, 1, 2 :: nat]" by (simp add: upt_rec)
  show "chunks3 sample_series = [take 3 sample_series, drop 3 sample_series]"
    by (simp add: sample_series_def)
  show "intervals_ok None [take 3 sample_series, drop 3 sample_series]"
    by (simp add: sample_series_def interval_ok_def ALLOWED_SYMBOLS_def sample_candle_def
      wrap_i64_def u)
qed

definition sample_sync :: "(int \<times> proposal) list \<Rightarrow> sync_state" where
  "sample_sync sch = \<lparr>sy_cash = 1000000000, sy_positions = [(''BTC'', 0), (''ETH'', 0), (''SOL'', 0)],
      sy_fills = [], sy_curve = [], sy_fees = 0, sy_funding = 0, sy_rejections = 0,
      sy_peak = 1000000000, sy_day = 0,
      sy_day_start = 1000000000, sy_orders_today = 0, sy_scheduled = sch\<rparr>"

lemma sample_sync:
  "sync_start [take 3 sample_series, drop 3 sample_series] m 1000000000 = sample_sync m"
  by (simp add: sync_start_def sample_sync_def sample_series_def sample_candle_def DAY_MILLIS_def
    sdiv_nonneg)

lemma sample_quiet:
  "rfold pay_funding (sample_sync m) (take 3 sample_series) = Inr (sample_sync m)"
  "portfolio_equity 1000000000 [(''BTC'', 0), (''ETH'', 0), (''SOL'', 0)] (take 3 sample_series) = Inr 1000000000"
  "roll_day (sample_sync m) (take 3 sample_series) 1000000000 = sample_sync m"
  "c_open_time (hd (take 3 sample_series)) = 0"
  by (simp_all add: sample_series_def pay_funding_def sample_sync_def sample_candle_def
   portfolio_equity_def position_notional_def i64_try_def is_i64_def roll_day_def sdiv_nonneg DAY_MILLIS_def)

lemma sample_sync_decide:
  "sync_decide sample_engine (take 3 sample_series) (Some (drop 3 sample_series)) (sample_sync m) 1000000000 sample_buy
    = sync_fill (sample_sync m) sample_fill"
  "sync_decide sample_engine (take 3 sample_series) (Some (drop 3 sample_series)) (sample_sync m) 1000000000 sample_short
    = sync_fill (sample_sync m) sample_short_fill"
proof -
  have p: "sync_portfolio (sample_sync m) 1000000000 0 = sample_flat 1000000000"
    by (simp add: sync_portfolio_def sample_sync_def sample_flat_def)
  have c: "take 3 sample_series ! 1 = sample_candle ''ETH'' 0 2000000000"
    "drop 3 sample_series ! 1 = sample_candle ''ETH'' 900000 2000000000"
    by (simp_all add: sample_series_def)
  have i: "symbol_index ALLOWED_SYMBOLS ''ETH'' = Some 1" by (simp add: ALLOWED_SYMBOLS_def)
  have h: "map_of (sy_positions (sample_sync m)) ''ETH'' = Some 0" by (simp add: sample_sync_def)
  have q: "p_symbol sample_buy = ''ETH''" "p_symbol sample_short = ''ETH''"
    by (simp_all add: sample_buy_def sample_short_def sample_proposal_def)
  have n: "position_notional 0 v = Inr 0" for v
    by (simp add: position_notional_def i64_try_def is_i64_def)
  show "sync_decide sample_engine (take 3 sample_series) (Some (drop 3 sample_series)) (sample_sync m) 1000000000 sample_buy
    = sync_fill (sample_sync m) sample_fill"
   "sync_decide sample_engine (take 3 sample_series) (Some (drop 3 sample_series)) (sample_sync m) 1000000000 sample_short
    = sync_fill (sample_sync m) sample_short_fill"
    unfolding sync_decide_def q by (simp_all only: ok_or_simps rbind_Inr i h n c p sample_executed
      sample_executed_short sum.case option.case)
qed

definition sample_filled :: sync_state where
  "sample_filled = \<lparr>sy_cash = 989989998, sy_positions = [(''BTC'', 0), (''ETH'', 500000), (''SOL'', 0)],
      sy_fills = [sample_fill], sy_curve = [], sy_fees = 5002, sy_funding = 0, sy_rejections = 0,
      sy_peak = 1000000000, sy_day = 0, sy_day_start = 1000000000, sy_orders_today = 1, sy_scheduled = []\<rparr>"

lemma sample_sync_fill: "sync_fill (sample_sync []) sample_fill = Inr sample_filled"
  "sync_fill (sample_sync []) sample_short_fill = Inl (Policy PReduceOnly)"
  by (simp_all add: sync_fill_def sample_fill_def sample_short_fill_def sample_sync_def position_notional_def sdiv_nonneg
   i64_try_def is_i64_def sample_filled_def sat_add_def)

definition sample_after :: sync_state where
  "sample_after = sample_filled\<lparr>sy_curve := [\<lparr>ep_close_time = 899999, ep_equity = 999989998\<rparr>]\<rparr>"

lemma sample_synchronized:
  "run_synchronized_proposals sample_engine sample_series (sample_schedule sample_buy) 1000000000
    = Inr \<lparr>br_ending_cash = 989989998, br_ending_equity = 999989998, br_fees = 5002,
       br_funding = 0, br_fills = [sample_fill],
       br_equity_curve = [\<lparr>ep_close_time = 899999, ep_equity = 999989998\<rparr>,
         \<lparr>ep_close_time = 1799999, ep_equity = 999989998\<rparr>], br_policy_rejections = 0\<rparr>"
proof -
  have sch: "schedule_proposals (sample_schedule p) = Inr [(0, p)]" for p
    by (simp add: schedule_proposals_def sample_schedule_def)
  have len: "length sample_series = 6" by (simp add: sample_series_def)
  have m: "map_of (sy_scheduled (sample_sync [(0, p)])) 0 = Some p" 
    "sample_sync [(0, p)]\<lparr>sy_scheduled := bt_remove 0 (sy_scheduled (sample_sync [(0, p)]))\<rparr> = sample_sync []"
    "sy_cash (sample_sync m) = 1000000000" "sy_positions (sample_sync m) = [(''BTC'', 0), (''ETH'', 0), (''SOL'', 0)]" for m p
    by (simp_all add: sample_sync_def bt_remove_def)
  have eq: "portfolio_equity 989989998 [(''BTC'', 0), (''ETH'', 500000), (''SOL'', 0)] (take 3 sample_series) = Inr 999989998"
     "portfolio_equity 989989998 [(''BTC'', 0), (''ETH'', 500000), (''SOL'', 0)] (drop 3 sample_series) = Inr 999989998"
    by (simp_all add: sample_series_def sample_candle_def portfolio_equity_def position_notional_def i64_try_def
      is_i64_def sdiv_nonneg)
  have c: "sy_cash sample_filled = 989989998" "sy_positions sample_filled = [(''BTC'', 0), (''ETH'', 500000), (''SOL'', 0)]"
     "sample_filled\<lparr>sy_peak := max (sy_peak sample_filled) 999989998\<rparr> = sample_filled"
     "c_close_time (hd (take 3 sample_series)) = 899999" "sy_curve sample_filled = []"
    by (simp_all add: sample_filled_def sample_series_def sample_candle_def)
  have step: "sync_step sample_engine (take 3 sample_series) (Some (drop 3 sample_series)) 
     (sample_sync [(0, sample_buy)]) = Inr sample_after"
    unfolding sync_step_def sample_quiet rbind_Inr Let_def m option.case sample_sync_decide sample_sync_fill 
      eq c prod.case append.simps sample_after_def ..
  have quiet: "rfold pay_funding sample_after (drop 3 sample_series) = Inr sample_after"
    by (simp add: sample_series_def pay_funding_def sample_after_def sample_filled_def sample_candle_def
      position_notional_def i64_try_def is_i64_def sdiv_nonneg)
  have second: "sync_step sample_engine (drop 3 sample_series) None sample_after
    = Inr (sample_after\<lparr>sy_curve := [\<lparr>ep_close_time = 899999, ep_equity = 999989998\<rparr>,
         \<lparr>ep_close_time = 1799999, ep_equity = 999989998\<rparr>]\<rparr>)"
  proof -
    have "sy_cash sample_after = 989989998" "sy_positions sample_after = [(''BTC'', 0), (''ETH'', 500000), (''SOL'', 0)]"
      "roll_day sample_after (drop 3 sample_series) 999989998 = sample_after"
      "sy_scheduled sample_after = []" "c_close_time (hd (drop 3 sample_series)) = 1799999"
      "sy_curve sample_after = [\<lparr>ep_close_time = 899999, ep_equity = 999989998\<rparr>]"
      by (simp_all add: sample_after_def sample_filled_def roll_day_def sample_series_def sample_candle_def
        DAY_MILLIS_def sdiv_nonneg)
    with quiet eq show ?thesis by (simp add: sync_step_def)
  qed
  show ?thesis
    by (simp add: run_synchronized_proposals_def Let_def len sample_intervals sch sample_sync step second del: intervals_ok.simps)
      (simp add: sample_after_def sample_filled_def eq)
qed

section \<open>The replays, and what they witness\<close>

theorem static_replay_conserves_witness:
  "\<exists>r. run_static_proposals sample_engine sample_pair [Some sample_buy] 1000000000 = Inr r
    \<and> br_fees r = 5002 \<and> br_ending_equity r = 1000000000 - 5002"
  using static_replay_conserves [OF sample_static] sample_static by simp

theorem synchronized_replay_balances_witness:
  "\<exists>r fss. run_synchronized_proposals sample_engine sample_series (sample_schedule sample_buy) 1000000000
      = Inr r \<and> length (br_equity_curve r) = length sample_series div 3 \<and> concat fss = [sample_fill]
    \<and> br_equity_curve r = ledger_curve 1000000000 [] (zip (chunks3 sample_series) fss)
    \<and> br_ending_cash r = 1000000000 - br_funding r + sum_list (map fill_cash (br_fills r))"
proof -
  obtain r where r: "run_synchronized_proposals sample_engine sample_series (sample_schedule sample_buy) 1000000000 = Inr r"
    "br_fills r = [sample_fill]" using sample_synchronized by simp
  note books = synchronized_replay_balances [OF r(1)]
  then obtain fss where "concat fss = [sample_fill]"
    "br_equity_curve r = ledger_curve 1000000000 [] (zip (chunks3 sample_series) fss)"
    using r(2) by auto
  with books r(1) show ?thesis by (intro exI [of _ r] exI [of _ fss]) simp
qed

theorem synchronized_replay_never_short_witness:
  "\<exists>r. run_synchronized_proposals sample_engine sample_series (sample_schedule sample_buy) 1000000000
      = Inr r \<and> (\<forall>k tkr. 0 \<le> net_quantity tkr (take k (br_fills r)))"
  using synchronized_replay_never_short [OF sample_synchronized] sample_synchronized by blast

theorem fill_is_next_open_within_limit_witness:
  "\<exists>f. execute_next_open sample_engine (sample_candle ''ETH'' 0 2000000000)
     (sample_candle ''ETH'' 900000 2000000000) sample_buy (sample_flat 1000000000) = Inr (Some f)
    \<and> f_price f \<le> p_limit_price sample_buy"
proof -
  have o: "0 < c_open (sample_candle ''ETH'' 900000 2000000000)"
    by (simp add: sample_candle_def)
  have b: "p_side sample_buy = Buy" by (simp add: sample_buy_def sample_proposal_def)
  show ?thesis
    using fill_is_next_open_within_limit [OF sample_executed o] sample_executed b by auto
qed

section \<open>A sale that opens a short position\<close>

text \<open>At the first interval nothing is held, so that nothing is paid and the equity is the cash.\<close>

lemma flat_funding:
  assumes "is_i64 (sy_cash s)" and "is_i64 (sy_funding s)"
    and "\<forall>c\<in>set interval. map_of (sy_positions s) (c_symbol c) = Some 0"
  shows "rfold pay_funding s interval = Inr s"
  using assms by (induction interval) (simp_all add: pay_funding_def position_notional_def is_i64_def i64_try_def)

lemma flat_equity:
  assumes "is_i64 cash" and "\<forall>c\<in>set interval. map_of m (c_symbol c) = Some 0"
  shows "portfolio_equity cash m interval = Inr cash"
  using assms by (induction interval) (simp_all add: portfolio_equity_def position_notional_def is_i64_def i64_try_def)

lemma roll_day_same:
  assumes "c_close_time (hd interval) sdiv DAY_MILLIS = sy_day s" and "sy_peak s = eq"
  shows "roll_day s interval eq = s"
  using assms by (cases s) (simp add: roll_day_def)

lemma six_candles:
  assumes "6 \<le> length candles"
  obtains b1 e1 s1 b2 e2 s2 rest where "candles = b1 # e1 # s1 # b2 # e2 # s2 # rest"
  using assms by (cases candles rule: chunks3.cases) (fastforce simp: Suc_le_length_iff numeral_eq_Suc)+

lemma interval_ok_symbols:
  assumes "interval_ok previous [a, b, c]" shows "map c_symbol [a, b, c] = ALLOWED_SYMBOLS"
proof -
  have "[0..<3] = [0, 1, 2 :: nat]" by (simp add: upt_rec)
  then show ?thesis using assms by (simp add: interval_ok_def ALLOWED_SYMBOLS_def)
qed

lemma symbol_index_position:
  assumes "symbol_index ALLOWED_SYMBOLS tkr = Some i"
  shows "i < 3" and "map_of [(''BTC'', 0 :: int), (''ETH'', 0), (''SOL'', 0)] tkr = Some 0"
  using assms by (auto simp: ALLOWED_SYMBOLS_def split: if_splits)

lemma execute_next_open_fee: "execute_next_open en d n p pf = Inr (Some f) \<Longrightarrow> is_i64 (f_fee f)"
  by (auto simp: execute_next_open_def Let_def split: if_splits)

lemma sync_fill_short:
  assumes "f_side f = Sell" and "map_of (sy_positions s) (f_symbol f) = Some held" and "held < f_quantity_e8 f"
    and "position_notional (f_quantity_e8 f) (f_price f) = Inr n"
  shows "sync_fill s f = Inl (Policy PReduceOnly)"
  using assms by (simp add: sync_fill_def)

lemma static_fill_short:
  assumes "f_side f = Sell" and "position_notional (f_quantity_e8 f) (f_price f) = Inr n"
    and "0 \<le> n" "0 \<le> f_fee f" "is_i64 (f_fee f)" "is_i64 (start + n)" "0 < start"
  shows "static_fill \<lparr>st_cash = start, st_position = 0, st_fills = [], st_rejections = 0\<rparr> f
    = Inr \<lparr>st_cash = start + n - f_fee f, st_position = - n, st_fills = [f], st_rejections = 0\<rparr>"
  using assms by (simp add: static_fill_def i64_try_def is_i64_def i64_sat_def)


text \<open>
  C26. The two replay drivers disagree on a sale that opens a short position. When a sale scheduled on
  the first interval is accepted by the policy and filled (possible with \<open>long_only\<close> false), the
  synchronized replay ends with the policy's reduce-only error, whatever else is scheduled; the static
  replay of the same candles completes with that fill and no rejection. The candles are in order and
  the schedule is one the replay accepts; the cash and the sale's proceeds fit 64 bits.
\<close>

theorem short_open_aborts_synchronized_replay:
  assumes "0 < start" and "is_i64 start" and "6 \<le> length candles" and "length candles mod 3 = 0"
    and "intervals_ok None (chunks3 candles)" and "schedule_proposals ps = Inr m"
    and "map_of m (c_open_time (hd candles)) = Some p" and "symbol_index ALLOWED_SYMBOLS (p_symbol p) = Some i"
    and "p_side p = Sell" and "execute_next_open en (candles ! i) (candles ! (3 + i)) p (sample_flat start) = Inr (Some f)"
    and "is_i64 (start + (f_quantity_e8 f * f_price f) sdiv 100000000)"
  shows "run_synchronized_proposals en candles ps start = Inl (Policy PReduceOnly)
    \<and> (\<exists>r. run_static_proposals en [candles ! i, candles ! (3 + i)] [Some p] start = Inr r
         \<and> br_fills r = [f] \<and> br_policy_rejections r = 0 \<and> br_ending_equity r = start - f_fee f)"
proof -
  obtain b1 e1 s1 b2 e2 s2 rest where candles: "candles = b1 # e1 # s1 # b2 # e2 # s2 # rest"
    by (rule six_candles [OF assms(3)])
  let ?first = "[b1, e1, s1]" and ?second = "[b2, e2, s2]" and ?s = "sync_start (chunks3 candles) m start"
  have symbols: "map c_symbol ?first = ALLOWED_SYMBOLS"
    using assms(5) candles interval_ok_symbols [of None b1 e1 s1] by simp
  have i: "i < 3" "map_of (sy_positions ?s) (p_symbol p) = Some 0"
    using symbol_index_position [OF assms(8)] by (simp_all add: sync_start_def)
  have nth: "candles ! i = ?first ! i" "candles ! (3 + i) = ?second ! i"
    using i(1) candles by (auto simp: less_Suc_eq numeral_3_eq_3)
  have zero: "\<forall>c\<in>set ?first. map_of (sy_positions ?s) (c_symbol c) = Some 0"
    using symbols by (simp add: sync_start_def ALLOWED_SYMBOLS_def)
  have s: "is_i64 (sy_cash ?s)" "is_i64 (sy_funding ?s)" "sy_cash ?s = start" "sy_peak ?s = start"
    "sy_scheduled ?s = m" "c_close_time (hd ?first) sdiv DAY_MILLIS = sy_day ?s"
    using assms(2) candles by (simp_all add: sync_start_def is_i64_def)
  have sold: "f_side f = Sell" "f_symbol f = p_symbol p" "0 < f_quantity_e8 f" "0 \<le> f_fee f"
    "\<exists>n. position_notional (f_quantity_e8 f) (f_price f) = Inr n \<and> 0 \<le> n"
    by (rule execute_next_open_Some [OF assms(10)], use assms(9) in force)+
  then obtain n where n: "position_notional (f_quantity_e8 f) (f_price f) = Inr n" "0 \<le> n" by blast
  have fee: "is_i64 (f_fee f)" by (rule execute_next_open_fee [OF assms(10)])
  let ?s' = "?s\<lparr>sy_scheduled := bt_remove (c_open_time (hd ?first)) m\<rparr>"
  have portfolio: "sync_portfolio ?s' start 0 = sample_flat start"
    by (simp add: sync_portfolio_def sync_start_def sample_flat_def)
  have short: "sync_fill ?s' f = Inl (Policy PReduceOnly)"
    using sold n i(2) by (intro sync_fill_short [of _ _ 0 n]) simp_all
  have "position_notional 0 v = Inr 0" for v by (simp add: position_notional_def i64_try_def is_i64_def)
  then have decide: "sync_decide en ?first (Some ?second) ?s' start p = Inl (Policy PReduceOnly)"
    using assms(8,10) i(2) portfolio short nth by (simp add: sync_decide_def)
  have opened: "map_of m (c_open_time (hd ?first)) = Some p" using assms(7) candles by simp
  have step: "sync_step en ?first (Some ?second) ?s = Inl (Policy PReduceOnly)"
    unfolding sync_step_def flat_funding [OF s(1,2) zero] rbind_Inr s(3)
      flat_equity [OF assms(2) zero] roll_day_same [OF s(6,4)] Let_def s(5) opened option.case decide rbind_Inl ..
  have chunks: "chunks3 candles = ?first # ?second # chunks3 rest" using candles by simp
  have "run_synchronized_proposals en candles ps start = Inl (Policy PReduceOnly)"
    using assms(1,3-6) step chunks unfolding run_synchronized_proposals_def Let_def
    by (simp del: intervals_ok.simps chunks3.simps)
  moreover have "run_static_proposals en [candles ! i, candles ! (3 + i)] [Some p] start
     = Inr \<lparr>br_ending_cash = start + n - f_fee f, br_ending_equity = start - f_fee f,
         br_fees = f_fee f, br_funding = 0, br_fills = [f], br_equity_curve = [], br_policy_rejections = 0\<rparr>"
  proof -
    have proceeds: "is_i64 (start + n)" using assms(11) n(1) by (simp add: position_notional_Inr)
    have flat: "static_portfolio start \<lparr>st_cash = start, st_position = 0, st_fills = [], st_rejections = 0\<rparr>
      = sample_flat start" by (simp add: static_portfolio_def sample_flat_def)
    have net: "is_i64 (start - f_fee f)" using sold(4) fee assms(1,2) by (simp add: is_i64_def)
    show ?thesis
      using static_fill_short [OF sold(1) n(1,2) sold(4) fee proceeds assms(1)] net fee
      by (simp add: run_static_proposals_def static_step_def flat assms(10) total_fees_def i64_try_def)
  qed
  ultimately show ?thesis by simp
qed

theorem short_open_aborts_synchronized_replay_witness:
  "run_synchronized_proposals sample_engine sample_series (sample_schedule sample_short) 1000000000
     = Inl (Policy PReduceOnly)
   \<and> (\<exists>r. run_static_proposals sample_engine sample_pair [Some sample_short] 1000000000 = Inr r
        \<and> br_fills r = [sample_short_fill] \<and> br_policy_rejections r = 0)"
proof -
  have pair: "sample_series ! 1 = sample_candle ''ETH'' 0 2000000000"
    "sample_series ! (3 + 1) = sample_candle ''ETH'' 900000 2000000000"
    "sample_pair = [sample_series ! 1, sample_series ! (3 + 1)]"
    by (simp_all add: sample_series_def sample_pair_def)
  have size: "6 \<le> length sample_series" "length sample_series mod 3 = 0" by (simp_all add: sample_series_def)
  have "schedule_proposals (sample_schedule sample_short) = Inr [(0, sample_short)]"
    by (simp add: schedule_proposals_def sample_schedule_def)
  moreover have "map_of [(0, sample_short)] (c_open_time (hd sample_series)) = Some sample_short"
    "symbol_index ALLOWED_SYMBOLS (p_symbol sample_short) = Some 1" "p_side sample_short = Sell"
    by (simp_all add: sample_series_def sample_candle_def sample_short_def sample_proposal_def ALLOWED_SYMBOLS_def)
  moreover have "is_i64 (1000000000 + (f_quantity_e8 sample_short_fill * f_price sample_short_fill) sdiv 100000000)"
    by (simp add: sample_short_fill_def sdiv_nonneg is_i64_def)
  ultimately show ?thesis
    using short_open_aborts_synchronized_replay [of 1000000000 sample_series "sample_schedule sample_short"
        "[(0, sample_short)]" sample_short 1 sample_engine sample_short_fill]
      sample_intervals sample_executed_short size unfolding pair by (auto simp: is_i64_def)
qed

end
