(* ===== verification/Envelopes.thy ===== *)
theory Envelopes
  imports Protocol "HOL-Library.Multiset"
begin

text \<open>
  The signed envelopes of \<open>crow-agent-protocol\<close>: arena manifests, dataset manifests,
  inference receipts, remote commands and run events. Each envelope has an unsigned view,
  the JSON object of its fields without hash and signature, whose canonical bytes are
  hashed and signed. The laws for the cryptographic packages are in \<open>Protocol\<close>.
\<close>

section \<open>Serialization helpers\<close>

definition jtime :: "prims \<Rightarrow> int \<Rightarrow> json option" where
  "jtime P t = map_option JStr (rfc3339 P t)"

definition juuid :: "prims \<Rightarrow> uuid \<Rightarrow> json" where "juuid P u = JStr (uuid_str P u)"

definition juuid_opt :: "prims \<Rightarrow> uuid option \<Rightarrow> json" where
  "juuid_opt P u = (case u of None \<Rightarrow> JNull | Some x \<Rightarrow> juuid P x)"

definition jword :: "'l::len word \<Rightarrow> json" where "jword w = JInt (uint w)"

section \<open>Signed arena manifests\<close>

text \<open>
  The two directions of the derived serialization of \<open>ArenaManifestV1\<close> are arguments:
  \<open>enc\<close> is \<open>to_value\<close>, \<open>dec\<close> is \<open>from_value\<close>.
\<close>

record signed_manifest =
  sm_manifest :: arena_manifest
  sm_manifest_sha256 :: string
  sm_signer_public_key :: string
  sm_signature :: string
  sm_signed_manifest :: "json option"

definition sign_manifest ::
    "prims \<Rightarrow> (arena_manifest \<Rightarrow> json option) \<Rightarrow> arena_manifest \<Rightarrow> string
      \<Rightarrow> protocol_error + signed_manifest" where
  "sign_manifest P enc m signing_key =
     rbind (validate_manifest m) (\<lambda>_.
     rbind (canonical_json P (enc m)) (\<lambda>bytes.
       let digest = sha256 P bytes in
       Inr \<lparr>sm_manifest = m, sm_manifest_sha256 = hex_encode P digest,
            sm_signer_public_key = b64_encode P (verifying_key P signing_key),
            sm_signature = b64_encode P (ed_sign P signing_key digest),
            sm_signed_manifest = None\<rparr>))"

definition manifest_canonical ::
    "prims \<Rightarrow> (arena_manifest \<Rightarrow> json option) \<Rightarrow> (json \<Rightarrow> arena_manifest option)
      \<Rightarrow> signed_manifest \<Rightarrow> protocol_error + string" where
  "manifest_canonical P enc dec s =
     (case sm_signed_manifest s of
        Some value \<Rightarrow>
          rbind (ok_or (dec value) CanonicalJson) (\<lambda>typed_manifest.
            if typed_manifest \<noteq> sm_manifest s then Inl InvalidEventHash
            else canonical_json P (Some value))
      | None \<Rightarrow> canonical_json P (enc (sm_manifest s)))"

definition verify_manifest ::
    "prims \<Rightarrow> (arena_manifest \<Rightarrow> json option) \<Rightarrow> (json \<Rightarrow> arena_manifest option)
      \<Rightarrow> signed_manifest \<Rightarrow> protocol_error + unit" where
  "verify_manifest P enc dec s =
     rbind (validate_manifest (sm_manifest s)) (\<lambda>_.
     rbind (manifest_canonical P enc dec s) (\<lambda>canonical.
       let digest = sha256 P canonical in
       if hex_encode P digest \<noteq> sm_manifest_sha256 s then Inl InvalidEventHash
       else verify_signature P (sm_signer_public_key s) (sm_signature s) digest))"

definition from_signed_value ::
    "prims \<Rightarrow> (arena_manifest \<Rightarrow> json option) \<Rightarrow> (json \<Rightarrow> arena_manifest option)
      \<Rightarrow> json \<Rightarrow> string \<Rightarrow> string \<Rightarrow> string \<Rightarrow> protocol_error + signed_manifest" where
  "from_signed_value P enc dec manifest manifest_sha256 signer_public_key signature =
     rbind (ok_or (dec manifest) CanonicalJson) (\<lambda>typed_manifest.
       let sm = \<lparr>sm_manifest = typed_manifest, sm_manifest_sha256 = manifest_sha256,
                     sm_signer_public_key = signer_public_key, sm_signature = signature,
                     sm_signed_manifest = Some manifest\<rparr> in
       rbind (verify_manifest P enc dec sm) (\<lambda>_. Inr sm))"

section \<open>Dataset manifests\<close>

record dataset_file =
  df_path :: string
  df_sha256 :: string
  df_bytes :: u64

record dataset_manifest =
  dm_protocol :: string
  dm_source :: string
  dm_dataset_id :: uuid
  dm_version :: u32
  dm_interval_seconds :: u32
  dm_symbols :: "string list"
  dm_starts_at :: int
  dm_ends_at :: int
  dm_files :: "dataset_file list"
  dm_package_sha256 :: string
  dm_signer_public_key :: string
  dm_signature :: string

definition validate_dataset_manifest :: "dataset_manifest \<Rightarrow> protocol_error + unit" where
  "validate_dataset_manifest m =
     (if dm_protocol m \<noteq> HARNESS_PROTOCOL_V1
       \<or> dm_source m \<noteq> DATASET_SOURCE_V1
       \<or> dm_version m = 0
       \<or> dm_interval_seconds m \<noteq> 900
       \<or> dm_symbols m \<noteq> ALLOWED_SYMBOLS
       \<or> dm_ends_at m \<le> dm_starts_at m
       \<or> dm_files m = []
       \<or> \<not> is_sha256 (dm_package_sha256 m)
       \<or> list_ex (\<lambda>f. df_path f = [] \<or> starts_with (df_path f) ''/''
            \<or> contains_sub (df_path f) ''..'' \<or> df_bytes f = 0
            \<or> \<not> is_sha256 (df_sha256 f)) (dm_files m)
      then Inl (InvalidManifest ''dataset manifest is invalid'')
      else Inr ())"

definition dataset_file_json :: "dataset_file \<Rightarrow> json" where
  "dataset_file_json f = JObj [(''path'', JStr (df_path f)), (''sha256'', JStr (df_sha256 f)),
     (''bytes'', jword (df_bytes f))]"

definition unsigned_dataset :: "prims \<Rightarrow> dataset_manifest \<Rightarrow> json option" where
  "unsigned_dataset P m =
     (case (jtime P (dm_starts_at m), jtime P (dm_ends_at m)) of
        (Some starts, Some ends) \<Rightarrow> Some (JObj
          [(''protocol'', JStr (dm_protocol m)), (''source'', JStr (dm_source m)),
           (''dataset_id'', juuid P (dm_dataset_id m)), (''version'', jword (dm_version m)),
           (''interval_seconds'', jword (dm_interval_seconds m)),
           (''symbols'', JArr (map JStr (dm_symbols m))),
           (''starts_at'', starts), (''ends_at'', ends),
           (''files'', JArr (map dataset_file_json (dm_files m))),
           (''package_sha256'', JStr (dm_package_sha256 m)),
           (''signer_public_key'', JStr (dm_signer_public_key m))])
      | _ \<Rightarrow> None)"

definition sign_dataset ::
    "prims \<Rightarrow> string \<Rightarrow> uuid \<Rightarrow> u32 \<Rightarrow> int \<Rightarrow> int \<Rightarrow> dataset_file list \<Rightarrow> string
      \<Rightarrow> protocol_error + dataset_manifest" where
  "sign_dataset P signing_key dataset_id version starts_at ends_at files package_sha256 =
     (let manifest = \<lparr>dm_protocol = HARNESS_PROTOCOL_V1, dm_source = DATASET_SOURCE_V1,
        dm_dataset_id = dataset_id, dm_version = version, dm_interval_seconds = 900,
        dm_symbols = ALLOWED_SYMBOLS, dm_starts_at = starts_at, dm_ends_at = ends_at,
        dm_files = files, dm_package_sha256 = package_sha256,
        dm_signer_public_key = b64_encode P (verifying_key P signing_key),
        dm_signature = ''''\<rparr> in
      rbind (validate_dataset_manifest manifest) (\<lambda>_.
      rbind (canonical_json P (unsigned_dataset P manifest)) (\<lambda>bytes.
        Inr (manifest\<lparr>dm_signature := b64_encode P (ed_sign P signing_key (sha256 P bytes))\<rparr>))))"

definition verify_dataset :: "prims \<Rightarrow> dataset_manifest \<Rightarrow> protocol_error + unit" where
  "verify_dataset P m =
     rbind (validate_dataset_manifest m) (\<lambda>_.
     rbind (canonical_json P (unsigned_dataset P m)) (\<lambda>bytes.
       verify_signature P (dm_signer_public_key m) (dm_signature m) (sha256 P bytes)))"

section \<open>Inference receipts\<close>

record inference_receipt =
  ir_protocol :: string
  ir_receipt_id :: uuid
  ir_arena_id :: uuid
  ir_run_id :: uuid
  ir_cycle_id :: uuid
  ir_model_id :: string
  ir_model_revision :: string
  ir_runtime_digest :: string
  ir_input_sha256 :: string
  ir_output_sha256 :: string
  ir_tool_calls_sha256 :: string
  ir_input_tokens :: u64
  ir_output_tokens :: u64
  ir_amount_microcredits :: u64
  ir_gateway_public_key :: string
  ir_gateway_signature :: string
  ir_finalized_at :: int

definition unsigned_receipt :: "prims \<Rightarrow> inference_receipt \<Rightarrow> json option" where
  "unsigned_receipt P r =
     (case jtime P (ir_finalized_at r) of None \<Rightarrow> None | Some finalized \<Rightarrow> Some (JObj
        [(''protocol'', JStr (ir_protocol r)), (''receipt_id'', juuid P (ir_receipt_id r)),
         (''arena_id'', juuid P (ir_arena_id r)), (''run_id'', juuid P (ir_run_id r)),
         (''cycle_id'', juuid P (ir_cycle_id r)), (''model_id'', JStr (ir_model_id r)),
         (''model_revision'', JStr (ir_model_revision r)),
         (''runtime_digest'', JStr (ir_runtime_digest r)),
         (''input_sha256'', JStr (ir_input_sha256 r)),
         (''output_sha256'', JStr (ir_output_sha256 r)),
         (''tool_calls_sha256'', JStr (ir_tool_calls_sha256 r)),
         (''input_tokens'', jword (ir_input_tokens r)),
         (''output_tokens'', jword (ir_output_tokens r)),
         (''amount_microcredits'', jword (ir_amount_microcredits r)),
         (''gateway_public_key'', JStr (ir_gateway_public_key r)),
         (''finalized_at'', finalized)]))"

definition verify_receipt :: "prims \<Rightarrow> inference_receipt \<Rightarrow> protocol_error + unit" where
  "verify_receipt P r =
     (if ir_protocol r \<noteq> HARNESS_PROTOCOL_V1 \<or> ir_model_id r = [] \<or> ir_model_revision r = []
       \<or> ir_runtime_digest r = [] \<or> 256 < length (ir_runtime_digest r)
       \<or> \<not> is_sha256 (ir_input_sha256 r) \<or> \<not> is_sha256 (ir_output_sha256 r)
       \<or> \<not> is_sha256 (ir_tool_calls_sha256 r)
      then Inl InvalidInferenceReceipt
      else rbind (canonical_json P (unsigned_receipt P r)) (\<lambda>bytes.
        map_err (\<lambda>_. InvalidInferenceReceipt)
          (verify_signature P (ir_gateway_public_key r) (ir_gateway_signature r) bytes)))"

section \<open>Remote commands\<close>

datatype remote_action = Pause | Resume | Stop

definition action_str :: "remote_action \<Rightarrow> string" where
  "action_str a = (case a of Pause \<Rightarrow> ''pause'' | Resume \<Rightarrow> ''resume'' | Stop \<Rightarrow> ''stop'')"

record remote_command =
  rc_protocol :: string
  rc_command_id :: uuid
  rc_target_device_id :: uuid
  rc_run_id :: uuid
  rc_action :: remote_action
  rc_nonce :: u64
  rc_issued_at :: int
  rc_expires_at :: int
  rc_controller_device_id :: uuid
  rc_controller_signature :: string
  rc_relay_receipt :: "string option"

definition unsigned_command :: "prims \<Rightarrow> remote_command \<Rightarrow> json option" where
  "unsigned_command P c =
     (case (jtime P (rc_issued_at c), jtime P (rc_expires_at c)) of
        (Some issued, Some expires) \<Rightarrow> Some (JObj
          [(''protocol'', JStr (rc_protocol c)), (''command_id'', juuid P (rc_command_id c)),
           (''target_device_id'', juuid P (rc_target_device_id c)),
           (''run_id'', juuid P (rc_run_id c)), (''action'', JStr (action_str (rc_action c))),
           (''nonce'', jword (rc_nonce c)), (''issued_at'', issued), (''expires_at'', expires),
           (''controller_device_id'', juuid P (rc_controller_device_id c))])
      | _ \<Rightarrow> None)"

text \<open>\<open>command_id\<close> is the fresh \<open>Uuid::new_v4()\<close>.\<close>

definition sign_command ::
    "prims \<Rightarrow> string \<Rightarrow> uuid \<Rightarrow> uuid \<Rightarrow> uuid \<Rightarrow> remote_action \<Rightarrow> u64 \<Rightarrow> int \<Rightarrow> int \<Rightarrow> uuid
      \<Rightarrow> protocol_error + remote_command" where
  "sign_command P signing_key command_id target_device_id run_id action nonce issued_at expires_at
       controller_device_id =
     (if expires_at \<le> issued_at then Inl InvalidRemoteCommand
      else let c = \<lparr>rc_protocol = HARNESS_PROTOCOL_V1, rc_command_id = command_id,
          rc_target_device_id = target_device_id, rc_run_id = run_id, rc_action = action,
          rc_nonce = nonce, rc_issued_at = issued_at, rc_expires_at = expires_at,
          rc_controller_device_id = controller_device_id, rc_controller_signature = '''',
          rc_relay_receipt = None\<rparr> in
        rbind (canonical_json P (unsigned_command P c)) (\<lambda>bytes.
          Inr (c\<lparr>rc_controller_signature :=
                   b64_encode P (ed_sign P signing_key (sha256 P bytes))\<rparr>)))"

definition verify_command :: "prims \<Rightarrow> remote_command \<Rightarrow> string \<Rightarrow> int \<Rightarrow> protocol_error + unit" where
  "verify_command P c controller_public_key now =
     (if rc_protocol c \<noteq> HARNESS_PROTOCOL_V1 \<or> rc_expires_at c \<le> rc_issued_at c
       \<or> now < rc_issued_at c \<or> rc_expires_at c < now
      then Inl InvalidRemoteCommand
      else rbind (canonical_json P (unsigned_command P c)) (\<lambda>bytes.
        verify_signature P controller_public_key (rc_controller_signature c) (sha256 P bytes)))"

section \<open>Run events\<close>

record run_event =
  ev_protocol :: string
  ev_event_id :: uuid
  ev_arena_id :: uuid
  ev_run_id :: uuid
  ev_cycle_id :: "uuid option"
  ev_sequence :: u64
  ev_previous_event_sha256 :: string
  ev_event_type :: string
  ev_occurred_at :: int
  ev_payload :: json
  ev_event_sha256 :: string
  ev_device_public_key :: string
  ev_device_signature :: string
  ev_server_receipt :: "string option"

definition unsigned_event :: "prims \<Rightarrow> run_event \<Rightarrow> json option" where
  "unsigned_event P e =
     (case jtime P (ev_occurred_at e) of None \<Rightarrow> None | Some occurred \<Rightarrow> Some (JObj
        [(''protocol'', JStr (ev_protocol e)), (''event_id'', juuid P (ev_event_id e)),
         (''arena_id'', juuid P (ev_arena_id e)), (''run_id'', juuid P (ev_run_id e)),
         (''cycle_id'', juuid_opt P (ev_cycle_id e)), (''sequence'', jword (ev_sequence e)),
         (''previous_event_sha256'', JStr (ev_previous_event_sha256 e)),
         (''event_type'', JStr (ev_event_type e)), (''occurred_at'', occurred),
         (''payload'', ev_payload e)]))"

text \<open>\<open>event_id\<close> is the fresh \<open>Uuid::new_v4()\<close>.\<close>

definition sign_event ::
    "prims \<Rightarrow> string \<Rightarrow> uuid \<Rightarrow> uuid \<Rightarrow> uuid \<Rightarrow> uuid option \<Rightarrow> u64 \<Rightarrow> string \<Rightarrow> string \<Rightarrow> int \<Rightarrow> json
      \<Rightarrow> protocol_error + run_event" where
  "sign_event P signing_key event_id arena_id run_id cycle_id seqno previous_event_sha256
       event_type occurred_at payload =
     (let e = \<lparr>ev_protocol = HARNESS_PROTOCOL_V1, ev_event_id = event_id, ev_arena_id = arena_id,
          ev_run_id = run_id, ev_cycle_id = cycle_id, ev_sequence = seqno,
          ev_previous_event_sha256 = previous_event_sha256, ev_event_type = event_type,
          ev_occurred_at = occurred_at, ev_payload = payload, ev_event_sha256 = '''',
          ev_device_public_key = '''', ev_device_signature = '''', ev_server_receipt = None\<rparr> in
      rbind (canonical_json P (unsigned_event P e)) (\<lambda>bytes.
        let digest = sha256 P bytes in
        Inr (e\<lparr>ev_event_sha256 := hex_encode P digest,
               ev_device_public_key := b64_encode P (verifying_key P signing_key),
               ev_device_signature := b64_encode P (ed_sign P signing_key digest)\<rparr>)))"

definition verify_event :: "prims \<Rightarrow> run_event \<Rightarrow> protocol_error + unit" where
  "verify_event P e =
     (if ev_protocol e \<noteq> HARNESS_PROTOCOL_V1 then Inl InvalidEventHash
      else rbind (canonical_json P (unsigned_event P e)) (\<lambda>bytes.
        let digest = sha256 P bytes in
        if hex_encode P digest \<noteq> ev_event_sha256 e then Inl InvalidEventHash
        else verify_signature P (ev_device_public_key e) (ev_device_signature e) digest))"

definition with_server_receipt :: "run_event \<Rightarrow> string \<Rightarrow> run_event" where
  "with_server_receipt e receipt = e\<lparr>ev_server_receipt := Some receipt\<rparr>"

section \<open>Canonical JSON\<close>

text \<open>Every object in a value has its keys strictly increasing.\<close>

fun json_sorted :: "json \<Rightarrow> bool" where
  "json_sorted (JObj fs) = (bt_ok fs \<and> list_all (\<lambda>p. json_sorted (snd p)) fs)"
| "json_sorted (JArr vs) = list_all json_sorted vs"
| "json_sorted _ = True"

lemma set_bt_insert: "set (bt_insert k v m) \<subseteq> insert (k, v) (set m)"
  by (induction k v m rule: bt_insert.induct) auto

lemma set_fold_bt_insert:
  "set (fold (\<lambda>(k, v) m. bt_insert k v m) kvs m) \<subseteq> set kvs \<union> set m"
proof (induction kvs arbitrary: m)
  case (Cons p kvs)
  obtain k v where p: "p = (k, v)" by (cases p)
  show ?case using Cons [of "bt_insert k v m"] set_bt_insert [of k v m] by (auto simp: p)
qed simp

lemma set_bt_of_list: "set (bt_of_list kvs) \<subseteq> set kvs"
  using set_fold_bt_insert [of kvs "[]"] by (simp add: bt_of_list_def)

lemma sort_json_sorted: "json_sorted (sort_json v)"
proof (induction v rule: sort_json.induct)
  case (1 fs)
  have "json_sorted (snd q)"
    if "q \<in> set (bt_of_list (map (\<lambda>p. (fst p, sort_json (snd p))) fs))" for q
  proof -
    from that set_bt_of_list obtain p where "p \<in> set fs" "q = (fst p, sort_json (snd p))"
      by fastforce
    then show ?thesis using 1 by simp
  qed
  then show ?case by (simp add: list_all_iff)
next
  case (2 vs)
  then show ?case by (auto simp: list_all_iff)
qed auto

lemma bt_ok_snoc: "bt_ok (xs @ [(k, v)]) \<longleftrightarrow> bt_ok xs \<and> (\<forall>x \<in> fst ` set xs. x < k)"
  by (auto simp: bt_ok_def sorted_wrt_append)

lemma bt_insert_last:
  "(\<And>x. x \<in> fst ` set m \<Longrightarrow> x < k) \<Longrightarrow> bt_insert k v m = m @ [(k, v)]"
  by (induction k v m rule: bt_insert.induct) (auto dest: less_asym)

lemma bt_of_list_id: "bt_ok m \<Longrightarrow> bt_of_list m = m"
proof (induction m rule: rev_induct)
  case (snoc p m)
  obtain k v where p: "p = (k, v)" by (cases p)
  with snoc have ok: "bt_ok m" "\<And>x. x \<in> fst ` set m \<Longrightarrow> x < k"
    by (auto simp: bt_ok_snoc)
  have "bt_of_list (m @ [p]) = bt_insert k v (bt_of_list m)"
    by (simp add: bt_of_list_def p)
  also have "\<dots> = m @ [(k, v)]"
    using snoc.IH [OF ok(1)] bt_insert_last [OF ok(2)] by simp
  finally show ?case by (simp add: p)
qed (simp add: bt_of_list_def)

lemma sort_json_id: "json_sorted v \<Longrightarrow> sort_json v = v"
proof (induction v rule: json_sorted.induct)
  case (1 fs)
  have "map (\<lambda>p. (fst p, sort_json (snd p))) fs = fs"
    by (rule map_idI) (use 1 in \<open>auto simp: list_all_iff\<close>)
  then show ?case using 1 by (simp add: bt_of_list_id)
next
  case (2 vs)
  have "map sort_json vs = vs"
    by (rule map_idI) (use 2 in \<open>auto simp: list_all_iff\<close>)
  then show ?case by simp
qed auto

lemma map_of_mset_eq:
  assumes "mset xs = mset ys" and "distinct (map fst xs)"
  shows "map_of xs = map_of ys"
proof -
  have "set xs = set ys" using assms(1) by (rule mset_eq_setD)
  moreover have "distinct (map fst ys)"
    using assms by (metis mset_eq_imp_distinct_iff mset_map)
  ultimately show ?thesis
    using assms(2) by (metis map_of_inject_set)
qed

text \<open>
  The bytes that are hashed and signed do not depend on the order in which an object's
  fields were written: two objects with distinct keys and the same fields in any order have
  the same canonical bytes.
\<close>

theorem canonical_json_order_free:
  assumes "distinct (map fst fs)" and "mset fs = mset gs"
  shows "canonical_json P (Some (JObj fs)) = canonical_json P (Some (JObj gs))"
proof -
  let ?f = "\<lambda>p. (fst p, sort_json (snd p))"
  have keys: "map fst (map ?f xs) = map fst xs" for xs by simp
  have dg: "distinct (map fst gs)"
    using assms by (metis mset_eq_imp_distinct_iff mset_map)
  have "mset (rev (map ?f fs)) = mset (rev (map ?f gs))"
    using assms(2) by simp
  moreover have "distinct (map fst (rev (map ?f fs)))"
    using assms(1) by (simp add: rev_map [symmetric] o_def)
  ultimately have "map_of (rev (map ?f fs)) = map_of (rev (map ?f gs))"
    by (rule map_of_mset_eq)
  then have "bt_of_list (map ?f fs) = bt_of_list (map ?f gs)"
    by (intro bt_canonical) (simp_all add: map_of_bt_of_list)
  then show ?thesis by (simp add: canonical_json_def)
qed

text \<open>
  Canonicalisation is a normal form: it leaves every object of the value, at any depth,
  with strictly increasing keys, and applying it again changes nothing.
\<close>

theorem sort_json_normal_form:
  "json_sorted (sort_json v) \<and> sort_json (sort_json v) = sort_json v"
  using sort_json_sorted sort_json_id by blast

section \<open>Signing and verifying\<close>

lemma verify_signature_own:
  assumes "signature_law P"
  shows "verify_signature P (b64_encode P (verifying_key P sk))
           (b64_encode P (ed_sign P sk m)) m = Inr ()"
  using assms by (simp add: verify_signature_def signature_law_def b64_law_def)

lemma unsigned_event_signed_fields [simp]:
  "unsigned_event P (e\<lparr>ev_event_sha256 := a, ev_device_public_key := b,
     ev_device_signature := c\<rparr>) = unsigned_event P e"
  "unsigned_event P (e\<lparr>ev_server_receipt := r\<rparr>) = unsigned_event P e"
  by (simp_all add: unsigned_event_def cong: option.case_cong)

lemma sign_event_Inr:
  assumes "sign_event P sk event_id arena run cycle n prev ty t payload = Inr e"
  shows "ev_run_id e = run" "ev_arena_id e = arena" "ev_sequence e = n" "ev_event_id e = event_id"
    "ev_cycle_id e = cycle" "ev_previous_event_sha256 e = prev" "ev_event_type e = ty"
    "ev_payload e = payload" "ev_server_receipt e = None" "ev_protocol e = HARNESS_PROTOCOL_V1"
  using assms by (auto simp: sign_event_def Let_def)

lemma sign_event_hash:
  assumes "sign_event P sk event_id arena run cycle n prev ty t payload = Inr e"
  obtains bytes where "canonical_json P (unsigned_event P e) = Inr bytes"
    and "ev_event_sha256 e = hex_encode P (sha256 P bytes)"
    and "ev_device_public_key e = b64_encode P (verifying_key P sk)"
    and "ev_device_signature e = b64_encode P (ed_sign P sk (sha256 P bytes))"
  using assms
  by (auto simp: sign_event_def unsigned_event_def Let_def cong: option.case_cong)

lemma sign_event_verifies:
  assumes "signature_law P" and "sign_event P sk event_id arena run cycle n prev ty t payload = Inr e"
  shows "verify_event P e = Inr ()"
  by (rule sign_event_hash [OF assms(2)])
    (simp add: verify_event_def sign_event_Inr(10) [OF assms(2)] verify_signature_own [OF assms(1)])

lemma verify_event_receipt [simp]:
  "verify_event P (e\<lparr>ev_server_receipt := r\<rparr>) = verify_event P e"
  by (simp add: verify_event_def Let_def cong: if_cong)

text \<open>A concrete choice of the parameters, for the witnesses: hashing and encoding are the
  identity and the one signature verifies.\<close>

definition toy_prims :: prims where
  "toy_prims = \<lparr>hex_encode = (\<lambda>b. b), hex_decode = (\<lambda>s. Some s), b64_encode = (\<lambda>b. b),
     b64_decode = (\<lambda>s. Some s), sha256 = (\<lambda>b. b), json_to_vec = (\<lambda>v. Some ''json''),
     verifying_key = (\<lambda>sk. replicate 32 (CHR ''k'')), ed_sign = (\<lambda>sk m. ''sig''),
     ed_key_ok = (\<lambda>k. True), ed_sig_ok = (\<lambda>s. True), ed_verify = (\<lambda>k m s. s = ''sig''),
     hmac_sha256 = (\<lambda>k m. k), rfc3339 = (\<lambda>t. Some ''t''), uuid_str = (\<lambda>u. ''uuid'')\<rparr>"

lemma toy_signature_law: "signature_law toy_prims"
  by (simp add: signature_law_def b64_law_def toy_prims_def)

theorem canonical_json_order_free_witness:
  "canonical_json toy_prims (Some (JObj [(''b'', JInt 1), (''a'', JNull)]))
     = canonical_json toy_prims (Some (JObj [(''a'', JNull), (''b'', JInt 1)]))"
  by (rule canonical_json_order_free) simp_all

text \<open>
  A run event the device signs verifies, and still verifies once the server's receipt
  is attached to it; it carries the run, sequence number, previous hash and payload it was
  signed with and no receipt.
\<close>

theorem signed_event_verifies:
  assumes "signature_law P" and "sign_event P sk event_id arena run cycle n prev ty t payload = Inr e"
  shows "verify_event P e = Inr () \<and> verify_event P (with_server_receipt e receipt) = Inr ()
    \<and> ev_run_id e = run \<and> ev_sequence e = n \<and> ev_previous_event_sha256 e = prev
    \<and> ev_payload e = payload \<and> ev_server_receipt e = None"
  using sign_event_verifies [OF assms] sign_event_Inr [OF assms(2)]
  by (simp add: with_server_receipt_def)

definition toy_event :: run_event where
  "toy_event = \<lparr>ev_protocol = HARNESS_PROTOCOL_V1, ev_event_id = 7, ev_arena_id = 1, ev_run_id = 2,
     ev_cycle_id = None, ev_sequence = 1, ev_previous_event_sha256 = replicate 64 (CHR ''0''),
     ev_event_type = ''run_started'', ev_occurred_at = 0, ev_payload = JNull,
     ev_event_sha256 = ''json'', ev_device_public_key = replicate 32 (CHR ''k''),
     ev_device_signature = ''sig'', ev_server_receipt = None\<rparr>"

lemma toy_event_signed:
  "sign_event toy_prims ''seed'' 7 1 2 None 1 (replicate 64 (CHR ''0'')) ''run_started'' 0 JNull
     = Inr toy_event"
  by (simp add: sign_event_def unsigned_event_def canonical_json_def jtime_def toy_prims_def
      toy_event_def)

theorem signed_event_verifies_witness:
  "verify_event toy_prims toy_event = Inr () \<and> ev_sequence toy_event = 1"
  using signed_event_verifies [OF toy_signature_law toy_event_signed] by blast

lemma unsigned_command_signature [simp]:
  "unsigned_command P (c\<lparr>rc_controller_signature := s\<rparr>) = unsigned_command P c"
  by (simp add: unsigned_command_def cong: option.case_cong)

text \<open>
  A signed remote command verifies under its controller's key at every instant of its
  validity window, bounds included, and is refused before it was issued and after it
  expired.
\<close>

theorem command_valid_in_window:
  assumes "signature_law P"
    and "sign_command P sk command_id device run action nonce issued expires controller = Inr c"
  shows "verify_command P c (b64_encode P (verifying_key P sk)) now
    = (if issued \<le> now \<and> now \<le> expires then Inr () else Inl InvalidRemoteCommand)"
proof -
  from assms(2) obtain bytes where c: "canonical_json P (unsigned_command P c) = Inr bytes"
    "rc_controller_signature c = b64_encode P (ed_sign P sk (sha256 P bytes))"
    "rc_protocol c = HARNESS_PROTOCOL_V1" "rc_issued_at c = issued" "rc_expires_at c = expires"
    "issued < expires"
    by (auto simp: sign_command_def unsigned_command_def Let_def split: if_splits
        cong: option.case_cong)
  then show ?thesis by (simp add: verify_command_def verify_signature_own [OF assms(1)])
qed

definition toy_command :: remote_command where
  "toy_command = \<lparr>rc_protocol = HARNESS_PROTOCOL_V1, rc_command_id = 9, rc_target_device_id = 1,
     rc_run_id = 2, rc_action = Pause, rc_nonce = 5, rc_issued_at = 10, rc_expires_at = 20,
     rc_controller_device_id = 3, rc_controller_signature = ''sig'', rc_relay_receipt = None\<rparr>"

lemma toy_command_signed:
  "sign_command toy_prims ''seed'' 9 1 2 Pause 5 10 20 3 = Inr toy_command"
  by (simp add: sign_command_def unsigned_command_def canonical_json_def jtime_def toy_prims_def
      toy_command_def)

theorem command_valid_in_window_witness:
  "verify_command toy_prims toy_command (replicate 32 (CHR ''k'')) 15 = Inr ()
   \<and> verify_command toy_prims toy_command (replicate 32 (CHR ''k'')) 21 = Inl InvalidRemoteCommand"
  using command_valid_in_window [OF toy_signature_law toy_command_signed, of 15]
    command_valid_in_window [OF toy_signature_law toy_command_signed, of 21]
  by (simp add: toy_prims_def)

lemma unsigned_dataset_signature [simp]:
  "unsigned_dataset P (m\<lparr>dm_signature := s\<rparr>) = unsigned_dataset P m"
  "validate_dataset_manifest (m\<lparr>dm_signature := s\<rparr>) = validate_dataset_manifest m"
  by (simp_all add: unsigned_dataset_def validate_dataset_manifest_def cong: option.case_cong)

lemma sign_dataset_verifies:
  assumes "signature_law P" and "sign_dataset P sk i v s e files h = Inr m"
  shows "verify_dataset P m = Inr ()"
proof -
  from assms(2) obtain bytes where m: "canonical_json P (unsigned_dataset P m) = Inr bytes"
    "dm_signature m = b64_encode P (ed_sign P sk (sha256 P bytes))"
    "dm_signer_public_key m = b64_encode P (verifying_key P sk)"
    "validate_dataset_manifest m = Inr ()"
    by (auto simp: sign_dataset_def unsigned_dataset_def validate_dataset_manifest_def Let_def
        split: if_splits cong: option.case_cong)
  then show ?thesis by (simp add: verify_dataset_def verify_signature_own [OF assms(1)])
qed

lemma verify_manifest_Inr:
  assumes "verify_manifest P enc dec s = Inr ()"
  shows "validate_manifest (sm_manifest s) = Inr ()"
  using assms by (auto simp: verify_manifest_def)

text \<open>
  A manifest the arena operator signs is accepted by \<open>verify\<close> as it stands, and its raw
  form, rebuilt by \<open>from_signed_value\<close> from the JSON value, the digest, the key and the
  signature, is accepted too and yields the same manifest.
\<close>

theorem signed_manifest_round_trip:
  assumes "signature_law P" and "sign_manifest P enc m sk = Inr s"
    and "enc m = Some v" and "dec v = Some m"
  shows "verify_manifest P enc dec s = Inr ()
    \<and> from_signed_value P enc dec v (sm_manifest_sha256 s) (sm_signer_public_key s)
        (sm_signature s) = Inr (s\<lparr>sm_signed_manifest := Some v\<rparr>)"
  using assms
  by (auto simp: sign_manifest_def verify_manifest_def manifest_canonical_def
      from_signed_value_def Let_def verify_signature_own)

end
