(* ===== verification/Scoring.thy ===== *)
theory Scoring
  imports Envelopes
begin

text \<open>
  Ranking of \<open>crates/crow-agent-core/src/scoring.rs\<close>: the percentile of a net return, the
  ranked score table, the performance metrics of an equity curve with the integer square
  root they use. A \<open>u128\<close> is a natural number with the checks written out; the unchecked
  \<open>i64\<close> arithmetic of \<open>percentile\<close> wraps.
\<close>

section \<open>Percentiles\<close>

definition PERCENTILE_SCALE :: int where "PERCENTILE_SCALE = 1000000"
definition MAX_SCORE_MILLIS :: int where "MAX_SCORE_MILLIS = 100000"
definition RETURN_SCALE :: int where "RETURN_SCALE = 1000000"

definition count_i64 :: "nat \<Rightarrow> int" where
  "count_i64 n = (if int n \<le> i64_max then int n else i64_max)"

definition percentile :: "int list \<Rightarrow> int \<Rightarrow> int" where
  "percentile values target =
     (if length values \<le> 1 then PERCENTILE_SCALE
      else let lower = count_i64 (length (filter (\<lambda>v. v < target) values));
               same = count_i64 (length (filter (\<lambda>v. v = target) values));
               value_count = count_i64 (length values);
               average_rank_twice = wrap_i64 (wrap_i64 (wrap_i64 (lower * 2) + same) - 1) in
      wrap_i64 (average_rank_twice * PERCENTILE_SCALE)
        sdiv wrap_i64 (2 * (value_count - 1)))"

section \<open>The score table\<close>

record run_score_input =
  ri_run_id :: uuid
  ri_net_return_micros :: int
  ri_sortino_micros :: int
  ri_max_drawdown_micros :: int
  ri_policy_rejections :: u32
  ri_missed_cycles :: u32
  ri_disqualified_reason :: "string option"

record scored_run =
  sr_run_id :: uuid
  sr_rank :: "u32 option"
  sr_score_millis :: int
  sr_net_return_percentile :: int
  sr_sortino_percentile :: int
  sr_inverse_drawdown_percentile :: int
  sr_penalty_millis :: int
  sr_disqualified_reason :: "string option"

definition score_run :: "run_score_input list \<Rightarrow> run_score_input \<Rightarrow> scored_run" where
  "score_run eligible run =
     (case ri_disqualified_reason run of
        Some reason \<Rightarrow> \<lparr>sr_run_id = ri_run_id run, sr_rank = None, sr_score_millis = 0,
          sr_net_return_percentile = 0, sr_sortino_percentile = 0,
          sr_inverse_drawdown_percentile = 0, sr_penalty_millis = 0,
          sr_disqualified_reason = Some reason\<rparr>
      | None \<Rightarrow>
          (let net = percentile (map ri_net_return_micros eligible) (ri_net_return_micros run) in
           \<lparr>sr_run_id = ri_run_id run, sr_rank = None,
            sr_score_millis = max 0 (min MAX_SCORE_MILLIS (net sdiv 10)),
            sr_net_return_percentile = net, sr_sortino_percentile = 0,
            sr_inverse_drawdown_percentile = 0, sr_penalty_millis = 0,
            sr_disqualified_reason = None\<rparr>))"

text \<open>
  The comparator of \<open>sort_by\<close>: eligible runs before disqualified ones, a higher net return
  first, ties and disqualified runs by the text of the run id. As a linear order on keys.
\<close>

datatype rank_key = EligibleKey int string | DisqualifiedKey string

instantiation rank_key :: linorder
begin

fun less_eq_rank_key :: "rank_key \<Rightarrow> rank_key \<Rightarrow> bool" where
  "less_eq_rank_key (EligibleKey n s) (EligibleKey m t) = (m < n \<or> m = n \<and> s \<le> t)"
| "less_eq_rank_key (EligibleKey n s) (DisqualifiedKey t) = True"
| "less_eq_rank_key (DisqualifiedKey s) (EligibleKey m t) = False"
| "less_eq_rank_key (DisqualifiedKey s) (DisqualifiedKey t) = (s \<le> t)"

definition less_rank_key :: "rank_key \<Rightarrow> rank_key \<Rightarrow> bool" where
  "less_rank_key x y \<longleftrightarrow> x \<le> y \<and> \<not> y \<le> x"

instance
proof
  fix x y z :: rank_key
  show "(x < y) = (x \<le> y \<and> \<not> y \<le> x)" by (simp add: less_rank_key_def)
  show "x \<le> x" by (cases x) auto
  show "x \<le> y \<Longrightarrow> y \<le> z \<Longrightarrow> x \<le> z" by (cases x; cases y; cases z) auto
  show "x \<le> y \<Longrightarrow> y \<le> x \<Longrightarrow> x = y" by (cases x; cases y) auto
  show "x \<le> y \<or> y \<le> x" by (cases x; cases y) auto
qed

end

definition rank_key_of :: "prims \<Rightarrow> (uuid \<times> run_score_input) list \<Rightarrow> scored_run \<Rightarrow> rank_key" where
  "rank_key_of P inputs s =
     (if sr_disqualified_reason s \<noteq> None then DisqualifiedKey (uuid_str P (sr_run_id s))
      else EligibleKey (ri_net_return_micros (the (map_of inputs (sr_run_id s))))
             (uuid_str P (sr_run_id s)))"

fun assign_ranks :: "u32 \<Rightarrow> scored_run list \<Rightarrow> scored_run list" where
  "assign_ranks rank [] = []"
| "assign_ranks rank (s # ss) =
     (if sr_disqualified_reason s = None
      then s\<lparr>sr_rank := Some rank\<rparr> # assign_ranks (sat_add rank 1) ss
      else s # assign_ranks rank ss)"

definition score_runs :: "prims \<Rightarrow> run_score_input list \<Rightarrow> scored_run list" where
  "score_runs P runs =
     (let eligible = filter (\<lambda>r. ri_disqualified_reason r = None) runs;
          scored = map (score_run eligible) runs;
          inputs = bt_of_list (map (\<lambda>r. (ri_run_id r, r)) runs) in
      assign_ranks 1 (sort_key (rank_key_of P inputs) scored))"

section \<open>Performance metrics\<close>

record performance_metrics =
  pm_net_return_micros :: int
  pm_sortino_micros :: int
  pm_max_drawdown_micros :: int

text \<open>The binary search of \<open>integer_sqrt\<close>; the bounds never leave the \<open>u64\<close> range.\<close>

function sqrt_search :: "nat \<Rightarrow> nat \<Rightarrow> nat \<Rightarrow> nat" where
  "sqrt_search value left right =
     (if right < left then right
      else let middle = left + (right - left) div 2;
               square = (if middle * middle < 2 ^ 128 then Some (middle * middle) else None) in
      if square = Some value then middle
      else if (case square of None \<Rightarrow> False | Some q \<Rightarrow> q < value)
      then sqrt_search value (middle + 1) right
      else sqrt_search value left (middle - 1))"
  by pat_completeness auto
termination
proof (relation "measure (\<lambda>(v, l, r). r + 1 - l)", goal_cases)
  case 1
  show ?case by simp
next
  case (2 v l r m q)
  then show ?case by auto
next
  case (3 v l r m q)
  from 3 have "0 < m" by (cases m) (auto split: option.splits)
  with 3 show ?case by auto
qed

declare sqrt_search.simps [simp del]

definition integer_sqrt :: "nat \<Rightarrow> nat" where
  "integer_sqrt value =
     (if value < 2 then value else sqrt_search value 1 (min value 18446744073709551615))"

fun drawdown_loop :: "int \<Rightarrow> int \<Rightarrow> int list \<Rightarrow> int" where
  "drawdown_loop peak acc [] = acc"
| "drawdown_loop peak acc (x # xs) =
     (let peak' = max peak x in
      drawdown_loop peak'
        (if x < peak' then max acc (((peak' - x) * RETURN_SCALE) sdiv peak') else acc) xs)"

fun square_sum :: "nat \<Rightarrow> int list \<Rightarrow> nat option" where
  "square_sum s [] = Some s"
| "square_sum s (x # xs) =
     (let magnitude = nat \<bar>x\<bar> in
      if magnitude * magnitude < 2 ^ 128 \<and> s + magnitude * magnitude < 2 ^ 128
      then square_sum (s + magnitude * magnitude) xs else None)"

definition interval_returns :: "int list \<Rightarrow> int list" where
  "interval_returns eq = map (\<lambda>(a, b). ((b - a) * RETURN_SCALE) sdiv a) (zip eq (tl eq))"

definition sortino_of :: "int list \<Rightarrow> int option" where
  "sortino_of returns =
     (let mean = sum_list returns sdiv int (length returns) in
      case square_sum 0 (filter (\<lambda>v. v < 0) returns) of
        None \<Rightarrow> None
      | Some s \<Rightarrow>
          (let downside_deviation = integer_sqrt (s div length returns) in
           if downside_deviation = 0 then Some (if 0 < mean then i64_max else 0)
           else i64_try ((mean * RETURN_SCALE) sdiv int downside_deviation)))"

definition performance_metrics_of :: "int list \<Rightarrow> performance_metrics option" where
  "performance_metrics_of eq =
     (if length eq < 2 \<or> list_ex (\<lambda>v. v \<le> 0) eq then None
      else case i64_try (((last eq - hd eq) * RETURN_SCALE) sdiv hd eq) of
        None \<Rightarrow> None
      | Some net \<Rightarrow>
          (case sortino_of (interval_returns eq) of
             None \<Rightarrow> None
           | Some ratio \<Rightarrow>
               (case i64_try (drawdown_loop (hd eq) 0 (tl eq)) of
                  None \<Rightarrow> None
                | Some drawdown \<Rightarrow> Some \<lparr>pm_net_return_micros = net,
                    pm_sortino_micros = ratio, pm_max_drawdown_micros = drawdown\<rparr>)))"

section \<open>The square root\<close>

lemma sqrt_search_correct:
  assumes "1 \<le> l" and "(l - 1) * (l - 1) \<le> v" and "v < (r + 1) * (r + 1)" and "l \<le> r + 1"
    and "v < 2 ^ 128"
  shows "sqrt_search v l r * sqrt_search v l r \<le> v
    \<and> v < (sqrt_search v l r + 1) * (sqrt_search v l r + 1)"
  using assms
proof (induction v l r rule: sqrt_search.induct)
  case (1 v l r)
  show ?case
  proof (cases "r < l")
    case True
    with 1 have "l = r + 1" by simp
    moreover have "sqrt_search v l r = r" using True by (simp add: sqrt_search.simps [of v l r])
    ultimately show ?thesis using 1 by simp
  next
    case False
    define m where "m = l + (r - l) div 2"
    have m: "l \<le> m" "m \<le> r" using False by (auto simp: m_def)
    consider "m * m = v" | "m * m < v" | "v < m * m" by linarith
    then show ?thesis
    proof cases
      case 1
      then show ?thesis using False \<open>v < 2 ^ 128\<close>
        by (simp add: sqrt_search.simps [of v l r] m_def [symmetric])
    next
      case 2
      then have small: "m * m < 2 ^ 128" using \<open>v < 2 ^ 128\<close> by linarith
      have "sqrt_search v (m + 1) r * sqrt_search v (m + 1) r \<le> v
        \<and> v < (sqrt_search v (m + 1) r + 1) * (sqrt_search v (m + 1) r + 1)"
        by (rule "1.IH"(1) [OF False m_def refl])
          (use 2 small m "1.prems" in \<open>simp_all\<close>)
      moreover have "sqrt_search v l r = sqrt_search v (m + 1) r"
        using False 2 small by (simp add: sqrt_search.simps [of v l r] m_def [symmetric])
      ultimately show ?thesis by simp
    next
      case 3
      then have "0 < m" by (cases m) auto
      have "sqrt_search v l (m - 1) * sqrt_search v l (m - 1) \<le> v
        \<and> v < (sqrt_search v l (m - 1) + 1) * (sqrt_search v l (m - 1) + 1)"
        by (rule "1.IH"(2) [OF False m_def refl])
          (use 3 m \<open>0 < m\<close> "1.prems" in \<open>simp_all\<close>)
      moreover have "sqrt_search v l r = sqrt_search v l (m - 1)"
        using False 3 by (simp add: sqrt_search.simps [of v l r] m_def [symmetric])
      ultimately show ?thesis by simp
    qed
  qed
qed

lemma integer_sqrt_correct:
  assumes "v < 2 ^ 128"
  shows "integer_sqrt v * integer_sqrt v \<le> v \<and> v < (integer_sqrt v + 1) * (integer_sqrt v + 1)"
proof (cases "v < 2")
  case True
  then have "v = 0 \<or> v = 1" by auto
  then show ?thesis by (auto simp: integer_sqrt_def)
next
  case False
  have "v < (min v 18446744073709551615 + 1) * (min v 18446744073709551615 + 1)"
    using assms by (cases "v \<le> 18446744073709551615") (auto simp: min_def)
  with False assms show ?thesis
    unfolding integer_sqrt_def by (simp only: if_False) (rule sqrt_search_correct, auto)
qed

text \<open>
  The integer square root of a \<open>u128\<close>, found by bisection, is the floor of the real one:
  its square does not exceed the value and its successor's square does.
\<close>

theorem integer_sqrt_is_floor:
  assumes "v < 2 ^ 128"
  shows "integer_sqrt v * integer_sqrt v \<le> v \<and> v < (integer_sqrt v + 1) * (integer_sqrt v + 1)"
  using assms by (rule integer_sqrt_correct)

theorem integer_sqrt_is_floor_witness:
  "integer_sqrt 1000000 * integer_sqrt 1000000 \<le> 1000000
    \<and> 1000000 < (integer_sqrt 1000000 + 1) * (integer_sqrt 1000000 + 1)"
  by (rule integer_sqrt_is_floor) simp

section \<open>The drawdown\<close>

definition drop_micros :: "int \<Rightarrow> int \<Rightarrow> int" where
  "drop_micros p x = ((p - x) * RETURN_SCALE) div p"

lemma drop_micros_alt: "0 < p \<Longrightarrow> drop_micros p x = RETURN_SCALE + (- (x * RETURN_SCALE)) div p"
proof -
  assume p: "0 < p"
  have "(p - x) * RETURN_SCALE = RETURN_SCALE * p + (- (x * RETURN_SCALE))"
    by (simp add: algebra_simps)
  then have "drop_micros p x = (RETURN_SCALE * p + (- (x * RETURN_SCALE))) div p"
    by (simp only: drop_micros_def)
  also have "\<dots> = RETURN_SCALE + (- (x * RETURN_SCALE)) div p"
    using p by (simp only: div_mult_self3)
  finally show ?thesis .
qed

lemma drop_micros_mono:
  assumes "0 < p" and "p \<le> q" and "0 < x"
  shows "drop_micros p x \<le> drop_micros q x"
proof -
  have "(- (x * RETURN_SCALE)) div p \<le> (- (x * RETURN_SCALE)) div q"
    using assms by (intro zdiv_mono2_neg) (auto simp: RETURN_SCALE_def)
  with assms show ?thesis by (simp add: drop_micros_alt)
qed

lemma drop_micros_nonpos: "0 < p \<Longrightarrow> p \<le> x \<Longrightarrow> drop_micros p x \<le> 0"
  by (simp add: drop_micros_def RETURN_SCALE_def div_nonpos_pos_le0)

lemma drop_micros_le_scale: "0 < p \<Longrightarrow> 0 < x \<Longrightarrow> drop_micros p x \<le> 1000000"
proof -
  assume p: "0 < p" and x: "0 < x"
  have "(- (x * RETURN_SCALE)) div p \<le> 0"
    using p x by (intro div_nonpos_pos_le0) (auto simp: RETURN_SCALE_def)
  with p show ?thesis by (simp add: drop_micros_alt RETURN_SCALE_def)
qed

text \<open>\<open>d\<close> is the largest fall from an earlier value to a later one, or zero.\<close>

definition largest_drop :: "int list \<Rightarrow> int \<Rightarrow> bool" where
  "largest_drop vs d \<longleftrightarrow> 0 \<le> d
     \<and> (\<forall>j < length vs. \<forall>i < j. drop_micros (vs ! i) (vs ! j) \<le> d)
     \<and> (d = 0 \<or> (\<exists>j < length vs. \<exists>i < j. d = drop_micros (vs ! i) (vs ! j)))"

lemma largest_drop_snoc:
  assumes d: "largest_drop ps d" and pos: "\<And>v. v \<in> set ps \<Longrightarrow> 0 < v" and x: "0 < x"
    and peak: "peak \<in> set ps" "\<And>v. v \<in> set ps \<Longrightarrow> v \<le> peak"
  shows "largest_drop (ps @ [x]) (if x < peak then max d (drop_micros peak x) else d)"
proof -
  obtain k where k: "k < length ps" "ps ! k = peak" using peak(1) by (auto simp: in_set_conv_nth)
  have below: "drop_micros (ps ! i) x \<le> drop_micros peak x" if "i < length ps" for i
    using that pos peak(2) x by (intro drop_micros_mono) auto
  show ?thesis
  proof (cases "x < peak")
    case True
    have "drop_micros ((ps @ [x]) ! i) ((ps @ [x]) ! j) \<le> max d (drop_micros peak x)"
      if "j < length (ps @ [x])" "i < j" for i j
    proof (cases "j = length ps")
      case True
      with that below [of i] show ?thesis by (simp add: nth_append le_max_iff_disj)
    next
      case False
      with that d show ?thesis by (auto simp: nth_append largest_drop_def le_max_iff_disj)
    qed
    moreover have "max d (drop_micros peak x) = 0
        \<or> (\<exists>j < length (ps @ [x]). \<exists>i < j. max d (drop_micros peak x)
              = drop_micros ((ps @ [x]) ! i) ((ps @ [x]) ! j))"
    proof (cases "d < drop_micros peak x")
      case True
      then have "max d (drop_micros peak x) = drop_micros ((ps @ [x]) ! k) ((ps @ [x]) ! length ps)"
        using k by (simp add: nth_append)
      with k show ?thesis by (metis length_append_singleton lessI)
    next
      case False
      then have m: "max d (drop_micros peak x) = d" by simp
      show ?thesis
      proof (cases "d = 0")
        case False
        with d obtain i j where ij: "j < length ps" "i < j" "d = drop_micros (ps ! i) (ps ! j)"
          by (auto simp: largest_drop_def)
        then have "d = drop_micros ((ps @ [x]) ! i) ((ps @ [x]) ! j)" by (simp add: nth_append)
        with ij m show ?thesis by (metis length_append_singleton less_Suc_eq)
      qed (use m in simp)
    qed
    moreover have "0 \<le> max d (drop_micros peak x)"
      using d by (simp add: largest_drop_def le_max_iff_disj)
    ultimately show ?thesis using True unfolding largest_drop_def by simp
  next
    case False
    have "drop_micros (ps ! i) x \<le> 0" if "i < length ps" for i
      using that False pos peak(2) [of "ps ! i"] by (intro drop_micros_nonpos) auto
    then have new: "drop_micros (ps ! i) x \<le> d" if "i < length ps" for i
      using that d unfolding largest_drop_def by (metis order_trans)
    have "drop_micros ((ps @ [x]) ! i) ((ps @ [x]) ! j) \<le> d"
      if "j < length (ps @ [x])" "i < j" for i j
      using that new [of i] d by (cases "j = length ps") (auto simp: nth_append largest_drop_def)
    moreover have "d = 0 \<or> (\<exists>j < length (ps @ [x]). \<exists>i < j.
        d = drop_micros ((ps @ [x]) ! i) ((ps @ [x]) ! j))"
    proof (cases "d = 0")
      case False
      with d obtain i j where ij: "j < length ps" "i < j" "d = drop_micros (ps ! i) (ps ! j)"
        by (auto simp: largest_drop_def)
      then have "d = drop_micros ((ps @ [x]) ! i) ((ps @ [x]) ! j)" by (simp add: nth_append)
      with ij show ?thesis by (metis length_append_singleton less_Suc_eq)
    qed simp
    ultimately show ?thesis using False d unfolding largest_drop_def by simp
  qed
qed

lemma drawdown_loop_largest:
  assumes "largest_drop ps d" and "\<And>v. v \<in> set (ps @ xs) \<Longrightarrow> 0 < v"
    and "peak \<in> set ps" and "\<And>v. v \<in> set ps \<Longrightarrow> v \<le> peak"
  shows "largest_drop (ps @ xs) (drawdown_loop peak d xs)"
  using assms
proof (induction xs arbitrary: ps peak d)
  case (Cons x xs)
  have pos: "0 < x" "0 < peak" "\<And>v. v \<in> set ps \<Longrightarrow> 0 < v" using Cons.prems by auto
  define d' where "d' = (if x < peak then max d (drop_micros peak x) else d)"
  have "largest_drop (ps @ [x]) d'"
    unfolding d'_def using Cons.prems pos by (intro largest_drop_snoc) auto
  then have "largest_drop ((ps @ [x]) @ xs) (drawdown_loop (max peak x) d' xs)"
    using Cons.prems by (intro Cons.IH) (auto simp: max_def intro: order_trans)
  moreover have "drawdown_loop peak d (x # xs) = drawdown_loop (max peak x) d' xs"
    using pos by (simp add: Let_def d'_def drop_micros_def sdiv_nonneg RETURN_SCALE_def max_def)
  ultimately show ?case by simp
qed simp

text \<open>
  The maximum drawdown of an equity curve is the largest relative fall from any value to
  any later one, in millionths rounded down, and zero if there is none: the one-pass running
  peak agrees with the definition over all pairs. It never exceeds the whole, so the final
  narrowing cannot fail.
\<close>

theorem drawdown_is_largest_fall:
  assumes "performance_metrics_of eq = Some m"
  shows "largest_drop eq (pm_max_drawdown_micros m) \<and> pm_max_drawdown_micros m \<le> 1000000"
proof -
  from assms have len: "2 \<le> length eq" and pos: "\<And>v. v \<in> set eq \<Longrightarrow> 0 < v"
    and d: "pm_max_drawdown_micros m = drawdown_loop (hd eq) 0 (tl eq)"
    by (auto simp: performance_metrics_of_def list_ex_iff not_le not_less
        split: if_splits option.splits)
  obtain a xs where eq: "eq = a # xs" using len by (cases eq) auto
  have "largest_drop ([a] @ xs) (drawdown_loop a 0 xs)"
    using pos by (intro drawdown_loop_largest) (auto simp: eq largest_drop_def)
  then have l: "largest_drop eq (pm_max_drawdown_micros m)" by (simp add: d eq)
  have "pm_max_drawdown_micros m \<le> 1000000"
  proof (cases "pm_max_drawdown_micros m = 0")
    case False
    with l obtain i j where "j < length eq" "i < j"
      "pm_max_drawdown_micros m = drop_micros (eq ! i) (eq ! j)"
      by (auto simp: largest_drop_def)
    then show ?thesis using drop_micros_le_scale [of "eq ! i" "eq ! j"] pos by simp
  qed simp
  with l show ?thesis by simp
qed

lemma integer_sqrt_eq:
  assumes "v < 2 ^ 128" and "r * r \<le> v" and "v < (r + 1) * (r + 1)"
  shows "integer_sqrt v = r"
proof -
  have a: "integer_sqrt v * integer_sqrt v \<le> v" "v < (integer_sqrt v + 1) * (integer_sqrt v + 1)"
    using integer_sqrt_correct [OF assms(1)] by simp_all
  have "r * r < (integer_sqrt v + 1) * (integer_sqrt v + 1)"
    "integer_sqrt v * integer_sqrt v < (r + 1) * (r + 1)"
    using a assms by linarith+
  then have "r < integer_sqrt v + 1" "integer_sqrt v < r + 1"
    by (metis mult_le_mono not_le)+
  then show ?thesis by simp
qed

lemma sample_metrics:
  "performance_metrics_of [1000, 1200, 900, 1100] = Some \<lparr>pm_net_return_micros = 100000,
     pm_sortino_micros = 397728, pm_max_drawdown_micros = 250000\<rparr>"
proof -
  have r: "interval_returns [1000, 1200, 900, 1100] = [200000, - 250000, 222222]"
    by (simp add: interval_returns_def RETURN_SCALE_def sdiv_nonneg sdiv_neg [of 300000000, simplified])
  have q: "integer_sqrt 20833333333 = 144337" by (rule integer_sqrt_eq) simp_all
  have "sortino_of [200000, - 250000, 222222] = Some 397728"
    by (simp add: sortino_of_def q RETURN_SCALE_def sdiv_nonneg i64_try_def is_i64_def)
  then show ?thesis
    by (simp add: performance_metrics_of_def r RETURN_SCALE_def sdiv_nonneg i64_try_def is_i64_def)
qed

theorem drawdown_is_largest_fall_witness:
  "\<exists>m. performance_metrics_of [1000, 1200, 900, 1100] = Some m
    \<and> largest_drop [1000, 1200, 900, 1100] 250000"
  using drawdown_is_largest_fall [OF sample_metrics] sample_metrics by auto


section \<open>The ranking\<close>

lemma wrap_small: "\<bar>n\<bar> < 9000000000000000000 \<Longrightarrow> wrap_i64 n = n"
  by (rule wrap_i64_id) (auto simp: is_i64_def)

lemma percentile_small:
  assumes "length vs < 1000000000" and "1 < length vs"
  shows "percentile vs target
    = ((2 * int (length (filter (\<lambda>v. v < target) vs))
        + int (length (filter (\<lambda>v. v = target) vs)) - 1) * 1000000)
      sdiv (2 * (int (length vs) - 1))"
proof -
  have l: "int (length (filter P vs)) < 1000000000" for P
    using le_less_trans [OF length_filter_le assms(1)] by simp
  have n: "int (length vs) < 1000000000" using assms(1) by simp
  note b = l [of "\<lambda>v. v < target"] l [of "\<lambda>v. v = target"]
  show ?thesis using b n assms(2)
    by (simp add: percentile_def count_i64_def i64_max_def wrap_small PERCENTILE_SCALE_def
        mult.commute)
qed

lemma filter_disjoint_length:
  "(\<And>v. v \<in> set vs \<Longrightarrow> \<not> (P v \<and> Q v)) \<Longrightarrow>
    length (filter P vs) + length (filter Q vs) \<le> length vs"
  by (induction vs) fastforce+

text \<open>
  The percentile of a value among the eligible returns lies between 0 and one million:
  the smallest of distinct vs gets 0, the largest a million.
\<close>

theorem percentile_range:
  assumes "target \<in> set vs" and "length vs < 1000000000"
  shows "0 \<le> percentile vs target \<and> percentile vs target \<le> 1000000
    \<and> (distinct vs \<and> 1 < length vs \<and> (\<forall>v \<in> set vs. target \<le> v)
         \<longrightarrow> percentile vs target = 0)
    \<and> (distinct vs \<and> (\<forall>v \<in> set vs. v \<le> target)
         \<longrightarrow> percentile vs target = 1000000)"
proof (cases "1 < length vs")
  case False
  then show ?thesis by (simp add: percentile_def PERCENTILE_SCALE_def)
next
  case True
  define lo where "lo = length (filter (\<lambda>v. v < target) vs)"
  define eq where "eq = length (filter (\<lambda>v. v = target) vs)"
  define d where "d = 2 * (int (length vs) - 1)"
  define t where "t = 2 * int lo + int eq - 1"
  have "filter (\<lambda>v. v = target) vs \<noteq> []"
    using assms(1) by (auto simp: filter_empty_conv)
  then have eq1: "1 \<le> eq" by (cases "filter (\<lambda>v. v = target) vs") (auto simp: eq_def)
  have sum: "lo + eq \<le> length vs"
    unfolding lo_def eq_def by (rule filter_disjoint_length) auto
  have t: "0 \<le> t" "t \<le> d" "0 < d" using eq1 sum True by (auto simp: t_def d_def)
  have p: "percentile vs target = t * 1000000 div d"
    using percentile_small [OF assms(2) True, of target] t
    by (simp add: t_def d_def lo_def eq_def sdiv_nonneg)
  have eqd: "distinct vs \<Longrightarrow> eq = 1"
  proof -
    assume "distinct vs"
    then have "filter (\<lambda>v. v = target) vs = [target]"
      using assms(1) by (induction vs) (auto simp: filter_empty_conv)
    then show "eq = 1" by (simp add: eq_def)
  qed
  have "t * 1000000 div d \<le> d * 1000000 div d" using t by (intro zdiv_mono1) auto
  then have "percentile vs target \<le> 1000000" using p t by simp
  moreover have "0 \<le> percentile vs target" using p t by (simp add: pos_imp_zdiv_nonneg_iff)
  moreover have "percentile vs target = 0"
    if "distinct vs" "\<forall>v \<in> set vs. target \<le> v"
  proof -
    have "lo = 0" using that(2) by (auto simp: lo_def filter_empty_conv)
    with eqd [OF that(1)] p show ?thesis by (simp add: t_def)
  qed
  moreover have "percentile vs target = 1000000"
    if "distinct vs" "\<forall>v \<in> set vs. v \<le> target"
  proof -
    have "length (filter (\<lambda>v. v < target) vs) + length (filter (\<lambda>v. v = target) vs)
        = length vs"
      using that(2) by (induction vs) auto
    then have "lo + eq = length vs" by (simp add: lo_def eq_def)
    with eqd [OF that(1)] have "t = d" by (simp add: t_def d_def)
    with p t show ?thesis by simp
  qed
  ultimately show ?thesis by blast
qed

theorem percentile_range_witness: "0 \<le> percentile [3, 5, 4] 5 \<and> percentile [3, 5, 4] 5 = 1000000"
  using percentile_range [of 5 "[3, 5, 4]"] by simp

lemma map_assign_ranks: "map sr_run_id (assign_ranks k ss) = map sr_run_id ss"
  by (induction k ss rule: assign_ranks.induct) auto

definition unranked :: "scored_run \<Rightarrow> scored_run" where
  "unranked s = s\<lparr>sr_rank := None\<rparr>"

lemma assign_ranks_unranked:
  "map unranked (assign_ranks k ss) = map unranked ss"
  by (induction k ss rule: assign_ranks.induct) (auto simp: unranked_def)

text \<open>On a list with the eligible runs first, the ranks count from the start.\<close>

lemma assign_ranks_nth:
  assumes "i < length ss" and "sr_disqualified_reason (ss ! i) = None"
    and "\<forall>j < i. sr_disqualified_reason (ss ! j) = None"
    and "unat k + i < 2 ^ 32"
  shows "\<exists>r. sr_rank (assign_ranks k ss ! i) = Some r \<and> unat r = unat k + i"
  using assms
proof (induction k ss arbitrary: i rule: assign_ranks.induct)
  case (2 k s ss)
  have head: "sr_disqualified_reason s = None"
    using 2(4,5) by (cases i) auto
  show ?case
  proof (cases i)
    case 0
    with head show ?thesis by simp
  next
    case (Suc j)
    have k: "unat (sat_add k 1) = unat k + 1"
      using 2(6) Suc by (simp add: unat_sat_add)
    have "\<exists>r. sr_rank (assign_ranks (sat_add k 1) ss ! j) = Some r
        \<and> unat r = unat (sat_add k 1) + j"
      by (rule "2.IH"(1) [OF head]) (use 2 Suc k in auto)
    with head Suc k show ?thesis by simp
  qed
qed simp

lemma score_run_fields [simp]:
  "sr_run_id (score_run el r) = ri_run_id r"
  "sr_disqualified_reason (score_run el r) = ri_disqualified_reason r"
  by (simp_all add: score_run_def Let_def split: option.splits)

lemma assign_ranks_fields:
  "i < length ss \<Longrightarrow> sr_run_id (assign_ranks k ss ! i) = sr_run_id (ss ! i)
    \<and> sr_disqualified_reason (assign_ranks k ss ! i) = sr_disqualified_reason (ss ! i)"
  by (induction k ss arbitrary: i rule: assign_ranks.induct) (auto simp: nth_Cons split: nat.splits)

lemma length_assign_ranks [simp]: "length (assign_ranks k ss) = length ss"
  by (induction k ss rule: assign_ranks.induct) auto

lemma rank_key_eligible_le:
  "k \<le> EligibleKey n t \<longleftrightarrow> (\<exists>m u. k = EligibleKey m u \<and> (n < m \<or> n = m \<and> u \<le> t))"
  by (cases k) auto

text \<open>The sorted table: eligible runs form a prefix, and a better return is further forward.\<close>

definition ranked_table :: "prims \<Rightarrow> run_score_input list \<Rightarrow> scored_run list" where
  "ranked_table P runs =
     sort_key (rank_key_of P (bt_of_list (map (\<lambda>r. (ri_run_id r, r)) runs)))
       (map (score_run (filter (\<lambda>r. ri_disqualified_reason r = None) runs)) runs)"

lemma score_runs_table: "score_runs P runs = assign_ranks 1 (ranked_table P runs)"
  by (simp add: score_runs_def ranked_table_def Let_def)

lemma length_ranked_table [simp]: "length (ranked_table P runs) = length runs"
  by (simp add: ranked_table_def)

lemma ranked_table_le:
  "i \<le> j \<Longrightarrow> j < length runs \<Longrightarrow>
    rank_key_of P (bt_of_list (map (\<lambda>r. (ri_run_id r, r)) runs)) (ranked_table P runs ! i)
      \<le> rank_key_of P (bt_of_list (map (\<lambda>r. (ri_run_id r, r)) runs)) (ranked_table P runs ! j)"
proof -
  assume "i \<le> j" "j < length runs"
  moreover have "sorted (map (rank_key_of P (bt_of_list (map (\<lambda>r. (ri_run_id r, r)) runs)))
      (ranked_table P runs))"
    by (simp add: ranked_table_def)
  ultimately show ?thesis by (simp add: sorted_iff_nth_mono)
qed

lemma ranked_table_prefix:
  assumes "i \<le> j" and "j < length runs" and "sr_disqualified_reason (ranked_table P runs ! j) = None"
  shows "sr_disqualified_reason (ranked_table P runs ! i) = None"
proof -
  let ?key = "rank_key_of P (bt_of_list (map (\<lambda>r. (ri_run_id r, r)) runs))"
  obtain n t where "?key (ranked_table P runs ! j) = EligibleKey n t"
    using assms(3) by (simp add: rank_key_of_def)
  with ranked_table_le [OF assms(1,2), of P]
  obtain m u where "?key (ranked_table P runs ! i) = EligibleKey m u"
    by (auto simp: rank_key_eligible_le)
  then show ?thesis by (auto simp: rank_key_of_def split: if_splits)
qed

lemma ranked_table_rank:
  assumes "i < length runs" and "sr_disqualified_reason (ranked_table P runs ! i) = None"
    and "length runs < 2 ^ 32"
  shows "\<exists>r. sr_rank (score_runs P runs ! i) = Some r \<and> unat r = 1 + i"
proof -
  have "\<exists>r. sr_rank (assign_ranks 1 (ranked_table P runs) ! i) = Some r
      \<and> unat r = unat (1 :: u32) + i"
    by (rule assign_ranks_nth)
      (use assms ranked_table_prefix [OF less_imp_le_nat assms(1,2)] in auto)
  then show ?thesis by (simp add: score_runs_table)
qed

lemma inputs_lookup:
  assumes "distinct (map ri_run_id runs)" and "a \<in> set runs"
  shows "map_of (bt_of_list (map (\<lambda>r. (ri_run_id r, r)) runs)) (ri_run_id a) = Some a"
proof -
  have "map_of (rev (map (\<lambda>r. (ri_run_id r, r)) runs)) (ri_run_id a) = Some a"
    using assms by (intro map_of_is_SomeI) (auto simp: rev_map [symmetric] o_def)
  then show ?thesis by (simp add: map_of_bt_of_list)
qed

text \<open>The ranks of a table with the eligible runs first.\<close>

lemma ranks_of_table:
  assumes "i < length runs" and "length runs < 2 ^ 32"
  shows "sr_rank (score_runs P runs ! i) =
    (if sr_disqualified_reason (ranked_table P runs ! i) = None then Some (of_nat (Suc i)) else None)"
proof (cases "sr_disqualified_reason (ranked_table P runs ! i) = None")
  case True
  then obtain r where "sr_rank (score_runs P runs ! i) = Some r" "unat r = 1 + i"
    using ranked_table_rank [OF assms(1) True assms(2)] by blast
  moreover have "r = of_nat (Suc i)" using \<open>unat r = 1 + i\<close> assms by (simp add: word_unat_eq_iff unat_of_nat del: of_nat_Suc)
  ultimately show ?thesis using True by simp
next
  case False
  have unr: "s \<in> set (ranked_table P runs) \<Longrightarrow> sr_rank s = None" for s
    by (auto simp: ranked_table_def score_run_def Let_def split: option.splits)
  have "i < length ss \<Longrightarrow> sr_disqualified_reason (ss ! i) \<noteq> None \<Longrightarrow> sr_rank (assign_ranks k ss ! i) = sr_rank (ss ! i)" for k ss i
    by (induction k ss arbitrary: i rule: assign_ranks.induct) (auto simp: nth_Cons split: nat.splits)
  from this [of i "ranked_table P runs" 1] show ?thesis
    using False assms(1) unr [of "ranked_table P runs ! i"] by (simp add: score_runs_table)
qed

lemma counted_from_one:
  assumes "length xs = e + d" and "\<And>i. i < e + d \<Longrightarrow> xs ! i = (if i < e then Some (of_nat (Suc i)) else None)"
  shows "xs = map (\<lambda>i. Some (of_nat (Suc i))) [0..<e] @ replicate d None"
  by (rule nth_equalityI) (use assms in \<open>auto simp: nth_append simp del: of_nat_Suc\<close>)

lemma prefix_filter:
  assumes "\<And>i j. i \<le> j \<Longrightarrow> j < length xs \<Longrightarrow> Q (xs ! j) \<Longrightarrow> Q (xs ! i)" and "i < length xs"
  shows "Q (xs ! i) \<longleftrightarrow> i < length (filter Q xs)"
  using assms
proof (induction xs arbitrary: i)
  case (Cons x xs)
  show ?case
  proof (cases "Q x")
    case True
    have "Q (xs ! j) \<Longrightarrow> i \<le> j \<Longrightarrow> j < length xs \<Longrightarrow> Q (xs ! i)" for i j
      using Cons.prems(1) [of "Suc i" "Suc j"] by simp
    then show ?thesis using Cons.IH Cons.prems(2) True by (cases i) auto
  next
    case False
    then have "\<not> Q (xs ! j)" if "j < length xs" for j using Cons.prems(1) [of 0 "Suc j"] that by auto
    then have "filter Q xs = []" by (auto simp: filter_empty_conv in_set_conv_nth)
    then show ?thesis using Cons.prems False \<open>\<And>j. j < length xs \<Longrightarrow> \<not> Q (xs ! j)\<close> by (cases i) auto
  qed
qed simp

text \<open>The table's row of a submitted run, and what it says.\<close>

lemma table_row:
  assumes "a \<in> set runs"
  obtains i where "i < length runs" and "ranked_table P runs ! i = score_run (filter (\<lambda>r. ri_disqualified_reason r = None) runs) a"
    and "sr_run_id (score_runs P runs ! i) = ri_run_id a"
    and "sr_disqualified_reason (score_runs P runs ! i) = ri_disqualified_reason a"
proof -
  let ?el = "filter (\<lambda>r. ri_disqualified_reason r = None) runs"
  have "score_run ?el a \<in> set (ranked_table P runs)" using assms by (simp add: ranked_table_def)
  then obtain i where i: "i < length runs" "ranked_table P runs ! i = score_run ?el a"
    by (metis in_set_conv_nth length_ranked_table)
  with assign_ranks_fields [of i "ranked_table P runs" 1] show ?thesis
    by (intro that [of i]) (simp_all add: score_runs_table)
qed

definition ranks_before :: "prims \<Rightarrow> run_score_input \<Rightarrow> run_score_input \<Rightarrow> bool" where
  "ranks_before P a b \<longleftrightarrow> ri_net_return_micros b < ri_net_return_micros a
     \<or> ri_net_return_micros a = ri_net_return_micros b \<and> uuid_str P (ri_run_id a) < uuid_str P (ri_run_id b)"

text \<open>
  C27. The score table ranks by net return alone. It lists every submitted run once, the eligible ones first with
  the ranks 1, 2, 3 and so on, then the disqualified ones without a rank; the row of a run carries the
  run's own reason of disqualification and has a rank exactly when there is none; and of two eligible runs
  the one with the higher net return, or with the same return and the smaller text of its id, has the
  smaller rank. The scoring weights and penalties of the manifest play no part.
\<close>

theorem ranking_by_net_return:
  assumes ids: "distinct (map ri_run_id runs)" and few: "length runs < 2 ^ 32"
  shows "mset (map sr_run_id (score_runs P runs)) = mset (map ri_run_id runs)
    \<and> map sr_rank (score_runs P runs)
        = map (\<lambda>i. Some (of_nat (Suc i))) [0..<length (filter (\<lambda>r. ri_disqualified_reason r = None) runs)]
          @ replicate (length (filter (\<lambda>r. ri_disqualified_reason r \<noteq> None) runs)) None
    \<and> (\<forall>a \<in> set runs. \<forall>x \<in> set (score_runs P runs). sr_run_id x = ri_run_id a \<longrightarrow>
         sr_disqualified_reason x = ri_disqualified_reason a \<and> (sr_rank x = None \<longleftrightarrow> ri_disqualified_reason a \<noteq> None)
         \<and> (\<forall>b \<in> set runs. \<forall>y \<in> set (score_runs P runs). sr_run_id y = ri_run_id b \<longrightarrow>
              ri_disqualified_reason a = None \<longrightarrow> ri_disqualified_reason b = None \<longrightarrow> ranks_before P a b \<longrightarrow>
              (\<exists>m n. sr_rank x = Some m \<and> sr_rank y = Some n \<and> m < n)))"
proof -
  let ?el = "filter (\<lambda>r. ri_disqualified_reason r = None) runs"
  let ?in = "bt_of_list (map (\<lambda>r. (ri_run_id r, r)) runs)"
  let ?T = "ranked_table P runs" and ?S = "score_runs P runs"
  have "mset (map sr_run_id ?T) = image_mset sr_run_id (mset (map (score_run ?el) runs))"
    by (simp add: ranked_table_def)
  also have "\<dots> = mset (map ri_run_id runs)" by (simp add: multiset.map_comp o_def)
  finally have m: "mset (map sr_run_id ?S) = mset (map ri_run_id runs)"
    by (simp only: score_runs_table map_assign_ranks)
  have len: "length ?S = length runs" by (simp add: score_runs_table)
  have dist: "distinct (map sr_run_id ?S)" using mset_eq_imp_distinct_iff [OF m] ids by simp
  have row: "\<exists>i < length runs. x = ?S ! i \<and> ?T ! i = score_run ?el a \<and> sr_disqualified_reason x = ri_disqualified_reason a
      \<and> sr_rank x = (if ri_disqualified_reason a = None then Some (of_nat (Suc i)) else None)"
    if a: "a \<in> set runs" and x: "x \<in> set ?S" "sr_run_id x = ri_run_id a" for a x
  proof -
    obtain i where i: "i < length runs" "?T ! i = score_run ?el a" "sr_run_id (?S ! i) = ri_run_id a"
      "sr_disqualified_reason (?S ! i) = ri_disqualified_reason a" by (rule table_row [OF a])
    obtain k where k: "k < length runs" "x = ?S ! k" using x(1) len by (metis in_set_conv_nth)
    have "map sr_run_id ?S ! k = map sr_run_id ?S ! i" using i(1,3) k x(2) len by simp
    then have "k = i" using dist i(1) k(1) len by (simp add: nth_eq_iff_index_eq del: nth_map)
    then show ?thesis using i k ranks_of_table [OF i(1) few, of P] by (intro exI [of _ i]) simp
  qed
  let ?ok = "\<lambda>s. sr_disqualified_reason s = None" and ?e = "length ?el"
  have "mset (filter ?ok ?T) = filter_mset ?ok (mset (map (score_run ?el) runs))"
    by (simp add: ranked_table_def)
  then have "size (mset (filter ?ok ?T)) = size (mset (filter ?ok (map (score_run ?el) runs)))"
    by (simp only: mset_filter)
  then have "length (filter ?ok ?T) = length (filter ?ok (map (score_run ?el) runs))" by (simp only: size_mset)
  then have e: "length (filter ?ok ?T) = ?e" by (simp add: filter_map o_def)
  have first: "?ok (?T ! i) \<longleftrightarrow> i < ?e" if "i < length runs" for i
    using prefix_filter [of ?T ?ok i] ranked_table_prefix [of _ _ runs P] that e by simp
  have split: "length runs = ?e + length (filter (\<lambda>r. ri_disqualified_reason r \<noteq> None) runs)"
    using sum_length_filter_compl [of "\<lambda>r. ri_disqualified_reason r = None" runs] by simp
  have ranks: "map sr_rank ?S = map (\<lambda>i. Some (of_nat (Suc i))) [0..<?e]
      @ replicate (length (filter (\<lambda>r. ri_disqualified_reason r \<noteq> None) runs)) None"
    by (rule counted_from_one) (use split len first ranks_of_table [OF _ few, of _ P] in simp_all)
  have less: "\<exists>m n. sr_rank x = Some m \<and> sr_rank y = Some n \<and> m < n"
    if ab: "a \<in> set runs" "x \<in> set ?S" "sr_run_id x = ri_run_id a" "b \<in> set runs" "y \<in> set ?S" "sr_run_id y = ri_run_id b"
      and d: "ri_disqualified_reason a = None" "ri_disqualified_reason b = None" "ranks_before P a b" for a b x y
  proof -
    obtain i j where i: "i < length runs" "?T ! i = score_run ?el a" "sr_rank x = Some (of_nat (Suc i))"
      and j: "j < length runs" "?T ! j = score_run ?el b" "sr_rank y = Some (of_nat (Suc j))"
      using row [OF ab(1-3)] row [OF ab(4-6)] d by auto
    have "i < j"
    proof (rule ccontr)
      assume "\<not> i < j"
      then have "rank_key_of P ?in (?T ! j) \<le> rank_key_of P ?in (?T ! i)" using i by (intro ranked_table_le) simp_all
      with d inputs_lookup [OF ids ab(1)] inputs_lookup [OF ids ab(4)] show False
        by (auto simp: i j rank_key_of_def ranks_before_def)
    qed
    then have "(of_nat (Suc i) :: u32) < of_nat (Suc j)" using j(1) few by (simp add: word_less_nat_alt unat_of_nat del: of_nat_Suc)
    then show ?thesis using i j by blast
  qed
  have fields: "sr_disqualified_reason x = ri_disqualified_reason a \<and> (sr_rank x = None \<longleftrightarrow> ri_disqualified_reason a \<noteq> None)"
    if "a \<in> set runs" "x \<in> set ?S" "sr_run_id x = ri_run_id a" for a x
    using row [OF that] by (auto split: if_splits)
  show ?thesis using m ranks fields less by blast
qed

definition sample_run :: "uuid \<Rightarrow> int \<Rightarrow> run_score_input" where
  "sample_run u n = \<lparr>ri_run_id = u, ri_net_return_micros = n, ri_sortino_micros = 0,
     ri_max_drawdown_micros = 0, ri_policy_rejections = 0, ri_missed_cycles = 0,
     ri_disqualified_reason = None\<rparr>"

definition sample_runs :: "run_score_input list" where
  "sample_runs = [(sample_run 3 30)\<lparr>ri_disqualified_reason := Some ''late''\<rparr>, sample_run 1 10, sample_run 2 20]"

theorem ranking_by_net_return_witness:
  "map sr_rank (score_runs toy_prims sample_runs) = [Some 1, Some 2, None]
    \<and> \<not> (\<exists>x \<in> set (score_runs toy_prims sample_runs). sr_run_id x = 3 \<and> sr_rank x \<noteq> None)"
proof -
  have d: "distinct (map ri_run_id sample_runs)" and l: "length sample_runs < 2 ^ 32"
    by (simp_all add: sample_runs_def sample_run_def)
  have e: "length (filter (\<lambda>r. ri_disqualified_reason r = None) sample_runs) = 2"
    "length (filter (\<lambda>r. ri_disqualified_reason r \<noteq> None) sample_runs) = 1"
    "(sample_run 3 30)\<lparr>ri_disqualified_reason := Some ''late''\<rparr> \<in> set sample_runs"
    by (simp_all add: sample_runs_def sample_run_def)
  note r = ranking_by_net_return [OF d l, of toy_prims]
  have none: "sr_rank x = None" if "x \<in> set (score_runs toy_prims sample_runs)" "sr_run_id x = 3" for x
    using r e(3) that by (fastforce simp: sample_run_def)
  show ?thesis
  proof (intro conjI notI)
    from r e(1,2) show "map sr_rank (score_runs toy_prims sample_runs) = [Some 1, Some 2, None]"
      by (simp add: upt_rec)
  next
    assume "\<exists>x \<in> set (score_runs toy_prims sample_runs). sr_run_id x = 3 \<and> sr_rank x \<noteq> None"
    then obtain x where "x \<in> set (score_runs toy_prims sample_runs)" "sr_run_id x = 3" "sr_rank x \<noteq> None" by blast
    then show False using none by simp
  qed
qed

end
