(* ===== verification/Crypto.thy ===== *)
theory Crypto
  imports Protocol
begin

text \<open>
  Sealing of bundles and secrets, \<open>crates/crow-agent-core/src/crypto.rs\<close>: authenticated
  encryption under a 32-byte key and wrapping of such a key to a device's X25519 key. The
  packages (\<open>chacha20poly1305\<close>, \<open>x25519-dalek\<close>, \<open>hkdf\<close>, \<open>base64\<close> in its URL alphabet) are
  the fields of \<open>aead_prims\<close>. Keys, nonces and ephemeral secrets the code draws from the
  operating system are arguments.
\<close>

record aead_prims =
  url64_encode :: "string \<Rightarrow> string"
  url64_decode :: "string \<Rightarrow> string option"
  xc_encrypt :: "string \<Rightarrow> string \<Rightarrow> string \<Rightarrow> string \<Rightarrow> string option"
  xc_decrypt :: "string \<Rightarrow> string \<Rightarrow> string \<Rightarrow> string \<Rightarrow> string option"
  x_public :: "string \<Rightarrow> string"
  x_dh :: "string \<Rightarrow> string \<Rightarrow> string"
  hkdf_sha256 :: "string \<Rightarrow> string \<Rightarrow> string \<Rightarrow> string option"

text \<open>
  What the packages document: the base64 round trip; decryption accepts exactly the
  ciphertexts encryption makes of the plaintext under the same key, nonce and associated
  data; an X25519 key has 32 bytes and both sides derive the same shared secret; HKDF
  expands to 32 bytes.
\<close>

definition aead_law :: "aead_prims \<Rightarrow> bool" where
  "aead_law A \<longleftrightarrow> (\<forall>b. url64_decode A (url64_encode A b) = Some b)
     \<and> (\<forall>k n ad m c. xc_decrypt A k n ad c = Some m \<longleftrightarrow> xc_encrypt A k n ad m = Some c)"

definition dh_law :: "aead_prims \<Rightarrow> bool" where
  "dh_law A \<longleftrightarrow> (\<forall>s. length (x_public A s) = 32)
     \<and> (\<forall>s t. x_dh A s (x_public A t) = x_dh A t (x_public A s))"

definition WRAP_INFO :: string where "WRAP_INFO = ''crow-agent-bundle-key-wrap-v1''"

datatype crypto_error = Encoding | Operation

record bundle_ciphertext =
  bc_nonce :: string
  bc_ciphertext :: string

record wrapped_bundle_key =
  wk_ephemeral_public_key :: string
  wk_nonce :: string
  wk_wrapped_key :: string

definition decode_32 :: "aead_prims \<Rightarrow> string \<Rightarrow> crypto_error + string" where
  "decode_32 A value = rbind (ok_or (url64_decode A value) Encoding) (\<lambda>b.
     if length b = 32 then Inr b else Inl Encoding)"

definition decode_24 :: "aead_prims \<Rightarrow> string \<Rightarrow> crypto_error + string" where
  "decode_24 A value = rbind (ok_or (url64_decode A value) Encoding) (\<lambda>b.
     if length b = 24 then Inr b else Inl Encoding)"

definition derive_wrapping_key :: "aead_prims \<Rightarrow> string \<Rightarrow> string \<Rightarrow> crypto_error + string" where
  "derive_wrapping_key A shared ad = ok_or (hkdf_sha256 A ad shared WRAP_INFO) Operation"

definition encrypt_bundle ::
    "aead_prims \<Rightarrow> string \<Rightarrow> string \<Rightarrow> string \<Rightarrow> string \<Rightarrow> crypto_error + bundle_ciphertext" where
  "encrypt_bundle A key nonce plaintext ad =
     rbind (ok_or (xc_encrypt A key nonce ad plaintext) Operation) (\<lambda>c.
       Inr \<lparr>bc_nonce = url64_encode A nonce, bc_ciphertext = url64_encode A c\<rparr>)"

definition decrypt_bundle ::
    "aead_prims \<Rightarrow> string \<Rightarrow> bundle_ciphertext \<Rightarrow> string \<Rightarrow> crypto_error + string" where
  "decrypt_bundle A key encrypted ad =
     rbind (decode_24 A (bc_nonce encrypted)) (\<lambda>nonce.
     rbind (ok_or (url64_decode A (bc_ciphertext encrypted)) Encoding) (\<lambda>c.
       ok_or (xc_decrypt A key nonce ad c) Operation))"

definition wrap_bundle_key ::
    "aead_prims \<Rightarrow> string \<Rightarrow> string \<Rightarrow> string \<Rightarrow> string \<Rightarrow> string
      \<Rightarrow> crypto_error + wrapped_bundle_key" where
  "wrap_bundle_key A ephemeral_secret nonce bundle_key recipient_public_key ad =
     rbind (derive_wrapping_key A (x_dh A ephemeral_secret recipient_public_key) ad) (\<lambda>wrapping_key.
     rbind (ok_or (xc_encrypt A wrapping_key nonce ad bundle_key) Operation) (\<lambda>w.
       Inr \<lparr>wk_ephemeral_public_key = url64_encode A (x_public A ephemeral_secret),
            wk_nonce = url64_encode A nonce, wk_wrapped_key = url64_encode A w\<rparr>))"

text \<open>The device key is its secret; its public key is \<open>x_public\<close> of it.\<close>

definition unwrap_bundle_key ::
    "aead_prims \<Rightarrow> string \<Rightarrow> wrapped_bundle_key \<Rightarrow> string \<Rightarrow> crypto_error + string" where
  "unwrap_bundle_key A secret wrapped ad =
     rbind (decode_32 A (wk_ephemeral_public_key wrapped)) (\<lambda>ephemeral.
     rbind (derive_wrapping_key A (x_dh A secret ephemeral) ad) (\<lambda>wrapping_key.
     rbind (decode_24 A (wk_nonce wrapped)) (\<lambda>nonce.
     rbind (ok_or (url64_decode A (wk_wrapped_key wrapped)) Encoding) (\<lambda>c.
     rbind (ok_or (xc_decrypt A wrapping_key nonce ad c) Operation) (\<lambda>plaintext.
       if length plaintext = 32 then Inr plaintext else Inl Operation)))))"

section \<open>Round trips\<close>

lemma decrypt_encrypt:
  assumes "aead_law A" and "length nonce = 24" and "encrypt_bundle A key nonce m ad = Inr c"
  shows "decrypt_bundle A key c ad = Inr m"
  using assms by (auto simp: encrypt_bundle_def decrypt_bundle_def decode_24_def aead_law_def)

text \<open>A ciphertext opens under at most the one plaintext it was made of.\<close>

lemma decrypt_only_encrypted:
  assumes "aead_law A" and "decrypt_bundle A key c ad = Inr m"
  obtains nonce raw where "url64_decode A (bc_nonce c) = Some nonce" and "length nonce = 24"
    and "url64_decode A (bc_ciphertext c) = Some raw" and "xc_encrypt A key nonce ad m = Some raw"
  using assms by (auto simp: decrypt_bundle_def decode_24_def aead_law_def split: if_splits)

lemma unwrap_wrap:
  assumes "aead_law A" and "dh_law A" and "length nonce = 24" and "length bundle_key = 32"
    and "wrap_bundle_key A eph nonce bundle_key (x_public A secret) ad = Inr w"
  shows "unwrap_bundle_key A secret w ad = Inr bundle_key"
proof -
  from assms(5) obtain k c where k: "derive_wrapping_key A (x_dh A eph (x_public A secret)) ad = Inr k"
    and c: "xc_encrypt A k nonce ad bundle_key = Some c"
    and w: "w = \<lparr>wk_ephemeral_public_key = url64_encode A (x_public A eph),
            wk_nonce = url64_encode A nonce, wk_wrapped_key = url64_encode A c\<rparr>"
    by (auto simp: wrap_bundle_key_def)
  have "derive_wrapping_key A (x_dh A secret (x_public A eph)) ad = Inr k"
    using k assms(2) by (simp add: dh_law_def)
  moreover have "xc_decrypt A k nonce ad c = Some bundle_key"
    using assms(1) c by (simp add: aead_law_def)
  moreover have "\<And>b. url64_decode A (url64_encode A b) = Some b" "length (x_public A eph) = 32"
    using assms(1,2) by (simp_all add: aead_law_def dh_law_def)
  ultimately show ?thesis
    using assms(3,4) by (simp add: unwrap_bundle_key_def w decode_32_def decode_24_def)
qed

text \<open>A concrete choice of the parameters: encryption prefixes the associated data.\<close>

definition toy_aead :: aead_prims where
  "toy_aead = \<lparr>url64_encode = (\<lambda>b. b), url64_decode = Some,
     xc_encrypt = (\<lambda>k n ad m. Some (ad @ m)),
     xc_decrypt = (\<lambda>k n ad c. if take (length ad) c = ad then Some (drop (length ad) c) else None),
     x_public = (\<lambda>s. replicate 32 (CHR ''p'')), x_dh = (\<lambda>s p. ''shared''),
     hkdf_sha256 = (\<lambda>salt ikm info. Some (replicate 32 (CHR ''w'')))\<rparr>"

lemma toy_aead_law: "aead_law toy_aead"
proof -
  have "(if take (length ad) c = ad then Some (drop (length ad) c) else None) = Some m
      \<longleftrightarrow> ad @ m = (c :: string)" for ad c m
    by (metis append_eq_conv_conj option.inject option.simps(3))
  then show ?thesis by (simp add: aead_law_def toy_aead_def)
qed

lemma toy_dh_law: "dh_law toy_aead"
  by (simp add: dh_law_def toy_aead_def)

text \<open>
  What a device seals under a key, a fresh nonce and associated data opens to the same
  bytes under the same key and data; and nothing else opens: whatever opens is the
  encryption of the bytes it opens to under exactly that key and that data.
\<close>

theorem sealed_bytes_open:
  assumes "aead_law A" and "length nonce = 24" and "encrypt_bundle A key nonce m ad = Inr c"
  shows "decrypt_bundle A key c ad = Inr m
    \<and> (\<forall>c' m'. decrypt_bundle A key c' ad = Inr m' \<longrightarrow>
         (\<exists>n. length n = 24 \<and> xc_encrypt A key n ad m' = url64_decode A (bc_ciphertext c')))"
  using decrypt_encrypt [OF assms] decrypt_only_encrypted [OF assms(1)] by metis

theorem sealed_bytes_open_witness:
  "decrypt_bundle toy_aead ''key'' \<lparr>bc_nonce = replicate 24 (CHR ''n''), bc_ciphertext = ''adm''\<rparr> ''ad''
    = Inr ''m''"
proof -
  have "encrypt_bundle toy_aead ''key'' (replicate 24 (CHR ''n'')) ''m'' ''ad''
      = Inr \<lparr>bc_nonce = replicate 24 (CHR ''n''), bc_ciphertext = ''adm''\<rparr>"
    by (simp add: encrypt_bundle_def toy_aead_def)
  from sealed_bytes_open [OF toy_aead_law _ this] show ?thesis by simp
qed

end
