(* ===== verification/AgentVersion.thy ===== *)
theory AgentVersion
  imports Envelopes Crypto
begin

text \<open>
  Sealed strategies, \<open>crates/crow-agent-core/src/agent_version.rs\<close>: a strategy bundle is
  validated, encrypted under a fresh bundle key, and that key is wrapped to each recipient
  device. The bundle's JSON form and its parser are parameters \<open>enc\<close> and \<open>dec\<close>; the fresh
  bundle key, the nonces and the ephemeral secrets are arguments.
\<close>

definition REQUIRED_STRATEGY_TOOLS :: "string list" where
  "REQUIRED_STRATEGY_TOOLS = [''market_snapshot'', ''portfolio_snapshot'', ''recent_candles'']"

record strategy_bundle =
  sb_protocol :: string
  sb_version_id :: uuid
  sb_model_id :: string
  sb_name :: utext
  sb_system_instructions :: utext
  sb_tools :: "string list"
  sb_created_at :: int

record version_recipient =
  vr_device_id :: uuid
  vr_public_key :: string

record device_key_wrap =
  kw_device_id :: uuid
  kw_ephemeral_public_key :: string
  kw_nonce :: string
  kw_wrapped_key :: string

record version_envelope =
  ve_protocol :: string
  ve_version_id :: uuid
  ve_agent_id :: uuid
  ve_version :: u32
  ve_model_id :: string
  ve_configuration_sha256 :: string
  ve_ciphertext :: string
  ve_nonce :: string
  ve_key_wraps :: "device_key_wrap list"
  ve_created_at :: int

datatype agent_version_error = AvInvalid | AvCrypto crypto_error | AvSerialization | AvDeviceWrap

definition validate_bundle :: "strategy_bundle \<Rightarrow> agent_version_error + unit" where
  "validate_bundle b =
     (if sb_protocol b \<noteq> HARNESS_PROTOCOL_V1 \<or> sb_version_id b = 0 \<or> blank (sb_model_id b)
         \<or> trim (sb_name b) = [] \<or> 80 < length (sb_name b)
         \<or> trim (sb_system_instructions b) = [] \<or> 8192 < length (sb_system_instructions b)
         \<or> sb_tools b \<noteq> REQUIRED_STRATEGY_TOOLS
      then Inl AvInvalid else Inr ())"

definition agent_version_aad :: "prims \<Rightarrow> uuid \<Rightarrow> string" where
  "agent_version_aad P version_id = ''crow-agent-version-v1:'' @ uuid_str P version_id"

definition recipients_ok :: "version_recipient list \<Rightarrow> bool" where
  "recipients_ok recipients =
     (let ids = remdups_adj (sort (map vr_device_id recipients)) in
      length ids = length recipients \<and> \<not> list_ex (\<lambda>i. i = 0) ids)"

definition wrap_for ::
    "aead_prims \<Rightarrow> string \<Rightarrow> string \<Rightarrow> (string \<times> string) \<times> version_recipient
      \<Rightarrow> crypto_error + device_key_wrap" where
  "wrap_for A bundle_key ad x = (case x of ((eph, nonce), r) \<Rightarrow>
     rbind (wrap_bundle_key A eph nonce bundle_key (vr_public_key r) ad) (\<lambda>w.
       Inr \<lparr>kw_device_id = vr_device_id r, kw_ephemeral_public_key = wk_ephemeral_public_key w,
            kw_nonce = wk_nonce w, kw_wrapped_key = wk_wrapped_key w\<rparr>))"

text \<open>\<open>rnd i\<close> is the ephemeral secret and nonce drawn for recipient \<open>i\<close>.\<close>

definition seal_agent_version ::
    "prims \<Rightarrow> aead_prims \<Rightarrow> (strategy_bundle \<Rightarrow> json option) \<Rightarrow> string \<Rightarrow> string
      \<Rightarrow> (nat \<Rightarrow> string \<times> string) \<Rightarrow> strategy_bundle \<Rightarrow> uuid \<Rightarrow> u32 \<Rightarrow> version_recipient list
      \<Rightarrow> agent_version_error + version_envelope" where
  "seal_agent_version P A enc bundle_key nonce rnd b agent_id version recipients =
     rbind (validate_bundle b) (\<lambda>_.
     if agent_id = 0 \<or> version = 0 \<or> recipients = [] \<or> 32 < length recipients
     then Inl AvInvalid
     else if \<not> recipients_ok recipients then Inl AvInvalid
     else let ad = agent_version_aad P (sb_version_id b) in
     rbind (map_err (\<lambda>_. AvSerialization) (canonical_json P (enc b))) (\<lambda>plaintext.
     rbind (map_err AvCrypto (encrypt_bundle A bundle_key nonce plaintext ad)) (\<lambda>c.
     rbind (map_err AvCrypto (rmap (wrap_for A bundle_key ad)
              (zip (map rnd [0..<length recipients]) recipients))) (\<lambda>wraps.
       Inr \<lparr>ve_protocol = HARNESS_PROTOCOL_V1, ve_version_id = sb_version_id b,
            ve_agent_id = agent_id, ve_version = version, ve_model_id = sb_model_id b,
            ve_configuration_sha256 = hex_encode P (sha256 P plaintext),
            ve_ciphertext = bc_ciphertext c, ve_nonce = bc_nonce c, ve_key_wraps = wraps,
            ve_created_at = sb_created_at b\<rparr>))))"

definition open_agent_version ::
    "prims \<Rightarrow> aead_prims \<Rightarrow> (string \<Rightarrow> strategy_bundle option) \<Rightarrow> version_envelope \<Rightarrow> uuid
      \<Rightarrow> string \<Rightarrow> agent_version_error + strategy_bundle" where
  "open_agent_version P A dec e device_id device_secret =
     (if ve_protocol e \<noteq> HARNESS_PROTOCOL_V1 \<or> ve_version_id e = 0 \<or> ve_agent_id e = 0
         \<or> ve_version e = 0 \<or> blank (ve_model_id e)
      then Inl AvInvalid
      else rbind (ok_or (find (\<lambda>w. kw_device_id w = device_id) (ve_key_wraps e)) AvDeviceWrap) (\<lambda>w.
      let ad = agent_version_aad P (ve_version_id e) in
      rbind (map_err AvCrypto (unwrap_bundle_key A device_secret
          \<lparr>wk_ephemeral_public_key = kw_ephemeral_public_key w, wk_nonce = kw_nonce w,
           wk_wrapped_key = kw_wrapped_key w\<rparr> ad)) (\<lambda>bundle_key.
      rbind (map_err AvCrypto (decrypt_bundle A bundle_key
          \<lparr>bc_nonce = ve_nonce e, bc_ciphertext = ve_ciphertext e\<rparr> ad)) (\<lambda>plaintext.
      if hex_encode P (sha256 P plaintext) \<noteq> ve_configuration_sha256 e then Inl AvInvalid
      else rbind (ok_or (dec plaintext) AvSerialization) (\<lambda>b.
      rbind (validate_bundle b) (\<lambda>_.
      if sb_version_id b \<noteq> ve_version_id e \<or> sb_model_id b \<noteq> ve_model_id e
      then Inl AvInvalid else Inr b))))))"

definition decode_device_encryption_public_key ::
    "aead_prims \<Rightarrow> string \<Rightarrow> agent_version_error + string" where
  "decode_device_encryption_public_key A value =
     rbind (ok_or (url64_decode A value) AvInvalid) (\<lambda>b.
       if length b = 32 then Inr b else Inl AvInvalid)"

section \<open>Sealing and opening\<close>

lemma distinct_remdups_adj_sorted: "sorted xs \<Longrightarrow> distinct (remdups_adj xs)"
  by (induction xs rule: remdups_adj.induct) auto

lemma recipients_ok_distinct:
  "recipients_ok rs \<Longrightarrow> distinct (map vr_device_id rs) \<and> 0 \<notin> vr_device_id ` set rs"
proof -
  assume ok: "recipients_ok rs"
  let ?ids = "remdups_adj (sort (map vr_device_id rs))"
  have "length ?ids = length rs" using ok by (simp add: recipients_ok_def Let_def)
  moreover have "distinct ?ids"
    by (simp add: distinct_remdups_adj_sorted)
  moreover have "set ?ids = vr_device_id ` set rs" by simp
  ultimately have "card (set (map vr_device_id rs)) = length (map vr_device_id rs)"
    by (metis distinct_card length_map list.set_map)
  then have "distinct (map vr_device_id rs)" by (rule card_distinct)
  with ok show ?thesis by (auto simp: recipients_ok_def Let_def list_ex_iff)
qed

lemma rmap_find:
  assumes "rmap f xs = Inr ys" and "x \<in> set xs" and "distinct (map g xs)"
    and "\<And>x y. f x = Inr y \<Longrightarrow> h y = g x"
  shows "\<exists>y. f x = Inr y \<and> find (\<lambda>y. h y = g x) ys = Some y"
  using assms
proof (induction xs arbitrary: ys)
  case (Cons a xs)
  then obtain b bs where ys: "ys = b # bs" "f a = Inr b" "rmap f xs = Inr bs" by auto
  show ?case
  proof (cases "x = a")
    case True
    with ys Cons.prems(4) show ?thesis by auto
  next
    case False
    then have "x \<in> set xs" using Cons.prems(2) by simp
    moreover from this have "g x \<in> g ` set xs" by simp
    then have "g x \<noteq> g a" using Cons.prems(3) by (metis distinct.simps(2) list.set_map list.simps(9))
    ultimately have "g x \<noteq> g a" "x \<in> set xs" by simp_all
    with Cons ys show ?thesis by auto
  qed
qed simp

text \<open>
  C23. Every recipient of a sealed strategy can open it with its own device key and gets back
  exactly the bundle that was sealed.
\<close>

theorem recipients_open_sealed_version:
  assumes "aead_law A" and "dh_law A" and "length bundle_key = 32" and "length nonce = 24"
    and "\<And>i. length (snd (rnd i)) = 24"
    and "\<And>bytes. canonical_json P (enc b) = Inr bytes \<Longrightarrow> dec bytes = Some b"
    and "seal_agent_version P A enc bundle_key nonce rnd b agent_id version recipients = Inr e"
    and "r \<in> set recipients" and "vr_public_key r = x_public A secret"
  shows "open_agent_version P A dec e (vr_device_id r) secret = Inr b"
proof -
  let ?ad = "agent_version_aad P (sb_version_id b)"
  let ?zs = "zip (map rnd [0..<length recipients]) recipients"
  from assms(7) obtain bytes c wraps where
    val: "validate_bundle b = Inr ()" and ids: "agent_id \<noteq> 0" "version \<noteq> 0"
    and rec: "recipients_ok recipients"
    and bytes: "canonical_json P (enc b) = Inr bytes"
    and c: "encrypt_bundle A bundle_key nonce bytes ?ad = Inr c"
    and wraps: "rmap (wrap_for A bundle_key ?ad) ?zs = Inr wraps"
    and e: "e = \<lparr>ve_protocol = HARNESS_PROTOCOL_V1, ve_version_id = sb_version_id b,
            ve_agent_id = agent_id, ve_version = version, ve_model_id = sb_model_id b,
            ve_configuration_sha256 = hex_encode P (sha256 P bytes),
            ve_ciphertext = bc_ciphertext c, ve_nonce = bc_nonce c, ve_key_wraps = wraps,
            ve_created_at = sb_created_at b\<rparr>"
    unfolding seal_agent_version_def Let_def by (auto split: if_splits)
  obtain i where i: "i < length recipients" "recipients ! i = r"
    using assms(8) by (auto simp: in_set_conv_nth)
  have "?zs ! i = (rnd i, r)" "i < length ?zs" using i by simp_all
  then have z: "(rnd i, r) \<in> set ?zs" by (metis nth_mem)
  have snds: "map (\<lambda>x. vr_device_id (snd x)) ?zs = map vr_device_id recipients"
    by (simp add: map_snd_zip_take flip: map_map [unfolded o_def, of vr_device_id snd])
  have dev: "\<And>x y. wrap_for A bundle_key ?ad x = Inr y \<Longrightarrow> kw_device_id y = vr_device_id (snd x)"
    by (auto simp: wrap_for_def split: prod.splits)
  have "\<exists>y. wrap_for A bundle_key ?ad (rnd i, r) = Inr y
      \<and> find (\<lambda>y. kw_device_id y = vr_device_id (snd (rnd i, r))) wraps = Some y"
    by (rule rmap_find [OF wraps z]) (use recipients_ok_distinct [OF rec] snds dev in auto)
  then obtain w where w: "wrap_for A bundle_key ?ad (rnd i, r) = Inr w"
    and found: "find (\<lambda>y. kw_device_id y = vr_device_id r) wraps = Some w" by auto
  obtain v where v: "wrap_bundle_key A (fst (rnd i)) (snd (rnd i)) bundle_key (x_public A secret) ?ad = Inr v"
    and wv: "w = \<lparr>kw_device_id = vr_device_id r, kw_ephemeral_public_key = wk_ephemeral_public_key v,
            kw_nonce = wk_nonce v, kw_wrapped_key = wk_wrapped_key v\<rparr>"
    using w assms(9) by (auto simp: wrap_for_def split: prod.splits)
  have "unwrap_bundle_key A secret \<lparr>wk_ephemeral_public_key = wk_ephemeral_public_key v,
      wk_nonce = wk_nonce v, wk_wrapped_key = wk_wrapped_key v\<rparr> ?ad = Inr bundle_key"
    using unwrap_wrap [OF assms(1,2,5,3) v] by (cases v) simp
  moreover have "decrypt_bundle A bundle_key
      \<lparr>bc_nonce = bc_nonce c, bc_ciphertext = bc_ciphertext c\<rparr> ?ad = Inr bytes"
    using decrypt_encrypt [OF assms(1,4) c] by (cases c) simp
  moreover have "\<not> blank (sb_model_id b)" "sb_version_id b \<noteq> 0"
    using val by (auto simp: validate_bundle_def split: if_splits)
  ultimately show ?thesis
    using found ids val assms(6) [OF bytes]
    by (simp add: open_agent_version_def e wv Let_def)
qed

text \<open>
  An opened strategy is the one the envelope names: its bytes hash to the configuration
  digest, it is a valid bundle with the three required tools, and its version and model are
  the envelope's. A device without a wrap of its own opens nothing.
\<close>

theorem opened_version_is_bound:
  assumes "open_agent_version P A dec e device_id secret = Inr b"
  shows "validate_bundle b = Inr () \<and> sb_tools b = REQUIRED_STRATEGY_TOOLS
    \<and> sb_version_id b = ve_version_id e \<and> sb_model_id b = ve_model_id e
    \<and> (\<exists>bytes. dec bytes = Some b \<and> hex_encode P (sha256 P bytes) = ve_configuration_sha256 e)
    \<and> device_id \<in> kw_device_id ` set (ve_key_wraps e)"
proof -
  from assms obtain w bytes where "find (\<lambda>w. kw_device_id w = device_id) (ve_key_wraps e) = Some w"
    "dec bytes = Some b" "hex_encode P (sha256 P bytes) = ve_configuration_sha256 e"
    "validate_bundle b = Inr ()" "sb_version_id b = ve_version_id e" "sb_model_id b = ve_model_id e"
    unfolding open_agent_version_def Let_def by (auto split: if_splits)
  then show ?thesis by (auto simp: validate_bundle_def find_Some_iff split: if_splits)
qed

section \<open>A concrete version\<close>

definition toy_bundle :: strategy_bundle where
  "toy_bundle = \<lparr>sb_protocol = HARNESS_PROTOCOL_V1, sb_version_id = 5, sb_model_id = ''m'',
     sb_name = [110], sb_system_instructions = [105], sb_tools = REQUIRED_STRATEGY_TOOLS,
     sb_created_at = 0\<rparr>"

definition toy_envelope :: version_envelope where
  "toy_envelope = \<lparr>ve_protocol = HARNESS_PROTOCOL_V1, ve_version_id = 5, ve_agent_id = 1,
     ve_version = 1, ve_model_id = ''m'', ve_configuration_sha256 = ''json'',
     ve_ciphertext = ''crow-agent-version-v1:uuidjson'', ve_nonce = replicate 24 (CHR ''n''),
     ve_key_wraps = [\<lparr>kw_device_id = 9, kw_ephemeral_public_key = replicate 32 (CHR ''p''),
       kw_nonce = replicate 24 (CHR ''r''),
       kw_wrapped_key = ''crow-agent-version-v1:uuid'' @ replicate 32 (CHR ''b'')\<rparr>],
     ve_created_at = 0\<rparr>"

lemma toy_bundle_valid: "validate_bundle toy_bundle = Inr ()"
  by (simp add: validate_bundle_def toy_bundle_def blank_def byte_def ascii_ws_def trim_def
      trim_start_def trim_end_def is_whitespace_def)

lemma toy_sealed:
  "seal_agent_version toy_prims toy_aead (\<lambda>b. Some JNull) (replicate 32 (CHR ''b''))
     (replicate 24 (CHR ''n'')) (\<lambda>i. (''e'', replicate 24 (CHR ''r''))) toy_bundle 1 1
     [\<lparr>vr_device_id = 9, vr_public_key = replicate 32 (CHR ''p'')\<rparr>] = Inr toy_envelope"
proof -
  have "recipients_ok [\<lparr>vr_device_id = 9, vr_public_key = replicate 32 (CHR ''p'')\<rparr>]"
    by (simp add: recipients_ok_def)
  moreover have "canonical_json toy_prims (Some JNull) = Inr ''json''"
    by (simp add: canonical_json_def toy_prims_def)
  moreover have "agent_version_aad toy_prims 5 = ''crow-agent-version-v1:uuid''"
    by (simp add: agent_version_aad_def toy_prims_def)
  moreover have "sb_version_id toy_bundle = 5" "sb_model_id toy_bundle = ''m''" "sb_created_at toy_bundle = 0"
    by (simp_all add: toy_bundle_def)
  moreover have "hex_encode toy_prims (sha256 toy_prims b) = b" for b by (simp add: toy_prims_def)
  ultimately show ?thesis
    by (simp add: seal_agent_version_def toy_bundle_valid)
      (simp add: encrypt_bundle_def wrap_for_def wrap_bundle_key_def derive_wrapping_key_def
        toy_aead_def toy_envelope_def)
qed

theorem recipients_open_sealed_version_witness:
  "open_agent_version toy_prims toy_aead (\<lambda>s. Some toy_bundle) toy_envelope 9 ''secret'' = Inr toy_bundle"
  using recipients_open_sealed_version [OF toy_aead_law toy_dh_law _ _ _ _ toy_sealed,
      of "\<lambda>s. Some toy_bundle" "\<lparr>vr_device_id = 9, vr_public_key = replicate 32 (CHR ''p'')\<rparr>" "''secret''"]
  by (simp add: toy_aead_def)

lemma toy_opened:
  "open_agent_version toy_prims toy_aead (\<lambda>s. Some toy_bundle) toy_envelope 9 ''secret'' = Inr toy_bundle"
  using toy_bundle_valid
  by (simp add: open_agent_version_def toy_envelope_def toy_prims_def toy_aead_def agent_version_aad_def
      unwrap_bundle_key_def decrypt_bundle_def decode_32_def decode_24_def derive_wrapping_key_def
      blank_def byte_def ascii_ws_def) (simp add: toy_bundle_def)

theorem opened_version_is_bound_witness:
  "open_agent_version toy_prims toy_aead (\<lambda>s. Some toy_bundle) toy_envelope 9 ''secret'' = Inr toy_bundle
    \<and> sb_model_id toy_bundle = ve_model_id toy_envelope"
  using opened_version_is_bound [OF toy_opened] toy_opened by blast

end
