(* ===== verification/Manifests.thy ===== *)
theory Manifests
  imports Envelopes
begin

text \<open>
  What a validated arena manifest guarantees, on the definitions of \<open>Protocol\<close>: the safety
  ceiling, the schedule, the universe and the ticket split, with a sample manifest (the one
  of the unit tests of \<open>runtime.rs\<close>).
\<close>

definition sample_manifest :: arena_manifest where
  "sample_manifest = \<lparr>am_protocol = HARNESS_PROTOCOL_V1, am_arena_id = 9,
     am_manifest_version = 1, am_mode = HyperliquidTestnet,
     am_starts_at = 0, am_ends_at = 86400000000000, am_decision_interval_seconds = 900,
     am_symbols = ALLOWED_SYMBOLS, am_eligible_models = [''crow-qwen3-5-27b''],
     am_dataset_sha256 = None, am_required_client_version = ''0.1.0'',
     am_starting_capital_micro_usdc = DEFAULT_STARTING_CAPITAL_MICRO_USDC,
     am_risk_rules = default_rules,
     am_execution = \<lparr>half_spread_bps = 2, slippage_bps = 3, taker_fee_bps = 5\<rparr>,
     am_scoring = default_scoring,
     am_penalties = \<lparr>policy_rejection_millis = 0, missed_cycle_millis = 0, cap_millis = 0\<rparr>,
     am_ticket = default_ticket\<rparr>"

lemma sample_manifest_valid: "validate_manifest sample_manifest = Inr ()"
  by code_simp

lemma validate_ceiling_Inr:
  "validate_ceiling r = Inr () \<longleftrightarrow>
     1000 \<le> cash_reserve_bps r \<and> daily_loss_bps r \<le> 200 \<and> drawdown_bps r \<le> 1000
     \<and> max_order_bps r \<le> 200 \<and> max_position_bps r \<le> 1000 \<and> max_spread_bps r \<le> 40
     \<and> book_max_age_seconds r \<le> 10 \<and> max_orders_day r \<le> 20
     \<and> rr_isolated_leverage r = 1 \<and> ioc_only r"
  by (simp add: validate_ceiling_def default_rules_def Let_def)

lemma validate_manifest_Inr:
  assumes "validate_manifest m = Inr ()"
  shows "am_protocol m = HARNESS_PROTOCOL_V1" and "am_starts_at m < am_ends_at m"
    and "0 < whole_seconds (am_ends_at m - am_starts_at m)"
    and "whole_seconds (am_ends_at m - am_starts_at m)
           smod uint (max (am_decision_interval_seconds m) 1) = 0"
    and "am_mode m = HistoricalBacktest \<Longrightarrow> am_decision_interval_seconds m = 900"
    and "am_mode m \<noteq> HistoricalBacktest \<Longrightarrow> 60 \<le> am_decision_interval_seconds m"
    and "am_symbols m = ALLOWED_SYMBOLS"
    and "am_eligible_models m \<noteq> []" and "set (am_eligible_models m) \<subseteq> set ALLOWED_MODELS"
    and "500000000 \<le> am_starting_capital_micro_usdc m
           \<and> am_starting_capital_micro_usdc m \<le> 1000000000000
         \<or> am_mode m = HyperliquidMainnet \<and> cc_ticket m
           \<and> am_starting_capital_micro_usdc m = 100000000"
    and "cc_ticket m \<Longrightarrow> \<not> cc_ticket_invalid m"
    and "validate_ceiling (am_risk_rules m) = Inr ()"
    and "am_mode m = HistoricalBacktest \<Longrightarrow> \<exists>d. am_dataset_sha256 m = Some d \<and> is_sha256 d"
  using assms unfolding validate_manifest_def Let_def
  by (auto simp: not_le not_less list_ex_iff cc_ticket_def MIN_LIVE_DECISION_INTERVAL_SECONDS_def
      MIN_STARTING_CAPITAL_MICRO_USDC_def MAX_STARTING_CAPITAL_MICRO_USDC_def
      REPLACEMENT_BETA_STARTING_CAPITAL_MICRO_USDC_def
      split: if_splits option.splits intro: arena_mode.exhaust)

text \<open>
  A validated manifest has a positive whole number of decision cycles of its own
  cadence (15 minutes in a historical arena, at least one minute in a live one), trades
  exactly BTC, ETH and SOL with known models, and stays under the safety ceiling: at most
  2\% per order, 10\% per position, 20 orders a day, at least 10\% reserve, leverage one.
\<close>

theorem validated_manifest_bounds:
  assumes "validate_manifest m = Inr ()"
  shows "(\<exists>cycles > 0. whole_seconds (am_ends_at m - am_starts_at m)
            = cycles * uint (am_decision_interval_seconds m))
    \<and> (if am_mode m = HistoricalBacktest then am_decision_interval_seconds m = 900
       else 60 \<le> am_decision_interval_seconds m)
    \<and> am_symbols m = [''BTC'', ''ETH'', ''SOL'']
    \<and> am_eligible_models m \<noteq> [] \<and> set (am_eligible_models m) \<subseteq> set ALLOWED_MODELS
    \<and> max_order_bps (am_risk_rules m) \<le> 200 \<and> max_position_bps (am_risk_rules m) \<le> 1000
    \<and> max_orders_day (am_risk_rules m) \<le> 20 \<and> 1000 \<le> cash_reserve_bps (am_risk_rules m)
    \<and> rr_isolated_leverage (am_risk_rules m) = 1"
proof -
  note v = validate_manifest_Inr [OF assms]
  have interval: "60 \<le> am_decision_interval_seconds m"
    using v(5,6) by (cases "am_mode m = HistoricalBacktest") simp_all
  then have pos: "60 \<le> uint (am_decision_interval_seconds m)"
    by (simp add: word_le_def)
  have "max (am_decision_interval_seconds m) 1 = am_decision_interval_seconds m"
    using pos by (simp add: max_def word_le_def)
  with v(4) have "whole_seconds (am_ends_at m - am_starts_at m)
      smod uint (am_decision_interval_seconds m) = 0" by simp
  then have "uint (am_decision_interval_seconds m)
      dvd whole_seconds (am_ends_at m - am_starts_at m)"
    using v(3) pos by (simp add: smod_int_alt_def)
      (metis abs_of_pos dvd_eq_mod_eq_0 less_numeral_extra(3) mult_eq_0_iff sgn_0_0
        order_less_le_trans zero_less_numeral)
  then obtain k where k: "whole_seconds (am_ends_at m - am_starts_at m)
      = k * uint (am_decision_interval_seconds m)"
    by (metis dvd_def mult.commute)
  with v(3) pos have "0 < k" by (simp add: zero_less_mult_iff)
  with k v validate_ceiling_Inr [of "am_risk_rules m"] show ?thesis
    by (auto simp: ALLOWED_SYMBOLS_def)
qed

theorem validated_manifest_bounds_witness:
  "validate_manifest sample_manifest = Inr ()
    \<and> max_order_bps (am_risk_rules sample_manifest) \<le> 200"
  using validated_manifest_bounds [OF sample_manifest_valid] sample_manifest_valid by blast

text \<open>
  Outside the CC beta the prize and protocol shares of a validated manifest sum to
  10000 basis points modulo \<open>2^16\<close>, and the winner shares likewise: the code adds them in
  \<open>u16\<close>, so the sum of the shares as numbers is 10000 or 10000 plus a multiple of 65536.
\<close>

theorem ticket_split_modulo:
  assumes "validate_manifest m = Inr ()" and "\<not> cc_ticket m"
  shows "(unat (tk_prize_bps (am_ticket m)) + unat (tk_protocol_bps (am_ticket m))) mod 65536
           = 10000
    \<and> (case tk_winner_bps (am_ticket m) of (a, b, c) \<Rightarrow>
         (unat a + unat b + unat c) mod 65536 = 10000)"
proof -
  have s: "tk_prize_bps (am_ticket m) + tk_protocol_bps (am_ticket m) = 10000"
    "winner_sum (tk_winner_bps (am_ticket m)) = 10000"
    using assms unfolding validate_manifest_def Let_def by (auto split: if_splits)
  have "unat (tk_prize_bps (am_ticket m) + tk_protocol_bps (am_ticket m)) = 10000"
    using s(1) by simp
  moreover obtain a b c where w: "tk_winner_bps (am_ticket m) = (a, b, c)"
    by (cases "tk_winner_bps (am_ticket m)")
  have "unat (a + b + c) = 10000" using s(2) by (simp add: winner_sum_def w)
  then have "(unat a + unat b + unat c) mod 65536 = 10000"
    by (simp add: unat_word_ariths mod_add_left_eq)
  ultimately show ?thesis by (simp add: unat_word_ariths w)
qed

theorem ticket_split_modulo_witness:
  "(unat (tk_prize_bps (am_ticket sample_manifest))
     + unat (tk_protocol_bps (am_ticket sample_manifest))) mod 65536 = 10000"
proof -
  have "\<not> cc_ticket sample_manifest"
    by (simp add: cc_ticket_def sample_manifest_def default_ticket_def)
  from ticket_split_modulo [OF sample_manifest_valid this] show ?thesis by blast
qed

lemma split_sum:
  fixes a b :: u16
  shows "a + b = 10000 \<longleftrightarrow> (unat a + unat b) mod 65536 = 10000"
  by (simp add: word_unat_eq_iff unat_word_ariths)

lemma winner_split:
  "winner_sum (a, b, c) = 10000 \<longleftrightarrow> (unat a + unat b + unat c) mod 65536 = 10000"
  by (simp add: winner_sum_def word_unat_eq_iff unat_word_ariths mod_add_left_eq)

definition with_shares :: "u16 \<Rightarrow> u16 \<Rightarrow> u16 \<times> u16 \<times> u16 \<Rightarrow> arena_manifest \<Rightarrow> arena_manifest" where
  "with_shares prize protocol winners m = m\<lparr>am_ticket := (am_ticket m)
     \<lparr>tk_prize_bps := prize, tk_protocol_bps := protocol, tk_winner_bps := winners\<rparr>\<rparr>"

lemma if_Inl_eq_Inr: "(if b then Inl e else x) = Inr y \<longleftrightarrow> \<not> b \<and> x = Inr y"
  by simp

lemma shares_validated:
  assumes "validate_manifest m = Inr ()" and "\<not> cc_ticket m"
  shows "validate_manifest (with_shares a b w m) =
    (if a + b = 10000 \<and> winner_sum w = 10000 then Inr ()
     else Inl (InvalidManifest ''ticket and winner splits must each sum to 10000 bps''))"
proof -
  let ?m = "with_shares a b w m"
  have f: "am_protocol ?m = am_protocol m" "am_ends_at ?m = am_ends_at m" "am_starts_at ?m = am_starts_at m"
    "am_decision_interval_seconds ?m = am_decision_interval_seconds m" "am_mode ?m = am_mode m"
    "tk_enabled (am_ticket ?m) = tk_enabled (am_ticket m)" "tk_asset (am_ticket ?m) = tk_asset (am_ticket m)"
    "am_starting_capital_micro_usdc ?m = am_starting_capital_micro_usdc m" "am_symbols ?m = am_symbols m"
    "am_eligible_models ?m = am_eligible_models m" "am_scoring ?m = am_scoring m" "cc_ticket ?m = cc_ticket m"
    "am_dataset_sha256 ?m = am_dataset_sha256 m" "am_risk_rules ?m = am_risk_rules m"
    "tk_prize_bps (am_ticket ?m) = a" "tk_protocol_bps (am_ticket ?m) = b" "tk_winner_bps (am_ticket ?m) = w"
    by (simp_all add: with_shares_def cc_ticket_def)
  note g = assms(1) [unfolded validate_manifest_def Let_def if_Inl_eq_Inr]
  show ?thesis
    unfolding validate_manifest_def [of ?m] Let_def f using g assms(2) by (simp only: if_False simp_thms) argo
qed

text \<open>
  C40. What the ticket split admits: give any shares to a manifest that \<open>validate\<close> accepts (outside the CC beta), and
  it is accepted again exactly when the prize and protocol shares sum to 10000 basis points modulo \<open>2^16\<close> and
  the winner shares as well, and refused with the text of the split otherwise. In a build whose integer
  addition wraps, shares of 75536 basis points pass.
\<close>

theorem ticket_split_wraps:
  assumes "validate_manifest m = Inr ()" and "\<not> cc_ticket m"
  shows "validate_manifest (with_shares prize protocol (w1, w2, w3) m) =
    (if (unat prize + unat protocol) mod 65536 = 10000 \<and> (unat w1 + unat w2 + unat w3) mod 65536 = 10000 then Inr ()
     else Inl (InvalidManifest ''ticket and winner splits must each sum to 10000 bps''))"
  using shares_validated [OF assms] by (simp only: split_sum winner_split)

theorem ticket_split_wraps_witness:
  "validate_manifest (with_shares 60000 15536 (40000, 30000, 5536) sample_manifest) = Inr ()
    \<and> unat (60000 :: u16) + unat (15536 :: u16) = 75536"
proof -
  have "\<not> cc_ticket sample_manifest" by (simp add: cc_ticket_def sample_manifest_def default_ticket_def)
  from ticket_split_wraps [OF sample_manifest_valid this] show ?thesis by simp
qed

lemma signed_sample_manifest:
  "\<exists>s. sign_manifest toy_prims (\<lambda>_. Some JNull) sample_manifest ''seed'' = Inr s"
  by (simp add: sign_manifest_def sample_manifest_valid canonical_json_def toy_prims_def Let_def)

theorem signed_manifest_round_trip_witness:
  "\<exists>s. sign_manifest toy_prims (\<lambda>_. Some JNull) sample_manifest ''seed'' = Inr s
     \<and> verify_manifest toy_prims (\<lambda>_. Some JNull) (\<lambda>_. Some sample_manifest) s = Inr ()"
proof -
  obtain s where s: "sign_manifest toy_prims (\<lambda>_. Some JNull) sample_manifest ''seed'' = Inr s"
    using signed_sample_manifest by blast
  have "verify_manifest toy_prims (\<lambda>_. Some JNull) (\<lambda>_. Some sample_manifest) s = Inr ()"
    using signed_manifest_round_trip [OF toy_signature_law s, of JNull "\<lambda>_. Some sample_manifest"]
    by simp
  with s show ?thesis by blast
qed

end
