(* ===== verification/Runtime.thy ===== *)
theory Runtime
  imports Policy Manifests
begin

text \<open>
  One decision cycle, \<open>crates/crow-agent-core/src/runtime.rs\<close>: the bounded loop of model
  turns and local tools, the binding of every inference receipt to its turn, the check of
  the decision summary, and the policy's verdict on a proposal. The inference provider and
  the tools are parameters over an abstract world, the external state they may change.
\<close>

section \<open>Data\<close>

datatype allowed_tool = MarketSnapshot | PortfolioSnapshot | RecentCandles

instantiation allowed_tool :: linorder
begin

fun tool_rank :: "allowed_tool \<Rightarrow> nat" where
  "tool_rank MarketSnapshot = 0"
| "tool_rank PortfolioSnapshot = 1"
| "tool_rank RecentCandles = 2"

definition less_eq_allowed_tool :: "allowed_tool \<Rightarrow> allowed_tool \<Rightarrow> bool" where
  "less_eq_allowed_tool x y \<longleftrightarrow> tool_rank x \<le> tool_rank y"

definition less_allowed_tool :: "allowed_tool \<Rightarrow> allowed_tool \<Rightarrow> bool" where
  "less_allowed_tool x y \<longleftrightarrow> tool_rank x < tool_rank y"

instance
proof
  fix x y z :: allowed_tool
  show "x \<le> y \<Longrightarrow> y \<le> x \<Longrightarrow> x = y"
    by (cases x; cases y) (simp_all add: less_eq_allowed_tool_def)
qed (auto simp: less_eq_allowed_tool_def less_allowed_tool_def)

end

definition tool_name :: "allowed_tool \<Rightarrow> string" where
  "tool_name t = (case t of MarketSnapshot \<Rightarrow> ''market_snapshot''
     | PortfolioSnapshot \<Rightarrow> ''portfolio_snapshot'' | RecentCandles \<Rightarrow> ''recent_candles'')"

record tool_call =
  tc_call_id :: string
  tc_tool :: allowed_tool
  tc_arguments :: json

record tool_result =
  tr_call_id :: string
  tr_tool :: allowed_tool
  tr_output :: json

record turn_request =
  tq_arena_id :: uuid
  tq_run_id :: uuid
  tq_cycle_id :: uuid
  tq_model_id :: string
  tq_strategy_instructions :: utext
  tq_cycle_context :: json
  tq_prior_tool_results :: "tool_result list"

record model_turn =
  mt_tool_calls :: "tool_call list"
  mt_proposal :: "proposal option"
  mt_decision_summary :: utext

record inference_turn =
  it_output :: model_turn
  it_receipt :: inference_receipt

datatype runtime_error =
    RtInference
  | RtGatewayStatus
  | RtGatewayTimeout
  | RtGatewayTransport
  | RtGatewayReceiptBinding
  | RtModelTurnInvalid
  | RtTool
  | RtToolUnavailable
  | RtToolRoundLimit
  | RtAmbiguousTurn
  | RtMissingProposal
  | RtDecisionSummary
  | RtReceiptBinding
  | RtProtocol protocol_error
  | RtPolicy policy_error

definition failure_class :: "runtime_error \<Rightarrow> string" where
  "failure_class e = (case e of
       RtInference \<Rightarrow> ''inference_failed''
     | RtGatewayStatus \<Rightarrow> ''gateway_http_status''
     | RtGatewayTimeout \<Rightarrow> ''gateway_timeout''
     | RtGatewayTransport \<Rightarrow> ''gateway_transport''
     | RtGatewayReceiptBinding \<Rightarrow> ''gateway_receipt_binding''
     | RtModelTurnInvalid \<Rightarrow> ''invalid_model_turn''
     | RtTool \<Rightarrow> ''tool_failed''
     | RtToolUnavailable \<Rightarrow> ''tool_unavailable''
     | RtToolRoundLimit \<Rightarrow> ''tool_round_limit''
     | RtAmbiguousTurn \<Rightarrow> ''ambiguous_model_turn''
     | RtMissingProposal \<Rightarrow> ''missing_proposal''
     | RtDecisionSummary \<Rightarrow> ''invalid_decision_summary''
     | RtReceiptBinding \<Rightarrow> ''receipt_binding_failed''
     | RtProtocol _ \<Rightarrow> ''protocol_validation_failed''
     | RtPolicy _ \<Rightarrow> ''policy_rejected'')"

type_synonym 'w inference = "turn_request \<Rightarrow> 'w \<Rightarrow> (runtime_error + inference_turn) \<times> 'w"
type_synonym 'w local_tool = "json \<Rightarrow> 'w \<Rightarrow> (runtime_error + json) \<times> 'w"
type_synonym 'w tools = "(allowed_tool \<times> 'w local_tool) list"

record cycle_context =
  cx_manifest :: arena_manifest
  cx_run_id :: uuid
  cx_cycle_id :: uuid
  cx_model_id :: string
  cx_strategy_instructions :: utext
  cx_markets :: "(string \<times> market_state) list"
  cx_portfolios :: "(string \<times> portfolio_state) list"
  cx_cycle_context :: json

record cycle_outcome =
  co_proposal :: "proposal option"
  co_order :: "(policy_error + order_decision) option"
  co_decision_summary :: utext
  co_receipts :: "inference_receipt list"
  co_tool_results :: "tool_result list"

section \<open>Tools\<close>

text \<open>A second tool of a kind is refused, after it has replaced the first.\<close>

definition register_tool ::
    "allowed_tool \<Rightarrow> 'w local_tool \<Rightarrow> 'w tools \<Rightarrow> (runtime_error + unit) \<times> 'w tools" where
  "register_tool kind tool tools =
     (if map_of tools kind \<noteq> None then Inl RtToolUnavailable else Inr (), bt_insert kind tool tools)"

fun run_tools ::
    "'w tools \<Rightarrow> tool_call list \<Rightarrow> tool_result list \<Rightarrow> 'w
      \<Rightarrow> (runtime_error + tool_result list) \<times> 'w" where
  "run_tools tools [] results w = (Inr results, w)"
| "run_tools tools (call # calls) results w =
     (case map_of tools (tc_tool call) of
        None \<Rightarrow> (Inl RtToolUnavailable, w)
      | Some tool \<Rightarrow>
          (case tool (tc_arguments call) w of
             (Inl e, w') \<Rightarrow> (Inl e, w')
           | (Inr output, w') \<Rightarrow>
               run_tools tools calls (results @ [\<lparr>tr_call_id = tc_call_id call,
                 tr_tool = tc_tool call, tr_output = output\<rparr>]) w'))"

section \<open>The decision summary\<close>

definition MAX_DECISION_SUMMARY_CHARS :: nat where "MAX_DECISION_SUMMARY_CHARS = 240"

definition PRIVATE_REFERENCES :: "string list" where
  "PRIVATE_REFERENCES = [''system prompt'', ''strategy instruction'', ''my instruction'',
     ''prompt says'', ''hidden reasoning'', ''chain of thought'']"

definition lower_text :: "utext \<Rightarrow> utext" where
  "lower_text t = map scalar_to_ascii_lower t"

definition validate_decision_summary :: "utext \<Rightarrow> utext \<Rightarrow> runtime_error + utext" where
  "validate_decision_summary summary strategy_instructions =
     (if list_ex (\<lambda>c. is_control c \<and> \<not> is_whitespace c) summary then Inl RtDecisionSummary
      else let flat = join_sep [32] (split_whitespace [] summary);
               normalized = lower_text flat;
               normalized_strategy = lower_text (trim strategy_instructions) in
      if flat = []
         \<or> list_ex (\<lambda>r. contains_sub normalized (ascii r)) PRIVATE_REFERENCES
         \<or> 24 \<le> length normalized \<and> 24 \<le> length normalized_strategy
           \<and> (contains_sub normalized normalized_strategy
              \<or> contains_sub normalized_strategy normalized)
      then Inl RtDecisionSummary
      else Inr (trim_end (take MAX_DECISION_SUMMARY_CHARS flat)))"

section \<open>Receipts\<close>

definition side_str :: "side \<Rightarrow> string" where
  "side_str s = (case s of Buy \<Rightarrow> ''buy'' | Sell \<Rightarrow> ''sell'')"

definition proposal_json :: "proposal \<Rightarrow> json" where
  "proposal_json p = JObj [(''symbol'', JStr (p_symbol p)), (''side'', JStr (side_str (p_side p))),
     (''notional_bps'', jword (p_notional_bps p)), (''limit_price_micro_usdc'', JInt (p_limit_price p)),
     (''reduce_only'', JBool (p_reduce_only p))]"

definition tool_call_json :: "tool_call \<Rightarrow> json" where
  "tool_call_json c = JObj [(''call_id'', JStr (tc_call_id c)),
     (''tool'', JStr (tool_name (tc_tool c))), (''arguments'', tc_arguments c)]"

definition tool_calls_json :: "tool_call list \<Rightarrow> json" where
  "tool_calls_json calls = JArr (map tool_call_json calls)"

definition turn_json :: "model_turn \<Rightarrow> json" where
  "turn_json t = JObj [(''tool_calls'', tool_calls_json (mt_tool_calls t)),
     (''proposal'', case mt_proposal t of None \<Rightarrow> JNull | Some p \<Rightarrow> proposal_json p),
     (''decision_summary'', JStr (utf8 (mt_decision_summary t)))]"

definition validate_receipt ::
    "prims \<Rightarrow> turn_request \<Rightarrow> inference_turn \<Rightarrow> runtime_error + unit" where
  "validate_receipt P request turn =
     rbind (map_err RtProtocol (canonical_json P (Some (turn_json (it_output turn))))) (\<lambda>out.
     rbind (map_err RtProtocol (canonical_json P
              (Some (tool_calls_json (mt_tool_calls (it_output turn)))))) (\<lambda>calls.
     let receipt = it_receipt turn in
     if ir_arena_id receipt \<noteq> tq_arena_id request \<or> ir_run_id receipt \<noteq> tq_run_id request
        \<or> ir_cycle_id receipt \<noteq> tq_cycle_id request \<or> ir_model_id receipt \<noteq> tq_model_id request
        \<or> ir_output_sha256 receipt \<noteq> hex_encode P (sha256 P out)
        \<or> ir_tool_calls_sha256 receipt \<noteq> hex_encode P (sha256 P calls)
     then Inl RtReceiptBinding else Inr ()))"

section \<open>The cycle\<close>

definition MAX_TOOL_ROUNDS :: nat where "MAX_TOOL_ROUNDS = 4"

definition turn_request_of :: "cycle_context \<Rightarrow> tool_result list \<Rightarrow> turn_request" where
  "turn_request_of cx results = \<lparr>tq_arena_id = am_arena_id (cx_manifest cx),
     tq_run_id = cx_run_id cx, tq_cycle_id = cx_cycle_id cx, tq_model_id = cx_model_id cx,
     tq_strategy_instructions = cx_strategy_instructions cx,
     tq_cycle_context = cx_cycle_context cx, tq_prior_tool_results = results\<rparr>"

definition capital_i64 :: "u64 \<Rightarrow> int" where
  "capital_i64 c = (if uint c \<le> i64_max then uint c else i64_max)"

definition cycle_policy_context ::
    "cycle_context \<Rightarrow> market_state \<Rightarrow> portfolio_state \<Rightarrow> policy_context" where
  "cycle_policy_context cx market portfolio = \<lparr>pc_rules = am_risk_rules (cx_manifest cx),
     pc_market = market, pc_portfolio = portfolio,
     pc_starting_capital = capital_i64 (am_starting_capital_micro_usdc (cx_manifest cx)),
     pc_quantity_reference_price = None,
     pc_isolated_leverage = rr_isolated_leverage (am_risk_rules (cx_manifest cx))\<rparr>"

definition cycle_order ::
    "cycle_context \<Rightarrow> proposal \<Rightarrow> runtime_error + (policy_error + order_decision)" where
  "cycle_order cx p =
     rbind (ok_or (map_of (cx_markets cx) (p_symbol p)) RtToolUnavailable) (\<lambda>market.
     rbind (ok_or (map_of (cx_portfolios cx) (p_symbol p)) RtToolUnavailable) (\<lambda>portfolio.
       Inr (evaluate_proposal p (cycle_policy_context cx market portfolio))))"

text \<open>\<open>left\<close> counts the rounds that may follow this one: zero on round \<open>MAX_TOOL_ROUNDS\<close>.\<close>

fun cycle_rounds ::
    "prims \<Rightarrow> 'w inference \<Rightarrow> 'w tools \<Rightarrow> cycle_context \<Rightarrow> nat \<Rightarrow> tool_result list
      \<Rightarrow> inference_receipt list \<Rightarrow> 'w \<Rightarrow> (runtime_error + cycle_outcome) \<times> 'w" where
  "cycle_rounds P infer tools cx left results receipts w =
     (case infer (turn_request_of cx results) w of
        (Inl e, w1) \<Rightarrow> (Inl e, w1)
      | (Inr turn, w1) \<Rightarrow>
          (case rbind (validate_receipt P (turn_request_of cx results) turn) (\<lambda>_.
                  validate_decision_summary (mt_decision_summary (it_output turn))
                    (cx_strategy_instructions cx)) of
             Inl e \<Rightarrow> (Inl e, w1)
           | Inr summary \<Rightarrow>
               (let receipts' = receipts @ [it_receipt turn];
                    calls = mt_tool_calls (it_output turn) in
                if calls \<noteq> [] \<and> mt_proposal (it_output turn) \<noteq> None then (Inl RtAmbiguousTurn, w1)
                else case mt_proposal (it_output turn) of
                  Some p \<Rightarrow>
                    (rbind (cycle_order cx p) (\<lambda>order.
                       Inr \<lparr>co_proposal = Some p, co_order = Some order,
                            co_decision_summary = summary, co_receipts = receipts',
                            co_tool_results = results\<rparr>), w1)
                | None \<Rightarrow>
                    (case left of
                       0 \<Rightarrow> (Inl RtToolRoundLimit, w1)
                     | Suc k \<Rightarrow>
                         if calls = []
                         then (Inr \<lparr>co_proposal = None, co_order = None,
                                 co_decision_summary = summary, co_receipts = receipts',
                                 co_tool_results = results\<rparr>, w1)
                         else (case run_tools tools calls results w1 of
                             (Inl e, w2) \<Rightarrow> (Inl e, w2)
                           | (Inr results', w2) \<Rightarrow>
                               cycle_rounds P infer tools cx k results' receipts' w2)))))"

declare cycle_rounds.simps [simp del]

definition execute_cycle ::
    "prims \<Rightarrow> 'w inference \<Rightarrow> 'w tools \<Rightarrow> cycle_context \<Rightarrow> 'w
      \<Rightarrow> (runtime_error + cycle_outcome) \<times> 'w" where
  "execute_cycle P infer tools cx w =
     (case validate_manifest (cx_manifest cx) of
        Inl e \<Rightarrow> (Inl (RtProtocol e), w)
      | Inr _ \<Rightarrow>
          if \<not> list_ex (\<lambda>m. m = cx_model_id cx) (am_eligible_models (cx_manifest cx))
          then (Inl RtReceiptBinding, w)
          else if trim (cx_strategy_instructions cx) = []
                  \<or> 8192 < length (cx_strategy_instructions cx)
          then (Inl RtReceiptBinding, w)
          else cycle_rounds P infer tools cx MAX_TOOL_ROUNDS [] [] w)"

section \<open>What a summary can contain\<close>

lemma split_whitespace_words:
  "v \<in> set (split_whitespace w t) \<Longrightarrow> (\<forall>c \<in> set w. \<not> is_whitespace c) \<Longrightarrow>
    v \<noteq> [] \<and> (\<forall>c \<in> set v. \<not> is_whitespace c) \<and> set v \<subseteq> set w \<union> set t"
proof (induction t arbitrary: v w)
  case Nil
  then show ?case by (auto split: if_splits)
next
  case (Cons c t)
  show ?case
  proof (cases "is_whitespace c")
    case True
    then consider "v \<in> set (split_whitespace [] t)" | "w \<noteq> []" "v = rev w"
      using Cons.prems(1) by (auto split: if_splits)
    then show ?thesis
    proof cases
      case 1
      then have "v \<noteq> [] \<and> (\<forall>c \<in> set v. \<not> is_whitespace c) \<and> set v \<subseteq> set [] \<union> set t"
        by (rule Cons.IH) simp
      then show ?thesis by auto
    next
      case 2
      then show ?thesis using Cons.prems(2) by auto
    qed
  next
    case False
    then have "v \<in> set (split_whitespace (c # w) t)" using Cons.prems(1) by simp
    then have "v \<noteq> [] \<and> (\<forall>c \<in> set v. \<not> is_whitespace c) \<and> set v \<subseteq> set (c # w) \<union> set t"
      by (rule Cons.IH) (use False Cons.prems(2) in simp)
    then show ?thesis by auto
  qed
qed

lemma join_sep_chars: "c \<in> set (join_sep d ws) \<Longrightarrow> c \<in> set d \<or> (\<exists>w \<in> set ws. c \<in> set w)"
  by (induction d ws rule: join_sep.induct) auto

lemma join_sep_head:
  "ws \<noteq> [] \<Longrightarrow> hd ws \<noteq> [] \<Longrightarrow> join_sep d ws \<noteq> [] \<and> hd (join_sep d ws) = hd (hd ws)"
  by (induction d ws rule: join_sep.induct) auto

lemma contains_sub_prefix: "contains_sub (take n s) p \<Longrightarrow> contains_sub s p"
  unfolding contains_sub_iff by (metis append.assoc append_take_drop_id)

lemma trim_end_prefix: "\<exists>n. trim_end t = take n t"
proof -
  have "trim_end t = take (length t - length (takeWhile is_whitespace (rev t))) t"
    by (simp add: trim_end_def dropWhile_eq_drop rev_drop rev_take)
  then show ?thesis by blast
qed

lemma trim_end_keeps: "c \<in> set t \<Longrightarrow> \<not> is_whitespace c \<Longrightarrow> trim_end t \<noteq> []"
  by (auto simp: trim_end_def)

lemma validate_decision_summary_Inr:
  assumes "validate_decision_summary s strategy = Inr out"
  shows "out \<noteq> []" and "length out \<le> 240"
    and "\<And>c. c \<in> set out \<Longrightarrow> \<not> is_control c \<and> (is_whitespace c \<longrightarrow> c = 32)"
    and "\<And>r. r \<in> set PRIVATE_REFERENCES \<Longrightarrow> \<not> contains_sub (lower_text out) (ascii r)"
proof -
  let ?flat = "join_sep [32] (split_whitespace [] s)"
  from assms have ctl: "\<And>c. c \<in> set s \<Longrightarrow> is_control c \<Longrightarrow> is_whitespace c"
    and ne: "?flat \<noteq> []"
    and priv: "\<And>r. r \<in> set PRIVATE_REFERENCES \<Longrightarrow> \<not> contains_sub (lower_text ?flat) (ascii r)"
    and out: "out = trim_end (take MAX_DECISION_SUMMARY_CHARS ?flat)"
    unfolding validate_decision_summary_def Let_def list_ex_iff by (auto split: if_splits)
  obtain n where n: "out = take n (take MAX_DECISION_SUMMARY_CHARS ?flat)"
    using trim_end_prefix out by blast
  then show "length out \<le> 240" by (simp add: MAX_DECISION_SUMMARY_CHARS_def)
  have word: "v \<in> set (split_whitespace [] s) \<Longrightarrow>
      v \<noteq> [] \<and> (\<forall>c \<in> set v. \<not> is_whitespace c) \<and> set v \<subseteq> set s" for v
    using split_whitespace_words [of v "[]" s] by simp
  have ws: "split_whitespace [] s \<noteq> []" using ne by auto
  then have h: "hd (split_whitespace [] s) \<in> set (split_whitespace [] s)" by simp
  have "hd ?flat = hd (hd (split_whitespace [] s))" using join_sep_head ws word [OF h] by blast
  then have "\<not> is_whitespace (hd ?flat)" using word [OF h] by simp
  moreover have "hd ?flat \<in> set (take MAX_DECISION_SUMMARY_CHARS ?flat)"
    using ne by (cases ?flat) (auto simp: MAX_DECISION_SUMMARY_CHARS_def)
  ultimately show "out \<noteq> []" unfolding out by (rule trim_end_keeps [rotated])
  have "c \<in> set ?flat \<Longrightarrow> \<not> is_control c \<and> (is_whitespace c \<longrightarrow> c = 32)" for c
  proof -
    assume "c \<in> set ?flat"
    then consider "c = 32" | w where "w \<in> set (split_whitespace [] s)" "c \<in> set w"
      using join_sep_chars [of c "[32]"] by auto
    then show ?thesis
    proof cases
      case 1
      then show ?thesis by (simp add: is_control_def)
    next
      case 2
      then show ?thesis using word [of w] ctl [of c] by auto
    qed
  qed
  then show "\<And>c. c \<in> set out \<Longrightarrow> \<not> is_control c \<and> (is_whitespace c \<longrightarrow> c = 32)"
    using n by (meson in_set_takeD)
  show "\<And>r. r \<in> set PRIVATE_REFERENCES \<Longrightarrow> \<not> contains_sub (lower_text out) (ascii r)"
    using priv contains_sub_prefix n by (metis lower_text_def take_map)
qed

text \<open>
  The decision summary a cycle publishes is one line of 1 to 240 characters without
  control characters or white space other than single spaces between its words, and names
  none of the private references in any case.
\<close>

theorem published_summary_is_safe:
  assumes "validate_decision_summary s strategy = Inr out"
  shows "0 < length out \<and> length out \<le> 240
    \<and> (\<forall>c \<in> set out. \<not> is_control c \<and> (is_whitespace c \<longrightarrow> c = 32))
    \<and> (\<forall>r \<in> set PRIVATE_REFERENCES. \<not> contains_sub (lower_text out) (ascii r))"
  using validate_decision_summary_Inr [OF assms] by simp

lemma toy_summary: "validate_decision_summary [72, 111, 10, 108, 100] [105] = Inr [72, 111, 32, 108, 100]"
  by (simp add: validate_decision_summary_def is_control_def is_whitespace_def ascii_ws_def lower_text_def
    scalar_to_ascii_lower_def PRIVATE_REFERENCES_def ascii_def byte_def trim_end_def MAX_DECISION_SUMMARY_CHARS_def)

theorem published_summary_is_safe_witness:
  "validate_decision_summary [72, 111, 10, 108, 100] [105] = Inr [72, 111, 32, 108, 100]
    \<and> length [72, 111, 32, 108, 100 :: nat] \<le> 240"
  using published_summary_is_safe [OF toy_summary] toy_summary by blast

section \<open>Receipts and rounds\<close>

definition receipt_binds :: "cycle_context \<Rightarrow> inference_receipt \<Rightarrow> bool" where
  "receipt_binds cx r \<longleftrightarrow> ir_arena_id r = am_arena_id (cx_manifest cx) \<and> ir_run_id r = cx_run_id cx
     \<and> ir_cycle_id r = cx_cycle_id cx \<and> ir_model_id r = cx_model_id cx"

lemma validate_receipt_binds:
  "validate_receipt P (turn_request_of cx results) turn = Inr u \<Longrightarrow> receipt_binds cx (it_receipt turn)"
  by (auto simp: validate_receipt_def receipt_binds_def turn_request_of_def Let_def split: if_splits)

definition outcome_ok :: "cycle_context \<Rightarrow> cycle_outcome \<Rightarrow> bool" where
  "outcome_ok cx out \<longleftrightarrow> list_all (receipt_binds cx) (co_receipts out)
     \<and> (\<exists>s. validate_decision_summary s (cx_strategy_instructions cx) = Inr (co_decision_summary out))
     \<and> (case co_proposal out of None \<Rightarrow> co_order out = None
        | Some p \<Rightarrow> \<exists>market portfolio. map_of (cx_markets cx) (p_symbol p) = Some market
            \<and> map_of (cx_portfolios cx) (p_symbol p) = Some portfolio
            \<and> co_order out = Some (evaluate_proposal p (cycle_policy_context cx market portfolio)))"

text \<open>One round, once: it ends the cycle, or its tools run and the next round follows.\<close>

lemma cycle_round_Inr:
  assumes "cycle_rounds P infer tools cx left results receipts w = (Inr out, w')"
  obtains (ends) turn w1 where "infer (turn_request_of cx results) w = (Inr turn, w1)" and "w' = w1"
    and "receipt_binds cx (it_receipt turn)"
    and "co_receipts out = receipts @ [it_receipt turn]"
    and "\<exists>s. validate_decision_summary s (cx_strategy_instructions cx) = Inr (co_decision_summary out)"
    and "case co_proposal out of None \<Rightarrow> co_order out = None
        | Some p \<Rightarrow> cycle_order cx p = Inr (the (co_order out)) \<and> co_order out \<noteq> None"
    and "co_tool_results out = results"
  | (again) turn w1 k results' w2 where "infer (turn_request_of cx results) w = (Inr turn, w1)"
    and "receipt_binds cx (it_receipt turn)" and "left = Suc k"
    and "run_tools tools (mt_tool_calls (it_output turn)) results w1 = (Inr results', w2)"
    and "cycle_rounds P infer tools cx k results' (receipts @ [it_receipt turn]) w2 = (Inr out, w')"
    and "mt_tool_calls (it_output turn) \<noteq> []"
proof -
  obtain r w1 where i: "infer (turn_request_of cx results) w = (r, w1)" by fastforce
  show thesis
  proof (cases r)
    case (Inl e)
    with assms i show thesis by (simp add: cycle_rounds.simps [of _ _ _ _ left])
  next
    case (Inr turn)
    note unfolded = assms [unfolded cycle_rounds.simps [of _ _ _ _ left] i Inr prod.case sum.case]
    show thesis
    proof (cases "rbind (validate_receipt P (turn_request_of cx results) turn) (\<lambda>_.
        validate_decision_summary (mt_decision_summary (it_output turn)) (cx_strategy_instructions cx))")
      case (Inl e)
      with unfolded show thesis by simp
    next
      case ok: (Inr summary)
      have binds: "receipt_binds cx (it_receipt turn)"
        and sum: "\<exists>s. validate_decision_summary s (cx_strategy_instructions cx) = Inr summary"
        using ok validate_receipt_binds by (auto simp: rbind_eq_Inr)
      note body = unfolded [unfolded ok sum.case Let_def]
      show thesis
      proof (cases "mt_proposal (it_output turn)")
        case (Some p)
        with body binds sum i Inr show thesis
          by (intro ends [of turn w1]) (auto split: if_splits)
      next
        case None
        show thesis
        proof (cases left)
          case 0
          with body None show thesis by simp
        next
          case (Suc k)
          show thesis
          proof (cases "mt_tool_calls (it_output turn) = []")
            case True
            with body None Suc binds sum i Inr show thesis
              by (intro ends [of turn w1]) auto
          next
            case False
            obtain r2 w2 where t: "run_tools tools (mt_tool_calls (it_output turn)) results w1 = (r2, w2)"
              by fastforce
            with body None Suc False obtain results' where "r2 = Inr results'"
              "cycle_rounds P infer tools cx k results' (receipts @ [it_receipt turn]) w2 = (Inr out, w')"
              by (cases r2) auto
            with t binds i Inr Suc False show thesis by (intro again [of turn w1 k]) simp_all
          qed
        qed
      qed
    qed
  qed
qed

lemma cycle_rounds_ok:
  "cycle_rounds P infer tools cx left results receipts w = (Inr out, w') \<Longrightarrow>
    list_all (receipt_binds cx) receipts \<Longrightarrow>
    outcome_ok cx out \<and> length receipts < length (co_receipts out)
    \<and> length (co_receipts out) \<le> length receipts + left + 1"
proof (induction left arbitrary: results receipts w)
  case 0
  from 0(1) show ?case
  proof (cases rule: cycle_round_Inr)
    case (ends turn w1)
    then show ?thesis using 0(2)
      by (auto simp: outcome_ok_def cycle_order_def split: option.splits)
  qed simp
next
  case (Suc k)
  from Suc.prems(1) show ?case
  proof (cases rule: cycle_round_Inr)
    case (ends turn w1)
    then show ?thesis using Suc.prems(2)
      by (auto simp: outcome_ok_def cycle_order_def split: option.splits)
  next
    case (again turn w1 k' results' w2)
    then show ?thesis using Suc.IH [of results' "receipts @ [it_receipt turn]" w2] Suc.prems(2) by simp
  qed
qed

lemma execute_cycle_rounds:
  assumes "execute_cycle P infer tools cx w = (Inr out, w')"
  shows "cycle_rounds P infer tools cx MAX_TOOL_ROUNDS [] [] w = (Inr out, w')"
  using assms by (auto simp: execute_cycle_def split: sum.splits if_splits)

text \<open>
  C24. A completed cycle rests on one to five model turns, each with a receipt that names this
  arena, run, cycle and model and the turn's output; without a proposal there is no order;
  with one, the order is the policy's verdict on it for the cycle's market and portfolio
  under the arena's rules and capital.
\<close>

theorem cycle_outcome_is_bound:
  assumes "execute_cycle P infer tools cx w = (Inr out, w')"
  shows "1 \<le> length (co_receipts out) \<and> length (co_receipts out) \<le> 5
    \<and> (\<forall>r \<in> set (co_receipts out). receipt_binds cx r)
    \<and> (co_proposal out = None \<longrightarrow> co_order out = None)
    \<and> (\<forall>p. co_proposal out = Some p \<longrightarrow>
         (\<exists>market portfolio. map_of (cx_markets cx) (p_symbol p) = Some market
            \<and> map_of (cx_portfolios cx) (p_symbol p) = Some portfolio
            \<and> co_order out = Some (evaluate_proposal p (cycle_policy_context cx market portfolio))))"
  using cycle_rounds_ok [OF execute_cycle_rounds [OF assms]]
  by (auto simp: outcome_ok_def list_all_iff MAX_TOOL_ROUNDS_def Suc_le_eq)

text \<open>Counting the provider's calls in the world: tools leave the count alone.\<close>

lemma run_tools_count:
  assumes "\<forall>k t a w. map_of tools k = Some t \<longrightarrow> tally (snd (t a w)) = (tally w :: nat)"
  shows "tally (snd (run_tools tools calls results w)) = tally w"
proof (induction calls arbitrary: results w)
  case (Cons call calls)
  show ?case
  proof (cases "map_of tools (tc_tool call)")
    case (Some t)
    obtain r w' where t: "t (tc_arguments call) w = (r, w')" by fastforce
    then have "tally w' = tally w" using assms Some by (metis snd_conv)
    with t Some Cons.IH show ?thesis by (cases r) simp_all
  qed simp
qed simp

lemma cycle_rounds_count:
  assumes tools: "\<And>k t a w. map_of tools k = Some t \<Longrightarrow> tally (snd (t a w)) = (tally w :: nat)"
    and infer: "\<And>req w. tally (snd (infer req w)) \<le> tally w + 1"
  shows "tally (snd (cycle_rounds P infer tools cx left results receipts w)) \<le> tally w + left + 1"
proof (induction left arbitrary: results receipts w)
  case 0
  show ?case using infer [of "turn_request_of cx results" w]
    by (auto simp: cycle_rounds.simps [of _ _ _ _ 0] Let_def
        split: prod.splits sum.splits option.splits)
next
  case (Suc k)
  obtain r w1 where i: "infer (turn_request_of cx results) w = (r, w1)" by fastforce
  then have w1: "tally w1 \<le> tally w + 1" using infer [of "turn_request_of cx results" w] by simp
  obtain r2 w2 where t: "run_tools tools (mt_tool_calls (it_output (projr r))) results w1 = (r2, w2)"
    by fastforce
  then have w2: "tally w2 = tally w1"
    using run_tools_count [of tools tally] tools by (metis snd_conv)
  show ?case
  proof (cases r)
    case (Inl e)
    with i w1 show ?thesis by (simp add: cycle_rounds.simps [of _ _ _ _ "Suc k"])
  next
    case (Inr turn)
    have next_round: "tally (snd (cycle_rounds P infer tools cx k rs recs w2)) \<le> tally w + Suc k + 1"
      for rs recs using Suc.IH [of rs recs w2] w1 w2 by simp
    show ?thesis using i w1 w2 t Inr next_round
      by (auto simp: cycle_rounds.simps [of _ _ _ _ "Suc k"] Let_def
          split: sum.splits option.splits)
  qed
qed

text \<open>
  A cycle makes at most five model calls, whatever the model answers: with a provider
  that is charged at most once per call and tools that call no model, the provider's
  counter grows by five at most, on every outcome.
\<close>

theorem cycle_makes_at_most_five_calls:
  assumes "\<And>k t a w. map_of tools k = Some t \<Longrightarrow> tally (snd (t a w)) = (tally w :: nat)"
    and "\<And>req w. tally (snd (infer req w)) \<le> tally w + 1"
  shows "tally (snd (execute_cycle P infer tools cx w)) \<le> tally w + 5"
proof -
  have "tally (snd (cycle_rounds P infer tools cx MAX_TOOL_ROUNDS [] [] w)) \<le> tally w + MAX_TOOL_ROUNDS + 1"
    using assms by (rule cycle_rounds_count)
  then show ?thesis
    by (auto simp: execute_cycle_def MAX_TOOL_ROUNDS_def split: sum.splits)
qed

section \<open>Concrete cycles\<close>

definition toy_receipt :: inference_receipt where
  "toy_receipt = \<lparr>ir_protocol = HARNESS_PROTOCOL_V1, ir_receipt_id = 1, ir_arena_id = 9,
     ir_run_id = 2, ir_cycle_id = 3, ir_model_id = ''crow-qwen3-5-27b'', ir_model_revision = ''r'',
     ir_runtime_digest = ''d'', ir_input_sha256 = ''json'', ir_output_sha256 = ''json'',
     ir_tool_calls_sha256 = ''json'', ir_input_tokens = 1, ir_output_tokens = 1,
     ir_amount_microcredits = 1, ir_gateway_public_key = ''k'', ir_gateway_signature = ''sig'',
     ir_finalized_at = 0\<rparr>"

text \<open>A provider that counts its calls and answers every one with the given turn.\<close>

definition toy_infer :: "tool_call list \<Rightarrow> proposal option \<Rightarrow> nat inference" where
  "toy_infer calls p req n = (Inr \<lparr>it_output = \<lparr>mt_tool_calls = calls, mt_proposal = p,
     mt_decision_summary = [72, 111, 10, 108, 100]\<rparr>, it_receipt = toy_receipt\<rparr>, Suc n)"

definition toy_cycle :: cycle_context where
  "toy_cycle = \<lparr>cx_manifest = sample_manifest, cx_run_id = 2, cx_cycle_id = 3,
     cx_model_id = ''crow-qwen3-5-27b'', cx_strategy_instructions = [105],
     cx_markets = [(''ETH'', sample_market)], cx_portfolios = [(''ETH'', sample_portfolio)],
     cx_cycle_context = JNull\<rparr>"

definition toy_call :: tool_call where
  "toy_call = \<lparr>tc_call_id = ''c'', tc_tool = MarketSnapshot, tc_arguments = JNull\<rparr>"

definition toy_tools :: "nat tools" where
  "toy_tools = [(MarketSnapshot, \<lambda>a n. (Inr JNull, n))]"

lemma toy_receipt_valid:
  "validate_receipt toy_prims (turn_request_of toy_cycle rs) \<lparr>it_output = out, it_receipt = toy_receipt\<rparr> = Inr ()"
  by (simp add: validate_receipt_def canonical_json_def toy_prims_def turn_request_of_def toy_cycle_def
      toy_receipt_def sample_manifest_def)

lemma toy_cycle_admitted:
  "execute_cycle toy_prims infer tools toy_cycle w
    = cycle_rounds toy_prims infer tools toy_cycle MAX_TOOL_ROUNDS [] [] w"
  using sample_manifest_valid
  by (simp add: execute_cycle_def toy_cycle_def trim_def trim_start_def trim_end_def is_whitespace_def
      ascii_ws_def) (simp add: sample_manifest_def)

lemma toy_strategy: "cx_strategy_instructions toy_cycle = [105]"
  by (simp add: toy_cycle_def)

definition toy_outcome :: cycle_outcome where
  "toy_outcome = \<lparr>co_proposal = Some sample_proposal,
     co_order = Some (evaluate_proposal sample_proposal
       (cycle_policy_context toy_cycle sample_market sample_portfolio)),
     co_decision_summary = [72, 111, 32, 108, 100], co_receipts = [toy_receipt],
     co_tool_results = []\<rparr>"

lemma toy_cycle_runs:
  "execute_cycle toy_prims (toy_infer [] (Some sample_proposal)) toy_tools toy_cycle 0 = (Inr toy_outcome, 1)"
proof -
  have "cycle_order toy_cycle sample_proposal = Inr (evaluate_proposal sample_proposal
       (cycle_policy_context toy_cycle sample_market sample_portfolio))"
    by (simp add: cycle_order_def toy_cycle_def sample_proposal_def)
  then show ?thesis
    by (simp add: toy_cycle_admitted cycle_rounds.simps [of _ _ _ _ MAX_TOOL_ROUNDS] toy_infer_def
        toy_receipt_valid toy_strategy toy_summary toy_outcome_def)
qed

theorem cycle_outcome_is_bound_witness:
  "execute_cycle toy_prims (toy_infer [] (Some sample_proposal)) toy_tools toy_cycle 0 = (Inr toy_outcome, 1)
    \<and> length (co_receipts toy_outcome) \<le> 5 \<and> list_all (receipt_binds toy_cycle) (co_receipts toy_outcome)"
  using cycle_outcome_is_bound [OF toy_cycle_runs] toy_cycle_runs by (simp add: list_all_iff)

text \<open>A model that always asks for a tool is cut off after five calls.\<close>

lemma toy_round:
  "cycle_rounds toy_prims (toy_infer [toy_call] None) toy_tools toy_cycle (Suc k) results receipts n
    = cycle_rounds toy_prims (toy_infer [toy_call] None) toy_tools toy_cycle k
        (results @ [\<lparr>tr_call_id = ''c'', tr_tool = MarketSnapshot, tr_output = JNull\<rparr>])
        (receipts @ [toy_receipt]) (Suc n)"
  by (simp add: cycle_rounds.simps [of _ _ _ _ "Suc k"] toy_infer_def toy_receipt_valid toy_strategy
      toy_summary toy_call_def toy_tools_def)

lemma toy_last_round:
  "cycle_rounds toy_prims (toy_infer [toy_call] None) toy_tools toy_cycle 0 results receipts n
    = (Inl RtToolRoundLimit, Suc n)"
  by (simp add: cycle_rounds.simps [of _ _ _ _ 0] toy_infer_def toy_receipt_valid toy_strategy toy_summary)

lemma toy_looping_cycle:
  "execute_cycle toy_prims (toy_infer [toy_call] None) toy_tools toy_cycle 0 = (Inl RtToolRoundLimit, 5)"
  by (simp add: toy_cycle_admitted MAX_TOOL_ROUNDS_def toy_round toy_last_round eval_nat_numeral)

theorem cycle_makes_at_most_five_calls_witness:
  "execute_cycle toy_prims (toy_infer [toy_call] None) toy_tools toy_cycle 0 = (Inl RtToolRoundLimit, 5)
    \<and> snd (execute_cycle toy_prims (toy_infer [toy_call] None) toy_tools toy_cycle 0) \<le> 0 + 5"
proof -
  have "snd (execute_cycle toy_prims (toy_infer [toy_call] None) toy_tools toy_cycle 0) \<le> 0 + 5"
    by (rule cycle_makes_at_most_five_calls [where tally = "\<lambda>n. n"])
      (auto simp: toy_tools_def toy_infer_def split: if_splits)
  with toy_looping_cycle show ?thesis by blast
qed

end
