(* ===== verification/Decimals.thy ===== *)
theory Decimals
  imports Prelude
begin

text \<open>
  Decimal strings and fixed-point integers, the conversion at the venue boundary of
  \<open>crates/crow-agent-core/src/hyperliquid.rs\<close>: \<open>fixed_decimal\<close> writes a positive fixed-point
  value without trailing zeros, \<open>decimal_string_to_fixed\<close> reads one and refuses digits it
  cannot represent. The decimal notation of the standard library's integers is written out.
\<close>

section \<open>Notation of integers\<close>

definition digit_char :: "nat \<Rightarrow> char" where "digit_char d = char_of (48 + d)"

definition digit_of :: "char \<Rightarrow> nat" where "digit_of c = byte c - 48"

fun digits :: "nat \<Rightarrow> string" where
  "digits n = (if n < 10 then [digit_char n] else digits (n div 10) @ [digit_char (n mod 10)])"

declare digits.simps [simp del]

definition digits_value :: "string \<Rightarrow> nat" where
  "digits_value s = foldl (\<lambda>a c. 10 * a + digit_of c) 0 s"

text \<open>\<open>format!("{n:0w$}")\<close>, and \<open>parse::<i128>\<close> on a string of digits.\<close>

definition pad_digits :: "nat \<Rightarrow> nat \<Rightarrow> string" where
  "pad_digits w n = replicate (w - length (digits n)) (CHR ''0'') @ digits n"

definition parse_i128 :: "string \<Rightarrow> int option" where
  "parse_i128 s = (if s = [] then None else i128_try (int (digits_value s)))"

definition split_once :: "'a \<Rightarrow> 'a list \<Rightarrow> ('a list \<times> 'a list) option" where
  "split_once c s = (case dropWhile (\<lambda>x. x \<noteq> c) s of
     [] \<Rightarrow> None | _ # rest \<Rightarrow> Some (takeWhile (\<lambda>x. x \<noteq> c) s, rest))"

section \<open>The conversions\<close>

datatype decimal_error = Numeric

definition fixed_decimal :: "int \<Rightarrow> nat \<Rightarrow> decimal_error + string" where
  "fixed_decimal value scale =
     (if value \<le> 0 then Inl Numeric
      else rbind (ok_or (i64_try (10 ^ scale)) Numeric) (\<lambda>divisor.
        let whole = value div divisor; fraction = value mod divisor in
        if fraction = 0 then Inr (digits (nat whole))
        else Inr (rev (dropWhile (\<lambda>c. c = CHR ''0'')
                   (rev (digits (nat whole) @ ''.'' @ pad_digits scale (nat fraction)))))))"

definition decimal_places :: "string \<Rightarrow> nat" where
  "decimal_places value = (case split_once (CHR ''.'') value of
     None \<Rightarrow> 0 | Some (_, fraction) \<Rightarrow> length fraction)"

definition decimal_string_to_fixed :: "string \<Rightarrow> nat \<Rightarrow> decimal_error + int" where
  "decimal_string_to_fixed value scale =
     (let negative = starts_with value ''-'';
          unsigned = (if negative then drop 1 value else value);
          (whole, fraction) = (case split_once (CHR ''.'') unsigned of
             None \<Rightarrow> (unsigned, []) | Some p \<Rightarrow> p) in
      if whole = [] \<or> \<not> list_all is_ascii_digit whole \<or> \<not> list_all is_ascii_digit fraction
      then Inl Numeric
      else if scale < length fraction \<and> list_ex (\<lambda>c. c \<noteq> CHR ''0'') (drop scale fraction)
      then Inl Numeric
      else rbind (ok_or (parse_i128 whole) Numeric) (\<lambda>w.
        let kept = take scale fraction;
            fractional = kept @ replicate (scale - length kept) (CHR ''0'') in
        rbind (if fractional = [] then Inr 0 else ok_or (parse_i128 fractional) Numeric) (\<lambda>f.
        rbind (ok_or (i128_try (10 ^ scale)) Numeric) (\<lambda>multiplier.
        rbind (ok_or (i128_try (w * multiplier)) Numeric) (\<lambda>m.
        rbind (ok_or (i128_try (m + f)) Numeric) (\<lambda>fixed.
          ok_or (i64_try (if negative then - fixed else fixed)) Numeric)))))) "

section \<open>Digits\<close>

lemma digit_of_char [simp]: "d < 10 \<Longrightarrow> digit_of (digit_char d) = d"
  by (simp add: digit_of_def digit_char_def byte_def)

lemma is_digit_char [simp]: "d < 10 \<Longrightarrow> is_ascii_digit (digit_char d)"
  by (simp add: is_ascii_digit_def digit_char_def byte_def)

lemma digits_value_Nil [simp]: "digits_value [] = 0"
  by (simp add: digits_value_def)

lemma foldl_digits:
  "foldl (\<lambda>a c. 10 * a + digit_of c) a s = a * 10 ^ length s + digits_value s"
proof (induction s arbitrary: a rule: rev_induct)
  case (snoc c s)
  have "digits_value (s @ [c]) = 10 * digits_value s + digit_of c"
    by (simp add: digits_value_def)
  with snoc [of a] show ?case by (simp add: algebra_simps)
qed simp

lemma digits_value_append:
  "digits_value (s @ t) = digits_value s * 10 ^ length t + digits_value t"
proof -
  have "digits_value (s @ t) = foldl (\<lambda>a c. 10 * a + digit_of c) (digits_value s) t"
    by (simp only: digits_value_def foldl_append)
  then show ?thesis by (simp only: foldl_digits)
qed

lemma digits_value_single [simp]: "digits_value [c] = digit_of c"
  by (simp add: digits_value_def)

lemma digits_value_Cons: "digits_value (c # s) = digit_of c * 10 ^ length s + digits_value s"
  using digits_value_append [of "[c]" s] by simp

lemma digits_ne [simp]: "digits n \<noteq> []"
  by (subst digits.simps) simp

lemma digits_all [simp]: "list_all is_ascii_digit (digits n)"
proof (induction n rule: digits.induct)
  case (1 n)
  then show ?case by (subst digits.simps) auto
qed

lemma digits_value_digits [simp]: "digits_value (digits n) = n"
proof (induction n rule: digits.induct)
  case (1 n)
  show ?case
  proof (cases "n < 10")
    case True
    then show ?thesis by (subst digits.simps) simp
  next
    case False
    with 1 have "digits_value (digits (n div 10) @ [digit_char (n mod 10)]) = n"
      by (simp add: digits_value_append)
    with False show ?thesis by (subst digits.simps) simp
  qed
qed

lemma length_digits: "n < 10 ^ w \<Longrightarrow> 0 < w \<Longrightarrow> length (digits n) \<le> w"
proof (induction n arbitrary: w rule: digits.induct)
  case (1 n)
  show ?case
  proof (cases "n < 10")
    case True
    with 1 show ?thesis by (subst digits.simps) simp
  next
    case False
    with 1(2,3) obtain v where v: "w = Suc v" "0 < v" by (cases w; cases "w - 1") auto
    have "n div 10 < 10 ^ v" using 1(2) v by (simp add: div_less_iff_less_mult mult.commute)
    with 1(1) [OF False _ v(2)] have "length (digits (n div 10)) \<le> v" by simp
    with False v show ?thesis by (subst digits.simps) simp
  qed
qed

lemma is_digit_0 [simp]: "is_ascii_digit (CHR ''0'')"
  by (simp add: is_ascii_digit_def byte_def)

lemma digit_of_0 [simp]: "digit_of (CHR ''0'') = 0"
  by (simp add: digit_of_def byte_def)

lemma digits_value_zeros [simp]: "digits_value (replicate k (CHR ''0'')) = 0"
  by (induction k) (simp_all add: digits_value_Cons)

lemma digits_value_pad [simp]: "digits_value (pad_digits w n) = n"
  by (simp add: pad_digits_def digits_value_append)

lemma zeros_all [simp]: "list_all is_ascii_digit (replicate k (CHR ''0''))"
  by (simp add: list_all_iff)

lemma pad_all [simp]: "list_all is_ascii_digit (pad_digits w n)"
  by (simp add: pad_digits_def)

lemma length_pad: "n < 10 ^ w \<Longrightarrow> 0 < w \<Longrightarrow> length (pad_digits w n) = w"
  using length_digits [of n w] by (simp add: pad_digits_def)

section \<open>The round trip\<close>

lemma is_digit_not_point: "is_ascii_digit c \<Longrightarrow> c \<noteq> CHR ''.'' \<and> c \<noteq> CHR ''-''"
  by (auto simp: is_ascii_digit_def byte_def)

lemma split_once_digits:
  "list_all is_ascii_digit a \<Longrightarrow> split_once (CHR ''.'') (a @ CHR ''.'' # r) = Some (a, r)"
  by (induction a) (auto simp: split_once_def dest: is_digit_not_point split: list.splits)

lemma split_once_none: "list_all is_ascii_digit a \<Longrightarrow> split_once (CHR ''.'') a = None"
proof -
  assume "list_all is_ascii_digit a"
  then have "dropWhile (\<lambda>x. x \<noteq> CHR ''.'') a = []"
    using is_digit_not_point by (auto simp: list_all_iff)
  then show ?thesis by (simp only: split_once_def list.case)
qed

lemma no_sign: "list_all is_ascii_digit a \<Longrightarrow> a \<noteq> [] \<Longrightarrow> \<not> starts_with (a @ r) ''-''"
  by (cases a) (auto dest: is_digit_not_point)

lemma strip_zeros:
  assumes "\<exists>c \<in> set p. c \<noteq> CHR ''0''"
  obtains f k where "p = f @ replicate k (CHR ''0'')" and "f \<noteq> []" and "last f \<noteq> CHR ''0''"
    and "\<And>a. rev (dropWhile (\<lambda>c. c = CHR ''0'') (rev (a @ p))) = a @ f"
proof -
  let ?z = "\<lambda>c. c = CHR ''0''"
  define f where "f = rev (dropWhile ?z (rev p))"
  define k where "k = length (takeWhile ?z (rev p))"
  have z: "takeWhile ?z (rev p) = replicate k (CHR ''0'')"
    by (rule replicate_eqI) (auto simp: k_def dest: set_takeWhileD)
  have "rev p = replicate k (CHR ''0'') @ rev f"
    using z by (metis f_def rev_rev_ident takeWhile_dropWhile_id)
  then have p: "p = f @ replicate k (CHR ''0'')"
    by (metis rev_append rev_replicate rev_rev_ident)
  have ne: "dropWhile ?z (rev p) \<noteq> []" using assms by auto
  then have last: "last f \<noteq> CHR ''0''"
    using hd_dropWhile [of ?z "rev p"] by (auto simp: f_def last_rev)
  have "rev (dropWhile ?z (rev (a @ p))) = a @ f" for a
  proof -
    obtain c where "c \<in> set (rev p)" "\<not> ?z c" using assms by auto
    then have "dropWhile ?z (rev p @ rev a) = dropWhile ?z (rev p) @ rev a"
      by (rule dropWhile_append1)
    then show ?thesis by (simp add: f_def)
  qed
  with p ne last show thesis by (intro that [of f k]) (auto simp: f_def)
qed

lemma digits_value_zeros_only: "(\<forall>c \<in> set s. c = CHR ''0'') \<Longrightarrow> digits_value s = 0"
  by (metis digits_value_zeros replicate_length_same)

lemma parse_digits: "n < 2 ^ 127 \<Longrightarrow> s \<noteq> [] \<Longrightarrow> digits_value s = n \<Longrightarrow> parse_i128 s = Some (int n)"
  by (simp add: parse_i128_def is_i128_def)

lemma fixed_decimal_shape:
  assumes "fixed_decimal v scale = Inr s" and "is_i64 v"
  obtains (whole) "v mod 10 ^ scale = 0" and "s = digits (nat (v div 10 ^ scale))"
  | (parts) f k where "0 < v mod 10 ^ scale" and "0 < scale"
    and "s = digits (nat (v div 10 ^ scale)) @ CHR ''.'' # f"
    and "pad_digits scale (nat (v mod 10 ^ scale)) = f @ replicate k (CHR ''0'')"
    and "f \<noteq> []" and "last f \<noteq> CHR ''0''" and "length f + k = scale"
proof (cases "v mod 10 ^ scale = 0")
  case True
  with assms(1) show thesis
    by (intro whole) (auto simp: fixed_decimal_def Let_def split: if_splits)
next
  case False
  let ?p = "pad_digits scale (nat (v mod 10 ^ scale))"
  have "0 \<le> v mod 10 ^ scale" by simp
  with False have pos: "0 < v mod 10 ^ scale" by linarith
  have sc: "0 < scale" using False by (cases scale) auto
  have lt: "nat (v mod 10 ^ scale) < 10 ^ scale" by (simp add: nat_less_iff)
  have "\<exists>c \<in> set ?p. c \<noteq> CHR ''0''"
  proof (rule ccontr)
    assume "\<not> ?thesis"
    then have "digits_value ?p = 0" by (intro digits_value_zeros_only) auto
    with pos show False by simp
  qed
  then obtain f k where f: "?p = f @ replicate k (CHR ''0'')" "f \<noteq> []" "last f \<noteq> CHR ''0''"
    "\<And>a. rev (dropWhile (\<lambda>c. c = CHR ''0'') (rev (a @ ?p))) = a @ f"
    by (rule strip_zeros) blast
  have "s = rev (dropWhile (\<lambda>c. c = CHR ''0'')
      (rev ((digits (nat (v div 10 ^ scale)) @ ''.'') @ ?p)))"
    using assms(1) False by (auto simp: fixed_decimal_def Let_def split: if_splits)
  then have "s = digits (nat (v div 10 ^ scale)) @ CHR ''.'' # f" by (simp only: f(4)) simp
  moreover have "length f + k = scale" using length_pad [OF lt sc] f(1) by (metis length_append length_replicate)
  ultimately show thesis using pos sc f by (intro parts [of f k])
qed

lemma scale_bound: "fixed_decimal v scale = Inr s \<Longrightarrow> 0 < v \<and> (10 :: int) ^ scale \<le> 9223372036854775807"
  by (auto simp: fixed_decimal_def is_i64_def split: if_splits)

lemma fixed_decimal_places:
  assumes "fixed_decimal v scale = Inr s" and "is_i64 v" and "10 ^ j dvd v" and "j \<le> scale"
  shows "decimal_places s \<le> scale - j"
  using assms(1,2)
proof (cases rule: fixed_decimal_shape)
  case whole
  then show ?thesis by (simp add: decimal_places_def split_once_none)
next
  case (parts f k)
  have "j \<le> k"
  proof (rule ccontr)
    assume "\<not> j \<le> k"
    obtain g c where g: "f = g @ [c]" using parts(5) by (cases f rule: rev_cases) auto
    have "list_all is_ascii_digit (f @ replicate k (CHR ''0''))" using parts(4) by (metis pad_all)
    then have c: "is_ascii_digit c" "c \<noteq> CHR ''0''" using parts(6) g by auto
    then have d: "0 < digit_of c" "digit_of c < 10"
    proof -
      have "of_char c \<noteq> (of_char (CHR ''0'') :: nat)" using c(2) by (simp only: of_char_eq_iff) simp
      then have "of_char c \<noteq> (48 :: nat)" by simp
      then show "0 < digit_of c" "digit_of c < 10"
        using c(1) by (auto simp: is_ascii_digit_def digit_of_def byte_def)
    qed
    have "nat (v mod 10 ^ scale) = digits_value (f @ replicate k (CHR ''0''))"
      using parts(4) by (metis digits_value_pad)
    also have "\<dots> = (digits_value g * 10 + digit_of c) * 10 ^ k"
      by (simp add: digits_value_append digits_value_Cons g algebra_simps)
    finally have F: "nat (v mod 10 ^ scale) = (digits_value g * 10 + digit_of c) * 10 ^ k" .
    have "(10 :: int) ^ j dvd v mod 10 ^ scale"
      using assms(3,4) by (simp add: dvd_mod le_imp_power_dvd)
    then have "(10 :: nat) ^ j dvd nat (v mod 10 ^ scale)"
      using parts(1) by (metis nat_0_le nat_dvd_iff of_nat_dvd_iff order_less_imp_le of_nat_power of_nat_numeral)
    moreover have "(10 :: nat) ^ Suc k dvd 10 ^ j" using \<open>\<not> j \<le> k\<close> by (intro le_imp_power_dvd) simp
    ultimately have "(10 :: nat) * 10 ^ k dvd (digits_value g * 10 + digit_of c) * 10 ^ k"
      using F by (metis dvd_trans power_Suc)
    then have "10 dvd digits_value g * 10 + digit_of c" by simp
    then have "10 dvd digit_of c" by (metis dvd_add_times_triv_left_iff add.commute mult.commute)
    with d show False by (auto dest: dvd_imp_le)
  qed
  then have "length f \<le> scale - j" using parts(7) by simp
  then show ?thesis using parts(3) by (simp add: decimal_places_def split_once_digits)
qed

lemma pad_ne [simp]: "pad_digits w n \<noteq> []"
  by (simp add: pad_digits_def)

lemma is_i128_nonneg: "0 \<le> n \<Longrightarrow> n \<le> 9223372036854775807 \<Longrightarrow> is_i128 n"
  by (simp add: is_i128_def)

lemma fixed_decimal_reads_back:
  assumes "fixed_decimal v scale = Inr s" and i64: "is_i64 v"
  shows "decimal_string_to_fixed s scale = Inr v"
proof -
  let ?D = "10 ^ scale :: int"
  let ?W = "digits (nat (v div ?D))"
  note b = scale_bound [OF assms(1)]
  have nn: "0 \<le> v div ?D" "0 \<le> v mod ?D" "0 < ?D" using b by (simp_all add: pos_imp_zdiv_nonneg_iff)
  have "v div ?D \<le> v" using zdiv_mono2 [of v 1 ?D] b by simp
  then have "v div ?D < 2 ^ 127" using i64 by (simp add: is_i64_def)
  then have W: "nat (v div ?D) < 2 ^ 127" using nn(1) by (simp only: nat_less_iff) simp
  have "v mod ?D < ?D" by simp
  then have "v mod ?D < 9223372036854775807" using b by linarith
  then have "v mod ?D < 2 ^ 127" by simp
  then have F: "nat (v mod ?D) < 2 ^ 127" using nn(2) by (simp only: nat_less_iff) simp
  have pW: "parse_i128 ?W = Some (v div ?D)" using parse_digits [OF W digits_ne] nn by simp
  have i128: "is_i128 ?D" "is_i128 v" "is_i128 (v div ?D * ?D)"
  proof -
    have "v div ?D * ?D + v mod ?D = v" by (rule div_mult_mod_eq)
    then have "v div ?D * ?D \<le> v" using nn(2) by linarith
    moreover have "0 \<le> v div ?D * ?D" using nn by simp
    ultimately have "0 \<le> v div ?D * ?D" "v div ?D * ?D \<le> v" by simp_all
    moreover have "v \<le> 9223372036854775807" using i64 by (simp add: is_i64_def)
    ultimately show "is_i128 ?D" "is_i128 v" "is_i128 (v div ?D * ?D)"
      using b nn(3) by (auto intro!: is_i128_nonneg)
  qed
  from assms show ?thesis
  proof (cases rule: fixed_decimal_shape)
    case whole
    have eq: "v div ?D * ?D + 0 = v" using whole(1) by (metis div_mult_mod_eq)
    have z: "0 < scale \<Longrightarrow> parse_i128 (replicate scale (CHR ''0'')) = Some 0"
      by (simp add: parse_i128_def is_i128_def)
    have "\<not> starts_with ?W ''-''" using no_sign [of ?W "[]"] by simp
    then show ?thesis using pW z i128 eq whole(2) i64
      by (cases "scale = 0")
        (simp_all add: decimal_string_to_fixed_def split_once_none i128_try_is i64_try_is)
  next
    case (parts f k)
    have all: "list_all is_ascii_digit f"
      using parts(4) pad_all [of scale "nat (v mod ?D)"] by simp
    have p: "f @ replicate (scale - length f) (CHR ''0'') = pad_digits scale (nat (v mod ?D))"
      using parts(4,7) by (metis add_diff_cancel_left')
    have pF: "parse_i128 (pad_digits scale (nat (v mod ?D))) = Some (v mod ?D)"
      using parse_digits [OF F pad_ne digits_value_pad] nn by simp
    have "\<not> starts_with (?W @ CHR ''.'' # f) ''-''" using no_sign [of ?W] by simp
    moreover have "length f \<le> scale" using parts(7) by simp
    moreover have "v div ?D * ?D + v mod ?D = v" by (rule div_mult_mod_eq)
    ultimately show ?thesis using pW pF p i128 i64 parts(2,3,5) all
      by (simp add: decimal_string_to_fixed_def split_once_digits i128_try_is i64_try_is)
  qed
qed

text \<open>
  A positive fixed-point price or size written for the venue reads back as the same
  value, with at most \<open>scale\<close> decimals and as few as the value needs: a multiple of
  \<open>10 ^ j\<close> is written with at most \<open>scale - j\<close>.
\<close>

theorem fixed_decimal_round_trip:
  assumes "is_i64 v" and "fixed_decimal v scale = Inr s"
  shows "decimal_string_to_fixed s scale = Inr v
    \<and> (\<forall>j \<le> scale. 10 ^ j dvd v \<longrightarrow> decimal_places s \<le> scale - j)"
  using fixed_decimal_reads_back [OF assms(2,1)] fixed_decimal_places [OF assms(2,1)] by blast

lemma digit_chars [simp]:
  "char_of (48 :: nat) = CHR ''0''" "char_of (49 :: nat) = CHR ''1''" "char_of (50 :: nat) = CHR ''2''"
  "char_of (51 :: nat) = CHR ''3''" "char_of (52 :: nat) = CHR ''4''" "char_of (53 :: nat) = CHR ''5''"
  "char_of (54 :: nat) = CHR ''6''" "char_of (55 :: nat) = CHR ''7''" "char_of (56 :: nat) = CHR ''8''"
  "char_of (57 :: nat) = CHR ''9''"
  by code_simp+

lemma sample_decimal: "fixed_decimal 123450000 8 = Inr ''1.2345''"
  by (simp add: fixed_decimal_def i64_try_def is_i64_def digits.simps pad_digits_def digit_char_def)

theorem fixed_decimal_round_trip_witness:
  "fixed_decimal 123450000 8 = Inr ''1.2345'' \<and> decimal_string_to_fixed ''1.2345'' 8 = Inr 123450000
    \<and> decimal_places ''1.2345'' \<le> 8 - 4"
proof -
  have i: "is_i64 123450000" by (simp add: is_i64_def)
  have "\<forall>j \<le> 8. 10 ^ j dvd (123450000 :: int) \<longrightarrow> decimal_places ''1.2345'' \<le> 8 - j"
    using fixed_decimal_round_trip [OF i sample_decimal] by blast
  then have "decimal_places ''1.2345'' \<le> 8 - 4" by (elim allE [of _ 4]) simp
  with fixed_decimal_round_trip [OF i sample_decimal] sample_decimal show ?thesis by blast
qed

end
