(* ===== verification/Venue.thy ===== *)
theory Venue
  imports Policy Decimals Protocol
begin

text \<open>
  The venue's data and arithmetic, \<open>crates/crow-agent-core/src/hyperliquid.rs\<close>: order books
  and the marketable IOC limit, the request budget, the discovered assets, market snapshots
  and the IOC request. A price or size the venue sends is its decimal text; an SDK
  \<open>Decimal\<close> is its normalized text, and the SDK's operations on it are the record
  \<open>decimal_ops\<close>. Times are arguments.
\<close>

section \<open>Data\<close>

datatype hl_error =
    HlSdk | HlWallet | HlMetadata | HlSymbol | HlNumeric | HlRateLimit | HlStreamClosed
  | HlBook | HlSnapshot | HlIocInvariant

record core_asset =
  ca_symbol :: string
  ca_asset_index :: u32
  ca_size_decimals :: u8
  ca_max_leverage :: u32

record book_level =
  bl_price :: string
  bl_size :: string
  bl_order_count :: u64

record book_snapshot =
  bk_symbol :: string
  bk_venue_time_ms :: u64
  bk_bids :: "book_level list"
  bk_asks :: "book_level list"

record market_snapshot =
  ms_market :: market_state
  ms_book :: book_snapshot

definition to_fixed :: "string \<Rightarrow> nat \<Rightarrow> hl_error + int" where
  "to_fixed value scale = map_err (\<lambda>_. HlNumeric) (decimal_string_to_fixed value scale)"

section \<open>Books\<close>

definition is_fresh_at :: "book_snapshot \<Rightarrow> u64 \<Rightarrow> nat \<Rightarrow> bool" where
  "is_fresh_at b now_ms maximum_age_ms \<longleftrightarrow> bk_venue_time_ms b \<le> now_ms
     \<and> now_ms - bk_venue_time_ms b
         \<le> (if maximum_age_ms < 2 ^ 64 then of_nat maximum_age_ms else - 1)"

definition within_market_slippage :: "side \<Rightarrow> int \<Rightarrow> int \<Rightarrow> bool" where
  "within_market_slippage sd best candidate =
     (case sd of Buy \<Rightarrow> candidate * 10000 \<le> best * (10000 + 500)
               | Sell \<Rightarrow> best * (10000 - 500) \<le> candidate * 10000)"

definition opposing_levels :: "book_snapshot \<Rightarrow> side \<Rightarrow> hl_error + book_level list" where
  "opposing_levels b sd = (let levels = (case sd of Buy \<Rightarrow> bk_asks b | Sell \<Rightarrow> bk_bids b) in
     if levels = [] then Inl HlBook else Inr levels)"

definition opposing_top_price :: "book_snapshot \<Rightarrow> side \<Rightarrow> hl_error + int" where
  "opposing_top_price b sd =
     rbind (opposing_levels b sd) (\<lambda>levels.
     rbind (to_fixed (bl_price (hd levels)) 6) (\<lambda>best.
       if best \<le> 0 then Inl HlBook else Inr best))"

fun limit_loop :: "side \<Rightarrow> int \<Rightarrow> int \<Rightarrow> book_level list \<Rightarrow> hl_error + int" where
  "limit_loop sd best limit [] = Inr limit"
| "limit_loop sd best limit (l # ls) =
     rbind (to_fixed (bl_price l) 6) (\<lambda>price.
       if price \<le> 0 then Inl HlBook
       else if \<not> within_market_slippage sd best price then Inr limit
       else limit_loop sd best price ls)"

definition marketable_limit_price :: "book_snapshot \<Rightarrow> side \<Rightarrow> hl_error + int" where
  "marketable_limit_price b sd =
     rbind (opposing_levels b sd) (\<lambda>levels.
     rbind (to_fixed (bl_price (hd levels)) 6) (\<lambda>best.
       if best \<le> 0 then Inl HlBook else limit_loop sd best best levels))"

fun depth_loop :: "side \<Rightarrow> int \<Rightarrow> int \<Rightarrow> book_level list \<Rightarrow> hl_error + int" where
  "depth_loop sd best depth [] = Inr depth"
| "depth_loop sd best depth (l # ls) =
     rbind (to_fixed (bl_price l) 6) (\<lambda>price.
     rbind (to_fixed (bl_size l) 8) (\<lambda>quantity.
       if price \<le> 0 \<or> quantity \<le> 0 then Inl HlBook
       else if \<not> within_market_slippage sd best price then Inr depth
       else rbind (ok_or (i128_try (price * quantity)) HlNumeric) (\<lambda>product.
            rbind (ok_or (i128_try (depth + product sdiv 100000000)) HlNumeric) (\<lambda>depth'.
              depth_loop sd best depth' ls))))"

definition marketable_depth :: "book_snapshot \<Rightarrow> side \<Rightarrow> hl_error + int" where
  "marketable_depth b sd =
     rbind (opposing_levels b sd) (\<lambda>levels.
     rbind (to_fixed (bl_price (hd levels)) 6) (\<lambda>best.
       if best \<le> 0 then Inl HlBook
       else rbind (depth_loop sd best 0 levels) (\<lambda>depth. ok_or (i64_try depth) HlNumeric)))"

text \<open>The venue's levels, as (price, size, count) with the SDK's count conversion.\<close>

definition normalized_level :: "string \<times> string \<times> nat \<Rightarrow> book_level" where
  "normalized_level l = (case l of (px, sz, n) \<Rightarrow> \<lparr>bl_price = px, bl_size = sz,
     bl_order_count = (if n < 2 ^ 64 then of_nat n else - 1)\<rparr>)"

definition book_from_parts ::
    "string \<Rightarrow> u64 \<Rightarrow> (string \<times> string \<times> nat) list list \<Rightarrow> hl_error + book_snapshot" where
  "book_from_parts tkr venue_time_ms levels =
     (if \<not> List.member ALLOWED_SYMBOLS tkr \<or> length levels \<noteq> 2 then Inl HlBook
      else Inr \<lparr>bk_symbol = tkr, bk_venue_time_ms = venue_time_ms,
                bk_bids = map normalized_level (levels ! 0),
                bk_asks = map normalized_level (levels ! 1)\<rparr>)"

section \<open>The request budget\<close>

text \<open>Instants are nanoseconds of a monotonic clock.\<close>

record request_budget =
  rq_opened_at :: int
  rq_used :: u16

definition REST_WEIGHT_PER_MINUTE :: u16 where "REST_WEIGHT_PER_MINUTE = 1000"

definition new_budget :: "int \<Rightarrow> request_budget" where
  "new_budget now = \<lparr>rq_opened_at = now, rq_used = 0\<rparr>"

definition consume :: "int \<Rightarrow> u16 \<Rightarrow> request_budget \<Rightarrow> (hl_error + unit) \<times> request_budget" where
  "consume now weight b =
     (let b1 = (if 60000000000 \<le> now - rq_opened_at b
                then b\<lparr>rq_opened_at := now, rq_used := 0\<rparr> else b) in
      if REST_WEIGHT_PER_MINUTE < sat_add (rq_used b1) weight then (Inl HlRateLimit, b1)
      else (Inr (), b1\<lparr>rq_used := rq_used b1 + weight\<rparr>))"

section \<open>Assets\<close>

definition u32_try :: "int \<Rightarrow> u32 option" where
  "u32_try n = (if 0 \<le> n \<and> n < 4294967296 then Some (word_of_int n) else None)"

definition u8_try :: "int \<Rightarrow> u8 option" where
  "u8_try n = (if 0 \<le> n \<and> n < 256 then Some (word_of_int n) else None)"

type_synonym assets = "(string \<times> core_asset) list"

definition discover_core_assets :: "(string \<times> nat \<times> int \<times> u64) list \<Rightarrow> hl_error + assets" where
  "discover_core_assets markets =
     rbind (rfold (\<lambda>found m. case m of (name, index, decimals, leverage) \<Rightarrow>
        if List.member ALLOWED_SYMBOLS name
        then rbind (ok_or (u32_try (int index)) HlMetadata) (\<lambda>i.
             rbind (ok_or (u8_try decimals) HlMetadata) (\<lambda>d.
             rbind (ok_or (u32_try (uint leverage)) HlMetadata) (\<lambda>l.
               Inr (bt_insert name \<lparr>ca_symbol = name, ca_asset_index = i, ca_size_decimals = d,
                                    ca_max_leverage = l\<rparr> found))))
        else Inr found) [] markets) (\<lambda>found.
       if length found \<noteq> length ALLOWED_SYMBOLS then Inl HlMetadata else Inr found)"

section \<open>Market snapshots\<close>

definition market_snapshot_from_parts ::
    "core_asset \<Rightarrow> string \<Rightarrow> string \<Rightarrow> book_snapshot \<Rightarrow> u64 \<Rightarrow> hl_error + market_snapshot" where
  "market_snapshot_from_parts asset mark_px oracle_px b now_ms =
     (if bk_bids b = [] \<or> bk_asks b = [] then Inl HlBook
      else rbind (to_fixed (bl_price (hd (bk_bids b))) 6) (\<lambda>bid_price.
      rbind (to_fixed (bl_price (hd (bk_asks b))) 6) (\<lambda>ask_price.
      if bid_price \<le> 0 \<or> ask_price < bid_price \<or> now_ms < bk_venue_time_ms b then Inl HlBook
      else rbind (ok_or (i64_try (bid_price + ask_price)) HlNumeric) (\<lambda>total.
      rbind (ok_or (i64_try (((ask_price - bid_price) * 10000) sdiv (total sdiv 2))) HlNumeric) (\<lambda>spread.
      rbind (marketable_depth b Sell) (\<lambda>bid_depth.
      rbind (marketable_depth b Buy) (\<lambda>ask_depth.
      rbind (to_fixed mark_px 6) (\<lambda>mark.
      rbind (to_fixed oracle_px 6) (\<lambda>oracle.
      rbind (ok_or (u16_try spread) HlNumeric) (\<lambda>spread_u16.
        Inr \<lparr>ms_market = \<lparr>mk_symbol = ca_symbol asset, mark_price = mark, oracle_price = oracle,
               spread_bps = spread_u16,
               book_age_seconds = (case u16_try (uint ((now_ms - bk_venue_time_ms b) div 1000)) of
                                     Some a \<Rightarrow> a | None \<Rightarrow> - 1),
               ask_depth = ask_depth, bid_depth = bid_depth,
               size_decimals = ca_size_decimals asset, delisted = False\<rparr>,
             ms_book = b\<rparr>))))))))))"

section \<open>Orders\<close>

record ioc_request =
  io_asset :: u32
  io_is_buy :: bool
  io_reduce_only :: bool
  io_limit_px :: string
  io_sz :: string
  io_cloid :: string
  io_tif :: string

text \<open>\<open>parse_decimal\<close> is whether the SDK's \<open>Decimal\<close> parses the text.\<close>

definition build_ioc_request ::
    "(string \<Rightarrow> bool) \<Rightarrow> order_decision \<Rightarrow> assets \<Rightarrow> string \<Rightarrow> hl_error + ioc_request" where
  "build_ioc_request parse_decimal order found cloid =
     rbind (ok_or (map_of found (o_symbol order)) HlSymbol) (\<lambda>asset.
     rbind (map_err (\<lambda>_. HlNumeric) (fixed_decimal (o_limit_price order) 6)) (\<lambda>limit_px.
     rbind (map_err (\<lambda>_. HlNumeric) (fixed_decimal (o_quantity_e8 order) 8)) (\<lambda>size.
       if \<not> parse_decimal limit_px then Inl HlNumeric
       else if \<not> parse_decimal size then Inl HlNumeric
       else if unat (ca_size_decimals asset) < decimal_places size then Inl HlNumeric
       else Inr \<lparr>io_asset = ca_asset_index asset, io_is_buy = (o_side order = Buy),
                 io_reduce_only = o_reduce_only order, io_limit_px = limit_px, io_sz = size,
                 io_cloid = cloid, io_tif = ''Ioc''\<rparr>)))"

definition display_safe_venue_rejection :: "string \<Rightarrow> string" where
  "display_safe_venue_rejection message =
     (let m = map to_ascii_lower message in
      if contains_sub m ''immediately match'' \<or> contains_sub m ''would not fill'' then ''ioc_would_not_fill''
      else if contains_sub m ''insufficient margin'' then ''insufficient_margin''
      else if contains_sub m ''reduce only'' \<or> contains_sub m ''reduce-only'' then ''invalid_reduce_only''
      else if contains_sub m ''minimum'' \<and> contains_sub m ''notional'' then ''minimum_notional''
      else if contains_sub m ''price'' then ''invalid_price''
      else if contains_sub m ''size'' then ''invalid_size''
      else ''venue_rejected'')"

section \<open>Accounts\<close>

record position_snapshot =
  ps_symbol :: string
  ps_quantity_e8 :: int
  ps_notional :: int
  ps_entry_price :: "int option"
  ps_unrealized_pnl :: int
  ps_isolated :: bool
  ps_leverage :: u32

record account_snapshot =
  as_venue_time_ms :: u64
  as_equity :: int
  as_withdrawable :: int
  as_positions :: "(string \<times> position_snapshot) list"

record decimal_ops =
  dec_is_zero :: "string \<Rightarrow> bool"
  dec_negative :: "string \<Rightarrow> bool"
  dec_abs :: "string \<Rightarrow> string"
  dec_less :: "string \<Rightarrow> string \<Rightarrow> bool"
  dec_available :: "string \<Rightarrow> string \<Rightarrow> string"

record venue_position =
  vp_coin :: string
  vp_szi :: string
  vp_position_value :: string
  vp_entry_px :: "string option"
  vp_unrealized_pnl :: string
  vp_isolated :: bool
  vp_leverage :: u32

text \<open>A spot balance is its coin, total and hold; \<open>dec_available\<close> is the SDK's \<open>available()\<close>.\<close>

definition account_collateral ::
    "decimal_ops \<Rightarrow> bool \<Rightarrow> string \<Rightarrow> string \<Rightarrow> (string \<times> string \<times> string) list
      \<Rightarrow> hl_error + int \<times> int" where
  "account_collateral D standard standard_equity standard_withdrawable spot_balances =
     (if standard
      then rbind (to_fixed standard_equity 6) (\<lambda>e.
           rbind (to_fixed standard_withdrawable 6) (\<lambda>w. Inr (e, w)))
      else rbind (ok_or (find (\<lambda>b. fst b = ''USDC'') spot_balances) HlSnapshot) (\<lambda>b.
        case b of (_, owned, hold) \<Rightarrow>
          if dec_negative D owned \<or> dec_negative D hold \<or> dec_less D owned hold then Inl HlSnapshot
          else rbind (to_fixed owned 6) (\<lambda>e.
               rbind (to_fixed (dec_available D owned hold) 6) (\<lambda>w. Inr (e, w)))))"

definition position_of :: "decimal_ops \<Rightarrow> venue_position \<Rightarrow> hl_error + position_snapshot" where
  "position_of D v =
     rbind (to_fixed (vp_szi v) 8) (\<lambda>quantity.
     rbind (to_fixed (dec_abs D (vp_position_value v)) 6) (\<lambda>notional.
     rbind (case vp_entry_px v of None \<Rightarrow> Inr None
              | Some px \<Rightarrow> rbind (to_fixed px 6) (\<lambda>e. Inr (Some e))) (\<lambda>entry.
     rbind (to_fixed (vp_unrealized_pnl v) 6) (\<lambda>pnl.
       Inr \<lparr>ps_symbol = vp_coin v, ps_quantity_e8 = quantity, ps_notional = notional,
            ps_entry_price = entry, ps_unrealized_pnl = pnl, ps_isolated = vp_isolated v,
            ps_leverage = vp_leverage v\<rparr>))))"

definition account_positions ::
    "decimal_ops \<Rightarrow> venue_position list \<Rightarrow> hl_error + (string \<times> position_snapshot) list" where
  "account_positions D vs = rfold (\<lambda>m v.
     if \<not> List.member ALLOWED_SYMBOLS (vp_coin v) \<or> dec_is_zero D (vp_szi v) then Inr m
     else rbind (position_of D v) (\<lambda>p. Inr (bt_insert (vp_coin v) p m))) [] vs"

section \<open>The IOC limit\<close>

lemma limit_loop_Inr:
  "limit_loop sd best limit ls = Inr r \<Longrightarrow> within_market_slippage sd best limit \<Longrightarrow> 0 < limit \<Longrightarrow>
    within_market_slippage sd best r \<and> 0 < r
    \<and> (r = limit \<or> (\<exists>l \<in> set ls. to_fixed (bl_price l) 6 = Inr r))"
proof (induction ls arbitrary: limit)
  case (Cons l ls)
  then obtain price where p: "to_fixed (bl_price l) 6 = Inr price" "0 < price"
    by (auto split: if_splits)
  show ?case
  proof (cases "within_market_slippage sd best price")
    case True
    with Cons.prems(1) p have "limit_loop sd best price ls = Inr r" by simp
    from Cons.IH [OF this True p(2)] p show ?thesis by auto
  next
    case False
    with Cons.prems p show ?thesis by simp
  qed
qed simp

text \<open>
  The limit of a marketable order is a price the venue displays on the opposing side, no
  more than five percent worse than the best opposing quote.
\<close>

theorem ioc_limit_within_slippage:
  assumes "marketable_limit_price b sd = Inr limit"
  shows "\<exists>best. opposing_top_price b sd = Inr best \<and> 0 < best \<and> 0 < limit
    \<and> (\<exists>l \<in> set (case sd of Buy \<Rightarrow> bk_asks b | Sell \<Rightarrow> bk_bids b). to_fixed (bl_price l) 6 = Inr limit)
    \<and> (case sd of Buy \<Rightarrow> limit * 100 \<le> best * 105 | Sell \<Rightarrow> best * 95 \<le> limit * 100)"
proof -
  from assms obtain levels best where
    levels: "opposing_levels b sd = Inr levels" and best: "to_fixed (bl_price (hd levels)) 6 = Inr best"
    and pos: "0 < best" and loop: "limit_loop sd best best levels = Inr limit"
    by (auto simp: marketable_limit_price_def split: if_splits)
  have ne: "levels \<noteq> []" "levels = (case sd of Buy \<Rightarrow> bk_asks b | Sell \<Rightarrow> bk_bids b)"
    using levels by (auto simp: opposing_levels_def Let_def split: if_splits)
  have "within_market_slippage sd best best"
    using pos by (simp add: within_market_slippage_def split: side.splits)
  from limit_loop_Inr [OF loop this pos]
  have r: "within_market_slippage sd best limit" "0 < limit"
    "limit = best \<or> (\<exists>l \<in> set levels. to_fixed (bl_price l) 6 = Inr limit)" by auto
  have "hd levels \<in> set levels" using ne(1) by simp
  with r(3) best have "\<exists>l \<in> set levels. to_fixed (bl_price l) 6 = Inr limit" by metis
  moreover have "opposing_top_price b sd = Inr best"
    using levels best pos by (simp add: opposing_top_price_def)
  ultimately show ?thesis using r(1,2) pos ne(2)
    by (intro exI [of _ best]) (cases sd; simp add: within_market_slippage_def)
qed

definition sample_book :: book_snapshot where
  "sample_book = \<lparr>bk_symbol = ''ETH'', bk_venue_time_ms = 1000,
     bk_bids = [\<lparr>bl_price = ''1999'', bl_size = ''3'', bl_order_count = 1\<rparr>],
     bk_asks = [\<lparr>bl_price = ''2000'', bl_size = ''1'', bl_order_count = 1\<rparr>,
                \<lparr>bl_price = ''2050.5'', bl_size = ''2'', bl_order_count = 1\<rparr>,
                \<lparr>bl_price = ''2200'', bl_size = ''9'', bl_order_count = 1\<rparr>]\<rparr>"

lemma sample_prices:
  "to_fixed ''2000'' 6 = Inr 2000000000" "to_fixed ''2050.5'' 6 = Inr 2050500000"
  "to_fixed ''2200'' 6 = Inr 2200000000" "to_fixed ''1999'' 6 = Inr 1999000000"
  by (simp_all add: to_fixed_def decimal_string_to_fixed_def split_once_def is_ascii_digit_def byte_def
      parse_i128_def digits_value_Cons digit_of_def i128_try_def is_i128_def i64_try_def is_i64_def)

lemma sample_limit: "marketable_limit_price sample_book Buy = Inr 2050500000"
  by (simp add: marketable_limit_price_def sample_book_def opposing_levels_def sample_prices
      within_market_slippage_def)

theorem ioc_limit_within_slippage_witness:
  "marketable_limit_price sample_book Buy = Inr 2050500000
    \<and> (\<exists>best. opposing_top_price sample_book Buy = Inr best \<and> 2050500000 * 100 \<le> best * 105)"
  using ioc_limit_within_slippage [OF sample_limit] sample_limit by auto

section \<open>The budget\<close>

text \<open>A run of requests, each a time and a weight; the weights granted add up in the first
  component.\<close>

fun consume_all :: "(int \<times> u16) list \<Rightarrow> nat \<times> request_budget \<Rightarrow> nat \<times> request_budget" where
  "consume_all [] s = s"
| "consume_all ((now, weight) # rs) (granted, b) =
     (case consume now weight b of
        (Inr _, b') \<Rightarrow> consume_all rs (granted + unat weight, b')
      | (Inl _, b') \<Rightarrow> consume_all rs (granted, b'))"

definition budget_inv :: "int \<Rightarrow> int \<Rightarrow> nat \<times> request_budget \<Rightarrow> bool" where
  "budget_inv start now s \<longleftrightarrow> (\<exists>w. start + 60000000000 * int w \<le> rq_opened_at (snd s)
     \<and> rq_opened_at (snd s) \<le> now \<and> unat (rq_used (snd s)) \<le> 1000
     \<and> fst s \<le> 1000 * w + unat (rq_used (snd s)))"

lemma consume_cases:
  fixes b :: request_budget and now :: int
  defines "b1 \<equiv> (if 60000000000 \<le> now - rq_opened_at b
                then b\<lparr>rq_opened_at := now, rq_used := 0\<rparr> else b)"
  shows "consume now weight b = (if unat (rq_used b1) + unat weight \<le> 1000
    then (Inr (), b1\<lparr>rq_used := rq_used b1 + weight\<rparr>) else (Inl HlRateLimit, b1))"
proof -
  have "unat (rq_used b1) < 65536" "unat weight < 65536"
    using unsigned_less [of "rq_used b1"] unsigned_less [of weight] by simp_all
  then have "REST_WEIGHT_PER_MINUTE < sat_add (rq_used b1) weight
      \<longleftrightarrow> 1000 < unat (rq_used b1) + unat weight"
    by (auto simp: word_less_nat_alt unat_sat_add REST_WEIGHT_PER_MINUTE_def)
  then show ?thesis by (auto simp: consume_def b1_def Let_def)
qed

lemma budget_step:
  assumes inv: "budget_inv start t (g, b)" and "t \<le> now"
  shows "budget_inv start now (case consume now weight b of
      (Inr _, b') \<Rightarrow> (g + unat weight, b') | (Inl _, b') \<Rightarrow> (g, b'))"
proof -
  define b1 where "b1 = (if 60000000000 \<le> now - rq_opened_at b
                then b\<lparr>rq_opened_at := now, rq_used := 0\<rparr> else b)"
  obtain w where w: "start + 60000000000 * int w \<le> rq_opened_at b" "rq_opened_at b \<le> t"
    "unat (rq_used b) \<le> 1000" "g \<le> 1000 * w + unat (rq_used b)"
    using inv by (auto simp: budget_inv_def)
  have b1: "budget_inv start now (g, b1)"
  proof (cases "60000000000 \<le> now - rq_opened_at b")
    case True
    with w show ?thesis
      by (auto simp: budget_inv_def b1_def intro!: exI [of _ "Suc w"])
  next
    case False
    with w assms(2) show ?thesis by (auto simp: budget_inv_def b1_def intro!: exI [of _ w])
  qed
  show ?thesis
  proof (cases "unat (rq_used b1) + unat weight \<le> 1000")
    case True
    then have "unat (rq_used b1 + weight) = unat (rq_used b1) + unat weight"
      by (simp add: unat_word_ariths)
    with b1 True show ?thesis
      by (auto simp: consume_cases [of now weight b, folded b1_def] budget_inv_def)
  next
    case False
    with b1 show ?thesis by (simp add: consume_cases [of now weight b, folded b1_def])
  qed
qed

lemma consume_all_inv:
  assumes "budget_inv start t s" and "sorted (t # map fst rs)"
  shows "budget_inv start (last (t # map fst rs)) (consume_all rs s)"
  using assms
proof (induction rs arbitrary: t s)
  case (Cons r rs)
  obtain now weight where r: "r = (now, weight)" by (cases r)
  obtain g b where s: "s = (g, b)" by (cases s)
  have "budget_inv start now (case consume now weight b of
      (Inr _, b') \<Rightarrow> (g + unat weight, b') | (Inl _, b') \<Rightarrow> (g, b'))"
    using Cons.prems by (intro budget_step [of start t]) (auto simp: r s)
  moreover have "sorted (now # map fst rs)" using Cons.prems(2) by (simp add: r)
  ultimately have "budget_inv start (last (now # map fst rs)) (consume_all rs
      (case consume now weight b of (Inr _, b') \<Rightarrow> (g + unat weight, b') | (Inl _, b') \<Rightarrow> (g, b')))"
    by (rule Cons.IH)
  then show ?case by (cases "rs = []") (simp_all add: r s split: prod.splits sum.splits)
qed simp

text \<open>
  The request budget never grants more than 1000 units of weight per started minute:
  over any run of requests at nondecreasing times the granted weight is at most 1000 for the
  first window and 1000 for every full minute that has passed since it opened.
\<close>

theorem budget_limits_rate:
  assumes "sorted (start # map fst rs)"
  shows "fst (consume_all rs (0, new_budget start))
    \<le> 1000 * (1 + nat ((last (start # map fst rs) - start) div 60000000000))"
proof -
  have "budget_inv start start (0, new_budget start)"
    by (auto simp: budget_inv_def new_budget_def intro!: exI [of _ 0])
  from consume_all_inv [OF this assms] obtain w where
    w: "start + 60000000000 * int w \<le> rq_opened_at (snd (consume_all rs (0, new_budget start)))"
      "rq_opened_at (snd (consume_all rs (0, new_budget start))) \<le> last (start # map fst rs)"
    and used: "unat (rq_used (snd (consume_all rs (0, new_budget start)))) \<le> 1000"
    "fst (consume_all rs (0, new_budget start))
      \<le> 1000 * w + unat (rq_used (snd (consume_all rs (0, new_budget start))))"
    unfolding budget_inv_def by blast
  have "int w * 60000000000 \<le> last (start # map fst rs) - start" using w by linarith
  then have "int w \<le> (last (start # map fst rs) - start) div 60000000000"
    by (simp only: le_div_iff_int)
  then have n: "w \<le> nat ((last (start # map fst rs) - start) div 60000000000)" by linarith
  have "fst (consume_all rs (0, new_budget start)) \<le> 1000 * (1 + w)" using used by simp
  also have "\<dots> \<le> 1000 * (1 + nat ((last (start # map fst rs) - start) div 60000000000))"
    using n by (intro mult_le_mono2 add_left_mono)
  finally show ?thesis .
qed

theorem budget_limits_rate_witness:
  "fst (consume_all [(0, 600), (1, 600), (60000000000, 600)] (0, new_budget 0)) \<le> 1000 * (1 + 1)"
  using budget_limits_rate [of 0 "[(0, 600), (1, 600), (60000000000, 600)]"] by simp

section \<open>Sending an accepted order\<close>

lemma fixed_decimal_some:
  "0 < v \<Longrightarrow> scale \<le> 8 \<Longrightarrow> \<exists>s. fixed_decimal v scale = Inr s"
proof -
  assume v: "0 < v" and "scale \<le> 8"
  then have "(10 :: int) ^ scale \<le> 10 ^ 8" by (intro power_increasing) auto
  then have "is_i64 (10 ^ scale)" by (simp add: is_i64_def order_trans [of _ 0])
  with v show ?thesis by (auto simp: fixed_decimal_def Let_def i64_try_is)
qed

text \<open>
  Every order the policy accepts can be sent: for an asset with the size decimals the
  policy used, the IOC request is built, and its price and size are texts that read back as
  exactly the accepted limit price and quantity, on the accepted side.
\<close>

theorem accepted_order_is_sendable:
  assumes ev: "evaluate_proposal p c = Inr d" and i64: "is_i64 (p_limit_price p)"
    and asset: "map_of found (o_symbol d) = Some asset"
    and dec: "ca_size_decimals asset = size_decimals (pc_market c)"
    and parse: "\<And>v k s. fixed_decimal v k = Inr s \<Longrightarrow> parse_decimal s"
  shows "\<exists>r. build_ioc_request parse_decimal d found cloid = Inr r
    \<and> decimal_string_to_fixed (io_limit_px r) 6 = Inr (o_limit_price d)
    \<and> decimal_string_to_fixed (io_sz r) 8 = Inr (o_quantity_e8 d)
    \<and> io_is_buy r = (o_side d = Buy) \<and> io_reduce_only r = o_reduce_only d
    \<and> io_asset r = ca_asset_index asset"
proof -
  from ev obtain e where adm: "admission p c = Inr ()"
    and size: "size_order p c = Inr (o_quantity_e8 d, o_actual_notional d)"
    and price: "o_limit_price d = p_limit_price p"
    by (rule evaluate_InrE)
  note s = size_order_Inr [OF size adm]
  have pos: "0 < o_limit_price d" using admission_Inr(3) [OF adm] price by simp
  obtain px where px: "fixed_decimal (o_limit_price d) 6 = Inr px"
    using fixed_decimal_some [OF pos, of 6] by auto
  obtain sz where sz: "fixed_decimal (o_quantity_e8 d) 8 = Inr sz"
    using fixed_decimal_some [OF s(4), of 8] by auto
  have i: "is_i64 (o_limit_price d)" using i64 price by simp
  have le8: "unat (size_decimals (pc_market c)) \<le> 8"
    using admission_Inr(6) [OF adm] by (simp add: word_le_nat_alt)
  have "decimal_places sz \<le> 8 - (8 - unat (size_decimals (pc_market c)))"
    by (rule fixed_decimal_places [OF sz s(5) s(1)]) simp
  then have "decimal_places sz \<le> unat (ca_size_decimals asset)" using le8 dec by simp
  then show ?thesis
    using px sz asset parse [OF px] parse [OF sz] fixed_decimal_reads_back [OF px i]
      fixed_decimal_reads_back [OF sz s(5)]
    by (simp add: build_ioc_request_def)
qed

definition sample_asset :: core_asset where
  "sample_asset = \<lparr>ca_symbol = ''ETH'', ca_asset_index = 1, ca_size_decimals = 4, ca_max_leverage = 50\<rparr>"

theorem accepted_order_is_sendable_witness:
  "\<exists>r. build_ioc_request (\<lambda>s. True) sample_order [(''ETH'', sample_asset)] ''0x1'' = Inr r
    \<and> decimal_string_to_fixed (io_limit_px r) 6 = Inr 2000000000
    \<and> decimal_string_to_fixed (io_sz r) 8 = Inr 500000"
proof -
  have i: "is_i64 (p_limit_price sample_proposal)" by (simp add: sample_proposal_def is_i64_def)
  have a: "map_of [(''ETH'', sample_asset)] (o_symbol sample_order) = Some sample_asset"
    by (simp add: sample_order_def)
  have d: "ca_size_decimals sample_asset = size_decimals (pc_market (sample_context 1))"
    by (simp add: sample_asset_def sample_context_def sample_market_def)
  show ?thesis
    using accepted_order_is_sendable [OF sample_accepted i a d, of "\<lambda>s. True" "''0x1''"]
    by (auto simp: sample_order_def)
qed

section \<open>Snapshots and accounts\<close>

lemma market_snapshot_Inr:
  assumes "market_snapshot_from_parts asset mark_px oracle_px b now_ms = Inr ms"
  obtains bid ask spread where "bk_bids b \<noteq> []" and "bk_asks b \<noteq> []"
    and "to_fixed (bl_price (hd (bk_bids b))) 6 = Inr bid"
    and "to_fixed (bl_price (hd (bk_asks b))) 6 = Inr ask" and "0 < bid" and "bid \<le> ask"
    and "bk_venue_time_ms b \<le> now_ms"
    and "spread = ((ask - bid) * 10000) sdiv ((bid + ask) sdiv 2)"
    and "u16_try spread = Some (spread_bps (ms_market ms))"
    and "marketable_depth b Sell = Inr (bid_depth (ms_market ms))"
    and "marketable_depth b Buy = Inr (ask_depth (ms_market ms))"
    and "mk_symbol (ms_market ms) = ca_symbol asset"
    and "size_decimals (ms_market ms) = ca_size_decimals asset"
    and "\<not> delisted (ms_market ms)" and "ms_book ms = b"
    and "book_age_seconds (ms_market ms)
      = (case u16_try (uint ((now_ms - bk_venue_time_ms b) div 1000)) of Some a \<Rightarrow> a | None \<Rightarrow> - 1)"
proof -
  from assms have ne: "bk_bids b \<noteq> []" "bk_asks b \<noteq> []"
    by (auto simp: market_snapshot_from_parts_def split: if_splits)
  with assms obtain bid ask where ba: "to_fixed (bl_price (hd (bk_bids b))) 6 = Inr bid"
    "to_fixed (bl_price (hd (bk_asks b))) 6 = Inr ask"
    "\<not> (bid \<le> 0 \<or> ask < bid \<or> now_ms < bk_venue_time_ms b)"
    by (auto simp: market_snapshot_from_parts_def simp del: u16_try_eq_Some split: if_splits)
  note rest = assms [unfolded market_snapshot_from_parts_def if_not_P [OF ba(3)] ba(1,2) rbind_Inr]
  from rest ne have v: "u16_try (((ask - bid) * 10000) sdiv ((bid + ask) sdiv 2))
      = Some (spread_bps (ms_market ms))"
    "marketable_depth b Sell = Inr (bid_depth (ms_market ms))"
    "marketable_depth b Buy = Inr (ask_depth (ms_market ms))"
    "mk_symbol (ms_market ms) = ca_symbol asset"
    "size_decimals (ms_market ms) = ca_size_decimals asset"
    "\<not> delisted (ms_market ms)" "ms_book ms = b"
    "book_age_seconds (ms_market ms)
      = (case u16_try (uint ((now_ms - bk_venue_time_ms b) div 1000)) of Some a \<Rightarrow> a | None \<Rightarrow> - 1)"
    by (auto simp: rbind_eq_Inr simp del: u16_try_eq_Some)
  show thesis
    by (rule that [OF ne ba(1,2) _ _ _ refl v]) (use ba(3) in \<open>simp_all add: not_less not_le\<close>)
qed

lemma u16_try_word:
  assumes "unat (a :: u64) < 65536"
  shows "\<exists>w. u16_try (uint a) = Some w \<and> unat w = unat a"
proof -
  define n where "n = unat a"
  have n: "uint a = int n" "n < 65536" using assms by (simp_all add: n_def)
  have "u16_try (int n) = Some (of_nat n)" using n(2) by simp
  then have "u16_try (uint a) = Some (of_nat n)" by (simp only: n(1))
  moreover have "unat (of_nat n :: u16) = unat a"
    using n(2) by (simp add: unat_of_nat take_bit_nat_eq_self flip: n_def)
  ultimately show ?thesis by blast
qed

text \<open>
  A market snapshot is taken from an uncrossed book that is not from the future; its
  spread is the gap between the best quotes in basis points of their midpoint, rounded down,
  and its book age the whole seconds since the venue's time stamp.
\<close>

theorem snapshot_reports_book:
  assumes "market_snapshot_from_parts asset mark_px oracle_px b now_ms = Inr ms"
  shows "\<exists>bid ask. to_fixed (bl_price (hd (bk_bids b))) 6 = Inr bid
    \<and> to_fixed (bl_price (hd (bk_asks b))) 6 = Inr ask \<and> 0 < bid \<and> bid \<le> ask
    \<and> bk_venue_time_ms b \<le> now_ms
    \<and> uint (spread_bps (ms_market ms)) = (ask - bid) * 10000 div ((bid + ask) div 2)
    \<and> (unat (now_ms - bk_venue_time_ms b) < 65536000 \<longrightarrow>
         unat (book_age_seconds (ms_market ms)) = unat (now_ms - bk_venue_time_ms b) div 1000)
    \<and> mk_symbol (ms_market ms) = ca_symbol asset \<and> \<not> delisted (ms_market ms)"
proof -
  from assms obtain bid ask spread where s: "to_fixed (bl_price (hd (bk_bids b))) 6 = Inr bid"
    "to_fixed (bl_price (hd (bk_asks b))) 6 = Inr ask" "0 < bid" "bid \<le> ask"
    "bk_venue_time_ms b \<le> now_ms" "spread = ((ask - bid) * 10000) sdiv ((bid + ask) sdiv 2)"
    "u16_try spread = Some (spread_bps (ms_market ms))" "mk_symbol (ms_market ms) = ca_symbol asset"
    "\<not> delisted (ms_market ms)"
    "book_age_seconds (ms_market ms)
      = (case u16_try (uint ((now_ms - bk_venue_time_ms b) div 1000)) of Some a \<Rightarrow> a | None \<Rightarrow> - 1)"
    by (rule market_snapshot_Inr) blast
  have mid: "0 < (bid + ask) div 2" using s(3,4) by linarith
  have "uint (spread_bps (ms_market ms)) = spread" by (rule uint_u16_try [OF s(7)])
  also have "spread = (ask - bid) * 10000 div ((bid + ask) div 2)"
    using s(3,4,6) mid by (simp add: sdiv_nonneg)
  finally have spread: "uint (spread_bps (ms_market ms)) = (ask - bid) * 10000 div ((bid + ask) div 2)" .
  have age: "unat (book_age_seconds (ms_market ms)) = unat (now_ms - bk_venue_time_ms b) div 1000"
    if "unat (now_ms - bk_venue_time_ms b) < 65536000"
  proof -
    let ?a = "(now_ms - bk_venue_time_ms b) div 1000"
    have ua: "unat ?a = unat (now_ms - bk_venue_time_ms b) div 1000"
      by (simp add: unat_div)
    then have lt: "unat ?a < 65536" using that by simp
    then obtain w where w: "u16_try (uint ?a) = Some w" "unat w = unat ?a"
      using u16_try_word by blast
    with s(10) ua show ?thesis by (simp del: u16_try_eq_Some)
  qed
  show ?thesis using s spread age by blast
qed

lemma sample_snapshot:
  "\<exists>ms. market_snapshot_from_parts sample_asset ''2000'' ''2000'' sample_book 3500 = Inr ms"
proof -
  have sz: "to_fixed ''3'' 8 = Inr 300000000" "to_fixed ''1'' 8 = Inr 100000000"
    "to_fixed ''2'' 8 = Inr 200000000" "to_fixed ''9'' 8 = Inr 900000000"
    by (simp_all add: to_fixed_def decimal_string_to_fixed_def split_once_def is_ascii_digit_def byte_def
      parse_i128_def digits_value_Cons digit_of_def i128_try_def is_i128_def i64_try_def is_i64_def)
  have d: "marketable_depth sample_book Sell = Inr 5997000000"
    "marketable_depth sample_book Buy = Inr 6101000000"
    by (simp_all add: marketable_depth_def sample_book_def opposing_levels_def sample_prices sz
        within_market_slippage_def sdiv_nonneg i64_try_is i128_try_is is_i64_def is_i128_def
        del: i128_try_eq_Some i64_try_eq_Some)
  have f: "bl_price (hd (bk_bids sample_book)) = ''1999''" "bl_price (hd (bk_asks sample_book)) = ''2000''"
    "bk_bids sample_book \<noteq> []" "bk_asks sample_book \<noteq> []" "bk_venue_time_ms sample_book = 1000"
    by (simp_all add: sample_book_def)
  have u: "u16_try 5 = Some 5" by simp
  show ?thesis
    by (simp add: market_snapshot_from_parts_def f sample_prices d sdiv_nonneg i64_try_is is_i64_def
        u u16_try_def del: i64_try_eq_Some)
qed

theorem snapshot_reports_book_witness:
  "\<exists>ms. market_snapshot_from_parts sample_asset ''2000'' ''2000'' sample_book 3500 = Inr ms
    \<and> mk_symbol (ms_market ms) = ''ETH'' \<and> uint (spread_bps (ms_market ms)) = 5"
proof -
  obtain ms where ms: "market_snapshot_from_parts sample_asset ''2000'' ''2000'' sample_book 3500 = Inr ms"
    using sample_snapshot by blast
  from snapshot_reports_book [OF ms] have "mk_symbol (ms_market ms) = ''ETH''"
    "uint (spread_bps (ms_market ms)) = 5"
    by (auto simp: sample_book_def sample_prices sample_asset_def)
  with ms show ?thesis by blast
qed

end
