(* ===== verification/Companion.thy ===== *)
theory Companion
  imports AgentVersion
begin

text \<open>
  The local control protocol between the desktop shell and its companion daemon,
  \<open>crates/crow-agent-core/src/companion.rs\<close>: requests and responses with an HMAC-SHA256 over
  their canonical JSON. The JSON form of a strategy bundle is the parameter \<open>enc\<close>; the
  request id drawn at random is an argument of \<open>sign_request\<close>.
\<close>

section \<open>Messages\<close>

definition MAX_COMPANION_MESSAGE_BYTES :: nat where "MAX_COMPANION_MESSAGE_BYTES = 16 * 1024"

datatype companion_action = AStatus | APause | AResume | AStop | AUpdateSettings

definition companion_action_str :: "companion_action \<Rightarrow> string" where
  "companion_action_str a = (case a of AStatus \<Rightarrow> ''status'' | APause \<Rightarrow> ''pause''
     | AResume \<Rightarrow> ''resume'' | AStop \<Rightarrow> ''stop'' | AUpdateSettings \<Rightarrow> ''update_settings'')"

record run_settings =
  st_decision_cooldown_seconds :: u32
  st_isolated_leverage :: u8

datatype companion_error = CpSerialization | CpAuthentication | CpProtocol

record companion_request =
  cq_protocol :: string
  cq_request_id :: uuid
  cq_nonce :: u64
  cq_action :: companion_action
  cq_strategy :: "strategy_bundle option"
  cq_settings :: "run_settings option"
  cq_mac :: string

record companion_response =
  cr_protocol :: string
  cr_request_id :: uuid
  cr_nonce :: u64
  cr_accepted :: bool
  cr_execution_state :: string
  cr_active_run :: "uuid option"
  cr_error :: "string option"
  cr_mac :: string

definition validate_settings :: "run_settings \<Rightarrow> companion_error + unit" where
  "validate_settings s =
     (if st_decision_cooldown_seconds s < MIN_LIVE_DECISION_INTERVAL_SECONDS
         \<or> MAX_CLIENT_DECISION_COOLDOWN_SECONDS < st_decision_cooldown_seconds s
         \<or> st_decision_cooldown_seconds s mod 60 \<noteq> 0
         \<or> st_isolated_leverage s < MIN_CLIENT_ISOLATED_LEVERAGE
         \<or> MAX_CLIENT_ISOLATED_LEVERAGE < st_isolated_leverage s
      then Inl CpProtocol else Inr ())"

definition settings_json :: "run_settings \<Rightarrow> json" where
  "settings_json s = JObj
     [(''decision_cooldown_seconds'', jword (st_decision_cooldown_seconds s)),
      (''isolated_leverage'', jword (st_isolated_leverage s))]"

text \<open>\<open>UnsignedRequest\<close> and \<open>UnsignedResponse\<close>; \<open>None\<close> where the strategy cannot be written.\<close>

definition unsigned_request ::
    "prims \<Rightarrow> (strategy_bundle \<Rightarrow> json option) \<Rightarrow> companion_request \<Rightarrow> json option" where
  "unsigned_request P enc q =
     (case (case cq_strategy q of None \<Rightarrow> Some JNull | Some b \<Rightarrow> enc b) of
        None \<Rightarrow> None
      | Some strategy \<Rightarrow> Some (JObj
          [(''protocol'', JStr (cq_protocol q)), (''request_id'', juuid P (cq_request_id q)),
           (''nonce'', jword (cq_nonce q)), (''action'', JStr (companion_action_str (cq_action q))),
           (''strategy'', strategy),
           (''settings'', case cq_settings q of None \<Rightarrow> JNull | Some s \<Rightarrow> settings_json s)]))"

definition unsigned_response :: "prims \<Rightarrow> companion_response \<Rightarrow> json option" where
  "unsigned_response P r = Some (JObj
     [(''protocol'', JStr (cr_protocol r)), (''request_id'', juuid P (cr_request_id r)),
      (''nonce'', jword (cr_nonce r)), (''accepted'', JBool (cr_accepted r)),
      (''execution_state'', JStr (cr_execution_state r)),
      (''active_run'', case cr_active_run r of None \<Rightarrow> JNull | Some u \<Rightarrow> juuid P u),
      (''error'', case cr_error r of None \<Rightarrow> JNull | Some e \<Rightarrow> JStr e)])"

definition sign_value :: "prims \<Rightarrow> string \<Rightarrow> json option \<Rightarrow> companion_error + string" where
  "sign_value P key v =
     rbind (map_err (\<lambda>_. CpSerialization) (canonical_json P v)) (\<lambda>bytes.
       Inr (hex_encode P (hmac_sha256 P key bytes)))"

definition verify_value :: "prims \<Rightarrow> string \<Rightarrow> json option \<Rightarrow> string \<Rightarrow> companion_error + unit" where
  "verify_value P key v signature =
     rbind (map_err (\<lambda>_. CpSerialization) (canonical_json P v)) (\<lambda>bytes.
     rbind (ok_or (hex_decode P signature) CpAuthentication) (\<lambda>mac.
       if mac = hmac_sha256 P key bytes then Inr () else Inl CpAuthentication))"

section \<open>Requests\<close>

definition options_ok :: "companion_request \<Rightarrow> bool" where
  "options_ok q \<longleftrightarrow> (cq_strategy q \<noteq> None \<longrightarrow> cq_action q = AResume)
     \<and> (cq_settings q \<noteq> None \<longrightarrow> cq_action q = AUpdateSettings)
     \<and> (case cq_strategy q of None \<Rightarrow> True | Some b \<Rightarrow> is_ok (validate_bundle b))"

text \<open>\<open>sign_with_options\<close>, of which \<open>sign\<close> and \<open>sign_with_strategy\<close> are instances.\<close>

definition sign_request ::
    "prims \<Rightarrow> (strategy_bundle \<Rightarrow> json option) \<Rightarrow> string \<Rightarrow> uuid \<Rightarrow> u64 \<Rightarrow> companion_action
      \<Rightarrow> strategy_bundle option \<Rightarrow> run_settings option \<Rightarrow> companion_error + companion_request" where
  "sign_request P enc key request_id nonce action strategy settings =
     (if strategy \<noteq> None \<and> action \<noteq> AResume then Inl CpProtocol
      else if (case strategy of None \<Rightarrow> False | Some b \<Rightarrow> \<not> is_ok (validate_bundle b))
      then Inl CpProtocol
      else if settings \<noteq> None \<and> action \<noteq> AUpdateSettings then Inl CpProtocol
      else rbind (case settings of None \<Rightarrow> Inr () | Some s \<Rightarrow> validate_settings s) (\<lambda>_.
        let q = \<lparr>cq_protocol = HARNESS_PROTOCOL_V1, cq_request_id = request_id, cq_nonce = nonce,
            cq_action = action, cq_strategy = strategy, cq_settings = settings, cq_mac = ''''\<rparr> in
        rbind (sign_value P key (unsigned_request P enc q)) (\<lambda>mac. Inr (q\<lparr>cq_mac := mac\<rparr>))))"

definition verify_request ::
    "prims \<Rightarrow> (strategy_bundle \<Rightarrow> json option) \<Rightarrow> string \<Rightarrow> companion_request \<Rightarrow> companion_error + unit" where
  "verify_request P enc key q =
     (if cq_protocol q \<noteq> HARNESS_PROTOCOL_V1
         \<or> (cq_strategy q \<noteq> None \<and> cq_action q \<noteq> AResume)
         \<or> (cq_settings q \<noteq> None \<and> cq_action q \<noteq> AUpdateSettings)
         \<or> (case cq_strategy q of None \<Rightarrow> False | Some b \<Rightarrow> \<not> is_ok (validate_bundle b))
      then Inl CpProtocol
      else verify_value P key (unsigned_request P enc q) (cq_mac q))"

section \<open>Responses\<close>

definition sign_response ::
    "prims \<Rightarrow> string \<Rightarrow> uuid \<Rightarrow> u64 \<Rightarrow> bool \<Rightarrow> string \<Rightarrow> uuid option \<Rightarrow> string option
      \<Rightarrow> companion_error + companion_response" where
  "sign_response P key request_id nonce accepted execution_state active_run error =
     (let r = \<lparr>cr_protocol = HARNESS_PROTOCOL_V1, cr_request_id = request_id, cr_nonce = nonce,
         cr_accepted = accepted, cr_execution_state = execution_state, cr_active_run = active_run,
         cr_error = error, cr_mac = ''''\<rparr> in
      rbind (sign_value P key (unsigned_response P r)) (\<lambda>mac. Inr (r\<lparr>cr_mac := mac\<rparr>)))"

definition verify_response ::
    "prims \<Rightarrow> string \<Rightarrow> companion_response \<Rightarrow> companion_request \<Rightarrow> companion_error + unit" where
  "verify_response P key r q =
     (if cr_protocol r \<noteq> HARNESS_PROTOCOL_V1 \<or> cr_request_id r \<noteq> cq_request_id q
         \<or> cr_nonce r \<noteq> cq_nonce q
      then Inl CpProtocol
      else verify_value P key (unsigned_response P r) (cr_mac r))"

section \<open>What the messages are bound to\<close>

definition hex_law :: "prims \<Rightarrow> bool" where
  "hex_law P \<longleftrightarrow> (\<forall>b. hex_decode P (hex_encode P b) = Some b)"

lemma verify_own_value:
  "hex_law P \<Longrightarrow> sign_value P key v = Inr mac \<Longrightarrow> verify_value P key v mac = Inr ()"
  by (auto simp: sign_value_def verify_value_def hex_law_def)

lemma verify_value_Inr:
  "verify_value P key v mac = Inr () \<longleftrightarrow>
     (\<exists>bytes. canonical_json P v = Inr bytes \<and> hex_decode P mac = Some (hmac_sha256 P key bytes))"
  by (auto simp: verify_value_def rbind_eq_Inr split: if_splits)

lemma unsigned_request_mac [simp]: "unsigned_request P enc (q\<lparr>cq_mac := mac\<rparr>) = unsigned_request P enc q"
  by (simp add: unsigned_request_def split: option.split)

lemma unsigned_response_mac [simp]: "unsigned_response P (r\<lparr>cr_mac := mac\<rparr>) = unsigned_response P r"
  by (simp add: unsigned_response_def)

lemma validate_settings_Inr:
  "validate_settings s = Inr () \<longleftrightarrow>
     st_decision_cooldown_seconds s \<in> {60..3600} \<and> 60 dvd unat (st_decision_cooldown_seconds s)
       \<and> st_isolated_leverage s \<in> {1..10}"
proof -
  have "unat (c mod 60) = unat c mod 60" for c :: u32 by (simp add: unat_mod)
  then have "c mod 60 = 0 \<longleftrightarrow> 60 dvd unat c" for c :: u32
    by (metis dvd_eq_mod_eq_0 unat_0 unat_eq_zero)
  moreover have "1 \<le> l \<longleftrightarrow> l \<noteq> 0" for l :: u8 by (simp flip: not_less)
  ultimately show ?thesis
    by (auto simp: validate_settings_def MIN_LIVE_DECISION_INTERVAL_SECONDS_def
        MAX_CLIENT_DECISION_COOLDOWN_SECONDS_def MIN_CLIENT_ISOLATED_LEVERAGE_def
        MAX_CLIENT_ISOLATED_LEVERAGE_def not_less)
qed

lemma sign_request_Inr:
  assumes "sign_request P enc key request_id nonce action strategy settings = Inr q"
  shows "cq_protocol q = HARNESS_PROTOCOL_V1" "cq_request_id q = request_id" "cq_nonce q = nonce"
    "cq_action q = action" "cq_strategy q = strategy" "cq_settings q = settings" "options_ok q"
    "sign_value P key (unsigned_request P enc q) = Inr (cq_mac q)"
proof -
  let ?q = "\<lparr>cq_protocol = HARNESS_PROTOCOL_V1, cq_request_id = request_id, cq_nonce = nonce,
      cq_action = action, cq_strategy = strategy, cq_settings = settings, cq_mac = ''''\<rparr>"
  from assms obtain mac where mac: "sign_value P key (unsigned_request P enc ?q) = Inr mac"
    and q: "q = ?q\<lparr>cq_mac := mac\<rparr>"
    unfolding sign_request_def Let_def by (auto split: if_splits)
  show "sign_value P key (unsigned_request P enc q) = Inr (cq_mac q)"
    unfolding q unsigned_request_mac using mac by simp
  show "options_ok q" using assms unfolding q
    by (auto simp: sign_request_def options_ok_def split: if_splits option.splits)
qed (use assms in \<open>auto simp: sign_request_def Let_def split: if_splits\<close>)

lemma verify_request_Inr:
  "verify_request P enc key q = Inr () \<longleftrightarrow> cq_protocol q = HARNESS_PROTOCOL_V1 \<and> options_ok q
     \<and> verify_value P key (unsigned_request P enc q) (cq_mac q) = Inr ()"
  by (auto simp: verify_request_def options_ok_def split: option.splits)

text \<open>
  A control request that the desktop signs verifies under the same secret and carries what
  it was signed with: a strategy only on a resume, validated settings only on a settings update.
\<close>

theorem signed_request_verifies:
  assumes "hex_law P"
    and "sign_request P enc key request_id nonce action strategy settings = Inr q"
  shows "verify_request P enc key q = Inr ()
    \<and> (cq_request_id q, cq_nonce q, cq_action q, cq_strategy q, cq_settings q)
        = (request_id, nonce, action, strategy, settings)
    \<and> (case strategy of None \<Rightarrow> True | Some b \<Rightarrow> action = AResume \<and> validate_bundle b = Inr ())
    \<and> (case settings of None \<Rightarrow> True | Some s \<Rightarrow> action = AUpdateSettings \<and> validate_settings s = Inr ())"
proof -
  note q = sign_request_Inr [OF assms(2)]
  have "verify_request P enc key q = Inr ()"
    using q(1,7) verify_own_value [OF assms(1) q(8)] by (simp add: verify_request_Inr)
  moreover have "case settings of None \<Rightarrow> True | Some s \<Rightarrow> action = AUpdateSettings \<and> validate_settings s = Inr ()"
    using assms(2) by (auto simp: sign_request_def Let_def split: if_splits option.splits)
  ultimately show ?thesis
    using q by (auto simp: options_ok_def is_ok_iff split: option.splits)
qed

definition toy_request :: companion_request where
  "toy_request = \<lparr>cq_protocol = HARNESS_PROTOCOL_V1, cq_request_id = 4, cq_nonce = 1,
     cq_action = AUpdateSettings, cq_strategy = None,
     cq_settings = Some \<lparr>st_decision_cooldown_seconds = 600, st_isolated_leverage = 3\<rparr>,
     cq_mac = ''secret''\<rparr>"

lemma toy_hex_law: "hex_law toy_prims"
  by (simp add: hex_law_def toy_prims_def)

lemma toy_request_signed:
  "sign_request toy_prims enc ''secret'' 4 1 AUpdateSettings None
     (Some \<lparr>st_decision_cooldown_seconds = 600, st_isolated_leverage = 3\<rparr>) = Inr toy_request"
proof -
  have "validate_settings \<lparr>st_decision_cooldown_seconds = 600, st_isolated_leverage = 3\<rparr> = Inr ()"
    by (simp add: validate_settings_def MIN_LIVE_DECISION_INTERVAL_SECONDS_def
        MAX_CLIENT_DECISION_COOLDOWN_SECONDS_def MIN_CLIENT_ISOLATED_LEVERAGE_def
        MAX_CLIENT_ISOLATED_LEVERAGE_def)
  then show ?thesis
    by (simp add: sign_request_def toy_request_def sign_value_def unsigned_request_def
        canonical_json_def Let_def) (simp add: toy_prims_def)
qed

theorem signed_request_verifies_witness: "verify_request toy_prims (\<lambda>b. None) ''secret'' toy_request = Inr ()"
  using signed_request_verifies [OF toy_hex_law toy_request_signed] by blast

end
