(* ===== verification/Journal.thy ===== *)
theory Journal
  imports Envelopes Crypto "HOL-Library.Product_Lexorder"
begin

text \<open>
  The encrypted journal of \<open>crates/crow-agent-core/src/journal.rs\<close>. Its SQLite database is
  two tables: the rows of \<open>run_events\<close> in insertion order, with the primary key (run,
  sequence) and the unique hash as guards of the insert, and \<open>local_secrets\<close> keyed by name.
  The stored envelope is the event itself (its JSON text reads back as the same event);
  a failing disk is not modelled. Nonces are arguments. A function that changes rows and
  may still fail returns its result and the new journal.
\<close>

section \<open>State and operations\<close>

datatype journal_error =
    JDatabase
  | JCrypto crypto_error
  | JPayload
  | JEvent
  | JSequence

record journal_row =
  jr_run_id :: uuid
  jr_sequence :: int
  jr_hash :: string
  jr_previous :: string
  jr_envelope :: run_event
  jr_private :: bundle_ciphertext
  jr_receipt :: "string option"

record journal =
  jn_key :: string
  jn_events :: "journal_row list"
  jn_secrets :: "(string \<times> bundle_ciphertext) list"

definition open_journal :: "string \<Rightarrow> journal" where
  "open_journal key = \<lparr>jn_key = key, jn_events = [], jn_secrets = []\<rparr>"

definition zero_hash :: string where "zero_hash = replicate 64 (CHR ''0'')"

definition run_rows :: "uuid \<Rightarrow> journal \<Rightarrow> journal_row list" where
  "run_rows run j = filter (\<lambda>r. jr_run_id r = run) (jn_events j)"

text \<open>\<open>ORDER BY sequence DESC LIMIT 1\<close>; the primary key makes the choice unique.\<close>

definition latest_row :: "uuid \<Rightarrow> journal \<Rightarrow> journal_row option" where
  "latest_row run j = (case sort_key jr_sequence (run_rows run j) of
     [] \<Rightarrow> None | r # rs \<Rightarrow> Some (last (r # rs)))"

definition next_link :: "journal \<Rightarrow> run_event \<Rightarrow> bool" where
  "next_link j e = (case latest_row (ev_run_id e) j of
       None \<Rightarrow> ev_sequence e = 1 \<and> ev_previous_event_sha256 e = zero_hash
     | Some r \<Rightarrow>
         ev_sequence e = (case u64_try (jr_sequence r) of Some n \<Rightarrow> n | None \<Rightarrow> - 1) + 1
         \<and> ev_previous_event_sha256 e = jr_hash r)"

text \<open>The insert violates the primary key or the unique hash.\<close>

definition row_conflict :: "journal \<Rightarrow> journal_row \<Rightarrow> bool" where
  "row_conflict j row = list_ex (\<lambda>r. jr_run_id r = jr_run_id row \<and> jr_sequence r = jr_sequence row
     \<or> jr_hash r = jr_hash row) (jn_events j)"

definition new_row :: "run_event \<Rightarrow> bundle_ciphertext \<Rightarrow> journal_row" where
  "new_row e c = \<lparr>jr_run_id = ev_run_id e, jr_sequence = uint (ev_sequence e),
     jr_hash = ev_event_sha256 e, jr_previous = ev_previous_event_sha256 e, jr_envelope = e,
     jr_private = c, jr_receipt = None\<rparr>"

definition append_event ::
    "prims \<Rightarrow> aead_prims \<Rightarrow> string \<Rightarrow> run_event \<Rightarrow> json \<Rightarrow> journal \<Rightarrow> journal_error + journal" where
  "append_event P A nonce e private_payload j =
     rbind (map_err (\<lambda>_. JEvent) (verify_event P e)) (\<lambda>_.
       if \<not> next_link j e then Inl JSequence
       else rbind (ok_or (json_to_vec P private_payload) JPayload) (\<lambda>bytes.
         rbind (map_err JCrypto (encrypt_bundle A (jn_key j) nonce bytes (ev_event_sha256 e))) (\<lambda>c.
           if \<not> is_i64 (uint (ev_sequence e)) then Inl JSequence
           else if row_conflict j (new_row e c) then Inl JDatabase
           else Inr (j\<lparr>jn_events := jn_events j @ [new_row e c]\<rparr>))))"

definition latest_event_state :: "uuid \<Rightarrow> journal \<Rightarrow> journal_error + (u64 \<times> string) option" where
  "latest_event_state run j = (case latest_row run j of
     None \<Rightarrow> Inr None
   | Some r \<Rightarrow> rbind (ok_or (u64_try (jr_sequence r)) JSequence) (\<lambda>n. Inr (Some (n, jr_hash r))))"

definition event_count :: "uuid \<Rightarrow> string \<Rightarrow> journal \<Rightarrow> u64" where
  "event_count run event_type j =
     of_nat (length (filter (\<lambda>r. jr_run_id r = run \<and> ev_event_type (jr_envelope r) = event_type)
                       (jn_events j)))"

definition pending_events :: "prims \<Rightarrow> uuid \<Rightarrow> journal \<Rightarrow> journal_error + run_event list" where
  "pending_events P run j =
     rmap (\<lambda>r. rbind (map_err (\<lambda>_. JEvent) (verify_event P (jr_envelope r)))
                 (\<lambda>_. Inr (jr_envelope r)))
       (sort_key jr_sequence (filter (\<lambda>r. jr_run_id r = run \<and> jr_receipt r = None) (jn_events j)))"

text \<open>The export: every event verified, and each run's chain checked, across the table.\<close>

type_synonym audit_state = "uuid option \<times> u64 \<times> string"

fun audit_rows :: "prims \<Rightarrow> audit_state \<Rightarrow> journal_row list \<Rightarrow> journal_error + run_event list" where
  "audit_rows P st [] = Inr []"
| "audit_rows P (previous_run, previous_sequence, previous_hash) (r # rs) =
     (let e = jr_envelope r in
      rbind (map_err (\<lambda>_. JEvent) (verify_event P e)) (\<lambda>_.
      if previous_run = Some (ev_run_id e)
      then if ev_sequence e \<noteq> previous_sequence + 1
              \<or> ev_previous_event_sha256 e \<noteq> previous_hash
           then Inl JSequence
           else rbind (audit_rows P (Some (ev_run_id e), ev_sequence e, ev_event_sha256 e) rs)
                  (\<lambda>es. Inr (e\<lparr>ev_server_receipt := jr_receipt r\<rparr> # es))
      else if ev_sequence e \<noteq> 1 \<or> ev_previous_event_sha256 e \<noteq> zero_hash
      then Inl JSequence
      else rbind (audit_rows P (Some (ev_run_id e), ev_sequence e, ev_event_sha256 e) rs)
             (\<lambda>es. Inr (e\<lparr>ev_server_receipt := jr_receipt r\<rparr> # es))))"

definition public_events :: "prims \<Rightarrow> journal \<Rightarrow> journal_error + run_event list" where
  "public_events P j =
     audit_rows P (None, 0, '''') (sort_key (\<lambda>r. (uuid_str P (jr_run_id r), jr_sequence r)) (jn_events j))"

text \<open>
  The update marks every row with the event id that has no receipt; when that is not exactly
  one row the call fails, and the marks stay.
\<close>

definition mark_row :: "uuid \<Rightarrow> string \<Rightarrow> journal_row \<Rightarrow> journal_row" where
  "mark_row event_id server_receipt r =
     (if ev_event_id (jr_envelope r) = event_id \<and> jr_receipt r = None
      then r\<lparr>jr_receipt := Some server_receipt\<rparr> else r)"

definition acknowledge_event ::
    "uuid \<Rightarrow> string \<Rightarrow> journal \<Rightarrow> (journal_error + unit) \<times> journal" where
  "acknowledge_event event_id server_receipt j =
     (if blank server_receipt then (Inl JSequence, j)
      else case find (\<lambda>r. ev_event_id (jr_envelope r) = event_id) (jn_events j) of
        None \<Rightarrow> (Inl JSequence, j)
      | Some row \<Rightarrow>
          (case jr_receipt row of
             Some receipt \<Rightarrow> if receipt \<noteq> server_receipt then (Inl JSequence, j) else (Inr (), j)
           | None \<Rightarrow>
               (let changed = length (filter (\<lambda>r. ev_event_id (jr_envelope r) = event_id
                                                 \<and> jr_receipt r = None) (jn_events j));
                    j' = j\<lparr>jn_events := map (mark_row event_id server_receipt) (jn_events j)\<rparr> in
                if changed \<noteq> 1 then (Inl JSequence, j') else (Inr (), j'))))"

definition private_payload ::
    "aead_prims \<Rightarrow> (string \<Rightarrow> json option) \<Rightarrow> string \<Rightarrow> journal \<Rightarrow> journal_error + json option" where
  "private_payload A json_from event_sha256 j =
     (case find (\<lambda>r. jr_hash r = event_sha256) (jn_events j) of
        None \<Rightarrow> Inr None
      | Some r \<Rightarrow>
          rbind (map_err JCrypto (decrypt_bundle A (jn_key j) (jr_private r) event_sha256)) (\<lambda>plaintext.
          rbind (ok_or (json_from plaintext) JPayload) (\<lambda>v. Inr (Some v))))"

definition put_secret ::
    "aead_prims \<Rightarrow> string \<Rightarrow> string \<Rightarrow> string \<Rightarrow> journal \<Rightarrow> journal_error + journal" where
  "put_secret A nonce name value j =
     (if name = [] then Inl JSequence
      else rbind (map_err JCrypto (encrypt_bundle A (jn_key j) nonce value name)) (\<lambda>c.
        Inr (j\<lparr>jn_secrets := bt_insert name c (jn_secrets j)\<rparr>)))"

definition secret :: "aead_prims \<Rightarrow> string \<Rightarrow> journal \<Rightarrow> journal_error + string option" where
  "secret A name j = (case map_of (jn_secrets j) name of
     None \<Rightarrow> Inr None
   | Some c \<Rightarrow> rbind (map_err JCrypto (decrypt_bundle A (jn_key j) c name)) (\<lambda>v. Inr (Some v)))"

definition delete_secret :: "string \<Rightarrow> journal \<Rightarrow> journal_error + journal" where
  "delete_secret name j =
     (if name = [] then Inl JSequence
      else Inr (j\<lparr>jn_secrets := bt_remove name (jn_secrets j)\<rparr>))"

section \<open>The chain invariant\<close>

text \<open>From a hash and a sequence number, the rows count on and link to each other.\<close>

fun linked :: "string \<Rightarrow> int \<Rightarrow> journal_row list \<Rightarrow> bool" where
  "linked h n [] = True"
| "linked h n (r # rs) =
     (jr_sequence r = n + 1 \<and> jr_previous r = h \<and> linked (jr_hash r) (n + 1) rs)"

definition row_ok :: "prims \<Rightarrow> journal_row \<Rightarrow> bool" where
  "row_ok P r \<longleftrightarrow> verify_event P (jr_envelope r) = Inr ()
     \<and> ev_run_id (jr_envelope r) = jr_run_id r
     \<and> uint (ev_sequence (jr_envelope r)) = jr_sequence r \<and> jr_sequence r \<le> i64_max
     \<and> ev_event_sha256 (jr_envelope r) = jr_hash r
     \<and> ev_previous_event_sha256 (jr_envelope r) = jr_previous r"

definition journal_inv :: "prims \<Rightarrow> journal \<Rightarrow> bool" where
  "journal_inv P j \<longleftrightarrow> (\<forall>run. linked zero_hash 0 (run_rows run j))
     \<and> list_all (row_ok P) (jn_events j) \<and> distinct (map jr_hash (jn_events j))"

lemma linked_append:
  "linked h n (xs @ ys) \<longleftrightarrow> linked h n xs
    \<and> linked (if xs = [] then h else jr_hash (last xs)) (n + int (length xs)) ys"
  by (induction xs arbitrary: h n) (auto simp: algebra_simps)

lemma linked_nth:
  "linked h n rs \<Longrightarrow> i < length rs \<Longrightarrow> jr_sequence (rs ! i) = n + int i + 1
    \<and> jr_previous (rs ! i) = (if i = 0 then h else jr_hash (rs ! (i - 1)))"
proof (induction rs arbitrary: h n i)
  case (Cons r rs)
  show ?case
  proof (cases i)
    case (Suc k)
    with Cons.IH [of "jr_hash r" "n + 1" k] Cons.prems show ?thesis
      by (cases k) (auto simp: algebra_simps)
  qed (use Cons.prems in simp)
qed simp

lemma linked_sorted: "linked h n rs \<Longrightarrow> sorted (map jr_sequence rs)"
  unfolding sorted_iff_nth_mono using linked_nth [of h n rs] by simp

lemma linked_sort: "linked h n rs \<Longrightarrow> sort_key jr_sequence rs = rs"
  using linked_sorted by (rule sort_key_id_if_sorted)

lemma latest_row_inv:
  assumes "journal_inv P j"
  shows "latest_row run j = (if run_rows run j = [] then None else Some (last (run_rows run j)))"
  using assms linked_sort [of zero_hash 0 "run_rows run j"]
  by (auto simp: latest_row_def journal_inv_def split: list.splits)

lemma last_run_row:
  assumes "journal_inv P j" and "run_rows run j \<noteq> []"
  shows "jr_sequence (last (run_rows run j)) = int (length (run_rows run j))"
    and "row_ok P (last (run_rows run j))"
proof -
  have l: "linked zero_hash 0 (run_rows run j)" using assms(1) by (simp add: journal_inv_def)
  show "jr_sequence (last (run_rows run j)) = int (length (run_rows run j))"
    using linked_nth [OF l, of "length (run_rows run j) - 1"] assms(2)
    by (simp add: last_conv_nth Suc_leI of_nat_diff)
  have "last (run_rows run j) \<in> set (jn_events j)"
    using last_in_set [OF assms(2)] by (simp add: run_rows_def)
  then show "row_ok P (last (run_rows run j))"
    using assms(1) by (simp add: journal_inv_def list_all_iff)
qed

lemma latest_event_state_inv:
  assumes "journal_inv P j"
  shows "latest_event_state run j = Inr (if run_rows run j = [] then None
    else Some (of_nat (length (run_rows run j)), jr_hash (last (run_rows run j))))"
proof (cases "run_rows run j = []")
  case True
  then show ?thesis by (simp add: latest_event_state_def latest_row_inv [OF assms])
next
  case False
  have "jr_sequence (last (run_rows run j)) \<le> i64_max"
    using last_run_row(2) [OF assms False] by (simp add: row_ok_def)
  then show ?thesis using False last_run_row(1) [OF assms False]
    by (simp add: latest_event_state_def latest_row_inv [OF assms] u64_try_is i64_max_def
        del: u64_try_eq_Some)
qed

section \<open>Interfaces\<close>

text \<open>
  What an event writer relies on: an append is accepted only as the next link of its run's
  chain, becomes the latest event of that run, and leaves the other runs alone.
\<close>

locale event_log =
  fixes append :: "'n \<Rightarrow> run_event \<Rightarrow> json \<Rightarrow> 'j \<Rightarrow> 'err + 'j"
    and latest :: "uuid \<Rightarrow> 'j \<Rightarrow> 'err + (u64 \<times> string) option"
    and good :: "'j \<Rightarrow> bool"
  assumes append_good: "good j \<Longrightarrow> append n e p j = Inr j' \<Longrightarrow> good j'"
    and append_latest: "good j \<Longrightarrow> append n e p j = Inr j' \<Longrightarrow>
      latest (ev_run_id e) j' = Inr (Some (ev_sequence e, ev_event_sha256 e))"
    and append_other: "good j \<Longrightarrow> append n e p j = Inr j' \<Longrightarrow> run \<noteq> ev_run_id e \<Longrightarrow>
      latest run j' = latest run j"
    and append_next: "good j \<Longrightarrow> append n e p j = Inr j' \<Longrightarrow>
      latest (ev_run_id e) j = Inr tip \<Longrightarrow>
      (case tip of None \<Rightarrow> ev_sequence e = 1 \<and> ev_previous_event_sha256 e = zero_hash
       | Some (k, h) \<Rightarrow> ev_sequence e = k + 1 \<and> ev_previous_event_sha256 e = h)"
begin

lemma no_replay:
  assumes "good j" and "append n e p j = Inr j'" and "append n' e p' j' = Inr j''"
  shows False
proof -
  have "latest (ev_run_id e) j' = Inr (Some (ev_sequence e, ev_event_sha256 e))"
    using append_latest assms by blast
  from append_next [OF append_good [OF assms(1,2)] assms(3) this] show False by simp
qed

lemma next_links:
  assumes "good j" and "append n e p j = Inr j'" and "append n' e' p' j' = Inr j''"
    and "ev_run_id e' = ev_run_id e"
  shows "ev_sequence e' = ev_sequence e + 1 \<and> ev_previous_event_sha256 e' = ev_event_sha256 e"
proof -
  have l: "latest (ev_run_id e') j' = Inr (Some (ev_sequence e, ev_event_sha256 e))"
    using append_latest assms by simp
  from append_next [OF append_good [OF assms(1,2)] assms(3) l] show ?thesis by simp
qed

end

text \<open>What the users of local secrets rely on: a value put under a name is read back until the
  name is written or deleted again, and other names are not touched.\<close>

locale secret_store =
  fixes put :: "'n \<Rightarrow> string \<Rightarrow> string \<Rightarrow> 'j \<Rightarrow> 'err + 'j"
    and get :: "string \<Rightarrow> 'j \<Rightarrow> 'err + string option"
    and del :: "string \<Rightarrow> 'j \<Rightarrow> 'err + 'j"
    and fresh :: "'n \<Rightarrow> bool"
  assumes put_get: "fresh n \<Longrightarrow> put n name v j = Inr j' \<Longrightarrow> get name j' = Inr (Some v)"
    and put_other: "put n name v j = Inr j' \<Longrightarrow> other \<noteq> name \<Longrightarrow> get other j' = get other j"
    and del_get: "del name j = Inr j' \<Longrightarrow> get name j' = Inr None"
    and del_other: "del name j = Inr j' \<Longrightarrow> other \<noteq> name \<Longrightarrow> get other j' = get other j"
begin

lemma put_put_get:
  "fresh n' \<Longrightarrow> put n name v j = Inr j' \<Longrightarrow> put n' name v' j' = Inr j'' \<Longrightarrow>
    get name j'' = Inr (Some v')"
  by (rule put_get)

lemma put_del_other:
  "fresh n \<Longrightarrow> put n name v j = Inr j' \<Longrightarrow> del other j' = Inr j'' \<Longrightarrow> other \<noteq> name \<Longrightarrow>
    get name j'' = Inr (Some v)"
  using del_other [of other j' j'' name] put_get by simp

lemma get_unchanged:
  assumes "put n name v j = Inr j'" and "get name j = Inr None" and "get other j = Inr (Some w)"
  shows "get other j' = Inr (Some w)"
proof -
  have "other \<noteq> name" using assms(2,3) by auto
  then show ?thesis using put_other [OF assms(1)] assms(3) by simp
qed

end

section \<open>The journal provides them\<close>

lemma append_event_Inr:
  assumes "append_event P A nonce e p j = Inr j'"
  obtains c bytes where "verify_event P e = Inr ()" and "next_link j e"
    and "j' = j\<lparr>jn_events := jn_events j @ [new_row e c]\<rparr>"
    and "is_i64 (uint (ev_sequence e))" and "\<not> row_conflict j (new_row e c)"
    and "json_to_vec P p = Some bytes"
    and "encrypt_bundle A (jn_key j) nonce bytes (ev_event_sha256 e) = Inr c"
  using assms unfolding append_event_def by (auto split: if_splits)

lemma new_row_fields [simp]:
  "jr_run_id (new_row e c) = ev_run_id e" "jr_sequence (new_row e c) = uint (ev_sequence e)"
  "jr_hash (new_row e c) = ev_event_sha256 e" "jr_envelope (new_row e c) = e"
  "jr_previous (new_row e c) = ev_previous_event_sha256 e" "jr_receipt (new_row e c) = None"
  "jr_private (new_row e c) = c"
  by (simp_all add: new_row_def)

lemma run_rows_snoc:
  "run_rows run (j\<lparr>jn_events := jn_events j @ [row]\<rparr>)
    = run_rows run j @ (if jr_run_id row = run then [row] else [])"
  by (simp add: run_rows_def)

lemma next_link_inv:
  assumes inv: "journal_inv P j" and link: "next_link j e"
  shows "ev_sequence e = of_nat (Suc (length (run_rows (ev_run_id e) j)))"
    and "uint (ev_sequence e) = int (length (run_rows (ev_run_id e) j)) + 1"
    and "ev_previous_event_sha256 e = (if run_rows (ev_run_id e) j = [] then zero_hash
        else jr_hash (last (run_rows (ev_run_id e) j)))"
proof -
  let ?rs = "run_rows (ev_run_id e) j"
  have small: "int (length ?rs) \<le> i64_max"
  proof (cases "?rs = []")
    case False
    then show ?thesis using last_run_row [OF inv] by (auto simp: row_ok_def)
  qed (simp add: i64_max_def)
  have "u64_try (int (length ?rs)) = Some (word_of_int (int (length ?rs)))"
    using small by (intro u64_try_is) (auto simp: i64_max_def)
  moreover have "?rs \<noteq> [] \<Longrightarrow> jr_sequence (last ?rs) = int (length ?rs)"
    using last_run_row(1) [OF inv] by simp
  ultimately have *: "ev_sequence e = of_nat (Suc (length ?rs))
      \<and> ev_previous_event_sha256 e = (if ?rs = [] then zero_hash else jr_hash (last ?rs))"
    using link by (cases "?rs = []")
      (simp_all add: next_link_def latest_row_inv [OF inv] del: u64_try_eq_Some)
  then show "ev_sequence e = of_nat (Suc (length ?rs))"
    and "ev_previous_event_sha256 e = (if ?rs = [] then zero_hash else jr_hash (last ?rs))"
    by simp_all
  have "uint (of_nat (Suc (length ?rs)) :: u64) = int (Suc (length ?rs))"
    using small by (simp only: uint_nat unat_of_nat) (simp add: i64_max_def)
  with * show "uint (ev_sequence e) = int (length ?rs) + 1" by simp
qed

lemma append_event_inv:
  assumes inv: "journal_inv P j" and app: "append_event P A nonce e p j = Inr j'"
  shows "journal_inv P j'"
proof -
  obtain c bytes where ver: "verify_event P e = Inr ()" and link: "next_link j e"
    and j': "j' = j\<lparr>jn_events := jn_events j @ [new_row e c]\<rparr>"
    and i64: "is_i64 (uint (ev_sequence e))" and new: "\<not> row_conflict j (new_row e c)"
    by (rule append_event_Inr [OF app])
  have "linked zero_hash 0 (run_rows run j')" for run
  proof -
    have "linked zero_hash 0 (run_rows run j)" using inv by (simp add: journal_inv_def)
    with next_link_inv(2,3) [OF inv link] show ?thesis
      by (auto simp: j' run_rows_snoc linked_append)
  qed
  moreover have "row_ok P (new_row e c)"
    using ver i64 by (simp add: row_ok_def is_i64_def i64_max_def)
  moreover have "ev_event_sha256 e \<notin> jr_hash ` set (jn_events j)"
    using new by (auto simp: row_conflict_def list_ex_iff)
  ultimately show ?thesis using inv by (simp add: journal_inv_def j')
qed

lemma latest_after_append:
  assumes inv: "journal_inv P j" and app: "append_event P A nonce e p j = Inr j'"
  shows "latest_event_state run j' = (if run = ev_run_id e
    then Inr (Some (ev_sequence e, ev_event_sha256 e)) else latest_event_state run j)"
proof -
  obtain c bytes where link: "next_link j e" and j': "j' = j\<lparr>jn_events := jn_events j @ [new_row e c]\<rparr>"
    by (rule append_event_Inr [OF app])
  show ?thesis
    using next_link_inv(1) [OF inv link]
    by (simp add: latest_event_state_inv [OF append_event_inv [OF inv app]]
        latest_event_state_inv [OF inv]) (simp add: j' run_rows_snoc)
qed

interpretation jlog: event_log "append_event P A" latest_event_state "journal_inv P"
  for P :: prims and A :: aead_prims
proof (unfold_locales, goal_cases)
  case (1 j n e p j')
  then show ?case by (rule append_event_inv)
next
  case (2 j n e p j')
  then show ?case by (simp add: latest_after_append)
next
  case (3 j n e p j' run)
  then show ?case by (simp add: latest_after_append)
next
  case (4 j n e p j' tip)
  then have link: "next_link j e" using append_event_Inr by blast
  show ?case using next_link_inv(1,3) [OF 4(1) link] 4(3)
    by (auto simp: latest_event_state_inv [OF 4(1)])
qed

interpretation jsec: secret_store "put_secret A" "secret A" delete_secret
    "\<lambda>n. aead_law A \<and> length n = 24"
  for A :: aead_prims
proof (unfold_locales, goal_cases)
  case (1 n name v j j')
  then obtain c where c: "encrypt_bundle A (jn_key j) n v name = Inr c"
    "j' = j\<lparr>jn_secrets := bt_insert name c (jn_secrets j)\<rparr>"
    by (auto simp: put_secret_def split: if_splits)
  have "decrypt_bundle A (jn_key j) c name = Inr v"
    using 1 decrypt_encrypt [OF _ _ c(1)] by simp
  then show ?case by (simp add: secret_def c(2))
qed (auto simp: put_secret_def delete_secret_def secret_def split: if_splits option.splits)

section \<open>Acknowledgement\<close>

lemma mark_row_fields [simp]:
  "jr_run_id (mark_row i receipt r) = jr_run_id r" "jr_sequence (mark_row i receipt r) = jr_sequence r"
  "jr_previous (mark_row i receipt r) = jr_previous r" "jr_hash (mark_row i receipt r) = jr_hash r"
  "jr_envelope (mark_row i receipt r) = jr_envelope r" "jr_private (mark_row i receipt r) = jr_private r"
  by (simp_all add: mark_row_def)

lemma acknowledge_event_cases:
  assumes "acknowledge_event i receipt j = (res, j')"
  obtains "j' = j" | "j' = j\<lparr>jn_events := map (mark_row i receipt) (jn_events j)\<rparr>"
  using assms by (auto simp: acknowledge_event_def Let_def split: if_splits option.splits)

lemma acknowledge_rows:
  assumes "acknowledge_event i receipt j = (res, j')"
  shows "map jr_envelope (jn_events j') = map jr_envelope (jn_events j)
    \<and> map jr_hash (jn_events j') = map jr_hash (jn_events j)
    \<and> jn_key j' = jn_key j \<and> jn_secrets j' = jn_secrets j"
  using acknowledge_event_cases [OF assms] by (cases; simp add: o_def)

lemma linked_map_cong:
  "map (\<lambda>r. (jr_sequence r, jr_previous r, jr_hash r)) xs
     = map (\<lambda>r. (jr_sequence r, jr_previous r, jr_hash r)) ys \<Longrightarrow> linked h n xs = linked h n ys"
proof (induction xs arbitrary: h n ys)
  case (Cons x xs)
  then obtain y ys' where ys: "ys = y # ys'" by (cases ys) auto
  with Cons show ?case by auto
qed simp

lemma acknowledge_inv:
  assumes inv: "journal_inv P j" and ack: "acknowledge_event i receipt j = (res, j')"
  shows "journal_inv P j'"
  using ack
proof (cases rule: acknowledge_event_cases)
  case 2
  have "run_rows run j' = map (mark_row i receipt) (run_rows run j)" for run
    by (simp add: run_rows_def 2 filter_map o_def)
  then have "linked zero_hash 0 (run_rows run j')" for run
    using inv linked_map_cong [of "map (mark_row i receipt) (run_rows run j)" "run_rows run j"]
    by (simp add: journal_inv_def o_def)
  moreover have "list_all (row_ok P) (jn_events j')"
    using inv by (simp add: journal_inv_def 2 list_all_iff row_ok_def)
  moreover have "map jr_hash (jn_events j') = map jr_hash (jn_events j)"
    using acknowledge_rows [OF ack] by simp
  ultimately show ?thesis using inv by (simp add: journal_inv_def)
qed (use inv in simp)

lemma find_mark_row:
  assumes "find (\<lambda>r. ev_event_id (jr_envelope r) = i) rs = Some r" and "jr_receipt r = None"
  shows "find (\<lambda>r. ev_event_id (jr_envelope r) = i) (map (mark_row i receipt) rs)
    = Some (r\<lparr>jr_receipt := Some receipt\<rparr>)"
  using assms
proof (induction rs)
  case (Cons x xs)
  then show ?case by (cases "ev_event_id (jr_envelope x) = i") (auto simp: mark_row_def)
qed simp

lemma acknowledged_row:
  assumes "acknowledge_event i receipt j = (Inr (), j')"
  shows "\<not> blank receipt \<and> (\<exists>r. find (\<lambda>r. ev_event_id (jr_envelope r) = i) (jn_events j') = Some r
    \<and> jr_receipt r = Some receipt)"
  using assms
  by (auto simp: acknowledge_event_def Let_def find_mark_row split: if_splits option.splits)

lemma acknowledge_Inr_cases:
  assumes "find (\<lambda>r. ev_event_id (jr_envelope r) = i) (jn_events j) = Some r"
    and "jr_receipt r = Some receipt"
  shows "acknowledge_event i receipt' j =
    (if blank receipt' \<or> receipt' \<noteq> receipt then (Inl JSequence, j) else (Inr (), j))"
  using assms by (auto simp: acknowledge_event_def)

text \<open>
  An acknowledgement is final and idempotent. Once an event's receipt is stored, the same
  receipt is accepted again without a change, any other is refused without a change; and an
  acknowledgement touches nothing but receipts, so the chain invariant survives it.
\<close>

theorem acknowledgement_is_final:
  assumes "journal_inv P j" and "acknowledge_event i receipt j = (Inr (), j')"
  shows "acknowledge_event i receipt j' = (Inr (), j')
    \<and> (\<forall>other. other \<noteq> receipt \<longrightarrow> acknowledge_event i other j' = (Inl JSequence, j'))
    \<and> journal_inv P j' \<and> map jr_envelope (jn_events j') = map jr_envelope (jn_events j)"
proof -
  obtain r where r: "\<not> blank receipt"
    "find (\<lambda>r. ev_event_id (jr_envelope r) = i) (jn_events j') = Some r" "jr_receipt r = Some receipt"
    using acknowledged_row [OF assms(2)] by blast
  show ?thesis
    using acknowledge_Inr_cases [OF r(2,3)] r(1) acknowledge_inv [OF assms] acknowledge_rows [OF assms(2)]
    by simp
qed

section \<open>Appending\<close>

lemma find_snoc: "(\<And>x. x \<in> set xs \<Longrightarrow> \<not> Q x) \<Longrightarrow> Q y \<Longrightarrow> find Q (xs @ [y]) = Some y"
  by (induction xs) auto

lemma open_journal_inv [simp]: "journal_inv P (open_journal key)"
  by (simp add: journal_inv_def open_journal_def run_rows_def)

text \<open>
  C19. The journal keeps one hash chain per run. An accepted event has a valid hash and
  signature, is numbered one past the events of its run and names the hash of the last of
  them (sequence one and the zero hash for the first); it becomes the run's latest event,
  other runs keep theirs, the invariant is kept, and the same event is never accepted again.
\<close>

theorem append_extends_chain:
  assumes "journal_inv P j" and "append_event P A nonce e p j = Inr j'"
  shows "journal_inv P j' \<and> verify_event P e = Inr ()
    \<and> uint (ev_sequence e) = int (length (run_rows (ev_run_id e) j)) + 1
    \<and> ev_previous_event_sha256 e = (if run_rows (ev_run_id e) j = [] then zero_hash
        else jr_hash (last (run_rows (ev_run_id e) j)))
    \<and> latest_event_state (ev_run_id e) j' = Inr (Some (ev_sequence e, ev_event_sha256 e))
    \<and> (\<forall>run. run \<noteq> ev_run_id e \<longrightarrow> latest_event_state run j' = latest_event_state run j)
    \<and> (\<forall>nonce' p'. \<not> is_ok (append_event P A nonce' e p' j'))"
proof -
  obtain c bytes where "verify_event P e = Inr ()" and link: "next_link j e"
    by (rule append_event_Inr [OF assms(2)])
  moreover have "\<forall>nonce' p'. \<not> is_ok (append_event P A nonce' e p' j')"
    using jlog.no_replay [OF assms] by (auto simp: is_ok_iff)
  ultimately show ?thesis
    using append_event_inv [OF assms] next_link_inv(2,3) [OF assms(1) link]
      jlog.append_latest [OF assms] jlog.append_other [OF assms] by simp
qed

text \<open>
  The private payload of an appended event is stored sealed to the event's hash and reads
  back as the bytes that were appended.
\<close>

theorem private_payload_reads_back:
  assumes "aead_law A" and "length nonce = 24" and "journal_inv P j"
    and "append_event P A nonce e p j = Inr j'"
    and "json_to_vec P p = Some bytes" and "json_from bytes = Some p"
  shows "private_payload A json_from (ev_event_sha256 e) j' = Inr (Some p)"
proof -
  obtain c bytes' where j': "j' = j\<lparr>jn_events := jn_events j @ [new_row e c]\<rparr>"
    and new: "\<not> row_conflict j (new_row e c)" and b: "json_to_vec P p = Some bytes'"
    and c: "encrypt_bundle A (jn_key j) nonce bytes' (ev_event_sha256 e) = Inr c"
    by (rule append_event_Inr [OF assms(4)])
  have "find (\<lambda>r. jr_hash r = ev_event_sha256 e) (jn_events j @ [new_row e c]) = Some (new_row e c)"
    using new by (intro find_snoc) (auto simp: row_conflict_def list_ex_iff)
  then show ?thesis
    using decrypt_encrypt [OF assms(1,2) c] b assms(5,6)
    by (simp add: private_payload_def j')
qed

text \<open>
  A local secret reads back as it was last written under its name, writing or deleting it
  affects no other secret, and a deleted secret is gone.
\<close>

theorem secret_reads_back:
  assumes "aead_law A" and "length nonce = 24" and "put_secret A nonce name v j = Inr j'"
  shows "secret A name j' = Inr (Some v)
    \<and> (\<forall>other. other \<noteq> name \<longrightarrow> secret A other j' = secret A other j)
    \<and> (\<forall>j''. delete_secret name j' = Inr j'' \<longrightarrow> secret A name j'' = Inr None)
    \<and> jn_events j' = jn_events j"
  using jsec.put_get [OF conjI [OF assms(1,2)] assms(3)] jsec.put_other [OF assms(3)] jsec.del_get assms(3)
  by (auto simp: put_secret_def split: if_splits)

section \<open>The export\<close>

text \<open>Each event of a list verifies and is the first of its run or the next link after its
  predecessor in the list.\<close>

definition chain_at :: "prims \<Rightarrow> run_event list \<Rightarrow> nat \<Rightarrow> bool" where
  "chain_at P es i \<longleftrightarrow> verify_event P (es ! i) = Inr ()
     \<and> (if i = 0 \<or> ev_run_id (es ! (i - 1)) \<noteq> ev_run_id (es ! i)
        then ev_sequence (es ! i) = 1 \<and> ev_previous_event_sha256 (es ! i) = zero_hash
        else ev_sequence (es ! i) = ev_sequence (es ! (i - 1)) + 1
          \<and> ev_previous_event_sha256 (es ! i) = ev_event_sha256 (es ! (i - 1)))"

definition exported_chain :: "prims \<Rightarrow> run_event list \<Rightarrow> bool" where
  "exported_chain P es \<longleftrightarrow> (\<forall>i < length es. chain_at P es i)"

lemma chain_at_append [simp]: "i < length xs \<Longrightarrow> chain_at P (xs @ ys) i = chain_at P xs i"
proof -
  assume i: "i < length xs"
  then have "(xs @ ys) ! i = xs ! i" "(xs @ ys) ! (i - 1) = xs ! (i - 1)"
    by (auto simp: nth_append)
  then show ?thesis by (simp only: chain_at_def)
qed

lemma exported_chain_prefix: "exported_chain P (xs @ ys) \<Longrightarrow> exported_chain P xs"
  unfolding exported_chain_def
proof (intro allI impI)
  fix i assume all: "\<forall>i < length (xs @ ys). chain_at P (xs @ ys) i" and i: "i < length xs"
  then have "chain_at P (xs @ ys) i" by (simp del: chain_at_append)
  with i show "chain_at P xs i" by simp
qed

definition attach :: "journal_row \<Rightarrow> run_event" where
  "attach r = (jr_envelope r)\<lparr>ev_server_receipt := jr_receipt r\<rparr>"

lemma attach_fields [simp]:
  "ev_run_id (attach r) = ev_run_id (jr_envelope r)"
  "ev_sequence (attach r) = ev_sequence (jr_envelope r)"
  "ev_event_sha256 (attach r) = ev_event_sha256 (jr_envelope r)"
  "ev_previous_event_sha256 (attach r) = ev_previous_event_sha256 (jr_envelope r)"
  "verify_event P (attach r) = verify_event P (jr_envelope r)"
  by (simp_all add: attach_def)

text \<open>What the loop remembers after a prefix.\<close>

definition audit_state_of :: "run_event list \<Rightarrow> audit_state" where
  "audit_state_of es = (if es = [] then (None, 0, '''')
     else (Some (ev_run_id (last es)), ev_sequence (last es), ev_event_sha256 (last es)))"

definition link_ok :: "prims \<Rightarrow> audit_state \<Rightarrow> run_event \<Rightarrow> bool" where
  "link_ok P st e = (verify_event P e = Inr () \<and> (case st of (run, seqno, hash) \<Rightarrow>
     (if run = Some (ev_run_id e)
      then ev_sequence e = seqno + 1 \<and> ev_previous_event_sha256 e = hash
      else ev_sequence e = 1 \<and> ev_previous_event_sha256 e = zero_hash)))"

lemma audit_rows_step:
  "audit_rows P st (r # rs) = Inr es \<longleftrightarrow> link_ok P st (jr_envelope r) \<and>
    (\<exists>es'. es = attach r # es' \<and>
      audit_rows P (Some (ev_run_id (jr_envelope r)), ev_sequence (jr_envelope r),
        ev_event_sha256 (jr_envelope r)) rs = Inr es')"
  by (cases st; cases "verify_event P (jr_envelope r)")
    (auto simp: Let_def link_ok_def attach_def rbind_eq_Inr)

lemma audit_state_snoc:
  "audit_state_of (es @ [e]) = (Some (ev_run_id e), ev_sequence e, ev_event_sha256 e)"
  by (simp add: audit_state_of_def)

lemma link_ok_attach [simp]: "link_ok P st (attach r) = link_ok P st (jr_envelope r)"
  by (simp add: link_ok_def cong: prod.case_cong)

lemma chain_at_last: "chain_at P (es @ [e]) (length es) = link_ok P (audit_state_of es) e"
proof (cases es rule: rev_cases)
  case (snoc fs f)
  then show ?thesis by (simp add: chain_at_def link_ok_def audit_state_of_def nth_append)
qed (simp add: chain_at_def link_ok_def audit_state_of_def)

lemma exported_chain_snoc:
  "exported_chain P (es @ [e]) \<longleftrightarrow> exported_chain P es \<and> link_ok P (audit_state_of es) e"
  by (auto simp: exported_chain_def All_less_Suc chain_at_last)

lemma audit_rows_sound:
  "audit_rows P (audit_state_of es) rs = Inr es' \<Longrightarrow> exported_chain P es \<Longrightarrow>
    exported_chain P (es @ es') \<and> es' = map attach rs"
proof (induction rs arbitrary: es es')
  case (Cons r rs)
  then obtain es'' where step: "link_ok P (audit_state_of es) (jr_envelope r)"
    "es' = attach r # es''"
    "audit_rows P (Some (ev_run_id (jr_envelope r)), ev_sequence (jr_envelope r),
        ev_event_sha256 (jr_envelope r)) rs = Inr es''"
    by (auto simp: audit_rows_step)
  have "link_ok P (audit_state_of es) (attach r)"
    using step(1) by simp
  then have "exported_chain P (es @ [attach r])"
    using Cons.prems(2) by (simp add: exported_chain_snoc)
  moreover have "audit_rows P (audit_state_of (es @ [attach r])) rs = Inr es''"
    using step(3) by (simp add: audit_state_snoc)
  ultimately have "exported_chain P ((es @ [attach r]) @ es'')" "es'' = map attach rs"
    using Cons.IH by blast+
  then show ?case using step(2) by simp
qed simp

lemma audit_rows_complete:
  "exported_chain P (es @ map attach rs) \<Longrightarrow>
    audit_rows P (audit_state_of es) rs = Inr (map attach rs)"
proof (induction rs arbitrary: es)
  case (Cons r rs)
  have c: "exported_chain P ((es @ [attach r]) @ map attach rs)" using Cons.prems by simp
  then have "exported_chain P (es @ [attach r])" by (rule exported_chain_prefix)
  then have "link_ok P (audit_state_of es) (jr_envelope r)" by (simp add: exported_chain_snoc)
  with Cons.IH [OF c] show ?case by (simp add: audit_rows_step audit_state_snoc)
qed simp

text \<open>
  The export cannot return a broken chain, whatever rows the database holds: every
  returned event verifies, the first event of a run has sequence one and the zero hash, and
  every other names the hash and the successor of the sequence number of the event before it.
\<close>

theorem export_is_chained:
  assumes "public_events P j = Inr es"
  shows "\<forall>i < length es. verify_event P (es ! i) = Inr ()
     \<and> (if i = 0 \<or> ev_run_id (es ! (i - 1)) \<noteq> ev_run_id (es ! i)
        then ev_sequence (es ! i) = 1 \<and> ev_previous_event_sha256 (es ! i) = zero_hash
        else ev_sequence (es ! i) = ev_sequence (es ! (i - 1)) + 1
          \<and> ev_previous_event_sha256 (es ! i) = ev_event_sha256 (es ! (i - 1)))"
proof -
  have "exported_chain P []" by (simp add: exported_chain_def)
  with audit_rows_sound [of P "[]"] assms have "exported_chain P es"
    by (simp add: public_events_def audit_state_of_def)
  then show ?thesis by (simp add: exported_chain_def chain_at_def)
qed

definition export_key :: "prims \<Rightarrow> journal_row \<Rightarrow> string \<times> int" where
  "export_key P r = (uuid_str P (jr_run_id r), jr_sequence r)"

lemma filter_sorted_run:
  assumes "journal_inv P j"
  shows "filter (\<lambda>r. jr_run_id r = run) (sort_key (export_key P) (jn_events j)) = run_rows run j"
proof -
  have l: "linked zero_hash 0 (run_rows run j)" using assms by (simp add: journal_inv_def)
  have "sorted (map (export_key P) (run_rows run j))"
    unfolding sorted_iff_nth_mono
  proof (intro allI impI)
    fix i k assume ik: "i \<le> k" "k < length (map (export_key P) (run_rows run j))"
    then have "run_rows run j ! i \<in> set (run_rows run j)" "run_rows run j ! k \<in> set (run_rows run j)"
      by simp_all
    then have "jr_run_id (run_rows run j ! i) = run" "jr_run_id (run_rows run j ! k) = run"
      by (simp_all add: run_rows_def)
    then show "map (export_key P) (run_rows run j) ! i \<le> map (export_key P) (run_rows run j) ! k"
      using ik linked_nth [OF l] by (simp add: export_key_def)
  qed
  then have "sort_key (export_key P) (run_rows run j) = run_rows run j"
    by (rule sort_key_id_if_sorted)
  then show ?thesis by (simp add: run_rows_def filter_sort)
qed

lemma same_run_adjacent:
  assumes inj: "inj (uuid_str P)" and s: "sorted (map (export_key P) (xs @ r # rs))"
    and x: "x \<in> set xs" "jr_run_id x = jr_run_id r"
  shows "jr_run_id (last xs) = jr_run_id r"
proof -
  obtain ys z where xs: "xs = ys @ [z]" using x by (cases xs rule: rev_cases) auto
  have z: "last xs = z" by (simp add: xs)
  have "export_key P x \<le> export_key P (last xs)"
    using s x(1) by (auto simp: xs sorted_append)
  moreover have "export_key P (last xs) \<le> export_key P r"
    using s by (simp add: xs sorted_append)
  ultimately have "uuid_str P (jr_run_id x) \<le> uuid_str P (jr_run_id (last xs))"
    "uuid_str P (jr_run_id (last xs)) \<le> uuid_str P (jr_run_id r)"
    by (auto simp: export_key_def)
  with x(2) have "uuid_str P (jr_run_id (last xs)) = uuid_str P (jr_run_id r)" by simp
  with inj show ?thesis by (simp add: inj_eq)
qed

lemma sorted_rows_chain:
  assumes inv: "journal_inv P j" and inj: "inj (uuid_str P)"
    and split: "sort_key (export_key P) (jn_events j) = xs @ rs"
  shows "exported_chain P (map attach xs)"
  using split
proof (induction xs arbitrary: rs rule: rev_induct)
  case Nil
  show ?case by (simp add: exported_chain_def)
next
  case (snoc r xs)
  have ih: "exported_chain P (map attach xs)" using snoc by simp
  have all: "x \<in> set (xs @ r # rs) \<Longrightarrow> row_ok P x" for x
  proof -
    assume "x \<in> set (xs @ r # rs)"
    then have "x \<in> set (sort_key (export_key P) (jn_events j))" using snoc.prems by simp
    then show "row_ok P x" using inv by (simp add: journal_inv_def list_all_iff)
  qed
  let ?F = "filter (\<lambda>x. jr_run_id x = jr_run_id r)"
  have rows: "run_rows (jr_run_id r) j = ?F xs @ r # ?F rs"
    using filter_sorted_run [OF inv, of "jr_run_id r"] snoc.prems by simp
  have l: "linked zero_hash 0 (?F xs @ r # ?F rs)"
    using inv rows by (simp add: journal_inv_def flip: rows)
  have seq: "uint (ev_sequence (jr_envelope r)) = int (length (?F xs)) + 1"
    "ev_previous_event_sha256 (jr_envelope r)
      = (if ?F xs = [] then zero_hash else jr_hash (last (?F xs)))"
    using l all [of r] by (auto simp: linked_append row_ok_def)
  have srt: "sorted (map (export_key P) (xs @ r # rs))"
    using sorted_sort_key [of "export_key P" "jn_events j"] snoc.prems by simp
  have "link_ok P (audit_state_of (map attach xs)) (jr_envelope r)"
  proof (cases "?F xs = []")
    case True
    then have "xs \<noteq> [] \<Longrightarrow> jr_run_id (last xs) \<noteq> jr_run_id r"
      by (auto simp: filter_empty_conv)
    moreover have "ev_sequence (jr_envelope r) = 1"
      using seq(1) True by (simp add: word_uint_eq_iff)
    ultimately show ?thesis using seq(2) True all [of r] all [of "last xs"]
      by (auto simp: link_ok_def audit_state_of_def last_map row_ok_def)
  next
    case False
    then obtain x where x: "x \<in> set xs" "jr_run_id x = jr_run_id r"
      by (auto simp: filter_empty_conv)
    have ne: "xs \<noteq> []" using x by auto
    have run: "jr_run_id (last xs) = jr_run_id r" by (rule same_run_adjacent [OF inj srt x])
    obtain ys where ys: "xs = ys @ [last xs]" using ne by (metis append_butlast_last_id)
    have F: "?F xs = ?F ys @ [last xs]" using run by (subst ys) simp
    have "linked zero_hash 0 (?F ys @ [last xs])"
      using l F by (simp add: linked_append)
    then have "uint (ev_sequence (jr_envelope (last xs))) = int (length (?F ys)) + 1"
      using all [of "last xs"] ne by (auto simp: linked_append row_ok_def)
    then have "uint (ev_sequence (jr_envelope r)) = uint (ev_sequence (jr_envelope (last xs))) + 1"
      using seq(1) F by simp
    then have "ev_sequence (jr_envelope r) = ev_sequence (jr_envelope (last xs)) + 1"
      by (metis word_of_int_uint wi_hom_add word_of_int_1)
    then show ?thesis using seq(2) F run ne all [of r] all [of "last xs"]
      by (auto simp: link_ok_def audit_state_of_def last_map row_ok_def)
  qed
  with ih show ?case by (simp add: exported_chain_snoc)
qed

lemma public_events_Inr:
  assumes "journal_inv P j" and "inj (uuid_str P)"
  shows "public_events P j = Inr (map attach (sort_key (export_key P) (jn_events j)))"
proof -
  let ?S = "sort_key (export_key P) (jn_events j)"
  have "exported_chain P (map attach ?S)"
    by (rule sorted_rows_chain [OF assms, of ?S "[]"]) simp
  then have "audit_rows P (audit_state_of []) ?S = Inr (map attach ?S)"
    using audit_rows_complete [of P "[]" ?S] by simp
  then show ?thesis by (simp add: public_events_def audit_state_of_def export_key_def [abs_def])
qed

lemma exported_run:
  assumes "journal_inv P j"
  shows "filter (\<lambda>e. ev_run_id e = run) (map attach (sort_key (export_key P) (jn_events j)))
    = map attach (run_rows run j)"
proof -
  let ?S = "sort_key (export_key P) (jn_events j)"
  have ids: "r \<in> set (jn_events j) \<Longrightarrow> ev_run_id (jr_envelope r) = jr_run_id r" for r
    using assms by (simp add: journal_inv_def list_all_iff row_ok_def)
  have "filter (\<lambda>e. ev_run_id e = run) (map attach ?S)
      = map attach (filter (\<lambda>r. ev_run_id (jr_envelope r) = run) ?S)"
    by (simp add: filter_map o_def)
  also have "filter (\<lambda>r. ev_run_id (jr_envelope r) = run) ?S = filter (\<lambda>r. jr_run_id r = run) ?S"
    using ids by (intro filter_cong) auto
  finally show ?thesis using filter_sorted_run [OF assms] by simp
qed

text \<open>
  C22. The export is complete: a journal that only ever grew by accepted events exports
  without an error, and gives for every run exactly its events in order, each with the
  receipt stored for it.
\<close>

theorem export_is_complete:
  assumes "journal_inv P j" and "inj (uuid_str P)"
  shows "\<exists>es. public_events P j = Inr es \<and> mset es = mset (map attach (jn_events j))
    \<and> (\<forall>run. filter (\<lambda>e. ev_run_id e = run) es = map attach (run_rows run j))"
  using public_events_Inr [OF assms] exported_run [OF assms(1)] by (metis mset_map mset_sort)

section \<open>A concrete journal\<close>

definition toy_ids :: prims where
  "toy_ids = toy_prims\<lparr>uuid_str := \<lambda>u. replicate (unat u) (CHR ''x'')\<rparr>"

lemma toy_ids_inj: "inj (uuid_str toy_ids)"
proof (rule injI)
  fix u v assume "uuid_str toy_ids u = uuid_str toy_ids v"
  then have "unat u = unat v" by (metis toy_ids_def length_replicate prims.select_convs(14)
        prims.update_convs(14) prims.surjective)
  then show "u = v" by (simp add: word_unat_eq_iff)
qed

definition toy_nonce :: string where "toy_nonce = replicate 24 (CHR ''n'')"

definition toy_row :: journal_row where
  "toy_row = new_row toy_event \<lparr>bc_nonce = toy_nonce, bc_ciphertext = ''jsonjson''\<rparr>"

definition toy_journal :: journal where
  "toy_journal = (open_journal ''key'')\<lparr>jn_events := [toy_row]\<rparr>"

lemma toy_event_verifies: "verify_event toy_ids toy_event = Inr ()"
  by (simp add: verify_event_def canonical_json_def unsigned_event_def toy_ids_def toy_prims_def
      toy_event_def jtime_def verify_signature_def)

lemma toy_appended:
  "append_event toy_ids toy_aead toy_nonce toy_event JNull (open_journal ''key'') = Inr toy_journal"
proof -
  have "next_link (open_journal ''key'') toy_event"
    by (simp add: next_link_def latest_row_def run_rows_def open_journal_def toy_event_def zero_hash_def)
  moreover have "json_to_vec toy_ids JNull = Some ''json''" by (simp add: toy_ids_def toy_prims_def)
  moreover have "encrypt_bundle toy_aead ''key'' toy_nonce ''json'' ''json''
      = Inr \<lparr>bc_nonce = toy_nonce, bc_ciphertext = ''jsonjson''\<rparr>"
    by (simp add: encrypt_bundle_def toy_aead_def)
  moreover have "ev_event_sha256 toy_event = ''json''" "ev_sequence toy_event = 1"
    by (simp_all add: toy_event_def)
  ultimately show ?thesis
    by (simp add: append_event_def toy_event_verifies is_i64_def row_conflict_def toy_journal_def toy_row_def)
      (simp add: open_journal_def)
qed

theorem append_extends_chain_witness:
  "append_event toy_ids toy_aead toy_nonce toy_event JNull (open_journal ''key'') = Inr toy_journal
   \<and> journal_inv toy_ids toy_journal
   \<and> \<not> is_ok (append_event toy_ids toy_aead toy_nonce toy_event JNull toy_journal)"
  using append_extends_chain [OF open_journal_inv toy_appended] toy_appended by blast

lemma toy_journal_inv: "journal_inv toy_ids toy_journal"
  by (rule append_event_inv [OF open_journal_inv toy_appended])

theorem private_payload_reads_back_witness:
  "private_payload toy_aead (\<lambda>b. Some JNull) (ev_event_sha256 toy_event) toy_journal = Inr (Some JNull)"
proof -
  have "json_to_vec toy_ids JNull = Some ''json''" by (simp add: toy_ids_def toy_prims_def)
  then show ?thesis
    using private_payload_reads_back [OF toy_aead_law _ open_journal_inv toy_appended]
    by (simp add: toy_nonce_def)
qed

lemma toy_acknowledged:
  "acknowledge_event 7 ''r'' toy_journal
     = (Inr (), toy_journal\<lparr>jn_events := [toy_row\<lparr>jr_receipt := Some ''r''\<rparr>]\<rparr>)"
  by (simp add: acknowledge_event_def toy_journal_def toy_row_def toy_event_def mark_row_def
      blank_def byte_def ascii_ws_def)

theorem acknowledgement_is_final_witness:
  "\<exists>j. acknowledge_event 7 ''r'' toy_journal = (Inr (), j)
    \<and> acknowledge_event 7 ''r'' j = (Inr (), j) \<and> acknowledge_event 7 ''s'' j = (Inl JSequence, j)"
  using acknowledgement_is_final [OF toy_journal_inv toy_acknowledged] toy_acknowledged by auto

theorem secret_reads_back_witness:
  "\<exists>j. put_secret toy_aead toy_nonce ''name'' ''v'' toy_journal = Inr j
    \<and> secret toy_aead ''name'' j = Inr (Some ''v'')"
proof -
  obtain j where j: "put_secret toy_aead toy_nonce ''name'' ''v'' toy_journal = Inr j"
    by (simp add: put_secret_def encrypt_bundle_def toy_aead_def)
  have "length toy_nonce = 24" by (simp add: toy_nonce_def)
  with secret_reads_back [OF toy_aead_law _ j] j show ?thesis by blast
qed

theorem export_is_complete_witness:
  "\<exists>es. public_events toy_ids toy_journal = Inr es
    \<and> filter (\<lambda>e. ev_run_id e = 2) es = map attach (run_rows 2 toy_journal)"
  using export_is_complete [OF toy_journal_inv toy_ids_inj] by blast

lemma toy_exported: "public_events toy_ids toy_journal = Inr [attach toy_row]"
  using toy_event_verifies
  by (simp add: public_events_def toy_journal_def toy_row_def attach_def)
    (simp add: toy_event_def zero_hash_def)

theorem export_is_chained_witness:
  "public_events toy_ids toy_journal = Inr [attach toy_row]
    \<and> ev_previous_event_sha256 (attach toy_row) = zero_hash"
  using export_is_chained [OF toy_exported] toy_exported by simp

end
