(* ===== verification/Effects.thy ===== *)
theory Effects
  imports Prelude
begin

text \<open>
  Sequencing of effects. A fallible operation on a state is a function to its result and the
  state it leaves, kept on an error as well, the way an early return by \<open>?\<close> leaves the
  journal and the venue as they are. A relation between the states before and after a step
  that is reflexive and transitive is closed under sequencing: the locale
  \<open>step_relation\<close>, interpreted on the relations the components use.
\<close>

type_synonym ('s, 'e, 'a) step = "'s \<Rightarrow> ('e + 'a) \<times> 's"

definition sret :: "'a \<Rightarrow> ('s, 'e, 'a) step" where "sret x s = (Inr x, s)"
definition slift :: "'e + 'a \<Rightarrow> ('s, 'e, 'a) step" where "slift m s = (m, s)"

definition sbind :: "('s, 'e, 'a) step \<Rightarrow> ('a \<Rightarrow> ('s, 'e, 'b) step) \<Rightarrow> ('s, 'e, 'b) step" where
  "sbind m f s = (case m s of (Inl e, s') \<Rightarrow> (Inl e, s') | (Inr x, s') \<Rightarrow> f x s')"

definition serr :: "('e \<Rightarrow> 'f) \<Rightarrow> ('s, 'e, 'a) step \<Rightarrow> ('s, 'f, 'a) step" where
  "serr f m s = (case m s of (r, s') \<Rightarrow> (map_err f r, s'))"

text \<open>Reading the state, and running a step whose outcome decides the next.\<close>

definition sget :: "('s \<Rightarrow> 'a) \<Rightarrow> ('s, 'e, 'a) step" where "sget g s = (Inr (g s), s)"
definition sput :: "('s \<Rightarrow> 's) \<Rightarrow> ('s, 'e, unit) step" where "sput g s = (Inr (), g s)"

definition stry :: "('s, 'e, 'a) step \<Rightarrow> ('s, 'f, 'e + 'a) step" where
  "stry m s = (case m s of (r, s') \<Rightarrow> (Inr r, s'))"

fun sfor :: "('a \<Rightarrow> ('s, 'e, 'b) step) \<Rightarrow> 'a list \<Rightarrow> ('s, 'e, 'b list) step" where
  "sfor f [] = sret []"
| "sfor f (x # xs) = sbind (f x) (\<lambda>y. sbind (sfor f xs) (\<lambda>ys. sret (y # ys)))"

named_theorems steps "evaluation of steps"

lemma sbind_ret [simp, steps]: "sbind (sret x) f = f x"
  by (simp add: sbind_def sret_def fun_eq_iff)

lemma sret_apply [steps]: "sret x s = (Inr x, s)" by (simp add: sret_def)
lemma slift_apply [steps]: "slift m s = (m, s)" by (simp add: slift_def)
lemma sget_apply [steps]: "sget g s = (Inr (g s), s)" by (simp add: sget_def)
lemma sput_apply [steps]: "sput g s = (Inr (), g s)" by (simp add: sput_def)

lemma sbind_assoc: "sbind (sbind m f) g = sbind m (\<lambda>x. sbind (f x) g)"
  by (auto simp: sbind_def fun_eq_iff split: prod.splits sum.splits)

lemma sbind_InrE:
  assumes "sbind m f s = (Inr y, s')"
  obtains x s1 where "m s = (Inr x, s1)" and "f x s1 = (Inr y, s')"
  using assms by (auto simp: sbind_def split: prod.splits sum.splits)

lemma sbind_cases:
  assumes "sbind m f s = (r, s')"
  obtains (failed) e where "m s = (Inl e, s')" and "r = Inl e"
  | (ok) x s1 where "m s = (Inr x, s1)" and "f x s1 = (r, s')"
  using assms by (auto simp: sbind_def split: prod.splits sum.splits)

lemma serr_cases:
  assumes "serr f m s = (r, s')"
  obtains r' where "m s = (r', s')" and "r = map_err f r'"
  using assms by (auto simp: serr_def split: prod.splits)

section \<open>Relations kept by steps\<close>

definition keeps :: "('s \<Rightarrow> 's \<Rightarrow> bool) \<Rightarrow> ('s, 'e, 'a) step \<Rightarrow> bool" where
  "keeps R m \<longleftrightarrow> (\<forall>s. R s (snd (m s)))"

lemma keepsD: "keeps R m \<Longrightarrow> m s = (r, s') \<Longrightarrow> R s s'"
  unfolding keeps_def by (metis snd_conv)

lemma keepsI: "(\<And>s r s'. m s = (r, s') \<Longrightarrow> R s s') \<Longrightarrow> keeps R m"
  unfolding keeps_def by (metis prod.collapse)

lemma keeps_err [intro]: "keeps R m \<Longrightarrow> keeps R (serr f m)"
  by (auto intro!: keepsI elim!: serr_cases dest: keepsD)

lemma keeps_try [intro]: "keeps R m \<Longrightarrow> keeps R (stry m)"
  by (auto intro!: keepsI simp: stry_def dest: keepsD split: prod.splits)

locale step_relation =
  fixes R :: "'s \<Rightarrow> 's \<Rightarrow> bool"
  assumes R_refl: "R s s" and R_trans: "R s t \<Longrightarrow> R t u \<Longrightarrow> R s u"
begin

lemma keeps_ret: "keeps R (sret x)"
  by (simp add: keeps_def sret_def R_refl)

lemma keeps_lift: "keeps R (slift m)"
  by (simp add: keeps_def slift_def R_refl)

lemma keeps_get: "keeps R (sget g)"
  by (simp add: keeps_def sget_def R_refl)

lemma keeps_bind:
  assumes "keeps R m" and "\<And>x. keeps R (f x)"
  shows "keeps R (sbind m f)"
proof (rule keepsI)
  fix s r s' assume "sbind m f s = (r, s')"
  then show "R s s'"
  proof (cases rule: sbind_cases)
    case (failed e)
    then show ?thesis using keepsD [OF assms(1)] by blast
  next
    case (ok x s1)
    then show ?thesis using R_trans keepsD [OF assms(1)] keepsD [OF assms(2)] by blast
  qed
qed

lemma keeps_for: "(\<And>x. keeps R (f x)) \<Longrightarrow> keeps R (sfor f xs)"
  by (induction xs) (simp_all add: keeps_ret keeps_bind)

lemma keeps_if: "keeps R m \<Longrightarrow> keeps R n \<Longrightarrow> keeps R (if b then m else n)"
  by simp

lemmas keeps_intros = keeps_ret keeps_lift keeps_get keeps_bind keeps_err keeps_try keeps_for keeps_if

end

end
