(* ===== verification/LiveWriter.thy ===== *)
theory LiveWriter
  imports Journal Policy Effects
begin

text \<open>
  The durable event writer of \<open>crates/crow-agent-core/src/live.rs\<close>: every event is signed onto
  the run's chain, written to the local journal, and only then offered to the server, whose
  receipt is stored; events the server has not acknowledged are offered again first.

  The host is the journal, an abstract external world (server, venue, model, clock, random
  numbers) and the trace of the external effects in the order they happen; the trace is only
  written. What the code calls in the world is a record of functions \<open>host_env\<close>.
\<close>

section \<open>The host\<close>

datatype effect =
    EfSink run_event
  | EfReceipt uuid string
  | EfStore string string
  | EfQuery string
  | EfModel
  | EfGate bool
  | EfSubmit order_decision string

record 'w host =
  hs_journal :: journal
  hs_world :: 'w
  hs_trace :: "effect list"

record 'w host_env =
  he_clock :: "'w \<Rightarrow> int \<times> 'w"
  he_uuid :: "'w \<Rightarrow> uuid \<times> 'w"
  he_nonce :: "'w \<Rightarrow> string \<times> 'w"
  he_sink :: "run_event \<Rightarrow> 'w \<Rightarrow> string option \<times> 'w"

record writer =
  dw_signing_key :: string
  dw_arena_id :: uuid
  dw_run_id :: uuid

datatype durable_error = DwJournal journal_error | DwProtocol protocol_error | DwSink

text \<open>A call of the world; a call that is logged.\<close>

definition ask :: "('w \<Rightarrow> 'a \<times> 'w) \<Rightarrow> (('w, 'z) host_scheme, 'e, 'a) step" where
  "ask f s = (case f (hs_world s) of (x, w) \<Rightarrow> (Inr x, s\<lparr>hs_world := w\<rparr>))"

definition logged :: "effect \<Rightarrow> (('w, 'z) host_scheme, 'e, unit) step" where
  "logged ef = sput (\<lambda>s. s\<lparr>hs_trace := hs_trace s @ [ef]\<rparr>)"

text \<open>Running a journal operation on the host's journal.\<close>

definition on_journal ::
    "(journal \<Rightarrow> journal_error + journal) \<Rightarrow> (('w, 'z) host_scheme, durable_error, unit) step" where
  "on_journal f s = (case f (hs_journal s) of
     Inl e \<Rightarrow> (Inl (DwJournal e), s) | Inr j \<Rightarrow> (Inr (), s\<lparr>hs_journal := j\<rparr>))"

section \<open>The writer\<close>

definition send_event ::
    "'w host_env \<Rightarrow> run_event \<Rightarrow> (('w, 'z) host_scheme, durable_error, string) step" where
  "send_event E e =
     sbind (logged (EfSink e)) (\<lambda>_.
     sbind (ask (he_sink E e)) (\<lambda>receipt. slift (ok_or receipt DwSink)))"

definition acknowledge ::
    "uuid \<Rightarrow> string \<Rightarrow> (('w, 'z) host_scheme, durable_error, unit) step" where
  "acknowledge event_id receipt s = (case acknowledge_event event_id receipt (hs_journal s) of
     (r, j) \<Rightarrow> (map_err DwJournal r, s\<lparr>hs_journal := j\<rparr>))"

definition send_and_acknowledge ::
    "'w host_env \<Rightarrow> run_event \<Rightarrow> (('w, 'z) host_scheme, durable_error, string) step" where
  "send_and_acknowledge E e =
     sbind (send_event E e) (\<lambda>receipt.
     sbind (acknowledge (ev_event_id e) receipt) (\<lambda>_.
     sbind (logged (EfReceipt (ev_event_id e) receipt)) (\<lambda>_. sret receipt)))"

definition flush_pending ::
    "prims \<Rightarrow> 'w host_env \<Rightarrow> writer \<Rightarrow> (('w, 'z) host_scheme, durable_error, nat) step" where
  "flush_pending P E W =
     sbind (sget (\<lambda>s. pending_events P (dw_run_id W) (hs_journal s))) (\<lambda>r.
     sbind (slift (map_err DwJournal r)) (\<lambda>pending.
     sbind (sfor (send_and_acknowledge E) pending) (\<lambda>receipts. sret (length receipts))))"

definition put_local_secret ::
    "aead_prims \<Rightarrow> 'w host_env \<Rightarrow> string \<Rightarrow> string \<Rightarrow> (('w, 'z) host_scheme, durable_error, unit) step" where
  "put_local_secret A E name value =
     sbind (ask (he_nonce E)) (\<lambda>nonce.
     sbind (on_journal (put_secret A nonce name value)) (\<lambda>_. logged (EfStore name value)))"

definition next_position :: "writer \<Rightarrow> (('w, 'z) host_scheme, durable_error, u64 \<times> string) step" where
  "next_position W =
     sbind (sget (\<lambda>s. latest_event_state (dw_run_id W) (hs_journal s))) (\<lambda>r.
     sbind (slift (map_err DwJournal r)) (\<lambda>latest.
       sret (case latest of None \<Rightarrow> (1, zero_hash)
             | Some (seqno, hash) \<Rightarrow> (sat_add seqno 1, hash))))"

definition write_event ::
    "prims \<Rightarrow> aead_prims \<Rightarrow> 'w host_env \<Rightarrow> writer \<Rightarrow> uuid option \<Rightarrow> string \<Rightarrow> json \<Rightarrow> json
      \<Rightarrow> (('w, 'z) host_scheme, durable_error, run_event) step" where
  "write_event P A E W cycle_id event_type payload private =
     sbind (next_position W) (\<lambda>(seqno, previous).
     sbind (ask (he_clock E)) (\<lambda>now.
     sbind (ask (he_uuid E)) (\<lambda>event_id.
     sbind (slift (map_err DwProtocol (sign_event P (dw_signing_key W) event_id (dw_arena_id W)
              (dw_run_id W) cycle_id seqno previous event_type now payload))) (\<lambda>e.
     sbind (ask (he_nonce E)) (\<lambda>nonce.
     sbind (on_journal (append_event P A nonce e private)) (\<lambda>_. sret e))))))"

definition append_durable ::
    "prims \<Rightarrow> aead_prims \<Rightarrow> 'w host_env \<Rightarrow> writer \<Rightarrow> uuid option \<Rightarrow> string \<Rightarrow> json \<Rightarrow> json
      \<Rightarrow> (('w, 'z) host_scheme, durable_error, run_event) step" where
  "append_durable P A E W cycle_id event_type payload private =
     sbind (flush_pending P E W) (\<lambda>_.
     sbind (write_event P A E W cycle_id event_type payload private) (\<lambda>e.
     sbind (send_and_acknowledge E e) (\<lambda>receipt. sret (with_server_receipt e receipt))))"

section \<open>What every step of the writer keeps\<close>

definition envelopes :: "journal \<Rightarrow> run_event list" where
  "envelopes j = map jr_envelope (jn_events j)"

text \<open>The receipts a journal holds, each with its event.\<close>

definition receipted :: "journal \<Rightarrow> (run_event \<times> string) set" where
  "receipted j = {(jr_envelope r, x) | r x. r \<in> set (jn_events j) \<and> jr_receipt r = Some x}"

text \<open>
  The journal stays well-formed, only grows, and keeps its receipts; every event offered to
  the server has been written to the journal before, and every receipt reported is stored.
\<close>

definition effect_recorded :: "journal \<Rightarrow> effect \<Rightarrow> bool" where
  "effect_recorded j ef = (case ef of
      EfSink e \<Rightarrow> e \<in> set (envelopes j)
    | EfReceipt i x \<Rightarrow> \<exists>e. ev_event_id e = i \<and> (e, x) \<in> receipted j
    | _ \<Rightarrow> True)"

definition durable_rel ::
    "prims \<Rightarrow> ('w, 'z) host_scheme \<Rightarrow> ('w, 'z) host_scheme \<Rightarrow> bool" where
  "durable_rel P s s' \<longleftrightarrow> (journal_inv P (hs_journal s) \<longrightarrow> journal_inv P (hs_journal s'))
     \<and> (\<exists>new. envelopes (hs_journal s') = envelopes (hs_journal s) @ new)
     \<and> receipted (hs_journal s) \<subseteq> receipted (hs_journal s')
     \<and> (\<exists>t. hs_trace s' = hs_trace s @ t \<and> (\<forall>ef \<in> set t. effect_recorded (hs_journal s') ef))"

lemma effect_recorded_mono:
  assumes "effect_recorded j ef" and "set (envelopes j) \<subseteq> set (envelopes j')"
    and "receipted j \<subseteq> receipted j'"
  shows "effect_recorded j' ef"
  using assms by (cases ef) (auto simp: effect_recorded_def)

interpretation dur: step_relation "durable_rel P" for P :: prims
proof (unfold_locales, goal_cases)
  case (1 s)
  show ?case by (simp add: durable_rel_def)
next
  case (2 s t u)
  obtain x y where x: "hs_trace t = hs_trace s @ x" "\<forall>ef \<in> set x. effect_recorded (hs_journal t) ef"
    and y: "hs_trace u = hs_trace t @ y" "\<forall>ef \<in> set y. effect_recorded (hs_journal u) ef"
    using 2 unfolding durable_rel_def by blast
  have "set (envelopes (hs_journal t)) \<subseteq> set (envelopes (hs_journal u))"
    "receipted (hs_journal t) \<subseteq> receipted (hs_journal u)"
    using 2(2) by (auto simp: durable_rel_def)
  with x(2) have "\<forall>ef \<in> set x. effect_recorded (hs_journal u) ef"
    using effect_recorded_mono by blast
  with x(1) y have "\<exists>z. hs_trace u = hs_trace s @ z \<and> (\<forall>ef \<in> set z. effect_recorded (hs_journal u) ef)"
    by (intro exI [of _ "x @ y"]) auto
  then show ?case using 2 unfolding durable_rel_def by (metis append.assoc subset_trans)
qed

text \<open>A step on anything but the journal that logs an effect of no event.\<close>

lemma durable_ask: "keeps (durable_rel P) (ask f)"
  by (rule keepsI) (auto simp: ask_def durable_rel_def split: prod.splits)

lemma durable_same_journal:
  assumes "hs_journal s' = hs_journal s" and "hs_trace s' = hs_trace s @ t"
    and "\<And>ef. ef \<in> set t \<Longrightarrow> effect_recorded (hs_journal s) ef"
  shows "durable_rel P s s'"
  using assms by (auto simp: durable_rel_def)

lemma durable_logged:
  "(\<And>e. ef \<noteq> EfSink e) \<Longrightarrow> (\<And>i x. ef \<noteq> EfReceipt i x) \<Longrightarrow> keeps (durable_rel P) (logged ef)"
  by (rule keepsI, rule durable_same_journal [where t = "[ef]"])
    (auto simp: logged_def sput_def effect_recorded_def split: effect.split)

lemma acknowledge_receipted:
  assumes "acknowledge_event i x j = (r, j')"
  shows "receipted j \<subseteq> receipted j'"
  using assms
proof (cases rule: acknowledge_event_cases)
  case 2
  show ?thesis
  proof
    fix p assume "p \<in> receipted j"
    then obtain row y where row: "p = (jr_envelope row, y)" "row \<in> set (jn_events j)"
      "jr_receipt row = Some y" by (auto simp: receipted_def)
    then have "mark_row i x row = row" by (simp add: mark_row_def)
    then have "row \<in> set (jn_events j')" using row(2) unfolding 2 by force
    then show "p \<in> receipted j'" using row by (auto simp: receipted_def)
  qed
qed simp

lemma durable_acknowledge: "keeps (durable_rel P) (acknowledge i receipt)"
proof (rule keepsI)
  fix s :: "('a, 'b) host_scheme" and r s'
  assume step: "acknowledge i receipt s = (r, s')"
  obtain r' j where j: "acknowledge_event i receipt (hs_journal s) = (r', j)" by fastforce
  then have s': "s' = s\<lparr>hs_journal := j\<rparr>" using step by (simp add: acknowledge_def)
  show "durable_rel P s s'"
    using acknowledge_inv [OF _ j] acknowledge_rows [OF j] acknowledge_receipted [OF j]
    by (auto simp: durable_rel_def s' envelopes_def)
qed

lemma durable_put_secret: "keeps (durable_rel P) (on_journal (put_secret A nonce name v))"
proof (rule keepsI)
  fix s :: "('a, 'b) host_scheme" and r s'
  assume "on_journal (put_secret A nonce name v) s = (r, s')"
  then show "durable_rel P s s'"
    by (auto simp: on_journal_def put_secret_def durable_rel_def envelopes_def journal_inv_def
        run_rows_def receipted_def split: sum.splits if_splits)
qed

lemma durable_append: "keeps (durable_rel P) (on_journal (append_event P A nonce e p))"
proof (rule keepsI)
  fix s :: "('a, 'b) host_scheme" and r s'
  assume step: "on_journal (append_event P A nonce e p) s = (r, s')"
  show "durable_rel P s s'"
  proof (cases "append_event P A nonce e p (hs_journal s)")
    case (Inl x)
    with step dur.R_refl show ?thesis by (simp add: on_journal_def)
  next
    case (Inr j)
    with step have s': "s' = s\<lparr>hs_journal := j\<rparr>" by (simp add: on_journal_def)
    obtain c bytes where "j = (hs_journal s)\<lparr>jn_events := jn_events (hs_journal s) @ [new_row e c]\<rparr>"
      by (rule append_event_Inr [OF Inr])
    then show ?thesis using append_event_inv [OF _ Inr]
      by (auto simp: durable_rel_def s' envelopes_def receipted_def)
  qed
qed

lemmas durable_steps = dur.keeps_intros dur.keeps_bind durable_ask durable_acknowledge
  durable_put_secret durable_append

section \<open>The operations of the writer\<close>

lemma logged_apply [steps]: "logged ef s = (Inr (), s\<lparr>hs_trace := hs_trace s @ [ef]\<rparr>)"
  by (simp add: logged_def sput_def)

lemma ask_apply: "ask f s = (r, s') \<Longrightarrow> \<exists>x w. f (hs_world s) = (x, w) \<and> r = Inr x \<and> s' = s\<lparr>hs_world := w\<rparr>"
  by (auto simp: ask_def split: prod.splits)

lemma acknowledge_Inr:
  assumes "acknowledge i x s = (Inr u, s')"
  shows "acknowledge_event i x (hs_journal s) = (Inr (), hs_journal s') \<and> s' = s\<lparr>hs_journal := hs_journal s'\<rparr>"
  using assms by (auto simp: acknowledge_def map_err_def split: prod.splits sum.splits)

lemma acknowledge_stored:
  assumes "acknowledge_event i x j = (Inr (), j')"
  shows "\<exists>e. ev_event_id e = i \<and> (e, x) \<in> receipted j'"
proof -
  obtain r where "find (\<lambda>r. ev_event_id (jr_envelope r) = i) (jn_events j') = Some r"
    and "jr_receipt r = Some x" using acknowledged_row [OF assms] by blast
  then show ?thesis unfolding receipted_def find_Some_iff by (metis (mono_tags, lifting) mem_Collect_eq nth_mem)
qed

text \<open>Sending one event: its two outcomes.\<close>

lemma send_and_acknowledge_cases:
  assumes "send_and_acknowledge E e s = (r, s')"
  obtains (refused) x where "r = Inl x" and "hs_journal s' = hs_journal s"
      and "hs_trace s' = hs_trace s @ [EfSink e]" and "host.more s' = host.more s"
  | (unstored) x x' receipt where "r = Inl x"
      and "acknowledge_event (ev_event_id e) receipt (hs_journal s) = (Inl x', hs_journal s')"
      and "hs_trace s' = hs_trace s @ [EfSink e]" and "host.more s' = host.more s"
  | (stored) receipt where "r = Inr receipt"
      and "acknowledge_event (ev_event_id e) receipt (hs_journal s) = (Inr (), hs_journal s')"
      and "hs_trace s' = hs_trace s @ [EfSink e, EfReceipt (ev_event_id e) receipt]"
      and "host.more s' = host.more s"
  using assms
  by (auto simp: send_and_acknowledge_def send_event_def sbind_def logged_apply ask_def slift_def
      ok_or_def acknowledge_def map_err_def sret_def split: prod.splits sum.splits option.splits)

lemma durable_send:
  assumes "send_and_acknowledge E e s = (r, s')" and "e \<in> set (envelopes (hs_journal s))"
  shows "durable_rel P s s'"
  using assms(1)
proof (cases rule: send_and_acknowledge_cases)
  case (refused x)
  then show ?thesis using assms(2)
    by (intro durable_same_journal [where t = "[EfSink e]"]) (auto simp: effect_recorded_def)
next
  case (unstored x x' receipt)
  then show ?thesis using assms(2) acknowledge_inv [OF _ unstored(2)] acknowledge_rows [OF unstored(2)]
    acknowledge_receipted [OF unstored(2)]
    by (auto simp: durable_rel_def effect_recorded_def envelopes_def)
next
  case (stored receipt)
  then show ?thesis using assms(2) acknowledge_inv [OF _ stored(2)] acknowledge_rows [OF stored(2)]
    acknowledge_receipted [OF stored(2)] acknowledge_stored [OF stored(2)]
    by (auto simp: durable_rel_def effect_recorded_def envelopes_def)
qed

lemma durable_grows: "durable_rel P s s' \<Longrightarrow> set (envelopes (hs_journal s)) \<subseteq> set (envelopes (hs_journal s'))"
  by (auto simp: durable_rel_def)

lemma durable_send_all:
  assumes "sfor (send_and_acknowledge E) es s = (r, s')"
    and "set es \<subseteq> set (envelopes (hs_journal s))"
  shows "durable_rel P s s'"
  using assms
proof (induction es arbitrary: s r s')
  case Nil
  then show ?case using dur.R_refl by (auto simp: sret_def)
next
  case (Cons e es)
  from Cons.prems(1) have "sbind (send_and_acknowledge E e)
      (\<lambda>y. sbind (sfor (send_and_acknowledge E) es) (\<lambda>ys. sret (y # ys))) s = (r, s')" by simp
  then show ?case
  proof (cases rule: sbind_cases)
    case (failed x)
    then show ?thesis using durable_send Cons.prems(2) by fastforce
  next
    case (ok y s1)
    have first: "durable_rel P s s1" using durable_send [OF ok(1)] Cons.prems(2) by auto
    from ok(2) obtain r' where "sfor (send_and_acknowledge E) es s1 = (r', s')"
      by (cases rule: sbind_cases) (auto simp: sret_def)
    then have "durable_rel P s1 s'"
      using Cons.IH durable_grows [OF first] Cons.prems(2) by fastforce
    with first show ?thesis by (rule dur.R_trans)
  qed
qed

lemma rmap_map:
  "rmap f xs = Inr ys \<Longrightarrow> (\<And>x y. f x = Inr y \<Longrightarrow> y = g x) \<Longrightarrow> ys = map g xs"
  by (induction xs arbitrary: ys) auto

lemma pending_events_Inr:
  assumes "pending_events P run j = Inr es"
  shows "es = map jr_envelope (sort_key jr_sequence
      (filter (\<lambda>r. jr_run_id r = run \<and> jr_receipt r = None) (jn_events j)))"
  by (rule rmap_map [OF assms [unfolded pending_events_def]]) (auto split: sum.splits)

lemma durable_flush: "keeps (durable_rel P) (flush_pending P E W)"
proof (rule keepsI)
  fix s :: "('a, 'b) host_scheme" and r s'
  assume "flush_pending P E W s = (r, s')"
  then show "durable_rel P s s'"
  proof (cases "pending_events P (dw_run_id W) (hs_journal s)")
    case (Inl x)
    then show ?thesis using \<open>flush_pending P E W s = (r, s')\<close> dur.R_refl
      by (auto simp: flush_pending_def sbind_def sget_def slift_def)
  next
    case (Inr es)
    then have "set es \<subseteq> set (envelopes (hs_journal s))"
      by (auto simp: envelopes_def dest!: pending_events_Inr)
    moreover obtain r' where "sfor (send_and_acknowledge E) es s = (r', s')"
      using \<open>flush_pending P E W s = (r, s')\<close> Inr
      by (auto simp: flush_pending_def sbind_def sget_def slift_def sret_def split: prod.splits sum.splits)
    ultimately show ?thesis by (rule durable_send_all [rotated])
  qed
qed

lemma durable_write: "keeps (durable_rel P) (write_event P A E W cycle ty payload private)"
  unfolding write_event_def next_position_def
  by (intro durable_steps; split prod.splits; intro allI impI durable_steps)

lemma next_position_Inr:
  "next_position W s = (Inr x, s') \<Longrightarrow> s' = s \<and> (\<exists>latest. latest_event_state (dw_run_id W) (hs_journal s) = Inr latest
     \<and> x = (case latest of None \<Rightarrow> (1, zero_hash) | Some (seqno, hash) \<Rightarrow> (sat_add seqno 1, hash)))"
  unfolding next_position_def
  by (auto elim!: sbind_InrE simp: slift_def sget_def sret_def map_err_def split: sum.splits)

lemma write_event_Inr:
  assumes "write_event P A E W cycle ty payload private s = (Inr e, s')"
  obtains event_id now nonce n prev j w where "next_position W s = (Inr (n, prev), s)"
    and "sign_event P (dw_signing_key W) event_id (dw_arena_id W) (dw_run_id W) cycle n prev ty now payload = Inr e"
    and "append_event P A nonce e private (hs_journal s) = Inr j"
    and "s' = s\<lparr>hs_journal := j, hs_world := w\<rparr>"
proof -
  from assms obtain n prev where pos: "next_position W s = (Inr (n, prev), s)"
    and rest: "sbind (ask (he_clock E)) (\<lambda>now. sbind (ask (he_uuid E)) (\<lambda>event_id.
       sbind (slift (map_err DwProtocol (sign_event P (dw_signing_key W) event_id (dw_arena_id W)
              (dw_run_id W) cycle n prev ty now payload))) (\<lambda>e.
       sbind (ask (he_nonce E)) (\<lambda>nonce.
       sbind (on_journal (append_event P A nonce e private)) (\<lambda>_. sret e))))) s = (Inr e, s')"
  proof -
    from assms obtain x s1 where "next_position W s = (Inr x, s1)" and
      "(\<lambda>(n, prev). sbind (ask (he_clock E)) (\<lambda>now. sbind (ask (he_uuid E)) (\<lambda>event_id.
       sbind (slift (map_err DwProtocol (sign_event P (dw_signing_key W) event_id (dw_arena_id W)
              (dw_run_id W) cycle n prev ty now payload))) (\<lambda>e.
       sbind (ask (he_nonce E)) (\<lambda>nonce.
       sbind (on_journal (append_event P A nonce e private)) (\<lambda>_. sret e)))))) x s1 = (Inr e, s')"
      unfolding write_event_def by (rule sbind_InrE)
    then show thesis using that next_position_Inr by (cases x) fastforce
  qed
  obtain now w1 where now: "he_clock E (hs_world s) = (now, w1)" by fastforce
  obtain event_id w2 where event_id: "he_uuid E w1 = (event_id, w2)" by fastforce
  obtain nonce w3 where nonce: "he_nonce E w2 = (nonce, w3)" by fastforce
  note ask = ask_def now event_id nonce
  from rest have sign: "sign_event P (dw_signing_key W) event_id (dw_arena_id W) (dw_run_id W) cycle n prev ty now payload = Inr e"
    by (auto elim!: sbind_InrE simp: ask slift_def sret_def map_err_def split: sum.splits)
  from rest obtain j where "append_event P A nonce e private (hs_journal s) = Inr j"
    and "s' = s\<lparr>hs_journal := j, hs_world := w3\<rparr>"
    by (auto elim!: sbind_InrE simp: ask slift_def sret_def map_err_def on_journal_def sign split: sum.splits)
  with pos sign show ?thesis by (rule that)
qed

lemma append_durable_cases:
  assumes "append_durable P A E W cycle ty payload private s = (r, s')"
  obtains (unflushed) x where "flush_pending P E W s = (Inl x, s')" and "r = Inl x"
  | (unwritten) n s1 x where "flush_pending P E W s = (Inr n, s1)"
      and "write_event P A E W cycle ty payload private s1 = (Inl x, s')" and "r = Inl x"
  | (unsent) n s1 e s2 x where "flush_pending P E W s = (Inr n, s1)"
      and "write_event P A E W cycle ty payload private s1 = (Inr e, s2)"
      and "send_and_acknowledge E e s2 = (Inl x, s')" and "r = Inl x"
  | (durable) n s1 e s2 receipt where "flush_pending P E W s = (Inr n, s1)"
      and "write_event P A E W cycle ty payload private s1 = (Inr e, s2)"
      and "send_and_acknowledge E e s2 = (Inr receipt, s')" and "r = Inr (with_server_receipt e receipt)"
  using assms unfolding append_durable_def
proof (cases rule: sbind_cases)
  case (ok n s1)
  note flushed = ok(1)
  from ok(2) show ?thesis
  proof (cases rule: sbind_cases)
    case (ok e s2)
    note written = ok(1)
    from ok(2) show ?thesis
    proof (cases rule: sbind_cases)
      case (ok receipt s3)
      then show ?thesis using durable flushed written by (simp add: sret_def)
    qed (use unsent flushed written in blast)
  qed (use unwritten flushed in blast)
qed (use unflushed in blast)

lemma written_event_in_journal:
  assumes "write_event P A E W cycle ty payload private s = (Inr e, s')"
  shows "e \<in> set (envelopes (hs_journal s'))"
proof -
  obtain event_id now nonce n prev j w where "append_event P A nonce e private (hs_journal s) = Inr j"
    and "s' = s\<lparr>hs_journal := j, hs_world := w\<rparr>" by (rule write_event_Inr [OF assms])
  then show ?thesis by (auto elim!: append_event_Inr simp: envelopes_def)
qed

lemma durable_append_durable: "keeps (durable_rel P) (append_durable P A E W cycle ty payload private)"
proof (rule keepsI)
  fix s :: "('a, 'b) host_scheme" and r s'
  assume "append_durable P A E W cycle ty payload private s = (r, s')"
  then show "durable_rel P s s'"
  proof (cases rule: append_durable_cases)
    case (unflushed x)
    then show ?thesis by (simp add: keepsD [OF durable_flush])
  next
    case (unwritten n s1 x)
    show ?thesis
      by (rule dur.R_trans [OF keepsD [OF durable_flush unwritten(1)] keepsD [OF durable_write unwritten(2)]])
  next
    case (unsent n s1 e s2 x)
    show ?thesis
      by (rule dur.R_trans [OF keepsD [OF durable_flush unsent(1)]
            dur.R_trans [OF keepsD [OF durable_write unsent(2)]
              durable_send [OF unsent(3) written_event_in_journal [OF unsent(2)]]]])
  next
    case (durable n s1 e s2 receipt)
    show ?thesis
      by (rule dur.R_trans [OF keepsD [OF durable_flush durable(1)]
            dur.R_trans [OF keepsD [OF durable_write durable(2)]
              durable_send [OF durable(3) written_event_in_journal [OF durable(2)]]]])
  qed
qed

section \<open>Delivery\<close>

text \<open>What one successful append leaves: nothing but deliveries in the trace, the events of
  the run offered in order, the new event last, and no event of the run unacknowledged.\<close>

fun delivery :: "effect \<Rightarrow> bool" where
  "delivery (EfSink e) = True"
| "delivery (EfReceipt i x) = True"
| "delivery _ = False"

fun sinks :: "effect list \<Rightarrow> run_event list" where
  "sinks [] = []"
| "sinks (EfSink e # t) = e # sinks t"
| "sinks (_ # t) = sinks t"

lemma sinks_append [simp]: "sinks (t @ u) = sinks t @ sinks u"
  by (induction t rule: sinks.induct) simp_all

definition unreceipted :: "journal \<Rightarrow> journal_row list" where
  "unreceipted j = filter (\<lambda>r. jr_receipt r = None) (jn_events j)"

lemma acknowledged_unreceipted:
  assumes ack: "acknowledge_event i x j = (Inr (), j')"
    and ids: "distinct (map ev_event_id (envelopes j))"
  shows "unreceipted j' = filter (\<lambda>r. ev_event_id (jr_envelope r) \<noteq> i) (unreceipted j)"
proof -
  let ?id = "\<lambda>r. ev_event_id (jr_envelope r)"
  obtain row where row: "find (\<lambda>r. ?id r = i) (jn_events j) = Some row"
    using ack by (cases "find (\<lambda>r. ?id r = i) (jn_events j)") (auto simp: acknowledge_event_def split: if_splits)
  then have mem: "row \<in> set (jn_events j)" "?id row = i" by (auto simp: find_Some_iff)
  have unique: "r = row" if "r \<in> set (jn_events j)" "?id r = i" for r
    using ids mem that by (auto simp: envelopes_def o_def distinct_map inj_on_def)
  show ?thesis
  proof (cases "jr_receipt row")
    case None
    then have "j' = j\<lparr>jn_events := map (mark_row i x) (jn_events j)\<rparr>"
      using ack row by (auto simp: acknowledge_event_def Let_def split: if_splits)
    moreover have "filter (\<lambda>r. jr_receipt r = None) (map (mark_row i x) rs)
        = filter (\<lambda>r. ?id r \<noteq> i) (filter (\<lambda>r. jr_receipt r = None) rs)" for rs
      by (induction rs) (simp_all add: mark_row_def)
    ultimately show ?thesis by (simp add: unreceipted_def)
  next
    case (Some y)
    then have j': "j' = j" using ack row by (auto simp: acknowledge_event_def split: if_splits)
    have "?id r \<noteq> i" if "r \<in> set (jn_events j)" "jr_receipt r = None" for r
      using unique [OF that(1)] that(2) Some by auto
    then show ?thesis unfolding j' unreceipted_def filter_filter by (auto intro: filter_cong)
  qed
qed

lemma acknowledge_envelopes: "acknowledge_event i x j = (r, j') \<Longrightarrow> envelopes j' = envelopes j"
  using acknowledge_rows by (simp add: envelopes_def)

lemma send_Inr:
  assumes "send_and_acknowledge E e s = (Inr receipt, s')"
  shows "acknowledge_event (ev_event_id e) receipt (hs_journal s) = (Inr (), hs_journal s')
    \<and> hs_trace s' = hs_trace s @ [EfSink e, EfReceipt (ev_event_id e) receipt]
    \<and> host.more s' = host.more s \<and> envelopes (hs_journal s') = envelopes (hs_journal s)"
  using assms by (cases rule: send_and_acknowledge_cases) (auto dest: acknowledge_envelopes)

lemma send_all_Inr:
  assumes "sfor (send_and_acknowledge E) es s = (Inr xs, s')"
    and "distinct (map ev_event_id (envelopes (hs_journal s)))"
  shows "envelopes (hs_journal s') = envelopes (hs_journal s) \<and> host.more s' = host.more s
    \<and> unreceipted (hs_journal s')
        = filter (\<lambda>r. ev_event_id (jr_envelope r) \<notin> ev_event_id ` set es) (unreceipted (hs_journal s))
    \<and> (\<exists>t. hs_trace s' = hs_trace s @ t \<and> list_all delivery t \<and> sinks t = es)"
  using assms
proof (induction es arbitrary: s xs)
  case Nil
  then show ?case by (auto simp: sret_def)
next
  case (Cons e es)
  from Cons.prems(1) obtain x s1 ys where
    one: "send_and_acknowledge E e s = (Inr x, s1)" and rest: "sfor (send_and_acknowledge E) es s1 = (Inr ys, s')"
    by (auto elim!: sbind_InrE simp: sret_def)
  note first = send_Inr [OF one]
  have ids: "distinct (map ev_event_id (envelopes (hs_journal s1)))" using first Cons.prems(2) by simp
  obtain t where t: "hs_trace s' = hs_trace s1 @ t" "list_all delivery t" "sinks t = es"
    using Cons.IH [OF rest ids] by blast
  have "\<exists>u. hs_trace s' = hs_trace s @ u \<and> list_all delivery u \<and> sinks u = e # es"
    using t first by (intro exI [of _ "[EfSink e, EfReceipt (ev_event_id e) x] @ t"]) simp
  moreover have "unreceipted (hs_journal s')
      = filter (\<lambda>r. ev_event_id (jr_envelope r) \<notin> ev_event_id ` set (e # es)) (unreceipted (hs_journal s))"
    using Cons.IH [OF rest ids] acknowledged_unreceipted [of _ _ _ "hs_journal s1", OF _ Cons.prems(2)] first
    by (auto intro: filter_cong)
  ultimately show ?case using Cons.IH [OF rest ids] first by simp
qed

lemma flush_pending_Inr:
  assumes "flush_pending P E W s = (Inr n, s')"
    and "distinct (map ev_event_id (envelopes (hs_journal s)))"
  obtains es t where "pending_events P (dw_run_id W) (hs_journal s) = Inr es"
    and "envelopes (hs_journal s') = envelopes (hs_journal s)" and "host.more s' = host.more s"
    and "hs_trace s' = hs_trace s @ t" and "list_all delivery t" and "sinks t = es"
    and "unreceipted (hs_journal s') = filter (\<lambda>r. jr_run_id r \<noteq> dw_run_id W) (unreceipted (hs_journal s))"
proof -
  let ?j = "hs_journal s"
  obtain es xs where es: "pending_events P (dw_run_id W) ?j = Inr es"
    and sent: "sfor (send_and_acknowledge E) es s = (Inr xs, s')"
    using assms(1) by (auto simp: flush_pending_def sget_def slift_def sret_def map_err_def
        elim!: sbind_InrE split: sum.splits)
  have es': "set es = jr_envelope ` {r \<in> set (unreceipted ?j). jr_run_id r = dw_run_id W}"
    by (auto simp: pending_events_Inr [OF es] unreceipted_def)
  have inj: "inj_on (\<lambda>r. ev_event_id (jr_envelope r)) (set (jn_events ?j))"
    using assms(2) by (simp add: envelopes_def o_def distinct_map)
  have "ev_event_id (jr_envelope r) \<in> ev_event_id ` set es \<longleftrightarrow> jr_run_id r = dw_run_id W"
    if "r \<in> set (unreceipted ?j)" for r
    using that inj by (auto simp: es' unreceipted_def image_iff dest!: inj_onD)
  then have "filter (\<lambda>r. ev_event_id (jr_envelope r) \<notin> ev_event_id ` set es) (unreceipted ?j)
      = filter (\<lambda>r. jr_run_id r \<noteq> dw_run_id W) (unreceipted ?j)"
    by (intro filter_cong) auto
  then show ?thesis using send_all_Inr [OF sent assms(2)] es that by metis
qed

section \<open>The writer touches nothing but its own\<close>

definition quiet_rel :: "('w, 'z) host_scheme \<Rightarrow> ('w, 'z) host_scheme \<Rightarrow> bool" where
  "quiet_rel s s' \<longleftrightarrow> host.more s' = host.more s
     \<and> (\<exists>t. hs_trace s' = hs_trace s @ t \<and> list_all delivery t)"

interpretation quiet: step_relation "quiet_rel"
proof (unfold_locales, goal_cases)
  case (2 s t u)
  then show ?case by (auto simp: quiet_rel_def)
qed (simp add: quiet_rel_def)

lemma quiet_ask: "keeps quiet_rel (ask f)"
  by (rule keepsI) (auto simp: ask_def quiet_rel_def split: prod.splits)

lemma quiet_on_journal: "keeps quiet_rel (on_journal f)"
  by (rule keepsI) (auto simp: on_journal_def quiet_rel_def split: sum.splits)

lemma quiet_send: "keeps quiet_rel (send_and_acknowledge E e)"
  by (rule keepsI, erule send_and_acknowledge_cases) (auto simp: quiet_rel_def)

lemmas quiet_steps = quiet.keeps_intros quiet.keeps_bind quiet_ask quiet_on_journal quiet_send

lemma quiet_flush: "keeps quiet_rel (flush_pending P E W)"
  unfolding flush_pending_def by (intro quiet_steps)

lemma quiet_write: "keeps quiet_rel (write_event P A E W cycle ty payload private)"
  unfolding write_event_def next_position_def
  by (intro quiet_steps; split prod.splits; intro allI impI quiet_steps)

lemma quiet_append: "keeps quiet_rel (append_durable P A E W cycle ty payload private)"
  unfolding append_durable_def by (intro quiet_steps quiet_flush quiet_write)

text \<open>A successful append, as its callers see it: the event is offered and acknowledged last.\<close>

lemma append_durable_Inr:
  assumes "append_durable P A E W cycle ty payload private s = (Inr e', s')"
  obtains e receipt t where "e' = with_server_receipt e receipt"
    and "host.more s' = host.more s" and "list_all delivery t"
    and "hs_trace s' = hs_trace s @ t @ [EfSink e, EfReceipt (ev_event_id e) receipt]"
    and "ev_event_type e = ty" and "ev_payload e = payload" and "ev_cycle_id e = cycle"
    and "ev_run_id e = dw_run_id W" and "ev_arena_id e = dw_arena_id W"
  using assms
proof (cases rule: append_durable_cases)
  case (durable n s1 e s2 receipt)
  obtain t where more: "host.more s2 = host.more s" and t: "hs_trace s2 = hs_trace s @ t" "list_all delivery t"
    using quiet.R_trans [OF keepsD [OF quiet_flush durable(1)] keepsD [OF quiet_write durable(2)]]
    by (auto simp: quiet_rel_def)
  obtain event_id now n prev where
    "sign_event P (dw_signing_key W) event_id (dw_arena_id W) (dw_run_id W) cycle n prev ty now payload = Inr e"
    by (rule write_event_Inr [OF durable(2)])
  from sign_event_Inr [OF this] more t send_Inr [OF durable(3)] durable(4) show ?thesis
    by (intro that [of e receipt t]) auto
qed simp_all

text \<open>
  C4. A successful append delivers the run's events in order and completely. The events of
  the run that had no receipt are offered first, in the order of their sequence numbers, then
  the new event, which is the journal's last; afterwards every event of the run has its receipt,
  the new one the receipt that is returned with it, and nothing of the run is pending. Event
  ids are random and assumed distinct.
\<close>

theorem append_delivers:
  assumes ok: "append_durable P A E W cycle ty payload private s = (Inr e', s')"
    and ids: "distinct (map ev_event_id (envelopes (hs_journal s')))"
  shows "\<exists>e receipt es t. e' = with_server_receipt e receipt
    \<and> envelopes (hs_journal s') = envelopes (hs_journal s) @ [e]
    \<and> (e, receipt) \<in> receipted (hs_journal s')
    \<and> pending_events P (dw_run_id W) (hs_journal s) = Inr es
    \<and> hs_trace s' = hs_trace s @ t \<and> list_all delivery t \<and> sinks t = es @ [e]
    \<and> pending_events P (dw_run_id W) (hs_journal s') = Inr []"
  using ok
proof (cases rule: append_durable_cases)
  case (durable n s1 e s2 receipt)
  obtain event_id now k prev nonce j w where
    sign: "sign_event P (dw_signing_key W) event_id (dw_arena_id W) (dw_run_id W) cycle k prev ty now payload = Inr e"
    and app: "append_event P A nonce e private (hs_journal s1) = Inr j"
    and s2: "s2 = s1\<lparr>hs_journal := j, hs_world := w\<rparr>"
    by (rule write_event_Inr [OF durable(2)])
  obtain c bytes where j: "j = (hs_journal s1)\<lparr>jn_events := jn_events (hs_journal s1) @ [new_row e c]\<rparr>"
    by (rule append_event_Inr [OF app])
  note sent = send_Inr [OF durable(3)]
  have env: "envelopes (hs_journal s') = envelopes (hs_journal s1) @ [e]"
    using sent by (simp add: s2 j envelopes_def)
  have ids2: "distinct (map ev_event_id (envelopes (hs_journal s2)))" using ids sent by simp
  have ids0: "distinct (map ev_event_id (envelopes (hs_journal s)))"
    using keepsD [OF durable_flush durable(1)] ids env by (auto simp: durable_rel_def)
  obtain es t where es: "pending_events P (dw_run_id W) (hs_journal s) = Inr es"
    and env1: "envelopes (hs_journal s1) = envelopes (hs_journal s)"
    and t: "hs_trace s1 = hs_trace s @ t" "list_all delivery t" "sinks t = es"
    and open1: "unreceipted (hs_journal s1) = filter (\<lambda>r. jr_run_id r \<noteq> dw_run_id W) (unreceipted (hs_journal s))"
    by (rule flush_pending_Inr [OF durable(1) ids0])
  have "unreceipted (hs_journal s') = filter (\<lambda>r. ev_event_id (jr_envelope r) \<noteq> ev_event_id e) (unreceipted j)"
    using acknowledged_unreceipted [OF conjunct1 [OF sent] ids2] by (simp add: s2)
  also have "\<dots> = filter (\<lambda>r. ev_event_id (jr_envelope r) \<noteq> ev_event_id e) (unreceipted (hs_journal s1))"
    by (simp add: unreceipted_def j)
  finally have "list_all (\<lambda>r. jr_run_id r \<noteq> dw_run_id W) (unreceipted (hs_journal s'))"
    by (auto simp: open1 list_all_iff)
  then have "filter (\<lambda>r. jr_run_id r = dw_run_id W \<and> jr_receipt r = None) (jn_events (hs_journal s')) = []"
    by (auto simp: unreceipted_def list_all_iff filter_empty_conv)
  then have pend: "pending_events P (dw_run_id W) (hs_journal s') = Inr []"
    by (simp add: pending_events_def)
  obtain e2 where e2: "ev_event_id e2 = ev_event_id e" "(e2, receipt) \<in> receipted (hs_journal s')"
    using acknowledge_stored sent by blast
  then have "e2 \<in> set (envelopes (hs_journal s'))" by (auto simp: receipted_def envelopes_def)
  then have "e2 = e" using ids e2(1) env by (auto simp: distinct_map dest: inj_onD) (metis image_eqI)
  then show ?thesis using e2 pend es t env env1 sent durable(4)
    by (intro exI [of _ e] exI [of _ receipt] exI [of _ es]
        exI [of _ "t @ [EfSink e, EfReceipt (ev_event_id e) receipt]"]) (simp add: s2)
qed simp_all

text \<open>
  C5. Whatever happens during an append, a refused or unreachable server, a failing clock or
  database, an early return at any point: the journal keeps its chain invariant and every event
  and receipt it had, and every event that was offered to the server is in the journal, every
  receipt that was reported is stored there.
\<close>

theorem append_never_loses_events:
  assumes "append_durable P A E W cycle ty payload private s = (r, s')"
    and "journal_inv P (hs_journal s)"
  shows "journal_inv P (hs_journal s')
    \<and> (\<exists>new. envelopes (hs_journal s') = envelopes (hs_journal s) @ new)
    \<and> receipted (hs_journal s) \<subseteq> receipted (hs_journal s')
    \<and> (\<exists>t. hs_trace s' = hs_trace s @ t \<and> (\<forall>ef \<in> set t. effect_recorded (hs_journal s') ef))"
  using keepsD [OF durable_append_durable assms(1)] assms(2) unfolding durable_rel_def by blast

section \<open>A run of the writer\<close>

text \<open>
  A concrete world for the witnesses: it counts, so every event id is new; the server accepts
  everything; the hash of an event is its id, written in unary.
\<close>

definition counting_json :: "json \<Rightarrow> string option" where
  "counting_json v = (case v of
     JObj fs \<Rightarrow> (case map_of fs ''event_id'' of Some (JStr i) \<Rightarrow> Some i | _ \<Rightarrow> Some ''json'')
   | _ \<Rightarrow> Some ''json'')"

definition counting_prims :: prims where
  "counting_prims = toy_ids\<lparr>json_to_vec := counting_json\<rparr>"

definition toy_host :: "nat host" where
  "toy_host = \<lparr>hs_journal = open_journal ''key'', hs_world = 1, hs_trace = []\<rparr>"

definition toy_env :: "nat host_env" where
  "toy_env = \<lparr>he_clock = (\<lambda>n. (0, n)), he_uuid = (\<lambda>n. (of_nat n, Suc n)),
     he_nonce = (\<lambda>n. (toy_nonce, n)), he_sink = (\<lambda>e n. (Some ''r'', n))\<rparr>"

definition toy_writer :: writer where
  "toy_writer = \<lparr>dw_signing_key = ''seed'', dw_arena_id = 9, dw_run_id = 2\<rparr>"

lemma toy_writer_fields [simp]:
  "dw_signing_key toy_writer = ''seed''" "dw_arena_id toy_writer = 9" "dw_run_id toy_writer = 2"
  by (simp_all add: toy_writer_def)

lemma toy_env_fields [simp]:
  "he_clock toy_env n = (0, n)" "he_uuid toy_env n = (of_nat n, Suc n)"
  "he_nonce toy_env n = (toy_nonce, n)" "he_sink toy_env e n = (Some ''r'', n)"
  by (simp_all add: toy_env_def)

definition toy_state :: "(nat, 'z) host_scheme \<Rightarrow> bool" where
  "toy_state s \<longleftrightarrow> journal_inv counting_prims (hs_journal s) \<and> hs_world s < 1000
     \<and> (\<forall>r \<in> set (jn_events (hs_journal s)). jr_receipt r \<noteq> None
          \<and> (\<exists>i < hs_world s. ev_event_id (jr_envelope r) = of_nat i \<and> jr_hash r = replicate i (CHR ''x'')))
     \<and> length (jn_events (hs_journal s)) < hs_world s
     \<and> distinct (map ev_event_id (envelopes (hs_journal s)))"

lemma toy_host_state: "toy_state toy_host"
  by (simp add: toy_state_def toy_host_def) (simp add: open_journal_def envelopes_def)

lemma toy_host_fields [simp]: "hs_world toy_host = 1" "envelopes (hs_journal toy_host) = []"
  by (simp_all add: toy_host_def open_journal_def envelopes_def)

definition toy_signed :: "uuid option \<Rightarrow> string \<Rightarrow> json \<Rightarrow> u64 \<Rightarrow> string \<Rightarrow> nat \<Rightarrow> run_event" where
  "toy_signed cycle ty payload n prev i = \<lparr>ev_protocol = HARNESS_PROTOCOL_V1, ev_event_id = of_nat i,
     ev_arena_id = 9, ev_run_id = 2, ev_cycle_id = cycle, ev_sequence = n,
     ev_previous_event_sha256 = prev, ev_event_type = ty, ev_occurred_at = 0, ev_payload = payload,
     ev_event_sha256 = replicate i (CHR ''x''), ev_device_public_key = replicate 32 (CHR ''k''),
     ev_device_signature = ''sig'', ev_server_receipt = None\<rparr>"

lemma toy_sign:
  assumes "i < 1000"
  shows "sign_event counting_prims ''seed'' (of_nat i) 9 2 cycle n prev ty 0 payload
    = Inr (toy_signed cycle ty payload n prev i)"
  using assms
  by (simp add: sign_event_def unsigned_event_def canonical_json_def jtime_def juuid_def Let_def
      counting_prims_def counting_json_def toy_ids_def toy_prims_def toy_signed_def bt_of_list_def
      unat_of_nat)

lemma toy_signed_fields [simp]:
  "ev_event_id (toy_signed cycle ty payload n prev i) = of_nat i"
  "ev_event_sha256 (toy_signed cycle ty payload n prev i) = replicate i (CHR ''x'')"
  "ev_run_id (toy_signed cycle ty payload n prev i) = 2"
  "ev_sequence (toy_signed cycle ty payload n prev i) = n"
  "ev_previous_event_sha256 (toy_signed cycle ty payload n prev i) = prev"
  "ev_event_type (toy_signed cycle ty payload n prev i) = ty"
  "ev_payload (toy_signed cycle ty payload n prev i) = payload"
  by (simp_all add: toy_signed_def)

lemma toy_signature: "signature_law counting_prims"
  by (simp add: signature_law_def b64_law_def counting_prims_def toy_ids_def toy_prims_def)

text \<open>What an append needs to be accepted.\<close>

lemma append_event_accepts:
  assumes inv: "journal_inv P j" and "verify_event P e = Inr ()"
    and pos: "ev_sequence e = of_nat (Suc (length (run_rows (ev_run_id e) j)))"
      "ev_previous_event_sha256 e = (if run_rows (ev_run_id e) j = [] then zero_hash
        else jr_hash (last (run_rows (ev_run_id e) j)))"
    and small: "int (length (run_rows (ev_run_id e) j)) < i64_max"
    and new: "ev_event_sha256 e \<notin> jr_hash ` set (jn_events j)"
    and "json_to_vec P p = Some bytes" and "encrypt_bundle A (jn_key j) nonce bytes (ev_event_sha256 e) = Inr c"
  shows "append_event P A nonce e p j = Inr (j\<lparr>jn_events := jn_events j @ [new_row e c]\<rparr>)"
proof -
  let ?rs = "run_rows (ev_run_id e) j"
  have n: "uint (ev_sequence e) = int (length ?rs) + 1"
    using small unfolding pos(1) by (simp only: uint_nat unat_of_nat) (simp add: i64_max_def)
  have "u64_try (int (length ?rs)) = Some (word_of_int (int (length ?rs)))"
    using small by (intro u64_try_is) (auto simp: i64_max_def)
  then have "next_link j e" using pos last_run_row(1) [OF inv]
    by (simp add: next_link_def latest_row_inv [OF inv] del: u64_try_eq_Some)
  moreover have "jr_sequence r \<noteq> uint (ev_sequence e)" if "r \<in> set (jn_events j)" "jr_run_id r = ev_run_id e" for r
  proof -
    have "r \<in> set ?rs" using that by (simp add: run_rows_def)
    then obtain i where "i < length ?rs" "?rs ! i = r" by (auto simp: in_set_conv_nth)
    moreover have "linked zero_hash 0 ?rs" using inv by (simp add: journal_inv_def)
    ultimately show ?thesis using linked_nth [of zero_hash 0 ?rs i] n by auto
  qed
  then have "\<not> row_conflict j (new_row e c)" using new by (auto simp: row_conflict_def list_ex_iff) (metis image_eqI)
  ultimately show ?thesis using assms(2,7,8) small n
    by (simp add: append_event_def is_i64_def i64_max_def)
qed

lemma toy_new_id:
  assumes "toy_state s" and "r \<in> set (jn_events (hs_journal s))"
  shows "ev_event_id (jr_envelope r) \<noteq> of_nat (hs_world s)"
proof -
  obtain i where "i < hs_world s" "ev_event_id (jr_envelope r) = of_nat i"
    using assms by (auto simp: toy_state_def)
  then have "unat (ev_event_id (jr_envelope r)) = i" "unat (of_nat (hs_world s) :: uuid) = hs_world s"
    using assms(1) by (simp_all add: toy_state_def unat_of_nat)
  then show ?thesis using \<open>i < hs_world s\<close> by auto
qed

lemma counting_json_total: "\<exists>bytes. counting_json v = Some bytes"
  unfolding counting_json_def by (simp split: json.split option.split)

lemma toy_append:
  assumes state: "toy_state s" and room: "Suc (hs_world s) < 1000"
  obtains n prev s' where "append_durable counting_prims toy_aead toy_env toy_writer cycle ty payload pv s
      = (Inr (with_server_receipt (toy_signed cycle ty payload n prev (hs_world s)) ''r''), s')"
    and "toy_state s'" and "hs_world s' = Suc (hs_world s)" and "host.more s' = host.more s"
    and "envelopes (hs_journal s') = envelopes (hs_journal s) @ [toy_signed cycle ty payload n prev (hs_world s)]"
    and "hs_trace s' = hs_trace s @ [EfSink (toy_signed cycle ty payload n prev (hs_world s)),
           EfReceipt (of_nat (hs_world s)) ''r'']"
proof -
  let ?j = "hs_journal s" and ?P = counting_prims
  have inv: "journal_inv ?P ?j" using state by (simp add: toy_state_def)
  have "pending_events ?P 2 ?j = Inr []"
  proof -
    have "filter (\<lambda>r. jr_run_id r = 2 \<and> jr_receipt r = None) (jn_events ?j) = []"
      using state by (auto simp: toy_state_def filter_empty_conv)
    then show ?thesis by (simp add: pending_events_def)
  qed
  then have flush: "flush_pending ?P toy_env toy_writer s = (Inr 0, s)"
    by (simp add: flush_pending_def sbind_def sget_def slift_def sret_def toy_writer_def)
  define n :: u64 and prev where "n = of_nat (Suc (length (run_rows 2 ?j)))"
    and "prev = (if run_rows 2 ?j = [] then zero_hash else jr_hash (last (run_rows 2 ?j)))"
  have few: "length (run_rows 2 ?j) < 1000"
    using state unfolding toy_state_def run_rows_def
    by (intro order.strict_trans1 [OF length_filter_le]) linarith
  have pos: "next_position toy_writer s = (Inr (n, prev), s)"
  proof -
    have "sat_add (of_nat k :: u64) 1 = of_nat (Suc k)" if "k < 1000" for k
      using that by (simp add: sat_add_def word_less_nat_alt word_le_nat_alt unat_word_ariths unat_of_nat)
    moreover have "of_nat (Suc 0) = (1 :: u64)" by simp
    ultimately show ?thesis using few
      by (simp add: next_position_def sbind_def sget_def slift_def sret_def toy_writer_def
          latest_event_state_inv [OF inv] n_def prev_def del: of_nat_Suc)
  qed
  define e where "e = toy_signed cycle ty payload n prev (hs_world s)"
  have signed: "sign_event ?P ''seed'' (of_nat (hs_world s)) 9 2 cycle n prev ty 0 payload = Inr e"
    unfolding e_def by (rule toy_sign) (use room in simp)
  obtain bytes where bytes: "json_to_vec ?P pv = Some bytes"
    using counting_json_total [of pv] by (auto simp: counting_prims_def)
  obtain c where c: "encrypt_bundle toy_aead (jn_key ?j) toy_nonce bytes (ev_event_sha256 e) = Inr c"
    by (simp add: encrypt_bundle_def toy_aead_def)
  have new: "ev_event_sha256 e \<notin> jr_hash ` set (jn_events ?j)"
    using state by (fastforce simp: toy_state_def e_def)
  define j where "j = ?j\<lparr>jn_events := jn_events ?j @ [new_row e c]\<rparr>"
  have app: "append_event ?P toy_aead toy_nonce e pv ?j = Inr j" unfolding j_def
    by (rule append_event_accepts [OF inv sign_event_verifies [OF toy_signature signed] _ _ _ new bytes c])
      (use few in \<open>simp_all add: e_def n_def prev_def i64_max_def\<close>)
  define j' where "j' = ?j\<lparr>jn_events := jn_events ?j @ [(new_row e c)\<lparr>jr_receipt := Some ''r''\<rparr>]\<rparr>"
  have ack: "acknowledge_event (of_nat (hs_world s)) ''r'' j = (Inr (), j')"
  proof -
    have fresh: "ev_event_id (jr_envelope r) \<noteq> of_nat (hs_world s)" if "r \<in> set (jn_events ?j)" for r
      by (rule toy_new_id [OF state that])
    then have "find (\<lambda>r. ev_event_id (jr_envelope r) = of_nat (hs_world s)) (jn_events j) = Some (new_row e c)"
      unfolding j_def by (simp add: find_snoc e_def)
    moreover have "filter (\<lambda>r. ev_event_id (jr_envelope r) = of_nat (hs_world s) \<and> jr_receipt r = None) (jn_events j)
        = [new_row e c]"
      using fresh by (auto simp: j_def e_def filter_empty_conv)
    moreover have "map (mark_row (of_nat (hs_world s)) ''r'') (jn_events ?j) = jn_events ?j"
      using fresh by (auto simp: mark_row_def intro!: map_idI)
    ultimately show ?thesis
      by (simp add: acknowledge_event_def blank_def byte_def ascii_ws_def)
        (simp add: j_def j'_def mark_row_def e_def)
  qed
  define s' where "s' = s\<lparr>hs_journal := j', hs_world := Suc (hs_world s),
      hs_trace := hs_trace s @ [EfSink e, EfReceipt (of_nat (hs_world s)) ''r'']\<rparr>"
  define s1 where "s1 = s\<lparr>hs_journal := j, hs_world := Suc (hs_world s)\<rparr>"
  have wrote: "write_event ?P toy_aead toy_env toy_writer cycle ty payload pv s = (Inr e, s1)"
    by (simp add: write_event_def sbind_def pos ask_def slift_def sret_def on_journal_def signed app s1_def)
  have send: "send_and_acknowledge toy_env e s1 = (Inr ''r'', s')"
    using ack
    by (simp add: send_and_acknowledge_def send_event_def sbind_def logged_apply ask_def slift_def
        sret_def acknowledge_def s1_def s'_def e_def)
  have "append_durable ?P toy_aead toy_env toy_writer cycle ty payload pv s
      = (Inr (with_server_receipt e ''r''), s')"
    by (simp add: append_durable_def sbind_def flush wrote send sret_def)
  moreover have "toy_state s'"
  proof -
    have "journal_inv ?P j'" by (rule acknowledge_inv [OF append_event_inv [OF inv app] ack])
    moreover have "of_nat (hs_world s) \<notin> ev_event_id ` set (envelopes ?j)"
      using toy_new_id [OF state] by (force simp: envelopes_def)
    ultimately show ?thesis using state room less_SucI
      by (auto simp: toy_state_def s'_def j'_def e_def envelopes_def intro!: less_SucI)
  qed
  ultimately show ?thesis using that [of n prev s'] by (simp add: e_def s'_def j'_def envelopes_def)
qed

theorem append_delivers_witness:
  "\<exists>e s'. append_durable counting_prims toy_aead toy_env toy_writer None ''run_started'' JNull JNull toy_host
      = (Inr (with_server_receipt e ''r''), s')
    \<and> envelopes (hs_journal s') = [e] \<and> pending_events counting_prims 2 (hs_journal s') = Inr []"
proof -
  have room: "Suc (hs_world toy_host) < 1000" by simp
  obtain n prev s' where step: "append_durable counting_prims toy_aead toy_env toy_writer None ''run_started''
      JNull JNull toy_host = (Inr (with_server_receipt (toy_signed None ''run_started'' JNull n prev (hs_world toy_host)) ''r''), s')"
    and "toy_state s'"
    and env: "envelopes (hs_journal s') = envelopes (hs_journal toy_host)
      @ [toy_signed None ''run_started'' JNull n prev (hs_world toy_host)]"
    by (rule toy_append [OF toy_host_state room])
  then have "distinct (map ev_event_id (envelopes (hs_journal s')))" by (simp add: toy_state_def)
  from append_delivers [OF step this] step env show ?thesis by auto
qed

theorem append_never_loses_events_witness:
  "\<exists>r s'. append_durable counting_prims toy_aead toy_env toy_writer None ''run_started'' JNull JNull toy_host
      = (r, s') \<and> journal_inv counting_prims (hs_journal s')"
  using append_never_loses_events [OF surjective_pairing] toy_host_state
  by (metis surjective_pairing toy_state_def)

end
