(* ===== verification/LiveCycle.thy ===== *)
theory LiveCycle
  imports LiveWriter Runtime Venue
begin

text \<open>
  One live decision cycle, \<open>crates/crow-agent-core/src/live_cycle.rs\<close>: the account and the
  books are read, the model decides, the decision is published, the account and the target
  book are read again, the policy decides on the order at the fresh book, and an accepted order
  is submitted when the execution gate is open, after its event and the risk state are stored.
  \<open>execute_live_cycle\<close> is composed of its phases in the order of the code; an error leaves the
  host as it is at that point. The venue, the model, the gate, the clock and the random ids are
  functions of the world; every call of them is in the trace.
\<close>

section \<open>Data\<close>

datatype live_error =
    LcVenue hl_error
  | LcRuntime runtime_error
  | LcEvent durable_error
  | LcJournal journal_error
  | LcRiskState
  | LcAccountPolicy

record live_risk_state =
  rk_trading_day :: int
  rk_day_start_equity :: int
  rk_peak_equity :: int
  rk_orders_today :: u16
  rk_last_reconciliation_ms :: u64

record live_result =
  lr_cycle_id :: uuid
  lr_proposal_symbol :: string
  lr_policy_allowed :: bool
  lr_order_submitted :: bool
  lr_client_order_id :: "string option"
  lr_last_event_sha256 :: string

record venue_submission =
  vs_client_order_id :: string
  vs_statuses :: json

record 'w live_venue =
  vn_account :: "string \<Rightarrow> 'w \<Rightarrow> (hl_error + account_snapshot) \<times> 'w"
  vn_markets :: "book_snapshot list \<Rightarrow> u64 \<Rightarrow> 'w \<Rightarrow> (hl_error + (string \<times> market_snapshot) list) \<times> 'w"
  vn_fresh_market :: "string \<Rightarrow> u64 \<Rightarrow> 'w \<Rightarrow> (hl_error + market_snapshot) \<times> 'w"
  vn_candles :: "u64 \<Rightarrow> u64 \<Rightarrow> 'w \<Rightarrow> (hl_error + json) \<times> 'w"
  vn_submit :: "order_decision \<Rightarrow> string \<Rightarrow> 'w \<Rightarrow> (hl_error + venue_submission) \<times> 'w"
  vn_fills :: "string \<Rightarrow> u64 \<Rightarrow> u64 \<Rightarrow> 'w \<Rightarrow> (hl_error + json) \<times> 'w"
  vn_funding :: "string \<Rightarrow> u64 \<Rightarrow> u64 \<Rightarrow> 'w \<Rightarrow> (hl_error + json) \<times> 'w"

text \<open>How the \<open>time\<close> and \<open>uuid\<close> packages write a time, a date and a simple id.\<close>

record live_codec =
  lc_time :: "int \<Rightarrow> json"
  lc_date :: "int \<Rightarrow> json"
  lc_simple :: "uuid \<Rightarrow> string"

record 'w live =
  lv_P :: prims
  lv_A :: aead_prims
  lv_E :: "'w host_env"
  lv_C :: live_codec
  lv_venue :: "'w live_venue"
  lv_infer :: "'w inference"
  lv_gate :: "'w \<Rightarrow> bool \<times> 'w"
  lv_signing_key :: string
  lv_manifest :: arena_manifest
  lv_run_id :: uuid
  lv_model_id :: string
  lv_leverage :: u8
  lv_strategy :: utext
  lv_account :: string

text \<open>The host with the risk state that the caller passes by mutable reference.\<close>

record 'w live_host = "'w host" +
  hs_risk :: live_risk_state

section \<open>JSON forms\<close>

definition book_level_json :: "book_level \<Rightarrow> json" where
  "book_level_json l = JObj [(''price'', JStr (bl_price l)), (''size'', JStr (bl_size l)),
     (''order_count'', jword (bl_order_count l))]"

definition book_json :: "book_snapshot \<Rightarrow> json" where
  "book_json b = JObj [(''symbol'', JStr (bk_symbol b)), (''venue_time_ms'', jword (bk_venue_time_ms b)),
     (''bids'', JArr (map book_level_json (bk_bids b))),
     (''asks'', JArr (map book_level_json (bk_asks b)))]"

definition market_json :: "market_state \<Rightarrow> json" where
  "market_json m = JObj [(''symbol'', JStr (mk_symbol m)), (''mark_price_micro_usdc'', JInt (mark_price m)),
     (''oracle_price_micro_usdc'', JInt (oracle_price m)), (''spread_bps'', jword (spread_bps m)),
     (''book_age_seconds'', jword (book_age_seconds m)),
     (''ask_depth_micro_usdc'', JInt (ask_depth m)), (''bid_depth_micro_usdc'', JInt (bid_depth m)),
     (''size_decimals'', jword (size_decimals m)), (''delisted'', JBool (delisted m))]"

definition market_snapshot_json :: "market_snapshot \<Rightarrow> json" where
  "market_snapshot_json s = JObj [(''market'', market_json (ms_market s)), (''book'', book_json (ms_book s))]"

definition markets_json :: "(string \<times> market_snapshot) list \<Rightarrow> json" where
  "markets_json ms = JObj (map (\<lambda>(k, s). (k, market_snapshot_json s)) ms)"

definition position_json :: "position_snapshot \<Rightarrow> json" where
  "position_json p = JObj [(''symbol'', JStr (ps_symbol p)), (''quantity_e8'', JInt (ps_quantity_e8 p)),
     (''notional_micro_usdc'', JInt (ps_notional p)),
     (''entry_price_micro_usdc'', case ps_entry_price p of None \<Rightarrow> JNull | Some n \<Rightarrow> JInt n),
     (''unrealized_pnl_micro_usdc'', JInt (ps_unrealized_pnl p)),
     (''isolated'', JBool (ps_isolated p)), (''leverage'', jword (ps_leverage p))]"

definition positions_json :: "account_snapshot \<Rightarrow> json" where
  "positions_json a = JObj (map (\<lambda>(k, p). (k, position_json p)) (as_positions a))"

definition account_json :: "account_snapshot \<Rightarrow> json" where
  "account_json a = JObj [(''venue_time_ms'', jword (as_venue_time_ms a)),
     (''equity_micro_usdc'', JInt (as_equity a)),
     (''withdrawable_micro_usdc'', JInt (as_withdrawable a)), (''positions'', positions_json a)]"

definition portfolio_event :: "account_snapshot \<Rightarrow> json" where
  "portfolio_event a = JObj [(''equity_micro_usdc'', JInt (as_equity a)),
     (''venue_time_ms'', jword (as_venue_time_ms a)), (''positions'', positions_json a)]"

definition order_json :: "order_decision \<Rightarrow> json" where
  "order_json d = JObj [(''symbol'', JStr (o_symbol d)), (''side'', JStr (side_str (o_side d))),
     (''quantity_e8'', JInt (o_quantity_e8 d)), (''limit_price_micro_usdc'', JInt (o_limit_price d)),
     (''actual_notional_micro_usdc'', JInt (o_actual_notional d)),
     (''effective_notional_bps'', jword (o_effective_notional_bps d)),
     (''reduce_only'', JBool (o_reduce_only d))]"

definition tool_results_json :: "tool_result list \<Rightarrow> json" where
  "tool_results_json rs = JArr (map (\<lambda>r. JObj [(''call_id'', JStr (tr_call_id r)),
     (''tool'', JStr (tool_name (tr_tool r))), (''output'', tr_output r)]) rs)"

definition risk_json :: "live_codec \<Rightarrow> live_risk_state \<Rightarrow> json" where
  "risk_json C r = JObj [(''trading_day'', lc_date C (rk_trading_day r)),
     (''trading_day_start_equity_micro_usdc'', JInt (rk_day_start_equity r)),
     (''peak_equity_micro_usdc'', JInt (rk_peak_equity r)),
     (''orders_today'', jword (rk_orders_today r)),
     (''last_reconciliation_ms'', jword (rk_last_reconciliation_ms r))]"

text \<open>The text of a policy refusal, \<open>to_string\<close>.\<close>

definition policy_error_text :: "policy_error \<Rightarrow> string" where
  "policy_error_text e = (case e of
       PSymbol \<Rightarrow> ''symbol is outside the BTC/ETH/SOL arena universe''
     | PMarket \<Rightarrow> ''market metadata or price is invalid''
     | PDelisted \<Rightarrow> ''market is delisted''
     | PStaleBook \<Rightarrow> ''book evidence is stale''
     | PSpread \<Rightarrow> ''spread exceeds arena policy''
     | PReduceOnly \<Rightarrow> ''reduce-only order would increase or exceed the current position''
     | PDailyLoss \<Rightarrow> ''daily loss limit reached''
     | PDrawdown \<Rightarrow> ''drawdown limit reached''
     | POrderLimit \<Rightarrow> ''daily order limit reached''
     | POrderSize \<Rightarrow> ''normalized order exceeds maximum order size''
     | PPositionSize \<Rightarrow> ''normalized order exceeds maximum position size''
     | PCashReserve \<Rightarrow> ''normalized order violates the collateral reserve''
     | PDepth \<Rightarrow> ''displayed book depth cannot support the normalized IOC''
     | POverflow \<Rightarrow> ''integer arithmetic overflow'')"

section \<open>The risk state\<close>

definition risk_key :: "prims \<Rightarrow> uuid \<Rightarrow> string" where
  "risk_key P run_id = ''live-risk-state-'' @ uuid_str P run_id"

text \<open>\<open>from_slice\<close>, the derived parser, is \<open>parse\<close>.\<close>

definition load_live_risk_state ::
    "prims \<Rightarrow> aead_prims \<Rightarrow> (string \<Rightarrow> live_risk_state option) \<Rightarrow> journal \<Rightarrow> uuid
      \<Rightarrow> live_error + live_risk_state option" where
  "load_live_risk_state P A parse j run_id =
     rbind (map_err LcJournal (secret A (risk_key P run_id) j)) (\<lambda>stored.
       case stored of None \<Rightarrow> Inr None
       | Some bytes \<Rightarrow> rbind (ok_or (parse bytes) LcRiskState) (\<lambda>r. Inr (Some r)))"

definition store_live_risk_state ::
    "prims \<Rightarrow> aead_prims \<Rightarrow> live_codec \<Rightarrow> string \<Rightarrow> journal \<Rightarrow> uuid \<Rightarrow> live_risk_state
      \<Rightarrow> live_error + journal" where
  "store_live_risk_state P A C nonce j run_id r =
     rbind (ok_or (json_to_vec P (risk_json C r)) LcRiskState) (\<lambda>encoded.
       map_err LcJournal (put_secret A nonce (risk_key P run_id) encoded j))"

definition date_of :: "int \<Rightarrow> int" where "date_of t = t div 86400000000000"

definition unix_milliseconds :: "int \<Rightarrow> live_error + u64" where
  "unix_milliseconds t = ok_or (u64_try (t sdiv 1000000)) LcRiskState"

definition update_risk_state :: "account_snapshot \<Rightarrow> int \<Rightarrow> live_risk_state \<Rightarrow> live_risk_state" where
  "update_risk_state a today r =
     (let r' = (if rk_trading_day r \<noteq> today
                then r\<lparr>rk_trading_day := today, rk_day_start_equity := as_equity a, rk_orders_today := 0\<rparr>
                else r)
      in r'\<lparr>rk_peak_equity := max (rk_peak_equity r') (as_equity a)\<rparr>)"

definition validate_account_policy :: "account_snapshot \<Rightarrow> u8 \<Rightarrow> live_error + unit" where
  "validate_account_policy a isolated_leverage =
     (if as_equity a \<le> 0 \<or> isolated_leverage = 0
         \<or> list_ex (\<lambda>(k, p). \<not> ps_isolated p \<or> ps_leverage p \<noteq> ucast isolated_leverage) (as_positions a)
      then Inl LcAccountPolicy else Inr ())"

definition signed_position :: "account_snapshot \<Rightarrow> string \<Rightarrow> int" where
  "signed_position a symbol = (case map_of (as_positions a) symbol of
     None \<Rightarrow> 0
   | Some p \<Rightarrow> if ps_quantity_e8 p < 0 then wrap_i64 (- ps_notional p) else ps_notional p)"

definition portfolio_of :: "live_risk_state \<Rightarrow> account_snapshot \<Rightarrow> string \<Rightarrow> portfolio_state" where
  "portfolio_of r a symbol = \<lparr>equity = as_equity a, available_collateral = as_withdrawable a,
     trading_day_start_equity = rk_day_start_equity r, peak_equity = rk_peak_equity r,
     symbol_position = signed_position a symbol, orders_today = rk_orders_today r\<rparr>"

definition marketable_proposal ::
    "proposal \<Rightarrow> (string \<times> market_snapshot) list \<Rightarrow> live_error + proposal" where
  "marketable_proposal p snapshots =
     rbind (ok_or (map_of snapshots (p_symbol p)) LcRiskState) (\<lambda>s.
     rbind (map_err LcVenue (marketable_limit_price (ms_book s) (p_side p))) (\<lambda>limit.
       Inr (p\<lparr>p_limit_price := limit\<rparr>)))"

section \<open>Steps of a cycle\<close>

type_synonym ('w, 'a) live_step = "('w live_host, live_error, 'a) step"

definition writer_of :: "'w live \<Rightarrow> writer" where
  "writer_of L = \<lparr>dw_signing_key = lv_signing_key L, dw_arena_id = am_arena_id (lv_manifest L),
     dw_run_id = lv_run_id L\<rparr>"

definition live_append ::
    "'w live \<Rightarrow> uuid option \<Rightarrow> string \<Rightarrow> json \<Rightarrow> json \<Rightarrow> ('w, run_event) live_step" where
  "live_append L cycle_id event_type payload pv =
     serr LcEvent (append_durable (lv_P L) (lv_A L) (lv_E L) (writer_of L) cycle_id event_type payload pv)"

text \<open>\<open>store_live_risk_state_with_writer\<close>.\<close>

definition store_risk :: "'w live \<Rightarrow> ('w, unit) live_step" where
  "store_risk L =
     sbind (sget hs_risk) (\<lambda>r.
     sbind (slift (ok_or (json_to_vec (lv_P L) (risk_json (lv_C L) r)) LcRiskState)) (\<lambda>encoded.
       serr LcEvent (put_local_secret (lv_A L) (lv_E L) (risk_key (lv_P L) (lv_run_id L)) encoded)))"

definition query ::
    "string \<Rightarrow> ('w \<Rightarrow> (hl_error + 'a) \<times> 'w) \<Rightarrow> ('w, 'a) live_step" where
  "query name f = sbind (logged (EfQuery name)) (\<lambda>_. sbind (ask f) (\<lambda>r. slift (map_err LcVenue r)))"

definition clock_ms :: "'w live \<Rightarrow> ('w, u64) live_step" where
  "clock_ms L = sbind (ask (he_clock (lv_E L))) (\<lambda>t. slift (unix_milliseconds t))"

definition with_risk :: "(live_risk_state \<Rightarrow> live_risk_state) \<Rightarrow> ('w, unit) live_step" where
  "with_risk f = sput (\<lambda>s. s\<lparr>hs_risk := f (hs_risk s)\<rparr>)"

definition checked_account :: "'w live \<Rightarrow> ('w, account_snapshot) live_step" where
  "checked_account L =
     sbind (query ''account_snapshot'' (vn_account (lv_venue L) (lv_account L))) (\<lambda>account.
     sbind (slift (validate_account_policy account (lv_leverage L))) (\<lambda>_. sret account))"

definition fresh_account :: "'w live \<Rightarrow> int \<Rightarrow> ('w, account_snapshot) live_step" where
  "fresh_account L today =
     sbind (checked_account L) (\<lambda>account.
     sbind (with_risk (update_risk_state account today)) (\<lambda>_. sret account))"

text \<open>The fills and the funding since the last reconciliation, then the account; the mark is moved.\<close>

definition reconcile_account ::
    "'w live \<Rightarrow> ('w, int) live_step \<Rightarrow> ('w, json \<times> json \<times> account_snapshot) live_step" where
  "reconcile_account L today =
     sbind (clock_ms L) (\<lambda>reconcile_at.
     sbind (sget (\<lambda>s. rk_last_reconciliation_ms (hs_risk s))) (\<lambda>since.
     sbind (query ''fills_since'' (vn_fills (lv_venue L) (lv_account L) since reconcile_at)) (\<lambda>fills.
     sbind (query ''funding_since'' (vn_funding (lv_venue L) (lv_account L) since reconcile_at)) (\<lambda>funding.
     sbind (checked_account L) (\<lambda>account.
     sbind (with_risk (\<lambda>r. r\<lparr>rk_last_reconciliation_ms := reconcile_at\<rparr>)) (\<lambda>_.
     sbind today (\<lambda>day.
     sbind (with_risk (update_risk_state account day)) (\<lambda>_. sret (fills, funding, account)))))))))"

definition source_field :: "bool \<Rightarrow> (string \<times> json) list" where
  "source_field session = (if session then [(''source'', JStr ''session_reconciliation'')] else [])"

definition reconciliation_events ::
    "'w live \<Rightarrow> uuid option \<Rightarrow> bool \<Rightarrow> json \<times> json \<times> account_snapshot \<Rightarrow> ('w, run_event) live_step" where
  "reconciliation_events L cycle_id session x = (case x of (fills, funding, account) \<Rightarrow>
     sbind (live_append L cycle_id ''fill'' (JObj ((''fills'', fills) # source_field session)) JNull) (\<lambda>_.
     sbind (live_append L cycle_id ''funding'' (JObj ((''funding'', funding) # source_field session)) JNull) (\<lambda>_.
     sbind (live_append L cycle_id ''reconciliation'' (JObj (source_field session @
              [(''venue_time_ms'', jword (as_venue_time_ms account)),
               (''positions'', positions_json account)])) JNull) (\<lambda>_.
     sbind (live_append L cycle_id ''portfolio_snapshot'' (portfolio_event account) JNull) (\<lambda>final.
     sbind (store_risk L) (\<lambda>_. sret final))))))"

definition reconcile_live_state :: "'w live \<Rightarrow> ('w, string) live_step" where
  "reconcile_live_state L =
     sbind (reconcile_account L (sbind (ask (he_clock (lv_E L))) (\<lambda>t. sret (date_of t)))) (\<lambda>x.
     sbind (reconciliation_events L None True x) (\<lambda>final. sret (ev_event_sha256 final)))"

section \<open>The phases of a cycle\<close>

record observation =
  ob_cycle_id :: uuid
  ob_now :: int
  ob_now_ms :: u64
  ob_account :: account_snapshot
  ob_markets :: "(string \<times> market_snapshot) list"
  ob_portfolios :: "(string \<times> portfolio_state) list"
  ob_candles :: json

definition observe :: "'w live \<Rightarrow> book_snapshot list \<Rightarrow> ('w, observation) live_step" where
  "observe L books =
     sbind (ask (he_uuid (lv_E L))) (\<lambda>cycle_id.
     sbind (ask (he_clock (lv_E L))) (\<lambda>now.
     sbind (slift (unix_milliseconds now)) (\<lambda>now_ms.
     let candle_start_ms = sat_sub now_ms (32 * 900000) in
     sbind (fresh_account L (date_of now)) (\<lambda>account.
     sbind (query ''market_snapshots'' (vn_markets (lv_venue L) books now_ms)) (\<lambda>snapshots.
     sbind (sget (\<lambda>s. map (\<lambda>(symbol, _). (symbol, portfolio_of (hs_risk s) account symbol)) snapshots)) (\<lambda>portfolios.
     sbind (query ''recent_candles'' (vn_candles (lv_venue L) candle_start_ms now_ms)) (\<lambda>candles.
       sret \<lparr>ob_cycle_id = cycle_id, ob_now = now, ob_now_ms = now_ms, ob_account = account,
            ob_markets = snapshots, ob_portfolios = portfolios, ob_candles = candles\<rparr>)))))))"

text \<open>The three snapshot tools answer with what was observed.\<close>

definition snapshot_tool :: "json \<Rightarrow> 'w local_tool" where
  "snapshot_tool output = (\<lambda>arguments w. (Inr output, w))"

definition register_tools :: "observation \<Rightarrow> runtime_error + 'w tools" where
  "register_tools ob =
     (case register_tool MarketSnapshot (snapshot_tool (markets_json (ob_markets ob))) [] of
        (Inl e, _) \<Rightarrow> Inl e
      | (Inr _, t1) \<Rightarrow>
          (case register_tool PortfolioSnapshot (snapshot_tool (account_json (ob_account ob))) t1 of
             (Inl e, _) \<Rightarrow> Inl e
           | (Inr _, t2) \<Rightarrow>
               (case register_tool RecentCandles (snapshot_tool (ob_candles ob)) t2 of
                  (Inl e, _) \<Rightarrow> Inl e
                | (Inr _, t3) \<Rightarrow> Inr t3)))"

definition open_cycle :: "'w live \<Rightarrow> observation \<Rightarrow> ('w, unit) live_step" where
  "open_cycle L ob =
     (let cycle = Some (ob_cycle_id ob) in
      sbind (live_append L cycle ''cycle_started'' (JObj [(''scheduled_at'', lc_time (lv_C L) (ob_now ob)),
               (''venue_time_ms'', jword (ob_now_ms ob))]) JNull) (\<lambda>_.
      sbind (live_append L cycle ''book_snapshot'' (markets_json (ob_markets ob)) JNull) (\<lambda>_.
      sbind (live_append L cycle ''candle_closed'' (ob_candles ob) JNull) (\<lambda>_.
      sbind (live_append L cycle ''portfolio_snapshot'' (portfolio_event (ob_account ob)) JNull) (\<lambda>_.
        sret ())))))"

definition cycle_context_json :: "'w live \<Rightarrow> observation \<Rightarrow> live_risk_state \<Rightarrow> json" where
  "cycle_context_json L ob r = JObj [(''scheduled_at'', lc_time (lv_C L) (ob_now ob)),
     (''market_snapshot'', markets_json (ob_markets ob)),
     (''portfolio_snapshot'', account_json (ob_account ob)), (''recent_candles'', ob_candles ob),
     (''risk_state'', risk_json (lv_C L) r)]"

definition cycle_context_of :: "'w live \<Rightarrow> observation \<Rightarrow> live_risk_state \<Rightarrow> cycle_context" where
  "cycle_context_of L ob r = \<lparr>cx_manifest = lv_manifest L, cx_run_id = lv_run_id L,
     cx_cycle_id = ob_cycle_id ob, cx_model_id = lv_model_id L,
     cx_strategy_instructions = lv_strategy L,
     cx_markets = map (\<lambda>(symbol, s). (symbol, ms_market s)) (ob_markets ob),
     cx_portfolios = ob_portfolios ob, cx_cycle_context = cycle_context_json L ob r\<rparr>"

text \<open>The model's turn; a failure is published, the risk state stored, and the failure returned.\<close>

definition decide :: "'w live \<Rightarrow> observation \<Rightarrow> 'w tools \<Rightarrow> ('w, cycle_outcome) live_step" where
  "decide L ob tools =
     sbind (sget hs_risk) (\<lambda>r.
     sbind (logged EfModel) (\<lambda>_.
     sbind (ask (execute_cycle (lv_P L) (lv_infer L) tools (cycle_context_of L ob r))) (\<lambda>outcome.
       case outcome of
         Inr out \<Rightarrow> sret out
       | Inl e \<Rightarrow>
           sbind (live_append L (Some (ob_cycle_id ob)) ''cycle_failed''
             (JObj [(''stage'', JStr ''model_decision''), (''reason'', JStr (failure_class e)),
                    (''order_submitted'', JBool False)]) JNull) (\<lambda>_.
           sbind (store_risk L) (\<lambda>_. slift (Inl (LcRuntime e)))))))"

definition publish_decision :: "'w live \<Rightarrow> observation \<Rightarrow> cycle_outcome \<Rightarrow> ('w, unit) live_step" where
  "publish_decision L ob out =
     sbind (sfor (\<lambda>receipt. live_append L (Some (ob_cycle_id ob)) ''inference_receipt''
              (JObj [(''receipt_id'', juuid (lv_P L) (ir_receipt_id receipt))]) JNull) (co_receipts out)) (\<lambda>_.
     sbind (sget hs_risk) (\<lambda>r.
     sbind (live_append L (Some (ob_cycle_id ob)) ''proposal''
       (JObj [(''action'', JStr (if co_proposal out \<noteq> None then ''order'' else ''hold'')),
              (''decision_summary'', JStr (utf8 (co_decision_summary out))),
              (''proposal'', case co_proposal out of None \<Rightarrow> JNull | Some p \<Rightarrow> proposal_json p)])
       (JObj [(''cycle_context'', cycle_context_json L ob r),
              (''tool_results'', tool_results_json (co_tool_results out))])) (\<lambda>_. sret ())))"

text \<open>A cycle that ends without an order: its outcome is published and the risk state stored.\<close>

definition end_cycle ::
    "'w live \<Rightarrow> observation \<Rightarrow> string \<Rightarrow> bool \<Rightarrow> json \<Rightarrow> ('w, live_result) live_step" where
  "end_cycle L ob symbol allowed payload =
     sbind (live_append L (Some (ob_cycle_id ob)) ''policy_outcome'' payload JNull) (\<lambda>e.
     sbind (store_risk L) (\<lambda>_.
       sret \<lparr>lr_cycle_id = ob_cycle_id ob, lr_proposal_symbol = symbol, lr_policy_allowed = allowed,
            lr_order_submitted = False, lr_client_order_id = None,
            lr_last_event_sha256 = ev_event_sha256 e\<rparr>))"

definition hold :: "'w live \<Rightarrow> observation \<Rightarrow> ('w, live_result) live_step" where
  "hold L ob = end_cycle L ob ''HOLD'' True (JObj [(''allowed'', JBool True), (''action'', JStr ''hold''),
     (''reason'', JStr ''model_abstained''), (''order_submitted'', JBool False)])"

text \<open>The account and the target book at dispatch time.\<close>

definition dispatch_view ::
    "'w live \<Rightarrow> observation \<Rightarrow> proposal \<Rightarrow> ('w, account_snapshot \<times> market_snapshot) live_step" where
  "dispatch_view L ob p =
     sbind (fresh_account L (date_of (ob_now ob))) (\<lambda>account.
     sbind (clock_ms L) (\<lambda>now_ms.
     sbind (query ''fresh_market_snapshot'' (vn_fresh_market (lv_venue L) (p_symbol p) now_ms)) (\<lambda>snapshot.
     sbind (live_append L (Some (ob_cycle_id ob)) ''book_snapshot''
              (JObj [(p_symbol p, market_snapshot_json snapshot)]) JNull) (\<lambda>_.
       sret (account, snapshot)))))"

definition dispatch_context ::
    "'w live \<Rightarrow> live_risk_state \<Rightarrow> proposal \<Rightarrow> account_snapshot \<Rightarrow> market_snapshot
      \<Rightarrow> live_error + policy_context" where
  "dispatch_context L r p account snapshot =
     rbind (ok_or (i64_try (uint (am_starting_capital_micro_usdc (lv_manifest L)))) LcRiskState) (\<lambda>capital.
     rbind (map_err LcVenue (opposing_top_price (ms_book snapshot) (p_side p))) (\<lambda>reference.
       Inr \<lparr>pc_rules = am_risk_rules (lv_manifest L), pc_market = ms_market snapshot,
            pc_portfolio = portfolio_of r account (p_symbol p), pc_starting_capital = capital,
            pc_quantity_reference_price = Some reference,
            pc_isolated_leverage = lv_leverage L\<rparr>))"

text \<open>The policy's verdict on the proposal at the fresh book.\<close>

definition dispatch_verdict ::
    "'w live \<Rightarrow> live_risk_state \<Rightarrow> proposal \<Rightarrow> account_snapshot \<Rightarrow> market_snapshot
      \<Rightarrow> live_error + (policy_error + order_decision)" where
  "dispatch_verdict L r p account snapshot =
     rbind (marketable_proposal p [(p_symbol p, snapshot)]) (\<lambda>marketable.
     rbind (dispatch_context L r p account snapshot) (\<lambda>c. Inr (evaluate_proposal marketable c)))"

text \<open>Before the order leaves: the verdict and the dispatch are published, the order counted.\<close>

definition prepare_order :: "'w live \<Rightarrow> observation \<Rightarrow> order_decision \<Rightarrow> ('w, string) live_step" where
  "prepare_order L ob order =
     sbind (live_append L (Some (ob_cycle_id ob)) ''policy_outcome''
              (JObj [(''allowed'', JBool True), (''order'', order_json order)]) JNull) (\<lambda>policy_event.
     sbind (ask (he_uuid (lv_E L))) (\<lambda>u.
     let client_order_id = lc_simple (lv_C L) u in
     sbind (live_append L (Some (ob_cycle_id ob)) ''order_submitted''
              (JObj [(''client_order_id'', JStr client_order_id),
                     (''policy_event_sha256'', JStr (ev_event_sha256 policy_event)),
                     (''order'', order_json order), (''phase'', JStr ''dispatching'')]) JNull) (\<lambda>_.
     sbind (with_risk (\<lambda>r. r\<lparr>rk_orders_today := sat_add (rk_orders_today r) 1\<rparr>)) (\<lambda>_.
     sbind (store_risk L) (\<lambda>_. sret client_order_id)))))"

definition submit :: "'w live \<Rightarrow> order_decision \<Rightarrow> string \<Rightarrow> ('w, venue_submission) live_step" where
  "submit L order client_order_id =
     sbind (logged (EfSubmit order client_order_id)) (\<lambda>_.
     sbind (ask (vn_submit (lv_venue L) order client_order_id)) (\<lambda>r. slift (map_err LcVenue r)))"

definition settle ::
    "'w live \<Rightarrow> observation \<Rightarrow> string \<Rightarrow> venue_submission \<Rightarrow> ('w, live_result) live_step" where
  "settle L ob symbol submission =
     sbind (live_append L (Some (ob_cycle_id ob)) ''venue_acknowledgement''
              (JObj [(''client_order_id'', JStr (vs_client_order_id submission)),
                     (''statuses'', vs_statuses submission)]) JNull) (\<lambda>_.
     sbind (reconcile_account L (sret (date_of (ob_now ob)))) (\<lambda>x.
     sbind (reconciliation_events L (Some (ob_cycle_id ob)) False x) (\<lambda>final.
       sret \<lparr>lr_cycle_id = ob_cycle_id ob, lr_proposal_symbol = symbol, lr_policy_allowed = True,
            lr_order_submitted = True, lr_client_order_id = Some (vs_client_order_id submission),
            lr_last_event_sha256 = ev_event_sha256 final\<rparr>)))"

definition dispatch_order ::
    "'w live \<Rightarrow> observation \<Rightarrow> string \<Rightarrow> order_decision \<Rightarrow> ('w, live_result) live_step" where
  "dispatch_order L ob symbol order =
     sbind (ask (lv_gate L)) (\<lambda>permitted.
     sbind (logged (EfGate permitted)) (\<lambda>_.
       if \<not> permitted then end_cycle L ob symbol False
         (JObj [(''allowed'', JBool False), (''reason'', JStr ''execution_gate_closed'')])
       else
         sbind (prepare_order L ob order) (\<lambda>client_order_id.
         sbind (submit L order client_order_id) (\<lambda>submission. settle L ob symbol submission))))"

definition dispatch :: "'w live \<Rightarrow> observation \<Rightarrow> proposal \<Rightarrow> ('w, live_result) live_step" where
  "dispatch L ob p =
     sbind (dispatch_view L ob p) (\<lambda>(account, snapshot).
     sbind (sget hs_risk) (\<lambda>r.
     sbind (slift (dispatch_verdict L r p account snapshot)) (\<lambda>verdict.
       case verdict of
         Inl e \<Rightarrow> end_cycle L ob (p_symbol p) False
           (JObj [(''allowed'', JBool False), (''reason'', JStr (policy_error_text e))])
       | Inr order \<Rightarrow> dispatch_order L ob (p_symbol p) order)))"

definition execute_live_cycle ::
    "'w live \<Rightarrow> book_snapshot list \<Rightarrow> ('w, live_result) live_step" where
  "execute_live_cycle L books =
     sbind (observe L books) (\<lambda>ob.
     sbind (slift (map_err LcRuntime (register_tools ob))) (\<lambda>tools.
     sbind (open_cycle L ob) (\<lambda>_.
     sbind (decide L ob tools) (\<lambda>out.
     sbind (publish_decision L ob out) (\<lambda>_.
       case co_proposal out of None \<Rightarrow> hold L ob | Some p \<Rightarrow> dispatch L ob p)))))"

section \<open>What the steps keep\<close>

fun submits :: "effect list \<Rightarrow> (order_decision \<times> string) list" where
  "submits [] = []"
| "submits (EfSubmit order c # t) = (order, c) # submits t"
| "submits (_ # t) = submits t"

lemma submits_append [simp]: "submits (t @ u) = submits t @ submits u"
  by (induction t rule: submits.induct) simp_all

lemma submits_delivery [simp]: "list_all delivery t \<Longrightarrow> submits t = []"
  by (induction t rule: submits.induct) auto

text \<open>The day's counter: unchanged, or read on day \<open>d\<close>, which resets it on a new day.\<close>

definition day_step :: "int \<Rightarrow> live_risk_state \<Rightarrow> live_risk_state \<Rightarrow> bool" where
  "day_step d r r' \<longleftrightarrow>
     rk_trading_day r' = rk_trading_day r \<and> rk_orders_today r' = rk_orders_today r
     \<or> rk_trading_day r' = d \<and> rk_orders_today r' = (if rk_trading_day r = d then rk_orders_today r else 0)"

text \<open>A step that submits nothing and counts nothing.\<close>

definition view_rel :: "int \<Rightarrow> 'w live_host \<Rightarrow> 'w live_host \<Rightarrow> bool" where
  "view_rel d s s' \<longleftrightarrow> (\<exists>t. hs_trace s' = hs_trace s @ t \<and> submits t = [])
     \<and> day_step d (hs_risk s) (hs_risk s')"

interpretation view: step_relation "view_rel d" for d :: int
proof (unfold_locales, goal_cases)
  case (2 s t u)
  then show ?case by (auto simp: view_rel_def day_step_def split: if_splits)
qed (simp add: view_rel_def day_step_def)

lemma same_risk: "host.more s' = host.more s \<Longrightarrow> hs_risk s' = hs_risk (s :: 'w live_host)"
  by (cases s; cases s') simp

lemma view_idle:
  "hs_trace s' = hs_trace s @ t \<Longrightarrow> submits t = [] \<Longrightarrow> hs_risk s' = hs_risk s \<Longrightarrow> view_rel d s s'"
  by (auto simp: view_rel_def day_step_def)

lemma view_quiet: "quiet_rel s s' \<Longrightarrow> view_rel d s (s' :: 'w live_host)"
  by (auto simp: quiet_rel_def intro: view_idle same_risk)

lemma view_append: "keeps (view_rel d) (live_append L cycle ty payload pv)"
  unfolding live_append_def by (intro keeps_err keepsI) (rule view_quiet, erule keepsD [OF quiet_append])

lemma view_ask: "keeps (view_rel d) (ask f)"
  by (rule keepsI, rule view_quiet, erule keepsD [OF quiet_ask])

lemma view_logged: "submits [ef] = [] \<Longrightarrow> keeps (view_rel d) (logged ef)"
  by (rule keepsI) (auto simp: logged_apply intro!: view_idle)

lemma view_on_journal: "keeps (view_rel d) (on_journal f)"
  by (rule keepsI, rule view_quiet, erule keepsD [OF quiet_on_journal])

lemma view_query: "keeps (view_rel d) (query name f)"
  unfolding query_def by (intro view.keeps_bind view_logged view_ask view.keeps_lift) simp

lemma view_clock: "keeps (view_rel d) (clock_ms L)"
  unfolding clock_ms_def by (intro view.keeps_bind view_ask view.keeps_lift)

lemma view_store: "keeps (view_rel d) (store_risk L)"
  unfolding store_risk_def put_local_secret_def
  by (intro view.keeps_bind keeps_err view_ask view_logged view_on_journal view.keeps_lift view.keeps_get) simp

lemma view_update: "keeps (view_rel d) (with_risk (update_risk_state a d))"
  by (rule keepsI)
    (auto simp: with_risk_def sput_def view_rel_def day_step_def update_risk_state_def Let_def)

lemma view_mark: "keeps (view_rel d) (with_risk (\<lambda>r. r\<lparr>rk_last_reconciliation_ms := n\<rparr>))"
  by (rule keepsI) (auto simp: with_risk_def sput_def view_rel_def day_step_def)

lemmas view_steps = view.keeps_ret view.keeps_lift view.keeps_get view.keeps_bind view.keeps_for
  view_append view_ask view_query view_clock view_store view_update view_mark

lemma view_checked_account: "keeps (view_rel d) (checked_account L)"
  unfolding checked_account_def by (intro view_steps)

lemma view_fresh_account: "keeps (view_rel d) (fresh_account L d)"
  unfolding fresh_account_def by (intro view_steps view_checked_account)

lemma view_reconcile: "keeps (view_rel d) (reconcile_account L (sret d))"
  unfolding reconcile_account_def sbind_ret by (intro view_steps view_checked_account)

lemma view_reconciliation_events: "keeps (view_rel d) (reconciliation_events L cycle session x)"
  unfolding reconciliation_events_def by (cases x) (simp, intro view_steps)

lemma view_open_cycle: "keeps (view_rel d) (open_cycle L ob)"
  unfolding open_cycle_def Let_def by (intro view_steps)

lemma view_decide: "keeps (view_rel d) (decide L ob tools)"
  unfolding decide_def
  by (intro view.keeps_bind view.keeps_get view_logged view_ask; (simp split: sum.split)?)
    (intro allI conjI impI view_steps)

lemma view_publish: "keeps (view_rel d) (publish_decision L ob out)"
  unfolding publish_decision_def by (intro view_steps)

lemma view_end_cycle: "keeps (view_rel d) (end_cycle L ob symbol allowed payload)"
  unfolding end_cycle_def by (intro view_steps)

lemma view_dispatch_view: "keeps (view_rel (date_of (ob_now ob))) (dispatch_view L ob p)"
  unfolding dispatch_view_def by (intro view_steps view_fresh_account)

lemma view_settle: "keeps (view_rel (date_of (ob_now ob))) (settle L ob symbol submission)"
  unfolding settle_def by (intro view_steps view_reconcile view_reconciliation_events)

lemma view_observe:
  assumes "observe L books s = (r, s')"
  obtains d where "view_rel d s s'" and "\<And>ob. r = Inr ob \<Longrightarrow> date_of (ob_now ob) = d"
proof -
  obtain u w1 where u: "he_uuid (lv_E L) (hs_world s) = (u, w1)" by fastforce
  obtain now w2 where now: "he_clock (lv_E L) w1 = (now, w2)" by fastforce
  let ?s = "s\<lparr>hs_world := w2\<rparr>"
  define rest where "rest = (\<lambda>now_ms.
     let candle_start_ms = sat_sub now_ms (32 * 900000) in
     sbind (fresh_account L (date_of now)) (\<lambda>account.
     sbind (query ''market_snapshots'' (vn_markets (lv_venue L) books now_ms)) (\<lambda>snapshots.
     sbind (sget (\<lambda>s. map (\<lambda>(symbol, _). (symbol, portfolio_of (hs_risk s) account symbol)) snapshots)) (\<lambda>portfolios.
     sbind (query ''recent_candles'' (vn_candles (lv_venue L) candle_start_ms now_ms)) (\<lambda>candles.
       sret \<lparr>ob_cycle_id = u, ob_now = now, ob_now_ms = now_ms, ob_account = account,
            ob_markets = snapshots, ob_portfolios = portfolios, ob_candles = candles\<rparr>)))))"
  have step: "sbind (slift (unix_milliseconds now)) rest ?s = (r, s')"
    using assms unfolding observe_def rest_def
    by (simp add: sbind_def [of "ask _"] ask_def u now)
  have "keeps (view_rel (date_of now)) (sbind (slift (unix_milliseconds now)) rest)"
    unfolding rest_def Let_def by (intro view_steps view_fresh_account)
  then have "view_rel (date_of now) ?s s'" using step by (rule keepsD)
  then have rel: "view_rel (date_of now) s s'" by (auto simp: view_rel_def)
  have "ob_now ob = now" if "r = Inr ob" for ob
    using step that unfolding rest_def Let_def by (auto elim!: sbind_InrE simp: sret_def)
  with rel show ?thesis by (intro that [of "date_of now"]) auto
qed

section \<open>An order on its way\<close>

lemma with_risk_bind: "sbind (with_risk f) g s = g () (s\<lparr>hs_risk := f (hs_risk s)\<rparr>)"
  by (simp add: sbind_def with_risk_def sput_def)

lemma ask_bind: "sbind (ask f) g s = (case f (hs_world s) of (x, w) \<Rightarrow> g x (s\<lparr>hs_world := w\<rparr>))"
  by (simp add: sbind_def ask_def split: prod.split)

lemma logged_bind: "sbind (logged ef) g s = g () (s\<lparr>hs_trace := hs_trace s @ [ef]\<rparr>)"
  by (simp add: sbind_def logged_apply)

lemma get_bind: "sbind (sget h) g s = g (h s) s"
  by (simp add: sbind_def sget_def)

lemma live_append_Inr:
  assumes "live_append L cycle ty payload pv s = (Inr e', s')"
  obtains e receipt t where "e' = with_server_receipt e receipt" and "hs_risk s' = hs_risk s"
    and "list_all delivery t"
    and "hs_trace s' = hs_trace s @ t @ [EfSink e, EfReceipt (ev_event_id e) receipt]"
    and "ev_event_type e = ty" and "ev_payload e = payload" and "ev_cycle_id e = cycle"
    and "ev_run_id e = lv_run_id L"
proof -
  have "append_durable (lv_P L) (lv_A L) (lv_E L) (writer_of L) cycle ty payload pv s = (Inr e', s')"
    using assms by (auto simp: live_append_def elim!: serr_cases simp: map_err_def split: sum.splits)
  then obtain e receipt t where "e' = with_server_receipt e receipt" "host.more s' = host.more s"
    "list_all delivery t" "hs_trace s' = hs_trace s @ t @ [EfSink e, EfReceipt (ev_event_id e) receipt]"
    "ev_event_type e = ty" "ev_payload e = payload" "ev_cycle_id e = cycle" "ev_run_id e = dw_run_id (writer_of L)"
    by (rule append_durable_Inr)
  then show ?thesis by (intro that [of e receipt t]) (auto simp: writer_of_def intro: same_risk)
qed

lemma store_risk_Inr:
  assumes "store_risk L s = (Inr u, s')"
  shows "hs_risk s' = hs_risk s" and "\<exists>stored. hs_trace s' = hs_trace s @ [EfStore (risk_key (lv_P L) (lv_run_id L)) stored]
    \<and> json_to_vec (lv_P L) (risk_json (lv_C L) (hs_risk s)) = Some stored"
  using assms
  by (auto simp: store_risk_def put_local_secret_def sget_def slift_def serr_def ask_def on_journal_def
      logged_apply map_err_def ok_or_def elim!: sbind_InrE split: prod.splits sum.splits option.splits)

definition dispatch_event :: "order_decision \<Rightarrow> string \<Rightarrow> run_event \<Rightarrow> bool" where
  "dispatch_event order c e \<longleftrightarrow> ev_event_type e = ''order_submitted''
     \<and> (\<exists>hash. ev_payload e = JObj [(''client_order_id'', JStr c), (''policy_event_sha256'', JStr hash),
          (''order'', order_json order), (''phase'', JStr ''dispatching'')])"

text \<open>The risk state \<open>r\<close> with one more order counted; the four steps right before an order leaves the host.\<close>

definition order_counted :: "live_risk_state \<Rightarrow> live_risk_state" where
  "order_counted r = r\<lparr>rk_orders_today := sat_add (rk_orders_today r) 1\<rparr>"

definition armed :: "'w live \<Rightarrow> live_risk_state \<Rightarrow> order_decision \<Rightarrow> string \<Rightarrow> effect list \<Rightarrow> bool" where
  "armed L r order c t \<longleftrightarrow> (\<exists>t1 e receipt stored. t = EfGate True # t1 @ [EfSink e, EfReceipt (ev_event_id e) receipt,
     EfStore (risk_key (lv_P L) (lv_run_id L)) stored] \<and> list_all delivery t1 \<and> dispatch_event order c e
     \<and> json_to_vec (lv_P L) (risk_json (lv_C L) (order_counted r)) = Some stored)"

lemma live_append_any:
  assumes "live_append L cycle ty payload pv s = (r, s')"
  shows "hs_risk s' = hs_risk s \<and> (\<exists>t. hs_trace s' = hs_trace s @ t \<and> list_all delivery t)"
  using assms keepsD [OF quiet_append]
  by (fastforce simp: live_append_def quiet_rel_def elim!: serr_cases intro: same_risk)

lemma store_risk_any:
  assumes "store_risk L s = (r, s')"
  shows "hs_risk s' = hs_risk s \<and> (\<exists>t. hs_trace s' = hs_trace s @ t \<and> submits t = [])"
  using assms
  by (auto simp: store_risk_def put_local_secret_def sget_def slift_def serr_def ask_def on_journal_def
      logged_apply map_err_def elim!: sbind_cases split: prod.splits sum.splits)

lemma prepare_order_cases:
  assumes "prepare_order L ob order s = (r, s')"
  obtains (failed) x where "r = Inl x" and "\<exists>t. hs_trace s' = hs_trace s @ t \<and> submits t = []"
    and "rk_trading_day (hs_risk s') = rk_trading_day (hs_risk s)"
    and "rk_orders_today (hs_risk s') \<in> {rk_orders_today (hs_risk s), sat_add (rk_orders_today (hs_risk s)) 1}"
  | (prepared) c t1 e receipt stored where "r = Inr c"
    and "hs_trace s' = hs_trace s @ t1 @ [EfSink e, EfReceipt (ev_event_id e) receipt,
           EfStore (risk_key (lv_P L) (lv_run_id L)) stored]"
    and "list_all delivery t1" and "dispatch_event order c e"
    and "hs_risk s' = order_counted (hs_risk s)"
    and "json_to_vec (lv_P L) (risk_json (lv_C L) (order_counted (hs_risk s))) = Some stored"
proof -
  from assms show ?thesis unfolding prepare_order_def
  proof (cases rule: sbind_cases)
    case (failed x)
    then show ?thesis using live_append_any [OF failed(1)] by (intro that(1)) auto
  next
    case (ok e0 s1)
    obtain t0 where t0: "hs_trace s1 = hs_trace s @ t0" "list_all delivery t0" "hs_risk s1 = hs_risk s"
      using live_append_any [OF ok(1)] by blast
    obtain u w where u: "he_uuid (lv_E L) (hs_world s1) = (u, w)" by fastforce
    let ?c = "lc_simple (lv_C L) u" and ?s1 = "s1\<lparr>hs_world := w\<rparr>"
    define rest where "rest = (\<lambda>_ :: run_event.
       sbind (with_risk (\<lambda>r. r\<lparr>rk_orders_today := sat_add (rk_orders_today r) 1\<rparr>)) (\<lambda>_.
       sbind (store_risk L) (\<lambda>_. sret ?c)))"
    from ok(2) have "sbind (live_append L (Some (ob_cycle_id ob)) ''order_submitted''
        (JObj [(''client_order_id'', JStr ?c), (''policy_event_sha256'', JStr (ev_event_sha256 e0)),
               (''order'', order_json order), (''phase'', JStr ''dispatching'')]) JNull) rest ?s1 = (r, s')"
      by (simp add: rest_def ask_bind u Let_def)
    then show ?thesis
    proof (cases rule: sbind_cases)
      case (failed x)
      then show ?thesis using live_append_any [OF failed(1)] t0 by (intro that(1)) auto
    next
      case (ok e1 s2)
      obtain e receipt t1 where e: "hs_risk s2 = hs_risk ?s1" "list_all delivery t1"
        "hs_trace s2 = hs_trace ?s1 @ t1 @ [EfSink e, EfReceipt (ev_event_id e) receipt]"
        "ev_event_type e = ''order_submitted''"
        "ev_payload e = JObj [(''client_order_id'', JStr ?c), (''policy_event_sha256'', JStr (ev_event_sha256 e0)),
               (''order'', order_json order), (''phase'', JStr ''dispatching'')]"
        by (rule live_append_Inr [OF ok(1)])
      let ?s2 = "s2\<lparr>hs_risk := (hs_risk s2)\<lparr>rk_orders_today := sat_add (rk_orders_today (hs_risk s2)) 1\<rparr>\<rparr>"
      have "sbind (store_risk L) (\<lambda>_. sret ?c) ?s2 = (r, s')"
        using ok(2) by (simp add: rest_def with_risk_bind)
      then show ?thesis
      proof (cases rule: sbind_cases)
        case (failed x)
        then show ?thesis using store_risk_any [OF failed(1)] t0 e by (intro that(1)) auto
      next
        case (ok v s3)
        have risk: "hs_risk ?s2 = order_counted (hs_risk s)" using t0 e by (simp add: order_counted_def)
        obtain stored where "hs_trace s3 = hs_trace ?s2 @ [EfStore (risk_key (lv_P L) (lv_run_id L)) stored]"
          "json_to_vec (lv_P L) (risk_json (lv_C L) (order_counted (hs_risk s))) = Some stored"
          using store_risk_Inr(2) [OF ok(1), unfolded risk] by blast
        then show ?thesis using ok(2) store_risk_Inr(1) [OF ok(1)] t0 e risk
          by (intro that(2) [of ?c "t0 @ t1" e receipt stored]) (auto simp: sret_def dispatch_event_def)
      qed
    qed
  qed
qed

text \<open>
  The state after a cycle, seen from the state before it, on day \<open>d\<close>: either nothing left the host,
  and at most one order was counted; or exactly one order did, armed, accepted by the policy at
  the account and book of that moment, and counted.
\<close>

definition unsent_cycle ::
    "int \<Rightarrow> 'w live \<Rightarrow> 'w live_host \<Rightarrow> live_error + live_result \<Rightarrow> 'w live_host \<Rightarrow> bool" where
  "unsent_cycle d L s r s' \<longleftrightarrow> (\<exists>t. hs_trace s' = hs_trace s @ t \<and> submits t = [])
     \<and> (\<forall>res. r = Inr res \<longrightarrow> \<not> lr_order_submitted res \<and> lr_client_order_id res = None)
     \<and> (\<exists>r1. day_step d (hs_risk s) r1 \<and> (day_step d r1 (hs_risk s')
          \<or> rk_orders_today r1 < max_orders_day (am_risk_rules (lv_manifest L))
            \<and> day_step d (r1\<lparr>rk_orders_today := sat_add (rk_orders_today r1) 1\<rparr>) (hs_risk s')))"

definition sent_cycle ::
    "int \<Rightarrow> 'w live \<Rightarrow> 'w live_host \<Rightarrow> live_error + live_result \<Rightarrow> 'w live_host \<Rightarrow> order_decision
      \<Rightarrow> string \<Rightarrow> effect list \<Rightarrow> effect list \<Rightarrow> effect list \<Rightarrow> bool" where
  "sent_cycle d L s r s' order c t0 t1 t2 \<longleftrightarrow> hs_trace s' = hs_trace s @ t0 @ t1 @ [EfSubmit order c] @ t2
     \<and> submits t0 = [] \<and> submits t2 = []
     \<and> (\<exists>r1 p account snapshot. day_step d (hs_risk s) r1 \<and> armed L r1 order c t1
          \<and> dispatch_verdict L r1 p account snapshot = Inr (Inr order)
          \<and> day_step d (order_counted r1) (hs_risk s')
          \<and> (\<forall>res. r = Inr res \<longrightarrow> lr_policy_allowed res \<and> lr_order_submitted res
               \<and> lr_client_order_id res \<noteq> None \<and> lr_proposal_symbol res = p_symbol p))"

definition cycle_rel ::
    "int \<Rightarrow> 'w live \<Rightarrow> 'w live_host \<Rightarrow> live_error + live_result \<Rightarrow> 'w live_host \<Rightarrow> bool" where
  "cycle_rel d L s r s' \<longleftrightarrow> unsent_cycle d L s r s'
     \<or> (\<exists>order c t0 t1 t2. sent_cycle d L s r s' order c t0 t1 t2)"

lemma day_step_trans: "day_step d r r1 \<Longrightarrow> day_step d r1 r2 \<Longrightarrow> day_step d r r2"
  by (auto simp: day_step_def split: if_splits)

lemma cycle_rel_prefix:
  assumes "view_rel d s s1" and "cycle_rel d L s1 r s'"
  shows "cycle_rel d L s r s'"
proof -
  obtain t where t: "hs_trace s1 = hs_trace s @ t" "submits t = []" and day: "day_step d (hs_risk s) (hs_risk s1)"
    using assms(1) by (auto simp: view_rel_def)
  from assms(2) consider "unsent_cycle d L s1 r s'"
    | order c t0 t1 t2 where "sent_cycle d L s1 r s' order c t0 t1 t2" by (auto simp: cycle_rel_def)
  then show ?thesis
  proof cases
    case 1
    then have "unsent_cycle d L s r s'"
      using t day_step_trans [OF day] unfolding unsent_cycle_def by (metis append.assoc append_Nil submits_append)
    then show ?thesis by (simp add: cycle_rel_def)
  next
    case (2 order c t0 t1 t2)
    then have "sent_cycle d L s r s' order c (t @ t0) t1 t2"
      using t day_step_trans [OF day] unfolding sent_cycle_def by (metis append.assoc append_Nil submits_append)
    then show ?thesis by (auto simp: cycle_rel_def)
  qed
qed

lemma cycle_rel_unsent:
  assumes "view_rel d s s'" and "\<And>res. r = Inr res \<Longrightarrow> \<not> lr_order_submitted res \<and> lr_client_order_id res = None"
  shows "cycle_rel d L s r s'"
proof -
  have "day_step d (hs_risk s) (hs_risk s)" by (simp add: day_step_def)
  then have "unsent_cycle d L s r s'" using assms by (auto simp: unsent_cycle_def view_rel_def)
  then show ?thesis by (simp add: cycle_rel_def)
qed

lemma end_cycle_rel:
  assumes "end_cycle L ob symbol allowed payload s = (r, s')"
  shows "cycle_rel d L s r s'"
  using keepsD [OF view_end_cycle assms] assms
  by (intro cycle_rel_unsent) (auto simp: end_cycle_def sret_def elim!: sbind_InrE)

lemma verdict_below_limit:
  assumes "dispatch_verdict L r p account snapshot = Inr (Inr order)"
  shows "rk_orders_today r < max_orders_day (am_risk_rules (lv_manifest L))"
proof -
  from assms obtain m c where ctx: "dispatch_context L r p account snapshot = Inr c"
    and order: "evaluate_proposal m c = Inr order" by (auto simp: dispatch_verdict_def)
  have "pc_rules c = am_risk_rules (lv_manifest L)" "orders_today (pc_portfolio c) = rk_orders_today r"
    using ctx by (auto simp: dispatch_context_def portfolio_of_def)
  with pol.counted [OF order] show ?thesis by simp
qed

lemma dispatch_order_rel:
  assumes step: "dispatch_order L ob symbol order s = (r, s')"
    and verdict: "dispatch_verdict L (hs_risk s) p account snapshot = Inr (Inr order)"
    and symbol: "symbol = p_symbol p"
  shows "cycle_rel (date_of (ob_now ob)) L s r s'"
proof -
  let ?d = "date_of (ob_now ob)"
  obtain permitted w where gate: "lv_gate L (hs_world s) = (permitted, w)" by fastforce
  let ?s = "s\<lparr>hs_world := w, hs_trace := hs_trace s @ [EfGate permitted]\<rparr>"
  have below: "rk_orders_today (hs_risk s) < max_orders_day (am_risk_rules (lv_manifest L))"
    by (rule verdict_below_limit [OF verdict])
  have refl: "day_step ?d x x" for x by (simp add: day_step_def)
  show ?thesis
  proof (cases permitted)
    case False
    have view: "view_rel ?d s ?s" using False by (intro view_idle [where t = "[EfGate permitted]"]) auto
    have "cycle_rel ?d L ?s r s'"
      by (rule end_cycle_rel) (use step False gate in \<open>simp add: dispatch_order_def ask_bind logged_bind\<close>)
    with view show ?thesis by (rule cycle_rel_prefix)
  next
    case True
    from step True gate have "sbind (prepare_order L ob order) (\<lambda>c. sbind (submit L order c)
        (\<lambda>submission. settle L ob symbol submission)) ?s = (r, s')"
      by (simp add: dispatch_order_def ask_bind logged_bind)
    then show ?thesis
    proof (cases rule: sbind_cases)
      case (failed x)
      from failed(1) show ?thesis
      proof (cases rule: prepare_order_cases)
        case (failed y)
        have "day_step ?d (hs_risk s) (hs_risk s')
          \<or> day_step ?d (hs_risk s\<lparr>rk_orders_today := sat_add (rk_orders_today (hs_risk s)) 1\<rparr>) (hs_risk s')"
          using failed(3,4) by (auto simp: day_step_def)
        then have "unsent_cycle ?d L s r s'"
          using failed(2) \<open>r = Inl x\<close> True below refl by (auto simp: unsent_cycle_def)
        then show ?thesis by (simp add: cycle_rel_def)
      qed simp
    next
      case (ok c s1)
      note sent = ok(2)
      from ok(1) obtain t1 e receipt stored where prep:
        "hs_trace s1 = hs_trace ?s @ t1 @ [EfSink e, EfReceipt (ev_event_id e) receipt,
           EfStore (risk_key (lv_P L) (lv_run_id L)) stored]" "list_all delivery t1" "dispatch_event order c e"
        "hs_risk s1 = order_counted (hs_risk s)"
        "json_to_vec (lv_P L) (risk_json (lv_C L) (order_counted (hs_risk s))) = Some stored"
        by (cases rule: prepare_order_cases) auto
      have armed: "armed L (hs_risk s) order c (EfGate True # t1 @ [EfSink e, EfReceipt (ev_event_id e) receipt,
           EfStore (risk_key (lv_P L) (lv_run_id L)) stored])" (is "armed L _ order c ?t1")
        using prep unfolding armed_def by blast
      obtain v w2 where v: "vn_submit (lv_venue L) order c (hs_world s1) = (v, w2)" by fastforce
      let ?s2 = "s1\<lparr>hs_trace := hs_trace s1 @ [EfSubmit order c], hs_world := w2\<rparr>"
      have sent': "sbind (slift (map_err LcVenue v)) (\<lambda>submission. settle L ob symbol submission) ?s2 = (r, s')"
        using sent by (simp add: submit_def sbind_assoc logged_bind ask_bind v)
      have "keeps (view_rel ?d) (sbind (slift (map_err LcVenue v)) (\<lambda>submission. settle L ob symbol submission))"
        by (intro view_steps view_settle)
      then have "view_rel ?d ?s2 s'" using sent' by (rule keepsD)
      then obtain t2 where t2: "hs_trace s' = hs_trace ?s2 @ t2" "submits t2 = []"
        and day: "day_step ?d (hs_risk s1) (hs_risk s')" by (auto simp: view_rel_def)
      have res: "lr_policy_allowed res \<and> lr_order_submitted res \<and> lr_client_order_id res \<noteq> None
          \<and> lr_proposal_symbol res = p_symbol p" if "r = Inr res" for res
        using sent' that symbol by (auto simp: settle_def sret_def elim!: sbind_InrE)
      have "sent_cycle ?d L s r s' order c [] ?t1 t2"
        unfolding sent_cycle_def
        using t2 prep True armed day res verdict refl by (auto intro!: exI [of _ "hs_risk s"])
      then show ?thesis unfolding cycle_rel_def by blast
    qed
  qed
qed

lemma dispatch_rel:
  assumes "dispatch L ob p s = (r, s')"
  shows "cycle_rel (date_of (ob_now ob)) L s r s'"
  using assms unfolding dispatch_def
proof (cases rule: sbind_cases)
  case (failed x)
  then show ?thesis using keepsD [OF view_dispatch_view failed(1)] by (intro cycle_rel_unsent) auto
next
  case (ok x s1)
  obtain account snapshot where x: "x = (account, snapshot)" by (cases x)
  have view: "view_rel (date_of (ob_now ob)) s s1" by (rule keepsD [OF view_dispatch_view ok(1)])
  have "cycle_rel (date_of (ob_now ob)) L s1 r s'"
  proof (cases "dispatch_verdict L (hs_risk s1) p account snapshot")
    case (Inl e)
    then show ?thesis using ok(2) view.R_refl
      by (intro cycle_rel_unsent) (auto simp: x get_bind sbind_def [of "slift _"] slift_def)
  next
    case (Inr verdict)
    show ?thesis
    proof (cases verdict)
      case (Inl e)
      show ?thesis by (rule end_cycle_rel)
          (use ok(2) Inl Inr in \<open>simp add: x get_bind sbind_def [of "slift _"] slift_def\<close>)
    next
      case order: (Inr order)
      show ?thesis by (rule dispatch_order_rel [OF _ Inr [unfolded order] refl])
          (use ok(2) order Inr in \<open>simp add: x get_bind sbind_def [of "slift _"] slift_def\<close>)
    qed
  qed
  with view show ?thesis by (rule cycle_rel_prefix)
qed

lemma execute_live_cycle_rel:
  assumes "execute_live_cycle L books s = (r, s')"
  obtains d where "cycle_rel d L s r s'"
proof -
  from assms show ?thesis unfolding execute_live_cycle_def
  proof (cases rule: sbind_cases)
    case (failed x)
    obtain d where "view_rel d s s'" by (rule view_observe [OF failed(1)])
    then show ?thesis using failed(2) by (intro that cycle_rel_unsent) auto
  next
    case (ok ob s1)
    obtain d where view: "view_rel d s s1" and d: "date_of (ob_now ob) = d"
      using view_observe [OF ok(1)] by metis
    define rest where "rest = (\<lambda>_ :: unit. \<lambda>out. sbind (publish_decision L ob out) (\<lambda>_.
       case co_proposal out of None \<Rightarrow> hold L ob | Some p \<Rightarrow> dispatch L ob p))"
    define m where "m = sbind (slift (map_err LcRuntime (register_tools ob))) (\<lambda>tools.
       sbind (open_cycle L ob) (\<lambda>_. sbind (decide L ob tools) (\<lambda>out. sbind (publish_decision L ob out) (\<lambda>_. sret out))))"
    have keep: "keeps (view_rel d) m"
      unfolding m_def by (intro view_steps view_open_cycle view_decide view_publish)
    have "sbind m (\<lambda>out. case co_proposal out of None \<Rightarrow> hold L ob | Some p \<Rightarrow> dispatch L ob p) s1 = (r, s')"
      using ok(2) by (simp add: m_def sbind_assoc)
    then have "cycle_rel d L s1 r s'"
    proof (cases rule: sbind_cases)
      case (failed x)
      then show ?thesis using keepsD [OF keep failed(1)] by (intro cycle_rel_unsent) auto
    next
      case (ok out s2)
      have "cycle_rel d L s2 r s'"
        using ok(2) end_cycle_rel dispatch_rel [of L ob _ s2 r s'] d
        by (cases "co_proposal out") (auto simp: hold_def)
      then show ?thesis by (rule cycle_rel_prefix [OF keepsD [OF keep ok(1)]])
    qed
    then show ?thesis by (intro that [of d] cycle_rel_prefix [OF view])
  qed
qed

section \<open>What a cycle guarantees\<close>

text \<open>
  C1. No order leaves the host unguarded. Whatever the outcome of a cycle, an order in its trace
  is the only one; right before it the execution gate was found open, the dispatch event naming
  exactly this order and client order id was offered to the server and its receipt stored, and the
  risk state that counts the order was stored; between the gate and the order there are only event
  deliveries. The order is the policy's acceptance of a proposal at the risk state of that moment,
  which differs from the one before the cycle only by the roll-over of the day as far as the counter
  is concerned, and what was stored is the encoding of exactly that risk state with one more order counted.
\<close>

theorem live_order_is_guarded:
  assumes "execute_live_cycle L books s = (r, s')" and "hs_trace s' = hs_trace s @ t"
    and "EfSubmit order c \<in> set t"
  shows "\<exists>t0 t1 t2 e receipt stored. t = t0 @ [EfGate True] @ t1 @ [EfSink e, EfReceipt (ev_event_id e) receipt,
        EfStore (risk_key (lv_P L) (lv_run_id L)) stored, EfSubmit order c] @ t2
      \<and> submits t0 = [] \<and> submits t2 = [] \<and> list_all delivery t1 \<and> dispatch_event order c e
      \<and> (\<exists>day risk p account snapshot. day_step day (hs_risk s) risk
          \<and> dispatch_verdict L risk p account snapshot = Inr (Inr order)
          \<and> json_to_vec (lv_P L) (risk_json (lv_C L) (risk\<lparr>rk_orders_today := sat_add (rk_orders_today risk) 1\<rparr>))
              = Some stored)"
proof -
  have mem: "(order, c) \<in> set (submits t)"
    using assms(3) by (induction t rule: submits.induct) auto
  obtain d where "cycle_rel d L s r s'" by (rule execute_live_cycle_rel [OF assms(1)])
  then obtain order' c' t0 t1 t2 where sent: "sent_cycle d L s r s' order' c' t0 t1 t2"
    using mem assms(2) by (auto simp: cycle_rel_def unsent_cycle_def)
  then obtain r1 p account snapshot where r1: "day_step d (hs_risk s) r1" "armed L r1 order' c' t1"
    "dispatch_verdict L r1 p account snapshot = Inr (Inr order')"
    unfolding sent_cycle_def by blast
  then obtain t1' e receipt stored where t1: "t1 = EfGate True # t1' @ [EfSink e, EfReceipt (ev_event_id e) receipt,
     EfStore (risk_key (lv_P L) (lv_run_id L)) stored]" "list_all delivery t1'" "dispatch_event order' c' e"
     and stored: "json_to_vec (lv_P L) (risk_json (lv_C L) (order_counted r1)) = Some stored"
    by (auto simp: armed_def)
  have t: "t = t0 @ t1 @ [EfSubmit order' c'] @ t2" "submits t0 = []" "submits t2 = []"
    using sent assms(2) by (auto simp: sent_cycle_def)
  then have "submits t = [(order', c')]" using t1 by simp
  with mem have order: "order' = order" "c' = c" by auto
  have "\<exists>day risk p account snapshot. day_step day (hs_risk s) risk
      \<and> dispatch_verdict L risk p account snapshot = Inr (Inr order)
      \<and> json_to_vec (lv_P L) (risk_json (lv_C L) (risk\<lparr>rk_orders_today := sat_add (rk_orders_today risk) 1\<rparr>)) = Some stored"
    using r1 stored order unfolding order_counted_def by blast
  then show ?thesis using t t1 order
    by (intro exI [of _ t0] exI [of _ t1'] exI [of _ t2] exI [of _ e] exI [of _ receipt] exI [of _ stored]) simp
qed

text \<open>
  C3. The result a completed cycle reports agrees with what it did: it reports an order as
  submitted exactly when one order left the host, only with the policy's consent, and it carries a
  client order id exactly then.
\<close>

theorem live_result_is_truthful:
  assumes "execute_live_cycle L books s = (Inr res, s')" and "hs_trace s' = hs_trace s @ t"
  shows "length (submits t) = (if lr_order_submitted res then 1 else 0)
    \<and> (lr_order_submitted res \<longrightarrow> lr_policy_allowed res)
    \<and> (lr_client_order_id res = None \<longleftrightarrow> \<not> lr_order_submitted res)"
proof -
  obtain d where "cycle_rel d L s (Inr res) s'" by (rule execute_live_cycle_rel [OF assms(1)])
  then show ?thesis
    using assms(2) by (auto simp: cycle_rel_def unsent_cycle_def sent_cycle_def armed_def)
qed

section \<open>The daily order limit\<close>

fun after_cycles :: "('w live \<times> book_snapshot list) list \<Rightarrow> 'w live_host \<Rightarrow> 'w live_host" where
  "after_cycles [] s = s"
| "after_cycles ((L, books) # cs) s = after_cycles cs (snd (execute_live_cycle L books s))"

text \<open>Every cycle of the list leaves the risk state on day \<open>d\<close>.\<close>

fun all_on_day :: "int \<Rightarrow> ('w live \<times> book_snapshot list) list \<Rightarrow> 'w live_host \<Rightarrow> bool" where
  "all_on_day d [] s = True"
| "all_on_day d ((L, books) # cs) s =
     (let s1 = snd (execute_live_cycle L books s) in rk_trading_day (hs_risk s1) = d \<and> all_on_day d cs s1)"

lemma sat_add_one:
  fixes n m :: "'l::len word"
  assumes "n < m"
  shows "unat (sat_add n 1) = unat n + 1" and "sat_add n 1 \<le> m"
proof -
  have "unat n + 1 < 2 ^ LENGTH('l)"
    using assms unsigned_less [of m] unfolding word_less_nat_alt
    by (metis (mono_tags, lifting) Suc_eq_plus1 Suc_leI order.strict_trans1)
  then show 1: "unat (sat_add n 1) = unat n + 1"
    by (cases "LENGTH('l) = 0") (auto simp: sat_add_def unat_word_ariths)
  then show "sat_add n 1 \<le> m" using assms by (simp add: word_le_nat_alt word_less_nat_alt)
qed

lemma day_steps_same:
  assumes "day_step d r r1" and "day_step d r2 r'" and "rk_trading_day r2 = rk_trading_day r1"
    and "rk_trading_day r' = rk_trading_day r"
  shows "rk_orders_today r1 = rk_orders_today r" and "rk_orders_today r' = rk_orders_today r2"
  using assms by (auto simp: day_step_def split: if_splits)

lemma cycle_counts_orders:
  assumes "cycle_rel d L s r s'" and "rk_trading_day (hs_risk s') = rk_trading_day (hs_risk s)"
    and "max_orders_day (am_risk_rules (lv_manifest L)) = m" and "rk_orders_today (hs_risk s) \<le> m"
  obtains t where "hs_trace s' = hs_trace s @ t" and "rk_orders_today (hs_risk s') \<le> m"
    and "unat (rk_orders_today (hs_risk s)) + length (submits t) \<le> unat (rk_orders_today (hs_risk s'))"
proof -
  have one: "unat (sat_add n 1) = unat n + 1" "sat_add n 1 \<le> m" if "n < m" for n
    using sat_add_one [OF that] by auto
  from assms(1) consider "unsent_cycle d L s r s'"
    | order c t0 t1 t2 where "sent_cycle d L s r s' order c t0 t1 t2" by (auto simp: cycle_rel_def)
  then show ?thesis
  proof cases
    case 1
    then obtain t r1 where t: "hs_trace s' = hs_trace s @ t" "submits t = []" and r1: "day_step d (hs_risk s) r1"
      and later: "day_step d r1 (hs_risk s') \<or> rk_orders_today r1 < m
        \<and> day_step d (r1\<lparr>rk_orders_today := sat_add (rk_orders_today r1) 1\<rparr>) (hs_risk s')"
      using assms(3) by (auto simp: unsent_cycle_def)
    from later have "rk_orders_today (hs_risk s') \<le> m
        \<and> unat (rk_orders_today (hs_risk s)) \<le> unat (rk_orders_today (hs_risk s'))"
    proof
      assume "day_step d r1 (hs_risk s')"
      from day_steps_same [OF r1 this refl assms(2)] assms(4) show ?thesis by simp
    next
      assume counted: "rk_orders_today r1 < m
        \<and> day_step d (r1\<lparr>rk_orders_today := sat_add (rk_orders_today r1) 1\<rparr>) (hs_risk s')"
      with day_steps_same [OF r1 conjunct2 [OF counted] _ assms(2)] one [of "rk_orders_today r1"]
      show ?thesis by simp
    qed
    then show ?thesis using t by (intro that [of t]) auto
  next
    case (2 order c t0 t1 t2)
    then obtain r1 p account snapshot where r1: "day_step d (hs_risk s) r1"
      "dispatch_verdict L r1 p account snapshot = Inr (Inr order)"
      "day_step d (r1\<lparr>rk_orders_today := sat_add (rk_orders_today r1) 1\<rparr>) (hs_risk s')"
      by (auto simp: sent_cycle_def order_counted_def)
    have below: "rk_orders_today r1 < m" using verdict_below_limit [OF r1(2)] assms(3) by simp
    have "hs_trace s' = hs_trace s @ (t0 @ t1 @ [EfSubmit order c] @ t2)"
      "length (submits (t0 @ t1 @ [EfSubmit order c] @ t2)) = 1"
      using 2 by (auto simp: sent_cycle_def armed_def)
    then show ?thesis
      using day_steps_same [OF r1(1) r1(3) _ assms(2)] one [OF below]
      by (intro that [of "t0 @ t1 @ [EfSubmit order c] @ t2"]) simp_all
  qed
qed

text \<open>
  C2. The daily order limit holds on the orders that really leave the host. Over any number of
  cycles that stay on one trading day, under rules with the same limit, the orders submitted plus
  those already counted never exceed the limit, whatever errors, refusals and early returns occur.
\<close>

theorem daily_order_limit_holds:
  assumes "all_on_day (rk_trading_day (hs_risk s)) cs s"
    and "list_all (\<lambda>(L, books). max_orders_day (am_risk_rules (lv_manifest L)) = m) cs"
    and "rk_orders_today (hs_risk s) \<le> m"
  shows "\<exists>t. hs_trace (after_cycles cs s) = hs_trace s @ t
    \<and> unat (rk_orders_today (hs_risk s)) + length (submits t) \<le> unat m"
  using assms
proof (induction cs arbitrary: s)
  case Nil
  then show ?case by (simp add: word_le_nat_alt)
next
  case (Cons x cs)
  obtain L books where x: "x = (L, books)" by (cases x)
  obtain r s1 where run: "execute_live_cycle L books s = (r, s1)" by fastforce
  obtain d where rel: "cycle_rel d L s r s1" by (rule execute_live_cycle_rel [OF run])
  have day: "rk_trading_day (hs_risk s1) = rk_trading_day (hs_risk s)"
    and rest: "all_on_day (rk_trading_day (hs_risk s1)) cs s1"
    using Cons.prems(1) run by (simp_all add: x Let_def)
  have lim: "max_orders_day (am_risk_rules (lv_manifest L)) = m" using Cons.prems(2) by (simp add: x)
  obtain t where t: "hs_trace s1 = hs_trace s @ t" "rk_orders_today (hs_risk s1) \<le> m"
    "unat (rk_orders_today (hs_risk s)) + length (submits t) \<le> unat (rk_orders_today (hs_risk s1))"
    by (rule cycle_counts_orders [OF rel day lim Cons.prems(3)])
  obtain u where "hs_trace (after_cycles cs s1) = hs_trace s1 @ u"
    "unat (rk_orders_today (hs_risk s1)) + length (submits u) \<le> unat m"
    using Cons.IH [OF rest _ t(2)] Cons.prems(2) by auto
  then show ?case using t run by (intro exI [of _ "t @ u"]) (simp add: x)
qed

end
