(* ===== verification/Schedule.thy ===== *)
theory Schedule
  imports Manifests Companion Venue LiveCycle
begin

text \<open>
  The pure parts of \<open>apps/crow-agentd/src/live_run.rs\<close>: the checks of a live arena's
  configuration and the schedule of its decision cycles. Files are read through the argument
  \<open>fs\<close>, the JSON parsers are arguments. A time is in nanoseconds.
\<close>

section \<open>Errors\<close>

text \<open>An error of the control plane has no part that the code looks at.\<close>

datatype live_run_error =
    LrConfiguration
  | LrManifest
  | LrControlPlane
  | LrVenue hl_error
  | LrJournal journal_error
  | LrEvent durable_error
  | LrCycle live_error
  | LrGateway
  | LrState

definition failure_code :: "live_run_error \<Rightarrow> string" where
  "failure_code e = (case e of
       LrConfiguration \<Rightarrow> ''live_arena_configuration_invalid''
     | LrManifest \<Rightarrow> ''live_arena_manifest_invalid''
     | LrControlPlane \<Rightarrow> ''live_arena_control_plane_unavailable''
     | LrVenue _ \<Rightarrow> ''live_arena_venue_unavailable''
     | LrJournal _ \<Rightarrow> ''live_arena_journal_unavailable''
     | LrEvent _ \<Rightarrow> ''live_arena_journal_unavailable''
     | LrCycle _ \<Rightarrow> ''live_arena_cycle_failed''
     | LrGateway \<Rightarrow> ''live_arena_inference_unavailable''
     | LrState \<Rightarrow> ''live_arena_reconciliation_failed'')"

section \<open>Configuration\<close>

record live_arena_config =
  la_arena_manifest :: string
  la_handoff_snapshot :: "string option"
  la_agent_version_id :: uuid
  la_execution_account :: string
  la_model_id :: string
  la_client_release :: string
  la_decision_cooldown_seconds :: "u32 option"
  la_isolated_leverage :: "u8 option"

record prepared_arena =
  pa_signed :: signed_manifest
  pa_handoff_snapshot :: "json option"
  pa_agent_version_id :: uuid
  pa_execution_account :: string
  pa_model_id :: string
  pa_client_release :: string
  pa_decision_cooldown_seconds :: u32
  pa_isolated_leverage :: u8

definition valid_execution_account :: "string \<Rightarrow> bool" where
  "valid_execution_account v \<longleftrightarrow>
     length v = 42 \<and> starts_with v ''0x'' \<and> list_all is_ascii_hexdigit (drop 2 v)"

fun fixed_point_value :: "json \<Rightarrow> bool" where
  "fixed_point_value JNull = True"
| "fixed_point_value (JBool b) = True"
| "fixed_point_value (JStr s) = True"
| "fixed_point_value (JInt n) \<longleftrightarrow> is_i64 n \<or> u64_try n \<noteq> None"
| "fixed_point_value (JFloat s) = False"
| "fixed_point_value (JArr vs) = list_all fixed_point_value vs"
| "fixed_point_value (JObj fs) = list_all (\<lambda>p. fixed_point_value (snd p)) fs"

definition is_object :: "json \<Rightarrow> bool" where
  "is_object v = (case v of JObj _ \<Rightarrow> True | _ \<Rightarrow> False)"

definition configuration_invalid :: "live_arena_config \<Rightarrow> arena_manifest \<Rightarrow> u32 \<Rightarrow> u8 \<Rightarrow> bool" where
  "configuration_invalid c m cooldown leverage \<longleftrightarrow>
     \<not> (am_mode m = HyperliquidTestnet \<or> am_mode m = HyperliquidMainnet)
     \<or> \<not> List.member (am_eligible_models m) (la_model_id c)
     \<or> la_agent_version_id c = 0
     \<or> blank (la_client_release c)
     \<or> cooldown < MIN_LIVE_DECISION_INTERVAL_SECONDS \<or> MAX_CLIENT_DECISION_COOLDOWN_SECONDS < cooldown
     \<or> cooldown mod 60 \<noteq> 0
     \<or> leverage < MIN_CLIENT_ISOLATED_LEVERAGE \<or> MAX_CLIENT_ISOLATED_LEVERAGE < leverage
     \<or> \<not> valid_execution_account (la_execution_account c)"

definition prepare ::
    "prims \<Rightarrow> (arena_manifest \<Rightarrow> json option) \<Rightarrow> (json \<Rightarrow> arena_manifest option)
      \<Rightarrow> (string \<Rightarrow> string option) \<Rightarrow> (string \<Rightarrow> signed_manifest option) \<Rightarrow> (string \<Rightarrow> json option)
      \<Rightarrow> live_arena_config \<Rightarrow> live_run_error + prepared_arena" where
  "prepare P enc dec fs parse_signed parse_value c =
     rbind (ok_or (fs (la_arena_manifest c)) LrConfiguration) (\<lambda>bytes.
     rbind (ok_or (parse_signed bytes) LrManifest) (\<lambda>signed.
     rbind (map_err (\<lambda>_. LrManifest) (verify_manifest P enc dec signed)) (\<lambda>_.
     let m = sm_manifest signed;
         cooldown = (case la_decision_cooldown_seconds c of
           None \<Rightarrow> am_decision_interval_seconds m | Some s \<Rightarrow> s);
         leverage = (case la_isolated_leverage c of
           None \<Rightarrow> rr_isolated_leverage (am_risk_rules m) | Some l \<Rightarrow> l)
     in if configuration_invalid c m cooldown leverage then Inl LrConfiguration
     else rbind (case la_handoff_snapshot c of None \<Rightarrow> Inr None
         | Some path \<Rightarrow> rbind (ok_or (fs path) LrConfiguration) (\<lambda>bytes.
             rbind (ok_or (parse_value bytes) LrConfiguration) (\<lambda>v. Inr (Some v)))) (\<lambda>handoff.
       if (case handoff of None \<Rightarrow> False | Some v \<Rightarrow> \<not> is_object v \<or> \<not> fixed_point_value v)
       then Inl LrConfiguration
       else Inr \<lparr>pa_signed = signed, pa_handoff_snapshot = handoff,
              pa_agent_version_id = la_agent_version_id c,
              pa_execution_account = map to_ascii_lower (la_execution_account c),
              pa_model_id = la_model_id c, pa_client_release = la_client_release c,
              pa_decision_cooldown_seconds = cooldown, pa_isolated_leverage = leverage\<rparr>))))"

definition valid_initial_venue_account :: "arena_manifest \<Rightarrow> account_snapshot \<Rightarrow> bool" where
  "valid_initial_venue_account m a =
     (if am_mode m = HyperliquidMainnet \<and> tk_enabled (am_ticket m) \<and> tk_asset (am_ticket m) = ''CC''
      then (case i64_try (uint (am_starting_capital_micro_usdc m)) of
              None \<Rightarrow> False
            | Some required \<Rightarrow> as_equity a = required \<and> as_withdrawable a = required \<and> as_positions a = [])
      else 0 < as_equity a)"

section \<open>The schedule\<close>

definition scheduled_cycle_at :: "arena_manifest \<Rightarrow> u32 \<Rightarrow> u64 \<Rightarrow> live_run_error + int" where
  "scheduled_cycle_at m cooldown cycle_index =
     rbind (ok_or (i64_try (uint cycle_index)) LrState) (\<lambda>i.
     rbind (ok_or (i64_try (uint cooldown * i)) LrState) (\<lambda>offset.
       Inr (am_starts_at m + offset * 1000000000)))"

definition expected_cycle_count :: "arena_manifest \<Rightarrow> u32 \<Rightarrow> live_run_error + u64" where
  "expected_cycle_count m cooldown =
     (let interval = uint cooldown; duration = whole_seconds (am_ends_at m - am_starts_at m) in
      if interval \<le> 0 \<or> duration < interval then Inl LrConfiguration
      else ok_or (u64_try (duration sdiv interval)) LrState)"

definition due_cycle_count :: "arena_manifest \<Rightarrow> u32 \<Rightarrow> int \<Rightarrow> live_run_error + u64" where
  "due_cycle_count m cooldown now =
     rbind (expected_cycle_count m cooldown) (\<lambda>expected.
       if now < am_starts_at m then Inr 0
       else let interval = uint cooldown;
                elapsed = whole_seconds (min now (am_ends_at m) - am_starts_at m);
                due = i64_sat (elapsed div interval + 1)
            in rbind (ok_or (u64_try due) LrState) (\<lambda>due. Inr (min due expected)))"

definition duration_until_cycle :: "arena_manifest \<Rightarrow> u32 \<Rightarrow> u64 \<Rightarrow> int \<Rightarrow> live_run_error + int" where
  "duration_until_cycle m cooldown completed now =
     rbind (scheduled_cycle_at m cooldown completed) (\<lambda>at.
       Inr (if at \<le> now then 0 else at - now))"

lemma whole_seconds_nonneg: "0 \<le> n \<Longrightarrow> whole_seconds n = n div 1000000000"
  by (simp add: whole_seconds_def sdiv_nonneg)

lemma i64_sat_small: "0 \<le> n \<Longrightarrow> n \<le> 9223372036854775807 \<Longrightarrow> i64_sat n = n"
  by (simp add: i64_sat_def)

text \<open>An arena of a length that fits its times: below \<open>2\<^sup>63\<close> seconds, as the times of the
  \<open>time\<close> package are.\<close>

definition representable_window :: "arena_manifest \<Rightarrow> bool" where
  "representable_window m \<longleftrightarrow> am_ends_at m - am_starts_at m < 9223372036854775807 * 1000000000"

lemma expected_cycle_count_Inr:
  assumes "expected_cycle_count m cooldown = Inr n"
  shows "0 < uint cooldown" "uint cooldown \<le> whole_seconds (am_ends_at m - am_starts_at m)"
    "uint n = (am_ends_at m - am_starts_at m) div 1000000000 div uint cooldown"
    "0 \<le> am_ends_at m - am_starts_at m"
proof -
  let ?w = "am_ends_at m - am_starts_at m"
  from assms have "\<not> uint cooldown \<le> 0" and le: "uint cooldown \<le> whole_seconds ?w"
    by (auto simp: expected_cycle_count_def Let_def split: if_splits)
  then have pos: "0 < uint cooldown" by linarith
  have n: "u64_try (whole_seconds ?w sdiv uint cooldown) = Some n"
    using assms by (auto simp: expected_cycle_count_def Let_def split: if_splits)
  have w: "0 \<le> ?w"
  proof (rule ccontr)
    assume "\<not> 0 \<le> ?w"
    then have "whole_seconds (- (- ?w)) \<le> 0"
      unfolding whole_seconds_def by (subst sdiv_neg) (simp_all add: pos_imp_zdiv_nonneg_iff)
    with pos le show False by simp
  qed
  then show "0 \<le> ?w" .
  have "uint n = whole_seconds ?w sdiv uint cooldown" using uint_u64_try [OF n] .
  then show "uint n = ?w div 1000000000 div uint cooldown"
    using w pos by (simp add: whole_seconds_nonneg sdiv_nonneg pos_imp_zdiv_nonneg_iff)
  show "0 < uint cooldown" "uint cooldown \<le> whole_seconds ?w" using pos le by simp_all
qed

text \<open>Multiples of the interval, in nanoseconds, up to a time.\<close>

lemma multiples_up_to:
  assumes "0 < (I :: int)" and "0 \<le> k"
  shows "k \<le> w div 1000000000 div I \<longleftrightarrow> k * I * 1000000000 \<le> w"
proof -
  have "k \<le> w div (1000000000 * I) \<longleftrightarrow> k * (1000000000 * I) \<le> w"
    using assms(1) by (intro le_div_iff_int) simp
  then show ?thesis using assms(1) by (simp add: zdiv_zmult2_eq [symmetric] mult.assoc mult.commute [of I])
qed

lemma scheduled_cycle_at_Inr:
  assumes "scheduled_cycle_at m cooldown k = Inr t"
  shows "t = am_starts_at m + uint k * uint cooldown * 1000000000"
  using assms by (auto simp: scheduled_cycle_at_def mult.commute)

text \<open>
  The cycles that are due are exactly the ones whose scheduled time has come: of the expected
  cycles of a representable arena every one has a scheduled time, inside the arena's window, and it
  is below the due count if and only if that time is not after now.
\<close>

theorem due_cycles_are_the_passed_ones:
  assumes "expected_cycle_count m cooldown = Inr expected" and "due_cycle_count m cooldown now = Inr due"
    and "representable_window m" and "k < expected"
  shows "\<exists>t. scheduled_cycle_at m cooldown k = Inr t \<and> am_starts_at m \<le> t \<and> t < am_ends_at m
    \<and> (k < due \<longleftrightarrow> t \<le> now) \<and> due \<le> expected"
proof -
  let ?w = "am_ends_at m - am_starts_at m" and ?I = "uint cooldown" and ?k = "uint k"
  note e = expected_cycle_count_Inr [OF assms(1)]
  have k: "0 \<le> ?k" "?k < uint expected" using assms(4) by (simp_all add: word_less_def)
  then have "?k + 1 \<le> ?w div 1000000000 div ?I" using e(3) by simp
  then have next_fits: "(?k + 1) * ?I * 1000000000 \<le> ?w"
    using multiples_up_to [OF e(1), of "?k + 1" ?w] k(1) by simp
  have step: "(?k + 1) * ?I * 1000000000 = ?k * ?I * 1000000000 + ?I * 1000000000" by (simp add: algebra_simps)
  then have fits: "?k * ?I * 1000000000 < ?w" using next_fits e(1) by linarith
  have "?w < 9223372036854775807 * 1000000000" using assms(3) by (simp add: representable_window_def)
  with fits have small: "?k * ?I < 9223372036854775807" by linarith
  have "?k * 1 \<le> ?k * ?I" using k(1) e(1) by (intro mult_left_mono) simp_all
  then have "is_i64 ?k" "is_i64 (?k * ?I)" using k(1) small unfolding is_i64_def by linarith+
  then have t: "scheduled_cycle_at m cooldown k = Inr (am_starts_at m + ?k * ?I * 1000000000)"
    by (simp add: scheduled_cycle_at_def i64_try_is mult.commute [of ?I])
  have due: "k < due \<longleftrightarrow> am_starts_at m + ?k * ?I * 1000000000 \<le> now" "due \<le> expected"
  proof -
    show "due \<le> expected" using assms(1,2) by (auto simp: due_cycle_count_def Let_def split: if_splits)
    show "k < due \<longleftrightarrow> am_starts_at m + ?k * ?I * 1000000000 \<le> now"
    proof (cases "now < am_starts_at m")
      case True
      then have "due = 0" using assms(1,2) by (simp add: due_cycle_count_def)
      moreover have "0 \<le> ?k * ?I * 1000000000" using k(1) e(1) by simp
      then have "\<not> am_starts_at m + ?k * ?I * 1000000000 \<le> now" using True by linarith
      ultimately show ?thesis by simp
    next
      case False
      let ?e = "min now (am_ends_at m) - am_starts_at m"
      have e0: "0 \<le> ?e" "?e \<le> ?w" using False e(4) by auto
      then have "?e div 1000000000 div ?I \<le> ?w div 1000000000 div ?I"
        using e(1) by (intro zdiv_mono1) simp_all
      also have "\<dots> = uint expected" using e(3) by simp
      finally have bound: "?e div 1000000000 div ?I \<le> uint expected" .
      have q0: "0 \<le> ?e div 1000000000 div ?I" using e0 e(1) by (simp add: pos_imp_zdiv_nonneg_iff)
      have "?e div 1000000000 div ?I \<le> ?e div 1000000000"
        using zdiv_mono2 [of "?e div 1000000000" 1 ?I] e0 e(1) by (simp add: pos_imp_zdiv_nonneg_iff)
      moreover have "?e div 1000000000 < 9223372036854775807"
        using e0(2) assms(3) by (simp add: representable_window_def div_less_iff_int)
      ultimately have small_due: "?e div 1000000000 div ?I + 1 \<le> 9223372036854775807" by simp
      obtain d where d: "u64_try (?e div 1000000000 div ?I + 1) = Some d" and due: "due = min d expected"
        using assms(1,2) False e0 q0 i64_sat_small [OF _ small_due]
        by (auto simp: due_cycle_count_def whole_seconds_nonneg Let_def split: if_splits simp del: u64_try_eq_Some)
      have "k < due \<longleftrightarrow> k < d" using assms(4) by (simp add: due)
      then have "k < due \<longleftrightarrow> ?k < ?e div 1000000000 div ?I + 1" unfolding uint_u64_try [OF d, symmetric] by (simp add: word_less_def)
      also have "\<dots> \<longleftrightarrow> ?k \<le> ?e div 1000000000 div ?I" by linarith
      also have "\<dots> \<longleftrightarrow> ?k * ?I * 1000000000 \<le> ?e" by (rule multiples_up_to [OF e(1) k(1)])
      also have "\<dots> \<longleftrightarrow> am_starts_at m + ?k * ?I * 1000000000 \<le> now" using fits by auto
      finally show ?thesis .
    qed
  qed
  have "0 \<le> ?k * ?I * 1000000000" using k(1) e(1) by simp
  with t due fits show ?thesis by (intro exI conjI) auto
qed

lemma sample_schedule:
  "expected_cycle_count sample_manifest 900 = Inr 96" "due_cycle_count sample_manifest 900 1000000000000 = Inr 2"
  by (simp_all add: expected_cycle_count_def due_cycle_count_def sample_manifest_def whole_seconds_nonneg
      sdiv_nonneg i64_sat_def u64_try_def)

theorem due_cycles_are_the_passed_ones_witness:
  "\<exists>t. scheduled_cycle_at sample_manifest 900 1 = Inr t \<and> t \<le> 1000000000000 \<and> t < am_ends_at sample_manifest"
proof -
  have "representable_window sample_manifest" by (simp add: representable_window_def sample_manifest_def)
  from due_cycles_are_the_passed_ones [OF sample_schedule this, of 1] show ?thesis by auto
qed

lemma settings_valid:
  "validate_settings \<lparr>st_decision_cooldown_seconds = cooldown, st_isolated_leverage = leverage\<rparr> = Inr ()
    \<longleftrightarrow> \<not> (cooldown < MIN_LIVE_DECISION_INTERVAL_SECONDS \<or> MAX_CLIENT_DECISION_COOLDOWN_SECONDS < cooldown
     \<or> cooldown mod 60 \<noteq> 0
     \<or> leverage < MIN_CLIENT_ISOLATED_LEVERAGE \<or> MAX_CLIENT_ISOLATED_LEVERAGE < leverage)"
  by (simp add: validate_settings_def)

lemma byte_lower: "is_ascii_hexdigit c \<Longrightarrow> is_ascii_hexdigit (to_ascii_lower c)"
  by (auto simp: is_ascii_hexdigit_def is_ascii_digit_def to_ascii_lower_def byte_def)

lemma lower_account:
  assumes "valid_execution_account v"
  shows "valid_execution_account (map to_ascii_lower v)"
proof -
  obtain r where v: "v = CHR ''0'' # CHR ''x'' # r"
    using assms by (cases v; cases "tl v") (auto simp: valid_execution_account_def)
  have "to_ascii_lower (CHR ''0'') = CHR ''0''" "to_ascii_lower (CHR ''x'') = CHR ''x''"
    by (simp_all add: to_ascii_lower_def byte_def)
  then show ?thesis using assms by (auto simp: valid_execution_account_def v list_all_iff byte_lower)
qed

text \<open>
  What \<open>prepare\<close> lets through is a verified manifest of a live arena in which the model is
  eligible, a cooldown of whole minutes between one minute and one hour, a leverage of one to ten,
  a lower-case hexadecimal account, and a handoff snapshot without any floating-point number.
\<close>

theorem prepared_arena_is_valid:
  assumes "prepare P enc dec fs parse_signed parse_value c = Inr p"
  shows "verify_manifest P enc dec (pa_signed p) = Inr ()
    \<and> am_mode (sm_manifest (pa_signed p)) \<in> {HyperliquidTestnet, HyperliquidMainnet}
    \<and> pa_model_id p \<in> set (am_eligible_models (sm_manifest (pa_signed p)))
    \<and> validate_settings \<lparr>st_decision_cooldown_seconds = pa_decision_cooldown_seconds p,
         st_isolated_leverage = pa_isolated_leverage p\<rparr> = Inr ()
    \<and> valid_execution_account (pa_execution_account p)
    \<and> (case pa_handoff_snapshot p of None \<Rightarrow> True | Some v \<Rightarrow> is_object v \<and> fixed_point_value v)"
proof -
  note d = assms [unfolded prepare_def Let_def]
  from d have "\<not> configuration_invalid c (sm_manifest (pa_signed p)) (pa_decision_cooldown_seconds p)
      (pa_isolated_leverage p)" and p: "pa_model_id p = la_model_id c"
      "pa_execution_account p = map to_ascii_lower (la_execution_account c)"
      "verify_manifest P enc dec (pa_signed p) = Inr ()"
      "case pa_handoff_snapshot p of None \<Rightarrow> True | Some v \<Rightarrow> is_object v \<and> fixed_point_value v"
    by (auto split: if_splits option.splits)
  then show ?thesis
    by (auto simp: configuration_invalid_def settings_valid lower_account)
qed

definition toy_signed_arena :: signed_manifest where
  "toy_signed_arena = \<lparr>sm_manifest = sample_manifest, sm_manifest_sha256 = ''json'',
     sm_signer_public_key = replicate 32 (CHR ''k''), sm_signature = ''sig'', sm_signed_manifest = None\<rparr>"

lemma toy_signed_arena_verifies:
  "verify_manifest toy_prims (\<lambda>_. Some JNull) (\<lambda>_. None) toy_signed_arena = Inr ()"
  by (simp add: verify_manifest_def toy_signed_arena_def sample_manifest_valid manifest_canonical_def
      canonical_json_def verify_signature_def toy_prims_def)

definition toy_arena_config :: live_arena_config where
  "toy_arena_config = \<lparr>la_arena_manifest = ''arena'', la_handoff_snapshot = None, la_agent_version_id = 5,
     la_execution_account = ''0x'' @ replicate 40 (CHR ''A''), la_model_id = ''crow-qwen3-5-27b'',
     la_client_release = ''1'', la_decision_cooldown_seconds = Some 600, la_isolated_leverage = None\<rparr>"

definition toy_prepared :: prepared_arena where
  "toy_prepared = \<lparr>pa_signed = toy_signed_arena, pa_handoff_snapshot = None, pa_agent_version_id = 5,
     pa_execution_account = ''0x'' @ replicate 40 (CHR ''a''), pa_model_id = ''crow-qwen3-5-27b'',
     pa_client_release = ''1'', pa_decision_cooldown_seconds = 600, pa_isolated_leverage = 1\<rparr>"

lemma toy_arena_prepared:
  "prepare toy_prims (\<lambda>_. Some JNull) (\<lambda>_. None) Some (\<lambda>_. Some toy_signed_arena) (\<lambda>_. None) toy_arena_config
     = Inr toy_prepared"
proof -
  have "\<not> configuration_invalid toy_arena_config sample_manifest 600 1"
    by (simp add: configuration_invalid_def toy_arena_config_def sample_manifest_def blank_def byte_def ascii_ws_def
        valid_execution_account_def is_ascii_hexdigit_def is_ascii_digit_def list_all_iff
        MIN_LIVE_DECISION_INTERVAL_SECONDS_def MAX_CLIENT_DECISION_COOLDOWN_SECONDS_def
        MIN_CLIENT_ISOLATED_LEVERAGE_def MAX_CLIENT_ISOLATED_LEVERAGE_def)
  moreover have "sm_manifest toy_signed_arena = sample_manifest" by (simp add: toy_signed_arena_def)
  moreover have "rr_isolated_leverage (am_risk_rules sample_manifest) = 1"
    by (simp add: sample_manifest_def default_rules_def)
  moreover have "map to_ascii_lower (la_execution_account toy_arena_config) = pa_execution_account toy_prepared"
    by code_simp
  ultimately show ?thesis
    by (simp add: prepare_def toy_signed_arena_verifies Let_def) (simp add: toy_arena_config_def toy_prepared_def)
qed

theorem prepared_arena_is_valid_witness:
  "valid_execution_account (pa_execution_account toy_prepared)
    \<and> verify_manifest toy_prims (\<lambda>_. Some JNull) (\<lambda>_. None) (pa_signed toy_prepared) = Inr ()"
  using prepared_arena_is_valid [OF toy_arena_prepared] by blast

end
