(* ===== verification/Utf8.thy ===== *)
theory Utf8
  imports Prelude
begin

text \<open>
  Reading UTF-8: the byte sequences \<open>String::from_utf8\<close> accepts and the Unicode scalar values they
  stand for, the inverse of \<open>utf8\<close>.
\<close>

text \<open>The byte sequences that \<open>String::from_utf8\<close> accepts.\<close>

definition cont_byte :: "nat \<Rightarrow> bool" where "cont_byte b \<longleftrightarrow> 128 \<le> b \<and> b \<le> 191"

fun utf8_bytes :: "nat list \<Rightarrow> bool" where
  "utf8_bytes [] = True"
| "utf8_bytes (a # bs) =
     (if a < 128 then utf8_bytes bs
      else case bs of [] \<Rightarrow> False | b # cs \<Rightarrow>
        if 194 \<le> a \<and> a \<le> 223 then cont_byte b \<and> utf8_bytes cs
        else case cs of [] \<Rightarrow> False | c # ds \<Rightarrow>
          if 224 \<le> a \<and> a \<le> 239
          then cont_byte b \<and> cont_byte c \<and> (a = 224 \<longrightarrow> 160 \<le> b) \<and> (a = 237 \<longrightarrow> b \<le> 159) \<and> utf8_bytes ds
          else case ds of [] \<Rightarrow> False | d # es \<Rightarrow>
            240 \<le> a \<and> a \<le> 244 \<and> cont_byte b \<and> cont_byte c \<and> cont_byte d
              \<and> (a = 240 \<longrightarrow> 144 \<le> b) \<and> (a = 244 \<longrightarrow> b \<le> 143) \<and> utf8_bytes es)"

definition is_utf8 :: "string \<Rightarrow> bool" where "is_utf8 s \<longleftrightarrow> utf8_bytes (map of_char s)"

text \<open>The scalar values of valid UTF-8, for \<open>trim\<close>.\<close>

fun scalars :: "nat list \<Rightarrow> utext" where
  "scalars (a # bs) =
     (if a < 128 then a # scalars bs
      else case bs of [] \<Rightarrow> [] | b # cs \<Rightarrow>
        if a < 224 then (64 * (a - 192) + (b - 128)) # scalars cs
        else case cs of [] \<Rightarrow> [] | c # ds \<Rightarrow>
          if a < 240 then (4096 * (a - 224) + 64 * (b - 128) + (c - 128)) # scalars ds
          else case ds of [] \<Rightarrow> [] | d # es \<Rightarrow>
            (262144 * (a - 240) + 4096 * (b - 128) + 64 * (c - 128) + (d - 128)) # scalars es)"
| "scalars [] = []"

definition from_utf8 :: "string \<Rightarrow> utext option" where
  "from_utf8 s = (if is_utf8 s then Some (scalars (map of_char s)) else None)"

text \<open>Reading back the UTF-8 of a text gives the text.\<close>

lemma scalars_utf8_scalar:
  assumes "n < 1114112" shows "scalars (map of_char (utf8_scalar n) @ bs) = n # scalars bs"
proof -
  have s: "a div 4096 = a div 64 div 64" "a div 262144 = a div 64 div 64 div 64" for a :: nat
    by (simp_all add: div_mult2_eq [symmetric])
  define x y z where "x = n div 64" and "y = x div 64" and "z = y div 64"
  have n: "n = 64 * x + n mod 64" "x = 64 * y + x mod 64" "y = 64 * z + y mod 64"
    unfolding x_def y_def z_def by simp_all
  have b: "n < 2048 \<Longrightarrow> x < 32" "n < 65536 \<Longrightarrow> y < 16" "z < 5" "\<not> n < 128 \<Longrightarrow> 2 \<le> x"
    using assms n unfolding x_def y_def z_def by (simp_all add: div_mult2_eq [symmetric] less_mult_imp_div_less)
  have "n mod 64 < 64" "x mod 64 < 64" "y mod 64 < 64" by simp_all
  then show ?thesis
    using b n by (simp add: utf8_scalar_def s x_def [symmetric] y_def [symmetric] z_def [symmetric])
qed

lemma scalars_utf8: "list_all (\<lambda>n. n < 1114112) t \<Longrightarrow> scalars (map of_char (utf8 t)) = t"
  by (induction t) (simp_all add: utf8_def scalars_utf8_scalar)

end
