(* ===== verification/Daemon.thy ===== *)
theory Daemon
  imports Companion Journal Utf8
begin

text \<open>
  The control side of the daemon, \<open>apps/crow-agentd/src/main.rs\<close>: the execution gate, the
  companion requests of the local socket, the commands of the relay, the loop of
  \<open>run_relay\<close> around them, and the credential frame the desktop hands over.

  The tasks of one process share the gate, the active run, the queued strategy and settings and
  the last error: the record \<open>shared\<close>. A poisoned mutex (a panic of another task) is not
  modelled. The parser of a relay payload is the parameter \<open>parse\<close>, the clock readings and the
  nonce of the journal's encryption are arguments.
\<close>

section \<open>The execution gate\<close>

definition EXECUTION_RUNNING :: u8 where "EXECUTION_RUNNING = 0"
definition EXECUTION_PAUSED :: u8 where "EXECUTION_PAUSED = 1"
definition EXECUTION_STOPPED :: u8 where "EXECUTION_STOPPED = 2"

definition new_gate :: u8 where "new_gate = EXECUTION_PAUSED"

definition gate_apply :: "remote_action \<Rightarrow> u8 \<Rightarrow> bool \<times> u8" where
  "gate_apply action gate = (case action of
     Pause \<Rightarrow> (True, EXECUTION_PAUSED)
   | Resume \<Rightarrow> if gate = EXECUTION_PAUSED then (True, EXECUTION_RUNNING) else (False, gate)
   | Stop \<Rightarrow> (True, EXECUTION_STOPPED))"

definition gate_label :: "u8 \<Rightarrow> string" where
  "gate_label gate =
     (if gate = EXECUTION_RUNNING then ''running''
      else if gate = EXECUTION_STOPPED then ''stopped'' else ''paused'')"

definition gate_is_running :: "u8 \<Rightarrow> bool" where
  "gate_is_running gate \<longleftrightarrow> gate = EXECUTION_RUNNING"

record shared =
  sh_gate :: u8
  sh_active_run :: "uuid option"
  sh_pending_strategy :: "strategy_bundle option"
  sh_pending_settings :: "run_settings option"
  sh_last_error :: "string option"

definition new_shared :: shared where
  "new_shared = \<lparr>sh_gate = new_gate, sh_active_run = None, sh_pending_strategy = None,
     sh_pending_settings = None, sh_last_error = None\<rparr>"

definition apply_gate :: "remote_action \<Rightarrow> 'z shared_scheme \<Rightarrow> bool \<times> 'z shared_scheme" where
  "apply_gate action s = (case gate_apply action (sh_gate s) of (ok, gate) \<Rightarrow> (ok, s\<lparr>sh_gate := gate\<rparr>))"

section \<open>Errors\<close>

datatype daemon_error =
    DeIo
  | DeJson
  | DeDeviceCredential
  | DeEncryptionCredential
  | DeJournalCredential
  | DeApiWalletCredential
  | DeDeviceTokenCredential
  | DeCredentialDirectory
  | DeRelayUrl
  | DeRelay
  | DeRelayClosed
  | DeChallenge
  | DeManifest
  | DeDataset
  | DeBacktest
  | DeJournal journal_error
  | DeDeviceAuthorization
  | DeHarnessApi
  | DeAuthorizationExpired
  | DeRemoteCommand
  | DeCompanion companion_error
  | DeSoak
  | DeLiveRun
  | DeTlsProvider

section \<open>Companion requests\<close>

definition queue_strategy :: "strategy_bundle \<Rightarrow> 'z shared_scheme \<Rightarrow> bool \<times> 'z shared_scheme" where
  "queue_strategy b s =
     (if gate_label (sh_gate s) \<noteq> ''paused'' \<or> sh_active_run s = None then (False, s)
      else if sh_pending_strategy s \<noteq> None then (False, s)
      else (True, s\<lparr>sh_pending_strategy := Some b\<rparr>))"

definition queue_settings :: "run_settings option \<Rightarrow> 'z shared_scheme \<Rightarrow> bool \<times> 'z shared_scheme" where
  "queue_settings settings s =
     (if gate_label (sh_gate s) \<noteq> ''paused'' \<or> sh_active_run s = None \<or> settings = None then (False, s)
      else if sh_pending_settings s \<noteq> None then (False, s)
      else (True, s\<lparr>sh_pending_settings := settings\<rparr>))"

definition companion_accept :: "companion_request \<Rightarrow> 'z shared_scheme \<Rightarrow> bool \<times> 'z shared_scheme" where
  "companion_accept q s = (case cq_action q of
     AStatus \<Rightarrow> (True, s)
   | APause \<Rightarrow> apply_gate Pause s
   | AResume \<Rightarrow> (case cq_strategy q of Some b \<Rightarrow> queue_strategy b s | None \<Rightarrow> apply_gate Resume s)
   | AStop \<Rightarrow> apply_gate Stop s
   | AUpdateSettings \<Rightarrow> queue_settings (cq_settings q) s)"

text \<open>The state holds the highest nonce of the listener and the shared state.\<close>

definition apply_companion_request ::
    "prims \<Rightarrow> (strategy_bundle \<Rightarrow> json option) \<Rightarrow> string \<Rightarrow> companion_request \<Rightarrow> u64 \<times> 'z shared_scheme
      \<Rightarrow> (daemon_error + companion_response) \<times> (u64 \<times> 'z shared_scheme)" where
  "apply_companion_request P enc key q x = (case x of (highest, s) \<Rightarrow>
     (case verify_request P enc key q of
        Inl e \<Rightarrow> (Inl (DeCompanion e), (highest, s))
      | Inr _ \<Rightarrow>
          if cq_nonce q \<le> highest then (Inl DeRemoteCommand, (highest, s))
          else (case companion_accept q s of (accepted, s1) \<Rightarrow>
            let error = (if cq_action q = AStatus then sh_last_error s1
                         else if accepted then None else Some ''invalid_transition'');
                s2 = (if accepted \<and> cq_action q \<noteq> AStatus then s1\<lparr>sh_last_error := None\<rparr> else s1)
            in (map_err DeCompanion (sign_response P key (cq_request_id q) (cq_nonce q) accepted
                   (gate_label (sh_gate s2)) (sh_active_run s2) error),
                (cq_nonce q, s2)))))"

section \<open>Relay messages\<close>

text \<open>\<open>to_be_bytes\<close> and \<open>from_be_bytes\<close> of a \<open>u64\<close>.\<close>

fun be_digits :: "nat \<Rightarrow> nat \<Rightarrow> string" where
  "be_digits 0 n = []"
| "be_digits (Suc k) n = be_digits k (n div 256) @ [char_of (n mod 256)]"

definition be_value :: "string \<Rightarrow> nat" where
  "be_value cs = foldl (\<lambda>n c. 256 * n + of_char c) 0 cs"

definition to_be_bytes :: "u64 \<Rightarrow> string" where "to_be_bytes w = be_digits 8 (unat w)"

definition from_be_bytes :: "string \<Rightarrow> u64 option" where
  "from_be_bytes cs = (if length cs = 8 then Some (of_nat (be_value cs)) else None)"

record wire_envelope =
  we_protocol :: string
  we_kind :: string
  we_id :: string
  we_payload :: json

record outbound_envelope =
  oe_protocol :: string
  oe_kind :: string
  oe_id :: string
  oe_timestamp :: int
  oe_payload :: json

definition nonce_key :: "prims \<Rightarrow> uuid \<Rightarrow> string" where
  "nonce_key P controller = ''remote-controller-nonce-'' @ uuid_str P controller"

definition previous_nonce :: "prims \<Rightarrow> aead_prims \<Rightarrow> uuid \<Rightarrow> journal \<Rightarrow> journal_error + u64 option" where
  "previous_nonce P A controller j =
     rbind (secret A (nonce_key P controller) j) (\<lambda>stored.
       Inr (case stored of None \<Rightarrow> None | Some v \<Rightarrow> from_be_bytes v))"

definition command_refused ::
    "prims \<Rightarrow> remote_command \<Rightarrow> string \<Rightarrow> string \<Rightarrow> uuid \<Rightarrow> uuid option \<Rightarrow> int \<Rightarrow> u64 option \<Rightarrow> bool" where
  "command_refused P c controller_key envelope_id device_id active_run now previous \<longleftrightarrow>
     uuid_str P (rc_command_id c) \<noteq> envelope_id
     \<or> rc_target_device_id c \<noteq> device_id
     \<or> active_run \<noteq> Some (rc_run_id c)
     \<or> rc_relay_receipt c = None
     \<or> \<not> is_ok (verify_command P c controller_key now)
     \<or> (case previous of None \<Rightarrow> False | Some nonce \<Rightarrow> rc_nonce c \<le> nonce)"

text \<open>\<open>now\<close> is read for the verification, \<open>acked_at\<close> for the acknowledgement.\<close>

definition apply_remote_command ::
    "prims \<Rightarrow> aead_prims \<Rightarrow> remote_command \<Rightarrow> string \<Rightarrow> string \<Rightarrow> uuid \<Rightarrow> uuid option \<Rightarrow> int \<Rightarrow> int \<Rightarrow> string
      \<Rightarrow> 'z shared_scheme \<times> journal \<Rightarrow> (daemon_error + outbound_envelope option) \<times> 'z shared_scheme \<times> journal" where
  "apply_remote_command P A c controller_key envelope_id device_id active_run now acked_at nonce x =
     (case x of (s, j) \<Rightarrow>
     (case previous_nonce P A (rc_controller_device_id c) j of
        Inl e \<Rightarrow> (Inl (DeJournal e), s, j)
      | Inr previous \<Rightarrow>
          if command_refused P c controller_key envelope_id device_id active_run now previous
          then (Inl DeRemoteCommand, s, j)
          else (case put_secret A nonce (nonce_key P (rc_controller_device_id c)) (to_be_bytes (rc_nonce c)) j of
             Inl e \<Rightarrow> (Inl (DeJournal e), s, j)
           | Inr j' \<Rightarrow>
               (case apply_gate (rc_action c) s of (applied, s') \<Rightarrow>
                  if \<not> applied then (Inl DeRemoteCommand, s', j')
                  else (Inr (Some \<lparr>oe_protocol = HARNESS_PROTOCOL_V1, oe_kind = ''remote_command.ack'',
                          oe_id = uuid_str P (rc_command_id c), oe_timestamp = acked_at,
                          oe_payload = JObj [(''execution_state'', JStr (gate_label (sh_gate s')))]\<rparr>),
                        s', j')))))"

definition apply_relay_message ::
    "prims \<Rightarrow> aead_prims \<Rightarrow> (json \<Rightarrow> (remote_command \<times> string) option) \<Rightarrow> wire_envelope \<Rightarrow> uuid
      \<Rightarrow> uuid option \<Rightarrow> int \<Rightarrow> int \<Rightarrow> string \<Rightarrow> 'z shared_scheme \<times> journal
      \<Rightarrow> (daemon_error + outbound_envelope option) \<times> 'z shared_scheme \<times> journal" where
  "apply_relay_message P A parse e device_id active_run now acked_at nonce x =
     (if we_protocol e \<noteq> HARNESS_PROTOCOL_V1 then (Inl DeChallenge, x)
      else if we_kind e = ''auth.ok'' then (Inr None, x)
      else if we_kind e = ''remote_command'' then
        (case parse (we_payload e) of
           None \<Rightarrow> (Inl DeJson, x)
         | Some (c, controller_key) \<Rightarrow>
             apply_remote_command P A c controller_key (we_id e) device_id active_run now acked_at nonce x)
      else (Inl DeChallenge, x))"

section \<open>The loop of the relay\<close>

definition REFRESH_TOKEN_SECRET :: string where "REFRESH_TOKEN_SECRET = ''device-refresh-token''"

record daemon =
  dm_shared :: shared
  dm_journal :: journal
  dm_highest_nonce :: u64
  dm_live :: bool
  dm_backoff :: nat
  dm_refresh_token :: string

record daemon_env =
  de_P :: prims
  de_A :: aead_prims
  de_enc :: "strategy_bundle \<Rightarrow> json option"
  de_secret :: string
  de_parse :: "json \<Rightarrow> (remote_command \<times> string) option"
  de_device_id :: uuid

text \<open>\<open>execution_gate.state.store(EXECUTION_PAUSED)\<close>, whatever the gate was.\<close>

definition force_pause :: "'z shared_scheme \<Rightarrow> 'z shared_scheme" where
  "force_pause s = s\<lparr>sh_gate := EXECUTION_PAUSED\<rparr>"

definition fail_closed :: "daemon \<Rightarrow> daemon" where
  "fail_closed d = d\<lparr>dm_shared := force_pause (dm_shared d), dm_backoff := min (2 * dm_backoff d) 60\<rparr>"

definition rotated :: "daemon_env \<Rightarrow> string \<Rightarrow> string \<Rightarrow> daemon \<Rightarrow> daemon_error + daemon" where
  "rotated E token nonce d =
     rbind (map_err DeJournal (put_secret (de_A E) nonce REFRESH_TOKEN_SECRET token (dm_journal d))) (\<lambda>j.
       Inr (d\<lparr>dm_journal := j, dm_refresh_token := token, dm_backoff := 1\<rparr>))"

definition live_stopped :: "daemon \<Rightarrow> daemon" where
  "live_stopped d = d\<lparr>dm_live := False, dm_backoff := 1\<rparr>"

definition live_failed :: "string \<Rightarrow> daemon \<Rightarrow> daemon" where
  "live_failed code d = d\<lparr>dm_shared := force_pause ((dm_shared d)\<lparr>sh_last_error := Some code\<rparr>),
     dm_live := False, dm_backoff := 1\<rparr>"

text \<open>A relay message that is refused ends the relay session, and the loop fails closed.\<close>

definition relay_message :: "daemon_env \<Rightarrow> wire_envelope \<Rightarrow> int \<Rightarrow> int \<Rightarrow> string \<Rightarrow> daemon \<Rightarrow> daemon" where
  "relay_message E e now acked_at nonce d =
     (case apply_relay_message (de_P E) (de_A E) (de_parse E) e (de_device_id E)
             (sh_active_run (dm_shared d)) now acked_at nonce (dm_shared d, dm_journal d) of
        (Inl _, s, j) \<Rightarrow> fail_closed (d\<lparr>dm_shared := s, dm_journal := j\<rparr>)
      | (Inr _, s, j) \<Rightarrow> d\<lparr>dm_shared := s, dm_journal := j\<rparr>)"

definition companion_message :: "daemon_env \<Rightarrow> companion_request \<Rightarrow> daemon \<Rightarrow> daemon" where
  "companion_message E q d =
     (case apply_companion_request (de_P E) (de_enc E) (de_secret E) q (dm_highest_nonce d, dm_shared d) of
        (_, highest, s) \<Rightarrow> d\<lparr>dm_shared := s, dm_highest_nonce := highest\<rparr>)"

text \<open>
  What can happen to a running daemon. A restart opens the same journal with fresh shared state.
  The live session opens the gate after its reconciliation and after a strategy switch, sets the
  active run, and takes what is queued; only a daemon with a live session does.
\<close>

datatype daemon_event =
    DvCompanion companion_request
  | DvRelay wire_envelope int int string
  | DvRelayLost
  | DvRotationFailed
  | DvRotated string string
  | DvLiveStopped
  | DvLiveFailed string
  | DvSessionResume
  | DvSessionRun "uuid option"
  | DvSettingsTaken
  | DvStrategyTaken
  | DvRestart

definition start_daemon :: "journal \<Rightarrow> string \<Rightarrow> daemon" where
  "start_daemon j token = \<lparr>dm_shared = new_shared, dm_journal = j, dm_highest_nonce = 0, dm_live = True,
     dm_backoff = 1, dm_refresh_token = token\<rparr>"

definition when_live :: "daemon \<Rightarrow> shared \<Rightarrow> daemon option" where
  "when_live d s = (if dm_live d then Some (d\<lparr>dm_shared := s\<rparr>) else None)"

fun daemon_next :: "daemon_env \<Rightarrow> daemon_event \<Rightarrow> daemon \<Rightarrow> daemon option" where
  "daemon_next E (DvCompanion q) d = Some (companion_message E q d)"
| "daemon_next E (DvRelay e now acked_at nonce) d = Some (relay_message E e now acked_at nonce d)"
| "daemon_next E DvRelayLost d = Some (fail_closed d)"
| "daemon_next E DvRotationFailed d = Some (fail_closed d)"
| "daemon_next E (DvRotated token nonce) d =
     (case rotated E token nonce d of Inl _ \<Rightarrow> None | Inr d' \<Rightarrow> Some d')"
| "daemon_next E DvLiveStopped d = (if dm_live d then Some (live_stopped d) else None)"
| "daemon_next E (DvLiveFailed code) d = (if dm_live d then Some (live_failed code d) else None)"
| "daemon_next E DvSessionResume d = when_live d (snd (apply_gate Resume (dm_shared d)))"
| "daemon_next E (DvSessionRun run) d = when_live d ((dm_shared d)\<lparr>sh_active_run := run\<rparr>)"
| "daemon_next E DvSettingsTaken d = when_live d ((dm_shared d)\<lparr>sh_pending_settings := None\<rparr>)"
| "daemon_next E DvStrategyTaken d = when_live d ((dm_shared d)\<lparr>sh_pending_strategy := None\<rparr>)"
| "daemon_next E DvRestart d = Some (start_daemon (dm_journal d) (dm_refresh_token d))"

inductive daemon_run :: "daemon_env \<Rightarrow> daemon \<Rightarrow> daemon_event list \<Rightarrow> daemon \<Rightarrow> bool" for E d where
  started: "daemon_run E d [] d"
| happened: "daemon_run E d es d' \<Longrightarrow> daemon_next E e d' = Some d'' \<Longrightarrow> daemon_run E d (es @ [e]) d''"

section \<open>The credential frame\<close>

definition MAX_DESKTOP_REFRESH_TOKEN_BYTES :: nat where "MAX_DESKTOP_REFRESH_TOKEN_BYTES = 512"

record desktop_credentials =
  dc_companion_secret :: string
  dc_signing_seed :: string
  dc_encryption_secret :: string
  dc_journal_key :: string
  dc_api_wallet_key :: string
  dc_refresh_token :: string

definition read_exact :: "nat \<Rightarrow> string \<Rightarrow> daemon_error + string \<times> string" where
  "read_exact n input = (if length input < n then Inl DeIo else Inr (take n input, drop n input))"

definition read_secret_32 :: "string \<Rightarrow> daemon_error + string \<times> string" where
  "read_secret_32 input = read_exact 32 input"

definition read_desktop_credentials_from :: "string \<Rightarrow> daemon_error + desktop_credentials" where
  "read_desktop_credentials_from input =
     rbind (read_secret_32 input) (\<lambda>(companion_secret, input).
     rbind (read_secret_32 input) (\<lambda>(signing_seed, input).
     rbind (read_secret_32 input) (\<lambda>(encryption_secret, input).
     rbind (read_secret_32 input) (\<lambda>(journal_key, input).
     rbind (read_secret_32 input) (\<lambda>(api_wallet_key, input).
     rbind (read_exact 2 input) (\<lambda>(size, input).
     let n = be_value size in
     if n = 0 \<or> MAX_DESKTOP_REFRESH_TOKEN_BYTES < n then Inl DeDeviceTokenCredential
     else rbind (read_exact n input) (\<lambda>(token, _).
     if \<not> is_utf8 token then Inl DeDeviceTokenCredential
     else if \<not> starts_with token ''crow_device_refresh_'' then Inl DeDeviceTokenCredential
     else Inr \<lparr>dc_companion_secret = companion_secret, dc_signing_seed = signing_seed,
            dc_encryption_secret = encryption_secret, dc_journal_key = journal_key,
            dc_api_wallet_key = api_wallet_key, dc_refresh_token = token\<rparr>)))))))"

text \<open>
  \<open>desktop_credential_frame\<close> of \<open>apps/desktop/src-tauri/src/lib.rs\<close>, on the secrets it loads
  from the vault; \<open>None\<close> is its error.
\<close>

definition desktop_credential_frame :: "desktop_credentials \<Rightarrow> string option" where
  "desktop_credential_frame c =
     (let token = dc_refresh_token c in
      if MAX_DESKTOP_REFRESH_TOKEN_BYTES < length token \<or> 65535 < length token then None
      else Some (dc_companion_secret c @ dc_signing_seed c @ dc_encryption_secret c @ dc_journal_key c
             @ dc_api_wallet_key c @ be_digits 2 (length token) @ token))"

section \<open>Frames and nonces\<close>

lemma length_be_digits [simp]: "length (be_digits k n) = k"
  by (induction k arbitrary: n) auto

lemma be_value_snoc [simp]: "be_value (cs @ [c]) = 256 * be_value cs + of_char c"
  by (simp add: be_value_def)

lemma be_value_digits: "be_value (be_digits k n) = n mod 256 ^ k"
proof (induction k arbitrary: n)
  case 0
  show ?case by (simp add: be_value_def)
next
  case (Suc k)
  have "n mod 256 ^ Suc k = 256 * (n div 256 mod 256 ^ k) + n mod 256"
    by (simp add: mod_mult2_eq)
  with Suc show ?case by simp
qed

lemma from_to_be_bytes [simp]: "from_be_bytes (to_be_bytes w) = Some w"
proof -
  have "unat w < 256 ^ 8" using unsigned_less [of w] by simp
  then show ?thesis by (simp add: from_be_bytes_def to_be_bytes_def be_value_digits)
qed

lemma read_exact_append [simp]: "n = length a \<Longrightarrow> read_exact n (a @ b) = Inr (a, b)"
  by (simp add: read_exact_def)

lemma read_exact_all [simp]: "read_exact (length a) a = Inr (a, [])"
  by (simp add: read_exact_def)

text \<open>
  The credentials that the desktop writes for a run arrive in the daemon as they were
  written, each secret in its place, when the token is one the daemon accepts.
\<close>

theorem desktop_credentials_arrive:
  assumes "desktop_credential_frame c = Some frame"
    and "list_all (\<lambda>secret. length secret = 32) [dc_companion_secret c, dc_signing_seed c,
       dc_encryption_secret c, dc_journal_key c, dc_api_wallet_key c]"
    and "is_utf8 (dc_refresh_token c)" and "starts_with (dc_refresh_token c) ''crow_device_refresh_''"
  shows "read_desktop_credentials_from frame = Inr c"
proof -
  let ?n = "length (dc_refresh_token c)"
  have "?n \<le> 512" and frame: "frame = dc_companion_secret c @ dc_signing_seed c @ dc_encryption_secret c
      @ dc_journal_key c @ dc_api_wallet_key c @ be_digits 2 ?n @ dc_refresh_token c"
    using assms(1) by (auto simp: desktop_credential_frame_def MAX_DESKTOP_REFRESH_TOKEN_BYTES_def Let_def
        split: if_splits)
  moreover from this have "be_value (be_digits 2 ?n) = ?n" by (simp add: be_value_digits)
  moreover have "?n \<noteq> 0" using assms(4) by (cases "dc_refresh_token c") auto
  ultimately show ?thesis
    unfolding frame using assms(2-4)
    by (simp add: read_desktop_credentials_from_def read_secret_32_def MAX_DESKTOP_REFRESH_TOKEN_BYTES_def)
qed

definition toy_credentials :: desktop_credentials where
  "toy_credentials = \<lparr>dc_companion_secret = replicate 32 CHR ''a'', dc_signing_seed = replicate 32 CHR ''b'',
     dc_encryption_secret = replicate 32 CHR ''c'', dc_journal_key = replicate 32 CHR ''d'',
     dc_api_wallet_key = replicate 32 CHR ''e'', dc_refresh_token = ''crow_device_refresh_runner''\<rparr>"

theorem desktop_credentials_arrive_witness:
  "\<exists>frame. desktop_credential_frame toy_credentials = Some frame
    \<and> read_desktop_credentials_from frame = Inr toy_credentials"
proof -
  obtain frame where frame: "desktop_credential_frame toy_credentials = Some frame"
    by (simp add: desktop_credential_frame_def toy_credentials_def MAX_DESKTOP_REFRESH_TOKEN_BYTES_def)
  have "is_utf8 (dc_refresh_token toy_credentials)"
    by (simp add: is_utf8_def toy_credentials_def)
  then show ?thesis
    using desktop_credentials_arrive [OF frame] frame by (simp add: toy_credentials_def)
qed

section \<open>The daemon's state\<close>

definition shared_inv :: "'z shared_scheme \<Rightarrow> bool" where
  "shared_inv s \<longleftrightarrow> sh_gate s \<in> {EXECUTION_RUNNING, EXECUTION_PAUSED, EXECUTION_STOPPED}
     \<and> (case sh_pending_strategy s of None \<Rightarrow> True | Some b \<Rightarrow> validate_bundle b = Inr ())"

definition daemon_inv :: "daemon \<Rightarrow> bool" where
  "daemon_inv d \<longleftrightarrow> shared_inv (dm_shared d) \<and> 1 \<le> dm_backoff d \<and> dm_backoff d \<le> 60"

lemma shared_inv_update [simp]:
  "shared_inv (s\<lparr>sh_active_run := r\<rparr>) = shared_inv s"
  "shared_inv (s\<lparr>sh_pending_settings := st\<rparr>) = shared_inv s"
  "shared_inv (s\<lparr>sh_last_error := le\<rparr>) = shared_inv s"
  by (simp_all add: shared_inv_def)

lemma apply_gate_inv: "shared_inv s \<Longrightarrow> shared_inv (snd (apply_gate a s))"
  by (cases a) (auto simp: shared_inv_def apply_gate_def gate_apply_def)

lemma force_pause_inv: "shared_inv s \<Longrightarrow> shared_inv (force_pause s)"
  by (simp add: shared_inv_def force_pause_def)

lemma companion_accept_inv:
  assumes "shared_inv s" and "verify_request P enc key q = Inr ()"
  shows "shared_inv (snd (companion_accept q s))"
proof (cases "cq_action q")
  case AResume
  show ?thesis
  proof (cases "cq_strategy q")
    case None
    with AResume show ?thesis using apply_gate_inv [OF assms(1)] by (simp add: companion_accept_def)
  next
    case (Some b)
    then have "validate_bundle b = Inr ()"
      using assms(2) by (auto simp: verify_request_Inr options_ok_def is_ok_iff)
    with AResume Some show ?thesis using assms(1)
      by (auto simp: companion_accept_def queue_strategy_def shared_inv_def)
  qed
qed (use assms(1) apply_gate_inv [OF assms(1)] in \<open>auto simp: companion_accept_def queue_settings_def\<close>)

lemma companion_message_inv: "shared_inv (dm_shared d) \<Longrightarrow> shared_inv (dm_shared (companion_message E q d))"
  using companion_accept_inv [of "dm_shared d" "de_P E" "de_enc E" "de_secret E" q]
  by (auto simp: companion_message_def apply_companion_request_def Let_def split: sum.splits prod.splits)

lemma apply_relay_message_inv:
  "shared_inv s \<Longrightarrow> apply_relay_message P A parse e dev run now at nonce (s, j) = (r, s', j') \<Longrightarrow> shared_inv s'"
  using apply_gate_inv [of s]
  by (auto simp: apply_relay_message_def apply_remote_command_def split: if_splits option.splits sum.splits prod.splits)
     (metis snd_conv)+


lemma fail_closed_inv: "daemon_inv d \<Longrightarrow> daemon_inv (fail_closed d)"
  using force_pause_inv [of "dm_shared d"] by (auto simp: daemon_inv_def fail_closed_def)

lemma relay_message_inv: "daemon_inv d \<Longrightarrow> daemon_inv (relay_message E e now acked_at nonce d)"
proof -
  assume d: "daemon_inv d"
  obtain r s j where m: "apply_relay_message (de_P E) (de_A E) (de_parse E) e (de_device_id E)
      (sh_active_run (dm_shared d)) now acked_at nonce (dm_shared d, dm_journal d) = (r, s, j)"
    by (metis prod_cases3)
  have "shared_inv s" using d apply_relay_message_inv [OF _ m] by (simp add: daemon_inv_def)
  then have "daemon_inv (d\<lparr>dm_shared := s, dm_journal := j\<rparr>)" using d by (simp add: daemon_inv_def)
  then show ?thesis using m fail_closed_inv by (auto simp: relay_message_def split: sum.split)
qed

lemma daemon_inv_next:
  assumes "daemon_inv d" and "daemon_next E e d = Some d'"
  shows "daemon_inv d'"
proof (cases e)
  case (DvCompanion q)
  then show ?thesis using assms companion_message_inv [of d E q]
    by (auto simp: daemon_inv_def companion_message_def split: prod.splits)
next
  case (DvRelay e now acked_at nonce)
  then show ?thesis using assms relay_message_inv by auto
next
  case DvSessionResume
  then show ?thesis using assms apply_gate_inv [of "dm_shared d" Resume]
    by (auto simp: daemon_inv_def when_live_def split: if_splits)
next
  case (DvLiveFailed code)
  then show ?thesis using assms force_pause_inv [of "(dm_shared d)\<lparr>sh_last_error := Some code\<rparr>"]
    by (auto simp: daemon_inv_def live_failed_def split: if_splits)
next
  case DvStrategyTaken
  then show ?thesis using assms by (auto simp: daemon_inv_def shared_inv_def when_live_def split: if_splits)
next
  case DvRestart
  then show ?thesis using assms
    by (auto simp: daemon_inv_def shared_inv_def start_daemon_def new_shared_def new_gate_def)
qed (use assms fail_closed_inv [of d] in
      \<open>auto simp: daemon_inv_def rotated_def live_stopped_def when_live_def split: if_splits sum.splits\<close>)

lemma daemon_run_inv:
  assumes "daemon_run E d es d'" and "daemon_inv d"
  shows "daemon_inv d'"
  using assms by (induction rule: daemon_run.induct) (auto intro: daemon_inv_next)

lemma start_daemon_inv: "daemon_inv (start_daemon j token)"
  by (simp add: daemon_inv_def shared_inv_def start_daemon_def new_shared_def new_gate_def)

text \<open>
  C28. From its start, whatever requests, messages, failures and restarts follow, the daemon's
  gate is running, paused or stopped, a queued strategy is a valid bundle, and the reconnect
  delay is between one second and a minute.
\<close>

theorem daemon_state_is_well_formed:
  assumes "daemon_run E (start_daemon j token) es d"
  shows "sh_gate (dm_shared d) \<in> {EXECUTION_RUNNING, EXECUTION_PAUSED, EXECUTION_STOPPED}
    \<and> (case sh_pending_strategy (dm_shared d) of None \<Rightarrow> True | Some b \<Rightarrow> validate_bundle b = Inr ())
    \<and> 1 \<le> dm_backoff d \<and> dm_backoff d \<le> 60"
  using daemon_run_inv [OF assms start_daemon_inv] by (simp add: daemon_inv_def shared_inv_def)

section \<open>Who opens the gate\<close>

text \<open>The events that let a paused daemon trade again.\<close>

definition opens_gate :: "daemon_env \<Rightarrow> daemon \<Rightarrow> daemon_event \<Rightarrow> bool" where
  "opens_gate E d e = (case e of
     DvCompanion q \<Rightarrow> verify_request (de_P E) (de_enc E) (de_secret E) q = Inr ()
       \<and> dm_highest_nonce d < cq_nonce q \<and> cq_action q = AResume \<and> cq_strategy q = None
   | DvRelay envelope now acked_at nonce \<Rightarrow> we_protocol envelope = HARNESS_PROTOCOL_V1
       \<and> (case de_parse E (we_payload envelope) of
            None \<Rightarrow> False
          | Some (c, key) \<Rightarrow> rc_action c = Resume \<and> verify_command (de_P E) c key now = Inr ()
              \<and> rc_target_device_id c = de_device_id E \<and> sh_active_run (dm_shared d) = Some (rc_run_id c)
              \<and> (case previous_nonce (de_P E) (de_A E) (rc_controller_device_id c) (dm_journal d) of
                   Inl _ \<Rightarrow> False
                 | Inr None \<Rightarrow> True
                 | Inr (Some previous) \<Rightarrow> previous < rc_nonce c))
   | DvSessionResume \<Rightarrow> dm_live d
   | _ \<Rightarrow> False)"

text \<open>
  The events after which the gate is closed whatever it was: a verified companion pause or stop with a fresh nonce,
  a relay message that is neither the greeting nor a resume (a pause or stop is applied, anything else
  ends the connection), and what fails closed.
\<close>

definition shuts_gate :: "daemon_env \<Rightarrow> daemon \<Rightarrow> daemon_event \<Rightarrow> bool" where
  "shuts_gate E d e = (case e of
     DvCompanion q \<Rightarrow> verify_request (de_P E) (de_enc E) (de_secret E) q = Inr ()
       \<and> dm_highest_nonce d < cq_nonce q \<and> (cq_action q = APause \<or> cq_action q = AStop)
   | DvRelay envelope now acked_at nonce \<Rightarrow>
       \<not> (we_protocol envelope = HARNESS_PROTOCOL_V1 \<and> we_kind envelope = ''auth.ok'')
       \<and> (case de_parse E (we_payload envelope) of None \<Rightarrow> True | Some (c, key) \<Rightarrow> rc_action c \<noteq> Resume)
   | DvRelayLost \<Rightarrow> True | DvRotationFailed \<Rightarrow> True | DvLiveFailed _ \<Rightarrow> True | DvRestart \<Rightarrow> True
   | _ \<Rightarrow> False)"

abbreviation running :: "daemon \<Rightarrow> bool" where
  "running d \<equiv> sh_gate (dm_shared d) = EXECUTION_RUNNING"

lemma gate_values [simp]:
  "EXECUTION_RUNNING \<noteq> EXECUTION_PAUSED" "EXECUTION_RUNNING \<noteq> EXECUTION_STOPPED"
  "EXECUTION_PAUSED \<noteq> EXECUTION_STOPPED" "EXECUTION_PAUSED \<noteq> EXECUTION_RUNNING"
  "EXECUTION_STOPPED \<noteq> EXECUTION_RUNNING" "EXECUTION_STOPPED \<noteq> EXECUTION_PAUSED"
  by (simp_all add: EXECUTION_RUNNING_def EXECUTION_PAUSED_def EXECUTION_STOPPED_def)

lemma apply_gate_opens:
  "apply_gate a s = (ok, s') \<Longrightarrow> sh_gate s \<noteq> EXECUTION_RUNNING \<Longrightarrow> sh_gate s' = EXECUTION_RUNNING
    \<Longrightarrow> a = Resume \<and> sh_gate s = EXECUTION_PAUSED \<and> ok"
  by (cases a) (auto simp: apply_gate_def gate_apply_def split: if_splits)

lemma companion_accept_opens:
  assumes "companion_accept q s = (ok, s')" and "sh_gate s \<noteq> EXECUTION_RUNNING"
    and "sh_gate s' = EXECUTION_RUNNING"
  shows "cq_action q = AResume \<and> cq_strategy q = None \<and> sh_gate s = EXECUTION_PAUSED"
  using assms by (auto simp: companion_accept_def queue_strategy_def queue_settings_def
      split: companion_action.splits option.splits if_splits dest: apply_gate_opens)

lemma companion_message_opens:
  assumes "\<not> running d" and "running (companion_message E q d)"
  shows "opens_gate E d (DvCompanion q) \<and> sh_gate (dm_shared d) = EXECUTION_PAUSED"
  using assms companion_accept_opens [of q "dm_shared d"]
  by (auto simp: companion_message_def apply_companion_request_def opens_gate_def Let_def
      split: sum.splits prod.splits if_splits)

lemma apply_remote_command_opens:
  assumes "apply_remote_command P A c key i device run now at nonce (s, j) = (r, s', j')"
    and "sh_gate s \<noteq> EXECUTION_RUNNING" and "sh_gate s' = EXECUTION_RUNNING"
  shows "sh_gate s = EXECUTION_PAUSED" "rc_action c = Resume" "verify_command P c key now = Inr ()"
    "rc_target_device_id c = device" "run = Some (rc_run_id c)"
    "case previous_nonce P A (rc_controller_device_id c) j of
       Inl _ \<Rightarrow> False | Inr None \<Rightarrow> True | Inr (Some previous) \<Rightarrow> previous < rc_nonce c"
  using assms apply_gate_opens [of "rc_action c" s]
  by (auto simp: apply_remote_command_def command_refused_def is_ok_iff
      split: sum.splits prod.splits if_splits option.splits)

lemma relay_message_opens:
  assumes "\<not> running d" and "running (relay_message E e now acked_at nonce d)"
  shows "opens_gate E d (DvRelay e now acked_at nonce) \<and> sh_gate (dm_shared d) = EXECUTION_PAUSED"
proof -
  obtain r s j where m: "apply_relay_message (de_P E) (de_A E) (de_parse E) e (de_device_id E)
      (sh_active_run (dm_shared d)) now acked_at nonce (dm_shared d, dm_journal d) = (r, s, j)"
    by (metis prod_cases3)
  have opened: "sh_gate s = EXECUTION_RUNNING" using assms(2) m
    by (auto simp: relay_message_def fail_closed_def force_pause_def split: sum.splits)
  then have "\<exists>c key. de_parse E (we_payload e) = Some (c, key) \<and> we_protocol e = HARNESS_PROTOCOL_V1
      \<and> apply_remote_command (de_P E) (de_A E) c key (we_id e) (de_device_id E)
          (sh_active_run (dm_shared d)) now acked_at nonce (dm_shared d, dm_journal d) = (r, s, j)"
    using m assms(1) by (auto simp: apply_relay_message_def split: if_splits option.splits)
  then obtain c key where c: "de_parse E (we_payload e) = Some (c, key)" "we_protocol e = HARNESS_PROTOCOL_V1"
    "apply_remote_command (de_P E) (de_A E) c key (we_id e) (de_device_id E)
          (sh_active_run (dm_shared d)) now acked_at nonce (dm_shared d, dm_journal d) = (r, s, j)"
    by blast
  show ?thesis using c(1,2) apply_remote_command_opens [OF c(3) assms(1) opened]
    by (simp add: opens_gate_def)
qed

lemma daemon_next_opens:
  assumes "daemon_next E e d = Some d'" and "\<not> running d" and "running d'"
  shows "opens_gate E d e" "sh_gate (dm_shared d) = EXECUTION_PAUSED"
proof -
  have "opens_gate E d e \<and> sh_gate (dm_shared d) = EXECUTION_PAUSED"
  proof (cases e)
    case (DvCompanion q)
    then show ?thesis using assms companion_message_opens by auto
  next
    case (DvRelay x now acked_at nonce)
    then show ?thesis using assms relay_message_opens by auto
  next
    case DvSessionResume
    obtain ok s where "apply_gate Resume (dm_shared d) = (ok, s)" by fastforce
    with DvSessionResume show ?thesis using assms apply_gate_opens [of Resume "dm_shared d" ok s]
      by (auto simp: when_live_def opens_gate_def split: if_splits)
  qed (use assms in \<open>auto simp: fail_closed_def force_pause_def rotated_def live_stopped_def live_failed_def
        when_live_def start_daemon_def new_shared_def new_gate_def split: if_splits sum.splits\<close>)
  then show "opens_gate E d e" "sh_gate (dm_shared d) = EXECUTION_PAUSED" by blast+
qed

lemma apply_gate_shuts: "a \<noteq> Resume \<Longrightarrow> sh_gate (snd (apply_gate a s)) \<noteq> EXECUTION_RUNNING"
  by (cases a) (simp_all add: apply_gate_def gate_apply_def)

lemma companion_shuts:
  assumes "shuts_gate E d (DvCompanion q)"
  shows "\<not> running (companion_message E q d)"
  using assms apply_gate_shuts [of Pause "dm_shared d"] apply_gate_shuts [of Stop "dm_shared d"]
  by (auto simp: shuts_gate_def companion_message_def apply_companion_request_def companion_accept_def Let_def
      split: prod.splits)

lemma relay_shuts:
  assumes "shuts_gate E d (DvRelay e now acked_at nonce)"
  shows "\<not> running (relay_message E e now acked_at nonce d)"
proof -
  have shut: "sh_gate s' \<noteq> EXECUTION_RUNNING"
    if "apply_remote_command P A c key i dev run now at n (s, j) = (Inr reply, s', j')" and "rc_action c \<noteq> Resume"
    for P A c key i dev run now at n s j reply s' j'
    using that apply_gate_shuts [of "rc_action c" s]
    by (auto simp: apply_remote_command_def split: sum.splits prod.splits if_splits)
  show ?thesis
    using assms
    by (auto simp: shuts_gate_def relay_message_def apply_relay_message_def fail_closed_def force_pause_def
        dest: shut split: sum.splits prod.splits if_splits option.splits)
qed

lemma gate_shut: "daemon_next E e d = Some d' \<Longrightarrow> shuts_gate E d e \<Longrightarrow> \<not> running d'"
  using companion_shuts relay_shuts
  by (cases e) (auto simp: shuts_gate_def fail_closed_def force_pause_def live_failed_def start_daemon_def
      new_shared_def new_gate_def split: if_splits)

text \<open>
  C11. When the gate of a started daemon is running, some event opened it from the paused state: a
  verified companion resume with a fresh nonce, a verified and fresh remote resume for this device
  and its active run, or the live session itself. Before every later event the gate was running and
  that event did not shut it: it was no verified companion pause or stop with a fresh nonce, no relay
  message other than the greeting and a resume, no lost connection, no failed token rotation, no
  failure of the live session and no restart of the process.
\<close>

theorem gate_opens_by_control:
  assumes "daemon_run E (start_daemon j token) es d" and "sh_gate (dm_shared d) = EXECUTION_RUNNING"
  shows "\<exists>es1 e es2 d1 d2. es = es1 @ [e] @ es2 \<and> daemon_run E (start_daemon j token) es1 d1
    \<and> sh_gate (dm_shared d1) = EXECUTION_PAUSED \<and> opens_gate E d1 e \<and> daemon_next E e d1 = Some d2
    \<and> (\<forall>before x after. es2 = before @ [x] @ after \<longrightarrow>
         (\<exists>d3. daemon_run E (start_daemon j token) (es1 @ [e] @ before) d3
           \<and> sh_gate (dm_shared d3) = EXECUTION_RUNNING \<and> \<not> shuts_gate E d3 x))"
  using assms
proof (induction rule: daemon_run.induct)
  case started
  then show ?case by (simp add: start_daemon_def new_shared_def new_gate_def)
next
  case (happened es d' e d'')
  show ?case
  proof (cases "running d'")
    case True
    from happened.IH [OF True] obtain es1 x es2 d1 d2 where
      es: "es = es1 @ [x] @ es2" "daemon_run E (start_daemon j token) es1 d1" "sh_gate (dm_shared d1) = EXECUTION_PAUSED"
      "opens_gate E d1 x" "daemon_next E x d1 = Some d2"
      and since: "\<And>before y after. es2 = before @ [y] @ after \<Longrightarrow>
         \<exists>d3. daemon_run E (start_daemon j token) (es1 @ [x] @ before) d3 \<and> running d3 \<and> \<not> shuts_gate E d3 y"
      by blast
    have "\<exists>d3. daemon_run E (start_daemon j token) (es1 @ [x] @ before) d3 \<and> running d3 \<and> \<not> shuts_gate E d3 y"
      if b: "es2 @ [e] = before @ [y] @ after" for before y after
    proof (cases after rule: rev_cases)
      case Nil
      with b have "before = es2" "y = e" by auto
      then show ?thesis
        using es(1) True happened.hyps(1) gate_shut [OF happened.hyps(2)] happened.prems by auto
    next
      case (snoc after' z)
      with b have "es2 = before @ [y] @ after'" by (metis append.assoc butlast_snoc)
      then show ?thesis using since by blast
    qed
    then show ?thesis using es
      by (intro exI [of _ es1] exI [of _ x] exI [of _ "es2 @ [e]"] exI [of _ d1] exI [of _ d2]) simp
  next
    case False
    then show ?thesis using happened daemon_next_opens [OF happened.hyps(2) False]
      by (intro exI [of _ es] exI [of _ e] exI [of _ "[]"] exI [of _ d'] exI [of _ d'']) auto
  qed
qed


text \<open>
  C39. A stop can be lost: a resume does not open a stopped gate, but when the relay connection
  breaks after the stop, the gate is set to paused, and the same resume opens it.
\<close>

theorem stop_is_lost_when_relay_breaks:
  assumes "sh_gate (dm_shared d) = EXECUTION_STOPPED"
    and "verify_request (de_P E) (de_enc E) (de_secret E) q = Inr ()" and "cq_action q = AResume"
    and "cq_strategy q = None" and "dm_highest_nonce d < cq_nonce q"
  shows "(\<exists>d'. daemon_next E (DvCompanion q) d = Some d' \<and> sh_gate (dm_shared d') = EXECUTION_STOPPED)
    \<and> (\<exists>d1 d2. daemon_next E DvRelayLost d = Some d1 \<and> daemon_next E (DvCompanion q) d1 = Some d2
         \<and> sh_gate (dm_shared d2) = EXECUTION_RUNNING)"
  using assms
  by (simp add: companion_message_def apply_companion_request_def companion_accept_def apply_gate_def
      gate_apply_def fail_closed_def force_pause_def Let_def not_le [symmetric])

definition toy_daemon_env :: daemon_env where
  "toy_daemon_env = \<lparr>de_P = toy_prims, de_A = toy_aead, de_enc = (\<lambda>b. None), de_secret = ''secret'',
     de_parse = (\<lambda>v. Some (toy_command\<lparr>rc_relay_receipt := Some ''receipt''\<rparr>, replicate 32 (CHR ''k''))),
     de_device_id = 1\<rparr>"

definition toy_resume :: companion_request where
  "toy_resume = \<lparr>cq_protocol = HARNESS_PROTOCOL_V1, cq_request_id = 4, cq_nonce = 1,
     cq_action = AResume, cq_strategy = None, cq_settings = None, cq_mac = ''secret''\<rparr>"

definition toy_daemon :: "u8 \<Rightarrow> daemon" where
  "toy_daemon gate = (start_daemon (open_journal ''key'') ''token'')
     \<lparr>dm_shared := new_shared\<lparr>sh_gate := gate, sh_active_run := Some 2\<rparr>\<rparr>"

lemma toy_daemon_env_fields [simp]:
  "de_P toy_daemon_env = toy_prims" "de_A toy_daemon_env = toy_aead" "de_secret toy_daemon_env = ''secret''"
  "de_device_id toy_daemon_env = 1"
  by (simp_all add: toy_daemon_env_def)

lemma toy_resume_fields [simp]:
  "cq_action toy_resume = AResume" "cq_strategy toy_resume = None" "cq_nonce toy_resume = 1"
  by (simp_all add: toy_resume_def)

lemma toy_resume_verifies: "verify_request toy_prims enc ''secret'' toy_resume = Inr ()"
proof -
  have "canonical_json toy_prims (Some v) = Inr ''json''" for v
    by (simp add: canonical_json_def toy_prims_def)
  moreover have "hmac_sha256 toy_prims k m = k" "hex_decode toy_prims s = Some s" for k m s
    by (simp_all add: toy_prims_def)
  ultimately show ?thesis
    by (simp add: verify_request_def toy_resume_def verify_value_def unsigned_request_def)
qed

theorem stop_is_lost_when_relay_breaks_witness:
  "\<exists>d1 d2. daemon_next toy_daemon_env DvRelayLost (toy_daemon EXECUTION_STOPPED) = Some d1
    \<and> daemon_next toy_daemon_env (DvCompanion toy_resume) d1 = Some d2
    \<and> sh_gate (dm_shared d2) = EXECUTION_RUNNING"
proof -
  have "sh_gate (dm_shared (toy_daemon EXECUTION_STOPPED)) = EXECUTION_STOPPED"
    "dm_highest_nonce (toy_daemon EXECUTION_STOPPED) < cq_nonce toy_resume"
    by (simp_all add: toy_daemon_def start_daemon_def)
  then show ?thesis
    using stop_is_lost_when_relay_breaks [of "toy_daemon EXECUTION_STOPPED" toy_daemon_env toy_resume]
      toy_resume_verifies by simp
qed

lemma toy_resumed:
  "daemon_run toy_daemon_env (start_daemon (open_journal ''key'') ''token'') [DvCompanion toy_resume]
     (companion_message toy_daemon_env toy_resume (start_daemon (open_journal ''key'') ''token''))"
  using daemon_run.happened [OF daemon_run.started] by fastforce

lemma toy_resumed_running:
  "sh_gate (dm_shared (companion_message toy_daemon_env toy_resume (start_daemon (open_journal ''key'') ''token'')))
     = EXECUTION_RUNNING"
  using toy_resume_verifies
  by (simp add: companion_message_def apply_companion_request_def companion_accept_def apply_gate_def
      gate_apply_def Let_def) (simp add: start_daemon_def new_shared_def new_gate_def)

theorem gate_opens_by_control_witness:
  "\<exists>e d1. daemon_run toy_daemon_env (start_daemon (open_journal ''key'') ''token'') [] d1
    \<and> sh_gate (dm_shared d1) = EXECUTION_PAUSED \<and> opens_gate toy_daemon_env d1 e"
  using gate_opens_by_control [OF toy_resumed toy_resumed_running] by (auto simp: Cons_eq_append_conv)

theorem daemon_state_is_well_formed_witness:
  "\<exists>d. daemon_run toy_daemon_env (start_daemon (open_journal ''key'') ''token'') [DvCompanion toy_resume] d
    \<and> sh_gate (dm_shared d) \<in> {EXECUTION_RUNNING, EXECUTION_PAUSED, EXECUTION_STOPPED} \<and> dm_backoff d \<le> 60"
  using daemon_state_is_well_formed [OF toy_resumed] toy_resumed by blast

section \<open>Replayed commands\<close>

text \<open>The journal holds a nonce of the controller that is at least \<open>n\<close>.\<close>

definition nonce_reached :: "daemon_env \<Rightarrow> uuid \<Rightarrow> u64 \<Rightarrow> journal \<Rightarrow> bool" where
  "nonce_reached E controller n j \<longleftrightarrow>
     (case previous_nonce (de_P E) (de_A E) controller j of Inr (Some m) \<Rightarrow> n \<le> m | _ \<Rightarrow> False)"

definition fresh_event :: "daemon_event \<Rightarrow> bool" where
  "fresh_event e = (case e of DvRelay _ _ _ nonce \<Rightarrow> length nonce = 24
     | DvRotated _ nonce \<Rightarrow> length nonce = 24 | _ \<Rightarrow> True)"

lemma previous_nonce_put:
  assumes "aead_law A" and "length nonce = 24"
    and "put_secret A nonce (nonce_key P controller) (to_be_bytes n) j = Inr j'"
  shows "previous_nonce P A controller j' = Inr (Some n)"
  using jsec.put_get [OF conjI [OF assms(1,2)] assms(3)] by (simp add: previous_nonce_def)

lemma previous_nonce_other:
  "put_secret A nonce name v j = Inr j' \<Longrightarrow> name \<noteq> nonce_key P controller
    \<Longrightarrow> previous_nonce P A controller j' = previous_nonce P A controller j"
  using jsec.put_other [of A nonce name v j j' "nonce_key P controller"]
  by (auto simp: previous_nonce_def)

lemma apply_remote_command_nonce:
  assumes "aead_law (de_A E)" and "length nonce = 24"
    and "apply_remote_command (de_P E) (de_A E) c key i device run now at nonce (s, j) = (r, s', j')"
    and "nonce_reached E controller n j"
  shows "nonce_reached E controller n j'"
proof (cases "j' = j")
  case False
  let ?k = "rc_controller_device_id c"
  from False assms(3) obtain previous where put: "put_secret (de_A E) nonce (nonce_key (de_P E) ?k)
      (to_be_bytes (rc_nonce c)) j = Inr j'"
    and previous: "previous_nonce (de_P E) (de_A E) ?k j = Inr previous"
      "\<not> command_refused (de_P E) c key i device run now previous"
    by (auto simp: apply_remote_command_def split: sum.splits prod.splits if_splits)
  show ?thesis
  proof (cases "nonce_key (de_P E) ?k = nonce_key (de_P E) controller")
    case True
    then have same: "previous_nonce (de_P E) (de_A E) controller jj = previous_nonce (de_P E) (de_A E) ?k jj" for jj
      by (simp add: previous_nonce_def)
    have "previous_nonce (de_P E) (de_A E) ?k j' = Inr (Some (rc_nonce c))"
      by (rule previous_nonce_put [OF assms(1,2) put])
    moreover obtain m where "previous = Some m" "n \<le> m"
      using assms(4) previous(1) same by (auto simp: nonce_reached_def split: option.splits)
    ultimately show ?thesis using previous(2) same by (auto simp: nonce_reached_def command_refused_def)
  next
    case False
    then show ?thesis using assms(4) previous_nonce_other [OF put] by (simp add: nonce_reached_def)
  qed
qed (use assms(4) in simp)

lemma apply_relay_message_nonce:
  assumes "aead_law (de_A E)" and "length nonce = 24"
    and "apply_relay_message (de_P E) (de_A E) parse e device run now at nonce (s, j) = (r, s', j')"
    and "nonce_reached E controller n j"
  shows "nonce_reached E controller n j'"
  using assms(3,4) apply_remote_command_nonce [OF assms(1,2)]
  by (auto simp: apply_relay_message_def split: if_splits option.splits)

lemma refresh_token_key: "REFRESH_TOKEN_SECRET \<noteq> nonce_key P controller"
  by (simp add: REFRESH_TOKEN_SECRET_def nonce_key_def)

lemma daemon_next_nonce:
  assumes "aead_law (de_A E)" and "fresh_event e" and "daemon_next E e d = Some d'"
    and "nonce_reached E controller n (dm_journal d)"
  shows "nonce_reached E controller n (dm_journal d')"
proof (cases e)
  case (DvRelay x now at nonce)
  obtain r s j where m: "apply_relay_message (de_P E) (de_A E) (de_parse E) x (de_device_id E)
      (sh_active_run (dm_shared d)) now at nonce (dm_shared d, dm_journal d) = (r, s, j)"
    by (metis prod_cases3)
  have "nonce_reached E controller n j"
    using apply_relay_message_nonce [OF assms(1) _ m assms(4)] assms(2) DvRelay by (simp add: fresh_event_def)
  then show ?thesis using assms(3) m DvRelay
    by (auto simp: relay_message_def fail_closed_def split: sum.splits)
next
  case (DvRotated token nonce)
  then show ?thesis using assms(3,4) previous_nonce_other refresh_token_key
    by (fastforce simp: rotated_def nonce_reached_def split: sum.splits)
qed (use assms(3,4) in \<open>auto simp: companion_message_def fail_closed_def live_stopped_def live_failed_def
      when_live_def start_daemon_def split: prod.splits if_splits\<close>)

lemma daemon_run_nonce:
  assumes "daemon_run E d es d'" and "aead_law (de_A E)" and "list_all fresh_event es"
    and "nonce_reached E controller n (dm_journal d)"
  shows "nonce_reached E controller n (dm_journal d')"
  using assms by (induction rule: daemon_run.induct) (auto intro: daemon_next_nonce)

lemma accepted_command_nonce:
  assumes "aead_law A" and "length nonce = 24"
    and "apply_remote_command P A c key i device run now at nonce (s, j) = (Inr ack, s', j')"
  shows "previous_nonce P A (rc_controller_device_id c) j' = Inr (Some (rc_nonce c))"
  using assms(3) previous_nonce_put [OF assms(1,2)]
  by (auto simp: apply_remote_command_def split: sum.splits prod.splits if_splits)

text \<open>
  C10. A remote command takes effect at most once: after the daemon has acknowledged a command,
  every command of the same controller whose nonce is not higher is refused and changes nothing,
  whatever happens in between, restarts of the daemon included.
\<close>

theorem remote_command_is_not_replayed:
  assumes "aead_law (de_A E)" and "length nonce = 24" and "list_all fresh_event es"
    and "apply_remote_command (de_P E) (de_A E) c key i (de_device_id E) run now at nonce
           (dm_shared d, dm_journal d) = (Inr ack, s, j)"
    and "daemon_run E (d\<lparr>dm_shared := s, dm_journal := j\<rparr>) es d'"
    and "rc_controller_device_id c' = rc_controller_device_id c" and "rc_nonce c' \<le> rc_nonce c"
  shows "apply_remote_command (de_P E) (de_A E) c' key' i' (de_device_id E) run' now' at' nonce'
           (dm_shared d', dm_journal d') = (Inl DeRemoteCommand, dm_shared d', dm_journal d')"
proof -
  have "nonce_reached E (rc_controller_device_id c) (rc_nonce c) (dm_journal (d\<lparr>dm_shared := s, dm_journal := j\<rparr>))"
    using accepted_command_nonce [OF assms(1,2,4)] by (simp add: nonce_reached_def)
  from daemon_run_nonce [OF assms(5,1,3) this]
  obtain m where "previous_nonce (de_P E) (de_A E) (rc_controller_device_id c') (dm_journal d') = Inr (Some m)"
    and "rc_nonce c \<le> m"
    using assms(6) by (auto simp: nonce_reached_def split: sum.splits option.splits)
  moreover from this assms(7) have "rc_nonce c' \<le> m" by simp
  ultimately show ?thesis by (simp add: apply_remote_command_def command_refused_def)
qed

lemma toy_command_verifies:
  "verify_command toy_prims (toy_command\<lparr>rc_relay_receipt := r\<rparr>) (replicate 32 (CHR ''k'')) 15 = Inr ()"
  by (simp add: verify_command_def unsigned_command_def canonical_json_def verify_signature_def jtime_def
      toy_command_def toy_prims_def)

lemma toy_command_accepted:
  obtains ack s j where "apply_remote_command toy_prims toy_aead (toy_command\<lparr>rc_relay_receipt := Some ''receipt''\<rparr>)
     (replicate 32 (CHR ''k'')) ''uuid'' 1 (Some 2) 15 16 toy_nonce
     (dm_shared (toy_daemon EXECUTION_PAUSED), dm_journal (toy_daemon EXECUTION_PAUSED)) = (Inr ack, s, j)"
proof -
  let ?c = "toy_command\<lparr>rc_relay_receipt := Some ''receipt''\<rparr>"
  have c: "rc_command_id ?c = 9" "rc_target_device_id ?c = 1" "rc_run_id ?c = 2" "rc_action ?c = Pause"
    by (simp_all add: toy_command_def)
  have "uuid_str toy_prims u = ''uuid''" for u by (simp add: toy_prims_def)
  then have "\<not> command_refused toy_prims ?c (replicate 32 (CHR ''k'')) ''uuid'' 1 (Some 2) 15 None"
    using c toy_command_verifies by (simp add: command_refused_def)
  moreover have "previous_nonce toy_prims toy_aead controller (open_journal ''key'') = Inr None" for controller
    by (simp add: previous_nonce_def secret_def open_journal_def)
  moreover have "\<exists>j. put_secret toy_aead toy_nonce (nonce_key toy_prims controller) v (open_journal ''key'') = Inr j"
    for controller v
    by (simp add: put_secret_def encrypt_bundle_def toy_aead_def nonce_key_def)
  then obtain j where "put_secret toy_aead toy_nonce (nonce_key toy_prims (rc_controller_device_id ?c))
      (to_be_bytes (rc_nonce ?c)) (open_journal ''key'') = Inr j"
    by blast
  moreover have "dm_journal (toy_daemon EXECUTION_PAUSED) = open_journal ''key''"
    by (simp add: toy_daemon_def start_daemon_def)
  ultimately show ?thesis
    using c that by (simp add: apply_remote_command_def apply_gate_def gate_apply_def del: remote_command.update_convs)
qed

theorem remote_command_is_not_replayed_witness:
  "\<exists>d :: daemon. apply_remote_command toy_prims toy_aead (toy_command\<lparr>rc_relay_receipt := Some ''receipt''\<rparr>)
       (replicate 32 (CHR ''k'')) ''uuid'' 1 (Some 2) 15 16 toy_nonce
       (dm_shared d, dm_journal d) = (Inl DeRemoteCommand, dm_shared d, dm_journal d)"
proof -
  let ?c = "toy_command\<lparr>rc_relay_receipt := Some ''receipt''\<rparr>" and ?d = "toy_daemon EXECUTION_PAUSED"
  obtain ack s j where acked: "apply_remote_command (de_P toy_daemon_env) (de_A toy_daemon_env) ?c
     (replicate 32 (CHR ''k'')) ''uuid'' (de_device_id toy_daemon_env) (Some 2) 15 16 toy_nonce
     (dm_shared ?d, dm_journal ?d) = (Inr ack, s, j)"
    using toy_command_accepted unfolding toy_daemon_env_fields by blast
  have law: "aead_law (de_A toy_daemon_env)" "length toy_nonce = 24" "list_all fresh_event [DvRestart]"
    using toy_aead_law by (simp_all add: toy_nonce_def fresh_event_def)
  have run: "daemon_run toy_daemon_env (?d\<lparr>dm_shared := s, dm_journal := j\<rparr>) [DvRestart]
      (start_daemon j (dm_refresh_token ?d))"
    using daemon_run.happened [OF daemon_run.started, of toy_daemon_env DvRestart "?d\<lparr>dm_shared := s, dm_journal := j\<rparr>"]
    by simp
  note refused = remote_command_is_not_replayed [OF law acked run refl order_refl, unfolded toy_daemon_env_fields]
  show ?thesis by (rule exI, rule refused)
qed

section \<open>The answers to the desktop\<close>

lemma sign_response_verifies:
  assumes "hex_law P" and "sign_response P key i n accepted label run err = Inr r"
    and "cq_request_id q = i" and "cq_nonce q = n"
  shows "verify_response P key r q = Inr ()" "cr_accepted r = accepted" "cr_execution_state r = label"
    "cr_active_run r = run" "cr_error r = err"
proof -
  let ?r = "\<lparr>cr_protocol = HARNESS_PROTOCOL_V1, cr_request_id = i, cr_nonce = n, cr_accepted = accepted,
      cr_execution_state = label, cr_active_run = run, cr_error = err, cr_mac = ''''\<rparr>"
  from assms(2) obtain mac where mac: "sign_value P key (unsigned_response P ?r) = Inr mac" "r = ?r\<lparr>cr_mac := mac\<rparr>"
    by (auto simp: sign_response_def Let_def)
  show "verify_response P key r q = Inr ()"
    using assms(3,4) verify_own_value [OF assms(1) mac(1)] unfolding mac(2) verify_response_def unsigned_response_mac
    by simp
qed (use assms(2) in \<open>auto simp: sign_response_def Let_def\<close>)

text \<open>
  A companion request changes nothing unless it verifies under the shared secret with a nonce
  above every earlier one; then its nonce becomes the highest, strategy and settings are queued
  only while the gate is paused with an active run and nothing queued, and the answer verifies
  for this very request and reports the gate and run as they are afterwards.
\<close>

theorem companion_request_contract:
  assumes "hex_law P" and "apply_companion_request P enc key q (highest, s) = (r, highest', s')"
  shows "(verify_request P enc key q = Inr () \<and> highest < cq_nonce q \<and> highest' = cq_nonce q
       \<or> (highest', s') = (highest, s) \<and> \<not> is_ok r)
    \<and> (sh_pending_settings s' = sh_pending_settings s \<or> gate_label (sh_gate s) = ''paused''
         \<and> sh_active_run s \<noteq> None \<and> sh_pending_settings s = None \<and> sh_pending_settings s' = cq_settings q)
    \<and> (sh_pending_strategy s' = sh_pending_strategy s \<or> gate_label (sh_gate s) = ''paused''
         \<and> sh_active_run s \<noteq> None \<and> sh_pending_strategy s = None \<and> sh_pending_strategy s' = cq_strategy q)
    \<and> (case r of Inl _ \<Rightarrow> True
       | Inr a \<Rightarrow> verify_response P key a q = Inr () \<and> cr_execution_state a = gate_label (sh_gate s')
           \<and> cr_active_run a = sh_active_run s')"
proof (cases "verify_request P enc key q = Inr () \<and> highest < cq_nonce q")
  case False
  then have "r = r \<and> \<not> is_ok r \<and> highest' = highest \<and> s' = s" using assms(2)
    by (auto simp: apply_companion_request_def Let_def split: sum.splits prod.splits if_splits)
  then show ?thesis by (auto split: sum.splits)
next
  case True
  obtain accepted s1 where accepted: "companion_accept q s = (accepted, s1)" by fastforce
  define err where "err = (if cq_action q = AStatus then sh_last_error s1
                         else if accepted then None else Some ''invalid_transition'')"
  have s': "s' = (if accepted \<and> cq_action q \<noteq> AStatus then s1\<lparr>sh_last_error := None\<rparr> else s1)"
    and r: "r = map_err DeCompanion (sign_response P key (cq_request_id q) (cq_nonce q) accepted
              (gate_label (sh_gate s')) (sh_active_run s') err)"
    and h: "highest' = cq_nonce q"
    using assms(2) True accepted
    by (auto simp: apply_companion_request_def err_def Let_def split: sum.splits if_splits)
  have "sh_pending_settings s1 = sh_pending_settings s \<or> gate_label (sh_gate s) = ''paused''
         \<and> sh_active_run s \<noteq> None \<and> sh_pending_settings s = None \<and> sh_pending_settings s1 = cq_settings q"
    "sh_pending_strategy s1 = sh_pending_strategy s \<or> gate_label (sh_gate s) = ''paused''
         \<and> sh_active_run s \<noteq> None \<and> sh_pending_strategy s = None \<and> sh_pending_strategy s1 = cq_strategy q"
    using accepted by (auto simp: companion_accept_def queue_settings_def queue_strategy_def apply_gate_def
        split: companion_action.splits option.splits if_splits prod.splits)
  moreover have "sh_pending_settings s' = sh_pending_settings s1" "sh_pending_strategy s' = sh_pending_strategy s1"
    by (simp_all add: s')
  moreover have "case r of Inl _ \<Rightarrow> True
       | Inr a \<Rightarrow> verify_response P key a q = Inr () \<and> cr_execution_state a = gate_label (sh_gate s')
           \<and> cr_active_run a = sh_active_run s'"
    using sign_response_verifies [OF assms(1)] by (auto simp: r split: sum.split)
  ultimately show ?thesis using True h by simp
qed

lemma toy_resume_answered:
  "\<exists>a h s. apply_companion_request toy_prims enc ''secret'' toy_resume (0, new_shared) = (Inr a, h, s)"
proof -
  have "\<exists>a. sign_response toy_prims ''secret'' i n accepted label run err = Inr a" for i n accepted label run err
    by (simp add: sign_response_def sign_value_def unsigned_response_def canonical_json_def toy_prims_def Let_def)
  then show ?thesis using toy_resume_verifies
    by (auto simp: apply_companion_request_def Let_def split: prod.splits)
qed

theorem companion_request_contract_witness:
  "\<exists>a h s. apply_companion_request toy_prims (\<lambda>b. None) ''secret'' toy_resume (0, new_shared) = (Inr a, h, s)
    \<and> verify_response toy_prims ''secret'' a toy_resume = Inr () \<and> cr_execution_state a = gate_label (sh_gate s)"
proof -
  obtain a h s where run: "apply_companion_request toy_prims (\<lambda>b. None) ''secret'' toy_resume (0, new_shared) = (Inr a, h, s)"
    using toy_resume_answered by blast
  from companion_request_contract [OF toy_hex_law run] run show ?thesis by auto
qed

end
