(* ===== verification/Session.thy ===== *)
theory Session
  imports Schedule Daemon
begin

text \<open>
  One live session, \<open>run_session\<close> of \<open>apps/crow-agentd/src/live_run.rs\<close>: the start up to the
  reconciled state, and one handler per branch of its \<open>select\<close> loop.

  The world of the live cycle is here the state shared with the daemon's other tasks
  (\<open>shared\<close>) together with the rest: whatever the session awaits may change the gate and what
  is queued. The control plane, the venue, the model gateway and the book stream are functions
  of that world. The session's journal connection is its own; the relay writes only its nonces
  and the refresh token to the same database.
\<close>

section \<open>The environment\<close>

record 'w task_world = shared +
  tw_rest :: 'w

record 'w run_env =
  re_P :: prims
  re_A :: aead_prims
  re_E :: "'w task_world host_env"
  re_C :: live_codec
  re_config :: prepared_arena
  re_signing_key :: string
  re_device_id :: uuid
  re_device_secret :: string
  re_start_run :: "prepared_arena \<Rightarrow> 'w task_world \<Rightarrow> (uuid \<times> string) option \<times> 'w task_world"
  re_renew_lease :: "uuid \<Rightarrow> string \<Rightarrow> 'w task_world \<Rightarrow> int option \<times> 'w task_world"
  re_agent_version :: "uuid \<Rightarrow> 'w task_world \<Rightarrow> version_envelope option \<times> 'w task_world"
  re_switch_strategy :: "uuid \<Rightarrow> uuid \<Rightarrow> 'w task_world \<Rightarrow> unit option \<times> 'w task_world"
  re_connect :: "arena_mode \<Rightarrow> 'w task_world \<Rightarrow> (hl_error + unit) \<times> 'w task_world"
  re_configure_leverage :: "string \<Rightarrow> u8 \<Rightarrow> 'w task_world \<Rightarrow> (hl_error + unit) \<times> 'w task_world"
  re_stream :: "'w task_world \<Rightarrow> (hl_error + book_snapshot list) \<times> 'w task_world"
  re_venue :: "'w task_world live_venue"
  re_gateway :: "'w task_world \<Rightarrow> unit option \<times> 'w task_world"
  re_infer :: "'w task_world inference"
  re_parse_bundle :: "string \<Rightarrow> strategy_bundle option"
  re_parse_risk :: "string \<Rightarrow> live_risk_state option"
  re_parse_settings :: "string \<Rightarrow> run_settings option"
  re_settings_of_json :: "json \<Rightarrow> run_settings option"
  re_parse_uuid :: "string \<Rightarrow> uuid option"

abbreviation re_manifest :: "'w run_env \<Rightarrow> arena_manifest" where
  "re_manifest E \<equiv> sm_manifest (pa_signed (re_config E))"

type_synonym ('w, 'a) run_step = "('w task_world live_host, live_run_error, 'a) step"

section \<open>Steps on the host\<close>

definition journal_read :: "(journal \<Rightarrow> journal_error + 'a) \<Rightarrow> ('w, 'a) run_step" where
  "journal_read f = sbind (sget (\<lambda>s. f (hs_journal s))) (\<lambda>r. slift (map_err LrJournal r))"

definition journal_write :: "(journal \<Rightarrow> journal_error + journal) \<Rightarrow> ('w, unit) run_step" where
  "journal_write f s = (case f (hs_journal s) of
     Inl e \<Rightarrow> (Inl (LrJournal e), s) | Inr j \<Rightarrow> (Inr (), s\<lparr>hs_journal := j\<rparr>))"

definition put_run_secret :: "'w run_env \<Rightarrow> string \<Rightarrow> string \<Rightarrow> ('w, unit) run_step" where
  "put_run_secret E name value =
     sbind (ask (he_nonce (re_E E))) (\<lambda>nonce. journal_write (put_secret (re_A E) nonce name value))"

definition call_api :: "('w task_world \<Rightarrow> 'a option \<times> 'w task_world) \<Rightarrow> ('w, 'a) run_step" where
  "call_api f = sbind (ask f) (\<lambda>r. slift (ok_or r LrControlPlane))"

definition call_venue :: "('w task_world \<Rightarrow> (hl_error + 'a) \<times> 'w task_world) \<Rightarrow> ('w, 'a) run_step" where
  "call_venue f = sbind (ask f) (\<lambda>r. slift (map_err LrVenue r))"

definition read_shared :: "(shared \<Rightarrow> 'a) \<Rightarrow> ('w, 'a) run_step" where
  "read_shared f = sget (\<lambda>s. f (shared.truncate (hs_world s)))"

definition with_shared :: "('w task_world \<Rightarrow> 'w task_world) \<Rightarrow> ('w, unit) run_step" where
  "with_shared f = sput (\<lambda>s. s\<lparr>hs_world := f (hs_world s)\<rparr>)"

text \<open>\<open>execution_gate.apply\<close>.\<close>

definition gate_step :: "remote_action \<Rightarrow> ('w, bool) run_step" where
  "gate_step action s = (case apply_gate action (hs_world s) of (ok, w) \<Rightarrow> (Inr ok, s\<lparr>hs_world := w\<rparr>))"

definition run_writer :: "'w run_env \<Rightarrow> uuid \<Rightarrow> writer" where
  "run_writer E run = \<lparr>dw_signing_key = re_signing_key E, dw_arena_id = am_arena_id (re_manifest E), dw_run_id = run\<rparr>"

definition run_append :: "'w run_env \<Rightarrow> uuid \<Rightarrow> uuid option \<Rightarrow> string \<Rightarrow> json \<Rightarrow> ('w, run_event) run_step" where
  "run_append E run cycle event_type payload =
     serr LrEvent (append_durable (re_P E) (re_A E) (re_E E) (run_writer E run) cycle event_type payload JNull)"

section \<open>Keys of the local secrets\<close>

definition run_id_key :: "prims \<Rightarrow> uuid \<Rightarrow> string" where
  "run_id_key P arena_id = ''live-run-id-'' @ uuid_str P arena_id"

definition lease_key :: "prims \<Rightarrow> uuid \<Rightarrow> string" where
  "lease_key P arena_id = ''live-run-lease-'' @ uuid_str P arena_id"

definition strategy_key :: "prims \<Rightarrow> uuid \<Rightarrow> string" where
  "strategy_key P run_id = ''active-strategy-version-'' @ uuid_str P run_id"

definition settings_key :: "prims \<Rightarrow> uuid \<Rightarrow> string" where
  "settings_key P run_id = ''live-run-settings-'' @ uuid_str P run_id"

definition load_secret_string :: "'w run_env \<Rightarrow> string \<Rightarrow> ('w, string) run_step" where
  "load_secret_string E name =
     sbind (journal_read (secret (re_A E) name)) (\<lambda>v.
     sbind (slift (ok_or v LrState)) (\<lambda>v. slift (if is_utf8 v then Inr v else Inl LrState)))"

definition utf8_uuid :: "'w run_env \<Rightarrow> string \<Rightarrow> uuid option" where
  "utf8_uuid E v = (if is_utf8 v then re_parse_uuid E v else None)"

section \<open>Acquiring the run\<close>

definition acquire_run :: "'w run_env \<Rightarrow> ('w, uuid) run_step" where
  "acquire_run E =
     (let arena_id = am_arena_id (re_manifest E); id_key = run_id_key (re_P E) arena_id;
          token_key = lease_key (re_P E) arena_id in
      sbind (journal_read (secret (re_A E) id_key)) (\<lambda>existing_id.
      sbind (journal_read (secret (re_A E) token_key)) (\<lambda>existing_lease.
        case (existing_id, existing_lease) of
          (Some stored_id, Some lease) \<Rightarrow>
            sbind (slift (ok_or (utf8_uuid E stored_id) LrState)) (\<lambda>run.
            sbind (slift (if is_utf8 lease then Inr lease else Inl LrState)) (\<lambda>lease.
            sbind (call_api (re_renew_lease E run lease)) (\<lambda>_. sret run)))
        | (None, None) \<Rightarrow>
            sbind (call_api (re_start_run E (re_config E))) (\<lambda>(run, lease).
            sbind (put_run_secret E id_key (uuid_str (re_P E) run)) (\<lambda>_.
            sbind (put_run_secret E token_key lease) (\<lambda>_. sret run)))
        | _ \<Rightarrow> slift (Inl LrState))))"

definition venue_mode :: "arena_mode \<Rightarrow> string" where
  "venue_mode m = (case m of HyperliquidMainnet \<Rightarrow> ''hyperliquid_mainnet''
     | HyperliquidTestnet \<Rightarrow> ''hyperliquid_testnet'' | HistoricalBacktest \<Rightarrow> ''historical_backtest'')"

definition initialize_event_chain :: "'w run_env \<Rightarrow> uuid \<Rightarrow> ('w, unit) run_step" where
  "initialize_event_chain E run =
     (let c = re_config E in
      sbind (journal_read (latest_event_state run)) (\<lambda>latest.
        if latest \<noteq> None
        then sbind (serr LrEvent (flush_pending (re_P E) (re_E E) (run_writer E run))) (\<lambda>_. sret ())
        else
          sbind (run_append E run None ''run_started''
            (JObj [(''client_release'', JStr (pa_client_release c)),
                   (''manifest_sha256'', JStr (sm_manifest_sha256 (pa_signed c))),
                   (''mode'', JStr (venue_mode (am_mode (re_manifest E)))),
                   (''decision_cooldown_seconds'', jword (pa_decision_cooldown_seconds c)),
                   (''isolated_leverage'', jword (pa_isolated_leverage c))])) (\<lambda>_.
          sbind (case pa_handoff_snapshot c of None \<Rightarrow> sret ()
                 | Some v \<Rightarrow> sbind (run_append E run None ''handoff_snapshot'' v) (\<lambda>_. sret ())) (\<lambda>_.
          sbind (run_append E run None ''run_paused''
            (JObj [(''reason'', JStr ''awaiting_explicit_resume'')])) (\<lambda>_. sret ())))))"

definition append_lifecycle :: "'w run_env \<Rightarrow> uuid \<Rightarrow> string \<Rightarrow> string \<Rightarrow> ('w, unit) run_step" where
  "append_lifecycle E run event_type source =
     sbind (run_append E run None event_type (JObj [(''source'', JStr source)])) (\<lambda>_. sret ())"

definition append_missed_cycle :: "'w run_env \<Rightarrow> uuid \<Rightarrow> int \<Rightarrow> string \<Rightarrow> ('w, unit) run_step" where
  "append_missed_cycle E run scheduled_at reason =
     sbind (ask (he_uuid (re_E E))) (\<lambda>cycle_id.
     sbind (run_append E run (Some cycle_id) ''missed_cycle''
       (JObj [(''scheduled_at'', lc_time (re_C E) scheduled_at), (''reason'', JStr reason),
              (''order_submitted'', JBool False)])) (\<lambda>_. sret ()))"

section \<open>What the journal says of a run\<close>

definition json_field :: "string \<Rightarrow> json \<Rightarrow> json option" where
  "json_field k v = (case v of JObj fs \<Rightarrow> map_of fs k | _ \<Rightarrow> None)"

text \<open>\<open>max_by_key\<close> on the sequence number: the last of the greatest.\<close>

definition latest_of :: "run_event list \<Rightarrow> run_event option" where
  "latest_of es = foldl (\<lambda>best e. case best of None \<Rightarrow> Some e
     | Some b \<Rightarrow> if ev_sequence b \<le> ev_sequence e then Some e else best) None es"

definition lifecycle_type :: "string \<Rightarrow> bool" where
  "lifecycle_type t \<longleftrightarrow> t \<in> set [''run_started'', ''run_paused'', ''run_resumed'', ''run_stopped'']"

definition runs_again :: "run_event option \<Rightarrow> bool" where
  "runs_again latest = (case latest of
     None \<Rightarrow> False
   | Some e \<Rightarrow>
       if ev_event_type e = ''run_started'' then True
       else if ev_event_type e = ''run_resumed'' then True
       else if ev_event_type e = ''run_paused''
       then json_field ''reason'' (ev_payload e) = Some (JStr ''awaiting_explicit_resume'')
       else False)"

definition should_run_after_reconciliation :: "prims \<Rightarrow> uuid \<Rightarrow> journal \<Rightarrow> journal_error + bool" where
  "should_run_after_reconciliation P run j =
     rbind (public_events P j) (\<lambda>es.
       Inr (runs_again (latest_of (filter (\<lambda>e. ev_run_id e = run \<and> lifecycle_type (ev_event_type e)) es))))"

definition persisted_settings :: "'w run_env \<Rightarrow> uuid \<Rightarrow> journal \<Rightarrow> journal_error + run_settings option" where
  "persisted_settings E run j =
     rbind (secret (re_A E) (settings_key (re_P E) run) j) (\<lambda>stored.
       Inr (case (case stored of None \<Rightarrow> None | Some v \<Rightarrow> re_parse_settings E v) of
              Some s \<Rightarrow> Some s
            | None \<Rightarrow>
                (case public_events (re_P E) j of
                   Inl _ \<Rightarrow> None
                 | Inr es \<Rightarrow>
                     (case latest_of (filter (\<lambda>e. ev_run_id e = run
                              \<and> ev_event_type e = ''run_settings_changed'') es) of
                        None \<Rightarrow> None
                      | Some e \<Rightarrow> re_settings_of_json E (ev_payload e)))))"

definition checked_add :: "u64 \<Rightarrow> u64 \<Rightarrow> u64 option" where
  "checked_add a b = (if unat a + unat b < 18446744073709551616 then Some (a + b) else None)"

definition completed_cycle_count :: "uuid \<Rightarrow> journal \<Rightarrow> u64 option" where
  "completed_cycle_count run j =
     checked_add (event_count run ''cycle_started'' j) (event_count run ''missed_cycle'' j)"

section \<open>Starting a session\<close>

record 'w session =
  ss_host :: "'w task_world live_host"
  ss_run :: uuid
  ss_completed :: u64
  ss_expected :: u64
  ss_cooldown :: u32
  ss_leverage :: u8
  ss_strategy :: strategy_bundle
  ss_books :: "(string \<times> book_snapshot) list"
  ss_recorded :: string

definition live_of :: "'w run_env \<Rightarrow> uuid \<Rightarrow> u8 \<Rightarrow> utext \<Rightarrow> 'w task_world live" where
  "live_of E run leverage instructions = \<lparr>lv_P = re_P E, lv_A = re_A E, lv_E = re_E E, lv_C = re_C E,
     lv_venue = re_venue E, lv_infer = re_infer E, lv_gate = (\<lambda>w. (gate_is_running (sh_gate w), w)),
     lv_signing_key = re_signing_key E, lv_manifest = re_manifest E, lv_run_id = run,
     lv_model_id = pa_model_id (re_config E), lv_leverage = leverage, lv_strategy = instructions,
     lv_account = pa_execution_account (re_config E)\<rparr>"

definition reconcile_error :: "live_error \<Rightarrow> live_run_error" where
  "reconcile_error e = (case e of LcAccountPolicy \<Rightarrow> LrState | LcVenue v \<Rightarrow> LrVenue v
     | LcEvent d \<Rightarrow> LrEvent d | LcJournal j \<Rightarrow> LrJournal j | other \<Rightarrow> LrCycle other)"

text \<open>The strategy of the run, opened from the control plane's envelope.\<close>

definition open_strategy :: "'w run_env \<Rightarrow> uuid \<Rightarrow> ('w, strategy_bundle) run_step" where
  "open_strategy E run =
     sbind (journal_read (secret (re_A E) (strategy_key (re_P E) run))) (\<lambda>stored.
     let version = (case (case stored of None \<Rightarrow> None | Some v \<Rightarrow> utf8_uuid E v) of
           None \<Rightarrow> pa_agent_version_id (re_config E) | Some u \<Rightarrow> u) in
     sbind (call_api (re_agent_version E version)) (\<lambda>envelope.
     sbind (slift (map_err (\<lambda>_. LrConfiguration) (open_agent_version (re_P E) (re_A E) (re_parse_bundle E)
              envelope (re_device_id E) (re_device_secret E)))) (\<lambda>strategy.
       if sb_model_id strategy \<noteq> pa_model_id (re_config E) then slift (Inl LrConfiguration)
       else sret strategy)))"

text \<open>The stored risk state, or a fresh one from an account that may start.\<close>

definition load_risk :: "'w run_env \<Rightarrow> uuid \<Rightarrow> int \<Rightarrow> ('w, unit) run_step" where
  "load_risk E run now =
     sbind (sget (\<lambda>s. load_live_risk_state (re_P E) (re_A E) (re_parse_risk E) (hs_journal s) run)) (\<lambda>loaded.
     sbind (slift (map_err LrCycle loaded)) (\<lambda>stored.
       case stored of
         Some r \<Rightarrow> sput (\<lambda>s. s\<lparr>hs_risk := r\<rparr>)
       | None \<Rightarrow>
           sbind (call_venue (vn_account (re_venue E) (pa_execution_account (re_config E)))) (\<lambda>account.
           if \<not> valid_initial_venue_account (re_manifest E) account then slift (Inl LrState)
           else sbind (slift (ok_or (u64_try (now sdiv 1000000)) LrState)) (\<lambda>now_ms.
           let r = \<lparr>rk_trading_day = date_of now, rk_day_start_equity = as_equity account,
                 rk_peak_equity = as_equity account, rk_orders_today = 0, rk_last_reconciliation_ms = now_ms\<rparr> in
           sbind (sput (\<lambda>s. s\<lparr>hs_risk := r\<rparr>)) (\<lambda>_.
           sbind (ask (he_nonce (re_E E))) (\<lambda>nonce s.
             case store_live_risk_state (re_P E) (re_A E) (re_C E) nonce (hs_journal s) run r of
               Inl e \<Rightarrow> (Inl (LrCycle e), s) | Inr j \<Rightarrow> (Inr (), s\<lparr>hs_journal := j\<rparr>)))))))"

primrec append_missed_cycles :: "'w run_env \<Rightarrow> uuid \<Rightarrow> u32 \<Rightarrow> nat \<Rightarrow> u64 \<Rightarrow> ('w, u64) run_step" where
  "append_missed_cycles E run cooldown 0 completed = sret completed"
| "append_missed_cycles E run cooldown (Suc n) completed =
     sbind (slift (scheduled_cycle_at (re_manifest E) cooldown completed)) (\<lambda>at.
     sbind (append_missed_cycle E run at ''companion_unavailable_at_boundary'') (\<lambda>_.
     sbind (slift (ok_or (checked_add completed 1) LrState)) (\<lambda>completed'.
       append_missed_cycles E run cooldown n completed')))"

text \<open>The end of a run: its lifecycle event, then its local secrets and the active run are removed.\<close>

definition forget_run :: "'w run_env \<Rightarrow> uuid \<Rightarrow> ('w, unit) run_step" where
  "forget_run E run =
     sbind (journal_write (delete_secret (run_id_key (re_P E) (am_arena_id (re_manifest E))))) (\<lambda>_.
     sbind (journal_write (delete_secret (lease_key (re_P E) (am_arena_id (re_manifest E))))) (\<lambda>_.
     sbind (journal_write (delete_secret (strategy_key (re_P E) run))) (\<lambda>_.
       with_shared (\<lambda>w. w\<lparr>sh_active_run := None\<rparr>))))"

definition stop_on_schedule :: "'w run_env \<Rightarrow> uuid \<Rightarrow> ('w, unit) run_step" where
  "stop_on_schedule E run =
     sbind (append_lifecycle E run ''run_stopped'' ''arena_schedule'') (\<lambda>_. forget_run E run)"

definition resume_after_reconciliation :: "'w run_env \<Rightarrow> uuid \<Rightarrow> ('w, string) run_step" where
  "resume_after_reconciliation E run =
     sbind (journal_read (should_run_after_reconciliation (re_P E) run)) (\<lambda>again.
       if again then
         sbind (gate_step Resume) (\<lambda>ok.
         sbind (read_shared sh_gate) (\<lambda>gate.
         if \<not> ok \<and> \<not> gate_is_running gate then slift (Inl LrState)
         else sbind (append_lifecycle E run ''run_resumed'' ''automatic_after_reconciliation'') (\<lambda>_.
           sret ''running'')))
       else sret ''paused'')"

text \<open>The configuration of the run: the persisted settings win over the configured ones.\<close>

definition run_settings_of :: "'w run_env \<Rightarrow> uuid \<Rightarrow> ('w, u32 \<times> u8) run_step" where
  "run_settings_of E run =
     sbind (journal_read (persisted_settings E run)) (\<lambda>persisted.
       sret (case persisted of
          None \<Rightarrow> (pa_decision_cooldown_seconds (re_config E), pa_isolated_leverage (re_config E))
        | Some st \<Rightarrow> (st_decision_cooldown_seconds st, st_isolated_leverage st)))"

text \<open>From the opened venue to the reconciled state: the completed cycles, those missed included.\<close>

definition reconcile_run :: "'w run_env \<Rightarrow> uuid \<Rightarrow> u32 \<Rightarrow> u8 \<Rightarrow> u64 \<Rightarrow> strategy_bundle \<Rightarrow> int \<Rightarrow> ('w, u64) run_step" where
  "reconcile_run E run cooldown leverage expected strategy now =
     sbind (initialize_event_chain E run) (\<lambda>_.
     sbind (sget (\<lambda>s. completed_cycle_count run (hs_journal s))) (\<lambda>count.
     sbind (slift (ok_or count LrState)) (\<lambda>completed.
     if expected < completed then slift (Inl LrState)
     else
     sbind (load_risk E run now) (\<lambda>_.
     sbind (serr reconcile_error (reconcile_live_state
              (live_of E run leverage (sb_system_instructions strategy)))) (\<lambda>_.
     sbind (ask (he_clock (re_E E))) (\<lambda>later.
     sbind (slift (due_cycle_count (re_manifest E) cooldown later)) (\<lambda>due.
       append_missed_cycles E run cooldown (unat due - unat completed) completed)))))))"

text \<open>
  The reconciled run enters the loop: its stream is opened, the gate restored and the first tick
  timed. \<open>None\<close> when the schedule is over.
\<close>

definition enter_loop :: "'w run_env \<Rightarrow> uuid \<Rightarrow> u32 \<Rightarrow> u8 \<Rightarrow> u64 \<Rightarrow> strategy_bundle \<Rightarrow> u64 \<Rightarrow> ('w, 'w session option) run_step" where
  "enter_loop E run cooldown leverage expected strategy completed =
     (if expected \<le> completed then sbind (stop_on_schedule E run) (\<lambda>_. sret None)
      else
      sbind (call_venue (re_stream E)) (\<lambda>books.
      sbind (resume_after_reconciliation E run) (\<lambda>recorded.
      sbind (with_shared (\<lambda>w. w\<lparr>sh_active_run := Some run\<rparr>)) (\<lambda>_.
      sbind (ask (he_clock (re_E E))) (\<lambda>t.
      sbind (slift (duration_until_cycle (re_manifest E) cooldown completed t)) (\<lambda>_ s.
        (Inr (Some \<lparr>ss_host = s, ss_run = run, ss_completed = completed, ss_expected = expected,
            ss_cooldown = cooldown, ss_leverage = leverage, ss_strategy = strategy,
            ss_books = bt_of_list (map (\<lambda>b. (bk_symbol b, b)) books), ss_recorded = recorded\<rparr>), s)))))))"

definition run_session :: "'w run_env \<Rightarrow> ('w, 'w session option) run_step" where
  "run_session E =
     (let m = re_manifest E; c = re_config E in
      sbind (ask (he_clock (re_E E))) (\<lambda>now.
      if am_ends_at m \<le> now then slift (Inl LrConfiguration)
      else
      sbind (acquire_run E) (\<lambda>run.
      sbind (run_settings_of E run) (\<lambda>(cooldown, leverage).
      sbind (slift (expected_cycle_count m cooldown)) (\<lambda>expected.
      sbind (open_strategy E run) (\<lambda>strategy.
      sbind (if am_mode m = HistoricalBacktest then slift (Inl LrConfiguration)
             else call_venue (re_connect E (am_mode m))) (\<lambda>_.
      sbind (call_venue (re_configure_leverage E (pa_execution_account c) leverage)) (\<lambda>_.
      sbind (reconcile_run E run cooldown leverage expected strategy now) (\<lambda>completed.
        enter_loop E run cooldown leverage expected strategy completed)))))))))"

section \<open>The loop\<close>

datatype session_outcome = Continue | Stopped

type_synonym ('w, 'a) session_step = "('w session, live_run_error, 'a) step"

definition on_host :: "('w, 'a) run_step \<Rightarrow> ('w, 'a) session_step" where
  "on_host m s = (case m (ss_host s) of (r, h) \<Rightarrow> (r, s\<lparr>ss_host := h\<rparr>))"

definition lease_tick :: "'w run_env \<Rightarrow> ('w, session_outcome) session_step" where
  "lease_tick E =
     sbind (on_host (load_secret_string E (lease_key (re_P E) (am_arena_id (re_manifest E))))) (\<lambda>lease.
     sbind (sget ss_run) (\<lambda>run.
     sbind (on_host (call_api (re_renew_lease E run lease))) (\<lambda>_. sret Continue)))"

text \<open>The gate's state is recorded in the journal when it changed; a stop ends the run.\<close>

definition record_gate :: "'w run_env \<Rightarrow> ('w, session_outcome) session_step" where
  "record_gate E =
     sbind (on_host (read_shared (\<lambda>w. gate_label (sh_gate w)))) (\<lambda>current.
     sbind (sget ss_recorded) (\<lambda>recorded.
     sbind (sget ss_run) (\<lambda>run.
     if current = recorded then sret Continue
     else
       let event_type = (if current = ''running'' then ''run_resumed''
                         else if current = ''paused'' then ''run_paused'' else ''run_stopped'') in
       sbind (on_host (append_lifecycle E run event_type ''authenticated_control'')) (\<lambda>_.
       sbind (sput (\<lambda>s. s\<lparr>ss_recorded := current\<rparr>)) (\<lambda>_.
       if current = ''stopped'' then sbind (on_host (forget_run E run)) (\<lambda>_. sret Stopped)
       else sret Continue)))))"

definition settings_event :: "u32 \<Rightarrow> u8 \<Rightarrow> run_settings \<Rightarrow> json" where
  "settings_event cooldown leverage st = JObj
     [(''previous_decision_cooldown_seconds'', jword cooldown),
      (''previous_isolated_leverage'', jword leverage),
      (''decision_cooldown_seconds'', jword (st_decision_cooldown_seconds st)),
      (''isolated_leverage'', jword (st_isolated_leverage st))]"

definition apply_settings :: "'w run_env \<Rightarrow> run_settings \<Rightarrow> ('w, unit) session_step" where
  "apply_settings E st =
     sbind (slift (map_err (\<lambda>_. LrConfiguration) (validate_settings st))) (\<lambda>_.
     sbind (on_host (call_venue (re_configure_leverage E (pa_execution_account (re_config E))
              (st_isolated_leverage st)))) (\<lambda>_.
     sbind (sget (\<lambda>s. (ss_run s, ss_cooldown s, ss_leverage s))) (\<lambda>(run, cooldown, leverage).
     sbind (on_host (run_append E run None ''run_settings_changed'' (settings_event cooldown leverage st))) (\<lambda>_.
     sbind (slift (ok_or (json_to_vec (re_P E) (settings_json st)) LrState)) (\<lambda>bytes.
     sbind (on_host (put_run_secret E (settings_key (re_P E) run) bytes)) (\<lambda>_.
     sbind (on_host (with_shared (\<lambda>w. w\<lparr>sh_pending_settings := None\<rparr>))) (\<lambda>_.
     sbind (sput (\<lambda>s. s\<lparr>ss_cooldown := st_decision_cooldown_seconds st,
                        ss_leverage := st_isolated_leverage st\<rparr>)) (\<lambda>_.
     sbind (slift (expected_cycle_count (re_manifest E) (st_decision_cooldown_seconds st))) (\<lambda>expected.
       sput (\<lambda>s. s\<lparr>ss_expected := expected\<rparr>))))))))))"

definition switch_strategy :: "'w run_env \<Rightarrow> strategy_bundle \<Rightarrow> ('w, unit) session_step" where
  "switch_strategy E b =
     (if sb_model_id b \<noteq> pa_model_id (re_config E) \<or> \<not> is_ok (validate_bundle b)
         \<or> \<not> List.member (am_eligible_models (re_manifest E)) (sb_model_id b)
      then slift (Inl LrConfiguration)
      else
      sbind (sget ss_run) (\<lambda>run.
      sbind (on_host (call_api (re_switch_strategy E run (sb_version_id b)))) (\<lambda>_.
      sbind (on_host (put_run_secret E (strategy_key (re_P E) run) (uuid_str (re_P E) (sb_version_id b)))) (\<lambda>_.
      sbind (sget ss_strategy) (\<lambda>previous.
      sbind (on_host (run_append E run None ''strategy_changed''
               (JObj [(''previous_agent_version_id'', juuid (re_P E) (sb_version_id previous)),
                      (''agent_version_id'', juuid (re_P E) (sb_version_id b))]))) (\<lambda>_.
      sbind (sput (\<lambda>s. s\<lparr>ss_strategy := b\<rparr>)) (\<lambda>_.
      sbind (on_host (with_shared (\<lambda>w. w\<lparr>sh_pending_strategy := None\<rparr>))) (\<lambda>_.
      sbind (on_host (gate_step Resume)) (\<lambda>ok.
        if \<not> ok then slift (Inl LrState) else sret ())))))))))"

definition lifecycle_tick :: "'w run_env \<Rightarrow> ('w, session_outcome) session_step" where
  "lifecycle_tick E =
     sbind (record_gate E) (\<lambda>outcome.
     if outcome = Stopped then sret Stopped
     else
     sbind (on_host (read_shared (\<lambda>w. gate_label (sh_gate w)))) (\<lambda>label.
     if label \<noteq> ''paused'' then sret Continue
     else
     sbind (on_host (read_shared sh_pending_settings)) (\<lambda>settings.
     sbind (case settings of None \<Rightarrow> sret () | Some st \<Rightarrow> apply_settings E st) (\<lambda>_.
     sbind (on_host (read_shared sh_pending_strategy)) (\<lambda>candidate.
     sbind (case candidate of None \<Rightarrow> sret () | Some b \<Rightarrow> switch_strategy E b) (\<lambda>_. sret Continue))))))"

text \<open>The schedule is over when every expected cycle is done, or the arena has ended.\<close>

definition schedule_over :: "'w run_env \<Rightarrow> ('w, bool) session_step" where
  "schedule_over E =
     sbind (sget (\<lambda>s. ss_expected s \<le> ss_completed s)) (\<lambda>completed.
     if completed then sret True
     else sbind (on_host (ask (he_clock (re_E E)))) (\<lambda>now. sret (am_ends_at (re_manifest E) \<le> now)))"

definition count_cycle :: "('w, session_outcome) session_step" where
  "count_cycle =
     sbind (sget (\<lambda>s. checked_add (ss_completed s) 1)) (\<lambda>n.
     sbind (slift (ok_or n LrState)) (\<lambda>n.
     sbind (sput (\<lambda>s. s\<lparr>ss_completed := n\<rparr>)) (\<lambda>_. sret Continue)))"

definition miss_cycle :: "'w run_env \<Rightarrow> ('w, unit) session_step" where
  "miss_cycle E =
     sbind (sget (\<lambda>s. (ss_run s, scheduled_cycle_at (re_manifest E) (ss_cooldown s) (ss_completed s)))) (\<lambda>(run, at).
     sbind (slift at) (\<lambda>at. on_host (append_missed_cycle E run at ''execution_paused_at_boundary'')))"

text \<open>A model failure is survived; every other failure of the cycle ends the session.\<close>

definition decide_cycle :: "'w run_env \<Rightarrow> ('w, unit) session_step" where
  "decide_cycle E =
     sbind (on_host (sbind (ask (re_gateway E)) (\<lambda>r. slift (ok_or r LrGateway)))) (\<lambda>_.
     sbind (sget (\<lambda>s. (live_of E (ss_run s) (ss_leverage s) (sb_system_instructions (ss_strategy s)),
                       map snd (ss_books s)))) (\<lambda>(L, books).
     sbind (on_host (stry (execute_live_cycle L books))) (\<lambda>result.
       case result of
         Inr _ \<Rightarrow> sret ()
       | Inl e \<Rightarrow> (case e of LcRuntime _ \<Rightarrow> sret () | _ \<Rightarrow> slift (Inl (LrCycle e))))))"

definition cycle_tick :: "'w run_env \<Rightarrow> ('w, session_outcome) session_step" where
  "cycle_tick E =
     sbind (schedule_over E) (\<lambda>over.
     if over then sbind (sget ss_run) (\<lambda>run. sbind (on_host (stop_on_schedule E run)) (\<lambda>_. sret Stopped))
     else
     sbind (on_host (read_shared (\<lambda>w. gate_is_running (sh_gate w)))) (\<lambda>running.
     sbind (if running then decide_cycle E else miss_cycle E) (\<lambda>_. count_cycle)))"

text \<open>A broken stream is reconciled by request before it is opened again.\<close>

definition book_tick :: "'w run_env \<Rightarrow> hl_error + book_snapshot \<Rightarrow> ('w, session_outcome) session_step" where
  "book_tick E snapshot =
     (case snapshot of
        Inr b \<Rightarrow> sbind (sput (\<lambda>s. s\<lparr>ss_books := bt_insert (bk_symbol b) b (ss_books s)\<rparr>)) (\<lambda>_. sret Continue)
      | Inl _ \<Rightarrow>
          sbind (on_host (call_venue (re_stream E))) (\<lambda>books.
          sbind (sput (\<lambda>s. s\<lparr>ss_books := bt_of_list (map (\<lambda>b. (bk_symbol b, b)) books)\<rparr>)) (\<lambda>_.
            sret Continue)))"

text \<open>
  One turn of the loop: other tasks may have changed the shared state since the last one, then one
  branch of the \<open>select\<close> runs.
\<close>

datatype session_event =
    LeaseTick
  | LifecycleTick
  | CycleTick
  | BookTick "hl_error + book_snapshot"

fun session_tick :: "'w run_env \<Rightarrow> session_event \<Rightarrow> ('w, session_outcome) session_step" where
  "session_tick E LeaseTick = lease_tick E"
| "session_tick E LifecycleTick = lifecycle_tick E"
| "session_tick E CycleTick = cycle_tick E"
| "session_tick E (BookTick snapshot) = book_tick E snapshot"

definition meanwhile :: "shared \<Rightarrow> 'w session \<Rightarrow> 'w session" where
  "meanwhile sh s = s\<lparr>ss_host := (ss_host s)\<lparr>hs_world :=
     shared.extend sh (shared.more (hs_world (ss_host s)))\<rparr>\<rparr>"

text \<open>A session that is still in its loop after the events.\<close>

inductive session_run :: "'w run_env \<Rightarrow> 'w session \<Rightarrow> (shared \<times> session_event) list \<Rightarrow> 'w session \<Rightarrow> bool"
  for E s where
  entered: "session_run E s [] s"
| turned: "session_run E s es s' \<Longrightarrow> session_tick E e (meanwhile sh s') = (Inr Continue, s'')
    \<Longrightarrow> session_run E s (es @ [(sh, e)]) s''"

section \<open>What a turn changes\<close>

lemma on_host_cases:
  assumes "on_host m s = (r, s')"
  obtains h where "m (ss_host s) = (r, h)" and "s' = s\<lparr>ss_host := h\<rparr>"
  using assms by (auto simp: on_host_def split: prod.splits)

text \<open>Every step but the counting of a cycle keeps the run and the completed cycles.\<close>

definition counted_rel :: "'w session \<Rightarrow> 'w session \<Rightarrow> bool" where
  "counted_rel s s' \<longleftrightarrow> ss_run s' = ss_run s \<and> ss_completed s' = ss_completed s"

interpretation counted: step_relation counted_rel
  by unfold_locales (auto simp: counted_rel_def)

lemma counted_on_host: "keeps counted_rel (on_host m)"
  by (auto intro!: keepsI elim!: on_host_cases simp: counted_rel_def)

lemma counted_put:
  "keeps counted_rel (sput (\<lambda>s. s\<lparr>ss_recorded := x s\<rparr>))"
  "keeps counted_rel (sput (\<lambda>s. s\<lparr>ss_cooldown := y s, ss_leverage := z s\<rparr>))"
  "keeps counted_rel (sput (\<lambda>s. s\<lparr>ss_expected := w s\<rparr>))"
  "keeps counted_rel (sput (\<lambda>s. s\<lparr>ss_strategy := b s\<rparr>))"
  "keeps counted_rel (sput (\<lambda>s. s\<lparr>ss_books := bs s\<rparr>))"
  by (auto intro!: keepsI simp: sput_def counted_rel_def)

lemmas counted_steps = counted.keeps_intros counted_on_host counted_put

lemma counted_lease: "keeps counted_rel (lease_tick E)"
  unfolding lease_tick_def by (intro counted_steps)

lemma counted_record_gate: "keeps counted_rel (record_gate E)"
  unfolding record_gate_def Let_def by (intro counted_steps)

lemma counted_settings: "keeps counted_rel (apply_settings E st)"
  unfolding apply_settings_def prod.case_eq_if by (intro counted_steps)

lemma counted_strategy: "keeps counted_rel (switch_strategy E b)"
  unfolding switch_strategy_def by (intro counted_steps)

lemma counted_lifecycle: "keeps counted_rel (lifecycle_tick E)"
  unfolding lifecycle_tick_def
  by (intro counted_steps counted_record_gate; split option.split; intro conjI allI impI counted_settings
      counted_strategy counted_steps)

lemma counted_book: "keeps counted_rel (book_tick E snapshot)"
  unfolding book_tick_def by (split sum.split, intro conjI allI impI counted_steps)

lemma counted_miss: "keeps counted_rel (miss_cycle E)"
  unfolding miss_cycle_def prod.case_eq_if by (intro counted_steps)

lemma counted_decide: "keeps counted_rel (decide_cycle E)"
  unfolding decide_cycle_def prod.case_eq_if
  by (intro counted_steps; split sum.split; intro conjI allI impI counted_steps; split live_error.split;
      intro conjI allI impI counted_steps)

lemma counted_over: "keeps counted_rel (schedule_over E)"
  unfolding schedule_over_def by (intro counted_steps)

text \<open>The expected cycles are those of the current cooldown.\<close>

definition on_schedule :: "'w run_env \<Rightarrow> 'w session \<Rightarrow> bool" where
  "on_schedule E s \<longleftrightarrow> expected_cycle_count (re_manifest E) (ss_cooldown s) = Inr (ss_expected s)"

definition schedule_rel :: "'w session \<Rightarrow> 'w session \<Rightarrow> bool" where
  "schedule_rel s s' \<longleftrightarrow> ss_cooldown s' = ss_cooldown s \<and> ss_expected s' = ss_expected s"

interpretation sched: step_relation schedule_rel
  by unfold_locales (auto simp: schedule_rel_def)

lemma sched_on_host: "keeps schedule_rel (on_host m)"
  by (auto intro!: keepsI elim!: on_host_cases simp: schedule_rel_def)

lemma sched_put:
  "keeps schedule_rel (sput (\<lambda>s. s\<lparr>ss_recorded := x s\<rparr>))"
  "keeps schedule_rel (sput (\<lambda>s. s\<lparr>ss_completed := w s\<rparr>))"
  "keeps schedule_rel (sput (\<lambda>s. s\<lparr>ss_strategy := b s\<rparr>))"
  "keeps schedule_rel (sput (\<lambda>s. s\<lparr>ss_books := bs s\<rparr>))"
  by (auto intro!: keepsI simp: sput_def schedule_rel_def)

lemmas sched_steps = sched.keeps_intros sched_on_host sched_put

lemma sched_record_gate: "keeps schedule_rel (record_gate E)"
  unfolding record_gate_def Let_def by (intro sched_steps)

lemma sched_strategy: "keeps schedule_rel (switch_strategy E b)"
  unfolding switch_strategy_def by (intro sched_steps)

lemma sched_decide: "keeps schedule_rel (decide_cycle E)"
  unfolding decide_cycle_def prod.case_eq_if
  by (intro sched_steps; split sum.split; intro conjI allI impI sched_steps; split live_error.split;
      intro conjI allI impI sched_steps)

lemma sched_cycle: "keeps schedule_rel (cycle_tick E)"
  unfolding cycle_tick_def schedule_over_def miss_cycle_def count_cycle_def prod.case_eq_if
  by (intro sched_steps sched_decide)

lemma sched_lease: "keeps schedule_rel (lease_tick E)"
  unfolding lease_tick_def by (intro sched_steps)

lemma sched_book: "keeps schedule_rel (book_tick E snapshot)"
  unfolding book_tick_def by (split sum.split, intro conjI allI impI sched_steps)

lemma apply_settings_schedule:
  assumes "apply_settings E st s = (Inr x, s')"
  shows "ss_cooldown s' = st_decision_cooldown_seconds st" and "ss_leverage s' = st_isolated_leverage st"
    and "on_schedule E s'" and "validate_settings st = Inr ()"
  using assms
  by (auto simp: apply_settings_def on_schedule_def slift_def sget_def sput_def map_err_def
      elim!: sbind_InrE on_host_cases split: sum.splits)

lemma on_schedule_rel: "schedule_rel s s' \<Longrightarrow> on_schedule E s \<Longrightarrow> on_schedule E s'"
  by (simp add: schedule_rel_def on_schedule_def)

section \<open>The loop ends\<close>

definition scheduled :: "'w run_env \<Rightarrow> 'w session \<Rightarrow> bool" where
  "scheduled E s \<longleftrightarrow> on_schedule E s \<and> 60 \<le> uint (ss_cooldown s)"

definition arena_minutes :: "arena_manifest \<Rightarrow> nat" where
  "arena_minutes m = nat ((am_ends_at m - am_starts_at m) div 1000000000 div 60)"

lemma scheduled_rel: "schedule_rel s s' \<Longrightarrow> scheduled E s \<Longrightarrow> scheduled E s'"
  using on_schedule_rel by (auto simp: scheduled_def schedule_rel_def)

lemma scheduled_expected:
  assumes "scheduled E s"
  shows "unat (ss_expected s) \<le> arena_minutes (re_manifest E)"
proof -
  let ?w = "(am_ends_at (re_manifest E) - am_starts_at (re_manifest E)) div 1000000000"
  note e = expected_cycle_count_Inr [OF assms [unfolded scheduled_def on_schedule_def, THEN conjunct1]]
  have "?w div uint (ss_cooldown s) \<le> ?w div 60"
    using assms e(4) by (intro zdiv_mono2) (simp_all add: scheduled_def pos_imp_zdiv_nonneg_iff)
  then have "nat (uint (ss_expected s)) \<le> nat (?w div 60)" unfolding e(3) by (rule nat_mono)
  then show ?thesis by (simp add: arena_minutes_def)
qed

lemma lifecycle_tick_scheduled:
  assumes "lifecycle_tick E s = (Inr x, s')" and "scheduled E s"
  shows "scheduled E s'"
proof -
  have settings: "scheduled E u'" if "apply_settings E st u = (Inr (), u')" for st u u'
    using apply_settings_schedule [OF that] by (auto simp: scheduled_def validate_settings_Inr word_le_def)
  have local: "scheduled E u'" if "on_host m u = (r, u')" "scheduled E u" for m r u u'
    using scheduled_rel [OF keepsD [OF sched_on_host that(1)] that(2)] .
  from assms show ?thesis
    unfolding lifecycle_tick_def
    by (auto simp: sret_def elim!: sbind_InrE split: if_splits option.splits
        dest!: scheduled_rel [OF keepsD [OF sched_record_gate]] scheduled_rel [OF keepsD [OF sched_strategy]]
          local settings)
qed

lemma meanwhile_fields [simp]:
  "ss_run (meanwhile sh s) = ss_run s" "ss_completed (meanwhile sh s) = ss_completed s"
  "ss_expected (meanwhile sh s) = ss_expected s" "ss_cooldown (meanwhile sh s) = ss_cooldown s"
  "ss_recorded (meanwhile sh s) = ss_recorded s"
  "hs_journal (ss_host (meanwhile sh s)) = hs_journal (ss_host s)"
  by (simp_all add: meanwhile_def)

lemma scheduled_meanwhile [simp]: "scheduled E (meanwhile sh s) = scheduled E s"
  by (simp add: scheduled_def on_schedule_def)

lemma unat_checked_add: "checked_add a b = Some c \<Longrightarrow> unat c = unat a + unat b"
  by (auto simp: checked_add_def unat_word_ariths split: if_splits)

lemma cycle_tick_counts:
  assumes "cycle_tick E s = (Inr Continue, s')"
  shows "ss_run s' = ss_run s" and "unat (ss_completed s') = unat (ss_completed s) + 1"
    and "ss_completed s < ss_expected s"
proof -
  from assms obtain over s1 s2 n where over: "schedule_over E s = (Inr over, s1)" "\<not> over"
    and mid: "counted_rel s1 s2" and n: "checked_add (ss_completed s2) 1 = Some n"
    and s': "s' = s2\<lparr>ss_completed := n\<rparr>"
    unfolding cycle_tick_def count_cycle_def
    by (auto simp: sget_def slift_def sput_def sret_def counted_rel_def elim!: sbind_InrE on_host_cases split: if_splits
        dest!: keepsD [OF counted_decide] keepsD [OF counted_miss])
  have start: "counted_rel s s1" using keepsD [OF counted_over over(1)] .
  show "ss_completed s < ss_expected s"
    using over by (auto simp: schedule_over_def sget_def sret_def elim!: sbind_InrE split: if_splits)
  show "ss_run s' = ss_run s" "unat (ss_completed s') = unat (ss_completed s) + 1"
    using start mid unat_checked_add [OF n] by (simp_all add: counted_rel_def s')
qed

lemma session_tick_counts:
  assumes "session_tick E e s = (Inr x, s')" and "e \<noteq> CycleTick"
  shows "counted_rel s s'"
  using assms by (cases e)
    (auto dest: keepsD [OF counted_lease] keepsD [OF counted_lifecycle] keepsD [OF counted_book])

lemma session_tick_scheduled:
  assumes "session_tick E e s = (Inr x, s')" and "scheduled E s"
  shows "scheduled E s'"
  using assms by (cases e)
    (auto dest: scheduled_rel [OF keepsD [OF sched_lease]] scheduled_rel [OF keepsD [OF sched_book]]
       scheduled_rel [OF keepsD [OF sched_cycle]] lifecycle_tick_scheduled)

definition cycle_ticks :: "(shared \<times> session_event) list \<Rightarrow> nat" where
  "cycle_ticks es = length (filter (\<lambda>x. snd x = CycleTick) es)"

lemma session_run_counts:
  assumes "session_run E s es s'" and "scheduled E s"
  shows "scheduled E s' \<and> ss_run s' = ss_run s \<and> unat (ss_completed s') = unat (ss_completed s) + cycle_ticks es
    \<and> (cycle_ticks es = 0 \<or> unat (ss_completed s') \<le> arena_minutes (re_manifest E))"
  using assms
proof (induction rule: session_run.induct)
  case entered
  then show ?case by (simp add: cycle_ticks_def)
next
  case (turned es s' e sh s'')
  then have ih: "scheduled E s'" "ss_run s' = ss_run s" "unat (ss_completed s') = unat (ss_completed s) + cycle_ticks es"
    "cycle_ticks es = 0 \<or> unat (ss_completed s') \<le> arena_minutes (re_manifest E)"
    by auto
  have sched: "scheduled E s''" using session_tick_scheduled [OF turned.hyps(2)] ih(1) by simp
  show ?case
  proof (cases "e = CycleTick")
    case True
    then have tick: "cycle_tick E (meanwhile sh s') = (Inr Continue, s'')" using turned.hyps(2) by simp
    note c = cycle_tick_counts [OF tick]
    have "unat (ss_completed s') < unat (ss_expected s')" using c(3) by (simp add: word_less_nat_alt)
    then have "unat (ss_completed s'') \<le> arena_minutes (re_manifest E)"
      using c(2) scheduled_expected [OF ih(1)] by simp
    then show ?thesis using sched ih c(1,2) True by (simp add: cycle_ticks_def)
  next
    case False
    then show ?thesis using session_tick_counts [OF turned.hyps(2) False] sched ih
      by (simp add: counted_rel_def cycle_ticks_def)
  qed
qed

text \<open>
  C9. The loop of a session ends: however the gate, the settings and the books change in between,
  a session whose cooldown is at least a minute stays in its loop for no more cycle ticks than the
  arena has minutes left beyond the completed cycles; the next tick stops it or fails.
\<close>

theorem session_loop_ends:
  assumes "session_run E s es s'"
    and "expected_cycle_count (re_manifest E) (ss_cooldown s) = Inr (ss_expected s)" and "60 \<le> uint (ss_cooldown s)"
  shows "cycle_ticks es \<le> arena_minutes (re_manifest E) - unat (ss_completed s)
    \<and> unat (ss_completed s') = unat (ss_completed s) + cycle_ticks es"
proof -
  have "scheduled E s" using assms(2,3) by (simp add: scheduled_def on_schedule_def)
  from session_run_counts [OF assms(1) this] show ?thesis by auto
qed

end
