(* ===== verification/LiveTrial.thy ===== *)
theory LiveTrial
  imports LiveCycle Manifests
begin

text \<open>
  A concrete live cycle that trades: a small account, one book, a model that proposes one order
  and a venue that accepts it. The cycle of LiveCycle is evaluated on it step by step, with a logic
  of steps that succeed (\<open>toy_ok\<close>), and shown to submit exactly that order. The
  theorems of LiveCycle are applied to this run.
\<close>

definition toy_account :: account_snapshot where
  "toy_account = \<lparr>as_venue_time_ms = 1000, as_equity = 999000000, as_withdrawable = 999000000,
     as_positions = []\<rparr>"

definition toy_snapshot :: market_snapshot where
  "toy_snapshot = \<lparr>ms_market = sample_market, ms_book = \<lparr>bk_symbol = ''ETH'', bk_venue_time_ms = 1000,
     bk_bids = [], bk_asks = [\<lparr>bl_price = ''2000'', bl_size = ''1'', bl_order_count = 1\<rparr>]\<rparr>\<rparr>"

definition toy_venue :: "nat live_venue" where
  "toy_venue = \<lparr>vn_account = (\<lambda>a w. (Inr toy_account, w)),
     vn_markets = (\<lambda>books now w. (Inr [(''ETH'', toy_snapshot)], w)),
     vn_fresh_market = (\<lambda>symbol now w. (Inr toy_snapshot, w)), vn_candles = (\<lambda>a b w. (Inr JNull, w)),
     vn_submit = (\<lambda>d c w. (Inr \<lparr>vs_client_order_id = c, vs_statuses = JNull\<rparr>, w)),
     vn_fills = (\<lambda>a b c w. (Inr JNull, w)), vn_funding = (\<lambda>a b c w. (Inr JNull, w))\<rparr>"

definition toy_live :: "bool \<Rightarrow> nat live" where
  "toy_live permitted = \<lparr>lv_P = counting_prims, lv_A = toy_aead, lv_E = toy_env,
     lv_C = \<lparr>lc_time = JInt, lc_date = JInt, lc_simple = (\<lambda>u. ''c'')\<rparr>, lv_venue = toy_venue,
     lv_infer = toy_infer [] (Some sample_proposal), lv_gate = (\<lambda>w. (permitted, w)),
     lv_signing_key = ''seed'', lv_manifest = sample_manifest, lv_run_id = 2,
     lv_model_id = ''crow-qwen3-5-27b'', lv_leverage = 1, lv_strategy = [105], lv_account = ''0x''\<rparr>"

definition toy_risk :: "u16 \<Rightarrow> live_risk_state" where
  "toy_risk n = \<lparr>rk_trading_day = 0, rk_day_start_equity = 999000000, rk_peak_equity = 999000000,
     rk_orders_today = n, rk_last_reconciliation_ms = 0\<rparr>"

definition toy_live_host :: "nat live_host" where
  "toy_live_host = \<lparr>hs_journal = open_journal ''key'', hs_world = 3, hs_trace = [], hs_risk = toy_risk 0\<rparr>"

lemma toy_live_fields [simp]:
  "lv_P (toy_live b) = counting_prims" "lv_A (toy_live b) = toy_aead" "lv_E (toy_live b) = toy_env"
  "lv_venue (toy_live b) = toy_venue" "lv_gate (toy_live b) w = (b, w)"
  "writer_of (toy_live b) = toy_writer" "lc_simple (lv_C (toy_live b)) u = ''c''"
  "lv_leverage (toy_live b) = 1" "lv_run_id (toy_live b) = 2" "lv_manifest (toy_live b) = sample_manifest"
  by (simp_all add: toy_live_def writer_of_def toy_writer_def sample_manifest_def)

lemma toy_venue_fields [simp]:
  "vn_account toy_venue a w = (Inr toy_account, w)" "vn_markets toy_venue bs n w = (Inr [(''ETH'', toy_snapshot)], w)"
  "vn_fresh_market toy_venue sy n w = (Inr toy_snapshot, w)" "vn_candles toy_venue m n w = (Inr JNull, w)"
  "vn_submit toy_venue d c w = (Inr \<lparr>vs_client_order_id = c, vs_statuses = JNull\<rparr>, w)"
  "vn_fills toy_venue a m n w = (Inr JNull, w)" "vn_funding toy_venue a m n w = (Inr JNull, w)"
  by (simp_all add: toy_venue_def)

text \<open>A step that succeeds from every toy state with room for \<open>k\<close> more ids.\<close>

definition toy_ok ::
    "nat \<Rightarrow> live_risk_state \<Rightarrow> live_risk_state \<Rightarrow> effect set \<Rightarrow> ('a \<Rightarrow> bool) \<Rightarrow> (nat, 'a) live_step \<Rightarrow> bool" where
  "toy_ok k r r' efs R m \<longleftrightarrow> (\<forall>s. toy_state s \<longrightarrow> hs_risk s = r \<longrightarrow> hs_world s + k < 1000 \<longrightarrow>
     (\<exists>x s' t. m s = (Inr x, s') \<and> R x \<and> toy_state s' \<and> hs_risk s' = r' \<and> hs_world s' \<le> hs_world s + k
        \<and> hs_trace s' = hs_trace s @ t \<and> efs \<subseteq> set t))"

lemma toy_okI:
  assumes "\<And>s. toy_state s \<Longrightarrow> hs_risk s = r \<Longrightarrow> hs_world s + k < 1000 \<Longrightarrow>
     \<exists>x s' t. m s = (Inr x, s') \<and> R x \<and> toy_state s' \<and> hs_risk s' = r' \<and> hs_world s' \<le> hs_world s + k
        \<and> hs_trace s' = hs_trace s @ t \<and> efs \<subseteq> set t"
  shows "toy_ok k r r' efs R m"
  using assms by (simp add: toy_ok_def)

lemma toy_bind:
  assumes "toy_ok k r r1 efs R m" and "\<And>x. R x \<Longrightarrow> toy_ok k' r1 r2 efs' R' (f x)"
  shows "toy_ok (k + k') r r2 (efs \<union> efs') R' (sbind m f)"
proof (rule toy_okI)
  fix s :: "nat live_host" assume s: "toy_state s" "hs_risk s = r" "hs_world s + (k + k') < 1000"
  then have room: "hs_world s + k < 1000" by simp
  from assms(1) [unfolded toy_ok_def, rule_format, OF s(1,2) this]
  obtain x s1 t where one: "m s = (Inr x, s1)" "R x" "toy_state s1" "hs_risk s1 = r1"
    "hs_world s1 \<le> hs_world s + k" "hs_trace s1 = hs_trace s @ t" "efs \<subseteq> set t"
    by blast
  have "hs_world s1 + k' < 1000" using one(5) s(3) by simp
  from assms(2) [OF one(2), unfolded toy_ok_def, rule_format, OF one(3,4) this]
  obtain y s2 u where "f x s1 = (Inr y, s2)" "R' y" "toy_state s2" "hs_risk s2 = r2"
    "hs_world s2 \<le> hs_world s1 + k'" "hs_trace s2 = hs_trace s1 @ u" "efs' \<subseteq> set u"
    by blast
  with one show "\<exists>y s' t. sbind m f s = (Inr y, s') \<and> R' y \<and> toy_state s' \<and> hs_risk s' = r2
     \<and> hs_world s' \<le> hs_world s + (k + k') \<and> hs_trace s' = hs_trace s @ t \<and> efs \<union> efs' \<subseteq> set t"
    by (intro exI [of _ y] exI [of _ s2] exI [of _ "t @ u"]) (auto simp: sbind_def)
qed

lemma toy_mono:
  assumes "toy_ok k r r' efs R m" and "k \<le> k'" and "efs' \<subseteq> efs" and "\<And>x. R x \<Longrightarrow> R' x"
  shows "toy_ok k' r r' efs' R' m"
proof (rule toy_okI)
  fix s :: "nat live_host" assume s: "toy_state s" "hs_risk s = r" "hs_world s + k' < 1000"
  then have room: "hs_world s + k < 1000" using assms(2) by simp
  from assms(1) [unfolded toy_ok_def, rule_format, OF s(1,2) room] obtain x s' t where "m s = (Inr x, s')" "R x" "toy_state s'" "hs_risk s' = r'"
    "hs_world s' \<le> hs_world s + k" "hs_trace s' = hs_trace s @ t" "efs \<subseteq> set t"
    by blast
  then show "\<exists>x s' t. m s = (Inr x, s') \<and> R' x \<and> toy_state s' \<and> hs_risk s' = r'
      \<and> hs_world s' \<le> hs_world s + k' \<and> hs_trace s' = hs_trace s @ t \<and> efs' \<subseteq> set t"
    using assms(2-4) by (intro exI [of _ x] exI [of _ s'] exI [of _ t]) auto
qed

text \<open>Steps that change at most the trace and the risk state.\<close>

lemma toy_local:
  assumes "\<And>s. hs_risk s = r \<Longrightarrow> m s = (Inr x, s\<lparr>hs_trace := hs_trace s @ t, hs_risk := r'\<rparr>)" and "R x" and "efs \<subseteq> set t"
  shows "toy_ok 0 r r' efs R m"
  using assms by (intro toy_okI) (auto simp: toy_state_def)

lemma toy_ret: "R x \<Longrightarrow> toy_ok 0 r r {} R (sret x)"
  by (rule toy_local [where t = "[]"]) (auto simp: sret_def)

lemma toy_lift: "m = Inr x \<Longrightarrow> R x \<Longrightarrow> toy_ok 0 r r {} R (slift m)"
  by (rule toy_local [where t = "[]"]) (auto simp: slift_def)

lemma toy_get: "toy_ok 0 r r {} (\<lambda>x. x = r) (sget hs_risk)"
  by (rule toy_local [where t = "[]"]) (auto simp: sget_def)

lemma toy_get_map: "toy_ok 0 r r {} (\<lambda>x. x = h r) (sget (\<lambda>s. h (hs_risk s)))"
  by (rule toy_local [where t = "[]"]) (auto simp: sget_def)

lemma toy_logged: "toy_ok 0 r r {ef} (\<lambda>_. True) (logged ef)"
  by (rule toy_local [where t = "[ef]"]) (auto simp: logged_apply)

lemma toy_query: "(\<And>w. f w = (Inr v, w)) \<Longrightarrow> toy_ok 0 r r {} (\<lambda>x. x = v) (query name f)"
  by (rule toy_local [where t = "[EfQuery name]"]) (auto simp: query_def logged_bind ask_bind slift_def)

lemma toy_clock: "toy_ok 0 r r {} (\<lambda>x. x = 0) (clock_ms (toy_live b))"
  by (rule toy_local [where t = "[]"])
    (auto simp: clock_ms_def ask_bind slift_def unix_milliseconds_def u64_try_def)

lemma toy_with_risk: "toy_ok 0 r (f r) {} (\<lambda>_. True) (with_risk f)"
  by (rule toy_local [where t = "[]"]) (auto simp: with_risk_def sput_def)

lemma toy_uuid: "toy_ok 1 r r {} (\<lambda>_. True) (ask (he_uuid toy_env))"
  by (rule toy_okI) (auto simp: ask_def toy_state_def intro!: less_SucI)

lemma toy_live_append: "toy_ok 1 r r {} (\<lambda>_. True) (live_append (toy_live b) cycle ty payload pv)"
proof (rule toy_okI)
  fix s :: "nat live_host" assume s: "toy_state s" "hs_risk s = r" "hs_world s + 1 < 1000"
  then have room: "Suc (hs_world s) < 1000" by simp
  obtain n prev s' where "append_durable counting_prims toy_aead toy_env toy_writer cycle ty payload pv s
      = (Inr (with_server_receipt (toy_signed cycle ty payload n prev (hs_world s)) ''r''), s')"
    and "toy_state s'" "hs_world s' = Suc (hs_world s)" "host.more s' = host.more s"
    and "hs_trace s' = hs_trace s @ [EfSink (toy_signed cycle ty payload n prev (hs_world s)),
           EfReceipt (of_nat (hs_world s)) ''r'']"
    by (rule toy_append [OF s(1) room])
  then show "\<exists>x s' t. live_append (toy_live b) cycle ty payload pv s = (Inr x, s') \<and> True \<and> toy_state s'
      \<and> hs_risk s' = r \<and> hs_world s' \<le> hs_world s + 1 \<and> hs_trace s' = hs_trace s @ t \<and> {} \<subseteq> set t"
    using same_risk [of s' s] s(2) by (simp add: live_append_def serr_def)
qed

lemma toy_store: "toy_ok 0 r r {} (\<lambda>_. True) (store_risk (toy_live b))"
proof (rule toy_okI)
  fix s :: "nat live_host" assume s: "toy_state s" "hs_risk s = r" "hs_world s + 0 < 1000"
  obtain bytes where bytes: "counting_json (risk_json (lv_C (toy_live b)) r) = Some bytes"
    using counting_json_total by blast
  let ?key = "risk_key counting_prims 2"
  obtain c where c: "encrypt_bundle toy_aead (jn_key (hs_journal s)) toy_nonce bytes ?key = Inr c"
    by (simp add: encrypt_bundle_def toy_aead_def)
  let ?j = "(hs_journal s)\<lparr>jn_secrets := bt_insert ?key c (jn_secrets (hs_journal s))\<rparr>"
  let ?s = "s\<lparr>hs_journal := ?j, hs_trace := hs_trace s @ [EfStore ?key bytes]\<rparr>"
  have "json_to_vec counting_prims = counting_json" by (simp add: counting_prims_def)
  moreover have "?key \<noteq> []" by (simp add: risk_key_def)
  ultimately have "store_risk (toy_live b) s = (Inr (), ?s)"
    using bytes c s(2)
    by (simp add: store_risk_def put_local_secret_def get_bind slift_def serr_def ask_bind sbind_def
        on_journal_def put_secret_def logged_apply ask_def sget_def)
  moreover have "toy_state ?s"
    using s(1) by (simp add: toy_state_def envelopes_def journal_inv_def run_rows_def)
  ultimately show "\<exists>x s' t. store_risk (toy_live b) s = (Inr x, s') \<and> True \<and> toy_state s'
      \<and> hs_risk s' = r \<and> hs_world s' \<le> hs_world s + 0 \<and> hs_trace s' = hs_trace s @ t \<and> {} \<subseteq> set t"
    using s(2) by (intro exI [of _ "()"] exI [of _ ?s] exI [of _ "[EfStore ?key bytes]"]) simp
qed

lemma toy_checked: "toy_ok 0 r r {} (\<lambda>x. x = toy_account) (checked_account (toy_live b))"
  unfolding checked_account_def
  by (rule toy_mono [OF toy_bind [OF toy_query [where v = toy_account]
        toy_bind [where R = "\<lambda>_. True", OF toy_lift toy_ret [where R = "\<lambda>x. x = toy_account"]]]])
    (auto simp: validate_account_policy_def toy_account_def)

definition toy_ob :: observation where
  "toy_ob = \<lparr>ob_cycle_id = 3, ob_now = 0, ob_now_ms = 0, ob_account = toy_account,
     ob_markets = [(''ETH'', toy_snapshot)],
     ob_portfolios = [(''ETH'', portfolio_of (toy_risk 0) toy_account ''ETH'')], ob_candles = JNull\<rparr>"

lemma toy_day: "update_risk_state toy_account 0 (toy_risk n) = toy_risk n"
  by (simp add: update_risk_state_def toy_risk_def toy_account_def Let_def)

lemma toy_weaken:
  "toy_ok k r r' efs R m \<Longrightarrow> k \<le> k' \<Longrightarrow> efs' \<subseteq> efs \<Longrightarrow> toy_ok k' r r' efs' R m"
  by (rule toy_mono)

lemma toy_change: "f r = r' \<Longrightarrow> toy_ok 0 r r' {} (\<lambda>_. True) (with_risk f)"
  using toy_with_risk by metis

lemma toy_fresh: "toy_ok 0 (toy_risk n) (toy_risk n) {} (\<lambda>x. x = toy_account) (fresh_account (toy_live b) 0)"
  unfolding fresh_account_def
  by (rule toy_weaken, rule toy_bind [OF toy_checked], rule toy_bind [OF toy_change], simp add: toy_day,
      rule toy_ret) simp_all

lemma toy_observe:
  obtains s where "observe (toy_live b) [] toy_live_host = (Inr toy_ob, s)" and "toy_state s"
    and "hs_risk s = toy_risk 0" and "hs_world s \<le> 4"
proof -
  let ?s = "toy_live_host\<lparr>hs_world := 4\<rparr>"
  have state: "toy_state ?s"
    by (simp add: toy_state_def toy_live_host_def) (simp add: open_journal_def envelopes_def)
  have risk: "hs_risk ?s = toy_risk 0" by (simp add: toy_live_host_def)
  have "toy_ok 0 (toy_risk 0) (toy_risk 0) {} (\<lambda>x. x = toy_ob)
     (sbind (fresh_account (toy_live b) 0) (\<lambda>account.
     sbind (query ''market_snapshots'' (vn_markets toy_venue [] 0)) (\<lambda>snapshots.
     sbind (sget (\<lambda>s. map (\<lambda>(symbol, _). (symbol, portfolio_of (hs_risk s) account symbol)) snapshots)) (\<lambda>portfolios.
     sbind (query ''recent_candles'' (vn_candles toy_venue 0 0)) (\<lambda>candles.
       sret \<lparr>ob_cycle_id = 3, ob_now = 0, ob_now_ms = 0, ob_account = account,
            ob_markets = snapshots, ob_portfolios = portfolios, ob_candles = candles\<rparr>)))))"
    (is "toy_ok _ _ _ _ _ ?m")
    by (rule toy_weaken, rule toy_bind [OF toy_fresh], rule toy_bind [OF toy_query [where v = "[(''ETH'', toy_snapshot)]"]],
        simp, rule toy_bind, rule toy_get_map, rule toy_bind [OF toy_query [where v = JNull]], simp,
        rule toy_ret) (simp_all add: toy_ob_def)
  from this [unfolded toy_ok_def, rule_format, OF state risk]
  obtain s' where s': "?m ?s = (Inr toy_ob, s')" "toy_state s'" "hs_risk s' = toy_risk 0" "hs_world s' \<le> 4"
    by (auto simp: toy_live_host_def)
  have "observe (toy_live b) [] toy_live_host = ?m ?s"
    by (simp add: observe_def ask_bind toy_live_host_def unix_milliseconds_def u64_try_def
        slift_def sbind_def [of "slift _"] date_of_def sat_sub_def)
  with s' show ?thesis by (intro that [of s']) simp_all
qed

definition toy_context :: policy_context where
  "toy_context = \<lparr>pc_rules = default_rules, pc_market = sample_market,
     pc_portfolio = \<lparr>equity = 999000000, available_collateral = 999000000,
       trading_day_start_equity = 999000000, peak_equity = 999000000, symbol_position = 0,
       orders_today = 0\<rparr>,
     pc_starting_capital = 1000000000, pc_quantity_reference_price = Some 2000000000,
     pc_isolated_leverage = 1\<rparr>"

lemma toy_accepted: "evaluate_proposal sample_proposal toy_context = Inr sample_order"
  by code_simp

lemma toy_verdict:
  "dispatch_verdict (toy_live b) (toy_risk 0) sample_proposal toy_account toy_snapshot = Inr (Inr sample_order)"
proof -
  have "marketable_proposal sample_proposal [(p_symbol sample_proposal, toy_snapshot)] = Inr sample_proposal"
    by (simp add: marketable_proposal_def toy_snapshot_def marketable_limit_price_def opposing_levels_def
        sample_proposal_def sample_prices within_market_slippage_def)
  moreover have "dispatch_context (toy_live b) (toy_risk 0) sample_proposal toy_account toy_snapshot = Inr toy_context"
    by (simp add: dispatch_context_def toy_context_def toy_snapshot_def opposing_top_price_def
        opposing_levels_def sample_proposal_def sample_prices portfolio_of_def signed_position_def
        toy_risk_def toy_account_def sample_manifest_def DEFAULT_STARTING_CAPITAL_MICRO_USDC_def
        i64_try_def is_i64_def)
  ultimately show ?thesis by (simp add: dispatch_verdict_def toy_accepted)
qed

lemma toy_model:
  "\<exists>out. (\<forall>w. execute_cycle counting_prims (toy_infer [] (Some sample_proposal)) tools
      (cycle_context_of (toy_live b) toy_ob r) w = (Inr out, Suc w))
    \<and> co_proposal out = Some sample_proposal \<and> length (co_receipts out) = 1"
proof -
  let ?cx = "cycle_context_of (toy_live b) toy_ob r" and ?infer = "toy_infer [] (Some sample_proposal)"
  have cx: "cx_manifest ?cx = sample_manifest" "cx_strategy_instructions ?cx = [105]"
    "cx_model_id ?cx = ''crow-qwen3-5-27b''" "cx_run_id ?cx = 2" "cx_cycle_id ?cx = 3"
    "cx_markets ?cx = [(''ETH'', sample_market)]"
    "cx_portfolios ?cx = [(''ETH'', portfolio_of (toy_risk 0) toy_account ''ETH'')]"
    by (simp_all add: cycle_context_of_def toy_live_def toy_ob_def toy_snapshot_def)
  have valid: "validate_receipt counting_prims (turn_request_of ?cx rs)
      \<lparr>it_output = \<lparr>mt_tool_calls = [], mt_proposal = Some sample_proposal, mt_decision_summary = words\<rparr>,
       it_receipt = toy_receipt\<rparr> = Inr ()" for rs words
    by (simp add: validate_receipt_def canonical_json_def counting_prims_def toy_ids_def toy_prims_def
        turn_request_of_def cx toy_receipt_def counting_json_def turn_json_def tool_calls_json_def
        bt_of_list_def sample_manifest_def)
  have order: "cycle_order ?cx sample_proposal = Inr (evaluate_proposal sample_proposal
       (cycle_policy_context ?cx sample_market (portfolio_of (toy_risk 0) toy_account ''ETH'')))"
    by (simp add: cycle_order_def cx sample_proposal_def)
  have "execute_cycle counting_prims ?infer tools ?cx w
      = cycle_rounds counting_prims ?infer tools ?cx MAX_TOOL_ROUNDS [] [] w" for w
    using sample_manifest_valid
    by (simp add: execute_cycle_def cx trim_def trim_start_def trim_end_def is_whitespace_def
        ascii_ws_def) (simp add: sample_manifest_def)
  then show ?thesis
    by (auto simp: cycle_rounds.simps [of _ _ _ _ MAX_TOOL_ROUNDS] toy_infer_def valid cx
        toy_summary order)
qed

lemma register_tools_Inr: "\<exists>tools. register_tools ob = Inr tools"
  by (simp add: register_tools_def register_tool_def bt_insert.simps)

lemma toy_for:
  "(\<And>x. toy_ok 1 r r {} (\<lambda>_. True) (f x)) \<Longrightarrow> toy_ok (length xs) r r {} (\<lambda>_. True) (sfor f xs)"
proof (induction xs)
  case Nil
  show ?case by (simp add: toy_ret)
next
  case (Cons x xs)
  show ?case unfolding sfor.simps
    by (rule toy_weaken, rule toy_bind [OF Cons.prems], rule toy_bind [OF Cons.IH [OF Cons.prems]], rule toy_ret)
      simp_all
qed

lemma toy_open: "toy_ok 4 r r {} (\<lambda>_. True) (open_cycle (toy_live b) ob)"
  unfolding open_cycle_def Let_def
  by (rule toy_weaken, rule toy_bind [OF toy_live_append], rule toy_bind [OF toy_live_append],
      rule toy_bind [OF toy_live_append], rule toy_bind [OF toy_live_append], rule toy_ret) simp_all

lemma toy_decide:
  "toy_ok 1 r r {} (\<lambda>out. co_proposal out = Some sample_proposal \<and> length (co_receipts out) = 1)
     (decide (toy_live b) toy_ob tools)"
proof (rule toy_okI)
  fix s :: "nat live_host" assume s: "toy_state s" "hs_risk s = r" "hs_world s + 1 < 1000"
  obtain out where out: "\<And>w. execute_cycle counting_prims (toy_infer [] (Some sample_proposal)) tools
      (cycle_context_of (toy_live b) toy_ob r) w = (Inr out, Suc w)"
    "co_proposal out = Some sample_proposal" "length (co_receipts out) = 1"
    using toy_model by blast
  let ?s = "s\<lparr>hs_world := Suc (hs_world s), hs_trace := hs_trace s @ [EfModel]\<rparr>"
  have "decide (toy_live b) toy_ob tools s = (Inr out, ?s)"
    using out(1) s(2) by (simp add: decide_def get_bind logged_bind ask_bind sret_def) (simp add: toy_live_def sret_def)
  moreover have "toy_state ?s" using s by (auto simp: toy_state_def intro: less_SucI)
  ultimately show "\<exists>x s' t. decide (toy_live b) toy_ob tools s = (Inr x, s')
      \<and> (co_proposal x = Some sample_proposal \<and> length (co_receipts x) = 1) \<and> toy_state s' \<and> hs_risk s' = r
      \<and> hs_world s' \<le> hs_world s + 1 \<and> hs_trace s' = hs_trace s @ t \<and> {} \<subseteq> set t"
    using out(2,3) s(2) by (intro exI [of _ out] exI [of _ ?s] exI [of _ "[EfModel]"]) simp
qed

lemma toy_publish:
  assumes "length (co_receipts out) = 1"
  shows "toy_ok 2 r r {} (\<lambda>_. True) (publish_decision (toy_live b) ob out)"
  unfolding publish_decision_def
  by (rule toy_weaken, rule toy_bind [OF toy_for [OF toy_live_append]], rule toy_bind [OF toy_get],
      rule toy_bind [OF toy_live_append], rule toy_ret) (simp_all add: assms)

lemma toy_view:
  "toy_ok 1 (toy_risk n) (toy_risk n) {} (\<lambda>x. x = (toy_account, toy_snapshot))
     (dispatch_view (toy_live b) toy_ob sample_proposal)"
  unfolding dispatch_view_def
  by (rule toy_weaken, rule toy_bind, simp add: toy_ob_def date_of_def, rule toy_fresh, rule toy_bind [OF toy_clock],
      rule toy_bind [OF toy_query [where v = toy_snapshot]], simp, rule toy_bind [OF toy_live_append],
      rule toy_ret) simp_all

lemma toy_prepare:
  "toy_ok 3 (toy_risk 0) (toy_risk 1) {} (\<lambda>c. c = ''c'') (prepare_order (toy_live b) ob order)"
  unfolding prepare_order_def
  by (rule toy_weaken, rule toy_bind [OF toy_live_append], rule toy_bind, simp, rule toy_uuid, simp only: Let_def,
      rule toy_bind [OF toy_live_append], rule toy_bind [OF toy_change [where r' = "toy_risk 1"]],
      simp add: toy_risk_def sat_add_def, rule toy_bind [OF toy_store], rule toy_ret) simp_all

lemma toy_submit:
  "toy_ok 0 r r {EfSubmit order c} (\<lambda>v. v = \<lparr>vs_client_order_id = c, vs_statuses = JNull\<rparr>)
     (submit (toy_live b) order c)"
  by (rule toy_local [where t = "[EfSubmit order c]"]) (auto simp: submit_def logged_bind ask_bind slift_def)

lemma toy_reconcile:
  "toy_ok 0 (toy_risk n) (toy_risk n) {} (\<lambda>x. x = (JNull, JNull, toy_account)) (reconcile_account (toy_live b) (sret 0))"
  unfolding reconcile_account_def sbind_ret
  by (rule toy_weaken, rule toy_bind [OF toy_clock], rule toy_bind [OF toy_get_map],
      rule toy_bind [OF toy_query [where v = JNull]], simp, rule toy_bind [OF toy_query [where v = JNull]], simp,
      rule toy_bind [OF toy_checked], rule toy_bind [OF toy_change [where r' = "toy_risk n"]],
      simp add: toy_risk_def, rule toy_bind [OF toy_change [where r' = "toy_risk n"]], simp add: toy_day,
      rule toy_ret) simp_all

lemma toy_events: "toy_ok 4 r r {} (\<lambda>_. True) (reconciliation_events (toy_live b) cycle session x)"
  unfolding reconciliation_events_def prod.case_eq_if
  by (rule toy_weaken, rule toy_bind [OF toy_live_append], rule toy_bind [OF toy_live_append],
      rule toy_bind [OF toy_live_append], rule toy_bind [OF toy_live_append], rule toy_bind [OF toy_store],
      rule toy_ret) simp_all

lemma toy_settle:
  "toy_ok 5 (toy_risk n) (toy_risk n) {} (\<lambda>res. lr_order_submitted res) (settle (toy_live b) toy_ob symbol v)"
  unfolding settle_def
  by (rule toy_weaken, rule toy_bind [OF toy_live_append], rule toy_bind, simp add: toy_ob_def date_of_def,
      rule toy_reconcile, rule toy_bind [OF toy_events], rule toy_ret) simp_all

lemma toy_gate: "toy_ok 0 r r {} (\<lambda>x. x = b) (ask (lv_gate (toy_live b)))"
  by (rule toy_local [where t = "[]"]) (auto simp: ask_def)

lemma toy_dispatch:
  "toy_ok 9 (toy_risk 0) (toy_risk 1) {EfSubmit sample_order ''c''} (\<lambda>res. lr_order_submitted res)
     (dispatch (toy_live True) toy_ob sample_proposal)"
proof -
  have sent: "toy_ok 8 (toy_risk 0) (toy_risk 1) {EfSubmit sample_order ''c''} (\<lambda>res. lr_order_submitted res)
     (dispatch_order (toy_live True) toy_ob (p_symbol sample_proposal) sample_order)"
    unfolding dispatch_order_def
    by (rule toy_weaken, rule toy_bind [OF toy_gate], hypsubst, rule toy_bind [OF toy_logged],
        unfold not_True_eq_False if_False, rule toy_bind [OF toy_prepare], hypsubst,
        rule toy_bind [OF toy_submit], rule toy_settle) simp_all
  have verdict: "toy_ok 0 (toy_risk 0) (toy_risk 0) {} (\<lambda>v. v = Inr sample_order)
      (slift (dispatch_verdict (toy_live True) (toy_risk 0) sample_proposal toy_account toy_snapshot))"
    by (rule toy_lift [OF toy_verdict]) simp
  show ?thesis unfolding dispatch_def
    by (rule toy_weaken, rule toy_bind [OF toy_view], hypsubst, unfold prod.case, rule toy_bind [OF toy_get],
        hypsubst, rule toy_bind [OF verdict], hypsubst, unfold sum.case, rule sent) simp_all
qed

lemma toy_trades:
  obtains res s' t where "execute_live_cycle (toy_live True) [] toy_live_host = (Inr res, s')"
    and "hs_trace s' = hs_trace toy_live_host @ t" and "EfSubmit sample_order ''c'' \<in> set t"
    and "lr_order_submitted res" and "hs_risk s' = toy_risk 1" and "toy_state s'"
proof -
  obtain tools where tools: "register_tools toy_ob = (Inr tools :: runtime_error + nat tools)"
    using register_tools_Inr by blast
  obtain s where s: "observe (toy_live True) [] toy_live_host = (Inr toy_ob, s)" "toy_state s"
    "hs_risk s = toy_risk 0" "hs_world s \<le> 4" by (rule toy_observe)
  let ?m = "sbind (open_cycle (toy_live True) toy_ob) (\<lambda>_. sbind (decide (toy_live True) toy_ob tools) (\<lambda>out.
     sbind (publish_decision (toy_live True) toy_ob out) (\<lambda>_.
       case co_proposal out of None \<Rightarrow> hold (toy_live True) toy_ob | Some p \<Rightarrow> dispatch (toy_live True) toy_ob p)))"
  have after: "toy_ok 11 (toy_risk 0) (toy_risk 1) {EfSubmit sample_order ''c''} lr_order_submitted
      (sbind (publish_decision (toy_live True) toy_ob out) (\<lambda>_.
       case co_proposal out of None \<Rightarrow> hold (toy_live True) toy_ob | Some p \<Rightarrow> dispatch (toy_live True) toy_ob p))"
    if out: "co_proposal out = Some sample_proposal \<and> length (co_receipts out) = 1" for out
    unfolding conjunct1 [OF out] option.case
    by (rule toy_weaken, rule toy_bind [OF toy_publish [OF conjunct2 [OF out]]], rule toy_dispatch) simp_all
  have "toy_ok 16 (toy_risk 0) (toy_risk 1) {EfSubmit sample_order ''c''} lr_order_submitted ?m"
    by (rule toy_weaken, rule toy_bind [OF toy_open], rule toy_bind [OF toy_decide], rule after) simp_all
  from this [unfolded toy_ok_def, rule_format, OF s(2,3)] s(4)
  obtain res s' t where m: "?m s = (Inr res, s')" "lr_order_submitted res" "toy_state s'" "hs_risk s' = toy_risk 1"
    "hs_trace s' = hs_trace s @ t" "EfSubmit sample_order ''c'' \<in> set t" by auto
  obtain t0 where "hs_trace s = hs_trace toy_live_host @ t0"
    by (rule view_observe [OF s(1)]) (auto simp: view_rel_def)
  moreover have "execute_live_cycle (toy_live True) [] toy_live_host = (Inr res, s')"
    using s(1) m(1) tools by (simp add: execute_live_cycle_def sbind_def [of "observe _ _"] sbind_def [of "slift _"] slift_def)
  ultimately show ?thesis using m that [of res s' "t0 @ t"] by auto
qed

theorem live_order_is_guarded_witness:
  "\<exists>res s' t0 t1 t2 e receipt stored. execute_live_cycle (toy_live True) [] toy_live_host = (Inr res, s')
    \<and> hs_trace s' = t0 @ [EfGate True] @ t1 @ [EfSink e, EfReceipt (ev_event_id e) receipt,
        EfStore (risk_key counting_prims 2) stored, EfSubmit sample_order ''c''] @ t2
    \<and> dispatch_event sample_order ''c'' e"
proof -
  obtain res s' t where run: "execute_live_cycle (toy_live True) [] toy_live_host = (Inr res, s')"
    and t: "hs_trace s' = hs_trace toy_live_host @ t" "EfSubmit sample_order ''c'' \<in> set t"
    by (rule toy_trades)
  have "hs_trace toy_live_host = []" by (simp add: toy_live_host_def)
  with t(1) have trace: "hs_trace s' = t" by simp
  from live_order_is_guarded [OF run t] obtain t0 t1 t2 e receipt stored where
    "t = t0 @ [EfGate True] @ t1 @ [EfSink e, EfReceipt (ev_event_id e) receipt,
        EfStore (risk_key counting_prims 2) stored, EfSubmit sample_order ''c''] @ t2"
    and "dispatch_event sample_order ''c'' e"
    unfolding toy_live_fields by blast
  with run trace show ?thesis by blast
qed

theorem live_result_is_truthful_witness:
  "\<exists>res s' t. execute_live_cycle (toy_live True) [] toy_live_host = (Inr res, s')
    \<and> hs_trace s' = t \<and> length (submits t) = 1 \<and> lr_policy_allowed res"
proof -
  obtain res s' t where run: "execute_live_cycle (toy_live True) [] toy_live_host = (Inr res, s')"
    and t: "hs_trace s' = hs_trace toy_live_host @ t" and "lr_order_submitted res"
    by (rule toy_trades)
  moreover have "hs_trace toy_live_host = []" by (simp add: toy_live_host_def)
  ultimately show ?thesis using live_result_is_truthful [OF run t] by auto
qed

theorem daily_order_limit_holds_witness:
  "\<exists>t. hs_trace (after_cycles [(toy_live True, [])] toy_live_host) = t \<and> EfSubmit sample_order ''c'' \<in> set t
    \<and> length (submits t) \<le> unat (max_orders_day default_rules)"
proof -
  obtain res s' t where run: "execute_live_cycle (toy_live True) [] toy_live_host = (Inr res, s')"
    and t: "hs_trace s' = hs_trace toy_live_host @ t" "EfSubmit sample_order ''c'' \<in> set t"
    and risk: "hs_risk s' = toy_risk 1"
    by (rule toy_trades)
  have start: "hs_trace toy_live_host = []" "hs_risk toy_live_host = toy_risk 0" by (simp_all add: toy_live_host_def)
  have "all_on_day (rk_trading_day (hs_risk toy_live_host)) [(toy_live True, [])] toy_live_host"
    using run risk start by (simp add: Let_def toy_risk_def)
  moreover have "list_all (\<lambda>(L, books). max_orders_day (am_risk_rules (lv_manifest L)) = max_orders_day default_rules)
      [(toy_live True, [])]" by (simp add: sample_manifest_def)
  moreover have "rk_orders_today (hs_risk toy_live_host) \<le> max_orders_day default_rules"
    using start by (simp add: toy_risk_def)
  ultimately show ?thesis using daily_order_limit_holds run t start by fastforce
qed

end
