(* ===== verification/SessionLog.thy ===== *)
theory SessionLog
  imports Session LiveTrial
begin

text \<open>
  What a session writes into its journal: the rows each step adds, the count of cycles that the
  journal keeps of a run, and the lifecycle event from which a restart decides whether to run.
\<close>

section \<open>The rows of the journal\<close>

definition rows :: "journal \<Rightarrow> (uuid \<times> run_event) list" where
  "rows j = map (\<lambda>r. (jr_run_id r, jr_envelope r)) (jn_events j)"

lemma acknowledge_same_rows:
  assumes "acknowledge_event i x j = (r, j')"
  shows "rows j' = rows j"
  using acknowledge_event_cases [OF assms] by (cases; simp add: rows_def o_def)

text \<open>Steps that write no row.\<close>

definition same_rows :: "('w, 'z) host_scheme \<Rightarrow> ('w, 'z) host_scheme \<Rightarrow> bool" where
  "same_rows s s' \<longleftrightarrow> rows (hs_journal s') = rows (hs_journal s)"

interpretation unwritten: step_relation same_rows
  by unfold_locales (auto simp: same_rows_def)

lemma unwritten_idle: "(\<And>s. hs_journal (f s) = hs_journal s) \<Longrightarrow> keeps same_rows (sput f)"
  by (auto intro!: keepsI simp: sput_def same_rows_def)

lemma unwritten_ask: "keeps same_rows (ask f)"
  by (rule keepsI) (auto simp: ask_def same_rows_def split: prod.splits)

lemma unwritten_logged: "keeps same_rows (logged ef)"
  by (rule keepsI) (auto simp: logged_apply same_rows_def)

lemma unwritten_send: "keeps same_rows (send_and_acknowledge E e)"
  by (rule keepsI, erule send_and_acknowledge_cases) (auto simp: same_rows_def dest: acknowledge_same_rows)

lemma put_secret_rows: "put_secret A nonce name v j = Inr j' \<Longrightarrow> rows j' = rows j"
  by (auto simp: put_secret_def rows_def split: if_splits)

lemma delete_secret_rows: "delete_secret name j = Inr j' \<Longrightarrow> rows j' = rows j"
  by (auto simp: delete_secret_def rows_def split: if_splits)

lemma unwritten_put_local: "keeps same_rows (put_local_secret A E name v)"
  unfolding put_local_secret_def
  by (intro unwritten.keeps_intros unwritten_ask unwritten_logged)
    (auto intro!: keepsI simp: on_journal_def same_rows_def dest: put_secret_rows split: sum.splits)

lemma unwritten_journal_write:
  "(\<And>j j'. f j = Inr j' \<Longrightarrow> rows j' = rows j) \<Longrightarrow> keeps same_rows (journal_write f)"
  by (auto intro!: keepsI simp: journal_write_def same_rows_def split: sum.splits)

lemma unwritten_gate: "keeps same_rows (gate_step a)"
  by (auto intro!: keepsI simp: gate_step_def same_rows_def split: prod.splits)

lemmas unwritten_steps = unwritten.keeps_intros unwritten_ask unwritten_logged unwritten_send unwritten_put_local
  unwritten_gate

lemma unwritten_flush: "keeps same_rows (flush_pending P E W)"
  unfolding flush_pending_def by (intro unwritten_steps)

lemma append_durable_rows:
  assumes "append_durable P A E W cycle ty payload private s = (Inr e', s')"
  obtains e where "rows (hs_journal s') = rows (hs_journal s) @ [(dw_run_id W, e)]"
    and "ev_event_type e = ty" and "ev_payload e = payload" and "ev_run_id e = dw_run_id W"
  using assms
proof (cases rule: append_durable_cases)
  case (durable n s1 e s2 receipt)
  have r1: "rows (hs_journal s1) = rows (hs_journal s)"
    using keepsD [OF unwritten_flush durable(1)] by (simp add: same_rows_def)
  obtain event_id now k prev nonce j w where
    sign: "sign_event P (dw_signing_key W) event_id (dw_arena_id W) (dw_run_id W) cycle k prev ty now payload = Inr e"
    and app: "append_event P A nonce e private (hs_journal s1) = Inr j"
    and s2: "s2 = s1\<lparr>hs_journal := j, hs_world := w\<rparr>"
    by (rule write_event_Inr [OF durable(2)])
  obtain c bytes where j: "j = (hs_journal s1)\<lparr>jn_events := jn_events (hs_journal s1) @ [new_row e c]\<rparr>"
    by (rule append_event_Inr [OF app])
  have r2: "rows (hs_journal s2) = rows (hs_journal s1) @ [(ev_run_id e, e)]"
    by (simp add: s2 j rows_def)
  have "rows (hs_journal s') = rows (hs_journal s2)"
    using acknowledge_same_rows send_Inr [OF durable(3)] by blast
  with r1 r2 sign_event_Inr [OF sign] show ?thesis by (intro that [of e]) auto
qed simp_all

section \<open>Counting cycles\<close>

definition cycle_type :: "string \<Rightarrow> bool" where
  "cycle_type t \<longleftrightarrow> t = ''cycle_started'' \<or> t = ''missed_cycle''"

definition cycles :: "uuid \<Rightarrow> journal \<Rightarrow> nat" where
  "cycles run j = length (filter (\<lambda>(r, e). r = run \<and> cycle_type (ev_event_type e)) (rows j))"

lemma cycles_split:
  "cycles run j = length (filter (\<lambda>r. jr_run_id r = run \<and> ev_event_type (jr_envelope r) = ''cycle_started'') (jn_events j))
    + length (filter (\<lambda>r. jr_run_id r = run \<and> ev_event_type (jr_envelope r) = ''missed_cycle'') (jn_events j))"
proof -
  have "length (filter (\<lambda>r. jr_run_id r = run \<and> cycle_type (ev_event_type (jr_envelope r))) xs)
      = length (filter (\<lambda>r. jr_run_id r = run \<and> ev_event_type (jr_envelope r) = ''cycle_started'') xs)
      + length (filter (\<lambda>r. jr_run_id r = run \<and> ev_event_type (jr_envelope r) = ''missed_cycle'') xs)" for xs
    by (induction xs) (auto simp: cycle_type_def)
  then show ?thesis by (simp add: cycles_def rows_def filter_map o_def case_prod_unfold)
qed

lemma completed_cycle_count_cycles:
  "completed_cycle_count run j = Some n \<Longrightarrow> n = of_nat (cycles run j)"
  by (auto simp: completed_cycle_count_def checked_add_def event_count_def cycles_split split: if_splits)

text \<open>
  A step that adds \<open>n\<close> cycles to the run's count whenever it succeeds or fails with an error that
  the loop survives (\<open>g\<close>), and a step that never fails with such an error.
\<close>

definition adds :: "('e \<Rightarrow> bool) \<Rightarrow> uuid \<Rightarrow> nat \<Rightarrow> (('w, 'z) host_scheme, 'e, 'a) step \<Rightarrow> bool" where
  "adds g run n m \<longleftrightarrow> (\<forall>s r s'. m s = (r, s') \<longrightarrow> (case r of Inl e \<Rightarrow> g e | Inr _ \<Rightarrow> True)
     \<longrightarrow> cycles run (hs_journal s') = cycles run (hs_journal s) + n)"

definition never :: "('e \<Rightarrow> bool) \<Rightarrow> ('s, 'e, 'a) step \<Rightarrow> bool" where
  "never g m \<longleftrightarrow> (\<forall>s e s'. m s = (Inl e, s') \<longrightarrow> \<not> g e)"

lemma addsD: "adds g run n m \<Longrightarrow> m s = (Inr x, s') \<Longrightarrow> cycles run (hs_journal s') = cycles run (hs_journal s) + n"
  unfolding adds_def by fastforce

lemma addsI:
  assumes "\<And>s x s'. m s = (Inr x, s') \<Longrightarrow> cycles run (hs_journal s') = cycles run (hs_journal s) + n"
    and "\<And>s e s'. m s = (Inl e, s') \<Longrightarrow> g e \<Longrightarrow> cycles run (hs_journal s') = cycles run (hs_journal s) + n"
  shows "adds g run n m"
  using assms unfolding adds_def by (auto split: sum.split)

lemma adds_unwritten: "keeps same_rows m \<Longrightarrow> adds g run 0 m"
  unfolding adds_def by (auto simp: same_rows_def cycles_def dest: keepsD)

lemma adds_then:
  assumes "adds g run n m" and "\<And>x. adds g run 0 (f x)"
  shows "adds g run n (sbind m f)"
  using assms unfolding adds_def by (auto elim!: sbind_cases split: sum.splits) (metis Inl_Inr_False)+

lemma adds_first:
  assumes "never g m" and "adds g run 0 m" and "\<And>x. adds g run n (f x)"
  shows "adds g run n (sbind m f)"
  unfolding adds_def
proof (intro allI impI)
  fix s r s' assume run: "sbind m f s = (r, s')" and ok: "case r of Inl e \<Rightarrow> g e | Inr _ \<Rightarrow> True"
  show "cycles run (hs_journal s') = cycles run (hs_journal s) + n"
    using run
  proof (cases rule: sbind_cases)
    case (failed e)
    then show ?thesis using assms(1) ok unfolding never_def by fastforce
  next
    case (ok x s1)
    have "cycles run (hs_journal s1) = cycles run (hs_journal s)" using addsD [OF assms(2) ok(1)] by simp
    then show ?thesis using assms(3) [of x] ok(2) \<open>case r of Inl e \<Rightarrow> g e | Inr _ \<Rightarrow> True\<close>
      by (simp add: adds_def)
  qed
qed

lemma adds_err: "adds (\<lambda>e. g (f e)) run n m \<Longrightarrow> adds g run n (serr f m)"
  by (rule addsI) (auto simp: map_err_def elim!: serr_cases split: sum.splits, (fastforce simp: adds_def)+)

lemma adds_append:
  assumes "dw_run_id W = run"
  shows "adds (\<lambda>_. False) run (if cycle_type ty then 1 else 0) (append_durable P A E W cycle ty payload private)"
proof (rule addsI)
  fix s x s' assume "append_durable P A E W cycle ty payload private s = (Inr x, s')"
  then show "cycles run (hs_journal s') = cycles run (hs_journal s) + (if cycle_type ty then 1 else 0)"
    by (rule append_durable_rows) (use assms in \<open>auto simp: cycles_def\<close>)
qed simp

lemma adds_for:
  assumes "\<And>x. adds g run 0 (f x)"
  shows "adds g run 0 (sfor f xs)"
proof (induction xs)
  case (Cons x xs)
  show ?case unfolding sfor.simps
    by (intro adds_then assms Cons.IH adds_unwritten [OF unwritten.keeps_ret])
qed (simp add: adds_unwritten unwritten.keeps_ret)

section \<open>The cycles of a live cycle\<close>

definition survived :: "live_error \<Rightarrow> bool" where
  "survived e \<longleftrightarrow> (case e of LcRuntime _ \<Rightarrow> True | _ \<Rightarrow> False)"

lemma survived_simps [simp]:
  "survived (LcRuntime x)" "\<not> survived (LcVenue v)" "\<not> survived (LcEvent d)" "\<not> survived (LcJournal j)"
  "\<not> survived LcRiskState" "\<not> survived LcAccountPolicy"
  by (simp_all add: survived_def)

lemma adds_live:
  assumes "lv_run_id L = run"
  shows "adds survived run (if cycle_type ty then 1 else 0) (live_append L cycle ty payload pv)"
  unfolding live_append_def by (rule adds_err) (use assms in \<open>simp add: adds_append writer_of_def\<close>)

lemma adds_live_0: "lv_run_id L = run \<Longrightarrow> \<not> cycle_type ty \<Longrightarrow> adds survived run 0 (live_append L cycle ty payload pv)"
  using adds_live [of L run ty] by simp

lemma unwritten_with_risk: "keeps same_rows (with_risk f)"
  unfolding with_risk_def by (rule unwritten_idle) simp

lemma unwritten_query: "keeps same_rows (query name f)"
  unfolding query_def by (intro unwritten_steps)

lemma unwritten_clock: "keeps same_rows (clock_ms L)"
  unfolding clock_ms_def by (intro unwritten_steps)

lemma unwritten_store: "keeps same_rows (store_risk L)"
  unfolding store_risk_def by (intro unwritten_steps)

lemmas unwritten_live = unwritten_steps unwritten_with_risk unwritten_query unwritten_clock unwritten_store

lemma unwritten_checked: "keeps same_rows (checked_account L)"
  unfolding checked_account_def by (intro unwritten_live)

lemma unwritten_fresh: "keeps same_rows (fresh_account L d)"
  unfolding fresh_account_def by (intro unwritten_live unwritten_checked)

lemma unwritten_reconcile: "keeps same_rows m \<Longrightarrow> keeps same_rows (reconcile_account L m)"
  unfolding reconcile_account_def by (intro unwritten_live unwritten_checked)

lemma unwritten_observe: "keeps same_rows (observe L books)"
  unfolding observe_def Let_def by (intro unwritten_live unwritten_fresh)

lemmas adds_steps = adds_then adds_for adds_live_0 adds_unwritten [OF unwritten.keeps_ret]
  adds_unwritten [OF unwritten_store] adds_unwritten [OF unwritten.keeps_get] adds_unwritten [OF unwritten.keeps_lift]
  adds_unwritten [OF unwritten_ask] adds_unwritten [OF unwritten_with_risk] adds_unwritten [OF unwritten_logged]
  adds_unwritten [OF unwritten_query] adds_unwritten [OF unwritten_clock]


lemma adds_open_cycle:
  assumes "lv_run_id L = run"
  shows "adds survived run 1 (open_cycle L ob)"
proof -
  have started: "adds survived run 1 (live_append L cycle ''cycle_started'' payload pv)" for cycle payload pv
    using adds_live [OF assms, of "''cycle_started''"] by (simp add: cycle_type_def)
  show ?thesis unfolding open_cycle_def Let_def
    by (rule adds_then [OF started]) (intro adds_steps assms; simp add: cycle_type_def)
qed

lemma adds_decide: "lv_run_id L = run \<Longrightarrow> adds survived run 0 (decide L ob tools)"
  unfolding decide_def
  by (intro adds_steps; (split sum.split; intro conjI allI impI)?; intro adds_steps; simp add: cycle_type_def)

lemma adds_publish: "lv_run_id L = run \<Longrightarrow> adds survived run 0 (publish_decision L ob out)"
  unfolding publish_decision_def by (intro adds_steps; simp add: cycle_type_def)

lemma adds_end_cycle: "lv_run_id L = run \<Longrightarrow> adds survived run 0 (end_cycle L ob symbol allowed payload)"
  unfolding end_cycle_def by (intro adds_steps; simp add: cycle_type_def)

lemma adds_events: "lv_run_id L = run \<Longrightarrow> adds survived run 0 (reconciliation_events L cycle session x)"
  unfolding reconciliation_events_def prod.case_eq_if by (intro adds_steps; simp add: cycle_type_def)

lemma adds_settle: "lv_run_id L = run \<Longrightarrow> adds survived run 0 (settle L ob symbol submission)"
  unfolding settle_def
  by (intro adds_steps adds_events adds_unwritten [OF unwritten_reconcile] unwritten_live; simp add: cycle_type_def)

lemma adds_dispatch:
  assumes "lv_run_id L = run"
  shows "adds survived run 0 (dispatch L ob p)"
proof -
  have view: "adds survived run 0 (dispatch_view L ob p)"
    unfolding dispatch_view_def
    by (intro adds_steps adds_unwritten [OF unwritten_fresh]; simp add: assms cycle_type_def)
  have prepare: "adds survived run 0 (prepare_order L ob order)" for order
    unfolding prepare_order_def Let_def by (intro adds_steps; simp add: assms cycle_type_def)
  have submit: "adds survived run 0 (submit L order c)" for order c
    unfolding submit_def by (intro adds_steps)
  have order: "adds survived run 0 (dispatch_order L ob symbol order)" for symbol order
    unfolding dispatch_order_def
    by (intro adds_steps; (split if_split; intro conjI impI)?; intro adds_end_cycle adds_steps prepare submit adds_settle assms)
  show ?thesis unfolding dispatch_def prod.case_eq_if
    by (intro adds_steps view; split sum.split; intro conjI allI impI adds_end_cycle order assms)
qed

lemma never_ok: "never g (sret x)" "never g (sget h)" "never g (sput u)" "never g (ask f)" "never g (logged ef)"
  by (auto simp: never_def sret_def sget_def sput_def ask_def logged_apply split: prod.splits)

lemma never_lift: "(\<And>e. m = Inl e \<Longrightarrow> \<not> g e) \<Longrightarrow> never g (slift m)"
  by (auto simp: never_def slift_def)

lemma never_bind: "never g m \<Longrightarrow> (\<And>x. never g (f x)) \<Longrightarrow> never g (sbind m f)"
  unfolding never_def by (auto elim!: sbind_cases) (metis | blast)+

lemma never_query: "never survived (query name f)"
  unfolding query_def by (intro never_bind never_ok never_lift) (auto simp: map_err_def split: sum.splits)

lemma never_observe: "never survived (observe L books)"
  unfolding observe_def Let_def fresh_account_def checked_account_def with_risk_def
  by (intro never_bind never_ok never_query never_lift)
    (auto simp: unix_milliseconds_def validate_account_policy_def ok_or_def split: option.splits if_splits)

lemma register_tools_ok: "(register_tools ob :: runtime_error + 'w tools) \<noteq> Inl e"
proof
  assume "(register_tools ob :: runtime_error + 'w tools) = Inl e"
  moreover obtain tools where "(register_tools ob :: runtime_error + 'w tools) = Inr tools"
    using register_tools_Inr by blast
  ultimately show False by simp
qed

lemma adds_live_cycle:
  assumes "lv_run_id L = run"
  shows "adds survived run 1 (execute_live_cycle L books)"
proof -
  have registered: "never survived (slift (map_err LcRuntime (register_tools ob)))" for ob
    using register_tools_ok by (intro never_lift) (auto simp: map_err_def split: sum.splits)
  have rest: "adds survived run 0 (case co_proposal out of None \<Rightarrow> hold L ob | Some p \<Rightarrow> dispatch L ob p)" for ob out
    unfolding hold_def by (split option.split; intro conjI allI impI adds_end_cycle adds_dispatch assms)
  show ?thesis unfolding execute_live_cycle_def
    by (rule adds_first [OF never_observe adds_unwritten [OF unwritten_observe]],
        rule adds_first [OF registered adds_unwritten [OF unwritten.keeps_lift]])
      (intro adds_then adds_open_cycle adds_decide adds_publish rest assms)
qed

section \<open>The cycles of a session\<close>

lemma unwritten_call_api: "keeps same_rows (call_api f)"
  unfolding call_api_def by (intro unwritten_steps)

lemma unwritten_call_venue: "keeps same_rows (call_venue f)"
  unfolding call_venue_def by (intro unwritten_steps)

lemma unwritten_read: "keeps same_rows (journal_read f)"
  unfolding journal_read_def by (intro unwritten_steps)

lemma unwritten_shared: "keeps same_rows (read_shared f)" "keeps same_rows (with_shared u)"
  unfolding read_shared_def with_shared_def by (auto intro: unwritten_steps unwritten_idle)

lemma unwritten_secret: "keeps same_rows (put_run_secret E name v)" "keeps same_rows (journal_write (delete_secret name))"
  unfolding put_run_secret_def
  by (intro unwritten_steps unwritten_journal_write put_secret_rows delete_secret_rows; assumption)+

lemma unwritten_load: "keeps same_rows (load_secret_string E name)"
  unfolding load_secret_string_def by (intro unwritten_steps unwritten_read)

lemmas unwritten_run = unwritten_steps unwritten_call_api unwritten_call_venue unwritten_read unwritten_shared
  unwritten_secret unwritten_load

lemma unwritten_forget: "keeps same_rows (forget_run E run)"
  unfolding forget_run_def by (intro unwritten_run)

lemma adds_run:
  "adds (\<lambda>_. False) run (if cycle_type ty then 1 else 0) (run_append E run cycle ty payload)"
  unfolding run_append_def by (rule adds_err) (simp add: adds_append run_writer_def)

lemma adds_run_0: "\<not> cycle_type ty \<Longrightarrow> adds (\<lambda>_. False) run 0 (run_append E run cycle ty payload)"
  using adds_run [of run ty] by simp

lemma adds_lifecycle: "\<not> cycle_type ty \<Longrightarrow> adds (\<lambda>_. False) run 0 (append_lifecycle E run ty source)"
  unfolding append_lifecycle_def by (intro adds_then adds_run_0 adds_unwritten unwritten_run)

lemma adds_missed: "adds (\<lambda>_. False) run 1 (append_missed_cycle E run at reason)"
proof -
  have missed: "adds (\<lambda>_. False) run 1 (run_append E run cycle ''missed_cycle'' payload)" for cycle payload
    using adds_run [of run "''missed_cycle''"] by (simp add: cycle_type_def)
  show ?thesis unfolding append_missed_cycle_def
    by (rule adds_first [OF never_ok(4) adds_unwritten [OF unwritten_ask]])
      (intro adds_then missed adds_unwritten unwritten_run)
qed

text \<open>A session step that keeps the run and adds \<open>n\<close> cycles to its count.\<close>

definition tallies :: "uuid \<Rightarrow> nat \<Rightarrow> ('w, 'a) session_step \<Rightarrow> bool" where
  "tallies run n m \<longleftrightarrow> (\<forall>s x s'. m s = (Inr x, s') \<longrightarrow> ss_run s = run \<longrightarrow> ss_run s' = run
     \<and> cycles run (hs_journal (ss_host s')) = cycles run (hs_journal (ss_host s)) + n)"

lemma talliesD:
  "tallies run n m \<Longrightarrow> m s = (Inr x, s') \<Longrightarrow> ss_run s = run \<Longrightarrow> ss_run s' = run
     \<and> cycles run (hs_journal (ss_host s')) = cycles run (hs_journal (ss_host s)) + n"
  unfolding tallies_def by blast

lemma tallies_then:
  assumes "tallies run n m" and "\<And>x. tallies run 0 (f x)"
  shows "tallies run n (sbind m f)"
  unfolding tallies_def
proof (intro allI impI)
  fix s x s' assume "sbind m f s = (Inr x, s')" and run: "ss_run s = run"
  then obtain y s1 where "m s = (Inr y, s1)" and "f y s1 = (Inr x, s')" by (auto elim: sbind_InrE)
  with talliesD [OF assms(1) _ run] talliesD [OF assms(2)] show "ss_run s' = run
     \<and> cycles run (hs_journal (ss_host s')) = cycles run (hs_journal (ss_host s)) + n"
    by fastforce
qed

lemma tallies_first:
  assumes "tallies run 0 m" and "\<And>x. tallies run n (f x)"
  shows "tallies run n (sbind m f)"
  unfolding tallies_def
proof (intro allI impI)
  fix s x s' assume "sbind m f s = (Inr x, s')" and run: "ss_run s = run"
  then obtain y s1 where "m s = (Inr y, s1)" and "f y s1 = (Inr x, s')" by (auto elim: sbind_InrE)
  with talliesD [OF assms(1) _ run] talliesD [OF assms(2)] show "ss_run s' = run
     \<and> cycles run (hs_journal (ss_host s')) = cycles run (hs_journal (ss_host s)) + n"
    by fastforce
qed

lemma tallies_get:
  assumes "\<And>s. ss_run s = run \<Longrightarrow> tallies run n (f (h s))"
  shows "tallies run n (sbind (sget h) f)"
  using assms unfolding tallies_def sbind_def sget_def by simp

lemma tallies_ok: "tallies run 0 (sret x)" "tallies run 0 (slift m)"
  by (simp_all add: tallies_def sret_def slift_def)

lemma tallies_put: "(\<And>s. ss_run (u s) = ss_run s \<and> ss_host (u s) = ss_host s) \<Longrightarrow> tallies run 0 (sput u)"
  by (auto simp: tallies_def sput_def)

lemma tallies_host: "adds (\<lambda>_. False) run n m \<Longrightarrow> tallies run n (on_host m)"
  unfolding tallies_def by (auto elim!: on_host_cases dest: addsD)

lemma tallies_local: "keeps same_rows m \<Longrightarrow> tallies run 0 (on_host m)"
  by (rule tallies_host) (rule adds_unwritten)

lemma tallies_append:
  "run' = run \<Longrightarrow> \<not> cycle_type ty \<Longrightarrow> tallies run 0 (on_host (run_append E run' cycle ty payload))"
  "run' = run \<Longrightarrow> \<not> cycle_type ty \<Longrightarrow> tallies run 0 (on_host (append_lifecycle E run' ty source))"
  by (hypsubst, rule tallies_host, rule adds_run_0 adds_lifecycle, assumption)+

lemmas tallies_locals = unwritten_ask unwritten_call_api unwritten_call_venue unwritten_read unwritten_shared
  unwritten_secret unwritten_load unwritten_gate unwritten_forget

lemmas tallies_steps = tallies_get tallies_then tallies_ok tallies_put tallies_append tallies_locals [THEN tallies_local]

lemma tallies_lease: "tallies run 0 (lease_tick E)"
  unfolding lease_tick_def by (intro tallies_steps)

lemma tallies_if: "tallies run n m \<Longrightarrow> tallies run n k \<Longrightarrow> tallies run n (if b then m else k)"
  by simp

lemma tallies_gate: "tallies run 0 (record_gate E)"
  unfolding record_gate_def Let_def by (intro tallies_steps tallies_if) (simp_all add: cycle_type_def)

lemma tallies_settings: "tallies run 0 (apply_settings E st)"
  unfolding apply_settings_def prod.case_eq_if by (intro tallies_steps) (simp_all add: cycle_type_def)

lemma tallies_strategy: "tallies run 0 (switch_strategy E b)"
  unfolding switch_strategy_def by (intro tallies_steps tallies_if) (simp_all add: cycle_type_def)

lemma tallies_lifecycle: "tallies run 0 (lifecycle_tick E)"
  unfolding lifecycle_tick_def
  by (intro tallies_steps tallies_gate tallies_if; split option.split;
      intro conjI allI impI tallies_steps tallies_settings tallies_strategy)

lemma tallies_book: "tallies run 0 (book_tick E snapshot)"
  unfolding book_tick_def by (split sum.split, intro conjI allI impI tallies_steps) simp_all

lemma tallies_over: "tallies run 0 (schedule_over E)"
  unfolding schedule_over_def by (intro tallies_steps tallies_if)

lemma tallies_miss: "tallies run 1 (miss_cycle E)"
  unfolding miss_cycle_def
  by (rule tallies_get, simp only: prod.case, rule tallies_first [OF tallies_ok(2)], rule tallies_host, rule adds_missed)

lemma tallies_live_cycle:
  fixes L :: "'w task_world live"
  assumes "lv_run_id L = run"
  shows "tallies run 1 (sbind (on_host (stry (execute_live_cycle L books))) (\<lambda>result.
       case result of Inr _ \<Rightarrow> sret ()
       | Inl e \<Rightarrow> (case e of LcRuntime _ \<Rightarrow> sret () | _ \<Rightarrow> slift (Inl (LrCycle e)))) :: ('w, unit) session_step)" (is "tallies run 1 ?m")
  unfolding tallies_def
proof (intro allI impI)
  fix s s' :: "'w session" and x assume "?m s = (Inr x, s')" and run: "ss_run s = run"
  then obtain result h where step: "execute_live_cycle L books (ss_host s) = (result, h)"
    and on: "case result of Inl e \<Rightarrow> survived e | Inr _ \<Rightarrow> True" and s': "s' = s\<lparr>ss_host := h\<rparr>"
    by (auto simp: stry_def sret_def slift_def elim!: sbind_InrE on_host_cases
        split: prod.splits sum.splits live_error.splits)
  have "cycles run (hs_journal h) = cycles run (hs_journal (ss_host s)) + 1"
    using adds_live_cycle [OF assms, of books] step on unfolding adds_def by blast
  then show "ss_run s' = run \<and> cycles run (hs_journal (ss_host s')) = cycles run (hs_journal (ss_host s)) + 1"
    using run by (simp add: s')
qed

lemma tallies_decide: "tallies run 1 (decide_cycle E)"
  unfolding decide_cycle_def
  by (rule tallies_first [OF tallies_local], intro unwritten_steps, rule tallies_get, simp only: prod.case,
      rule tallies_live_cycle) (simp add: live_of_def)

text \<open>A turn that goes on counts exactly the cycles it journals.\<close>

lemma session_tick_tallies:
  assumes "session_tick E e s = (Inr Continue, s')"
    and "cycles (ss_run s) (hs_journal (ss_host s)) = unat (ss_completed s)"
  shows "ss_run s' = ss_run s \<and> cycles (ss_run s') (hs_journal (ss_host s')) = unat (ss_completed s')"
proof (cases "e = CycleTick")
  case True
  with assms(1) have tick: "cycle_tick E s = (Inr Continue, s')" by simp
  have "tallies (ss_run s) 1 (sbind (schedule_over E) (\<lambda>over.
     if over then slift (Inl LrState)
     else
     sbind (on_host (read_shared (\<lambda>w. gate_is_running (sh_gate w)))) (\<lambda>running.
     sbind (if running then decide_cycle E else miss_cycle E) (\<lambda>_. count_cycle))))" (is "tallies _ 1 ?m")
  proof -
    have count: "tallies (ss_run s) 0 count_cycle"
      unfolding count_cycle_def by (intro tallies_steps) simp
    have no: "tallies (ss_run s) 1 (slift (Inl LrState))" by (simp add: tallies_def slift_def)
    show ?thesis
      by (rule tallies_first [OF tallies_over], rule tallies_if [OF no],
          rule tallies_first [OF tallies_local [OF unwritten_shared(1)]], rule tallies_then [OF _ count],
          rule tallies_if [OF tallies_decide tallies_miss])
  qed
  moreover have "?m s = (Inr Continue, s')"
    using tick by (auto simp: cycle_tick_def sbind_def sret_def sget_def split: prod.splits sum.splits if_splits)
  ultimately show ?thesis
    using talliesD [of "ss_run s" 1 ?m s Continue s'] cycle_tick_counts [OF tick] assms(2) by simp
next
  case False
  have "tallies (ss_run s) 0 (session_tick E e)"
    using False tallies_lease tallies_lifecycle tallies_book by (cases e) auto
  from talliesD [OF this assms(1)] session_tick_counts [OF assms(1) False] assms(2)
  show ?thesis by (simp add: counted_rel_def)
qed

lemma session_run_tallies:
  assumes "session_run E s es s'" and "cycles (ss_run s) (hs_journal (ss_host s)) = unat (ss_completed s)"
  shows "ss_run s' = ss_run s \<and> cycles (ss_run s') (hs_journal (ss_host s')) = unat (ss_completed s')"
  using assms
  by (induction rule: session_run.induct) (auto dest: session_tick_tallies simp: session_tick_tallies)

section \<open>The journal under a session\<close>

text \<open>\<open>durable_rel\<close>: the chain is kept, events and receipts are only added, and what is sent is recorded.\<close>

lemma durable_idle:
  "(\<And>s. hs_journal (f s) = hs_journal s \<and> hs_trace (f s) = hs_trace s) \<Longrightarrow> keeps (durable_rel P) (sput f)"
  by (auto intro!: keepsI simp: sput_def durable_rel_def)

lemma delete_secret_Inr:
  "delete_secret name j = Inr j' \<Longrightarrow> jn_events j' = jn_events j"
  by (auto simp: delete_secret_def split: if_splits)

lemma put_secret_Inr: "put_secret A nonce name v j = Inr j' \<Longrightarrow> jn_events j' = jn_events j"
  by (auto simp: put_secret_def split: if_splits)

lemma same_events:
  "jn_events j' = jn_events j \<Longrightarrow> journal_inv P j' = journal_inv P j \<and> envelopes j' = envelopes j \<and> receipted j' = receipted j"
  by (simp add: envelopes_def receipted_def journal_inv_def run_rows_def)

lemma durable_journal_write:
  assumes "\<And>j j'. f j = Inr j' \<Longrightarrow> jn_events j' = jn_events j"
  shows "keeps (durable_rel P) (journal_write f)"
  using assms by (intro keepsI) (fastforce simp: journal_write_def durable_rel_def envelopes_def receipted_def
      journal_inv_def run_rows_def split: sum.splits)

lemma durable_gate: "keeps (durable_rel P) (gate_step a)"
  by (auto intro!: keepsI simp: gate_step_def durable_rel_def split: prod.splits)

lemma durable_queried: "keeps (durable_rel P) (logged EfModel)" "keeps (durable_rel P) (logged (EfQuery q))"
  "keeps (durable_rel P) (logged (EfGate b))" "keeps (durable_rel P) (logged (EfSubmit d c))"
  "keeps (durable_rel P) (logged (EfStore k v))"
  by (rule durable_logged; simp)+

lemmas durable_host = dur.keeps_intros durable_ask durable_gate durable_queried durable_put_secret
  durable_append_durable durable_flush

lemma durable_with_risk: "keeps (durable_rel P) (with_risk f)"
  unfolding with_risk_def by (rule durable_idle) simp

lemma durable_query: "keeps (durable_rel P) (query name f)"
  unfolding query_def by (intro durable_host)

lemma durable_clock: "keeps (durable_rel P) (clock_ms L)"
  unfolding clock_ms_def by (intro durable_host)

lemma durable_live_append: "keeps (durable_rel (lv_P L)) (live_append L cycle ty payload pv)"
  unfolding live_append_def by (intro durable_host)

lemma durable_store: "keeps (durable_rel P) (store_risk L)"
  unfolding store_risk_def put_local_secret_def by (intro durable_host)

lemmas durable_live = durable_host durable_with_risk durable_query durable_clock durable_live_append durable_store

lemma durable_checked: "keeps (durable_rel P) (checked_account L)"
  unfolding checked_account_def by (intro durable_live)

lemma durable_reconcile: "keeps (durable_rel P) m \<Longrightarrow> keeps (durable_rel P) (reconcile_account L m)"
  unfolding reconcile_account_def by (intro durable_live durable_checked)

lemma durable_events: "keeps (durable_rel (lv_P L)) (reconciliation_events L cycle session x)"
  unfolding reconciliation_events_def prod.case_eq_if by (intro durable_live)

lemma durable_reconcile_live: "keeps (durable_rel (lv_P L)) (reconcile_live_state L)"
  unfolding reconcile_live_state_def by (intro durable_live durable_reconcile durable_events)

lemma durable_end_cycle: "keeps (durable_rel (lv_P L)) (end_cycle L ob symbol allowed payload)"
  unfolding end_cycle_def by (intro durable_live)

lemma durable_dispatch: "keeps (durable_rel (lv_P L)) (dispatch L ob p)"
  unfolding dispatch_def dispatch_view_def fresh_account_def dispatch_order_def prepare_order_def submit_def
    settle_def prod.case_eq_if Let_def
  by (intro durable_live durable_checked; split sum.split; intro conjI allI impI durable_end_cycle durable_live
      durable_reconcile durable_events)

lemma durable_live_cycle: "keeps (durable_rel (lv_P L)) (execute_live_cycle L books)"
  unfolding execute_live_cycle_def observe_def fresh_account_def open_cycle_def decide_def publish_decision_def
    hold_def Let_def
  by (intro durable_live durable_checked; (split sum.split option.split)?;
      intro conjI allI impI durable_live durable_end_cycle durable_dispatch)

lemma durable_call: "keeps (durable_rel P) (call_api f)" "keeps (durable_rel P) (call_venue g)"
  unfolding call_api_def call_venue_def by (intro durable_host)+

lemma durable_read: "keeps (durable_rel P) (journal_read f)" "keeps (durable_rel P) (read_shared h)"
  unfolding journal_read_def read_shared_def by (intro durable_host)+

lemma durable_shared: "keeps (durable_rel P) (with_shared u)"
  unfolding with_shared_def by (rule durable_idle) simp

lemma durable_secret:
  "keeps (durable_rel P) (put_run_secret E name v)" "keeps (durable_rel P) (journal_write (delete_secret name))"
  unfolding put_run_secret_def
  by (intro durable_host durable_journal_write; elim put_secret_Inr delete_secret_Inr)+

lemma durable_load: "keeps (durable_rel P) (load_secret_string E name)"
  unfolding load_secret_string_def by (intro durable_host durable_read)

lemma durable_run_append: "keeps (durable_rel (re_P E)) (run_append E run cycle ty payload)"
  unfolding run_append_def by (intro durable_host)

lemmas durable_run = durable_host durable_call durable_read durable_shared durable_secret durable_load durable_run_append

lemma durable_lifecycle: "keeps (durable_rel (re_P E)) (append_lifecycle E run ty source)"
  unfolding append_lifecycle_def by (intro durable_run)

lemma durable_missed: "keeps (durable_rel (re_P E)) (append_missed_cycle E run at reason)"
  unfolding append_missed_cycle_def by (intro durable_run)

lemma durable_forget: "keeps (durable_rel P) (forget_run E run)"
  unfolding forget_run_def by (intro durable_run)

lemma durable_stop: "keeps (durable_rel (re_P E)) (stop_on_schedule E run)"
  unfolding stop_on_schedule_def by (intro durable_run durable_lifecycle durable_forget)

definition logged_rel :: "prims \<Rightarrow> 'w session \<Rightarrow> 'w session \<Rightarrow> bool" where
  "logged_rel P s s' \<longleftrightarrow> durable_rel P (ss_host s) (ss_host s')"

interpretation logbook: step_relation "logged_rel P" for P :: prims
  by unfold_locales (auto simp: logged_rel_def intro: dur.R_refl dur.R_trans)

lemma logged_on_host: "keeps (durable_rel P) m \<Longrightarrow> keeps (logged_rel P) (on_host m)"
  by (auto intro!: keepsI elim!: on_host_cases simp: logged_rel_def dest: keepsD)

lemma logged_put: "(\<And>s. ss_host (u s) = ss_host s) \<Longrightarrow> keeps (logged_rel P) (sput u)"
  by (auto intro!: keepsI simp: sput_def logged_rel_def dur.R_refl)

lemmas logged_steps = logbook.keeps_intros logged_on_host logged_put durable_run durable_lifecycle durable_missed
  durable_forget durable_stop

lemma logged_gate: "keeps (logged_rel (re_P E)) (record_gate E)"
  unfolding record_gate_def Let_def by (intro logged_steps) simp_all

lemma logged_settings: "keeps (logged_rel (re_P E)) (apply_settings E st)"
  unfolding apply_settings_def prod.case_eq_if by (intro logged_steps) simp_all

lemma logged_strategy: "keeps (logged_rel (re_P E)) (switch_strategy E b)"
  unfolding switch_strategy_def by (intro logged_steps) simp_all

lemma durable_session_cycle:
  "keeps (durable_rel (re_P E)) (stry (execute_live_cycle (live_of E run leverage words) books))"
  using durable_live_cycle [of "live_of E run leverage words"] by (simp add: live_of_def keeps_try)

lemma keeps_get_bind: "(\<And>s. keeps R (f (h s))) \<Longrightarrow> keeps R (sbind (sget h) f)"
  by (simp add: keeps_def sbind_def sget_def)

lemma logged_decide: "keeps (logged_rel (re_P E)) (decide_cycle E)"
proof -
  have survive: "keeps (logged_rel (re_P E)) (case result of Inr _ \<Rightarrow> sret ()
      | Inl e \<Rightarrow> (case e of LcRuntime _ \<Rightarrow> sret () | _ \<Rightarrow> slift (Inl (LrCycle e))))" for result :: "live_error + live_result"
    by (split sum.split, intro conjI allI impI logbook.keeps_ret, split live_error.split)
      (intro conjI allI impI logbook.keeps_ret logbook.keeps_lift)
  show ?thesis unfolding decide_cycle_def
    by (rule logbook.keeps_bind, intro logged_steps, rule keeps_get_bind, simp only: prod.case,
        rule logbook.keeps_bind [OF logged_on_host [OF durable_session_cycle] survive])
qed

lemma logged_tick: "keeps (logged_rel (re_P E)) (session_tick E e)"
proof (cases e)
  case LeaseTick
  then show ?thesis unfolding session_tick.simps LeaseTick lease_tick_def by (intro logged_steps)
next
  case LifecycleTick
  show ?thesis unfolding session_tick.simps LifecycleTick lifecycle_tick_def
    by (intro logged_steps logged_gate; split option.split; intro conjI allI impI logged_steps logged_settings logged_strategy)
next
  case CycleTick
  show ?thesis unfolding session_tick.simps CycleTick cycle_tick_def schedule_over_def miss_cycle_def count_cycle_def
      prod.case_eq_if
    by (intro logged_steps logged_decide) simp_all
next
  case (BookTick snapshot)
  show ?thesis unfolding session_tick.simps BookTick book_tick_def
    by (split sum.split, intro conjI allI impI logged_steps) simp_all
qed

lemma logged_meanwhile: "logged_rel P s (meanwhile sh s)"
  by (simp add: logged_rel_def meanwhile_def durable_rel_def)

lemma session_run_logged: "session_run E s es s' \<Longrightarrow> logged_rel (re_P E) s s'"
proof (induction rule: session_run.induct)
  case (turned es s' e sh s'')
  then show ?case using logbook.R_trans logged_meanwhile keepsD [OF logged_tick] by metis
qed (rule logbook.R_refl)

section \<open>The start of a session\<close>

lemma durable_initialize: "keeps (durable_rel (re_P E)) (initialize_event_chain E run)"
  unfolding initialize_event_chain_def Let_def
  by (intro durable_run; split option.split; intro conjI allI impI durable_run)

lemma durable_acquire: "keeps (durable_rel P) (acquire_run E)"
  unfolding acquire_run_def Let_def prod.case_eq_if
  by (intro durable_run; split option.split; intro conjI allI impI; split option.split; intro conjI allI impI durable_run)

lemma durable_load_risk: "keeps (durable_rel P) (load_risk E run now)"
proof -
  have store: "keeps (durable_rel P) (\<lambda>s. case store_live_risk_state (re_P E) (re_A E) (re_C E) nonce (hs_journal s) run r of
               Inl e \<Rightarrow> (Inl (LrCycle e), s) | Inr j \<Rightarrow> (Inr (), s\<lparr>hs_journal := j\<rparr>))" for nonce r
    by (rule keepsI) (auto simp: store_live_risk_state_def durable_rel_def dest!: put_secret_Inr same_events split: sum.splits)
  have put: "keeps (durable_rel P) (sput (hs_risk_update f))" for f
    by (rule durable_idle) simp
  show ?thesis unfolding load_risk_def Let_def
    by (intro durable_run; split option.split; intro conjI allI impI durable_run put store)
qed

lemma durable_missed_cycles: "keeps (durable_rel (re_P E)) (append_missed_cycles E run cooldown n completed)"
  by (induction n arbitrary: completed) (simp_all only: append_missed_cycles.simps, (intro durable_run durable_missed; assumption?)+)

lemma durable_reconcile_run:
  "keeps (durable_rel (re_P E)) (reconcile_run E run cooldown leverage expected strategy now)"
  using durable_reconcile_live [of "live_of E run leverage (sb_system_instructions strategy)"]
  unfolding reconcile_run_def
  by (intro durable_run durable_initialize durable_load_risk durable_missed_cycles) (simp add: live_of_def)

lemma adds_weaken: "adds g run n m \<Longrightarrow> adds (\<lambda>_. False) run n m"
  by (rule addsI) (auto dest: addsD)

lemma unwritten_load_risk: "keeps same_rows (load_risk E run now)"
proof -
  have store: "keeps same_rows (\<lambda>s. case store_live_risk_state (re_P E) (re_A E) (re_C E) nonce (hs_journal s) run r of
               Inl e \<Rightarrow> (Inl (LrCycle e), s) | Inr j \<Rightarrow> (Inr (), s\<lparr>hs_journal := j\<rparr>))" for nonce r
    by (rule keepsI) (auto simp: store_live_risk_state_def same_rows_def dest: put_secret_rows split: sum.splits)
  have put: "keeps same_rows (sput (hs_risk_update f))" for f
    by (rule unwritten_idle) simp
  show ?thesis unfolding load_risk_def Let_def
    by (intro unwritten_run; split option.split; intro conjI allI impI unwritten_run put store)
qed

lemma adds_if: "adds g run n m \<Longrightarrow> adds g run n k \<Longrightarrow> adds g run n (if b then m else k)"
  by simp

lemma adds_reconcile_live:
  assumes "lv_run_id L = run"
  shows "adds (\<lambda>_. False) run 0 (serr f (reconcile_live_state L))"
  unfolding reconcile_live_state_def
  by (rule adds_err, rule adds_weaken [of survived])
    (intro adds_then adds_events assms adds_unwritten unwritten_reconcile unwritten_live)

lemma append_missed_cycles_Inr:
  assumes "append_missed_cycles E run cooldown n completed s = (Inr c, s')"
  shows "cycles run (hs_journal s') = cycles run (hs_journal s) + n \<and> unat c = unat completed + n"
  using assms
proof (induction n arbitrary: completed s)
  case (Suc n)
  then obtain at s1 u s2 c1 where at: "slift (scheduled_cycle_at (re_manifest E) cooldown completed) s = (Inr at, s1)"
    and missed: "append_missed_cycle E run at ''companion_unavailable_at_boundary'' s1 = (Inr u, s2)"
    and c1: "checked_add completed 1 = Some c1" and rest: "append_missed_cycles E run cooldown n c1 s2 = (Inr c, s')"
    by (auto simp: slift_def elim!: sbind_InrE)
  have "s1 = s" using at by (simp add: slift_def)
  with addsD [OF adds_missed missed] Suc.IH [OF rest] unat_checked_add [OF c1] show ?case by simp
qed (simp add: sret_def)

text \<open>The number of a run's events fits an \<open>i64\<close>, so the count of its cycles is exact.\<close>

lemma run_rows_bound:
  assumes "journal_inv P j"
  shows "length (run_rows run j) < 2 ^ 63"
proof (cases "run_rows run j = []")
  case False
  let ?r = "last (run_rows run j)" and ?n = "length (run_rows run j)"
  have "linked zero_hash 0 (run_rows run j)" using assms by (simp add: journal_inv_def)
  moreover have "int (?n - 1) + 1 = int ?n" using False by (cases "run_rows run j") auto
  ultimately have "jr_sequence ?r = int ?n" using linked_nth [of zero_hash 0 "run_rows run j" "?n - 1"] False
    by (simp add: last_conv_nth)
  moreover have "?r \<in> set (jn_events j)" using last_in_set [OF False] by (auto simp: run_rows_def)
  then have "jr_sequence ?r \<le> i64_max"
    using assms by (simp add: journal_inv_def list_all_iff row_ok_def)
  ultimately show ?thesis by (simp add: i64_max_def)
qed simp

lemma cycles_bound:
  assumes "journal_inv P j"
  shows "cycles run j < 2 ^ 63"
proof -
  have "cycles run j = length (filter (\<lambda>r. cycle_type (ev_event_type (jr_envelope r))) (run_rows run j))"
    by (simp add: cycles_def rows_def run_rows_def filter_map o_def case_prod_unfold conj_commute)
  also have "\<dots> \<le> length (run_rows run j)" by (rule length_filter_le)
  finally show ?thesis using run_rows_bound [OF assms, of run] by simp
qed

lemma reconcile_run_counts:
  assumes "reconcile_run E run cooldown leverage expected strategy now s = (Inr c, s')"
    and "journal_inv (re_P E) (hs_journal s)"
  shows "cycles run (hs_journal s') = unat c"
proof -
  from assms(1) obtain u s1 n v s2 w s3 later s4 and due :: u64 where
    chain: "initialize_event_chain E run s = (Inr u, s1)"
    and count: "completed_cycle_count run (hs_journal s1) = Some n"
    and risk: "load_risk E run now s1 = (Inr v, s2)"
    and live: "serr reconcile_error (reconcile_live_state (live_of E run leverage (sb_system_instructions strategy))) s2
      = (Inr w, s3)"
    and clock: "ask (he_clock (re_E E)) s3 = (Inr later :: live_run_error + int, s4)"
    and missed: "append_missed_cycles E run cooldown (unat due - unat n) n s4 = (Inr c, s')"
    unfolding reconcile_run_def
    by (auto simp: sget_def slift_def ok_or_def elim!: sbind_InrE split: option.splits if_splits)
  have "journal_inv (re_P E) (hs_journal s1)"
    using keepsD [OF durable_initialize chain] assms(2) by (simp add: durable_rel_def)
  then have "cycles run (hs_journal s1) < 2 ^ 64" using cycles_bound [of "re_P E" "hs_journal s1" run] by simp
  then have "unat n = cycles run (hs_journal s1)"
    using completed_cycle_count_cycles [OF count] by (simp add: unat_of_nat)
  moreover have "cycles run (hs_journal s2) = cycles run (hs_journal s1)"
    using addsD [OF adds_unwritten [OF unwritten_load_risk] risk] by simp
  moreover have "cycles run (hs_journal s3) = cycles run (hs_journal s2)"
    using addsD [OF adds_reconcile_live live] by (simp add: live_of_def)
  moreover have "cycles run (hs_journal s4) = cycles run (hs_journal s3)"
    using addsD [OF adds_unwritten [OF unwritten_ask] clock] by simp
  ultimately show ?thesis using append_missed_cycles_Inr [OF missed] by simp
qed


lemma durable_settings_of: "keeps (durable_rel P) (run_settings_of E run)"
  unfolding run_settings_of_def by (intro durable_run)

lemma durable_open_strategy: "keeps (durable_rel P) (open_strategy E run)"
  unfolding open_strategy_def Let_def by (intro durable_run)

lemma unwritten_acquire: "keeps same_rows (acquire_run E)"
  unfolding acquire_run_def Let_def prod.case_eq_if
  by (intro unwritten_run; split option.split; intro conjI allI impI; split option.split; intro conjI allI impI unwritten_run)

lemma durable_resume: "keeps (durable_rel (re_P E)) (resume_after_reconciliation E run)"
  unfolding resume_after_reconciliation_def by (intro durable_run durable_lifecycle)

lemma adds_resume: "adds (\<lambda>_. False) run 0 (resume_after_reconciliation E run)"
  unfolding resume_after_reconciliation_def
  by (intro adds_then adds_unwritten [OF unwritten_read] adds_unwritten [OF unwritten_gate]
      adds_unwritten [OF unwritten_shared(1)] adds_if adds_lifecycle adds_unwritten [OF unwritten.keeps_lift]
      adds_unwritten [OF unwritten.keeps_ret]) (simp add: cycle_type_def)

lemma enter_loop_Inr:
  assumes "enter_loop E run cooldown leverage expected strategy completed h = (Inr (Some s), h')"
  shows "ss_host s = h' \<and> ss_run s = run \<and> ss_completed s = completed \<and> ss_expected s = expected
    \<and> ss_cooldown s = cooldown \<and> completed < expected
    \<and> cycles run (hs_journal h') = cycles run (hs_journal h)"
proof -
  from assms have lt: "completed < expected"
    by (auto simp: enter_loop_def sret_def not_le elim!: sbind_InrE split: if_splits)
  then have no: "(expected \<le> completed) = False" by simp
  from assms obtain books h1 recorded h2 u h3 and t :: int and h4 where
    stream: "call_venue (re_stream E) h = (Inr books, h1)"
    and resume: "resume_after_reconciliation E run h1 = (Inr recorded, h2)"
    and active: "with_shared (\<lambda>w. w\<lparr>sh_active_run := Some run\<rparr>) h2 = (Inr u, h3)"
    and clock: "ask (he_clock (re_E E)) h3 = (Inr t :: live_run_error + int, h4)"
    and s: "s = \<lparr>ss_host = h4, ss_run = run, ss_completed = completed, ss_expected = expected,
            ss_cooldown = cooldown, ss_leverage = leverage, ss_strategy = strategy,
            ss_books = bt_of_list (map (\<lambda>b. (bk_symbol b, b)) books), ss_recorded = recorded\<rparr>" "h' = h4"
    unfolding enter_loop_def no if_False by (auto simp: slift_def elim!: sbind_InrE)
  have "cycles run (hs_journal h1) = cycles run (hs_journal h)"
    using addsD [OF adds_unwritten [OF unwritten_call_venue] stream] by simp
  moreover have "cycles run (hs_journal h3) = cycles run (hs_journal h2)"
    using addsD [OF adds_unwritten [OF unwritten_shared(2)] active] by simp
  moreover have "cycles run (hs_journal h4) = cycles run (hs_journal h3)"
    using addsD [OF adds_unwritten [OF unwritten_ask] clock] by simp
  moreover have "cycles run (hs_journal h2) = cycles run (hs_journal h1)"
    using addsD [OF adds_resume resume] by simp
  ultimately show ?thesis using lt by (simp add: s)
qed

text \<open>The session that \<open>run_session\<close> enters its loop with.\<close>

lemma run_session_Inr:
  assumes "run_session E h = (Inr (Some s), h')" and "journal_inv (re_P E) (hs_journal h)"
  shows "ss_host s = h' \<and> cycles (ss_run s) (hs_journal h') = unat (ss_completed s)
    \<and> ss_completed s < ss_expected s \<and> on_schedule E s"
proof -
  let ?m = "re_manifest E" and ?P = "re_P E"
  define venue :: "('a, unit) run_step" where "venue = (if am_mode ?m = HistoricalBacktest then slift (Inl LrConfiguration)
             else call_venue (re_connect E (am_mode ?m)))"
  from assms(1) obtain now :: int and h0 run h1 cooldown leverage h2 expected strategy h3 u h4 v h5 completed h6 where
    clock: "ask (he_clock (re_E E)) h = (Inr now :: live_run_error + int, h0)"
    and acquire: "acquire_run E h0 = (Inr run, h1)"
    and settings: "run_settings_of E run h1 = (Inr (cooldown, leverage), h2)"
    and expected: "expected_cycle_count ?m cooldown = Inr expected"
    and strategy: "open_strategy E run h2 = (Inr strategy, h3)"
    and connect: "venue h3 = (Inr u, h4)"
    and lev: "call_venue (re_configure_leverage E (pa_execution_account (re_config E)) leverage) h4 = (Inr v, h5)"
    and reconcile: "reconcile_run E run cooldown leverage expected strategy now h5 = (Inr completed, h6)"
    and enter: "enter_loop E run cooldown leverage expected strategy completed h6 = (Inr (Some s), h')"
    unfolding run_session_def Let_def venue_def [symmetric]
    by (auto simp: slift_def elim!: sbind_InrE split: if_splits)
  have venue: "keeps (durable_rel ?P) venue" unfolding venue_def by (intro durable_run)
  have "durable_rel ?P h h5"
    using keepsD [OF durable_ask clock] keepsD [OF durable_acquire acquire] keepsD [OF durable_settings_of settings]
      keepsD [OF durable_open_strategy strategy] keepsD [OF venue connect] keepsD [OF durable_call(2) lev]
    by (blast intro: dur.R_trans)
  then have "journal_inv ?P (hs_journal h5)" using assms(2) by (simp add: durable_rel_def)
  with reconcile_run_counts [OF reconcile] enter_loop_Inr [OF enter] expected show ?thesis
    by (simp add: on_schedule_def)
qed


section \<open>The journal and the session agree\<close>

lemma completed_cycle_count_exact:
  assumes "journal_inv P j"
  shows "completed_cycle_count run j = Some (of_nat (cycles run j))"
proof -
  have "cycles run j < 2 ^ 64" using cycles_bound [OF assms, of run] by simp
  then show ?thesis
    by (simp add: completed_cycle_count_def checked_add_def event_count_def unat_of_nat cycles_split)
qed

text \<open>
  C7. The count of completed cycles a session holds is the count its journal would give: whatever
  turns the loop takes, paused, failed and missed cycles included, a restart at any point reads
  the same number back.
\<close>

theorem completed_cycles_are_journaled:
  assumes "session_run E s es s'" and "journal_inv (re_P E) (hs_journal (ss_host s))"
    and "completed_cycle_count (ss_run s) (hs_journal (ss_host s)) = Some (ss_completed s)"
  shows "completed_cycle_count (ss_run s') (hs_journal (ss_host s')) = Some (ss_completed s')"
proof -
  have "cycles (ss_run s) (hs_journal (ss_host s)) = unat (ss_completed s)"
    using completed_cycle_count_cycles [OF assms(3)] cycles_bound [OF assms(2), of "ss_run s"]
    by (simp add: unat_of_nat)
  then have "cycles (ss_run s') (hs_journal (ss_host s')) = unat (ss_completed s')"
    using session_run_tallies [OF assms(1)] by blast
  moreover have "journal_inv (re_P E) (hs_journal (ss_host s'))"
    using session_run_logged [OF assms(1)] assms(2) by (simp add: logged_rel_def durable_rel_def)
  ultimately show ?thesis using completed_cycle_count_exact by fastforce
qed

text \<open>The session that a start hands to the loop satisfies what the loop relies on.\<close>

lemma started_session:
  assumes "run_session E h = (Inr (Some s), h')" and "journal_inv (re_P E) (hs_journal h)"
    and "journal_inv (re_P E) (hs_journal h')"
  shows "completed_cycle_count (ss_run s) (hs_journal (ss_host s)) = Some (ss_completed s)"
    and "ss_completed s < ss_expected s" and "on_schedule E s"
  using run_session_Inr [OF assms(1,2)] completed_cycle_count_exact [OF assms(3), of "ss_run s"] by simp_all

text \<open>
  C6. A running session never loses anything: the chain of its journal stays valid, events and
  receipts are only added, and every event it offered to the server or was given a receipt for is
  in the journal, whatever the server, the venue and the model answer.
\<close>

theorem session_keeps_journal:
  assumes "session_run E s es s'" and "journal_inv (re_P E) (hs_journal (ss_host s))"
  shows "journal_inv (re_P E) (hs_journal (ss_host s'))
    \<and> (\<exists>new. envelopes (hs_journal (ss_host s')) = envelopes (hs_journal (ss_host s)) @ new)
    \<and> receipted (hs_journal (ss_host s)) \<subseteq> receipted (hs_journal (ss_host s'))
    \<and> (\<exists>t. hs_trace (ss_host s') = hs_trace (ss_host s) @ t
         \<and> list_all (effect_recorded (hs_journal (ss_host s'))) t)"
  using session_run_logged [OF assms(1)] assms(2) unfolding logged_rel_def durable_rel_def list_all_iff by blast

end
