(* ===== verification/Restart.thy ===== *)
theory Restart
  imports SessionLog
begin

text \<open>
  What a restart does: the lifecycle events of a run in its journal and the execution gate they
  stand for. Only the session's own handlers write lifecycle events; every other step, failed or
  not, leaves them alone.
\<close>

section \<open>Lifecycle events\<close>

definition lifecycle :: "uuid \<Rightarrow> journal \<Rightarrow> run_event list" where
  "lifecycle run j = map snd (filter (\<lambda>(r, e). r = run \<and> lifecycle_type (ev_event_type e)) (rows j))"

definition same_life :: "('w, 'z) host_scheme \<Rightarrow> ('w, 'z) host_scheme \<Rightarrow> bool" where
  "same_life s s' \<longleftrightarrow> (\<forall>run. lifecycle run (hs_journal s') = lifecycle run (hs_journal s))"

interpretation life: step_relation same_life
  by unfold_locales (auto simp: same_life_def)

lemma life_unwritten: "keeps same_rows m \<Longrightarrow> keeps same_life m"
  by (auto intro!: keepsI simp: same_life_def lifecycle_def same_rows_def dest!: keepsD)

lemma keeps_lift_bind:
  assumes "\<And>s. R s s" and "\<And>x. m = Inr x \<Longrightarrow> keeps R (f x)"
  shows "keeps R (sbind (slift m) f)"
  using assms by (cases m) (auto simp: keeps_def sbind_def slift_def)

lemma life_append_event:
  assumes "\<not> lifecycle_type (ev_event_type e)"
  shows "keeps same_life (on_journal (append_event P A nonce e private))"
proof (rule keepsI)
  fix s :: "('a, 'b) host_scheme" and r s'
  assume "on_journal (append_event P A nonce e private) s = (r, s')"
  then show "same_life s s'"
    using assms
    by (auto simp: on_journal_def same_life_def lifecycle_def rows_def elim!: append_event_Inr split: sum.splits)
qed

lemma life_append:
  assumes "\<not> lifecycle_type ty"
  shows "keeps same_life (append_durable P A E W cycle ty payload private)"
proof -
  have signed: "ev_event_type e = ty"
    if "map_err DwProtocol (sign_event P (dw_signing_key W) i (dw_arena_id W) (dw_run_id W) cycle n h ty now payload) = Inr e"
    for i n h now e
    using that sign_event_Inr by fastforce
  have position: "keeps same_life (next_position W)"
    unfolding next_position_def by (intro life.keeps_intros)
  have "keeps same_life (write_event P A E W cycle ty payload private)"
    unfolding write_event_def prod.case_eq_if
    by (rule life.keeps_bind [OF position], (rule life.keeps_bind, rule life_unwritten [OF unwritten_ask])+,
        rule keeps_lift_bind, rule life.R_refl, rule life.keeps_bind, rule life_unwritten [OF unwritten_ask],
        rule life.keeps_bind, rule life_append_event, subst signed, assumption, rule assms, rule life.keeps_ret)
  then show ?thesis unfolding append_durable_def
    by (intro life.keeps_intros life_unwritten [OF unwritten_flush] life_unwritten [OF unwritten_send])
qed

text \<open>The live cycle.\<close>

lemma life_live_append: "\<not> lifecycle_type ty \<Longrightarrow> keeps same_life (live_append L cycle ty payload pv)"
  unfolding live_append_def by (intro keeps_err life_append)

lemmas life_live = life.keeps_intros life_live_append unwritten_ask [THEN life_unwritten]
  unwritten_logged [THEN life_unwritten] unwritten_with_risk [THEN life_unwritten] unwritten_query [THEN life_unwritten]
  unwritten_clock [THEN life_unwritten] unwritten_store [THEN life_unwritten] unwritten_checked [THEN life_unwritten]
  unwritten_fresh [THEN life_unwritten] unwritten_observe [THEN life_unwritten]

lemma life_events: "keeps same_life (reconciliation_events L cycle session x)"
  unfolding reconciliation_events_def prod.case_eq_if by (intro life_live) (simp_all add: lifecycle_type_def)

lemma life_end_cycle: "keeps same_life (end_cycle L ob symbol allowed payload)"
  unfolding end_cycle_def by (intro life_live) (simp add: lifecycle_type_def)

lemma life_reconcile: "keeps same_life m \<Longrightarrow> keeps same_life (reconcile_account L m)"
  unfolding reconcile_account_def by (intro life_live)

lemma life_settle: "keeps same_life (settle L ob symbol submission)"
  unfolding settle_def by (intro life_live life_events life_reconcile) (simp_all add: lifecycle_type_def)

lemma life_dispatch: "keeps same_life (dispatch L ob p)"
proof -
  have view: "keeps same_life (dispatch_view L ob p)"
    unfolding dispatch_view_def by (intro life_live) (simp add: lifecycle_type_def)
  have order: "keeps same_life (dispatch_order L ob symbol order)" for symbol order
    unfolding dispatch_order_def prepare_order_def submit_def Let_def
    by (intro life_live life_end_cycle life_settle) (simp_all add: lifecycle_type_def)
  show ?thesis unfolding dispatch_def prod.case_eq_if
    by (intro life_live view; split sum.split; intro conjI allI impI life_end_cycle order)
qed

lemma life_live_cycle: "keeps same_life (execute_live_cycle L books)"
proof -
  have opened: "keeps same_life (open_cycle L ob)" for ob
    unfolding open_cycle_def Let_def by (intro life_live) (simp_all add: lifecycle_type_def)
  have decided: "keeps same_life (decide L ob tools)" for ob tools
    unfolding decide_def
    by (intro life_live; split sum.split; intro conjI allI impI life_live) (simp_all add: lifecycle_type_def)
  have published: "keeps same_life (publish_decision L ob out)" for ob out
    unfolding publish_decision_def by (intro life_live) (simp_all add: lifecycle_type_def)
  show ?thesis unfolding execute_live_cycle_def hold_def
    by (intro life_live opened decided published; split option.split; intro conjI allI impI life_end_cycle life_dispatch)
qed

section \<open>Lifecycle events of a session\<close>

definition life_rel :: "'w session \<Rightarrow> 'w session \<Rightarrow> bool" where
  "life_rel s s' \<longleftrightarrow> ss_run s' = ss_run s \<and> ss_recorded s' = ss_recorded s \<and> same_life (ss_host s) (ss_host s')"

interpretation alive: step_relation life_rel
  by unfold_locales (auto simp: life_rel_def same_life_def)

lemma alive_host: "keeps same_life m \<Longrightarrow> keeps life_rel (on_host m)"
  by (auto intro!: keepsI elim!: on_host_cases simp: life_rel_def dest: keepsD)

lemma alive_put:
  "(\<And>s. ss_host (u s) = ss_host s \<and> ss_run (u s) = ss_run s \<and> ss_recorded (u s) = ss_recorded s)
    \<Longrightarrow> keeps life_rel (sput u)"
  by (auto intro!: keepsI simp: sput_def life_rel_def same_life_def)

lemma life_run_append: "\<not> lifecycle_type ty \<Longrightarrow> keeps same_life (run_append E run cycle ty payload)"
  unfolding run_append_def by (intro keeps_err life_append)

lemma life_missed: "keeps same_life (append_missed_cycle E run at reason)"
  unfolding append_missed_cycle_def by (intro life_live life_run_append) (simp add: lifecycle_type_def)

lemmas alive_steps = alive.keeps_intros alive_host alive_put life_run_append life_missed
  tallies_locals [THEN life_unwritten]

lemma alive_settings: "keeps life_rel (apply_settings E st)"
  unfolding apply_settings_def prod.case_eq_if by (intro alive_steps) (simp_all add: lifecycle_type_def)

lemma alive_strategy: "keeps life_rel (switch_strategy E b)"
  unfolding switch_strategy_def by (intro alive_steps) (simp_all add: lifecycle_type_def)

lemma alive_lease: "keeps life_rel (lease_tick E)"
  unfolding lease_tick_def by (intro alive_steps)

lemma alive_book: "keeps life_rel (book_tick E snapshot)"
  unfolding book_tick_def by (split sum.split, intro conjI allI impI alive_steps) simp_all

lemma alive_decide: "keeps life_rel (decide_cycle E)"
  unfolding decide_cycle_def prod.case_eq_if
  by (intro alive_steps life_live life_live_cycle; split sum.split; intro conjI allI impI alive_steps;
      split live_error.split; intro conjI allI impI alive_steps)

lemma alive_cycle:
  assumes "cycle_tick E s = (Inr Continue, s')"
  shows "life_rel s s'"
proof -
  have over: "keeps life_rel (schedule_over E)"
    unfolding schedule_over_def by (intro alive_steps)
  have rest: "keeps life_rel (sbind (on_host (read_shared (\<lambda>w. gate_is_running (sh_gate w)))) (\<lambda>running.
     sbind (if running then decide_cycle E else miss_cycle E) (\<lambda>_. count_cycle)))"
    unfolding miss_cycle_def count_cycle_def prod.case_eq_if by (intro alive_steps alive_decide) simp_all
  from assms obtain s1 where "schedule_over E s = (Inr False, s1)"
    and "sbind (on_host (read_shared (\<lambda>w. gate_is_running (sh_gate w)))) (\<lambda>running.
     sbind (if running then decide_cycle E else miss_cycle E) (\<lambda>_. count_cycle)) s1 = (Inr Continue, s')"
    unfolding cycle_tick_def by (elim sbind_InrE) (auto simp: sret_def elim!: sbind_InrE split: if_splits)
  then show ?thesis using alive.R_trans keepsD [OF over] keepsD [OF rest] by blast
qed

section \<open>What the journal remembers of the gate\<close>

definition last_event :: "run_event list \<Rightarrow> run_event option" where
  "last_event es = (if es = [] then None else Some (last es))"

text \<open>The latest of a list with rising sequence numbers is its last.\<close>

lemma latest_of_snoc: "latest_of (es @ [e]) = (case latest_of es of None \<Rightarrow> Some e
     | Some b \<Rightarrow> if ev_sequence b \<le> ev_sequence e then Some e else Some b)"
  by (simp add: latest_of_def split: option.split)

lemma latest_of_rising:
  "sorted (map ev_sequence es) \<Longrightarrow> latest_of es = last_event es"
proof (induction es rule: rev_induct)
  case Nil
  show ?case by (simp add: latest_of_def last_event_def)
next
  case (snoc e es)
  then have "latest_of es = last_event es" and le: "\<And>x. x \<in> set es \<Longrightarrow> ev_sequence x \<le> ev_sequence e"
    by (auto simp: sorted_append)
  with le [of "last es"] show ?case by (auto simp: latest_of_snoc last_event_def)
qed

lemma run_rows_rising:
  assumes "journal_inv P j"
  shows "sorted (map (\<lambda>r. ev_sequence (jr_envelope r)) (run_rows run j))"
proof -
  have "sorted (map jr_sequence (run_rows run j))"
    using assms linked_sorted by (auto simp: journal_inv_def)
  moreover have "\<forall>r \<in> set (run_rows run j). uint (ev_sequence (jr_envelope r)) = jr_sequence r"
    using assms by (simp add: journal_inv_def list_all_iff row_ok_def run_rows_def)
  ultimately show ?thesis by (auto simp: sorted_iff_nth_mono word_le_def)
qed

lemma runs_again_attach: "runs_again (last_event (map attach rs)) = runs_again (last_event (map jr_envelope rs))"
  by (simp add: last_event_def runs_again_def last_map attach_def)

lemma should_run_lifecycle:
  assumes "journal_inv P j" and "inj (uuid_str P)"
  shows "should_run_after_reconciliation P run j = Inr (runs_again (last_event (lifecycle run j)))"
proof -
  let ?S = "map attach (sort_key (export_key P) (jn_events j))"
  let ?R = "filter (\<lambda>r. lifecycle_type (ev_event_type (jr_envelope r))) (run_rows run j)"
  have "filter (\<lambda>e. ev_run_id e = run \<and> lifecycle_type (ev_event_type e)) ?S
      = filter (\<lambda>e. lifecycle_type (ev_event_type e)) (filter (\<lambda>e. ev_run_id e = run) ?S)"
    by (simp add: conj_commute)
  also have "\<dots> = map attach ?R"
    unfolding exported_run [OF assms(1)] by (simp add: filter_map o_def attach_def)
  finally have events: "filter (\<lambda>e. ev_run_id e = run \<and> lifecycle_type (ev_event_type e)) ?S = map attach ?R" .
  have "sorted (map (\<lambda>r. ev_sequence (jr_envelope r)) ?R)"
    using run_rows_rising [OF assms(1)] by (rule sorted_filter)
  then have "sorted (map ev_sequence (map attach ?R))" by (simp add: o_def)
  then have "latest_of (map attach ?R) = last_event (map attach ?R)" by (rule latest_of_rising)
  moreover have "lifecycle run j = map jr_envelope ?R"
    by (simp add: lifecycle_def rows_def run_rows_def filter_map o_def case_prod_unfold conj_commute)
  ultimately show ?thesis
    using public_events_Inr [OF assms] events
    by (simp add: should_run_after_reconciliation_def runs_again_attach)
qed

lemma append_lifecycle_Inr:
  assumes "append_lifecycle E run ty source s = (Inr u, s')" and "lifecycle_type ty"
  obtains e where "lifecycle run (hs_journal s') = lifecycle run (hs_journal s) @ [e]"
    and "ev_event_type e = ty" and "ev_payload e = JObj [(''source'', JStr source)]"
proof -
  obtain e' where "append_durable (re_P E) (re_A E) (re_E E) (run_writer E run) None ty (JObj [(''source'', JStr source)])
      JNull s = (Inr e', s')"
    using assms(1) by (auto simp: append_lifecycle_def run_append_def sret_def elim!: sbind_InrE serr_cases
        simp: eq_commute [of "Inr _" "map_err _ _"])
  then obtain e where "rows (hs_journal s') = rows (hs_journal s) @ [(run, e)]" "ev_event_type e = ty"
    "ev_payload e = JObj [(''source'', JStr source)]"
    by (rule append_durable_rows) (auto simp: run_writer_def)
  with assms(2) show ?thesis by (intro that [of e]) (simp_all add: lifecycle_def)
qed

definition remembered :: "'w session \<Rightarrow> bool" where
  "remembered s \<longleftrightarrow> runs_again (last_event (lifecycle (ss_run s) (hs_journal (ss_host s)))) = (ss_recorded s = ''running'')"

lemma remembered_rel: "life_rel s s' \<Longrightarrow> remembered s \<Longrightarrow> remembered s'"
  by (simp add: life_rel_def same_life_def remembered_def)

lemma gate_label_cases: "gate_label g = ''running'' \<or> gate_label g = ''paused'' \<or> gate_label g = ''stopped''"
  by (simp add: gate_label_def)

lemma read_bind: "sbind (on_host (read_shared f)) g s = g (f (shared.truncate (hs_world (ss_host s)))) s"
  by (simp add: sbind_def on_host_def read_shared_def sget_def)

lemma session_get_bind: "sbind (sget h) g s = g (h s) s"
  by (simp add: sbind_def sget_def)

definition lifecycle_event :: "string \<Rightarrow> string" where
  "lifecycle_event label = (if label = ''running'' then ''run_resumed''
     else if label = ''paused'' then ''run_paused'' else ''run_stopped'')"

lemma truncated_gate [simp]: "sh_gate (shared.truncate w) = sh_gate w"
  by (simp add: shared.defs)

lemma record_gate_label:
  assumes "label = gate_label (sh_gate (hs_world (ss_host s)))"
  shows "record_gate E s = (if label = ss_recorded s then sret Continue else
     sbind (on_host (append_lifecycle E (ss_run s) (lifecycle_event label) ''authenticated_control'')) (\<lambda>_.
     sbind (sput (\<lambda>s. s\<lparr>ss_recorded := label\<rparr>)) (\<lambda>_.
     if label = ''stopped'' then sbind (on_host (forget_run E (ss_run s))) (\<lambda>_. sret Stopped) else sret Continue))) s"
  unfolding record_gate_def read_bind session_get_bind Let_def lifecycle_event_def assms truncated_gate by (rule refl)

lemma record_gate_cases:
  assumes "record_gate E s = (Inr out, s')"
  obtains (same) "gate_label (sh_gate (hs_world (ss_host s))) = ss_recorded s" and "s' = s"
  | (changed) label e where "label = gate_label (sh_gate (hs_world (ss_host s)))" and "ss_recorded s' = label"
      and "ss_run s' = ss_run s"
      and "lifecycle (ss_run s) (hs_journal (ss_host s')) = lifecycle (ss_run s) (hs_journal (ss_host s)) @ [e]"
      and "ev_event_type e = lifecycle_event label"
      and "ev_payload e = JObj [(''source'', JStr ''authenticated_control'')]"
proof (cases "gate_label (sh_gate (hs_world (ss_host s))) = ss_recorded s")
  case True
  then have "s' = s" using assms unfolding record_gate_label [OF refl] by (simp add: sret_def)
  with True show ?thesis by (rule same)
next
  case False
  define label where "label = gate_label (sh_gate (hs_world (ss_host s)))"
  have "sbind (on_host (append_lifecycle E (ss_run s) (lifecycle_event label) ''authenticated_control'')) (\<lambda>_.
       sbind (sput (\<lambda>s. s\<lparr>ss_recorded := label\<rparr>)) (\<lambda>_.
       if label = ''stopped'' then sbind (on_host (forget_run E (ss_run s))) (\<lambda>_. sret Stopped)
       else sret Continue)) s = (Inr out, s')"
    using assms False unfolding record_gate_label [OF label_def] label_def by simp
  then obtain u h where step: "append_lifecycle E (ss_run s) (lifecycle_event label) ''authenticated_control'' (ss_host s) = (Inr u, h)"
    and rest: "(if label = ''stopped'' then sbind (on_host (forget_run E (ss_run s))) (\<lambda>_. sret Stopped)
       else sret Continue) (s\<lparr>ss_host := h, ss_recorded := label\<rparr>) = (Inr out, s')"
    by (auto simp: sput_def elim!: sbind_InrE on_host_cases)
  have "lifecycle_type (lifecycle_event label)" by (simp add: lifecycle_event_def lifecycle_type_def)
  from append_lifecycle_Inr [OF step this] obtain e where e: "lifecycle (ss_run s) (hs_journal h) = lifecycle (ss_run s) (hs_journal (ss_host s)) @ [e]"
    "ev_event_type e = lifecycle_event label" "ev_payload e = JObj [(''source'', JStr ''authenticated_control'')]" .
  have forget: "lifecycle run (hs_journal h2) = lifecycle run (hs_journal h1)" if "forget_run E (ss_run s) h1 = (r, h2)" for run r h1 h2
    using keepsD [OF life_unwritten [OF unwritten_forget] that] by (simp add: same_life_def)
  have "ss_recorded s' = label \<and> ss_run s' = ss_run s
      \<and> lifecycle (ss_run s) (hs_journal (ss_host s')) = lifecycle (ss_run s) (hs_journal h)"
    using rest forget by (auto simp: sret_def elim!: sbind_InrE on_host_cases split: if_splits)
  with e show ?thesis by (intro changed [of label e]) (simp_all add: label_def)
qed

lemma record_gate_remembered:
  assumes "record_gate E s = (Inr out, s')" and "remembered s"
  shows "remembered s'"
  using assms(1)
proof (cases rule: record_gate_cases)
  case (changed label e)
  then show ?thesis
    by (auto simp: remembered_def runs_again_def last_event_def lifecycle_event_def json_field_def)
qed (use assms(2) in simp)

lemma lifecycle_tick_remembered:
  assumes "lifecycle_tick E s = (Inr x, s')" and "remembered s"
  shows "remembered s'"
proof -
  from assms(1) obtain out s1 where gate: "record_gate E s = (Inr out, s1)"
    and rest: "(if out = Stopped then sret Stopped else
     sbind (on_host (read_shared (\<lambda>w. gate_label (sh_gate w)))) (\<lambda>label.
     if label \<noteq> ''paused'' then sret Continue
     else
     sbind (on_host (read_shared sh_pending_settings)) (\<lambda>settings.
     sbind (case settings of None \<Rightarrow> sret () | Some st \<Rightarrow> apply_settings E st) (\<lambda>_.
     sbind (on_host (read_shared sh_pending_strategy)) (\<lambda>candidate.
     sbind (case candidate of None \<Rightarrow> sret () | Some b \<Rightarrow> switch_strategy E b) (\<lambda>_. sret Continue)))))) s1 = (Inr x, s')"
    unfolding lifecycle_tick_def by (elim sbind_InrE) blast
  have "keeps life_rel (if out = Stopped then sret Stopped else
     sbind (on_host (read_shared (\<lambda>w. gate_label (sh_gate w)))) (\<lambda>label.
     if label \<noteq> ''paused'' then sret Continue
     else
     sbind (on_host (read_shared sh_pending_settings)) (\<lambda>settings.
     sbind (case settings of None \<Rightarrow> sret () | Some st \<Rightarrow> apply_settings E st) (\<lambda>_.
     sbind (on_host (read_shared sh_pending_strategy)) (\<lambda>candidate.
     sbind (case candidate of None \<Rightarrow> sret () | Some b \<Rightarrow> switch_strategy E b) (\<lambda>_. sret Continue))))))"
    by (intro alive_steps; split option.split; intro conjI allI impI alive_steps alive_settings alive_strategy)
  from keepsD [OF this rest] record_gate_remembered [OF gate assms(2)] show ?thesis by (rule remembered_rel)
qed

lemma session_tick_remembered:
  assumes "session_tick E e s = (Inr Continue, s')" and "remembered s"
  shows "remembered s'"
  using assms
  by (cases e) (auto dest: lifecycle_tick_remembered remembered_rel [OF keepsD [OF alive_lease]]
      remembered_rel [OF keepsD [OF alive_book]] remembered_rel [OF alive_cycle])

lemma remembered_meanwhile [simp]: "remembered (meanwhile sh s) = remembered s"
  by (simp add: remembered_def)

lemma session_run_remembered: "session_run E s es s' \<Longrightarrow> remembered s \<Longrightarrow> remembered s'"
  by (induction rule: session_run.induct) (auto dest: session_tick_remembered)

text \<open>A session enters its loop with the gate state that its journal remembers.\<close>

lemma resume_remembered:
  assumes "resume_after_reconciliation E run h = (Inr recorded, h')"
    and "journal_inv (re_P E) (hs_journal h)" and "inj (uuid_str (re_P E))"
  shows "runs_again (last_event (lifecycle run (hs_journal h'))) = (recorded = ''running'')"
proof -
  let ?again = "runs_again (last_event (lifecycle run (hs_journal h)))"
  have read: "journal_read (should_run_after_reconciliation (re_P E) run) h = (Inr ?again, h)"
    using should_run_lifecycle [OF assms(2,3)] by (simp add: journal_read_def sbind_def sget_def slift_def)
  show ?thesis
  proof (cases ?again)
    case True
    with assms(1) read obtain u h1 where step: "append_lifecycle E run ''run_resumed'' ''automatic_after_reconciliation'' h1 = (Inr u, h')"
      and "recorded = ''running''"
      by (auto simp: resume_after_reconciliation_def sret_def slift_def sbind_def [of "journal_read _"]
          elim!: sbind_InrE split: if_splits)
    from append_lifecycle_Inr [OF step] obtain e where
      "lifecycle run (hs_journal h') = lifecycle run (hs_journal h1) @ [e]" "ev_event_type e = ''run_resumed''"
      by (simp add: lifecycle_type_def) blast
    with \<open>recorded = ''running''\<close> show ?thesis by (simp add: last_event_def runs_again_def)
  next
    case False
    with assms(1) read show ?thesis
      by (auto simp: resume_after_reconciliation_def sret_def sbind_def [of "journal_read _"])
  qed
qed

text \<open>
  C8. A restart resumes exactly what was recorded: as long as the session is in its loop, the
  journal's lifecycle events make the next start resume the run if and only if the last gate
  state the session recorded is \<open>running\<close>; a pause by the user or the relay survives a restart.
\<close>

theorem restart_follows_recorded_gate:
  assumes "session_run E s es s'" and "journal_inv (re_P E) (hs_journal (ss_host s))" and "inj (uuid_str (re_P E))"
    and "should_run_after_reconciliation (re_P E) (ss_run s) (hs_journal (ss_host s)) = Inr (ss_recorded s = ''running'')"
  shows "should_run_after_reconciliation (re_P E) (ss_run s') (hs_journal (ss_host s')) = Inr (ss_recorded s' = ''running'')"
proof -
  have "remembered s" using assms(4) should_run_lifecycle [OF assms(2,3)] by (simp add: remembered_def)
  with session_run_remembered [OF assms(1)] have "remembered s'" by simp
  moreover have "journal_inv (re_P E) (hs_journal (ss_host s'))"
    using session_run_logged [OF assms(1)] assms(2) by (simp add: logged_rel_def durable_rel_def)
  ultimately show ?thesis using should_run_lifecycle [OF _ assms(3)] by (simp add: remembered_def)
qed

section \<open>A longer cooldown ends the run\<close>

text \<open>
  New settings rescale the whole schedule, not the rest of it: the expected cycles become
  those of a run that had the new cooldown from the arena's start, while the completed ones keep
  their number. When that many are already done, the next cycle tick stops the run as if the
  arena were over, whatever the clock says.
\<close>

theorem longer_cooldown_ends_run:
  assumes "apply_settings E st s = (Inr (), s')"
    and "expected_cycle_count (re_manifest E) (st_decision_cooldown_seconds st) = Inr n" and "n \<le> ss_completed s"
  shows "ss_expected s' = n \<and> ss_completed s' = ss_completed s
    \<and> cycle_tick E s' = sbind (on_host (stop_on_schedule E (ss_run s))) (\<lambda>_. sret Stopped) s'"
proof -
  have "ss_completed s' = ss_completed s" "ss_run s' = ss_run s"
    using keepsD [OF counted_settings assms(1)] by (simp_all add: counted_rel_def)
  moreover have "ss_expected s' = n"
    using apply_settings_schedule(1,3) [OF assms(1)] assms(2) by (simp add: on_schedule_def)
  ultimately show ?thesis using assms(3)
    by (simp add: cycle_tick_def schedule_over_def session_get_bind sbind_def [of "sbind _ _"]) (simp add: sret_def session_get_bind)
qed

end
