(* ===== verification/SessionTrial.thy ===== *)
theory SessionTrial
  imports Restart
begin

text \<open>
  A concrete session for the witnesses. The toy world of the live cycle counts; here it sits
  beside the shared state of the daemon's tasks, and every step of the writer behaves there as it
  does alone.
\<close>

section \<open>The toy world beside the shared state\<close>

definition up :: "shared \<Rightarrow> (nat, 'z) host_scheme \<Rightarrow> (nat task_world, 'z) host_scheme" where
  "up sh s = \<lparr>hs_journal = hs_journal s, hs_world = shared.extend sh \<lparr>tw_rest = hs_world s\<rparr>,
     hs_trace = hs_trace s, \<dots> = host.more s\<rparr>"

definition raised :: "(nat \<Rightarrow> 'a \<times> nat) \<Rightarrow> nat task_world \<Rightarrow> 'a \<times> nat task_world" where
  "raised f w = (case f (tw_rest w) of (x, n) \<Rightarrow> (x, w\<lparr>tw_rest := n\<rparr>))"

definition toy_task_env :: "nat task_world host_env" where
  "toy_task_env = \<lparr>he_clock = raised (he_clock toy_env), he_uuid = raised (he_uuid toy_env),
     he_nonce = raised (he_nonce toy_env), he_sink = (\<lambda>e. raised (he_sink toy_env e))\<rparr>"

lemma toy_task_env_fields [simp]:
  "he_clock toy_task_env = raised (he_clock toy_env)" "he_uuid toy_task_env = raised (he_uuid toy_env)"
  "he_nonce toy_task_env = raised (he_nonce toy_env)" "he_sink toy_task_env e = raised (he_sink toy_env e)"
  by (simp_all add: toy_task_env_def)

lemma up_fields [simp]:
  "hs_journal (up sh s) = hs_journal s" "hs_trace (up sh s) = hs_trace s"
  "hs_world (up sh s) = shared.extend sh \<lparr>tw_rest = hs_world s\<rparr>" "host.more (up sh s) = host.more s"
  by (simp_all add: up_def)

lemma up_updates:
  "(up sh s)\<lparr>hs_journal := j\<rparr> = up sh (s\<lparr>hs_journal := j\<rparr>)"
  "(up sh s)\<lparr>hs_trace := t\<rparr> = up sh (s\<lparr>hs_trace := t\<rparr>)"
  "(up sh s)\<lparr>hs_world := shared.extend sh \<lparr>tw_rest = n\<rparr>\<rparr> = up sh (s\<lparr>hs_world := n\<rparr>)"
  by (simp_all add: up_def)

definition lifts :: "((nat, 'z) host_scheme, 'e, 'a) step \<Rightarrow> ((nat task_world, 'z) host_scheme, 'e, 'a) step \<Rightarrow> bool" where
  "lifts m m' \<longleftrightarrow> (\<forall>sh s. m' (up sh s) = (case m s of (r, s') \<Rightarrow> (r, up sh s')))"

lemma liftsD: "lifts m m' \<Longrightarrow> m s = (r, s') \<Longrightarrow> m' (up sh s) = (r, up sh s')"
  by (simp add: lifts_def)

lemma lifts_base:
  "lifts (sret v) (sret v)" "lifts (slift m) (slift m)" "lifts (logged ef) (logged ef)"
  "lifts (on_journal f) (on_journal f)" "lifts (acknowledge i x) (acknowledge i x)"
  by (auto simp: lifts_def sret_def slift_def logged_apply on_journal_def acknowledge_def up_updates
      split: sum.split prod.split)

lemma lifts_get: "lifts (sget (\<lambda>s. f (hs_journal s))) (sget (\<lambda>s. f (hs_journal s)))"
  by (simp add: lifts_def sget_def)

lemma lifts_ask: "lifts (ask f) (ask (raised f))"
  by (auto simp: lifts_def ask_def raised_def shared.defs up_def split: prod.split)

lemma lifts_bind: "lifts m m' \<Longrightarrow> (\<And>x. lifts (f x) (f' x)) \<Longrightarrow> lifts (sbind m f) (sbind m' f')"
  by (auto simp: lifts_def sbind_def split: prod.split sum.split)

lemma lifts_err: "lifts m m' \<Longrightarrow> lifts (serr f m) (serr f m')"
  by (auto simp: lifts_def serr_def split: prod.split)

lemma lifts_for: "(\<And>x. lifts (f x) (f' x)) \<Longrightarrow> lifts (sfor f xs) (sfor f' xs)"
  by (induction xs) (simp_all add: lifts_base lifts_bind)

lemmas lifts_steps = lifts_base lifts_get lifts_ask lifts_bind lifts_err lifts_for

lemma lifts_append:
  "lifts (append_durable P A toy_env W cycle ty payload private) (append_durable P A toy_task_env W cycle ty payload private)"
  unfolding append_durable_def flush_pending_def write_event_def next_position_def send_and_acknowledge_def send_event_def
    toy_task_env_fields prod.case_eq_if
  by (intro lifts_steps)

section \<open>A paused session\<close>

definition toy_run_env :: "nat run_env" where
  "toy_run_env = \<lparr>re_P = counting_prims, re_A = toy_aead, re_E = toy_task_env,
     re_C = \<lparr>lc_time = JInt, lc_date = JInt, lc_simple = (\<lambda>u. ''c'')\<rparr>, re_config = toy_prepared,
     re_signing_key = ''seed'', re_device_id = 9, re_device_secret = ''secret'',
     re_start_run = (\<lambda>c w. (Some (2, ''lease''), w)), re_renew_lease = (\<lambda>run lease w. (Some 0, w)),
     re_agent_version = (\<lambda>v w. (None, w)), re_switch_strategy = (\<lambda>run v w. (Some (), w)),
     re_connect = (\<lambda>m w. (Inr (), w)), re_configure_leverage = (\<lambda>a l w. (Inr (), w)),
     re_stream = (\<lambda>w. (Inr [], w)),
     re_venue = \<lparr>vn_account = (\<lambda>a. raised (vn_account toy_venue a)),
       vn_markets = (\<lambda>b n. raised (vn_markets toy_venue b n)),
       vn_fresh_market = (\<lambda>symbol n. raised (vn_fresh_market toy_venue symbol n)),
       vn_candles = (\<lambda>a b. raised (vn_candles toy_venue a b)),
       vn_submit = (\<lambda>d c. raised (vn_submit toy_venue d c)),
       vn_fills = (\<lambda>a b c. raised (vn_fills toy_venue a b c)),
       vn_funding = (\<lambda>a b c. raised (vn_funding toy_venue a b c))\<rparr>,
     re_gateway = (\<lambda>w. (Some (), w)), re_infer = (\<lambda>q. raised (toy_infer [] (Some sample_proposal) q)),
     re_parse_bundle = (\<lambda>_. None), re_parse_risk = (\<lambda>_. None), re_parse_settings = (\<lambda>_. None),
     re_settings_of_json = (\<lambda>_. None), re_parse_uuid = (\<lambda>_. None)\<rparr>"

definition toy_shared :: shared where
  "toy_shared = new_shared\<lparr>sh_active_run := Some 2\<rparr>"

definition toy_session :: "nat session" where
  "toy_session = \<lparr>ss_host = up toy_shared toy_live_host, ss_run = 2, ss_completed = 0, ss_expected = 144,
     ss_cooldown = 600, ss_leverage = 1, ss_strategy = toy_bundle, ss_books = [], ss_recorded = ''paused''\<rparr>"

lemma toy_run_env_fields [simp]:
  "re_P toy_run_env = counting_prims" "re_A toy_run_env = toy_aead" "re_E toy_run_env = toy_task_env"
  "re_config toy_run_env = toy_prepared" "sm_manifest (pa_signed toy_prepared) = sample_manifest"
  "run_writer toy_run_env 2 = toy_writer"
  by (simp_all add: toy_run_env_def toy_prepared_def toy_signed_arena_def run_writer_def toy_writer_def sample_manifest_def)

lemma toy_paused [simp]: "sh_gate toy_shared = EXECUTION_PAUSED" "gate_label EXECUTION_PAUSED = ''paused''"
  "gate_is_running EXECUTION_PAUSED = False"
  by (simp_all add: toy_shared_def new_shared_def new_gate_def gate_label_def gate_is_running_def
      EXECUTION_RUNNING_def EXECUTION_PAUSED_def EXECUTION_STOPPED_def)

lemma meanwhile_same: "hs_world (ss_host s) = shared.extend sh w \<Longrightarrow> meanwhile sh s = s"
  by (simp add: meanwhile_def shared.defs)

text \<open>One lifecycle tick with the gate unchanged, one cycle tick that misses its cycle.\<close>

lemma toy_lifecycle_tick: "session_tick toy_run_env LifecycleTick toy_session = (Inr Continue, toy_session)"
proof -
  have gate: "hs_world (ss_host toy_session) = shared.extend toy_shared \<lparr>tw_rest = 3\<rparr>" "ss_recorded toy_session = ''paused''"
    by (simp_all add: toy_session_def toy_live_host_def)
  have label: "gate_label (sh_gate (hs_world (ss_host toy_session))) = ''paused''"
    by (simp add: gate shared.defs)
  have "record_gate toy_run_env toy_session = (Inr Continue, toy_session)"
    using record_gate_label [of "''paused''" toy_session toy_run_env] label gate(2) by (simp add: sret_def)
  moreover have "sh_pending_settings toy_shared = None" "sh_pending_strategy toy_shared = None"
    by (simp_all add: toy_shared_def new_shared_def)
  ultimately show ?thesis
    by (simp add: lifecycle_tick_def sbind_def [of "record_gate _"] read_bind label gate shared.defs sret_def)
qed

lemma toy_cycle_tick:
  obtains s where "session_tick toy_run_env CycleTick toy_session = (Inr Continue, s)" and "ss_completed s = 1"
    and "ss_recorded s = ''paused''"
proof -
  let ?sh = toy_shared and ?host = "toy_live_host\<lparr>hs_world := 4\<rparr>"
  have state: "toy_state ?host" by (simp add: toy_state_def toy_live_host_def) (simp add: open_journal_def envelopes_def)
  have room: "Suc (hs_world ?host) < 1000" by simp
  let ?payload = "JObj [(''scheduled_at'', JInt 0), (''reason'', JStr ''execution_paused_at_boundary''),
     (''order_submitted'', JBool False)]"
  obtain n prev h where "append_durable counting_prims toy_aead toy_env toy_writer (Some 3) ''missed_cycle'' ?payload JNull ?host
      = (Inr (with_server_receipt (toy_signed (Some 3) ''missed_cycle'' ?payload n prev (hs_world ?host)) ''r''), h)"
    by (rule toy_append [OF state room])
  from liftsD [OF lifts_append this] obtain e where append: "append_durable counting_prims toy_aead toy_task_env toy_writer
      (Some 3) ''missed_cycle'' ?payload JNull (up ?sh ?host) = (Inr e, up ?sh h)" by blast
  have lift: "ask (raised f) (up ?sh u) = (case f (hs_world u) of (x, k) \<Rightarrow> (Inr x, up ?sh (u\<lparr>hs_world := k\<rparr>)))"
    for f :: "nat \<Rightarrow> 'b \<times> nat" and u :: "nat live_host"
    by (simp add: ask_def raised_def shared.defs up_def split: prod.split)
  have missed: "append_missed_cycle toy_run_env 2 0 ''execution_paused_at_boundary'' (up ?sh toy_live_host) = (Inr (), up ?sh h)"
    unfolding append_missed_cycle_def run_append_def
    using append
    by (simp add: sbind_def lift toy_live_host_def serr_def sret_def) (simp add: toy_run_env_def sret_def)
  have at: "scheduled_cycle_at sample_manifest 600 0 = Inr 0"
    by (simp add: scheduled_cycle_at_def i64_try_is is_i64_def sample_manifest_def)
  have over: "schedule_over toy_run_env toy_session = (Inr False, toy_session)"
    by (simp add: schedule_over_def session_get_bind toy_session_def on_host_def lift sget_def sbind_def sret_def)
      (simp add: toy_live_host_def sample_manifest_def)
  have read: "on_host (read_shared (\<lambda>w. gate_is_running (sh_gate w))) toy_session = (Inr False, toy_session)"
    by (simp add: on_host_def read_shared_def sget_def toy_session_def shared.defs)
  have miss: "miss_cycle toy_run_env toy_session = (Inr (), toy_session\<lparr>ss_host := up ?sh h\<rparr>)"
    by (simp add: miss_cycle_def session_get_bind toy_session_def at slift_def sget_def sbind_def on_host_def missed)
  have "count_cycle (toy_session\<lparr>ss_host := up ?sh h\<rparr>) = (Inr Continue, toy_session\<lparr>ss_host := up ?sh h, ss_completed := 1\<rparr>)"
    by (simp add: count_cycle_def session_get_bind checked_add_def toy_session_def slift_def sget_def sbind_def sput_def sret_def)
  with over read miss have "cycle_tick toy_run_env toy_session
      = (Inr Continue, toy_session\<lparr>ss_host := up ?sh h, ss_completed := 1\<rparr>)"
    by (simp add: cycle_tick_def sbind_def)
  then show ?thesis
    by (intro that [of "toy_session\<lparr>ss_host := up ?sh h, ss_completed := 1\<rparr>"]) (simp_all add: toy_session_def)
qed

text \<open>The run of the witnesses: a lifecycle tick, then a missed cycle.\<close>

lemma toy_session_run:
  obtains s where "session_run toy_run_env toy_session [(toy_shared, LifecycleTick), (toy_shared, CycleTick)] s"
    and "ss_completed s = 1" and "ss_recorded s = ''paused''" and "ss_run s = 2"
proof -
  have same: "meanwhile toy_shared toy_session = toy_session"
    by (rule meanwhile_same) (simp add: toy_session_def)
  obtain s where tick: "session_tick toy_run_env CycleTick toy_session = (Inr Continue, s)"
    and final: "ss_completed s = 1" "ss_recorded s = ''paused''" by (rule toy_cycle_tick)
  have "session_run toy_run_env toy_session ([] @ [(toy_shared, LifecycleTick)]) toy_session"
    by (rule session_run.turned [OF session_run.entered]) (simp only: same toy_lifecycle_tick)
  then have "session_run toy_run_env toy_session [(toy_shared, LifecycleTick)] toy_session" by simp
  then have "session_run toy_run_env toy_session ([(toy_shared, LifecycleTick)] @ [(toy_shared, CycleTick)]) s"
    by (rule session_run.turned) (simp only: same tick)
  moreover have "ss_run s = 2"
    using cycle_tick_counts(1) [of toy_run_env toy_session s] tick by (simp add: toy_session_def)
  ultimately show ?thesis using final that [of s] by simp
qed

lemma toy_session_journal: "hs_journal (ss_host toy_session) = open_journal ''key''"
  by (simp add: toy_session_def toy_live_host_def)

theorem session_loop_ends_witness:
  "\<exists>s. session_run toy_run_env toy_session [(toy_shared, LifecycleTick), (toy_shared, CycleTick)] s
    \<and> unat (ss_completed s) = 1 \<and> 1 \<le> arena_minutes sample_manifest"
proof -
  obtain s where run: "session_run toy_run_env toy_session [(toy_shared, LifecycleTick), (toy_shared, CycleTick)] s"
    by (rule toy_session_run)
  have "expected_cycle_count (re_manifest toy_run_env) (ss_cooldown toy_session) = Inr (ss_expected toy_session)"
    by (simp add: toy_session_def expected_cycle_count_def sample_manifest_def whole_seconds_nonneg sdiv_nonneg u64_try_def)
  from session_loop_ends [OF run this] run show ?thesis
    by (auto simp: toy_session_def cycle_ticks_def)
qed

theorem completed_cycles_are_journaled_witness:
  "\<exists>s. session_run toy_run_env toy_session [(toy_shared, LifecycleTick), (toy_shared, CycleTick)] s
    \<and> completed_cycle_count 2 (hs_journal (ss_host s)) = Some 1"
proof -
  obtain s where run: "session_run toy_run_env toy_session [(toy_shared, LifecycleTick), (toy_shared, CycleTick)] s"
    and "ss_completed s = 1" "ss_run s = 2" by (rule toy_session_run)
  moreover have "completed_cycle_count (ss_run toy_session) (hs_journal (ss_host toy_session)) = Some (ss_completed toy_session)"
    by (simp add: toy_session_journal completed_cycle_count_def event_count_def open_journal_def checked_add_def)
      (simp add: toy_session_def)
  ultimately show ?thesis
    using completed_cycles_are_journaled [OF run] by (auto simp: toy_session_journal)
qed

theorem session_keeps_journal_witness:
  "\<exists>s. session_run toy_run_env toy_session [(toy_shared, LifecycleTick), (toy_shared, CycleTick)] s
    \<and> journal_inv counting_prims (hs_journal (ss_host s))"
proof -
  obtain s where run: "session_run toy_run_env toy_session [(toy_shared, LifecycleTick), (toy_shared, CycleTick)] s"
    by (rule toy_session_run)
  from session_keeps_journal [OF run] run show ?thesis by (auto simp: toy_session_journal)
qed

theorem restart_follows_recorded_gate_witness:
  "\<exists>s. session_run toy_run_env toy_session [(toy_shared, LifecycleTick), (toy_shared, CycleTick)] s
    \<and> should_run_after_reconciliation counting_prims 2 (hs_journal (ss_host s)) = Inr False"
proof -
  obtain s where run: "session_run toy_run_env toy_session [(toy_shared, LifecycleTick), (toy_shared, CycleTick)] s"
    and "ss_recorded s = ''paused''" "ss_run s = 2" by (rule toy_session_run)
  moreover have "inj (uuid_str counting_prims)" using toy_ids_inj by (simp add: counting_prims_def)
  moreover have "should_run_after_reconciliation counting_prims 2 (open_journal ''key'') = Inr False"
    by (simp add: should_run_after_reconciliation_def public_events_def open_journal_def latest_of_def runs_again_def)
  ultimately show ?thesis
    using restart_follows_recorded_gate [OF run] by (auto simp: toy_session_journal) (auto simp: toy_session_def)
qed

section \<open>New settings\<close>

text \<open>A run of a hundred ten-minute cycles whose cooldown becomes an hour.\<close>

definition toy_settings :: run_settings where
  "toy_settings = \<lparr>st_decision_cooldown_seconds = 3600, st_isolated_leverage = 1\<rparr>"

definition toy_long_session :: "nat session" where
  "toy_long_session = toy_session\<lparr>ss_completed := 100\<rparr>"

lemma toy_settings_applied: "\<exists>s. apply_settings toy_run_env toy_settings toy_long_session = (Inr (), s)"
proof -
  let ?payload = "settings_event 600 1 toy_settings"
  have state: "toy_state toy_live_host" by (simp add: toy_state_def toy_live_host_def) (simp add: open_journal_def envelopes_def)
  have room: "Suc (hs_world toy_live_host) < 1000" by (simp add: toy_live_host_def)
  obtain n prev h where "append_durable counting_prims toy_aead toy_env toy_writer None ''run_settings_changed'' ?payload JNull toy_live_host
      = (Inr (with_server_receipt (toy_signed None ''run_settings_changed'' ?payload n prev (hs_world toy_live_host)) ''r''), h)"
    by (rule toy_append [OF state room])
  from liftsD [OF lifts_append this] obtain e where append: "append_durable counting_prims toy_aead toy_task_env toy_writer
      None ''run_settings_changed'' ?payload JNull (up toy_shared toy_live_host) = (Inr e, up toy_shared h)" by blast
  have event: "run_append toy_run_env 2 None ''run_settings_changed'' ?payload (up toy_shared toy_live_host) = (Inr e, up toy_shared h)"
    using append by (simp add: run_append_def serr_def)
  obtain bytes where bytes: "counting_json (settings_json toy_settings) = Some bytes" using counting_json_total by blast
  let ?key = "settings_key counting_prims 2"
  obtain c where c: "encrypt_bundle toy_aead (jn_key (hs_journal h)) toy_nonce bytes ?key = Inr c"
    by (simp add: encrypt_bundle_def toy_aead_def)
  let ?h = "h\<lparr>hs_journal := (hs_journal h)\<lparr>jn_secrets := bt_insert ?key c (jn_secrets (hs_journal h))\<rparr>\<rparr>"
  have "?key \<noteq> []" by (simp add: settings_key_def)
  then have stored: "put_run_secret toy_run_env ?key bytes (up toy_shared h) = (Inr (), up toy_shared ?h)"
    using c by (simp add: put_run_secret_def ask_bind journal_write_def put_secret_def raised_def shared.defs up_def)
  have json: "json_to_vec counting_prims = counting_json" by (simp add: counting_prims_def)
  have valid: "validate_settings toy_settings = Inr ()"
    by (simp add: validate_settings_def toy_settings_def MIN_LIVE_DECISION_INTERVAL_SECONDS_def
        MAX_CLIENT_DECISION_COOLDOWN_SECONDS_def MIN_CLIENT_ISOLATED_LEVERAGE_def MAX_CLIENT_ISOLATED_LEVERAGE_def)
  have lever: "call_venue (re_configure_leverage toy_run_env account l) w = (Inr (), w)" for account l w
    by (simp add: call_venue_def ask_bind slift_def) (simp add: toy_run_env_def)
  have expected: "expected_cycle_count sample_manifest 3600 = Inr 24"
    by (simp add: expected_cycle_count_def sample_manifest_def whole_seconds_nonneg sdiv_nonneg u64_try_def)
  let ?start = "toy_long_session" and ?sent = "toy_long_session\<lparr>ss_host := up toy_shared h\<rparr>"
  have fields: "ss_host ?start = up toy_shared toy_live_host" "ss_run ?start = 2" "ss_cooldown ?start = 600"
    "ss_leverage ?start = 1" by (simp_all add: toy_long_session_def toy_session_def)
  have host_step: "sbind (on_host m) f s = (case m (ss_host s) of
      (Inl e, h) \<Rightarrow> (Inl e, s\<lparr>ss_host := h\<rparr>) | (Inr x, h) \<Rightarrow> f x (s\<lparr>ss_host := h\<rparr>))"
    for m :: "(nat, 'b) run_step" and f :: "'b \<Rightarrow> (nat, unit) session_step" and s
    by (simp add: sbind_def on_host_def split: prod.split sum.split)
  have shared: "with_shared f w = (Inr (), w\<lparr>hs_world := f (hs_world w)\<rparr>)" for f and w :: "nat task_world live_host"
    by (simp add: with_shared_def sput_def)
  show ?thesis unfolding apply_settings_def valid
    by (simp add: sbind_def [of "slift _"] sbind_def [of "sput _"] slift_def sput_def host_step lever session_get_bind
        fields event bytes json stored shared) (simp add: toy_settings_def expected sput_def)
qed

theorem longer_cooldown_ends_run_witness:
  "\<exists>s. apply_settings toy_run_env toy_settings toy_long_session = (Inr (), s)
    \<and> ss_expected s = 24 \<and> ss_completed s = 100
    \<and> cycle_tick toy_run_env s = sbind (on_host (stop_on_schedule toy_run_env 2)) (\<lambda>_. sret Stopped) s"
proof -
  obtain s where s: "apply_settings toy_run_env toy_settings toy_long_session = (Inr (), s)"
    using toy_settings_applied by blast
  have n: "expected_cycle_count (re_manifest toy_run_env) (st_decision_cooldown_seconds toy_settings) = Inr 24"
    by (simp add: expected_cycle_count_def sample_manifest_def whole_seconds_nonneg sdiv_nonneg u64_try_def toy_settings_def)
  have "ss_completed toy_long_session = 100" "ss_run toy_long_session = 2"
    by (simp_all add: toy_long_session_def toy_session_def)
  with longer_cooldown_ends_run [OF s n] s show ?thesis by auto
qed

end
