(* ===== verification/EventLog.thy ===== *)
theory EventLog
  imports SessionLog
begin

text \<open>
  The abstract specification of the journal: for every run a list of events, each with its receipt
  once the server gave one. An operation of the specification is a guarded step on that log; the
  tables of the journal refine it, and what the rest of the program reads of the journal is a
  function of the log.
\<close>

section \<open>The log\<close>

type_synonym event_log = "uuid \<Rightarrow> (run_event \<times> string option) list"

datatype journal_op =
    OpAppend string run_event json
  | OpAcknowledge uuid string
  | OpPutSecret string string string
  | OpDeleteSecret string

text \<open>The next event of a run: numbered one past the run's events and naming the hash of the last.\<close>

definition log_next :: "run_event \<Rightarrow> event_log \<Rightarrow> bool" where
  "log_next e L \<longleftrightarrow> uint (ev_sequence e) = int (length (L (ev_run_id e))) + 1
     \<and> ev_previous_event_sha256 e = (if L (ev_run_id e) = [] then zero_hash
         else ev_event_sha256 (fst (last (L (ev_run_id e)))))"

definition log_receipt :: "uuid \<Rightarrow> string \<Rightarrow> run_event \<times> string option \<Rightarrow> run_event \<times> string option" where
  "log_receipt i x p = (if ev_event_id (fst p) = i \<and> snd p = None then (fst p, Some x) else p)"

text \<open>The log holds the receipt for an event of the id.\<close>

definition log_acknowledged :: "uuid \<Rightarrow> string \<Rightarrow> event_log \<Rightarrow> bool" where
  "log_acknowledged i x L \<longleftrightarrow> (\<exists>run e. (e, Some x) \<in> set (L run) \<and> ev_event_id e = i)"

fun log_step :: "prims \<Rightarrow> journal_op \<Rightarrow> event_log \<Rightarrow> event_log \<Rightarrow> bool" where
  "log_step P (OpAppend nonce e p) L L' \<longleftrightarrow> verify_event P e = Inr () \<and> log_next e L
     \<and> (\<forall>run. ev_event_sha256 e \<notin> ev_event_sha256 ` fst ` set (L run))
     \<and> L' = L(ev_run_id e := L (ev_run_id e) @ [(e, None)])"
| "log_step P (OpAcknowledge i x) L L' \<longleftrightarrow> (L' = L \<or> L' = (\<lambda>run. map (log_receipt i x) (L run)))
     \<and> log_acknowledged i x L'"
| "log_step P (OpPutSecret nonce name v) L L' \<longleftrightarrow> L' = L"
| "log_step P (OpDeleteSecret name) L L' \<longleftrightarrow> L' = L"

text \<open>The operation on the journal; \<open>None\<close> when it fails.\<close>

fun journal_op_step :: "prims \<Rightarrow> aead_prims \<Rightarrow> journal_op \<Rightarrow> journal \<Rightarrow> journal option" where
  "journal_op_step P A (OpAppend nonce e p) j = (case append_event P A nonce e p j of Inl _ \<Rightarrow> None | Inr j' \<Rightarrow> Some j')"
| "journal_op_step P A (OpAcknowledge i x) j = (case acknowledge_event i x j of (Inl _, _) \<Rightarrow> None | (Inr _, j') \<Rightarrow> Some j')"
| "journal_op_step P A (OpPutSecret nonce name v) j = (case put_secret A nonce name v j of Inl _ \<Rightarrow> None | Inr j' \<Rightarrow> Some j')"
| "journal_op_step P A (OpDeleteSecret name) j = (case delete_secret name j of Inl _ \<Rightarrow> None | Inr j' \<Rightarrow> Some j')"

text \<open>The abstraction: a run's rows as a list of events with their receipts.\<close>

definition log_of :: "journal \<Rightarrow> event_log" where
  "log_of j run = map (\<lambda>r. (jr_envelope r, jr_receipt r)) (run_rows run j)"

section \<open>Every operation refines its step\<close>

lemma log_of_same: "jn_events j' = jn_events j \<Longrightarrow> log_of j' = log_of j"
  by (simp add: log_of_def run_rows_def fun_eq_iff)

lemma append_refines:
  assumes "journal_inv P j" and "append_event P A nonce e p j = Inr j'"
  shows "log_step P (OpAppend nonce e p) (log_of j) (log_of j')"
proof -
  obtain c where ver: "verify_event P e = Inr ()" and link: "next_link j e"
    and j': "j' = j\<lparr>jn_events := jn_events j @ [new_row e c]\<rparr>" and new: "\<not> row_conflict j (new_row e c)"
    by (rule append_event_Inr [OF assms(2)])
  have rows: "row_ok P r" if "r \<in> set (jn_events j)" for r
    using assms(1) that by (simp add: journal_inv_def list_all_iff)
  have hash: "jr_hash r = ev_event_sha256 (jr_envelope r)" if "r \<in> set (jn_events j)" for r
    using rows [OF that] by (simp add: row_ok_def)
  have "log_next e (log_of j)"
    using next_link_inv(2,3) [OF assms(1) link] hash [of "last (run_rows (ev_run_id e) j)"]
      last_in_set [of "run_rows (ev_run_id e) j"]
    by (auto simp: log_next_def log_of_def last_map run_rows_def)
  moreover have "ev_event_sha256 e \<notin> ev_event_sha256 ` fst ` set (log_of j run)" for run
    using new hash by (auto simp: row_conflict_def list_ex_iff log_of_def run_rows_def)
  moreover have "log_of j' = (log_of j)(ev_run_id e := log_of j (ev_run_id e) @ [(e, None)])"
    by (auto simp: fun_eq_iff log_of_def j' run_rows_snoc)
  ultimately show ?thesis using ver by simp
qed

lemma find_SomeD: "find Q xs = Some x \<Longrightarrow> x \<in> set xs \<and> Q x"
  by (induction xs) (auto split: if_splits)

lemma marked_entry:
  "(jr_envelope r, jr_receipt (mark_row i x r)) = log_receipt i x (jr_envelope r, jr_receipt r)"
  by (simp add: mark_row_def log_receipt_def)

lemma acknowledge_refines:
  assumes "acknowledge_event i x j = (Inr (), j')"
  shows "log_step P (OpAcknowledge i x) (log_of j) (log_of j')"
proof -
  obtain row where row: "row \<in> set (jn_events j)" "ev_event_id (jr_envelope row) = i"
    and found: "jr_receipt row = Some x \<and> j' = j
      \<or> jr_receipt row = None \<and> j' = j\<lparr>jn_events := map (mark_row i x) (jn_events j)\<rparr>"
    using assms by (auto simp: acknowledge_event_def Let_def split: if_splits option.splits dest!: find_SomeD)
  have acked: "log_acknowledged i x (log_of k)" if "r \<in> set (jn_events k)" "jr_receipt r = Some x"
    "ev_event_id (jr_envelope r) = i" for r k
    using that by (auto simp: log_acknowledged_def log_of_def run_rows_def image_iff intro!: exI [of _ "jr_run_id r"]
        exI [of _ "jr_envelope r"] bexI [of _ r])
  from found show ?thesis
  proof
    assume "jr_receipt row = Some x \<and> j' = j"
    then show ?thesis using acked [OF row(1)] row(2) by simp
  next
    assume marked: "jr_receipt row = None \<and> j' = j\<lparr>jn_events := map (mark_row i x) (jn_events j)\<rparr>"
    then have "mark_row i x row \<in> set (jn_events j')" "jr_receipt (mark_row i x row) = Some x"
      using row by (auto simp: mark_row_def)
    then have "log_acknowledged i x (log_of j')" using acked row(2) by simp
    moreover have "log_of j' = (\<lambda>run. map (log_receipt i x) (log_of j run))"
      using marked by (simp add: fun_eq_iff log_of_def run_rows_def filter_map o_def marked_entry)
    ultimately show ?thesis by simp
  qed
qed

section \<open>A whole history\<close>

fun journal_ops :: "prims \<Rightarrow> aead_prims \<Rightarrow> journal_op list \<Rightarrow> journal \<Rightarrow> journal option" where
  "journal_ops P A [] j = Some j"
| "journal_ops P A (op # ops) j = (case journal_op_step P A op j of None \<Rightarrow> None | Some j' \<Rightarrow> journal_ops P A ops j')"

fun log_steps :: "prims \<Rightarrow> journal_op list \<Rightarrow> event_log \<Rightarrow> event_log \<Rightarrow> bool" where
  "log_steps P [] L L' \<longleftrightarrow> L' = L"
| "log_steps P (op # ops) L L' \<longleftrightarrow> (\<exists>M. log_step P op L M \<and> log_steps P ops M L')"

text \<open>What the program reads of a log.\<close>

definition log_latest :: "(run_event \<times> string option) list \<Rightarrow> (u64 \<times> string) option" where
  "log_latest es = (if es = [] then None else Some (ev_sequence (fst (last es)), ev_event_sha256 (fst (last es))))"

definition log_pending :: "(run_event \<times> string option) list \<Rightarrow> run_event list" where
  "log_pending es = map fst (filter (\<lambda>(e, x). x = None) es)"

definition log_count :: "string \<Rightarrow> (run_event \<times> string option) list \<Rightarrow> nat" where
  "log_count ty es = length (filter (\<lambda>(e, x). ev_event_type e = ty) es)"

definition log_export :: "(run_event \<times> string option) list \<Rightarrow> run_event list" where
  "log_export es = map (\<lambda>(e, x). e\<lparr>ev_server_receipt := x\<rparr>) es"

definition reads_log :: "prims \<Rightarrow> journal \<Rightarrow> event_log \<Rightarrow> bool" where
  "reads_log P j L \<longleftrightarrow> (\<forall>run. latest_event_state run j = Inr (log_latest (L run))
     \<and> pending_events P run j = Inr (log_pending (L run))
     \<and> (\<forall>ty. event_count run ty j = of_nat (log_count ty (L run)))
     \<and> (\<exists>es. public_events P j = Inr es \<and> filter (\<lambda>e. ev_run_id e = run) es = log_export (L run)))"

lemma step_refines:
  assumes "journal_inv P j" and "journal_op_step P A op j = Some j'"
  shows "log_step P op (log_of j) (log_of j') \<and> journal_inv P j'"
proof (cases op)
  case (OpAppend nonce e p)
  with assms have "append_event P A nonce e p j = Inr j'" by (simp split: sum.splits)
  with OpAppend append_refines [OF assms(1)] append_event_inv [OF assms(1)] show ?thesis by simp
next
  case (OpAcknowledge i x)
  with assms have "acknowledge_event i x j = (Inr (), j')" by (auto split: prod.splits sum.splits)
  with OpAcknowledge acknowledge_refines acknowledge_inv [OF assms(1)] show ?thesis by simp
next
  case (OpPutSecret nonce name v)
  with assms have "jn_events j' = jn_events j" by (auto split: sum.splits dest: put_secret_Inr)
  then have "log_of j' = log_of j" "journal_inv P j'" using log_of_same same_events assms(1) by blast+
  with OpPutSecret show ?thesis by simp
next
  case (OpDeleteSecret name)
  with assms have "jn_events j' = jn_events j" by (auto split: sum.splits dest: delete_secret_Inr)
  then have "log_of j' = log_of j" "journal_inv P j'" using log_of_same same_events assms(1) by blast+
  with OpDeleteSecret show ?thesis by simp
qed

lemma uint_eq_int:
  assumes "uint w = int n"
  shows "w = of_nat n"
proof -
  have "w = word_of_int (uint w)" by simp
  also have "\<dots> = of_nat n" unfolding assms by simp
  finally show ?thesis .
qed

lemma journal_reads_log:
  assumes "journal_inv P j" and "inj (uuid_str P)"
  shows "reads_log P j (log_of j)"
  unfolding reads_log_def
proof (intro allI conjI)
  fix run ty
  have rows: "row_ok P r \<and> jr_run_id r = run" if "r \<in> set (run_rows run j)" for r
    using assms(1) that by (simp add: journal_inv_def list_all_iff run_rows_def)
  show "latest_event_state run j = Inr (log_latest (log_of j run))"
  proof (cases "run_rows run j = []")
    case False
    note l = last_run_row [OF assms(1) False]
    then have "ev_sequence (jr_envelope (last (run_rows run j))) = of_nat (length (run_rows run j))"
      by (intro uint_eq_int) (simp add: row_ok_def)
    with l(2) False show ?thesis
      by (simp add: latest_event_state_inv [OF assms(1)] log_latest_def log_of_def last_map row_ok_def)
  qed (simp add: latest_event_state_inv [OF assms(1)] log_latest_def log_of_def)
  have "sorted (map jr_sequence (run_rows run j))"
    using assms(1) linked_sorted by (auto simp: journal_inv_def)
  then have "sorted (map jr_sequence (filter (\<lambda>r. jr_receipt r = None) (run_rows run j)))"
    by (rule sorted_filter)
  then have "sort_key jr_sequence (filter (\<lambda>r. jr_run_id r = run \<and> jr_receipt r = None) (jn_events j))
      = filter (\<lambda>r. jr_receipt r = None) (run_rows run j)"
    by (subst sort_key_id_if_sorted) (simp_all add: run_rows_def conj_commute)
  moreover have "rmap (\<lambda>r. rbind (map_err (\<lambda>_. JEvent) (verify_event P (jr_envelope r))) (\<lambda>_. Inr (jr_envelope r))) rs
      = Inr (map jr_envelope rs)" if "set rs \<subseteq> set (run_rows run j)" for rs
    using that rows by (induction rs) (auto simp: row_ok_def)
  ultimately show "pending_events P run j = Inr (log_pending (log_of j run))"
    by (simp add: pending_events_def log_pending_def log_of_def filter_map o_def)
  show "event_count run ty j = of_nat (log_count ty (log_of j run))"
    by (simp add: event_count_def log_count_def log_of_def run_rows_def filter_map o_def conj_commute)
  show "\<exists>es. public_events P j = Inr es \<and> filter (\<lambda>e. ev_run_id e = run) es = log_export (log_of j run)"
    using public_events_Inr [OF assms] exported_run [OF assms(1), of run]
    by (simp add: log_export_def log_of_def attach_def [abs_def] o_def)
qed

text \<open>
  C29. The journal refines the abstract log: every history of successful operations on its tables
  is a history of the log, and at its end the chain position, the pending events, the counts and
  the export that the program reads are those of the log.
\<close>

theorem journal_refines_log:
  assumes "journal_inv P j" and "inj (uuid_str P)" and "journal_ops P A ops j = Some j'"
  shows "log_steps P ops (log_of j) (log_of j') \<and> journal_inv P j' \<and> reads_log P j' (log_of j')"
proof -
  have "log_steps P ops (log_of j) (log_of j') \<and> journal_inv P j'"
    using assms(1,3)
  proof (induction ops arbitrary: j)
    case (Cons op ops)
    then show ?case using step_refines by (fastforce split: option.splits)
  qed simp
  with journal_reads_log [OF _ assms(2)] show ?thesis by blast
qed

text \<open>One event, its receipt, and a secret.\<close>

theorem journal_refines_log_witness:
  "\<exists>j. journal_ops toy_ids toy_aead [OpAppend toy_nonce toy_event JNull, OpAcknowledge 7 ''r'',
      OpPutSecret toy_nonce ''name'' ''v''] (open_journal ''key'') = Some j
    \<and> log_of j 2 = [(toy_event, Some ''r'')] \<and> reads_log toy_ids j (log_of j)"
proof -
  let ?acked = "toy_journal\<lparr>jn_events := [toy_row\<lparr>jr_receipt := Some ''r''\<rparr>]\<rparr>"
  obtain j where j: "put_secret toy_aead toy_nonce ''name'' ''v'' ?acked = Inr j"
    by (simp add: put_secret_def encrypt_bundle_def toy_aead_def)
  then have run: "journal_ops toy_ids toy_aead [OpAppend toy_nonce toy_event JNull, OpAcknowledge 7 ''r'',
      OpPutSecret toy_nonce ''name'' ''v''] (open_journal ''key'') = Some j"
    by (simp add: toy_appended toy_acknowledged)
  have "log_of j = log_of ?acked" by (rule log_of_same, rule put_secret_Inr, rule j)
  then have "log_of j 2 = [(toy_event, Some ''r'')]"
    by (simp add: log_of_def run_rows_def toy_row_def) (simp add: toy_event_def)
  with run journal_refines_log [OF open_journal_inv toy_ids_inj run] show ?thesis by blast
qed

end
