(* ===== verification/Datasets.thy ===== *)
theory Datasets
  imports Replays Envelopes Effects
begin

text \<open>
  Signed datasets, \<open>crates/crow-agent-core/src/dataset.rs\<close>: the checks on candles and
  instruments, their Arrow columns and back, the two Parquet files with their digests, and the
  signed manifest over both. A directory is a map from file names to bytes. Arrow and Parquet are
  the record \<open>dataset_io\<close>: building a batch, writing it to bytes, and reading bytes back as
  batches of bounded size. The operations are steps on the directory, which keeps what was
  written before a failure.
\<close>

section \<open>Data\<close>

definition DATASET_MANIFEST_FILE :: string where "DATASET_MANIFEST_FILE = ''dataset-manifest-v1.json''"
definition CANDLE_FILE :: string where "CANDLE_FILE = ''candles.parquet''"
definition INSTRUMENT_FILE :: string where "INSTRUMENT_FILE = ''instruments.parquet''"
definition CANDLE_INTERVAL_MILLIS :: int where "CANDLE_INTERVAL_MILLIS = 900000"
definition FUNDING_INTERVAL_MILLIS :: int where "FUNDING_INTERVAL_MILLIS = 3600000"

datatype dataset_error =
    DsIo
  | DsArrow
  | DsParquet
  | DsProtocol protocol_error
  | DsCandles
  | DsInstruments
  | DsColumn
  | DsTimestamp

record instrument =
  in_symbol :: string
  in_size_decimals :: u8
  in_max_leverage :: u16
  in_is_delisted :: bool

record dataset_package =
  dp_candle_path :: string
  dp_instrument_path :: string
  dp_manifest_path :: string
  dp_manifest :: dataset_manifest

text \<open>Arrow's arrays, fields and batches, as far as the code uses them.\<close>

datatype column =
    StrCol "string list"
  | I64Col "int list"
  | U8Col "u8 list"
  | U16Col "u16 list"
  | BoolCol "bool list"

datatype data_type = TUtf8 | TInt64 | TUInt8 | TUInt16 | TBoolean

type_synonym schema = "(string \<times> data_type \<times> bool) list"

record batch =
  rb_schema :: schema
  rb_columns :: "column list"

text \<open>
  What is not the repository's code: \<open>RecordBatch::try_new\<close>, the bytes \<open>ArrowWriter\<close> puts in the
  file and whether it succeeds, the batches \<open>ParquetRecordBatchReader\<close> yields with the given
  size (an element may be an error), whether the directory and a file can be created, and the
  range of \<open>OffsetDateTime\<close>.
\<close>

record dataset_io =
  io_batch :: "schema \<Rightarrow> column list \<Rightarrow> batch option"
  io_encode :: "batch \<Rightarrow> string \<times> bool"
  io_decode :: "nat \<Rightarrow> string \<Rightarrow> batch option list option"
  io_create_dir :: bool
  io_create :: "string \<Rightarrow> bool"
  io_time_ok :: "int \<Rightarrow> bool"

type_synonym directory = "string \<rightharpoonup> string"

section \<open>The checks\<close>

definition symbol_order :: "string \<Rightarrow> nat option" where
  "symbol_order s = (if s = ''BTC'' then Some 0 else if s = ''ETH'' then Some 1
     else if s = ''SOL'' then Some 2 else None)"

text \<open>What the loop over the candles remembers.\<close>

record candle_scan =
  sc_previous :: "(int \<times> nat) option"
  sc_last_open :: "(string \<times> int) list"
  sc_decimals :: "(string \<times> u8) list"

definition key_less :: "int \<times> nat \<Rightarrow> int \<times> nat \<Rightarrow> bool" where
  "key_less p q \<longleftrightarrow> fst p < fst q \<or> fst p = fst q \<and> snd p < snd q"

definition candle_invalid :: "(int \<times> nat) option \<Rightarrow> int \<times> nat \<Rightarrow> candle \<Rightarrow> bool" where
  "candle_invalid previous key c \<longleftrightarrow>
     (case previous of None \<Rightarrow> False | Some p \<Rightarrow> \<not> key_less p key)
     \<or> c_close_time c \<noteq> wrap_i64 (wrap_i64 (c_open_time c + CANDLE_INTERVAL_MILLIS) - 1)
     \<or> c_open c \<le> 0
     \<or> c_high c < c_open c
     \<or> c_high c < c_close c
     \<or> c_open c < c_low c
     \<or> c_close c < c_low c
     \<or> c_volume c < 0
     \<or> 8 < c_size_decimals c
     \<or> c_funding_rate c \<noteq> 0 \<and> c_open_time c mod FUNDING_INTERVAL_MILLIS \<noteq> 0"

definition scan_candle :: "candle_scan \<Rightarrow> candle \<Rightarrow> dataset_error + candle_scan" where
  "scan_candle s c =
     rbind (ok_or (symbol_order (c_symbol c)) DsCandles) (\<lambda>order.
     let key = (c_open_time c, order) in
     if candle_invalid (sc_previous s) key c then Inl DsCandles
     else if (case map_of (sc_last_open s) (c_symbol c) of None \<Rightarrow> False
              | Some previous \<Rightarrow> c_open_time c \<noteq> wrap_i64 (previous + CANDLE_INTERVAL_MILLIS))
     then Inl DsCandles
     else if (case map_of (sc_decimals s) (c_symbol c) of None \<Rightarrow> False
              | Some previous \<Rightarrow> previous \<noteq> c_size_decimals c)
     then Inl DsCandles
     else Inr \<lparr>sc_previous = Some key, sc_last_open = bt_insert (c_symbol c) (c_open_time c) (sc_last_open s),
            sc_decimals = bt_insert (c_symbol c) (c_size_decimals c) (sc_decimals s)\<rparr>)"

definition interval_named :: "candle list \<Rightarrow> bool" where
  "interval_named i \<longleftrightarrow> map c_symbol i = [''BTC'', ''ETH'', ''SOL'']
     \<and> c_open_time (i ! 0) = c_open_time (i ! 1) \<and> c_open_time (i ! 0) = c_open_time (i ! 2)"

definition validate_candles :: "candle list \<Rightarrow> dataset_error + unit" where
  "validate_candles cs =
     (if cs = [] \<or> length cs mod 3 \<noteq> 0 then Inl DsCandles
      else rbind (rfold scan_candle \<lparr>sc_previous = None, sc_last_open = [], sc_decimals = []\<rparr> cs) (\<lambda>s.
      if length (sc_last_open s) \<noteq> 3 then Inl DsCandles
      else if \<not> list_all interval_named (chunks3 cs) then Inl DsCandles
      else Inr ()))"

definition validate_instruments :: "instrument list \<Rightarrow> candle list \<Rightarrow> dataset_error + unit" where
  "validate_instruments is cs =
     (if length is \<noteq> 3 \<or> map in_symbol is \<noteq> [''BTC'', ''ETH'', ''SOL'']
         \<or> list_ex (\<lambda>i. 8 < in_size_decimals i \<or> in_max_leverage i = 0 \<or> in_is_delisted i) is
      then Inl DsInstruments
      else if list_ex (\<lambda>i. list_ex (\<lambda>c. c_size_decimals c \<noteq> in_size_decimals i)
                (filter (\<lambda>c. c_symbol c = in_symbol i) cs)) is
      then Inl DsInstruments
      else Inr ())"

definition timestamp_millis :: "dataset_io \<Rightarrow> int \<Rightarrow> dataset_error + int" where
  "timestamp_millis I value = (if io_time_ok I (value * 1000000) then Inr (value * 1000000) else Inl DsTimestamp)"

section \<open>Columns\<close>

definition candle_schema :: schema where
  "candle_schema = [(''symbol'', TUtf8, False), (''open_time_ms'', TInt64, False),
     (''close_time_ms'', TInt64, False), (''open_micro_usdc'', TInt64, False),
     (''high_micro_usdc'', TInt64, False), (''low_micro_usdc'', TInt64, False),
     (''close_micro_usdc'', TInt64, False), (''volume_e8'', TInt64, False),
     (''funding_rate_e12'', TInt64, False), (''size_decimals'', TUInt8, False)]"

definition candle_columns :: "candle list \<Rightarrow> column list" where
  "candle_columns cs = [StrCol (map c_symbol cs), I64Col (map c_open_time cs), I64Col (map c_close_time cs),
     I64Col (map c_open cs), I64Col (map c_high cs), I64Col (map c_low cs), I64Col (map c_close cs),
     I64Col (map c_volume cs), I64Col (map c_funding_rate cs), U8Col (map c_size_decimals cs)]"

definition candle_batch :: "dataset_io \<Rightarrow> candle list \<Rightarrow> dataset_error + batch" where
  "candle_batch I cs = ok_or (io_batch I candle_schema (candle_columns cs)) DsArrow"

definition instrument_schema :: schema where
  "instrument_schema = [(''symbol'', TUtf8, False), (''size_decimals'', TUInt8, False),
     (''max_leverage'', TUInt16, False), (''is_delisted'', TBoolean, False)]"

definition instrument_columns :: "instrument list \<Rightarrow> column list" where
  "instrument_columns is = [StrCol (map in_symbol is), U8Col (map in_size_decimals is),
     U16Col (map in_max_leverage is), BoolCol (map in_is_delisted is)]"

definition instrument_batch :: "dataset_io \<Rightarrow> instrument list \<Rightarrow> dataset_error + batch" where
  "instrument_batch I is = ok_or (io_batch I instrument_schema (instrument_columns is)) DsArrow"

text \<open>A column that is not of the expected type fails its downcast; the rows are the batch's.\<close>

definition instruments_from_batch :: "batch \<Rightarrow> dataset_error + instrument list" where
  "instruments_from_batch b =
     (if rb_schema b \<noteq> instrument_schema then Inl DsColumn
      else case rb_columns b of
        [StrCol symbol, U8Col decimals, U16Col max_leverage, BoolCol is_delisted] \<Rightarrow>
          Inr (map (\<lambda>row. \<lparr>in_symbol = symbol ! row, in_size_decimals = decimals ! row,
            in_max_leverage = max_leverage ! row, in_is_delisted = is_delisted ! row\<rparr>) [0..<length symbol])
      | _ \<Rightarrow> Inl DsColumn)"

definition candles_from_batch :: "batch \<Rightarrow> dataset_error + candle list" where
  "candles_from_batch b =
     (if rb_schema b \<noteq> candle_schema then Inl DsColumn
      else case rb_columns b of
        [StrCol symbol, I64Col open_time, I64Col close_time, I64Col open_price, I64Col high, I64Col low,
         I64Col close_price, I64Col volume, I64Col funding, U8Col decimals] \<Rightarrow>
          Inr (map (\<lambda>row. \<lparr>c_symbol = symbol ! row, c_open_time = open_time ! row, c_close_time = close_time ! row,
            c_open = open_price ! row, c_high = high ! row, c_low = low ! row, c_close = close_price ! row,
            c_volume = volume ! row, c_funding_rate = funding ! row, c_size_decimals = decimals ! row\<rparr>)
            [0..<length symbol])
      | _ \<Rightarrow> Inl DsColumn)"

section \<open>Writing and reading a package\<close>

definition dataset_file_of :: "prims \<Rightarrow> directory \<Rightarrow> string \<Rightarrow> dataset_error + dataset_file" where
  "dataset_file_of P dir name =
     rbind (ok_or (dir name) DsIo) (\<lambda>bytes.
     rbind (ok_or (u64_try (int (length bytes))) DsCandles) (\<lambda>n.
       Inr \<lparr>df_path = name, df_sha256 = hex_encode P (sha256 P bytes), df_bytes = n\<rparr>))"

definition files_digest :: "prims \<Rightarrow> dataset_file list \<Rightarrow> protocol_error + string" where
  "files_digest P files =
     rbind (canonical_json P (Some (JArr (map dataset_file_json files)))) (\<lambda>bytes.
       Inr (hex_encode P (sha256 P bytes)))"

definition dataset_manifest_json :: "prims \<Rightarrow> dataset_manifest \<Rightarrow> json option" where
  "dataset_manifest_json P m = (case unsigned_dataset P m of
     Some (JObj fs) \<Rightarrow> Some (JObj (fs @ [(''signature'', JStr (dm_signature m))])) | _ \<Rightarrow> None)"

text \<open>The file is created, and so emptied, before the batch is encoded into it.\<close>

definition write_parquet :: "dataset_io \<Rightarrow> string \<Rightarrow> batch \<Rightarrow> (directory, dataset_error, unit) step" where
  "write_parquet I path b dir =
     (if \<not> io_create I path then (Inl DsIo, dir)
      else case io_encode I b of (bytes, written) \<Rightarrow>
        ((if written then Inr () else Inl DsParquet), dir(path \<mapsto> bytes)))"

definition write_file :: "dataset_io \<Rightarrow> string \<Rightarrow> string \<Rightarrow> (directory, dataset_error, unit) step" where
  "write_file I path bytes dir =
     (if io_create I path then (Inr (), dir(path \<mapsto> bytes)) else (Inl DsIo, dir))"

text \<open>The manifest of the two files as they are in the directory.\<close>

definition sign_package ::
    "prims \<Rightarrow> dataset_io \<Rightarrow> uuid \<Rightarrow> u32 \<Rightarrow> candle list \<Rightarrow> string \<Rightarrow> directory \<Rightarrow> dataset_error + dataset_manifest" where
  "sign_package P I dataset_id version candles signer dir =
     rbind (rmap (dataset_file_of P dir) [CANDLE_FILE, INSTRUMENT_FILE]) (\<lambda>files.
     rbind (map_err DsProtocol (files_digest P files)) (\<lambda>digest.
     rbind (if candles = [] then Inl DsCandles else timestamp_millis I (c_open_time (hd candles))) (\<lambda>starts_at.
     rbind (if candles = [] then Inl DsCandles else timestamp_millis I (c_close_time (last candles))) (\<lambda>ends_at.
       map_err DsProtocol (sign_dataset P signer dataset_id version starts_at ends_at files digest)))))"

definition write_signed_dataset ::
    "prims \<Rightarrow> dataset_io \<Rightarrow> uuid \<Rightarrow> u32 \<Rightarrow> candle list \<Rightarrow> instrument list \<Rightarrow> string
      \<Rightarrow> (directory, dataset_error, dataset_package) step" where
  "write_signed_dataset P I dataset_id version candles instruments signer =
     sbind (slift (validate_candles candles)) (\<lambda>_.
     sbind (slift (validate_instruments instruments candles)) (\<lambda>_.
     sbind (slift (if io_create_dir I then Inr () else Inl DsIo)) (\<lambda>_.
     sbind (slift (candle_batch I candles)) (\<lambda>b.
     sbind (write_parquet I CANDLE_FILE b) (\<lambda>_.
     sbind (slift (instrument_batch I instruments)) (\<lambda>b.
     sbind (write_parquet I INSTRUMENT_FILE b) (\<lambda>_.
     sbind (\<lambda>dir. slift (sign_package P I dataset_id version candles signer dir) dir) (\<lambda>manifest.
     sbind (slift (map_err DsProtocol (canonical_json P (dataset_manifest_json P manifest)))) (\<lambda>bytes.
     sbind (write_file I DATASET_MANIFEST_FILE bytes) (\<lambda>_.
       sret \<lparr>dp_candle_path = CANDLE_FILE, dp_instrument_path = INSTRUMENT_FILE,
         dp_manifest_path = DATASET_MANIFEST_FILE, dp_manifest = manifest\<rparr>))))))))))"

definition file_matches :: "prims \<Rightarrow> directory \<Rightarrow> dataset_file \<Rightarrow> dataset_error + unit" where
  "file_matches P dir f =
     rbind (ok_or (dir (df_path f)) DsIo) (\<lambda>bytes.
       if hex_encode P (sha256 P bytes) \<noteq> df_sha256 f then Inl DsCandles
       else rbind (ok_or (u64_try (int (length bytes))) DsCandles) (\<lambda>n.
         if n \<noteq> df_bytes f then Inl DsCandles else Inr ()))"

definition read_rows ::
    "dataset_io \<Rightarrow> nat \<Rightarrow> (batch \<Rightarrow> dataset_error + 'a list) \<Rightarrow> directory \<Rightarrow> string \<Rightarrow> dataset_error + 'a list" where
  "read_rows I n from dir name =
     rbind (ok_or (dir name) DsIo) (\<lambda>bytes.
     rbind (ok_or (io_decode I n bytes) DsParquet) (\<lambda>batches.
     rbind (rmap (\<lambda>b. rbind (ok_or b DsArrow) from) batches) (\<lambda>rows. Inr (concat rows))))"

definition read_verified_dataset ::
    "prims \<Rightarrow> dataset_io \<Rightarrow> directory \<Rightarrow> dataset_manifest \<Rightarrow> dataset_error + candle list" where
  "read_verified_dataset P I dir m =
     rbind (map_err DsProtocol (verify_dataset P m)) (\<lambda>_.
     if map df_path (dm_files m) \<noteq> [CANDLE_FILE, INSTRUMENT_FILE] then Inl DsCandles
     else
     rbind (rmap (file_matches P dir) (dm_files m)) (\<lambda>_.
     rbind (map_err DsProtocol (files_digest P (dm_files m))) (\<lambda>digest.
     if digest \<noteq> dm_package_sha256 m then Inl DsCandles
     else
     rbind (read_rows I 65536 candles_from_batch dir CANDLE_FILE) (\<lambda>candles.
     rbind (validate_candles candles) (\<lambda>_.
     rbind (read_rows I 64 instruments_from_batch dir INSTRUMENT_FILE) (\<lambda>instruments.
     rbind (validate_instruments instruments candles) (\<lambda>_. Inr candles)))))))"

section \<open>A validated series is a replayable one\<close>

lemma scan_candle_Inr:
  assumes "scan_candle s c = Inr s'"
  shows "c_close_time c = wrap_i64 (wrap_i64 (c_open_time c + 900000) - 1)" and "c_size_decimals c \<le> 8"
    and "map_of (sc_last_open s) (c_symbol c) = Some t \<Longrightarrow> c_open_time c = wrap_i64 (t + 900000)"
    and "map_of (sc_last_open s') = (map_of (sc_last_open s))(c_symbol c \<mapsto> c_open_time c)"
    and "0 < c_open c" and "c_low c \<le> c_open c" and "c_open c \<le> c_high c" and "0 \<le> c_volume c"
  using assms
  by (auto simp: scan_candle_def Let_def candle_invalid_def CANDLE_INTERVAL_MILLIS_def not_less
      split: if_splits option.splits)

text \<open>The opens remembered are those of the last complete interval.\<close>

definition after_interval :: "candle list option \<Rightarrow> candle_scan \<Rightarrow> bool" where
  "after_interval previous s \<longleftrightarrow> (case previous of None \<Rightarrow> True
     | Some i \<Rightarrow> interval_named i \<and> map_of (sc_last_open s) ''BTC'' = Some (c_open_time (i ! 0))
         \<and> map_of (sc_last_open s) ''ETH'' = Some (c_open_time (i ! 1))
         \<and> map_of (sc_last_open s) ''SOL'' = Some (c_open_time (i ! 2)))"

lemma scanned_intervals:
  assumes "rfold scan_candle s cs = Inr s'" and "list_all interval_named (chunks3 cs)" and "after_interval previous s"
  shows "intervals_ok previous (chunks3 cs)"
  using assms
proof (induction cs arbitrary: s previous rule: chunks3.induct)
  case (1 a b c xs)
  from 1(2) obtain s1 s2 s3 where steps: "scan_candle s a = Inr s1" "scan_candle s1 b = Inr s2" "scan_candle s2 c = Inr s3"
    "rfold scan_candle s3 xs = Inr s'" by auto
  from 1(3) have named: "interval_named [a, b, c]" and rest: "list_all interval_named (chunks3 xs)" by simp_all
  then have sy: "c_symbol a = ''BTC''" "c_symbol b = ''ETH''" "c_symbol c = ''SOL''"
    and same: "c_open_time a = c_open_time b" "c_open_time a = c_open_time c"
    by (simp_all add: interval_named_def)
  note r = scan_candle_Inr [OF steps(1)] scan_candle_Inr [OF steps(2)] scan_candle_Inr [OF steps(3)]
  have "after_interval (Some [a, b, c]) s3"
    using named by (simp add: after_interval_def r(4,12,20) sy)
  with 1(1) steps(4) rest have "intervals_ok (Some [a, b, c]) (chunks3 xs)" by simp
  moreover have "interval_ok previous [a, b, c]"
    using 1(4) r(1,2,9,10,17,18) r(3,11,19) same
    by (auto simp: interval_ok_def sy ALLOWED_SYMBOLS_def after_interval_def r(4,12) upt_rec numeral_2_eq_2 split: option.splits)
  ultimately show ?case by simp
qed simp_all

lemma validate_candles_Inr:
  assumes "validate_candles cs = Inr ()"
  shows "cs \<noteq> []" and "length cs mod 3 = 0" and "intervals_ok None (chunks3 cs)"
  using assms
  by (auto simp: validate_candles_def after_interval_def intro!: scanned_intervals split: if_splits)

section \<open>What is written can be read\<close>

definition col_length :: "column \<Rightarrow> nat" where
  "col_length c = (case c of StrCol xs \<Rightarrow> length xs | I64Col xs \<Rightarrow> length xs | U8Col xs \<Rightarrow> length xs
     | U16Col xs \<Rightarrow> length xs | BoolCol xs \<Rightarrow> length xs)"

definition take_col :: "nat \<Rightarrow> column \<Rightarrow> column" where
  "take_col n c = (case c of StrCol xs \<Rightarrow> StrCol (take n xs) | I64Col xs \<Rightarrow> I64Col (take n xs)
     | U8Col xs \<Rightarrow> U8Col (take n xs) | U16Col xs \<Rightarrow> U16Col (take n xs) | BoolCol xs \<Rightarrow> BoolCol (take n xs))"

definition drop_col :: "nat \<Rightarrow> column \<Rightarrow> column" where
  "drop_col n c = (case c of StrCol xs \<Rightarrow> StrCol (drop n xs) | I64Col xs \<Rightarrow> I64Col (drop n xs)
     | U8Col xs \<Rightarrow> U8Col (drop n xs) | U16Col xs \<Rightarrow> U16Col (drop n xs) | BoolCol xs \<Rightarrow> BoolCol (drop n xs))"

text \<open>A batch cut into batches of the given numbers of rows.\<close>

fun split_batch :: "nat list \<Rightarrow> batch \<Rightarrow> batch list" where
  "split_batch [] b = []"
| "split_batch (n # ns) b = b\<lparr>rb_columns := map (take_col n) (rb_columns b)\<rparr>
     # split_batch ns (b\<lparr>rb_columns := map (drop_col n) (rb_columns b)\<rparr>)"

definition num_rows :: "batch \<Rightarrow> nat" where
  "num_rows b = (case rb_columns b of [] \<Rightarrow> 0 | c # _ \<Rightarrow> col_length c)"

text \<open>Arrow and Parquet as documented: a batch that is built has the schema and the columns it is
  built from, and a file that is written reads back as its batch, cut in some way.\<close>

definition parquet_law :: "dataset_io \<Rightarrow> bool" where
  "parquet_law I \<longleftrightarrow> (\<forall>sch cols b. io_batch I sch cols = Some b \<longrightarrow> b = \<lparr>rb_schema = sch, rb_columns = cols\<rparr>)
     \<and> (\<forall>b n. snd (io_encode I b) \<longrightarrow>
          (\<exists>ns. sum_list ns = num_rows b
             \<and> io_decode I n (fst (io_encode I b)) = Some (map Some (split_batch ns b))))"

locale columnar =
  fixes sch :: schema and cols :: "'a list \<Rightarrow> column list" and from_batch :: "batch \<Rightarrow> dataset_error + 'a list"
  assumes from_cols: "from_batch \<lparr>rb_schema = sch, rb_columns = cols xs\<rparr> = Inr xs"
    and take_cols: "map (take_col n) (cols xs) = cols (take n xs)"
    and drop_cols: "map (drop_col n) (cols xs) = cols (drop n xs)"
    and rows: "num_rows \<lparr>rb_schema = sch, rb_columns = cols xs\<rparr> = length xs"
begin

abbreviation batch_of :: "'a list \<Rightarrow> batch" where
  "batch_of xs \<equiv> \<lparr>rb_schema = sch, rb_columns = cols xs\<rparr>"

lemma rows_of_slices:
  "\<exists>rows. rmap (\<lambda>b. rbind (ok_or b DsArrow) from_batch) (map Some (split_batch ns (batch_of xs))) = Inr rows
     \<and> concat rows = take (sum_list ns) xs"
proof (induction ns arbitrary: xs)
  case (Cons n ns)
  from Cons [of "drop n xs"] show ?case
    by (auto simp: take_cols drop_cols from_cols take_add)
qed simp

lemma read_back:
  assumes "parquet_law I" and "write_parquet I path (batch_of xs) dir = (Inr (), dir1)" and "dir' path = dir1 path"
  shows "read_rows I n from_batch dir' path = Inr xs"
proof -
  from assms(2) have at: "snd (io_encode I (batch_of xs))" "dir1 path = Some (fst (io_encode I (batch_of xs)))"
    by (auto simp: write_parquet_def split: if_splits prod.splits)
  with assms(1) obtain ns where ns: "sum_list ns = length xs"
    "io_decode I n (fst (io_encode I (batch_of xs))) = Some (map Some (split_batch ns (batch_of xs)))"
    unfolding parquet_law_def rows [symmetric] by blast
  then show ?thesis using rows_of_slices [of ns xs] at(2) assms(3) by (auto simp: read_rows_def)
qed

end

interpretation candle_rows: columnar candle_schema candle_columns candles_from_batch
proof unfold_locales
  fix xs :: "candle list"
  show "candles_from_batch \<lparr>rb_schema = candle_schema, rb_columns = candle_columns xs\<rparr> = Inr xs"
    by (simp add: candles_from_batch_def candle_columns_def) (rule nth_equalityI; simp)
qed (simp_all add: candle_columns_def take_col_def drop_col_def take_map drop_map num_rows_def col_length_def)

interpretation instrument_rows: columnar instrument_schema instrument_columns instruments_from_batch
proof unfold_locales
  fix xs :: "instrument list"
  show "instruments_from_batch \<lparr>rb_schema = instrument_schema, rb_columns = instrument_columns xs\<rparr> = Inr xs"
    by (simp add: instruments_from_batch_def instrument_columns_def) (rule nth_equalityI; simp)
qed (simp_all add: instrument_columns_def take_col_def drop_col_def take_map drop_map num_rows_def col_length_def)

lemma sign_dataset_fields:
  assumes "sign_dataset P sk i v s e files h = Inr m"
  shows "dm_files m = files" and "dm_package_sha256 m = h"
  using assms by (auto simp: sign_dataset_def Let_def split: if_splits)

lemma file_matches_of:
  assumes "dataset_file_of P dir name = Inr f" and "dir' name = dir name"
  shows "file_matches P dir' f = Inr ()" and "df_path f = name"
  using assms by (auto simp: dataset_file_of_def file_matches_def u64_try_is)

lemma write_parquet_other:
  assumes "write_parquet I path b dir = (r, dir')" and "name \<noteq> path"
  shows "dir' name = dir name"
  using assms by (auto simp: write_parquet_def split: if_splits prod.splits)

lemma written_reads_back:
  assumes "signature_law P" and "parquet_law I"
    and "write_signed_dataset P I i v cs is sk dir = (Inr p, dir')"
  shows "read_verified_dataset P I dir' (dp_manifest p) = Inr cs"
proof -
  from assms(3) obtain d1 d2 bc bi ns where
    v: "validate_candles cs = Inr ()" "validate_instruments is cs = Inr ()" and
    b: "candle_batch I cs = Inr bc" "instrument_batch I is = Inr bi" and
    w: "write_parquet I CANDLE_FILE bc dir = (Inr (), d1)" "write_parquet I INSTRUMENT_FILE bi d1 = (Inr (), d2)" and
    s: "sign_package P I i v cs sk d2 = Inr (dp_manifest p)" and
    d: "dir' = d2(DATASET_MANIFEST_FILE \<mapsto> ns)"
    unfolding write_signed_dataset_def
    by (auto elim!: sbind_InrE simp: slift_def sret_def write_file_def split: if_splits)
  from s obtain f1 f2 h e1 e2 where
    f: "dataset_file_of P d2 CANDLE_FILE = Inr f1" "dataset_file_of P d2 INSTRUMENT_FILE = Inr f2"
    "files_digest P [f1, f2] = Inr h" "sign_dataset P sk i v e1 e2 [f1, f2] h = Inr (dp_manifest p)"
    by (auto simp: sign_package_def split: if_splits)
  have names: "CANDLE_FILE \<noteq> INSTRUMENT_FILE" "CANDLE_FILE \<noteq> DATASET_MANIFEST_FILE" "INSTRUMENT_FILE \<noteq> DATASET_MANIFEST_FILE"
    by (simp_all add: CANDLE_FILE_def INSTRUMENT_FILE_def DATASET_MANIFEST_FILE_def)
  then have same: "dir' CANDLE_FILE = d2 CANDLE_FILE" "dir' INSTRUMENT_FILE = d2 INSTRUMENT_FILE"
    "dir' CANDLE_FILE = d1 CANDLE_FILE"
    using write_parquet_other [OF w(2)] by (simp_all add: d)
  from assms(2) b have "bc = candle_rows.batch_of cs" "bi = instrument_rows.batch_of is"
    by (simp_all add: parquet_law_def candle_batch_def instrument_batch_def)
  then have "read_rows I 65536 candles_from_batch dir' CANDLE_FILE = Inr cs"
    "read_rows I 64 instruments_from_batch dir' INSTRUMENT_FILE = Inr is"
    using candle_rows.read_back instrument_rows.read_back w same assms(2) by blast+
  then show ?thesis
    using sign_dataset_verifies [OF assms(1) f(4)] sign_dataset_fields [OF f(4)] v
      file_matches_of [OF f(1), of dir'] file_matches_of [OF f(2), of dir'] same(1,2) f(3)
    by (simp add: read_verified_dataset_def)
qed

definition toy_ds_prims :: prims where
  "toy_ds_prims = toy_prims\<lparr>sha256 := (\<lambda>b. replicate 64 (CHR ''a''))\<rparr>"

text \<open>An hour of candles of the three markets, with funding on the hour.\<close>

definition toy_ds_candles :: "candle list" where
  "toy_ds_candles = concat (map (\<lambda>i. map (\<lambda>s. \<lparr>c_symbol = s, c_open_time = i * 900000,
     c_close_time = i * 900000 + 899999, c_open = 100500000, c_high = 101000000, c_low = 100000000,
     c_close = 101000000, c_volume = 125000000, c_funding_rate = (if i = 0 then 12500000 else 0),
     c_size_decimals = 4\<rparr>) [''BTC'', ''ETH'', ''SOL'']) [0, 1, 2, 3])"

definition toy_instruments :: "instrument list" where
  "toy_instruments = map (\<lambda>s. \<lparr>in_symbol = s, in_size_decimals = 4, in_max_leverage = 20, in_is_delisted = False\<rparr>)
     [''BTC'', ''ETH'', ''SOL'']"

text \<open>A format that can hold these two batches; it yields the candles as two batches.\<close>

definition toy_io :: dataset_io where
  "toy_io = \<lparr>io_batch = (\<lambda>s c. Some \<lparr>rb_schema = s, rb_columns = c\<rparr>),
     io_encode = (\<lambda>b. if b = candle_rows.batch_of toy_ds_candles then (''candles'', True)
       else if b = instrument_rows.batch_of toy_instruments then (''instruments'', True) else ('''', False)),
     io_decode = (\<lambda>n bytes. if bytes = ''candles''
         then Some (map Some (split_batch [5, 7] (candle_rows.batch_of toy_ds_candles)))
       else if bytes = ''instruments'' then Some (map Some (split_batch [3] (instrument_rows.batch_of toy_instruments)))
       else None),
     io_create_dir = True, io_create = (\<lambda>_. True), io_time_ok = (\<lambda>_. True)\<rparr>"

lemma toy_parquet_law: "parquet_law toy_io"
proof -
  have "sum_list [5, 7] = num_rows (candle_rows.batch_of toy_ds_candles)"
    "sum_list [3] = num_rows (instrument_rows.batch_of toy_instruments)"
    unfolding candle_rows.rows instrument_rows.rows by (simp_all add: toy_ds_candles_def toy_instruments_def)
  then show ?thesis
    unfolding parquet_law_def toy_io_def dataset_io.simps by (force simp del: split_batch.simps)
qed

lemma toy_ds_law: "signature_law toy_ds_prims"
  by (simp add: signature_law_def b64_law_def toy_ds_prims_def toy_prims_def)

lemma toy_ds_checked: "validate_candles toy_ds_candles = Inr ()" "validate_instruments toy_instruments toy_ds_candles = Inr ()"
  by (code_simp, code_simp)

abbreviation toy_written_dir :: directory where
  "toy_written_dir \<equiv> [CANDLE_FILE \<mapsto> ''candles'', INSTRUMENT_FILE \<mapsto> ''instruments'']"

lemma toy_writes:
  "write_parquet toy_io CANDLE_FILE (candle_rows.batch_of toy_ds_candles) dir = (Inr (), dir(CANDLE_FILE \<mapsto> ''candles''))"
  "write_parquet toy_io INSTRUMENT_FILE (instrument_rows.batch_of toy_instruments) dir
     = (Inr (), dir(INSTRUMENT_FILE \<mapsto> ''instruments''))"
  by (simp_all add: write_parquet_def toy_io_def candle_schema_def instrument_schema_def)

lemma toy_batches:
  "candle_batch toy_io toy_ds_candles = Inr (candle_rows.batch_of toy_ds_candles)"
  "instrument_batch toy_io toy_instruments = Inr (instrument_rows.batch_of toy_instruments)"
  by (simp_all add: candle_batch_def instrument_batch_def toy_io_def)

definition toy_ds_files :: "dataset_file list" where
  "toy_ds_files = [\<lparr>df_path = CANDLE_FILE, df_sha256 = replicate 64 (CHR ''a''), df_bytes = 7\<rparr>,
     \<lparr>df_path = INSTRUMENT_FILE, df_sha256 = replicate 64 (CHR ''a''), df_bytes = 11\<rparr>]"

lemma toy_files:
  "rmap (dataset_file_of toy_ds_prims toy_written_dir) [CANDLE_FILE, INSTRUMENT_FILE] = Inr toy_ds_files"
  by (simp add: dataset_file_of_def toy_ds_files_def toy_ds_prims_def toy_prims_def CANDLE_FILE_def INSTRUMENT_FILE_def
      u64_try_is)

lemma toy_canonical: "canonical_json toy_ds_prims (Some v) = Inr ''json''"
  by (simp add: canonical_json_def toy_ds_prims_def toy_prims_def)

lemma toy_sha [simp]: "sha256 toy_ds_prims b = replicate 64 (CHR ''a'')" "hex_encode toy_ds_prims b = b"
  "rfc3339 toy_ds_prims t = Some ''t''"
  by (simp_all add: toy_ds_prims_def toy_prims_def)

lemma toy_digest: "files_digest toy_ds_prims fs = Inr (replicate 64 (CHR ''a''))"
  by (simp add: files_digest_def toy_canonical)

lemma toy_files_ok:
  "list_ex (\<lambda>f. df_path f = [] \<or> starts_with (df_path f) ''/'' \<or> contains_sub (df_path f) ''..''
     \<or> df_bytes f = 0 \<or> \<not> is_sha256 (df_sha256 f)) toy_ds_files = False"
  "is_sha256 (replicate 64 (CHR ''a'')) = True" "toy_ds_files = [] \<longleftrightarrow> False"
  by (code_simp, code_simp, simp add: toy_ds_files_def)

lemma toy_ds_sign: "\<exists>m. sign_dataset toy_ds_prims sk 7 1 0 3599999000000 toy_ds_files (replicate 64 (CHR ''a'')) = Inr m
    \<and> canonical_json toy_ds_prims (dataset_manifest_json toy_ds_prims m) = Inr ''json''"
  by (simp add: sign_dataset_def validate_dataset_manifest_def toy_files_ok unsigned_dataset_def jtime_def
      dataset_manifest_json_def toy_canonical)

lemma toy_signed:
  obtains m bytes where "sign_package toy_ds_prims toy_io 7 1 toy_ds_candles sk toy_written_dir = Inr m"
    and "canonical_json toy_ds_prims (dataset_manifest_json toy_ds_prims m) = Inr bytes"
proof -
  have "io_time_ok toy_io t" for t by (simp add: toy_io_def)
  then have "sign_package toy_ds_prims toy_io 7 1 toy_ds_candles sk toy_written_dir
      = map_err DsProtocol (sign_dataset toy_ds_prims sk 7 1 0 3599999000000 toy_ds_files (replicate 64 (CHR ''a'')))"
    unfolding sign_package_def toy_files
    by (simp add: toy_digest toy_ds_candles_def timestamp_millis_def)
  with toy_ds_sign show thesis using that by auto
qed

lemma toy_written:
  "\<exists>p dir. write_signed_dataset toy_ds_prims toy_io 7 1 toy_ds_candles toy_instruments sk Map.empty = (Inr p, dir)"
proof -
  from toy_signed obtain m bytes where m: "sign_package toy_ds_prims toy_io 7 1 toy_ds_candles sk toy_written_dir = Inr m"
    "canonical_json toy_ds_prims (dataset_manifest_json toy_ds_prims m) = Inr bytes" .
  have "io_create_dir toy_io" "io_create toy_io DATASET_MANIFEST_FILE" by (simp_all add: toy_io_def)
  then show ?thesis
    by (simp add: write_signed_dataset_def toy_ds_checked toy_batches toy_writes m sbind_def slift_def sret_def write_file_def)
qed

text \<open>
  C30. What \<open>write_signed_dataset\<close> leaves in its directory reads back: once it succeeds, the manifest
  it returns verifies, the two files have the digests and the lengths it names, and
  \<open>read_verified_dataset\<close> yields exactly the candles that were written.
\<close>

theorem dataset_round_trip:
  assumes "signature_law P" and "parquet_law I"
    and "write_signed_dataset P I i v cs is sk dir = (Inr p, dir')"
  shows "read_verified_dataset P I dir' (dp_manifest p) = Inr cs"
  using assms by (rule written_reads_back)

theorem dataset_round_trip_witness:
  "\<exists>p dir. write_signed_dataset toy_ds_prims toy_io 7 1 toy_ds_candles toy_instruments ''seed'' Map.empty = (Inr p, dir)
     \<and> read_verified_dataset toy_ds_prims toy_io dir (dp_manifest p) = Inr toy_ds_candles"
  using toy_written dataset_round_trip [OF toy_ds_law toy_parquet_law] by blast

text \<open>
  C31. A dataset that \<open>read_verified_dataset\<close> accepts is one the replay engine takes: its manifest
  verifies, the series is not empty, it is cut into whole intervals of three candles, and every
  interval has its three markets, its times and its prices as \<open>backtest\<close> validates them.
\<close>

theorem verified_dataset_is_replayable:
  assumes "read_verified_dataset P I dir m = Inr cs"
  shows "verify_dataset P m = Inr () \<and> cs \<noteq> [] \<and> length cs mod 3 = 0 \<and> intervals_ok None (chunks3 cs)"
  using assms validate_candles_Inr [of cs] by (auto simp: read_verified_dataset_def split: if_splits)

theorem verified_dataset_is_replayable_witness:
  "\<exists>dir m. read_verified_dataset toy_ds_prims toy_io dir m = Inr toy_ds_candles
     \<and> verify_dataset toy_ds_prims m = Inr () \<and> intervals_ok None (chunks3 toy_ds_candles)"
  using toy_written written_reads_back [OF toy_ds_law toy_parquet_law] verified_dataset_is_replayable by meson

end
