(* ===== verification/Http.thy ===== *)
theory Http
  imports Effects Envelopes
begin

text \<open>
  The HTTP calls the clients make. URLs, header values and the network are the record
  \<open>net\<close>; what the program hands to the network is kept, in order, in the wire's \<open>wi_sent\<close>,
  which nothing reads. A response that does not arrive is a timeout or another failure.
\<close>

record url =
  ur_scheme :: string
  ur_host :: "string option"
  ur_opaque :: bool
  ur_rest :: string

datatype http_method = HGet | HPost | HPatch

record http_request =
  hq_method :: http_method
  hq_url :: url
  hq_authorization :: "string option"
  hq_body :: "json option"

datatype http_failure = HttpTimeout | HttpFailed

record http_response =
  hp_status :: nat
  hp_body :: "http_failure + json"

record 'w net =
  ne_parse :: "string \<Rightarrow> url option"
  ne_join :: "url \<Rightarrow> string \<Rightarrow> url option"
  ne_header :: "string \<Rightarrow> bool"
  ne_builds :: bool
  ne_send :: "http_request \<Rightarrow> 'w \<Rightarrow> (http_failure + http_response) \<times> 'w"

record 'w wire =
  wi_sent :: "http_request list"
  wi_world :: 'w

type_synonym ('w, 'e, 'a) call = "('w wire, 'e, 'a) step"

definition transmit :: "'w net \<Rightarrow> http_request \<Rightarrow> ('w, http_failure, http_response) call" where
  "transmit N q s = (case ne_send N q (wi_world s) of (r, w) \<Rightarrow>
     (r, s\<lparr>wi_sent := wi_sent s @ [q], wi_world := w\<rparr>))"

text \<open>A body that does not serialise fails the request before it is sent.\<close>

definition send_body ::
    "'w net \<Rightarrow> http_method \<Rightarrow> url \<Rightarrow> string option \<Rightarrow> json option \<Rightarrow> ('w, http_failure, http_response) call" where
  "send_body N method u authorization body =
     (case body of None \<Rightarrow> slift (Inl HttpFailed)
      | Some v \<Rightarrow> transmit N \<lparr>hq_method = method, hq_url = u, hq_authorization = authorization, hq_body = Some v\<rparr>)"

definition is_success :: "nat \<Rightarrow> bool" where "is_success n \<longleftrightarrow> 200 \<le> n \<and> n < 300"

definition UNAUTHORIZED :: nat where "UNAUTHORIZED = 401"

section \<open>Crow's origins\<close>

definition crow_host :: "string \<Rightarrow> bool" where
  "crow_host h \<longleftrightarrow> h = ''crowcompute.ai'' \<or> ends_with h ''.crowcompute.ai''"

text \<open>The checks both API clients make on their origin.\<close>

definition check_origin :: "'w net \<Rightarrow> 'e \<Rightarrow> string \<Rightarrow> 'e + url" where
  "check_origin N bad origin =
     rbind (ok_or (ne_parse N origin) bad) (\<lambda>u.
     rbind (ok_or (ur_host u) bad) (\<lambda>host.
       if ur_scheme u \<noteq> ''https'' \<or> \<not> crow_host host \<or> ur_opaque u then Inl bad else Inr u))"

definition on_crow :: "url \<Rightarrow> bool" where
  "on_crow u \<longleftrightarrow> ur_scheme u = ''https'' \<and> (\<exists>h. ur_host u = Some h \<and> crow_host h)"

text \<open>Joining an absolute path keeps the scheme and the authority of a URL.\<close>

definition api_path :: "string \<Rightarrow> bool" where
  "api_path p \<longleftrightarrow> starts_with p ''/api/''"

definition join_law :: "'w net \<Rightarrow> bool" where
  "join_law N \<longleftrightarrow> (\<forall>u p v. api_path p \<longrightarrow> ne_join N u p = Some v \<longrightarrow> ur_scheme v = ur_scheme u \<and> ur_host v = ur_host u)"

lemma check_origin_crow: "check_origin N bad origin = Inr u \<Longrightarrow> on_crow u"
  by (auto simp: check_origin_def on_crow_def split: if_splits)

lemma join_on_crow: "join_law N \<Longrightarrow> on_crow u \<Longrightarrow> api_path p \<Longrightarrow> ne_join N u p = Some v \<Longrightarrow> on_crow v"
  unfolding join_law_def on_crow_def by metis

section \<open>What is sent\<close>

text \<open>Between two states of the wire, only requests with a property were sent.\<close>

definition sends :: "(http_request \<Rightarrow> bool) \<Rightarrow> 'w wire \<Rightarrow> 'w wire \<Rightarrow> bool" where
  "sends Q s s' \<longleftrightarrow> (\<exists>qs. wi_sent s' = wi_sent s @ qs \<and> list_all Q qs)"

interpretation sent: step_relation "sends Q"
  by unfold_locales (fastforce simp: sends_def)+

lemma keeps_transmit: "Q q \<Longrightarrow> keeps (sends Q) (transmit N q)"
  by (auto simp: keeps_def sends_def transmit_def split: prod.splits)

lemma keeps_send_body:
  "(\<And>v. body = Some v \<Longrightarrow> Q \<lparr>hq_method = m, hq_url = u, hq_authorization = a, hq_body = Some v\<rparr>) \<Longrightarrow>
    keeps (sends Q) (send_body N m u a body)"
  by (auto simp: send_body_def intro: sent.keeps_lift keeps_transmit split: option.split)

text \<open>Requests to Crow under the token \<open>token\<close>.\<close>

definition crow_request :: "string \<Rightarrow> http_request \<Rightarrow> bool" where
  "crow_request token q \<longleftrightarrow> on_crow (hq_url q) \<and> hq_authorization q = Some (''Bearer '' @ token)"

end
