(* ===== verification/Publisher.thy ===== *)
theory Publisher
  imports Datasets Http Decimals Utf8
begin

text \<open>
  The dataset publisher, \<open>apps/crow-dataset-publisher/src/main.rs\<close>: the publication window, the
  downloads from the venue's info endpoint with the pages of the funding history, exact and rounded
  decimals, the normalisation of a symbol's series, and the two commands \<open>publish\<close> and \<open>verify\<close>.
  Serde's decoding is the record \<open>info_codec\<close>. The downloads of a symbol's candles and funding run
  concurrently; here the candles come first. The summary printed at the end is the returned value.
\<close>

section \<open>Data\<close>

definition INFO_ENDPOINT :: string where "INFO_ENDPOINT = ''https://api.hyperliquid.xyz/info''"
definition SYMBOLS :: "string list" where "SYMBOLS = [''BTC'', ''ETH'', ''SOL'']"
definition MAX_CANDLES_PER_SYMBOL :: int where "MAX_CANDLES_PER_SYMBOL = 5000"
definition MAX_FUNDING_PAGES :: nat where "MAX_FUNDING_PAGES = 32"

datatype publisher_error =
    PbWindow
  | PbSigningKey
  | PbRequest
  | PbHttp nat
  | PbSourceData
  | PbDecimal
  | PbDataset dataset_error
  | PbIo
  | PbJson
  | PbTlsProvider

record meta_asset =
  ma_name :: string
  ma_sz_decimals :: u8
  ma_max_leverage :: u16
  ma_is_delisted :: bool

record candle_response =
  cr_open_time :: int
  cr_close_time :: int
  cr_symbol :: string
  cr_interval :: string
  cr_open :: string
  cr_close :: string
  cr_high :: string
  cr_low :: string
  cr_volume :: string

record funding_response =
  fr_coin :: string
  fr_funding_rate :: string
  fr_time :: int

record info_codec =
  if_meta :: "json \<Rightarrow> meta_asset list option"
  if_candles :: "json \<Rightarrow> candle_response list option"
  if_funding :: "json \<Rightarrow> funding_response list option"

section \<open>The window\<close>

definition validate_window :: "int \<Rightarrow> int \<Rightarrow> publisher_error + nat" where
  "validate_window start_time end_time =
     (if start_time < 0
         \<or> end_time \<le> start_time
         \<or> start_time mod FUNDING_INTERVAL_MILLIS \<noteq> 0
         \<or> end_time mod FUNDING_INTERVAL_MILLIS \<noteq> 0
         \<or> (end_time - start_time) mod CANDLE_INTERVAL_MILLIS \<noteq> 0
      then Inl PbWindow
      else let intervals = (end_time - start_time) div CANDLE_INTERVAL_MILLIS in
        if \<not> (2 \<le> intervals \<and> intervals \<le> MAX_CANDLES_PER_SYMBOL) then Inl PbWindow
        else Inr (nat intervals))"

definition read_signing_key :: "string option \<Rightarrow> publisher_error + string" where
  "read_signing_key file =
     rbind (ok_or file PbIo) (\<lambda>bytes. if length bytes = 32 then Inr bytes else Inl PbSigningKey)"

section \<open>Decimals\<close>

text \<open>A sign, the digits up to a point and those after it; \<open>False\<close> when there is a second point.\<close>

definition signed_part :: "string \<Rightarrow> bool \<times> string" where
  "signed_part v = (if starts_with v ''-'' then (True, drop 1 v) else (False, v))"

definition decimal_parts :: "string \<Rightarrow> string \<times> string \<times> bool" where
  "decimal_parts v = (case split_once (CHR ''.'') v of
     None \<Rightarrow> (v, [], True)
   | Some (whole, rest) \<Rightarrow> (case split_once (CHR ''.'') rest of
       None \<Rightarrow> (whole, rest, True) | Some (fraction, _) \<Rightarrow> (whole, fraction, False)))"

definition parse_scaled :: "string \<Rightarrow> nat \<Rightarrow> publisher_error + int" where
  "parse_scaled v scale =
     (let (negative, body) = signed_part v; (whole, fraction, two_parts) = decimal_parts body in
      if body = [] \<or> starts_with body ''+''
         \<or> \<not> two_parts \<or> whole = [] \<or> \<not> list_all is_ascii_digit whole
         \<or> \<not> list_all is_ascii_digit fraction \<or> scale < length fraction
      then Inl PbDecimal
      else
      rbind (ok_or (i128_try (10 ^ scale)) PbDecimal) (\<lambda>factor.
      rbind (ok_or (parse_i128 whole) PbDecimal) (\<lambda>w.
      rbind (if fraction = [] then Inr 0
             else rbind (ok_or (parse_i128 fraction) PbDecimal) (\<lambda>f.
               rbind (ok_or (i128_try (10 ^ (scale - length fraction))) PbDecimal) (\<lambda>p.
                 ok_or (i128_try (f * p)) PbDecimal))) (\<lambda>f.
      rbind (ok_or (i128_try (w * factor)) PbDecimal) (\<lambda>m.
      rbind (ok_or (i128_try (m + f)) PbDecimal) (\<lambda>scaled.
        ok_or (i64_try (if negative then - scaled else scaled)) PbDecimal))))))"

definition parse_scaled_rounded :: "string \<Rightarrow> nat \<Rightarrow> publisher_error + int" where
  "parse_scaled_rounded v scale =
     (let (negative, body) = signed_part v; (whole, fraction, two_parts) = decimal_parts body in
      if \<not> two_parts \<or> whole = [] \<or> \<not> list_all is_ascii_digit whole
         \<or> \<not> list_all is_ascii_digit fraction \<or> length fraction \<le> scale
      then parse_scaled v scale
      else if 18 < length fraction then Inl PbDecimal
      else
      let kept = take scale fraction in
      rbind (ok_or (i128_try (10 ^ scale)) PbDecimal) (\<lambda>factor.
      rbind (ok_or (parse_i128 whole) PbDecimal) (\<lambda>w.
      rbind (if kept = [] then Inr 0 else ok_or (parse_i128 kept) PbDecimal) (\<lambda>f.
      let round_up = 53 \<le> byte (fraction ! scale) in
      rbind (ok_or (i128_try (w * factor)) PbDecimal) (\<lambda>m.
      rbind (ok_or (i128_try (m + f)) PbDecimal) (\<lambda>s.
      rbind (ok_or (i128_try (s + (if round_up then 1 else 0))) PbDecimal) (\<lambda>scaled.
        ok_or (i64_try (if negative then - scaled else scaled)) PbDecimal)))))))"

section \<open>The venue's data\<close>

definition info_post :: "'w net \<Rightarrow> (json \<Rightarrow> 'a option) \<Rightarrow> json \<Rightarrow> ('w, publisher_error, 'a) call" where
  "info_post N dec body =
     sbind (slift (ok_or (ne_parse N INFO_ENDPOINT) PbRequest)) (\<lambda>endpoint.
     sbind (serr (\<lambda>_. PbRequest) (send_body N HPost endpoint None (Some body))) (\<lambda>response.
     if \<not> is_success (hp_status response) then slift (Inl (PbHttp (hp_status response)))
     else slift (case hp_body response of Inl _ \<Rightarrow> Inl PbRequest | Inr v \<Rightarrow> ok_or (dec v) PbRequest)))"

definition core_instruments :: "meta_asset list \<Rightarrow> publisher_error + instrument list" where
  "core_instruments universe =
     rmap (\<lambda>symbol.
       rbind (ok_or (map_of (rev (map (\<lambda>a. (ma_name a, a)) universe)) symbol) PbSourceData) (\<lambda>asset.
         if ma_is_delisted asset then Inl PbSourceData
         else Inr \<lparr>in_symbol = symbol, in_size_decimals = ma_sz_decimals asset,
           in_max_leverage = ma_max_leverage asset, in_is_delisted = ma_is_delisted asset\<rparr>)) SYMBOLS"

definition info_instruments :: "'w net \<Rightarrow> info_codec \<Rightarrow> ('w, publisher_error, instrument list) call" where
  "info_instruments N C =
     sbind (info_post N (if_meta C) (JObj [(''type'', JStr ''meta'')])) (\<lambda>universe. slift (core_instruments universe))"

definition info_candles ::
    "'w net \<Rightarrow> info_codec \<Rightarrow> string \<Rightarrow> int \<Rightarrow> int \<Rightarrow> ('w, publisher_error, candle_response list) call" where
  "info_candles N C symbol start_time end_time =
     info_post N (if_candles C) (JObj [(''type'', JStr ''candleSnapshot''),
       (''req'', JObj [(''coin'', JStr symbol), (''interval'', JStr ''15m''), (''startTime'', JInt start_time),
          (''endTime'', JInt (wrap_i64 (end_time - 1)))])])"

text \<open>\<open>left\<close> counts the pages that may still be asked for.\<close>

fun funding_pages ::
    "'w net \<Rightarrow> info_codec \<Rightarrow> string \<Rightarrow> int \<Rightarrow> nat \<Rightarrow> int \<Rightarrow> funding_response list
      \<Rightarrow> ('w, publisher_error, int \<times> funding_response list) call" where
  "funding_pages N C symbol end_time 0 cursor result = sret (cursor, result)"
| "funding_pages N C symbol end_time (Suc left) cursor result =
     (if end_time \<le> cursor then sret (cursor, result)
      else sbind (info_post N (if_funding C) (JObj [(''type'', JStr ''fundingHistory''), (''coin'', JStr symbol),
          (''startTime'', JInt cursor), (''endTime'', JInt (wrap_i64 (end_time - 1)))])) (\<lambda>page.
        if page = [] then sret (cursor, result)
        else let last_time = fr_time (last page) in
          if last_time < cursor then slift (Inl PbSourceData)
          else sbind (slift (ok_or (i64_try (last_time + 1)) PbSourceData)) (\<lambda>cursor.
            funding_pages N C symbol end_time left cursor (result @ filter (\<lambda>f. fr_time f < end_time) page))))"

definition info_funding ::
    "'w net \<Rightarrow> info_codec \<Rightarrow> string \<Rightarrow> int \<Rightarrow> int \<Rightarrow> ('w, publisher_error, funding_response list) call" where
  "info_funding N C symbol start_time end_time =
     sbind (funding_pages N C symbol end_time MAX_FUNDING_PAGES start_time []) (\<lambda>(cursor, result).
       if cursor < end_time \<and> MAX_FUNDING_PAGES * 500 \<le> length result then slift (Inl PbSourceData)
       else sret result)"

section \<open>Normalisation\<close>

definition fold_funding ::
    "string \<Rightarrow> int \<Rightarrow> (int \<times> int) list \<Rightarrow> funding_response \<Rightarrow> publisher_error + (int \<times> int) list" where
  "fold_funding symbol start_time by_open r =
     (let open_time = wrap_i64 (fr_time r div FUNDING_INTERVAL_MILLIS * FUNDING_INTERVAL_MILLIS) in
      if fr_coin r \<noteq> symbol \<or> open_time < start_time then Inl PbSourceData
      else rbind (parse_scaled (fr_funding_rate r) 12) (\<lambda>rate.
        if map_of by_open open_time \<noteq> None then Inl PbSourceData
        else Inr (bt_insert open_time rate by_open)))"

definition normalize_candle ::
    "string \<Rightarrow> u8 \<Rightarrow> int \<Rightarrow> (int \<times> int) list \<Rightarrow> nat \<times> candle_response \<Rightarrow> publisher_error + candle" where
  "normalize_candle symbol decimals start_time by_open = (\<lambda>(index, c).
     let open_time = wrap_i64 (start_time + wrap_i64 (int index * CANDLE_INTERVAL_MILLIS)) in
     if cr_symbol c \<noteq> symbol \<or> cr_interval c \<noteq> ''15m'' \<or> cr_open_time c \<noteq> open_time
        \<or> cr_close_time c \<noteq> wrap_i64 (wrap_i64 (open_time + CANDLE_INTERVAL_MILLIS) - 1)
     then Inl PbSourceData
     else
     rbind (parse_scaled (cr_open c) 6) (\<lambda>open_price.
     rbind (parse_scaled (cr_high c) 6) (\<lambda>high.
     rbind (parse_scaled (cr_low c) 6) (\<lambda>low.
     rbind (parse_scaled (cr_close c) 6) (\<lambda>close_price.
     rbind (parse_scaled_rounded (cr_volume c) 8) (\<lambda>volume.
       Inr \<lparr>c_symbol = symbol, c_open_time = open_time, c_close_time = cr_close_time c, c_open = open_price,
         c_high = high, c_low = low, c_close = close_price, c_volume = volume,
         c_funding_rate = (case map_of by_open open_time of None \<Rightarrow> 0 | Some r \<Rightarrow> r),
         c_size_decimals = decimals\<rparr>))))))"

definition normalize_symbol ::
    "string \<Rightarrow> u8 \<Rightarrow> nat \<Rightarrow> int \<Rightarrow> candle_response list \<Rightarrow> funding_response list
      \<Rightarrow> publisher_error + candle list" where
  "normalize_symbol symbol decimals expected_intervals start_time candles funding =
     (if length candles \<noteq> expected_intervals then Inl PbSourceData
      else
      rbind (ok_or (u64_try (int expected_intervals * 15)) PbSourceData) (\<lambda>minutes.
      let expected_funding = unat minutes div 60 in
      rbind (rfold (fold_funding symbol start_time) [] funding) (\<lambda>by_open.
      if length by_open \<noteq> expected_funding then Inl PbSourceData
      else if set (map fst by_open) \<noteq>
          set (map (\<lambda>index. wrap_i64 (start_time + wrap_i64 (int index * FUNDING_INTERVAL_MILLIS))) [0..<expected_funding])
      then Inl PbSourceData
      else rmap (normalize_candle symbol decimals start_time by_open) (enumerate 0 candles))))"

section \<open>The commands\<close>

record 'w publication =
  pu_wire :: "'w wire"
  pu_output :: directory

type_synonym ('w, 'a) publish_step = "('w publication, publisher_error, 'a) step"

definition on_pub_wire :: "('w, publisher_error, 'a) call \<Rightarrow> ('w, 'a) publish_step" where
  "on_pub_wire m s = (case m (pu_wire s) of (r, t) \<Rightarrow> (r, s\<lparr>pu_wire := t\<rparr>))"

definition on_output :: "(directory, publisher_error, 'a) step \<Rightarrow> ('w, 'a) publish_step" where
  "on_output m s = (case m (pu_output s) of (r, d) \<Rightarrow> (r, s\<lparr>pu_output := d\<rparr>))"

definition fetch_symbol ::
    "'w net \<Rightarrow> info_codec \<Rightarrow> nat \<Rightarrow> int \<Rightarrow> int \<Rightarrow> instrument \<Rightarrow> ('w, publisher_error, string \<times> candle list) call" where
  "fetch_symbol N C expected_intervals start_time end_time i =
     sbind (info_candles N C (in_symbol i) start_time end_time) (\<lambda>candles.
     sbind (info_funding N C (in_symbol i) start_time end_time) (\<lambda>funding.
     sbind (slift (normalize_symbol (in_symbol i) (in_size_decimals i) expected_intervals start_time candles funding)) (\<lambda>series.
       sret (in_symbol i, series))))"

text \<open>The series are interleaved, the three markets of an interval side by side.\<close>

definition series_at :: "(string \<times> candle list) list \<Rightarrow> nat \<Rightarrow> string \<Rightarrow> publisher_error + candle" where
  "series_at by_symbol index symbol =
     (case map_of by_symbol symbol of None \<Rightarrow> Inl PbSourceData
      | Some series \<Rightarrow> if index < length series then Inr (series ! index) else Inl PbSourceData)"

definition interleave :: "(string \<times> candle list) list \<Rightarrow> nat \<Rightarrow> publisher_error + candle list" where
  "interleave by_symbol expected_intervals =
     rmap (\<lambda>(index, symbol). series_at by_symbol index symbol) (List.product [0..<expected_intervals] SYMBOLS)"

definition publish ::
    "prims \<Rightarrow> dataset_io \<Rightarrow> 'w net \<Rightarrow> info_codec \<Rightarrow> uuid \<Rightarrow> u32 \<Rightarrow> int \<Rightarrow> int \<Rightarrow> string option
      \<Rightarrow> ('w, dataset_package \<times> candle list) publish_step" where
  "publish P I N C dataset_id version start_time end_time signing_key_file =
     sbind (slift (validate_window start_time end_time)) (\<lambda>expected_intervals.
     if version = 0 then slift (Inl PbWindow)
     else
     sbind (sget pu_output) (\<lambda>output.
     if dom output \<noteq> {} then slift (Inl PbSourceData)
     else
     sbind (slift (read_signing_key signing_key_file)) (\<lambda>signing_key.
     sbind (slift (if ne_builds N then Inr () else Inl PbRequest)) (\<lambda>_.
     sbind (on_pub_wire (info_instruments N C)) (\<lambda>instruments.
     sbind (on_pub_wire (sfor (fetch_symbol N C expected_intervals start_time end_time) instruments)) (\<lambda>fetched.
     sbind (slift (interleave (rev fetched) expected_intervals)) (\<lambda>candles.
     sbind (on_output (serr PbDataset (write_signed_dataset P I dataset_id version candles instruments signing_key))) (\<lambda>package.
       sret (package, candles)))))))))"

definition verify_package ::
    "prims \<Rightarrow> dataset_io \<Rightarrow> (string \<Rightarrow> dataset_manifest option) \<Rightarrow> directory \<Rightarrow> string option
      \<Rightarrow> publisher_error + dataset_manifest \<times> candle list" where
  "verify_package P I dec dir expected_public_key_file =
     rbind (ok_or (dir DATASET_MANIFEST_FILE) PbIo) (\<lambda>bytes.
     rbind (ok_or (dec bytes) PbJson) (\<lambda>manifest.
     rbind (ok_or expected_public_key_file PbIo) (\<lambda>raw.
     rbind (ok_or (from_utf8 raw) PbIo) (\<lambda>expected.
     if dm_signer_public_key manifest \<noteq> utf8 (trim expected) then Inl PbSourceData
     else rbind (map_err PbDataset (read_verified_dataset P I dir manifest)) (\<lambda>candles.
       Inr (manifest, candles))))))"

definition public_key_of :: "prims \<Rightarrow> string option \<Rightarrow> publisher_error + string" where
  "public_key_of P signing_key_file =
     rbind (read_signing_key signing_key_file) (\<lambda>key. Inr (b64_encode P (verifying_key P key)))"

section \<open>Decimals are read exactly, or to the nearest unit\<close>

text \<open>The text \<open>v\<close> is a sign, digits, and possibly a point and more digits.\<close>

definition decimal_text :: "string \<Rightarrow> bool \<Rightarrow> string \<Rightarrow> string \<Rightarrow> bool" where
  "decimal_text v negative whole fraction \<longleftrightarrow> whole \<noteq> [] \<and> list_all is_ascii_digit whole \<and> list_all is_ascii_digit fraction
     \<and> (v = (if negative then ''-'' else []) @ whole \<and> fraction = []
        \<or> v = (if negative then ''-'' else []) @ whole @ CHR ''.'' # fraction)"

text \<open>The number that text stands for, in units of its last digit.\<close>

definition decimal_units :: "bool \<Rightarrow> string \<Rightarrow> string \<Rightarrow> int" where
  "decimal_units negative whole fraction = (if negative then - 1 else 1) * int (digits_value (whole @ fraction))"

lemma split_once_Some: "split_once c s = Some (a, b) \<Longrightarrow> s = a @ c # b"
proof -
  assume h: "split_once c s = Some (a, b)"
  then obtain d where d: "dropWhile (\<lambda>x. x \<noteq> c) s = d # b" "a = takeWhile (\<lambda>x. x \<noteq> c) s"
    by (auto simp: split_once_def split: list.splits)
  have "d = c" using d(1) hd_dropWhile [of "\<lambda>x. x \<noteq> c" s] by auto
  then show "s = a @ c # b" using d takeWhile_dropWhile_id [of "\<lambda>x. x \<noteq> c" s] by metis
qed

lemma decimal_parts_text:
  assumes "signed_part v = (negative, body)" and "decimal_parts body = (whole, fraction, two)"
    and "two" and "whole \<noteq> []" and "list_all is_ascii_digit whole" and "list_all is_ascii_digit fraction"
  shows "decimal_text v negative whole fraction"
proof -
  have "body = whole \<and> fraction = [] \<or> body = whole @ CHR ''.'' # fraction"
    using assms(2,3) by (auto simp: decimal_parts_def split: option.splits dest: split_once_Some)
  moreover have "v = (if negative then ''-'' else []) @ body"
    using assms(1) by (auto simp: signed_part_def starts_with_append split: if_splits)
  ultimately show ?thesis using assms(4-6) by (auto simp: decimal_text_def)
qed

lemma parse_i128_Some: "parse_i128 s = Some n \<Longrightarrow> n = int (digits_value s)"
  by (auto simp: parse_i128_def split: if_splits)

lemma parse_scaled_exact:
  assumes "parse_scaled v k = Inr n"
  shows "\<exists>negative whole fraction. decimal_text v negative whole fraction \<and> length fraction \<le> k
    \<and> n = decimal_units negative whole fraction * 10 ^ (k - length fraction)"
proof -
  obtain negative body where s: "signed_part v = (negative, body)" by fastforce
  obtain whole fraction two where p: "decimal_parts body = (whole, fraction, two)" by (cases "decimal_parts body") auto
  from assms have ok: "two" "whole \<noteq> []" "list_all is_ascii_digit whole" "list_all is_ascii_digit fraction" "length fraction \<le> k"
    by (auto simp: parse_scaled_def s p Let_def split: if_splits)
  from assms ok obtain f where f: "f = int (digits_value fraction) * 10 ^ (k - length fraction)"
    and n: "n = (if negative then - (int (digits_value whole) * 10 ^ k + f) else int (digits_value whole) * 10 ^ k + f)"
    by (cases "fraction = []") (auto simp: parse_scaled_def s p Let_def dest!: parse_i128_Some split: if_splits)
  have "(10 :: int) ^ k = 10 ^ length fraction * 10 ^ (k - length fraction)"
    using ok(5) by (simp flip: power_add)
  then have "n = decimal_units negative whole fraction * 10 ^ (k - length fraction)"
    by (simp add: n f decimal_units_def digits_value_append algebra_simps)
  then show ?thesis using decimal_parts_text [OF s p ok(1-4)] ok(5) by blast
qed

lemma digits_value_less: "list_all is_ascii_digit s \<Longrightarrow> digits_value s < 10 ^ length s"
proof (induction s)
  case (Cons c s)
  have "digit_of c \<le> 9" using Cons.prems by (auto simp: is_ascii_digit_def digit_of_def)
  then have "digit_of c * 10 ^ length s \<le> 9 * 10 ^ length s" by simp
  moreover have "digits_value s < 10 ^ length s" using Cons by simp
  ultimately show ?case by (simp only: digits_value_Cons list.size power_Suc add_Suc_right add_0_right)
qed simp

lemma half_bound: "(x :: int) \<le> 5 * t \<Longrightarrow> - x \<le> 5 * t \<Longrightarrow> 2 * \<bar>x\<bar> \<le> 10 * t"
  by (simp add: abs_le_iff)

lemma half_up: "(0 :: int) \<le> r \<Longrightarrow> r < t \<Longrightarrow> 5 * t \<le> d \<Longrightarrow> d \<le> 9 * t \<Longrightarrow> 2 * \<bar>10 * t - (d + r)\<bar> \<le> 10 * t"
  by (rule half_bound) linarith+

lemma half_down: "(0 :: int) \<le> r \<Longrightarrow> r < t \<Longrightarrow> 0 \<le> d \<Longrightarrow> d \<le> 4 * t \<Longrightarrow> 2 * \<bar>0 - (d + r)\<bar> \<le> 10 * t"
  by (rule half_bound) linarith+

lemma rounded_digits:
  assumes "list_all is_ascii_digit fraction" and "k < length fraction"
  shows "2 * \<bar>(int (digits_value (take k fraction)) + (if 53 \<le> byte (fraction ! k) then 1 else 0)) * 10 ^ (length fraction - k)
      - int (digits_value fraction)\<bar> \<le> 10 ^ (length fraction - k)"
proof -
  let ?d = "fraction ! k" and ?rest = "drop (Suc k) fraction"
  let ?m = "length fraction - Suc k"
  have split: "fraction = take k fraction @ ?d # ?rest" using assms(2) by (simp add: id_take_nth_drop)
  have len: "length fraction - k = Suc ?m" using assms(2) by simp
  have value_is: "digits_value fraction = digits_value (take k fraction) * 10 ^ Suc ?m + (digit_of ?d * 10 ^ ?m + digits_value ?rest)"
    by (subst split) (simp add: digits_value_append digits_value_Cons del: append_take_drop_id)
  have digit: "is_ascii_digit ?d" "list_all is_ascii_digit ?rest"
    using assms by (simp_all add: list_all_length)
  have rest: "digits_value ?rest < 10 ^ ?m" using digits_value_less [OF digit(2)] by simp
  have up: "53 \<le> byte ?d \<longleftrightarrow> 5 \<le> digit_of ?d" and "digit_of ?d \<le> 9"
    using digit(1) by (auto simp: is_ascii_digit_def digit_of_def)
  have "2 * \<bar>(if 5 \<le> digit_of ?d then 10 * 10 ^ ?m else 0) - (int (digit_of ?d) * 10 ^ ?m + int (digits_value ?rest))\<bar> \<le> 10 * 10 ^ ?m"
  proof (cases "5 \<le> digit_of ?d")
    case True
    have "5 * (10 :: int) ^ ?m \<le> int (digit_of ?d) * 10 ^ ?m" using True by (intro mult_right_mono) simp_all
    moreover have "int (digit_of ?d) * 10 ^ ?m \<le> 9 * 10 ^ ?m" using \<open>digit_of ?d \<le> 9\<close> by (intro mult_right_mono) simp_all
    moreover have "int (digits_value ?rest) < 10 ^ ?m" using rest by (metis of_nat_less_iff of_nat_power of_nat_numeral)
    ultimately show ?thesis unfolding if_P [OF True] by (intro half_up) simp_all
  next
    case False
    have "int (digit_of ?d) * 10 ^ ?m \<le> 4 * 10 ^ ?m" using False by (intro mult_right_mono) simp_all
    moreover have "int (digits_value ?rest) < 10 ^ ?m" using rest by (metis of_nat_less_iff of_nat_power of_nat_numeral)
    ultimately show ?thesis unfolding if_not_P [OF False] by (intro half_down) simp_all
  qed
  then show ?thesis unfolding len value_is up by (auto simp: algebra_simps)
qed

lemma parse_rounded_nearest:
  assumes "parse_scaled_rounded v k = Inr n"
  shows "\<exists>negative whole fraction. decimal_text v negative whole fraction
    \<and> (if length fraction \<le> k then n = decimal_units negative whole fraction * 10 ^ (k - length fraction)
       else 2 * \<bar>n * 10 ^ (length fraction - k) - decimal_units negative whole fraction\<bar> \<le> 10 ^ (length fraction - k))"
proof -
  obtain negative body where s: "signed_part v = (negative, body)" by fastforce
  obtain whole fraction two where p: "decimal_parts body = (whole, fraction, two)" by (cases "decimal_parts body") auto
  show ?thesis
  proof (cases "\<not> two \<or> whole = [] \<or> \<not> list_all is_ascii_digit whole \<or> \<not> list_all is_ascii_digit fraction \<or> length fraction \<le> k")
    case True
    then have "parse_scaled v k = Inr n" using assms by (auto simp: parse_scaled_rounded_def s p Let_def)
    from parse_scaled_exact [OF this] show ?thesis by auto
  next
    case False
    then have ok: "two" "whole \<noteq> []" "list_all is_ascii_digit whole" "list_all is_ascii_digit fraction" "k < length fraction"
      by auto
    let ?l = "length fraction" and ?kept = "int (digits_value (take k fraction)) + (if 53 \<le> byte (fraction ! k) then 1 else 0)"
    have cond: "(\<not> two \<or> whole = [] \<or> \<not> list_all is_ascii_digit whole \<or> \<not> list_all is_ascii_digit fraction \<or> ?l \<le> k) = False"
      using ok by auto
    have n: "n = (if negative then - 1 else 1) * (int (digits_value whole) * 10 ^ k + ?kept)"
      using assms unfolding parse_scaled_rounded_def s p Let_def prod.case cond if_False
      by (cases "take k fraction = []") (auto simp del: take_eq_Nil dest!: parse_i128_Some split: if_splits)
    have "(10 :: int) ^ ?l = 10 ^ k * 10 ^ (?l - k)" using ok(5) by (simp flip: power_add)
    then have units: "decimal_units negative whole fraction
        = (if negative then - 1 else 1) * (int (digits_value whole) * 10 ^ k * 10 ^ (?l - k) + int (digits_value fraction))"
      by (simp add: decimal_units_def digits_value_append)
    have "n * 10 ^ (?l - k) - decimal_units negative whole fraction
        = (if negative then - 1 else 1) * (?kept * 10 ^ (?l - k) - int (digits_value fraction))"
      unfolding n units by (cases negative) (simp_all add: algebra_simps)
    then have "\<bar>n * 10 ^ (?l - k) - decimal_units negative whole fraction\<bar>
        = \<bar>?kept * 10 ^ (?l - k) - int (digits_value fraction)\<bar>" by (cases negative) (simp_all only: if_True if_False mult_1 mult_minus1 abs_minus_cancel)
    then have "2 * \<bar>n * 10 ^ (?l - k) - decimal_units negative whole fraction\<bar> \<le> 10 ^ (?l - k)"
      using rounded_digits [OF ok(4,5)] by simp
    then show ?thesis using decimal_parts_text [OF s p ok(1-4)] ok(5) by (intro exI conjI) auto
  qed
qed

text \<open>
  The publisher's decimals are read without loss: a text that \<open>parse_scaled\<close> accepts is a decimal number
  with at most the digits of the scale and the result is exactly that number in units of the scale;
  \<open>parse_scaled_rounded\<close> gives the same, and for longer texts the nearest unit.
\<close>

theorem decimals_are_exact_or_nearest:
  "(parse_scaled v k = Inr n \<longrightarrow> (\<exists>negative whole fraction. decimal_text v negative whole fraction
      \<and> length fraction \<le> k \<and> n = decimal_units negative whole fraction * 10 ^ (k - length fraction)))
   \<and> (parse_scaled_rounded v k = Inr m \<longrightarrow> (\<exists>negative whole fraction. decimal_text v negative whole fraction
      \<and> (if length fraction \<le> k then m = decimal_units negative whole fraction * 10 ^ (k - length fraction)
         else 2 * \<bar>m * 10 ^ (length fraction - k) - decimal_units negative whole fraction\<bar> \<le> 10 ^ (length fraction - k))))"
  using parse_scaled_exact [of v k n] parse_rounded_nearest [of v k m] by blast

lemma sample_rounded: "parse_scaled_rounded ''1.000000005'' 8 = Inr 100000001"
  by code_simp

theorem decimals_are_exact_or_nearest_witness:
  "\<exists>negative whole fraction. decimal_text ''1.000000005'' negative whole fraction
     \<and> (if length fraction \<le> 8 then 100000001 = decimal_units negative whole fraction * 10 ^ (8 - length fraction)
        else 2 * \<bar>100000001 * 10 ^ (length fraction - 8) - decimal_units negative whole fraction\<bar> \<le> 10 ^ (length fraction - 8))"
  using decimals_are_exact_or_nearest [of "''1.000000005''" 8 0 100000001] sample_rounded by blast

section \<open>The published series\<close>

lemma sfor_elements:
  "sfor f xs s = (Inr ys, s') \<Longrightarrow> y \<in> set ys \<Longrightarrow> \<exists>x \<in> set xs. \<exists>t t'. f x t = (Inr y, t')"
  by (induction xs arbitrary: ys s) (auto elim!: sbind_InrE simp: sret_def; blast)+

lemma enumerate_nth: "i < length xs \<Longrightarrow> enumerate n xs ! i = (n + i, xs ! i)"
  by (simp add: nth_enumerate_eq)

lemma normalize_candle_Inr:
  assumes "normalize_candle symbol decimals start by_open (i, c) = Inr r"
  shows "c_symbol r = symbol \<and> c_open_time r = wrap_i64 (start + wrap_i64 (int i * 900000))
    \<and> c_size_decimals r = decimals"
  using assms by (auto simp: normalize_candle_def Let_def CANDLE_INTERVAL_MILLIS_def split: if_splits)

lemma normalize_symbol_nth:
  assumes "normalize_symbol symbol decimals n start cs fs = Inr series"
  shows "length series = n"
    and "i < n \<Longrightarrow> c_symbol (series ! i) = symbol
      \<and> c_open_time (series ! i) = wrap_i64 (start + wrap_i64 (int i * 900000))
      \<and> c_size_decimals (series ! i) = decimals"
proof -
  from assms obtain by_open where len: "length cs = n"
    and r: "rmap (normalize_candle symbol decimals start by_open) (enumerate 0 cs) = Inr series"
    by (auto simp: normalize_symbol_def Let_def split: if_splits)
  show "length series = n" using rmap_length [OF r] len by simp
  assume "i < n"
  with len have "normalize_candle symbol decimals start by_open (i, cs ! i) = Inr (series ! i)"
    using rmap_nth [OF r, of i] by (simp add: enumerate_nth)
  then show "c_symbol (series ! i) = symbol
      \<and> c_open_time (series ! i) = wrap_i64 (start + wrap_i64 (int i * 900000))
      \<and> c_size_decimals (series ! i) = decimals"
    by (rule normalize_candle_Inr)
qed

lemma publish_Inr:
  assumes "publish P I N C dataset_id version start_time end_time file s = (Inr (package, candles), s')"
  obtains n key instruments fetched t t' d' where
    "validate_window start_time end_time = Inr n" and "read_signing_key file = Inr key"
    and "sfor (fetch_symbol N C n start_time end_time) instruments t = (Inr fetched, t')"
    and "interleave (rev fetched) n = Inr candles"
    and "write_signed_dataset P I dataset_id version candles instruments key (pu_output s) = (Inr package, pu_output s')"
proof -
  from assms obtain n key instruments fetched s1 s2 s3 s4 where
    "validate_window start_time end_time = Inr n" and "read_signing_key file = Inr key"
    and i: "on_pub_wire (info_instruments N C) s = (Inr instruments, s1)"
    and f: "on_pub_wire (sfor (fetch_symbol N C n start_time end_time) instruments) s1 = (Inr fetched, s2)"
    and "interleave (rev fetched) n = Inr candles"
    and w: "on_output (serr PbDataset (write_signed_dataset P I dataset_id version candles instruments key)) s2
      = (Inr package, s')"
    unfolding publish_def
    by (auto elim!: sbind_InrE simp: slift_def sret_def sget_def split: if_splits)
  moreover from i f have "pu_output s2 = pu_output s"
    and "\<exists>t t'. sfor (fetch_symbol N C n start_time end_time) instruments t = (Inr fetched, t')"
    by (auto simp: on_pub_wire_def split: prod.splits)
  moreover from w have "write_signed_dataset P I dataset_id version candles instruments key (pu_output s2)
      = (Inr package, pu_output s')"
    by (auto simp: on_output_def serr_def split: prod.splits)
  ultimately show thesis using that by metis
qed

lemma wrap_i64_is: "- 9223372036854775808 \<le> n \<Longrightarrow> n \<le> 9223372036854775807 \<Longrightarrow> wrap_i64 n = n"
  by (simp add: wrap_i64_def)

lemma validate_window_Inr:
  assumes "validate_window start_time end_time = Inr n"
  shows "0 \<le> start_time" and "start_time + int n * 900000 = end_time" and "2 \<le> n" and "n \<le> 5000"
proof -
  from assms have h: "0 \<le> start_time" "(end_time - start_time) mod 900000 = 0" "2 \<le> (end_time - start_time) div 900000"
    "(end_time - start_time) div 900000 \<le> 5000" "n = nat ((end_time - start_time) div 900000)"
    by (auto simp: validate_window_def Let_def CANDLE_INTERVAL_MILLIS_def MAX_CANDLES_PER_SYMBOL_def split: if_splits)
  have "(end_time - start_time) div 900000 * 900000 = end_time - start_time"
    using h(2) div_mult_mod_eq [of "end_time - start_time" 900000] by simp
  then show "0 \<le> start_time" "start_time + int n * 900000 = end_time" "2 \<le> n" "n \<le> 5000" using h by simp_all
qed

lemma interleave_nth:
  assumes "interleave by_symbol n = Inr cs"
  shows "length cs = 3 * n"
    and "i < n \<Longrightarrow> j < 3 \<Longrightarrow> series_at by_symbol i (SYMBOLS ! j) = Inr (cs ! (3 * i + j))"
proof -
  have r: "rmap (\<lambda>(index, symbol). series_at by_symbol index symbol) (List.product [0..<n] SYMBOLS) = Inr cs"
    using assms by (simp add: interleave_def)
  have three: "length SYMBOLS = 3" by (simp add: SYMBOLS_def)
  then show "length cs = 3 * n" using rmap_length [OF r] by simp
  assume ij: "i < n" "j < 3"
  have at: "(3 * i + j) div 3 = i" "(3 * i + j) mod 3 = j" using ij(2) by simp_all
  have "3 * i + j < length [0..<n] * length SYMBOLS" using ij by (simp add: three)
  then have "List.product [0..<n] SYMBOLS ! (3 * i + j) = (i, SYMBOLS ! j)"
    using ij by (simp add: product_nth three)
  moreover have "3 * i + j < length (List.product [0..<n] SYMBOLS)" using ij by (simp add: three)
  ultimately show "series_at by_symbol i (SYMBOLS ! j) = Inr (cs ! (3 * i + j))"
    using rmap_nth [OF r, of "3 * i + j"] by simp
qed

lemma fetched_series:
  assumes "sfor (fetch_symbol N C n start_time end_time) instruments t = (Inr fetched, t')"
    and "validate_window start_time end_time = Inr n" and "is_i64 end_time"
    and "map_of (rev fetched) symbol = Some series" and "i < n"
  shows "c_symbol (series ! i) = symbol" and "c_open_time (series ! i) = start_time + int i * 900000"
proof -
  have "(symbol, series) \<in> set fetched" using map_of_SomeD [OF assms(4)] by simp
  from sfor_elements [OF assms(1) this] obtain x u u' where "fetch_symbol N C n start_time end_time x u = (Inr (symbol, series), u')"
    by blast
  then obtain cs fs where m: "normalize_symbol symbol (in_size_decimals x) n start_time cs fs = Inr series"
    unfolding fetch_symbol_def by (auto elim!: sbind_InrE simp: slift_def sret_def)
  note w = validate_window_Inr [OF assms(2)]
  have "int i * 900000 \<le> 5000 * 900000" and "start_time + int i * 900000 \<le> end_time" and "0 \<le> int i * 900000"
    using assms(5) w by simp_all
  then have "wrap_i64 (start_time + wrap_i64 (int i * 900000)) = start_time + int i * 900000"
    using w(1) assms(3) by (simp add: wrap_i64_is is_i64_def)
  then show "c_symbol (series ! i) = symbol" "c_open_time (series ! i) = start_time + int i * 900000"
    using normalize_symbol_nth(2) [OF m assms(5)] by simp_all
qed

text \<open>The full hour of a funding record.\<close>

definition funding_hour :: "funding_response \<Rightarrow> int" where
  "funding_hour f = wrap_i64 (fr_time f div 3600000 * 3600000)"

text \<open>
  How a published candle must come from the venue's answers: the candle of its time with the prices and the
  volume read, and as funding the rate of the record of its hour, or none when it does not open an hour.
\<close>

definition published_from ::
    "string \<Rightarrow> candle_response list \<Rightarrow> funding_response list \<Rightarrow> nat \<Rightarrow> candle \<Rightarrow> bool" where
  "published_from symbol cs fs i c \<longleftrightarrow> (let r = cs ! i in
     cr_symbol r = symbol \<and> cr_open_time r = c_open_time c \<and> cr_close_time r = c_close_time c
     \<and> parse_scaled (cr_open r) 6 = Inr (c_open c) \<and> parse_scaled (cr_high r) 6 = Inr (c_high c)
     \<and> parse_scaled (cr_low r) 6 = Inr (c_low c) \<and> parse_scaled (cr_close r) 6 = Inr (c_close c)
     \<and> parse_scaled_rounded (cr_volume r) 8 = Inr (c_volume c))
     \<and> (if c_open_time c mod 3600000 = 0
        then \<exists>f\<in>set fs. fr_coin f = symbol \<and> funding_hour f = c_open_time c
               \<and> parse_scaled (fr_funding_rate f) 12 = Inr (c_funding_rate c)
        else c_funding_rate c = 0)"

lemma length_bt_insert: "map_of m k = None \<Longrightarrow> length (bt_insert k v m) = Suc (length m)"
  by (induction k v m rule: bt_insert.induct) (auto split: if_splits)

lemma fold_funding_Inr:
  "rfold (fold_funding symbol start) m fs = Inr m' \<Longrightarrow> length m' = length m + length fs
    \<and> (\<forall>t rate. map_of m' t = Some rate \<longrightarrow> map_of m t = Some rate \<or> (\<exists>f\<in>set fs. fr_coin f = symbol
         \<and> funding_hour f = t \<and> parse_scaled (fr_funding_rate f) 12 = Inr rate))"
proof (induction fs arbitrary: m)
  case (Cons f fs)
  from Cons.prems obtain m1 where step: "fold_funding symbol start m f = Inr m1"
    and rest: "rfold (fold_funding symbol start) m1 fs = Inr m'" by auto
  from step obtain rate where f: "fr_coin f = symbol" "parse_scaled (fr_funding_rate f) 12 = Inr rate"
    "map_of m (funding_hour f) = None" "m1 = bt_insert (funding_hour f) rate m"
    by (auto simp: fold_funding_def Let_def funding_hour_def FUNDING_INTERVAL_MILLIS_def split: if_splits)
  note IH = Cons.IH [OF rest]
  have "length m' = length m + length (f # fs)" using IH f by (simp add: length_bt_insert)
  moreover have "map_of m t = Some v \<or> (\<exists>f\<in>set (f # fs). fr_coin f = symbol
         \<and> funding_hour f = t \<and> parse_scaled (fr_funding_rate f) 12 = Inr v)" if "map_of m' t = Some v" for t v
  proof (cases "t = funding_hour f")
    case True
    then have "map_of m1 t = Some rate" using f(4) by simp
    then have "v = rate \<or> (\<exists>f\<in>set fs. fr_coin f = symbol \<and> funding_hour f = t \<and> parse_scaled (fr_funding_rate f) 12 = Inr v)"
      using IH that by fastforce
    then show ?thesis using True f(1,2) by auto
  next
    case False
    then have "map_of m1 t = map_of m t" using f(4) by simp
    then show ?thesis using IH that by fastforce
  qed
  ultimately show ?case by blast
qed simp

lemma normalize_candle_from:
  assumes "normalize_candle symbol decimals start by_open (i, c) = Inr r"
  shows "cr_symbol c = symbol" and "cr_open_time c = c_open_time r" and "cr_close_time c = c_close_time r"
    and "parse_scaled (cr_open c) 6 = Inr (c_open r)" and "parse_scaled (cr_high c) 6 = Inr (c_high r)"
    and "parse_scaled (cr_low c) 6 = Inr (c_low r)" and "parse_scaled (cr_close c) 6 = Inr (c_close r)"
    and "parse_scaled_rounded (cr_volume c) 8 = Inr (c_volume r)"
    and "c_funding_rate r = (case map_of by_open (c_open_time r) of None \<Rightarrow> 0 | Some v \<Rightarrow> v)"
  using assms by (auto simp: normalize_candle_def Let_def split: if_splits)

text \<open>The funding of the window: the record of each full hour, and no other.\<close>

lemma normalize_symbol_funding:
  assumes "normalize_symbol symbol decimals n start cs fs = Inr series" and "n \<le> 5000"
  obtains by_open where "rmap (normalize_candle symbol decimals start by_open) (enumerate 0 cs) = Inr series"
    and "length cs = n" and "rfold (fold_funding symbol start) [] fs = Inr by_open" and "length by_open = n div 4"
    and "set (map fst by_open) = (\<lambda>k. wrap_i64 (start + wrap_i64 (int k * 3600000))) ` {..<n div 4}"
proof -
  from assms(1) obtain minutes :: u64 where m: "u64_try (int n * 15) = Some minutes"
    by (auto simp: normalize_symbol_def Let_def split: if_splits)
  have "uint minutes = int n * 15" 
  proof -
    have "minutes = word_of_int (int n * 15)" using m unfolding u64_try_def by (metis option.distinct(1) option.sel)
    then have "uint minutes = int n * 15 mod 2 ^ 64" by (simp only: uint_word_of_int) simp
    then show ?thesis using assms(2) by simp
  qed
  then have "unat minutes = n * 15" by (simp add: unat_eq_nat_uint)
  then have "unat minutes div 60 = n div 4" by simp
  with assms(1) m obtain by_open where "rmap (normalize_candle symbol decimals start by_open) (enumerate 0 cs) = Inr series"
    "length cs = n" "rfold (fold_funding symbol start) [] fs = Inr by_open" "length by_open = n div 4"
    "set (map fst by_open) = set (map (\<lambda>k. wrap_i64 (start + wrap_i64 (int k * FUNDING_INTERVAL_MILLIS))) [0..<n div 4])"
    unfolding normalize_symbol_def Let_def by (auto simp del: set_map split: if_splits)
  then show thesis by (intro that [of by_open]) (simp_all add: FUNDING_INTERVAL_MILLIS_def atLeast0LessThan)
qed

lemma hour_quarters:
  fixes start :: int
  assumes "start mod 3600000 = 0"
  shows "(start + int i * 900000) mod 3600000 = 0 \<longleftrightarrow> i mod 4 = 0"
proof -
  have "(start + int i * 900000) mod 3600000 = (int i * 900000) mod (4 * 900000)"
    using assms mod_add_left_eq [of start 3600000 "int i * 900000"] by simp
  also have "\<dots> = (int i mod 4) * 900000" by (rule mult_mod_left [symmetric])
  finally have "(start + int i * 900000) mod 3600000 = (int i mod 4) * 900000" .
  moreover have "int i mod 4 = int (i mod 4)" by (simp add: zmod_int)
  ultimately show ?thesis by simp
qed

lemma window_hours:
  assumes "validate_window start_time end_time = Inr n" and "is_i64 end_time"
  shows "start_time mod 3600000 = 0" and "n mod 4 = 0"
    and "i < n \<Longrightarrow> wrap_i64 (start_time + wrap_i64 (int i * 900000)) = start_time + int i * 900000"
    and "k < n div 4 \<Longrightarrow> wrap_i64 (start_time + wrap_i64 (int k * 3600000)) = start_time + int k * 3600000"
proof -
  note w = validate_window_Inr [OF assms(1)]
  from assms(1) have h: "start_time mod 3600000 = 0" "end_time mod 3600000 = 0"
    by (auto simp: validate_window_def FUNDING_INTERVAL_MILLIS_def split: if_splits)
  show "start_time mod 3600000 = 0" by (fact h)
  have "3600000 dvd start_time + int n * 900000" using h w(2) by (simp add: mod_eq_0_iff_dvd)
  then show "n mod 4 = 0" using h(1) hour_quarters [of start_time n] by (simp add: mod_eq_0_iff_dvd)
  show "wrap_i64 (start_time + wrap_i64 (int i * 900000)) = start_time + int i * 900000" if "i < n"
  proof -
    have "int i * 900000 \<le> 5000 * 900000" and "start_time + int i * 900000 \<le> end_time" and "0 \<le> int i * 900000"
      using that w by simp_all
    then show ?thesis using w(1) assms(2) by (simp add: wrap_i64_is is_i64_def)
  qed
  show "wrap_i64 (start_time + wrap_i64 (int k * 3600000)) = start_time + int k * 3600000" if "k < n div 4"
  proof -
    have "4 * k < n" using that by simp
    then have "int k * 3600000 \<le> 5000 * 3600000" and "start_time + int k * 3600000 \<le> end_time" and "0 \<le> int k * 3600000"
      using w by simp_all
    then show ?thesis using w(1) assms(2) by (simp add: wrap_i64_is is_i64_def)
  qed
qed

lemma normalized_from:
  assumes m: "normalize_symbol symbol decimals n start_time cs fs = Inr series"
    and w: "validate_window start_time end_time = Inr n" and e: "is_i64 end_time"
  shows "length cs = n" and "length fs = n div 4" and "i < n \<Longrightarrow> published_from symbol cs fs i (series ! i)"
proof -
  note hours = window_hours [OF w e]
  obtain by_open where by_open: "rmap (normalize_candle symbol decimals start_time by_open) (enumerate 0 cs) = Inr series"
    "length cs = n" "rfold (fold_funding symbol start_time) [] fs = Inr by_open" "length by_open = n div 4"
    "set (map fst by_open) = (\<lambda>k. wrap_i64 (start_time + wrap_i64 (int k * 3600000))) ` {..<n div 4}"
    by (rule normalize_symbol_funding [OF m validate_window_Inr(4) [OF w]])
  note fold = fold_funding_Inr [OF by_open(3)]
  show "length cs = n" "length fs = n div 4" using by_open(2,4) fold by simp_all
  assume i: "i < n"
  let ?c = "series ! i"
  have c: "normalize_candle symbol decimals start_time by_open (i, cs ! i) = Inr ?c"
    using rmap_nth [OF by_open(1), of i] i by_open(2) by (simp add: enumerate_nth)
  have t: "c_open_time ?c = start_time + int i * 900000"
    using normalize_symbol_nth(2) [OF m i] hours(3) [OF i] by simp
  have keys: "map_of by_open (c_open_time ?c) \<noteq> None \<longleftrightarrow> c_open_time ?c mod 3600000 = 0"
  proof -
    have "map_of by_open (c_open_time ?c) \<noteq> None \<longleftrightarrow> c_open_time ?c \<in> set (map fst by_open)"
      by (simp add: map_of_eq_None_iff)
    also have "\<dots> \<longleftrightarrow> (\<exists>k<n div 4. start_time + int i * 900000 = start_time + int k * 3600000)"
      using by_open(5) hours(4) t by (auto simp: image_iff)
    also have "\<dots> \<longleftrightarrow> (\<exists>k<n div 4. i = 4 * k)" by auto
    also have "\<dots> \<longleftrightarrow> i mod 4 = 0"
    proof -
      obtain m where "n = 4 * m" using hours(2) by (auto simp: mod_eq_0_iff_dvd)
      then show ?thesis using i by (auto simp: mod_eq_0_iff_dvd)
    qed
    also have "\<dots> \<longleftrightarrow> c_open_time ?c mod 3600000 = 0" using t hour_quarters [OF hours(1)] by simp
    finally show ?thesis .
  qed
  have "\<exists>f\<in>set fs. fr_coin f = symbol \<and> funding_hour f = c_open_time ?c
      \<and> parse_scaled (fr_funding_rate f) 12 = Inr (c_funding_rate ?c)" if "c_open_time ?c mod 3600000 = 0"
    using keys that fold normalize_candle_from(9) [OF c] by auto
  moreover have "c_funding_rate ?c = 0" if "c_open_time ?c mod 3600000 \<noteq> 0"
    using keys that normalize_candle_from(9) [OF c] by simp
  ultimately show "published_from symbol cs fs i ?c"
    using normalize_candle_from(1-8) [OF c] by (simp add: published_from_def)
qed

lemma fetched_from:
  assumes "sfor (fetch_symbol N C n start_time end_time) instruments t = (Inr fetched, t')"
    and "map_of (rev fetched) symbol = Some series"
  obtains cs fs decimals u u' v v' where "info_candles N C symbol start_time end_time u = (Inr cs, u')"
    and "info_funding N C symbol start_time end_time v = (Inr fs, v')"
    and "normalize_symbol symbol decimals n start_time cs fs = Inr series"
proof -
  have "(symbol, series) \<in> set fetched" using map_of_SomeD [OF assms(2)] by simp
  from sfor_elements [OF assms(1) this] obtain x u u' where
    "fetch_symbol N C n start_time end_time x u = (Inr (symbol, series), u')" by blast
  then show thesis unfolding fetch_symbol_def by (auto elim!: sbind_InrE simp: slift_def sret_def intro: that)
qed

text \<open>
  C33. A published series is complete: when \<open>publish\<close> succeeds, the dataset has the candle of each of the three
  markets for every quarter of an hour of the window, in order of time and market, with none missing
  and none besides. The candles of a market come from the venue's answers for it: one candle of the
  answer for each interval, its prices and volume as read there, and as funding the rate of the venue's
  funding record of that hour when the candle opens an hour, and none otherwise; the venue gave
  exactly one funding record per hour.
\<close>

theorem published_series_is_complete:
  assumes "publish P I N C dataset_id version start_time end_time file s = (Inr (package, candles), s')"
    and "is_i64 end_time"
  shows "\<exists>n. start_time + int n * 900000 = end_time \<and> length candles = 3 * n
    \<and> (\<forall>i < n. \<forall>j < 3. c_symbol (candles ! (3 * i + j)) = SYMBOLS ! j
         \<and> c_open_time (candles ! (3 * i + j)) = start_time + int i * 900000)
    \<and> (\<forall>j < 3. \<exists>cs fs u u' v v'. info_candles N C (SYMBOLS ! j) start_time end_time u = (Inr cs, u')
         \<and> info_funding N C (SYMBOLS ! j) start_time end_time v = (Inr fs, v')
         \<and> length cs = n \<and> 4 * length fs = n
         \<and> (\<forall>i < n. published_from (SYMBOLS ! j) cs fs i (candles ! (3 * i + j))))"
proof -
  from publish_Inr [OF assms(1)] obtain n key instruments fetched t t' where
    w: "validate_window start_time end_time = Inr n" and
    f: "sfor (fetch_symbol N C n start_time end_time) instruments t = (Inr fetched, t')" and
    i: "interleave (rev fetched) n = Inr candles" .
  have at: "c_symbol (candles ! (3 * i + j)) = SYMBOLS ! j \<and> c_open_time (candles ! (3 * i + j)) = start_time + int i * 900000"
    if ij: "i < n" "j < 3" for i j
  proof -
    obtain series where "map_of (rev fetched) (SYMBOLS ! j) = Some series" "candles ! (3 * i + j) = series ! i"
      using interleave_nth(2) [OF i ij] by (auto simp: series_at_def split: option.splits if_splits)
    then show ?thesis using fetched_series [OF f w assms(2) _ ij(1)] by simp
  qed
  have "\<exists>cs fs u u' v v'. info_candles N C (SYMBOLS ! j) start_time end_time u = (Inr cs, u')
         \<and> info_funding N C (SYMBOLS ! j) start_time end_time v = (Inr fs, v')
         \<and> length cs = n \<and> 4 * length fs = n
         \<and> (\<forall>i < n. published_from (SYMBOLS ! j) cs fs i (candles ! (3 * i + j)))" if j: "j < 3" for j
  proof -
    have n: "0 < n" using validate_window_Inr(3) [OF w] by simp
    obtain series where series: "map_of (rev fetched) (SYMBOLS ! j) = Some series"
      using interleave_nth(2) [OF i n j] by (auto simp: series_at_def split: option.splits)
    have same: "candles ! (3 * i + j) = series ! i" if "i < n" for i
      using interleave_nth(2) [OF i that j] series by (auto simp: series_at_def split: if_splits)
    obtain cs fs decimals u u' v v' where "info_candles N C (SYMBOLS ! j) start_time end_time u = (Inr cs, u')"
      "info_funding N C (SYMBOLS ! j) start_time end_time v = (Inr fs, v')"
      and m: "normalize_symbol (SYMBOLS ! j) decimals n start_time cs fs = Inr series"
      by (rule fetched_from [OF f series])
    moreover have "4 * length fs = n"
      using normalized_from(2) [OF m w assms(2)] window_hours(2) [OF w assms(2)] by (metis mult_div_mod_eq add_0_right)
    ultimately show ?thesis
      using normalized_from(1,3) [OF m w assms(2)] same by (metis (no_types, lifting))
  qed
  then show ?thesis using at validate_window_Inr(2) [OF w] interleave_nth(1) [OF i] by blast
qed

section \<open>What is published verifies\<close>

lemma sign_dataset_key:
  assumes "sign_dataset P sk i v s e files h = Inr m"
  shows "dm_signer_public_key m = b64_encode P (verifying_key P sk)"
  using assms by (auto simp: sign_dataset_def Let_def split: if_splits)

lemma sign_package_key:
  assumes "sign_package P I i v cs sk dir = Inr m"
  shows "dm_signer_public_key m = b64_encode P (verifying_key P sk)"
proof -
  from assms obtain s e files h where "sign_dataset P sk i v s e files h = Inr m"
    by (auto simp: sign_package_def split: if_splits)
  then show ?thesis by (rule sign_dataset_key)
qed

lemma written_manifest:
  assumes "write_signed_dataset P I i v cs is sk dir = (Inr p, dir')"
  shows "dm_signer_public_key (dp_manifest p) = b64_encode P (verifying_key P sk)"
    and "\<exists>bytes. dir' DATASET_MANIFEST_FILE = Some bytes"
proof -
  from assms obtain d bytes where "sign_package P I i v cs sk d = Inr (dp_manifest p)" and "dir' = d(DATASET_MANIFEST_FILE \<mapsto> bytes)"
    unfolding write_signed_dataset_def
    by (auto elim!: sbind_InrE simp: slift_def sret_def write_file_def split: if_splits)
  then show "dm_signer_public_key (dp_manifest p) = b64_encode P (verifying_key P sk)"
    "\<exists>bytes. dir' DATASET_MANIFEST_FILE = Some bytes" by (simp_all add: sign_package_key)
qed

text \<open>
  C32. What \<open>publish\<close> leaves in its output directory passes \<open>verify\<close> under the publisher's own public key, as
  the \<open>public-key\<close> command prints it with any white space around it, and holds exactly the published
  candles, provided that the JSON of the manifest file reads back as the manifest.
\<close>

theorem published_dataset_verifies:
  assumes "signature_law P" and "parquet_law I"
    and "publish P I N C dataset_id version start_time end_time file s = (Inr (package, candles), s')"
    and "public_key_of P file = Inr key" and "from_utf8 raw = Some text_of_key" and "utf8 (trim text_of_key) = key"
    and "\<And>bytes. pu_output s' DATASET_MANIFEST_FILE = Some bytes \<Longrightarrow> dec bytes = Some (dp_manifest package)"
  shows "verify_package P I dec (pu_output s') (Some raw) = Inr (dp_manifest package, candles)"
proof -
  from publish_Inr [OF assms(3)] obtain sk instruments where sk: "read_signing_key file = Inr sk" and
    d: "write_signed_dataset P I dataset_id version candles instruments sk (pu_output s) = (Inr package, pu_output s')" .
  obtain bytes where m: "pu_output s' DATASET_MANIFEST_FILE = Some bytes" using written_manifest(2) [OF d] by blast
  have "dm_signer_public_key (dp_manifest package) = key"
    using assms(4) sk written_manifest(1) [OF d] by (simp add: public_key_of_def)
  then show ?thesis
    using written_reads_back [OF assms(1,2) d] assms(5,6) assms(7) [OF m] m by (simp add: verify_package_def)
qed

section \<open>A concrete publication\<close>

text \<open>The venue answers every request with the request itself, from which the decoders make an hour
  of candles and its funding.\<close>

definition pub_net :: "unit net" where
  "pub_net = \<lparr>ne_parse = (\<lambda>s. Some \<lparr>ur_scheme = ''https'', ur_host = Some s, ur_opaque = False, ur_rest = ''''\<rparr>),
     ne_join = (\<lambda>u p. Some u), ne_header = (\<lambda>v. True), ne_builds = True,
     ne_send = (\<lambda>q w. (Inr \<lparr>hp_status = 200, hp_body = Inr (case hq_body q of None \<Rightarrow> JNull | Some v \<Rightarrow> v)\<rparr>, w))\<rparr>"

definition pub_candle :: "string \<Rightarrow> int \<Rightarrow> candle_response" where
  "pub_candle s i = \<lparr>cr_open_time = i * 900000, cr_close_time = i * 900000 + 899999, cr_symbol = s, cr_interval = ''15m'',
     cr_open = ''100.5'', cr_close = ''101'', cr_high = ''101'', cr_low = ''100'', cr_volume = ''1.25''\<rparr>"

fun pub_coin :: "json \<Rightarrow> string" where
  "pub_coin (JObj [_, (_, JObj ((_, JStr s) # _))]) = s"
| "pub_coin (JObj (_ # (_, JStr s) # _)) = s"
| "pub_coin _ = ''''"

fun pub_start :: "json \<Rightarrow> int" where
  "pub_start (JObj [_, _, (_, JInt i), _]) = i"
| "pub_start _ = 0"

definition pub_codec :: info_codec where
  "pub_codec = \<lparr>if_meta = (\<lambda>v. Some (map (\<lambda>s. \<lparr>ma_name = s, ma_sz_decimals = 4, ma_max_leverage = 20,
       ma_is_delisted = False\<rparr>) [''ETH'', ''BTC'', ''SOL'', ''DOGE''])),
     if_candles = (\<lambda>v. Some (map (pub_candle (pub_coin v)) [0, 1, 2, 3])),
     if_funding = (\<lambda>v. Some (if 0 < pub_start v then []
       else [\<lparr>fr_coin = pub_coin v, fr_funding_rate = ''0.0000125'', fr_time = 17\<rparr>]))\<rparr>"

definition pub_wire :: "unit wire" where "pub_wire = \<lparr>wi_sent = [], wi_world = ()\<rparr>"

lemma pub_instruments: "fst (info_instruments pub_net pub_codec pub_wire) = Inr toy_instruments"
  by code_simp

lemma pub_post:
  "info_post pub_net dec body w = ((case dec body of None \<Rightarrow> Inl PbRequest | Some x \<Rightarrow> Inr x),
     snd (info_post pub_net dec body w))"
  by (simp add: info_post_def sbind_def slift_def serr_def send_body_def transmit_def pub_net_def is_success_def split: option.split)

lemma pub_candles: "fst (info_candles pub_net pub_codec s 0 3600000 w) = Inr (map (pub_candle s) [0, 1, 2, 3])"
  unfolding info_candles_def by (subst pub_post) (simp add: pub_codec_def)

lemma pub_posted:
  assumes "dec body = Some x"
  shows "\<exists>w'. info_post pub_net dec body w = (Inr x, w')"
  using pub_post [of dec body w] assms by (metis option.case(2))

lemma pub_pages:
  "\<exists>w'. funding_pages pub_net pub_codec s 3600000 (Suc (Suc n)) 0 [] w
     = (Inr (18, [\<lparr>fr_coin = s, fr_funding_rate = ''0.0000125'', fr_time = 17\<rparr>]), w')"
proof -
  let ?r = "\<lparr>fr_coin = s, fr_funding_rate = ''0.0000125'', fr_time = 17\<rparr>"
  let ?q = "\<lambda>i. JObj [(''type'', JStr ''fundingHistory''), (''coin'', JStr s), (''startTime'', JInt i),
    (''endTime'', JInt 3599999)]"
  have e: "wrap_i64 3599999 = 3599999" by (simp add: wrap_i64_def)
  obtain w1 where p1: "info_post pub_net (if_funding pub_codec) (?q 0) w = (Inr [?r], w1)"
    using pub_posted [of "if_funding pub_codec" "?q 0" "[?r]" w] by (auto simp: pub_codec_def)
  obtain w2 where p2: "info_post pub_net (if_funding pub_codec) (?q 18) w1 = (Inr [], w2)"
    using pub_posted [of "if_funding pub_codec" "?q 18" "[]" w1] by (auto simp: pub_codec_def)
  have "funding_pages pub_net pub_codec s 3600000 (Suc (Suc n)) 0 [] w
      = funding_pages pub_net pub_codec s 3600000 (Suc n) 18 [?r] w1"
    by (subst funding_pages.simps(2)) (simp add: sbind_def p1 e slift_def is_i64_def i64_try_def del: funding_pages.simps)
  also have "\<dots> = (Inr (18, [?r]), w2)"
    by (subst funding_pages.simps(2)) (simp add: sbind_def p2 e sret_def del: funding_pages.simps)
  finally show ?thesis by blast
qed

lemma pub_fetch:
  assumes "in_size_decimals i = 4" and "in_symbol i \<in> set SYMBOLS"
  shows "\<exists>w'. fetch_symbol pub_net pub_codec 4 0 3600000 i w
    = (Inr (in_symbol i, filter (\<lambda>c. c_symbol c = in_symbol i) toy_ds_candles), w')"
proof -
  let ?r = "\<lparr>fr_coin = in_symbol i, fr_funding_rate = ''0.0000125'', fr_time = 17\<rparr>"
  obtain w1 where c: "info_candles pub_net pub_codec (in_symbol i) 0 3600000 w = (Inr (map (pub_candle (in_symbol i)) [0, 1, 2, 3]), w1)"
    using pub_candles [of "in_symbol i" w] by (metis prod.collapse)
  obtain w2 where "funding_pages pub_net pub_codec (in_symbol i) 3600000 (Suc (Suc 30)) 0 [] w1 = (Inr (18, [?r]), w2)"
    using pub_pages by blast
  then have f: "info_funding pub_net pub_codec (in_symbol i) 0 3600000 w1 = (Inr [?r], w2)"
    by (simp add: info_funding_def MAX_FUNDING_PAGES_def sbind_def sret_def del: funding_pages.simps)
  have "normalize_symbol ''BTC'' 4 4 0 (map (pub_candle ''BTC'') [0, 1, 2, 3]) [\<lparr>fr_coin = ''BTC'', fr_funding_rate = ''0.0000125'', fr_time = 17\<rparr>]
      = Inr (filter (\<lambda>c. c_symbol c = ''BTC'') toy_ds_candles)"
    "normalize_symbol ''ETH'' 4 4 0 (map (pub_candle ''ETH'') [0, 1, 2, 3]) [\<lparr>fr_coin = ''ETH'', fr_funding_rate = ''0.0000125'', fr_time = 17\<rparr>]
      = Inr (filter (\<lambda>c. c_symbol c = ''ETH'') toy_ds_candles)"
    "normalize_symbol ''SOL'' 4 4 0 (map (pub_candle ''SOL'') [0, 1, 2, 3]) [\<lparr>fr_coin = ''SOL'', fr_funding_rate = ''0.0000125'', fr_time = 17\<rparr>]
      = Inr (filter (\<lambda>c. c_symbol c = ''SOL'') toy_ds_candles)"
    by (code_simp, code_simp, code_simp)
  then have "normalize_symbol (in_symbol i) 4 4 0 (map (pub_candle (in_symbol i)) [0, 1, 2, 3]) [?r]
      = Inr (filter (\<lambda>c. c_symbol c = in_symbol i) toy_ds_candles)"
    using assms(2) by (auto simp: SYMBOLS_def)
  then show ?thesis
    by (simp only: fetch_symbol_def sbind_def c f prod.case sum.case slift_def sret_def assms(1)) simp
qed

definition pub_state :: "unit publication" where
  "pub_state = \<lparr>pu_wire = pub_wire, pu_output = Map.empty\<rparr>"

abbreviation pub_key :: string where "pub_key \<equiv> replicate 32 (CHR ''s'')"

lemma pub_instruments_are: "map in_symbol toy_instruments = SYMBOLS" "\<forall>i \<in> set toy_instruments. in_size_decimals i = 4 \<and> in_symbol i \<in> set SYMBOLS"
  by (simp_all add: toy_instruments_def SYMBOLS_def)

lemma pub_all:
  assumes "\<forall>i \<in> set ins. in_size_decimals i = 4 \<and> in_symbol i \<in> set SYMBOLS"
  shows "\<exists>w'. sfor (fetch_symbol pub_net pub_codec 4 0 3600000) ins w
    = (Inr (map (\<lambda>i. (in_symbol i, filter (\<lambda>c. c_symbol c = in_symbol i) toy_ds_candles)) ins), w')"
  using assms
proof (induction ins arbitrary: w)
  case (Cons i ins)
  obtain w1 where "fetch_symbol pub_net pub_codec 4 0 3600000 i w
    = (Inr (in_symbol i, filter (\<lambda>c. c_symbol c = in_symbol i) toy_ds_candles), w1)"
    using pub_fetch [of i w] Cons.prems by auto
  moreover obtain w2 where "sfor (fetch_symbol pub_net pub_codec 4 0 3600000) ins w1
    = (Inr (map (\<lambda>i. (in_symbol i, filter (\<lambda>c. c_symbol c = in_symbol i) toy_ds_candles)) ins), w2)"
    using Cons by fastforce
  ultimately show ?case by (simp add: sbind_def sret_def)
qed (simp add: sret_def)

lemma pub_interleaved:
  "interleave (rev (map (\<lambda>i. (in_symbol i, filter (\<lambda>c. c_symbol c = in_symbol i) toy_ds_candles)) toy_instruments)) 4
     = Inr toy_ds_candles"
  by code_simp

lemma pub_published:
  obtains p s' where "publish toy_ds_prims toy_io pub_net pub_codec 7 1 0 3600000 (Some pub_key) pub_state
    = (Inr (p, toy_ds_candles), s')"
proof -
  have i: "fst (info_instruments pub_net pub_codec pub_wire) = Inr toy_instruments" by code_simp
  obtain w1 where w1: "info_instruments pub_net pub_codec pub_wire = (Inr toy_instruments, w1)"
    using i by (metis prod.collapse)
  obtain w2 where w2: "sfor (fetch_symbol pub_net pub_codec 4 0 3600000) toy_instruments w1
    = (Inr (map (\<lambda>i. (in_symbol i, filter (\<lambda>c. c_symbol c = in_symbol i) toy_ds_candles)) toy_instruments), w2)"
    using pub_all [of toy_instruments w1] pub_instruments_are(2) by blast
  obtain p d where w: "write_signed_dataset toy_ds_prims toy_io 7 1 toy_ds_candles toy_instruments pub_key Map.empty = (Inr p, d)"
    using toy_written by blast
  have v: "validate_window 0 3600000 = Inr 4" by code_simp
  have b: "ne_builds pub_net" by (simp add: pub_net_def)
  have k: "read_signing_key (Some pub_key) = Inr pub_key" by (simp add: read_signing_key_def)
  have "publish toy_ds_prims toy_io pub_net pub_codec 7 1 0 3600000 (Some pub_key) pub_state
    = (Inr (p, toy_ds_candles), \<lparr>pu_wire = w2, pu_output = d\<rparr>)"
    by (simp only: publish_def v k b if_True sbind_def slift_def sget_def pub_state_def publication.select_convs
        prod.case sum.case on_pub_wire_def w1 w2 pub_interleaved)
      (simp add: sbind_def sget_def on_pub_wire_def w1 w2 pub_interleaved on_output_def serr_def w slift_def sret_def)
  then show thesis by (rule that)
qed

theorem published_series_is_complete_witness:
  "\<exists>p s'. publish toy_ds_prims toy_io pub_net pub_codec 7 1 0 3600000 (Some pub_key) pub_state = (Inr (p, toy_ds_candles), s')
     \<and> (\<exists>n. 0 + int n * 900000 = 3600000 \<and> length toy_ds_candles = 3 * n)"
proof -
  obtain p s' where p: "publish toy_ds_prims toy_io pub_net pub_codec 7 1 0 3600000 (Some pub_key) pub_state
    = (Inr (p, toy_ds_candles), s')" by (rule pub_published)
  have "is_i64 3600000" by (simp add: is_i64_def)
  then show ?thesis using published_series_is_complete [OF p] p by blast
qed

theorem published_dataset_verifies_witness:
  "\<exists>p s'. publish toy_ds_prims toy_io pub_net pub_codec 7 1 0 3600000 (Some pub_key) pub_state = (Inr (p, toy_ds_candles), s')
     \<and> verify_package toy_ds_prims toy_io (\<lambda>b. Some (dp_manifest p)) (pu_output s')
         (Some ('' '' @ replicate 32 (CHR ''k'') @ [CHR 0x0A])) = Inr (dp_manifest p, toy_ds_candles)"
proof -
  obtain p s' where p: "publish toy_ds_prims toy_io pub_net pub_codec 7 1 0 3600000 (Some pub_key) pub_state
    = (Inr (p, toy_ds_candles), s')" by (rule pub_published)
  have key: "public_key_of toy_ds_prims (Some pub_key) = Inr (replicate 32 (CHR ''k''))"
    by (simp add: public_key_of_def read_signing_key_def toy_ds_prims_def toy_prims_def)
  have "map_option (\<lambda>t. utf8 (trim t)) (from_utf8 ('' '' @ replicate 32 (CHR ''k'') @ [CHR 0x0A])) = Some (replicate 32 (CHR ''k''))"
    by code_simp
  then obtain t where t: "from_utf8 ('' '' @ replicate 32 (CHR ''k'') @ [CHR 0x0A]) = Some t" "utf8 (trim t) = replicate 32 (CHR ''k'')"
    by blast
  show ?thesis using published_dataset_verifies [OF toy_ds_law toy_parquet_law p key t(1) t(2), of "\<lambda>b. Some (dp_manifest p)"] p
    by blast
qed

end
