(* ===== verification/DeviceAuth.thy ===== *)
theory DeviceAuth
  imports Http
begin

text \<open>
  The client of device authorisation, \<open>crates/crow-agent-core/src/device_auth.rs\<close>: starting a session,
  exchanging its code for tokens, rotating and forking tokens. Every proof is a signature of the
  device over what it sends. Serde's decoding of the response bodies is the record \<open>auth_codec\<close>; the
  clock and the fresh nonce are arguments.
\<close>

definition PRODUCTION_API_ORIGIN :: string where "PRODUCTION_API_ORIGIN = ''https://api.crowcompute.ai''"

datatype device_auth_error =
    DaOrigin
  | DaLabel
  | DaRequest
  | DaPending
  | DaExpired
  | DaRejected
  | DaResponse

record start_response =
  sp_device_code :: string
  sp_user_code :: string
  sp_verification_uri :: string
  sp_expires_at :: int
  sp_interval_seconds :: u16

record auth_session =
  as_user_code :: string
  as_verification_uri :: url
  as_expires_at :: int
  as_interval :: nat
  as_device_code :: string

record device_tokens =
  dt_device_id :: uuid
  dt_access_token :: string
  dt_refresh_token :: string
  dt_access_expires_at :: int

record auth_codec =
  ad_start :: "json \<Rightarrow> start_response option"
  ad_tokens :: "json \<Rightarrow> device_tokens option"

text \<open>\<open>DeviceIdentity\<close>: its public key and its signatures, from the seed.\<close>

definition public_key :: "prims \<Rightarrow> string \<Rightarrow> string" where
  "public_key P seed = b64_encode P (verifying_key P seed)"

definition sign_bytes :: "prims \<Rightarrow> string \<Rightarrow> string \<Rightarrow> string" where
  "sign_bytes P seed payload = b64_encode P (ed_sign P seed payload)"

section \<open>The client\<close>

definition new_auth_client :: "'w net \<Rightarrow> string \<Rightarrow> device_auth_error + url" where
  "new_auth_client N api_origin =
     rbind (check_origin N DaOrigin api_origin) (\<lambda>origin.
       if ne_builds N then Inr origin else Inl DaRequest)"

definition production_client :: "'w net \<Rightarrow> device_auth_error + url" where
  "production_client N = new_auth_client N PRODUCTION_API_ORIGIN"

definition auth_post ::
    "'w net \<Rightarrow> url \<Rightarrow> string \<Rightarrow> string option \<Rightarrow> json \<Rightarrow> ('w, device_auth_error, http_response) call" where
  "auth_post N origin path authorization body =
     sbind (slift (ok_or (ne_join N origin path) DaOrigin)) (\<lambda>endpoint.
       serr (\<lambda>_. DaRequest) (if (case authorization of None \<Rightarrow> True | Some value \<Rightarrow> ne_header N value)
         then send_body N HPost endpoint authorization (Some body) else slift (Inl HttpFailed)))"

text \<open>\<open>error_for_status\<close> refuses the client and server errors, no other status.\<close>

definition error_for_status :: "http_response \<Rightarrow> device_auth_error + http_response" where
  "error_for_status r = (if 400 \<le> hp_status r \<and> hp_status r < 600 then Inl DaRequest else Inr r)"

definition response_json :: "(json \<Rightarrow> 'a option) \<Rightarrow> http_response \<Rightarrow> device_auth_error + 'a" where
  "response_json dec r = (case hp_body r of Inl _ \<Rightarrow> Inl DaRequest | Inr v \<Rightarrow> ok_or (dec v) DaRequest)"

definition checked_tokens :: "device_tokens \<Rightarrow> device_auth_error + device_tokens" where
  "checked_tokens t = (if dt_access_token t = [] \<or> dt_refresh_token t = [] then Inl DaResponse else Inr t)"

definition start_session ::
    "prims \<Rightarrow> 'w net \<Rightarrow> auth_codec \<Rightarrow> url \<Rightarrow> utext \<Rightarrow> utext \<Rightarrow> string \<Rightarrow> string
      \<Rightarrow> ('w, device_auth_error, auth_session) call" where
  "start_session P N C origin device_label platform identity encryption_public_key =
     (let label = trim device_label in
      if label = [] \<or> 80 < length (utf8 label) \<or> trim platform = [] then slift (Inl DaLabel)
      else
      sbind (auth_post N origin ''/api/v1/harness/device-authorizations'' None
        (JObj [(''protocol'', JStr HARNESS_PROTOCOL_V1), (''device_label'', JStr (utf8 label)),
           (''platform'', JStr (utf8 platform)), (''signing_public_key'', JStr (public_key P identity)),
           (''encryption_public_key'', JStr encryption_public_key)])) (\<lambda>response.
      sbind (slift (rbind (error_for_status response) (response_json (ad_start C)))) (\<lambda>started.
      sbind (slift (ok_or (ne_parse N (sp_verification_uri started)) DaResponse)) (\<lambda>verification_uri.
      if ur_scheme verification_uri \<noteq> ''https'' \<or> ur_host verification_uri \<noteq> Some ''crowcompute.ai''
         \<or> sp_device_code started = [] \<or> sp_user_code started = [] \<or> sp_interval_seconds started = 0
      then slift (Inl DaResponse)
      else sret \<lparr>as_user_code = sp_user_code started, as_verification_uri = verification_uri,
        as_expires_at = sp_expires_at started, as_interval = unat (sp_interval_seconds started),
        as_device_code = sp_device_code started\<rparr>))))"

definition exchange_outcome ::
    "auth_codec \<Rightarrow> http_response \<Rightarrow> device_auth_error + device_tokens" where
  "exchange_outcome C response =
     (if hp_status response = 202 then Inl DaPending
      else if hp_status response = 410 then Inl DaExpired
      else if hp_status response = 403 then Inl DaRejected
      else if is_success (hp_status response)
      then rbind (response_json (ad_tokens C) response) checked_tokens
      else Inl DaResponse)"

definition exchange ::
    "prims \<Rightarrow> 'w net \<Rightarrow> auth_codec \<Rightarrow> url \<Rightarrow> int \<Rightarrow> auth_session \<Rightarrow> string
      \<Rightarrow> ('w, device_auth_error, device_tokens) call" where
  "exchange P N C origin now session identity =
     (if as_expires_at session \<le> now then slift (Inl DaExpired)
      else
      sbind (auth_post N origin ''/api/v1/harness/device-authorizations/exchange'' None
        (JObj [(''protocol'', JStr HARNESS_PROTOCOL_V1), (''device_code'', JStr (as_device_code session)),
           (''signing_public_key'', JStr (public_key P identity)),
           (''device_proof'', JStr (sign_bytes P identity (as_device_code session)))])) (\<lambda>response.
        slift (exchange_outcome C response)))"

definition rotate_tokens ::
    "prims \<Rightarrow> 'w net \<Rightarrow> auth_codec \<Rightarrow> url \<Rightarrow> string \<Rightarrow> string \<Rightarrow> ('w, device_auth_error, device_tokens) call" where
  "rotate_tokens P N C origin refresh_token identity =
     sbind (auth_post N origin ''/api/v1/harness/device-tokens/rotate'' None
       (JObj [(''protocol'', JStr HARNESS_PROTOCOL_V1), (''refresh_token'', JStr refresh_token),
          (''signing_public_key'', JStr (public_key P identity)),
          (''device_proof'', JStr (sign_bytes P identity refresh_token))])) (\<lambda>response.
       slift (rbind (error_for_status response) (\<lambda>r. rbind (response_json (ad_tokens C) r) checked_tokens)))"

definition fork_tokens ::
    "prims \<Rightarrow> 'w net \<Rightarrow> auth_codec \<Rightarrow> url \<Rightarrow> uuid \<Rightarrow> string \<Rightarrow> string
      \<Rightarrow> ('w, device_auth_error, device_tokens) call" where
  "fork_tokens P N C origin fresh access_token identity =
     (if access_token = [] then slift (Inl DaResponse)
      else
      let nonce = uuid_str P fresh in
      sbind (auth_post N origin ''/api/v1/harness/device-tokens/fork'' (Some (''Bearer '' @ access_token))
        (JObj [(''protocol'', JStr HARNESS_PROTOCOL_V1), (''nonce'', JStr nonce),
           (''device_proof'', JStr (sign_bytes P identity nonce))])) (\<lambda>response.
        slift (rbind (error_for_status response) (\<lambda>r. rbind (response_json (ad_tokens C) r) checked_tokens))))"

end
