(* ===== verification/Enrolment.thy ===== *)
theory Enrolment
  imports DeviceAuth Daemon
begin

text \<open>
  Authorising a headless device and finding its token again: \<open>authorize_device\<close>, the credential files
  and \<open>load_refresh_token\<close> of \<open>apps/crow-agentd/src/main.rs\<close>, over the client of \<open>DeviceAuth\<close> and the
  encrypted journal. The credential directory is a map from names to bytes, absent when the
  environment variable is not set. The clock, the sleep and the fresh nonces are functions of the
  world; times are in nanoseconds. What is printed for the user is left out.
\<close>

definition DEVICE_ID_SECRET :: string where "DEVICE_ID_SECRET = ''device-id''"

definition REFRESH_PREFIX :: string where "REFRESH_PREFIX = ''crow_device_refresh_''"

section \<open>Credential files\<close>

type_synonym credentials = "(string \<rightharpoonup> string) option"

definition credential_directory :: "credentials \<Rightarrow> daemon_error + (string \<rightharpoonup> string)" where
  "credential_directory dir = ok_or dir DeCredentialDirectory"

definition load_credential_32 :: "credentials \<Rightarrow> string \<Rightarrow> daemon_error \<Rightarrow> daemon_error + string" where
  "load_credential_32 dir name invalid =
     rbind (credential_directory dir) (\<lambda>d.
     rbind (ok_or (d name) DeIo) (\<lambda>seed.
       if length seed = 32 then Inr seed else Inl invalid))"

definition load_identity :: "credentials \<Rightarrow> daemon_error + string" where
  "load_identity dir = load_credential_32 dir ''device-signing-seed'' DeDeviceCredential"

definition load_refresh_token :: "aead_prims \<Rightarrow> credentials \<Rightarrow> journal \<Rightarrow> daemon_error + string" where
  "load_refresh_token A dir j =
     rbind (map_err DeJournal (secret A REFRESH_TOKEN_SECRET j)) (\<lambda>stored.
     rbind (case stored of None \<Rightarrow> Inr False
            | Some token \<Rightarrow> if is_utf8 token then Inr (starts_with token REFRESH_PREFIX)
                else Inl DeDeviceTokenCredential) (\<lambda>usable.
     if usable then Inr (the stored)
     else
     rbind (credential_directory dir) (\<lambda>d.
     rbind (ok_or (d ''device-token'') DeIo) (\<lambda>raw.
     rbind (ok_or (from_utf8 raw) DeDeviceTokenCredential) (\<lambda>text.
       let token = utf8 (trim text) in
       if starts_with token REFRESH_PREFIX then Inr token else Inl DeDeviceTokenCredential)))))"

section \<open>Authorising\<close>

record 'w enrol_env =
  ee_P :: prims
  ee_A :: aead_prims
  ee_N :: "'w net"
  ee_C :: auth_codec
  ee_now :: "'w \<Rightarrow> int \<times> 'w"
  ee_sleep :: "nat \<Rightarrow> 'w \<Rightarrow> 'w"
  ee_nonce :: "'w \<Rightarrow> string \<times> 'w"

record 'w enrol =
  en_wire :: "'w wire"
  en_journal :: journal

type_synonym ('w, 'a) enrol_step = "('w enrol, daemon_error, 'a) step"

definition on_world :: "('w \<Rightarrow> 'a \<times> 'w) \<Rightarrow> ('w, 'a) enrol_step" where
  "on_world f s = (case f (wi_world (en_wire s)) of (x, w) \<Rightarrow> (Inr x, s\<lparr>en_wire := (en_wire s)\<lparr>wi_world := w\<rparr>\<rparr>))"

definition on_wire :: "('w wire, 'e, 'a) step \<Rightarrow> ('w enrol, 'e, 'a) step" where
  "on_wire m s = (case m (en_wire s) of (r, t) \<Rightarrow> (r, s\<lparr>en_wire := t\<rparr>))"

definition store_secret :: "'w enrol_env \<Rightarrow> string \<Rightarrow> string \<Rightarrow> ('w, unit) enrol_step" where
  "store_secret E name value =
     sbind (on_world (ee_nonce E)) (\<lambda>nonce s.
       case put_secret (ee_A E) nonce name value (en_journal s) of
         Inl e \<Rightarrow> (Inl (DeJournal e), s)
       | Inr j \<Rightarrow> (Inr (), s\<lparr>en_journal := j\<rparr>))"

definition uuid_bytes :: "uuid \<Rightarrow> string" where "uuid_bytes u = be_digits 16 (unat u)"

text \<open>One turn of the loop: \<open>True\<close> when the device is authorised, \<open>False\<close> to go on.\<close>

definition authorize_turn :: "'w enrol_env \<Rightarrow> url \<Rightarrow> auth_session \<Rightarrow> string \<Rightarrow> ('w, bool) enrol_step" where
  "authorize_turn E client session identity =
     sbind (on_world (ee_now E)) (\<lambda>now.
     if as_expires_at session \<le> now then slift (Inl DeAuthorizationExpired)
     else
     sbind (on_world (\<lambda>w. ((), ee_sleep E (as_interval session) w))) (\<lambda>_.
     sbind (on_world (ee_now E)) (\<lambda>now.
     sbind (stry (on_wire (exchange (ee_P E) (ee_N E) (ee_C E) client now session identity))) (\<lambda>r.
     case r of
       Inr tokens \<Rightarrow>
         sbind (store_secret E REFRESH_TOKEN_SECRET (dt_refresh_token tokens)) (\<lambda>_.
         sbind (store_secret E DEVICE_ID_SECRET (uuid_bytes (dt_device_id tokens))) (\<lambda>_. sret True))
     | Inl e \<Rightarrow>
         if e = DaPending \<or> e = DaRequest then sret False
         else if e = DaExpired then slift (Inl DeAuthorizationExpired)
         else slift (Inl DeDeviceAuthorization)))))"

partial_function (option) authorize_loop ::
    "'w enrol_env \<Rightarrow> url \<Rightarrow> auth_session \<Rightarrow> string \<Rightarrow> 'w enrol \<Rightarrow> ((daemon_error + unit) \<times> 'w enrol) option" where
  "authorize_loop E client session identity s =
     (case authorize_turn E client session identity s of
        (Inl e, s') \<Rightarrow> Some (Inl e, s')
      | (Inr authorized, s') \<Rightarrow>
          if authorized then Some (Inr (), s') else authorize_loop E client session identity s')"

text \<open>Everything before the loop: the credentials, the journal opened with its key, the session.\<close>

definition authorize_begin ::
    "'w enrol_env \<Rightarrow> credentials \<Rightarrow> utext \<Rightarrow> string \<Rightarrow> ('w, string \<times> url \<times> auth_session) enrol_step" where
  "authorize_begin E dir device_label api_origin =
     sbind (slift (load_identity dir)) (\<lambda>identity.
     sbind (slift (load_credential_32 dir ''device-encryption-secret'' DeEncryptionCredential)) (\<lambda>encryption_secret.
     sbind (slift (map_err (\<lambda>_. DeDeviceAuthorization) (new_auth_client (ee_N E) api_origin))) (\<lambda>client.
     sbind (slift (load_credential_32 dir ''journal-key'' DeJournalCredential)) (\<lambda>journal_key.
     sbind (sput (\<lambda>s. s\<lparr>en_journal := (en_journal s)\<lparr>jn_key := journal_key\<rparr>\<rparr>)) (\<lambda>_.
     sbind (serr (\<lambda>_. DeDeviceAuthorization) (on_wire (start_session (ee_P E) (ee_N E) (ee_C E) client device_label
              (map byte ''linux'') identity (url64_encode (ee_A E) (x_public (ee_A E) encryption_secret))))) (\<lambda>session.
       sret (identity, client, session)))))))"

definition authorize_device ::
    "'w enrol_env \<Rightarrow> credentials \<Rightarrow> utext \<Rightarrow> string \<Rightarrow> 'w enrol \<Rightarrow> ((daemon_error + unit) \<times> 'w enrol) option" where
  "authorize_device E dir device_label api_origin s =
     (case authorize_begin E dir device_label api_origin s of
        (Inl e, s') \<Rightarrow> Some (Inl e, s')
      | (Inr (identity, client, session), s') \<Rightarrow> authorize_loop E client session identity s')"

section \<open>The loop ends\<close>

text \<open>A clock that does not run backwards, and sleeping that takes as long as it is asked to.\<close>

definition clock_law :: "'w enrol_env \<Rightarrow> ('w \<Rightarrow> int) \<Rightarrow> bool" where
  "clock_law E tm \<longleftrightarrow> (\<forall>w. fst (ee_now E w) = tm w \<and> tm w \<le> tm (snd (ee_now E w)))
     \<and> (\<forall>n w. tm w + int n * 1000000000 \<le> tm (ee_sleep E n w))
     \<and> (\<forall>q w. tm w \<le> tm (snd (ne_send (ee_N E) q w)))
     \<and> (\<forall>w. tm w \<le> tm (snd (ee_nonce E w)))"

definition later :: "('w \<Rightarrow> int) \<Rightarrow> 'w enrol \<Rightarrow> 'w enrol \<Rightarrow> bool" where
  "later tm s s' \<longleftrightarrow> tm (wi_world (en_wire s)) \<le> tm (wi_world (en_wire s'))"

interpretation passing: step_relation "later tm"
  by unfold_locales (auto simp: later_def)

definition wire_later :: "('w \<Rightarrow> int) \<Rightarrow> 'w wire \<Rightarrow> 'w wire \<Rightarrow> bool" where
  "wire_later tm s s' \<longleftrightarrow> tm (wi_world s) \<le> tm (wi_world s')"

interpretation wire_passing: step_relation "wire_later tm"
  by unfold_locales (auto simp: wire_later_def)

lemma keeps_on_wire: "keeps (wire_later tm) m \<Longrightarrow> keeps (later tm) (on_wire m)"
proof (rule keepsI)
  fix s r s' assume "keeps (wire_later tm) m" and "on_wire m s = (r, s')"
  then have "wire_later tm (en_wire s) (en_wire s')"
    by (auto simp: on_wire_def split: prod.splits intro: keepsD)
  then show "later tm s s'" by (simp add: later_def wire_later_def)
qed

lemma keeps_exchange:
  assumes "clock_law E tm"
  shows "keeps (wire_later tm) (exchange P (ee_N E) C u now session identity)"
proof -
  have "keeps (wire_later tm) (transmit (ee_N E) q)" for q
    using assms by (auto intro!: keepsI simp: transmit_def wire_later_def clock_law_def split: prod.splits) (metis snd_conv)
  then show ?thesis
    unfolding exchange_def auth_post_def send_body_def
    by (auto intro!: wire_passing.keeps_intros split: option.split)
qed

lemma turn_takes_time:
  assumes "clock_law E tm" and "authorize_turn E u session identity s = (Inr False, s')"
  shows "tm (wi_world (en_wire s)) < as_expires_at session"
    and "tm (wi_world (en_wire s)) + int (as_interval session) * 1000000000 \<le> tm (wi_world (en_wire s'))"
proof -
  let ?t = "\<lambda>s. tm (wi_world (en_wire s))"
  note law = assms(1)[unfolded clock_law_def]
  from assms(2) obtain now s1 where now: "on_world (ee_now E) s = (Inr now, s1)"
    and rest: "(if as_expires_at session \<le> now then slift (Inl DeAuthorizationExpired)
     else sbind (on_world (\<lambda>w. ((), ee_sleep E (as_interval session) w))) (\<lambda>_.
     sbind (on_world (ee_now E)) (\<lambda>now.
     sbind (stry (on_wire (exchange (ee_P E) (ee_N E) (ee_C E) u now session identity))) (\<lambda>r.
     case r of
       Inr tokens \<Rightarrow>
         sbind (store_secret E REFRESH_TOKEN_SECRET (dt_refresh_token tokens)) (\<lambda>_.
         sbind (store_secret E DEVICE_ID_SECRET (uuid_bytes (dt_device_id tokens))) (\<lambda>_. sret True))
     | Inl e \<Rightarrow>
         if e = DaPending \<or> e = DaRequest then sret False
         else if e = DaExpired then slift (Inl DeAuthorizationExpired)
         else slift (Inl DeDeviceAuthorization))))) s1 = (Inr False, s')"
    unfolding authorize_turn_def by (rule sbind_InrE)
  then have "now < as_expires_at session" by (auto simp: slift_def split: if_splits)
  moreover have "now = ?t s" "?t s \<le> ?t s1"
    using now law by (auto simp: on_world_def split: prod.splits) (metis fst_conv, metis snd_conv)
  ultimately show "?t s < as_expires_at session" by simp
  from rest \<open>now < _\<close> obtain s2 s3 now' e where s2: "on_world (\<lambda>w. ((), ee_sleep E (as_interval session) w)) s1 = (Inr (), s2)"
    and s3: "on_world (ee_now E) s2 = (Inr now', s3)"
    and s4: "stry (on_wire (exchange (ee_P E) (ee_N E) (ee_C E) u now' session identity)) s3 = (Inr e :: daemon_error + _, s')"
    by (auto elim!: sbind_InrE simp: sret_def slift_def split: sum.splits if_splits)
  have "?t s1 + int (as_interval session) * 1000000000 \<le> ?t s2"
    using s2 law by (auto simp: on_world_def)
  moreover have "?t s2 \<le> ?t s3" using s3 law by (auto simp: on_world_def split: prod.splits) (metis snd_conv)
  moreover have "?t s3 \<le> ?t s'"
    using keepsD [OF keeps_try [OF keeps_on_wire [OF keeps_exchange [OF assms(1)]]] s4] by (simp add: later_def)
  ultimately show "?t s + int (as_interval session) * 1000000000 \<le> ?t s'"
    using \<open>?t s \<le> ?t s1\<close> by linarith
qed

lemma loop_returns:
  assumes "clock_law E tm" and "0 < as_interval session"
  shows "\<exists>r. authorize_loop E u session identity s = Some r"
proof (induction "nat (as_expires_at session - tm (wi_world (en_wire s)))" arbitrary: s rule: less_induct)
  case less
  obtain r s' where t: "authorize_turn E u session identity s = (r, s')" by fastforce
  show ?case
  proof (cases "r = Inr False")
    case True
    note time = turn_takes_time [OF assms(1) t [unfolded True]]
    have "0 < int (as_interval session) * 1000000000" using assms(2) by simp
    then have "nat (as_expires_at session - tm (wi_world (en_wire s')))
        < nat (as_expires_at session - tm (wi_world (en_wire s)))" using time by linarith
    from less [OF this] show ?thesis using t True by (simp add: authorize_loop.simps [of _ _ _ _ s])
  next
    case False
    then show ?thesis using t by (cases r) (auto simp: authorize_loop.simps [of _ _ _ _ s])
  qed
qed

lemma enrolled_session:
  assumes "start_session P N C u label platform identity key s = (Inr session, s')"
  shows "0 < as_interval session" and "as_user_code session \<noteq> []" and "as_device_code session \<noteq> []"
    and "ur_scheme (as_verification_uri session) = ''https''"
    and "ur_host (as_verification_uri session) = Some ''crowcompute.ai''"
  using assms unfolding start_session_def Let_def
  by (auto elim!: sbind_InrE simp: sret_def slift_def unat_gt_0 split: if_splits)

lemma serr_Inr: "serr f m s = (Inr x, s') \<longleftrightarrow> m s = (Inr x, s')"
  by (auto simp: serr_def split: prod.splits)

lemma on_wire_Inr: "on_wire m s = (r, s') \<longleftrightarrow> (\<exists>t. m (en_wire s) = (r, t) \<and> s' = s\<lparr>en_wire := t\<rparr>)"
  by (auto simp: on_wire_def split: prod.splits)

lemma begun_session:
  assumes "authorize_begin E dir label origin s = (Inr (identity, u, session), s1)"
  shows "0 < as_interval session"
  using assms unfolding authorize_begin_def
  by (auto elim!: sbind_InrE simp: sret_def serr_Inr on_wire_Inr dest: enrolled_session(1))

text \<open>
  Authorising a device always comes to an end: with a clock that does not run backwards and sleeps that
  take their time, \<open>authorize_device\<close> returns, whatever the server answers, because a session it
  starts has an interval of at least a second and every further turn waits for it.
\<close>

theorem authorization_ends:
  assumes "clock_law E tm"
  shows "\<exists>r s'. authorize_device E dir label origin s = Some (r, s')"
proof (cases "authorize_begin E dir label origin s")
  case (Pair r s1)
  show ?thesis
  proof (cases r)
    case (Inr x)
    obtain identity u session where x: "x = (identity, u, session)" by (cases x)
    have "0 < as_interval session" using begun_session Pair Inr x by blast
    then show ?thesis using loop_returns [OF assms] Pair Inr x by (simp add: authorize_device_def)
  qed (simp add: authorize_device_def Pair)
qed

section \<open>The stored token\<close>

lemma on_world_journal: "on_world f s = (r, s') \<Longrightarrow> en_journal s' = en_journal s"
  by (auto simp: on_world_def split: prod.splits)

lemma on_wire_journal: "stry (on_wire m) s = (r, s') \<Longrightarrow> en_journal s' = en_journal s"
  by (auto simp: stry_def on_wire_def split: prod.splits)

lemma turn_keeps_journal:
  assumes "authorize_turn E u session identity s = (Inr False, s')"
  shows "en_journal s' = en_journal s"
  using assms unfolding authorize_turn_def
  by (auto elim!: sbind_InrE simp: sret_def slift_def split: sum.splits if_splits
      dest!: on_world_journal on_wire_journal)

lemma exchange_tokens:
  assumes "exchange P N C u now session identity s = (Inr tokens, s')"
  shows "dt_refresh_token tokens \<noteq> []" and "dt_access_token tokens \<noteq> []"
  using assms unfolding exchange_def
  by (auto elim!: sbind_InrE simp: slift_def exchange_outcome_def checked_tokens_def split: if_splits)

lemma store_secret_Inr:
  assumes "store_secret E name v s = (Inr (), s')"
  obtains n where "n \<in> range (fst \<circ> ee_nonce E)" and "put_secret (ee_A E) n name v (en_journal s) = Inr (en_journal s')"
proof -
  from assms obtain n s1 where n: "on_world (ee_nonce E) s = (Inr n, s1)"
    and p: "put_secret (ee_A E) n name v (en_journal s1) = Inr (en_journal s')"
    unfolding store_secret_def by (auto elim!: sbind_InrE split: sum.splits)
  have "n = fst (ee_nonce E (wi_world (en_wire s)))" using n by (auto simp: on_world_def split: prod.splits)
  then show thesis using p on_world_journal [OF n] by (intro that [of n]) simp_all
qed

definition token_stored :: "'w enrol_env \<Rightarrow> journal \<Rightarrow> bool" where
  "token_stored E j \<longleftrightarrow> (\<exists>tokens :: device_tokens. dt_refresh_token tokens \<noteq> []
     \<and> secret (ee_A E) REFRESH_TOKEN_SECRET j = Inr (Some (dt_refresh_token tokens))
     \<and> secret (ee_A E) DEVICE_ID_SECRET j = Inr (Some (uuid_bytes (dt_device_id tokens))))"

lemma authorized_turn_stores:
  assumes "aead_law (ee_A E)" and "\<And>w. length (fst (ee_nonce E w)) = 24"
    and "authorize_turn E u session identity s = (Inr True, s')"
  shows "token_stored E (en_journal s')"
proof -
  from assms(3) obtain tokens now s1 w2 s3 where
    ok: "exchange (ee_P E) (ee_N E) (ee_C E) u now session identity (en_wire s1) = (Inr tokens, w2)" and
    st: "store_secret E REFRESH_TOKEN_SECRET (dt_refresh_token tokens) (s1\<lparr>en_wire := w2\<rparr>) = (Inr (), s3)"
      "store_secret E DEVICE_ID_SECRET (uuid_bytes (dt_device_id tokens)) s3 = (Inr (), s')"
    unfolding authorize_turn_def
    by (auto elim!: sbind_InrE simp: sret_def slift_def stry_def on_wire_def split: sum.splits if_splits prod.splits)
  from st(1) obtain n1 where n1: "n1 \<in> range (fst \<circ> ee_nonce E)"
    "put_secret (ee_A E) n1 REFRESH_TOKEN_SECRET (dt_refresh_token tokens) (en_journal (s1\<lparr>en_wire := w2\<rparr>)) = Inr (en_journal s3)"
    by (rule store_secret_Inr)
  from st(2) obtain n2 where n2: "n2 \<in> range (fst \<circ> ee_nonce E)"
    "put_secret (ee_A E) n2 DEVICE_ID_SECRET (uuid_bytes (dt_device_id tokens)) (en_journal s3) = Inr (en_journal s')"
    by (rule store_secret_Inr)
  have len: "length n1 = 24" "length n2 = 24" using n1(1) n2(1) assms(2) by auto
  have "REFRESH_TOKEN_SECRET \<noteq> DEVICE_ID_SECRET" by (simp add: REFRESH_TOKEN_SECRET_def DEVICE_ID_SECRET_def)
  then have "secret (ee_A E) REFRESH_TOKEN_SECRET (en_journal s') = Inr (Some (dt_refresh_token tokens))"
    "secret (ee_A E) DEVICE_ID_SECRET (en_journal s') = Inr (Some (uuid_bytes (dt_device_id tokens)))"
    using jsec.put_get [OF _ n1(2)] jsec.put_get [OF _ n2(2)] jsec.put_other [OF n2(2)] assms(1) len by simp_all
  then show ?thesis using exchange_tokens(1) [OF ok] by (auto simp: token_stored_def)
qed

lemma loop_stores:
  assumes "clock_law E tm" and "0 < as_interval session"
    and "aead_law (ee_A E)" and "\<And>w. length (fst (ee_nonce E w)) = 24"
    and "authorize_loop E u session identity s = Some (Inr (), s')"
  shows "token_stored E (en_journal s')"
  using assms(5)
proof (induction "nat (as_expires_at session - tm (wi_world (en_wire s)))" arbitrary: s rule: less_induct)
  case less
  obtain r s1 where t: "authorize_turn E u session identity s = (r, s1)" by fastforce
  consider "r = Inr True" | "r = Inr False" | e where "r = Inl e" by (cases r) auto
  then show ?case
  proof cases
    case 1
    then show ?thesis using less.prems t authorized_turn_stores [OF assms(3,4) t [unfolded 1]]
      by (simp add: authorize_loop.simps [of _ _ _ _ s])
  next
    case 2
    note time = turn_takes_time [OF assms(1) t [unfolded 2]]
    have "0 < int (as_interval session) * 1000000000" using assms(2) by simp
    then have "nat (as_expires_at session - tm (wi_world (en_wire s1)))
        < nat (as_expires_at session - tm (wi_world (en_wire s)))" using time by linarith
    from less.hyps [OF this] show ?thesis using less.prems t 2 by (simp add: authorize_loop.simps [of _ _ _ _ s])
  next
    case 3
    then show ?thesis using less.prems t by (simp add: authorize_loop.simps [of _ _ _ _ s])
  qed
qed

text \<open>
  An authorised device can start: when \<open>authorize_device\<close> succeeds, the journal holds the device id and a
  refresh token that is not empty, and \<open>load_refresh_token\<close> returns that token, whatever the credential
  files hold, if it is text of the form the daemon expects.
\<close>

theorem authorized_device_can_start:
  assumes "clock_law E tm" and "aead_law (ee_A E)" and "\<And>w. length (fst (ee_nonce E w)) = 24"
    and "authorize_device E dir label origin s = Some (Inr (), s')"
  shows "\<exists>token device_id. token \<noteq> [] \<and> secret (ee_A E) REFRESH_TOKEN_SECRET (en_journal s') = Inr (Some token)
    \<and> secret (ee_A E) DEVICE_ID_SECRET (en_journal s') = Inr (Some (uuid_bytes device_id))
    \<and> (is_utf8 token \<and> starts_with token REFRESH_PREFIX \<longrightarrow>
        (\<forall>files. load_refresh_token (ee_A E) files (en_journal s') = Inr token))"
proof -
  from assms(4) obtain identity u session s1 where b: "authorize_begin E dir label origin s = (Inr (identity, u, session), s1)"
    and l: "authorize_loop E u session identity s1 = Some (Inr (), s')"
    by (auto simp: authorize_device_def split: prod.splits sum.splits)
  have "0 < as_interval session" by (rule begun_session [OF b])
  then have "token_stored E (en_journal s')" using loop_stores assms l by blast
  then obtain tokens :: device_tokens where "dt_refresh_token tokens \<noteq> []"
    "secret (ee_A E) REFRESH_TOKEN_SECRET (en_journal s') = Inr (Some (dt_refresh_token tokens))"
    "secret (ee_A E) DEVICE_ID_SECRET (en_journal s') = Inr (Some (uuid_bytes (dt_device_id tokens)))"
    by (auto simp: token_stored_def)
  then show ?thesis
    by (intro exI [of _ "dt_refresh_token tokens"] exI [of _ "dt_device_id tokens"])
      (simp add: load_refresh_token_def)
qed

section \<open>A concrete device\<close>

definition toy_tokens :: device_tokens where
  "toy_tokens = \<lparr>dt_device_id = 3, dt_access_token = ''access'', dt_refresh_token = ''crow_device_refresh_1'',
     dt_access_expires_at = 900\<rparr>"

text \<open>The server says that the code is not confirmed yet until the clock, which is the world, shows
  ten seconds.\<close>

definition toy_auth_net :: "int net" where
  "toy_auth_net = \<lparr>ne_parse = (\<lambda>s. Some \<lparr>ur_scheme = ''https'', ur_host = Some ''crowcompute.ai'', ur_opaque = False,
       ur_rest = s\<rparr>), ne_join = (\<lambda>u p. Some (u\<lparr>ur_rest := p\<rparr>)), ne_header = (\<lambda>v. True), ne_builds = True,
     ne_send = (\<lambda>q w. (Inr \<lparr>hp_status = (if ur_rest (hq_url q) = ''/api/v1/harness/device-authorizations/exchange''
         \<and> w < 10000000000 then 202 else 200), hp_body = Inr JNull\<rparr>, w))\<rparr>"

definition toy_auth_codec :: auth_codec where
  "toy_auth_codec = \<lparr>ad_start = (\<lambda>v. Some \<lparr>sp_device_code = ''code'', sp_user_code = ''user'',
     sp_verification_uri = ''/device'', sp_expires_at = 600000000000, sp_interval_seconds = 5\<rparr>),
     ad_tokens = (\<lambda>v. Some toy_tokens)\<rparr>"

definition toy_enrol_env :: "int enrol_env" where
  "toy_enrol_env = \<lparr>ee_P = toy_prims, ee_A = toy_aead, ee_N = toy_auth_net, ee_C = toy_auth_codec,
     ee_now = (\<lambda>w. (w, w)), ee_sleep = (\<lambda>n w. w + int n * 1000000000), ee_nonce = (\<lambda>w. (toy_nonce, w))\<rparr>"

definition toy_files :: credentials where
  "toy_files = Some (\<lambda>name. Some (replicate 32 (CHR ''s'')))"

definition toy_enrol :: "int enrol" where
  "toy_enrol = \<lparr>en_wire = \<lparr>wi_sent = [], wi_world = 0\<rparr>, en_journal = open_journal []\<rparr>"

lemma toy_clock_law: "clock_law toy_enrol_env (\<lambda>w. w)"
  by (simp add: clock_law_def toy_enrol_env_def toy_auth_net_def)

theorem authorization_ends_witness:
  "\<exists>r s'. authorize_device toy_enrol_env toy_files [100] ''https://api.crowcompute.ai'' toy_enrol = Some (r, s')"
  by (rule authorization_ends [OF toy_clock_law])

definition toy_session :: auth_session where
  "toy_session = \<lparr>as_user_code = ''user'', as_verification_uri = \<lparr>ur_scheme = ''https'', ur_host = Some ''crowcompute.ai'',
     ur_opaque = False, ur_rest = ''/device''\<rparr>, as_expires_at = 600000000000, as_interval = 5, as_device_code = ''code''\<rparr>"

definition toy_auth_origin :: url where
  "toy_auth_origin = \<lparr>ur_scheme = ''https'', ur_host = Some ''crowcompute.ai'', ur_opaque = False,
     ur_rest = ''https://api.crowcompute.ai''\<rparr>"

lemma toy_begun:
  "\<exists>s1. authorize_begin toy_enrol_env toy_files [100] ''https://api.crowcompute.ai'' toy_enrol
     = (Inr (replicate 32 (CHR ''s''), toy_auth_origin, toy_session), s1) \<and> wi_world (en_wire s1) = 0"
  by (simp add: authorize_begin_def load_identity_def load_credential_32_def credential_directory_def toy_files_def
      toy_enrol_env_def toy_auth_net_def toy_auth_codec_def new_auth_client_def check_origin_def crow_host_def ends_with_def
      sbind_def slift_def sput_def serr_def on_wire_def start_session_def auth_post_def send_body_def transmit_def
      error_for_status_def response_json_def trim_def trim_end_def trim_start_def is_whitespace_def utf8_def
      utf8_scalar_def toy_enrol_def toy_auth_origin_def toy_session_def Let_def sret_def byte_def ascii_ws_def)

lemma toy_waits:
  assumes "wi_world (en_wire s) < 5000000000" and "0 \<le> wi_world (en_wire s)"
  shows "\<exists>s'. authorize_turn toy_enrol_env u toy_session i s = (Inr False, s')
    \<and> wi_world (en_wire s') = wi_world (en_wire s) + 5000000000"
  using assms
  by (simp add: authorize_turn_def toy_enrol_env_def toy_auth_net_def toy_session_def on_world_def sbind_def slift_def stry_def
      on_wire_def exchange_def auth_post_def send_body_def transmit_def exchange_outcome_def sret_def serr_def)

lemma toy_put: "name \<noteq> [] \<Longrightarrow> \<exists>j'. put_secret toy_aead toy_nonce name v j = Inr j'"
  by (simp add: put_secret_def encrypt_bundle_def toy_aead_def)

lemma toy_enrol_fields:
  "ee_P toy_enrol_env = toy_prims" "ee_A toy_enrol_env = toy_aead" "ee_N toy_enrol_env = toy_auth_net"
  "ee_C toy_enrol_env = toy_auth_codec" "ee_now toy_enrol_env w = (w, w)"
  "ee_sleep toy_enrol_env n w = w + int n * 1000000000" "ee_nonce toy_enrol_env w = (toy_nonce, w)"
  by (simp_all add: toy_enrol_env_def)

lemma toy_secret_stored:
  assumes "name \<noteq> []"
  shows "store_secret toy_enrol_env name v s
     = (Inr (), s\<lparr>en_journal := projr (put_secret toy_aead toy_nonce name v (en_journal s))\<rparr>)"
proof -
  obtain j where "put_secret toy_aead toy_nonce name v (en_journal s) = Inr j" using toy_put [OF assms] by blast
  then show ?thesis
    by (simp add: store_secret_def on_world_def sbind_def toy_enrol_fields)
qed

lemma toy_authorized:
  assumes "wi_world (en_wire s) = 5000000000"
  shows "\<exists>s'. authorize_turn toy_enrol_env u toy_session i s = (Inr True, s')"
proof -
  have st: "store_secret toy_enrol_env REFRESH_TOKEN_SECRET v t = (Inr (), t\<lparr>en_journal :=
      projr (put_secret toy_aead toy_nonce REFRESH_TOKEN_SECRET v (en_journal t))\<rparr>)"
    "store_secret toy_enrol_env DEVICE_ID_SECRET v t = (Inr (), t\<lparr>en_journal :=
      projr (put_secret toy_aead toy_nonce DEVICE_ID_SECRET v (en_journal t))\<rparr>)" for v t
    by (simp_all add: toy_secret_stored REFRESH_TOKEN_SECRET_def DEVICE_ID_SECRET_def)
  show ?thesis
    using assms
    by (simp add: authorize_turn_def toy_enrol_fields toy_auth_net_def toy_session_def on_world_def sbind_def slift_def
      stry_def on_wire_def exchange_def auth_post_def send_body_def transmit_def exchange_outcome_def sret_def serr_def
      is_success_def response_json_def toy_auth_codec_def checked_tokens_def toy_tokens_def st)
qed

lemma toy_enrolled:
  "\<exists>s'. authorize_device toy_enrol_env toy_files [100] ''https://api.crowcompute.ai'' toy_enrol = Some (Inr (), s')"
proof -
  obtain s1 where s1: "authorize_begin toy_enrol_env toy_files [100] ''https://api.crowcompute.ai'' toy_enrol
     = (Inr (replicate 32 (CHR ''s''), toy_auth_origin, toy_session), s1)" "wi_world (en_wire s1) = 0"
    using toy_begun by blast
  obtain s2 where s2: "authorize_turn toy_enrol_env toy_auth_origin toy_session (replicate 32 (CHR ''s'')) s1 = (Inr False, s2)"
    "wi_world (en_wire s2) = 5000000000" using toy_waits [of s1] s1(2) by auto
  obtain s3 where s3: "authorize_turn toy_enrol_env toy_auth_origin toy_session (replicate 32 (CHR ''s'')) s2 = (Inr True, s3)"
    using toy_authorized [OF s2(2)] by blast
  have "authorize_loop toy_enrol_env toy_auth_origin toy_session (replicate 32 (CHR ''s'')) s2 = Some (Inr (), s3)"
    by (subst authorize_loop.simps) (simp only: s3 prod.case sum.case if_True)
  then have "authorize_loop toy_enrol_env toy_auth_origin toy_session (replicate 32 (CHR ''s'')) s1 = Some (Inr (), s3)"
    by (subst authorize_loop.simps) (simp only: s2 prod.case sum.case if_False)
  then show ?thesis by (simp only: authorize_device_def s1 prod.case sum.case) blast
qed

theorem authorized_device_can_start_witness:
  "\<exists>s' token. authorize_device toy_enrol_env toy_files [100] ''https://api.crowcompute.ai'' toy_enrol = Some (Inr (), s')
     \<and> secret toy_aead REFRESH_TOKEN_SECRET (en_journal s') = Inr (Some token) \<and> token \<noteq> []"
proof -
  obtain s' where s': "authorize_device toy_enrol_env toy_files [100] ''https://api.crowcompute.ai'' toy_enrol = Some (Inr (), s')"
    using toy_enrolled by blast
  have "length toy_nonce = 24" by (simp add: toy_nonce_def)
  then show ?thesis
    using s' authorized_device_can_start [OF toy_clock_law _ _ s'] toy_aead_law by (auto simp: toy_enrol_fields)
qed

end
