(* ===== verification/ControlPlane.thy ===== *)
theory ControlPlane
  imports Http AgentVersion
begin

text \<open>
  The client of the control plane, \<open>crates/crow-agent-core/src/control_plane.rs\<close>: the rotating
  access token, the check of the origin, the five calls with the validation of their
  responses. Serde's decoding of the response bodies is the record \<open>api_codec\<close>. The token's lock
  is never poisoned, since nothing panics while it is held.
\<close>

datatype api_error =
    ApiOrigin
  | ApiAuthorization
  | ApiRequest
  | ApiStatus nat
  | ApiResponse

record harness_run =
  hr_id :: uuid
  hr_arena_id :: uuid
  hr_device_id :: uuid
  hr_agent_version_id :: uuid
  hr_client_release :: string
  hr_decision_cooldown_seconds :: u32
  hr_isolated_leverage :: u8
  hr_status :: string
  hr_next_sequence :: u64
  hr_last_event_hash :: string
  hr_disqualification_reason :: "string option"
  hr_handoff_snapshot :: "json option"
  hr_started_at :: "int option"
  hr_stopped_at :: "int option"
  hr_created_at :: int

record start_request =
  sr_arena_id :: uuid
  sr_agent_version_id :: uuid
  sr_execution_account :: string
  sr_client_release :: string
  sr_decision_cooldown_seconds :: u32
  sr_isolated_leverage :: u8
  sr_handoff_snapshot :: "json option"

record started_run =
  st_run :: harness_run
  st_lease_token :: string
  st_lease_expires_at :: int

record append_response =
  ar_event_id :: uuid
  ar_server_receipt :: string

record api_codec =
  ac_started :: "json \<Rightarrow> started_run option"
  ac_lease :: "json \<Rightarrow> int option"
  ac_append :: "json \<Rightarrow> append_response option"
  ac_versions :: "json \<Rightarrow> version_envelope list option"

section \<open>The access token\<close>

record rotating_token =
  rt_token :: string

definition new_token :: "string \<Rightarrow> api_error + rotating_token" where
  "new_token token = (if blank token then Inl ApiAuthorization else Inr \<lparr>rt_token = token\<rparr>)"

definition replace_token :: "string \<Rightarrow> (rotating_token, api_error, unit) step" where
  "replace_token token s = (if blank token then (Inl ApiAuthorization, s) else (Inr (), s\<lparr>rt_token := token\<rparr>))"

definition token_header :: "'w net \<Rightarrow> rotating_token \<Rightarrow> api_error + string" where
  "token_header N t =
     (let value = ''Bearer '' @ rt_token t in if ne_header N value then Inr value else Inl ApiAuthorization)"

section \<open>The client\<close>

record api_client =
  ap_origin :: url
  ap_access_token :: rotating_token

definition with_access_token :: "'w net \<Rightarrow> string \<Rightarrow> rotating_token \<Rightarrow> api_error + api_client" where
  "with_access_token N api_origin access_token =
     rbind (check_origin N ApiOrigin api_origin) (\<lambda>origin.
     rbind (token_header N access_token) (\<lambda>_.
       if ne_builds N then Inr \<lparr>ap_origin = origin, ap_access_token = access_token\<rparr> else Inl ApiRequest))"

definition new_api_client :: "'w net \<Rightarrow> string \<Rightarrow> string \<Rightarrow> api_error + api_client" where
  "new_api_client N api_origin access_token =
     rbind (new_token access_token) (with_access_token N api_origin)"

definition post_json :: "'w net \<Rightarrow> api_client \<Rightarrow> string \<Rightarrow> json option \<Rightarrow> ('w, api_error, http_response) call" where
  "post_json N c path body =
     sbind (slift (ok_or (ne_join N (ap_origin c) path) ApiOrigin)) (\<lambda>endpoint.
     sbind (slift (token_header N (ap_access_token c))) (\<lambda>value.
       serr (\<lambda>_. ApiRequest) (send_body N HPost endpoint (Some value) body)))"

definition patch_json :: "'w net \<Rightarrow> api_client \<Rightarrow> string \<Rightarrow> json option \<Rightarrow> ('w, api_error, http_response) call" where
  "patch_json N c path body =
     sbind (slift (ok_or (ne_join N (ap_origin c) path) ApiOrigin)) (\<lambda>endpoint.
     sbind (slift (token_header N (ap_access_token c))) (\<lambda>value.
       serr (\<lambda>_. ApiRequest) (send_body N HPatch endpoint (Some value) body)))"

definition get_json :: "'w net \<Rightarrow> api_client \<Rightarrow> string \<Rightarrow> ('w, api_error, http_response) call" where
  "get_json N c path =
     sbind (slift (ok_or (ne_join N (ap_origin c) path) ApiOrigin)) (\<lambda>endpoint.
     sbind (slift (token_header N (ap_access_token c))) (\<lambda>value.
       serr (\<lambda>_. ApiRequest) (transmit N
         \<lparr>hq_method = HGet, hq_url = endpoint, hq_authorization = Some value, hq_body = None\<rparr>)))"

definition decode_success :: "(json \<Rightarrow> 'a option) \<Rightarrow> http_response \<Rightarrow> api_error + 'a" where
  "decode_success dec response =
     (if hp_status response = UNAUTHORIZED then Inl ApiAuthorization
      else if \<not> is_success (hp_status response) then Inl (ApiStatus (hp_status response))
      else case hp_body response of
        Inl _ \<Rightarrow> Inl ApiResponse
      | Inr v \<Rightarrow> ok_or (dec v) ApiResponse)"

section \<open>The calls\<close>

definition start_request_json :: "prims \<Rightarrow> start_request \<Rightarrow> json" where
  "start_request_json P r = JObj
     ([(''arena_id'', juuid P (sr_arena_id r)), (''agent_version_id'', juuid P (sr_agent_version_id r)),
       (''execution_account'', JStr (sr_execution_account r)), (''client_release'', JStr (sr_client_release r)),
       (''decision_cooldown_seconds'', jword (sr_decision_cooldown_seconds r)),
       (''isolated_leverage'', jword (sr_isolated_leverage r))]
      @ (case sr_handoff_snapshot r of None \<Rightarrow> [] | Some v \<Rightarrow> [(''handoff_snapshot'', v)]))"

definition start_run ::
    "prims \<Rightarrow> 'w net \<Rightarrow> api_codec \<Rightarrow> api_client \<Rightarrow> start_request \<Rightarrow> ('w, api_error, started_run) call" where
  "start_run P N C c request =
     sbind (post_json N c ''/api/v1/harness/runs'' (Some (start_request_json P request))) (\<lambda>response.
     sbind (slift (decode_success (ac_started C) response)) (\<lambda>started.
       let run = st_run started in
       if st_lease_token started = [] \<or> hr_id run = 0
         \<or> hr_arena_id run \<noteq> sr_arena_id request
         \<or> hr_agent_version_id run \<noteq> sr_agent_version_id request
         \<or> hr_decision_cooldown_seconds run \<noteq> sr_decision_cooldown_seconds request
         \<or> hr_isolated_leverage run \<noteq> sr_isolated_leverage request
         \<or> hr_status run \<noteq> ''running''
       then slift (Inl ApiResponse) else sret started))"

definition agent_version ::
    "'w net \<Rightarrow> api_codec \<Rightarrow> api_client \<Rightarrow> uuid \<Rightarrow> ('w, api_error, version_envelope) call" where
  "agent_version N C c version_id =
     (if version_id = 0 then slift (Inl ApiResponse)
      else sbind (get_json N c ''/api/v1/harness/agent-versions'') (\<lambda>response.
      sbind (slift (decode_success (ac_versions C) response)) (\<lambda>versions.
        slift (ok_or (find (\<lambda>v. ve_version_id v = version_id) versions) ApiResponse))))"

definition run_path :: "prims \<Rightarrow> uuid \<Rightarrow> string \<Rightarrow> string" where
  "run_path P run_id what = ''/api/v1/harness/runs/'' @ uuid_str P run_id @ what"

definition renew_lease ::
    "prims \<Rightarrow> 'w net \<Rightarrow> api_codec \<Rightarrow> api_client \<Rightarrow> uuid \<Rightarrow> string \<Rightarrow> ('w, api_error, int) call" where
  "renew_lease P N C c run_id lease_token =
     (if lease_token = [] then slift (Inl ApiAuthorization)
      else sbind (post_json N c (run_path P run_id ''/lease'')
                   (Some (JObj [(''lease_token'', JStr lease_token)]))) (\<lambda>response.
        slift (decode_success (ac_lease C) response)))"

definition switch_run_strategy ::
    "prims \<Rightarrow> 'w net \<Rightarrow> api_client \<Rightarrow> uuid \<Rightarrow> uuid \<Rightarrow> ('w, api_error, unit) call" where
  "switch_run_strategy P N c run_id agent_version_id =
     (if run_id = 0 \<or> agent_version_id = 0 then slift (Inl ApiResponse)
      else sbind (patch_json N c (run_path P run_id ''/strategy'')
                   (Some (JObj [(''agent_version_id'', juuid P agent_version_id)]))) (\<lambda>response.
        if \<not> is_success (hp_status response) then slift (Inl (ApiStatus (hp_status response))) else sret ()))"

definition event_json :: "prims \<Rightarrow> run_event \<Rightarrow> json option" where
  "event_json P e = (case unsigned_event P e of
     Some (JObj fs) \<Rightarrow> Some (JObj (fs @ [(''event_sha256'', JStr (ev_event_sha256 e)),
       (''device_public_key'', JStr (ev_device_public_key e)),
       (''device_signature'', JStr (ev_device_signature e)),
       (''server_receipt'', case ev_server_receipt e of None \<Rightarrow> JNull | Some r \<Rightarrow> JStr r)]))
   | _ \<Rightarrow> None)"

definition append_remote_event ::
    "prims \<Rightarrow> 'w net \<Rightarrow> api_codec \<Rightarrow> api_client \<Rightarrow> run_event \<Rightarrow> ('w, api_error, string) call" where
  "append_remote_event P N C c e =
     sbind (slift (map_err (\<lambda>_. ApiResponse) (verify_event P e))) (\<lambda>_.
     if ev_server_receipt e \<noteq> None then slift (Inl ApiResponse)
     else sbind (post_json N c (run_path P (ev_run_id e) ''/events'') (event_json P e)) (\<lambda>response.
     sbind (slift (decode_success (ac_append C) response)) (\<lambda>accepted.
       if ar_event_id accepted \<noteq> ev_event_id e \<or> ar_server_receipt accepted = []
       then slift (Inl ApiResponse) else sret (ar_server_receipt accepted))))"

section \<open>Where requests go\<close>

definition client_on_crow :: "api_client \<Rightarrow> bool" where
  "client_on_crow c \<longleftrightarrow> on_crow (ap_origin c)"

abbreviation to_crow :: "api_client \<Rightarrow> http_request \<Rightarrow> bool" where
  "to_crow c \<equiv> crow_request (rt_token (ap_access_token c))"

lemma with_access_token_Inr:
  assumes "with_access_token N origin t = Inr c"
  shows "check_origin N ApiOrigin origin = Inr (ap_origin c)" and "ap_access_token c = t" and "on_crow (ap_origin c)"
proof -
  show "check_origin N ApiOrigin origin = Inr (ap_origin c)" "ap_access_token c = t"
    using assms by (auto simp: with_access_token_def split: if_splits)
  then show "on_crow (ap_origin c)" by (blast intro: check_origin_crow)
qed

lemma keeps_joined:
  assumes "\<And>u value. ne_join N (ap_origin c) path = Some u \<Longrightarrow> token_header N (ap_access_token c) = Inr value \<Longrightarrow>
      keeps (sends Q) (m u value)"
  shows "keeps (sends Q) (sbind (slift (ok_or (ne_join N (ap_origin c) path) ApiOrigin)) (\<lambda>endpoint.
     sbind (slift (token_header N (ap_access_token c))) (\<lambda>value. serr f (m endpoint value))))"
proof (rule keepsI)
  fix s r s' assume "sbind (slift (ok_or (ne_join N (ap_origin c) path) ApiOrigin)) (\<lambda>endpoint.
     sbind (slift (token_header N (ap_access_token c))) (\<lambda>value. serr f (m endpoint value))) s = (r, s')"
  then show "sends Q s s'"
    by (cases "ne_join N (ap_origin c) path"; cases "token_header N (ap_access_token c)")
      (auto simp: sbind_def slift_def intro: sent.R_refl elim!: serr_cases dest: keepsD [OF assms])
qed

lemma token_header_Inr: "token_header N t = Inr value \<Longrightarrow> value = ''Bearer '' @ rt_token t"
  by (auto simp: token_header_def Let_def split: if_splits)

lemma keeps_calls:
  assumes "join_law N" and "on_crow (ap_origin c)" and "api_path path"
  shows "keeps (sends (to_crow c)) (post_json N c path body)"
    and "keeps (sends (to_crow c)) (patch_json N c path body)"
    and "keeps (sends (to_crow c)) (get_json N c path)"
  unfolding post_json_def patch_json_def get_json_def
  using join_on_crow [OF assms]
  by (auto intro!: keeps_joined keeps_send_body keeps_transmit dest: token_header_Inr simp: crow_request_def)

lemma api_paths: "api_path ''/api/v1/harness/runs''" "api_path ''/api/v1/harness/agent-versions''"
  "api_path (run_path P i what)"
  by (simp_all add: api_path_def run_path_def)

text \<open>
  C35. The access token goes to Crow and nowhere else: every request that any call of a client built by
  \<open>with_access_token\<close> hands to the network, whatever the call returns, is an https request to
  crowcompute.ai or a subdomain of it and carries the client's current token as its bearer.
\<close>

theorem token_stays_on_crow:
  assumes "join_law N" and "with_access_token N origin t = Inr c"
  shows "keeps (sends (crow_request (rt_token t))) (start_run P N C c request)
    \<and> keeps (sends (crow_request (rt_token t))) (agent_version N C c version_id)
    \<and> keeps (sends (crow_request (rt_token t))) (renew_lease P N C c run_id lease)
    \<and> keeps (sends (crow_request (rt_token t))) (switch_run_strategy P N c run_id version_id)
    \<and> keeps (sends (crow_request (rt_token t))) (append_remote_event P N C c e)"
proof -
  note c = with_access_token_Inr [OF assms(2)]
  note calls = keeps_calls [OF assms(1) c(3), unfolded c(2)]
  show ?thesis
    unfolding start_run_def agent_version_def renew_lease_def switch_run_strategy_def append_remote_event_def Let_def
    by (intro conjI sent.keeps_intros calls api_paths)
qed

section \<open>What the calls return\<close>

text \<open>
  A run the control plane starts is the one that was asked for: \<open>start_run\<close> succeeds only with a
  running run of the requested arena, strategy, cooldown and leverage, with an id and a lease token.
\<close>

theorem started_run_matches_request:
  assumes "start_run P N C c request s = (Inr started, s')"
  shows "hr_id (st_run started) \<noteq> 0 \<and> st_lease_token started \<noteq> []
    \<and> hr_arena_id (st_run started) = sr_arena_id request
    \<and> hr_agent_version_id (st_run started) = sr_agent_version_id request
    \<and> hr_decision_cooldown_seconds (st_run started) = sr_decision_cooldown_seconds request
    \<and> hr_isolated_leverage (st_run started) = sr_isolated_leverage request
    \<and> hr_status (st_run started) = ''running''"
  using assms unfolding start_run_def
  by (auto simp: Let_def slift_def sret_def elim!: sbind_InrE split: if_splits)

lemma post_json_sent:
  assumes "post_json N c path body s = (r, s')"
  shows "wi_sent s' = wi_sent s \<or> (\<exists>u value v. body = Some v \<and> ne_join N (ap_origin c) path = Some u
    \<and> wi_sent s' = wi_sent s @ [\<lparr>hq_method = HPost, hq_url = u, hq_authorization = Some value, hq_body = Some v\<rparr>])"
  using assms unfolding post_json_def
  by (auto simp: slift_def send_body_def transmit_def ok_or_def elim!: sbind_cases serr_cases split: option.splits prod.splits)

text \<open>
  Only verified events leave the device: \<open>append_event\<close> of the client hands at most one request to the
  network, a POST of the event's own JSON to its run, and only when the event verifies and carries no
  receipt yet; a receipt it returns is not empty and was given to that event.
\<close>

theorem only_verified_events_are_uploaded:
  assumes "append_remote_event P N C c e s = (r, s')"
  shows "(wi_sent s' = wi_sent s
      \<or> verify_event P e = Inr () \<and> ev_server_receipt e = None
        \<and> (\<exists>u value v. event_json P e = Some v \<and> ne_join N (ap_origin c) (run_path P (ev_run_id e) ''/events'') = Some u
            \<and> wi_sent s' = wi_sent s @ [\<lparr>hq_method = HPost, hq_url = u, hq_authorization = Some value, hq_body = Some v\<rparr>]))
    \<and> r \<noteq> Inr []"
  using assms unfolding append_remote_event_def by (auto simp: slift_def sret_def elim!: sbind_cases dest!: post_json_sent split: if_splits)

section \<open>A concrete server\<close>

definition crow_origin :: url where
  "crow_origin = \<lparr>ur_scheme = ''https'', ur_host = Some ''api.crowcompute.ai'', ur_opaque = False, ur_rest = ''/''\<rparr>"

definition toy_net :: "unit net" where
  "toy_net = \<lparr>ne_parse = (\<lambda>s. Some crow_origin), ne_join = (\<lambda>u p. Some (u\<lparr>ur_rest := p\<rparr>)), ne_header = (\<lambda>v. True),
     ne_builds = True, ne_send = (\<lambda>q w. (Inr \<lparr>hp_status = 201, hp_body = Inr JNull\<rparr>, w))\<rparr>"

definition toy_client :: api_client where
  "toy_client = \<lparr>ap_origin = crow_origin, ap_access_token = \<lparr>rt_token = ''secret''\<rparr>\<rparr>"

definition toy_start :: start_request where
  "toy_start = \<lparr>sr_arena_id = 1, sr_agent_version_id = 5, sr_execution_account = ''0x'', sr_client_release = ''1'',
     sr_decision_cooldown_seconds = 900, sr_isolated_leverage = 2, sr_handoff_snapshot = None\<rparr>"

definition toy_started :: started_run where
  "toy_started = \<lparr>st_run = \<lparr>hr_id = 2, hr_arena_id = 1, hr_device_id = 3, hr_agent_version_id = 5, hr_client_release = ''1'',
     hr_decision_cooldown_seconds = 900, hr_isolated_leverage = 2, hr_status = ''running'', hr_next_sequence = 1,
     hr_last_event_hash = '''', hr_disqualification_reason = None, hr_handoff_snapshot = None, hr_started_at = None,
     hr_stopped_at = None, hr_created_at = 0\<rparr>, st_lease_token = ''lease'', st_lease_expires_at = 60\<rparr>"

definition toy_codec :: api_codec where
  "toy_codec = \<lparr>ac_started = (\<lambda>v. Some toy_started), ac_lease = (\<lambda>v. Some 60),
     ac_append = (\<lambda>v. Some \<lparr>ar_event_id = 7, ar_server_receipt = ''ok''\<rparr>), ac_versions = (\<lambda>v. Some [])\<rparr>"

definition toy_wire :: "unit wire" where "toy_wire = \<lparr>wi_sent = [], wi_world = ()\<rparr>"

lemma toy_join_law: "join_law toy_net"
  by (auto simp: join_law_def toy_net_def)

lemma toy_client_built: "with_access_token toy_net ''origin'' \<lparr>rt_token = ''secret''\<rparr> = Inr toy_client"
  by (simp add: with_access_token_def check_origin_def toy_net_def crow_origin_def crow_host_def ends_with_def
      token_header_def Let_def toy_client_def)

theorem token_stays_on_crow_witness:
  "keeps (sends (crow_request ''secret'')) (start_run toy_prims toy_net toy_codec toy_client toy_start)"
  using token_stays_on_crow [OF toy_join_law toy_client_built] by (metis rotating_token.select_convs(1))

lemma toy_posted:
  "post_json toy_net toy_client path (Some v) toy_wire
     = (Inr \<lparr>hp_status = 201, hp_body = Inr JNull\<rparr>, toy_wire\<lparr>wi_sent := [\<lparr>hq_method = HPost,
         hq_url = crow_origin\<lparr>ur_rest := path\<rparr>, hq_authorization = Some ''Bearer secret'', hq_body = Some v\<rparr>]\<rparr>)"
  by (simp add: post_json_def sbind_def slift_def toy_net_def toy_client_def token_header_def Let_def serr_def
      send_body_def transmit_def toy_wire_def)

lemma toy_decoded: "decode_success dec \<lparr>hp_status = 201, hp_body = Inr JNull\<rparr> = ok_or (dec JNull) ApiResponse"
  by (simp add: decode_success_def UNAUTHORIZED_def is_success_def)

lemma toy_run_started:
  "\<exists>s. start_run toy_prims toy_net toy_codec toy_client toy_start toy_wire = (Inr toy_started, s)"
  by (simp add: start_run_def sbind_def toy_posted toy_decoded slift_def toy_codec_def sret_def)
    (simp add: toy_started_def toy_start_def sret_def)

theorem started_run_matches_request_witness:
  "\<exists>s. start_run toy_prims toy_net toy_codec toy_client toy_start toy_wire = (Inr toy_started, s)
     \<and> hr_arena_id (st_run toy_started) = sr_arena_id toy_start"
  using toy_run_started started_run_matches_request by metis

lemma toy_event_uploaded:
  obtains s where "append_remote_event toy_prims toy_net toy_codec toy_client toy_event toy_wire = (Inr ''ok'', s)"
    and "wi_sent s \<noteq> []"
proof -
  have v: "verify_event toy_prims toy_event = Inr ()"
    using sign_event_verifies [OF toy_signature_law toy_event_signed] by simp
  obtain v where j: "event_json toy_prims toy_event = Some v"
    by (simp add: event_json_def unsigned_event_def jtime_def toy_prims_def)
  have "ev_server_receipt toy_event = None" "ev_event_id toy_event = 7" by (simp_all add: toy_event_def)
  then have "\<exists>s. append_remote_event toy_prims toy_net toy_codec toy_client toy_event toy_wire = (Inr ''ok'', s) \<and> wi_sent s \<noteq> []"
    by (simp add: append_remote_event_def v j sbind_def slift_def toy_posted toy_decoded toy_codec_def sret_def)
  then show thesis using that by blast
qed

theorem only_verified_events_are_uploaded_witness:
  "\<exists>s. append_remote_event toy_prims toy_net toy_codec toy_client toy_event toy_wire = (Inr ''ok'', s)
     \<and> wi_sent s \<noteq> [] \<and> verify_event toy_prims toy_event = Inr ()"
proof -
  obtain s where s: "append_remote_event toy_prims toy_net toy_codec toy_client toy_event toy_wire = (Inr ''ok'', s)"
    "wi_sent s \<noteq> []" by (rule toy_event_uploaded)
  then show ?thesis using only_verified_events_are_uploaded [OF s(1)] by (auto simp: toy_wire_def)
qed

end
