(* ===== verification/Vault.thy ===== *)
theory Vault
  imports DeviceAuth Daemon Decimals
begin

text \<open>
  The desktop shell's credentials, \<open>apps/desktop/src-tauri/src/lib.rs\<close>: the vault in the operating
  system's keychain with its cache and the flag that turns it off after a failure, the secrets and
  tokens in it, the controller's nonces, the desktop state around device tokens, and the slot of the
  companion process. A keychain call may fail at any time, and a failing write may or may not have
  reached the entry. Serde's encoding of the vault, the random bytes and the wallet's address check
  are functions of the environment.
\<close>

definition CREDENTIAL_VAULT_VERSION :: u8 where "CREDENTIAL_VAULT_VERSION = 1"
definition SIGNING_SEED_ACCOUNT :: string where "SIGNING_SEED_ACCOUNT = ''device-signing-seed''"
definition ENCRYPTION_SECRET_ACCOUNT :: string where "ENCRYPTION_SECRET_ACCOUNT = ''device-encryption-secret''"
definition ACCESS_TOKEN_ACCOUNT :: string where "ACCESS_TOKEN_ACCOUNT = ''device-access-token''"
definition ACCESS_EXPIRES_AT_ACCOUNT :: string where "ACCESS_EXPIRES_AT_ACCOUNT = ''device-access-expires-at''"
definition REFRESH_TOKEN_ACCOUNT :: string where "REFRESH_TOKEN_ACCOUNT = ''device-refresh-token''"
definition DEVICE_ID_ACCOUNT :: string where "DEVICE_ID_ACCOUNT = ''device-id''"
definition CONTROLLER_NONCE_ACCOUNT :: string where "CONTROLLER_NONCE_ACCOUNT = ''controller-nonce''"
definition COMPANION_SECRET_ACCOUNT :: string where "COMPANION_SECRET_ACCOUNT = ''companion-ipc-secret''"
definition JOURNAL_KEY_ACCOUNT :: string where "JOURNAL_KEY_ACCOUNT = ''journal-key''"
definition HYPERLIQUID_API_WALLET_ACCOUNT :: string where
  "HYPERLIQUID_API_WALLET_ACCOUNT = ''hyperliquid-api-wallet-key''"

record vault =
  va_version :: u8
  va_signing_seed :: "string option"
  va_encryption_secret :: "string option"
  va_access_token :: "string option"
  va_access_expires_at :: "int option"
  va_refresh_token :: "string option"
  va_device_id :: "string option"
  va_controller_nonce :: u64
  va_companion_secret :: "string option"
  va_journal_key :: "string option"
  va_hyperliquid_api_wallet_key :: "string option"

definition default_vault :: vault where
  "default_vault = \<lparr>va_version = 0, va_signing_seed = None, va_encryption_secret = None, va_access_token = None,
     va_access_expires_at = None, va_refresh_token = None, va_device_id = None, va_controller_nonce = 0,
     va_companion_secret = None, va_journal_key = None, va_hyperliquid_api_wallet_key = None\<rparr>"

datatype desktop_error =
    DkCredential
  | DkAuthorization
  | DkNoAuthorization
  | DkBrowser
  | DkNetwork
  | DkRemoteCommand
  | DkCompanion
  | DkAgentVersion
  | DkArena
  | DkVenue
  | DkVenueAccount
  | DkVenueCollateral
  | DkJournal

definition desktop_error_code :: "desktop_error \<Rightarrow> string" where
  "desktop_error_code e = (case e of
       DkCredential \<Rightarrow> ''credential_store_unavailable''
     | DkAuthorization \<Rightarrow> ''device_authorization_failed''
     | DkNoAuthorization \<Rightarrow> ''device_authorization_not_started''
     | DkBrowser \<Rightarrow> ''browser_open_failed''
     | DkNetwork \<Rightarrow> ''device_api_unavailable''
     | DkRemoteCommand \<Rightarrow> ''remote_command_rejected''
     | DkCompanion \<Rightarrow> ''local_companion_unavailable''
     | DkAgentVersion \<Rightarrow> ''agent_version_invalid''
     | DkArena \<Rightarrow> ''arena_operation_failed''
     | DkVenue \<Rightarrow> ''hyperliquid_api_wallet_unavailable''
     | DkVenueAccount \<Rightarrow> ''hyperliquid_account_state_unavailable''
     | DkVenueCollateral \<Rightarrow> ''hyperliquid_testnet_collateral_required''
     | DkJournal \<Rightarrow> ''local_journal_unavailable'')"

section \<open>The vault\<close>

text \<open>The keychain: opening its entry, reading it, and writing it with whether the write succeeds and
  whether it reached the entry.\<close>

record 'w keychain =
  kc_encode :: "vault \<Rightarrow> string option"
  kc_decode :: "string \<Rightarrow> vault option"
  kc_opens :: "'w \<Rightarrow> bool \<times> 'w"
  kc_reads :: "'w \<Rightarrow> bool \<times> 'w"
  kc_writes :: "'w \<Rightarrow> (bool \<times> bool) \<times> 'w"
  kc_random :: "'w \<Rightarrow> string \<times> 'w"
  kc_wallet_ok :: "string \<Rightarrow> bool"

record 'w vault_state =
  vs_value :: "vault option"
  vs_unavailable :: bool
  vs_entry :: "string option"
  vs_wire :: "'w wire"

type_synonym ('w, 'a) vault_step = "('w vault_state, desktop_error, 'a) step"

definition vault_world :: "('w \<Rightarrow> 'a \<times> 'w) \<Rightarrow> ('w, 'a) vault_step" where
  "vault_world f s = (case f (wi_world (vs_wire s)) of (x, w) \<Rightarrow> (Inr x, s\<lparr>vs_wire := (vs_wire s)\<lparr>wi_world := w\<rparr>\<rparr>))"

definition vault_off :: "('w, 'a) vault_step" where
  "vault_off s = (Inl DkCredential, s\<lparr>vs_unavailable := True\<rparr>)"

definition decoded_vault :: "'w keychain \<Rightarrow> string option \<Rightarrow> vault option" where
  "decoded_vault K entry = (case entry of
     None \<Rightarrow> Some (default_vault\<lparr>va_version := CREDENTIAL_VAULT_VERSION\<rparr>)
   | Some encoded \<Rightarrow> (case kc_decode K encoded of None \<Rightarrow> None
       | Some v \<Rightarrow> if va_version v \<noteq> CREDENTIAL_VAULT_VERSION then None else Some v))"

definition load_credential_vault :: "'w keychain \<Rightarrow> ('w, unit) vault_step" where
  "load_credential_vault K s =
     (if vs_unavailable s then (Inl DkCredential, s)
      else if vs_value s \<noteq> None then (Inr (), s)
      else
      sbind (vault_world (kc_opens K)) (\<lambda>opened.
      if \<not> opened then vault_off
      else
      sbind (vault_world (kc_reads K)) (\<lambda>works.
      if \<not> works then vault_off
      else
      sbind (sget (\<lambda>s. decoded_vault K (vs_entry s))) (\<lambda>decoded.
      case decoded of None \<Rightarrow> vault_off | Some v \<Rightarrow> sput (\<lambda>s. s\<lparr>vs_value := Some v\<rparr>)))) s)"

definition write_entry :: "string \<Rightarrow> bool \<times> bool \<Rightarrow> ('w, unit) vault_step" where
  "write_entry encoded outcome s = (case outcome of (ok, reached) \<Rightarrow>
     let t = (if ok \<or> reached then s\<lparr>vs_entry := Some encoded\<rparr> else s) in
     if ok then (Inr (), t) else vault_off t)"

definition persist_credential_vault :: "'w keychain \<Rightarrow> ('w, unit) vault_step" where
  "persist_credential_vault K s =
     (case vs_value s of None \<Rightarrow> (Inl DkCredential, s)
      | Some v \<Rightarrow> (case kc_encode K v of None \<Rightarrow> (Inl DkCredential, s)
          | Some encoded \<Rightarrow>
              sbind (vault_world (kc_opens K)) (\<lambda>opened.
              if \<not> opened then vault_off
              else sbind (vault_world (kc_writes K)) (write_entry encoded)) s))"

definition read_vault :: "'w keychain \<Rightarrow> (vault \<Rightarrow> desktop_error + 'a) \<Rightarrow> ('w, 'a) vault_step" where
  "read_vault K operation =
     sbind (load_credential_vault K) (\<lambda>_.
     sbind (sget vs_value) (\<lambda>v. slift (rbind (ok_or v DkCredential) operation)))"

text \<open>An operation that fails may have changed the cached vault.\<close>

definition update_vault :: "'w keychain \<Rightarrow> (vault \<Rightarrow> (desktop_error + 'a) \<times> vault) \<Rightarrow> ('w, 'a) vault_step" where
  "update_vault K operation =
     sbind (load_credential_vault K) (\<lambda>_.
     sbind (\<lambda>s. case vs_value s of None \<Rightarrow> (Inl DkCredential, s)
        | Some v \<Rightarrow> (case operation v of (r, v') \<Rightarrow> (r, s\<lparr>vs_value := Some v'\<rparr>))) (\<lambda>result.
     sbind (persist_credential_vault K) (\<lambda>_. sret result)))"

section \<open>Secrets\<close>

definition decode_vault_secret :: "prims \<Rightarrow> string \<Rightarrow> desktop_error + string" where
  "decode_vault_secret P text =
     rbind (ok_or (b64_decode P text) DkCredential) (\<lambda>bytes. if length bytes = 32 then Inr bytes else Inl DkCredential)"

definition vault_secret_for_account :: "vault \<Rightarrow> string \<Rightarrow> string option" where
  "vault_secret_for_account v account =
     (if account = SIGNING_SEED_ACCOUNT then va_signing_seed v
      else if account = ENCRYPTION_SECRET_ACCOUNT then va_encryption_secret v
      else if account = COMPANION_SECRET_ACCOUNT then va_companion_secret v
      else if account = JOURNAL_KEY_ACCOUNT then va_journal_key v
      else if account = HYPERLIQUID_API_WALLET_ACCOUNT then va_hyperliquid_api_wallet_key v
      else None)"

definition set_vault_secret_for_account :: "string \<Rightarrow> string \<Rightarrow> vault \<Rightarrow> (desktop_error + unit) \<times> vault" where
  "set_vault_secret_for_account account encoded v =
     (if account = SIGNING_SEED_ACCOUNT then (Inr (), v\<lparr>va_signing_seed := Some encoded\<rparr>)
      else if account = ENCRYPTION_SECRET_ACCOUNT then (Inr (), v\<lparr>va_encryption_secret := Some encoded\<rparr>)
      else if account = COMPANION_SECRET_ACCOUNT then (Inr (), v\<lparr>va_companion_secret := Some encoded\<rparr>)
      else if account = JOURNAL_KEY_ACCOUNT then (Inr (), v\<lparr>va_journal_key := Some encoded\<rparr>)
      else if account = HYPERLIQUID_API_WALLET_ACCOUNT then (Inr (), v\<lparr>va_hyperliquid_api_wallet_key := Some encoded\<rparr>)
      else (Inl DkCredential, v))"

definition load_secret_32 :: "prims \<Rightarrow> 'w keychain \<Rightarrow> string \<Rightarrow> ('w, string) vault_step" where
  "load_secret_32 P K account =
     sbind (read_vault K (\<lambda>v. ok_or (vault_secret_for_account v account) DkCredential)) (\<lambda>encoded.
       slift (decode_vault_secret P encoded))"

definition load_or_create_secret_32 :: "prims \<Rightarrow> 'w keychain \<Rightarrow> string \<Rightarrow> ('w, string) vault_step" where
  "load_or_create_secret_32 P K account =
     sbind (read_vault K (\<lambda>v. Inr (vault_secret_for_account v account))) (\<lambda>stored.
     case stored of
       Some encoded \<Rightarrow> slift (decode_vault_secret P encoded)
     | None \<Rightarrow>
         sbind (vault_world (kc_random K)) (\<lambda>value.
         sbind (update_vault K (set_vault_secret_for_account account (b64_encode P value))) (\<lambda>_. sret value)))"

text \<open>The identity and the encryption key are kept as their secrets.\<close>

definition load_or_create_identity :: "prims \<Rightarrow> 'w keychain \<Rightarrow> ('w, string) vault_step" where
  "load_or_create_identity P K =
     sbind (read_vault K (\<lambda>v. Inr (va_signing_seed v))) (\<lambda>stored.
     case stored of
       Some encoded \<Rightarrow> slift (decode_vault_secret P encoded)
     | None \<Rightarrow>
         sbind (vault_world (kc_random K)) (\<lambda>seed.
         sbind (update_vault K (\<lambda>v. (Inr (), v\<lparr>va_signing_seed := Some (b64_encode P seed)\<rparr>))) (\<lambda>_. sret seed)))"

definition load_or_create_encryption_key :: "prims \<Rightarrow> 'w keychain \<Rightarrow> ('w, string) vault_step" where
  "load_or_create_encryption_key P K =
     sbind (read_vault K (\<lambda>v. Inr (va_encryption_secret v))) (\<lambda>stored.
     case stored of
       Some encoded \<Rightarrow> slift (decode_vault_secret P encoded)
     | None \<Rightarrow>
         sbind (vault_world (kc_random K)) (\<lambda>secret_bytes.
         sbind (update_vault K (\<lambda>v. (Inr (), v\<lparr>va_encryption_secret := Some (b64_encode P secret_bytes)\<rparr>))) (\<lambda>_.
           sret secret_bytes)))"

fun generate_wallet_key :: "prims \<Rightarrow> 'w keychain \<Rightarrow> nat \<Rightarrow> ('w, string) vault_step" where
  "generate_wallet_key P K 0 = slift (Inl DkVenue)"
| "generate_wallet_key P K (Suc n) =
     sbind (vault_world (kc_random K)) (\<lambda>key.
       if kc_wallet_ok K key
       then sbind (update_vault K (\<lambda>v. (Inr (), v\<lparr>va_hyperliquid_api_wallet_key := Some (b64_encode P key)\<rparr>))) (\<lambda>_. sret key)
       else generate_wallet_key P K n)"

definition load_or_create_wallet_key :: "prims \<Rightarrow> 'w keychain \<Rightarrow> ('w, string) vault_step" where
  "load_or_create_wallet_key P K =
     sbind (read_vault K (\<lambda>v. Inr (va_hyperliquid_api_wallet_key v))) (\<lambda>stored.
     case stored of
       Some encoded \<Rightarrow> slift (rbind (decode_vault_secret P encoded) (\<lambda>key.
           if kc_wallet_ok K key then Inr key else Inl DkVenue))
     | None \<Rightarrow> generate_wallet_key P K 64)"

definition load_or_create_companion_secret :: "prims \<Rightarrow> 'w keychain \<Rightarrow> ('w, string) vault_step" where
  "load_or_create_companion_secret P K = load_or_create_secret_32 P K COMPANION_SECRET_ACCOUNT"

section \<open>Nonces\<close>

definition next_persisted_nonce :: "'w keychain \<Rightarrow> string \<Rightarrow> ('w, u64) vault_step" where
  "next_persisted_nonce K account =
     (if account \<noteq> CONTROLLER_NONCE_ACCOUNT then slift (Inl DkRemoteCommand)
      else update_vault K (\<lambda>v. case u64_try (uint (va_controller_nonce v) + 1) of
        None \<Rightarrow> (Inl DkRemoteCommand, v)
      | Some n \<Rightarrow> (Inr n, v\<lparr>va_controller_nonce := n\<rparr>)))"

definition next_controller_nonce :: "'w keychain \<Rightarrow> ('w, u64) vault_step" where
  "next_controller_nonce K = next_persisted_nonce K CONTROLLER_NONCE_ACCOUNT"

section \<open>The slot of the companion process\<close>

record companion_slot =
  cs_generation :: u64
  cs_spawned :: bool

definition next_companion_nonce :: "(u64, desktop_error, u64) step" where
  "next_companion_nonce nonce = (case u64_try (uint nonce + 1) of
     None \<Rightarrow> (Inl DkCompanion, nonce) | Some n \<Rightarrow> (Inr n, n))"

definition reserve_companion_slot :: "(companion_slot, desktop_error, u64) step" where
  "reserve_companion_slot slot = (case u64_try (uint (cs_generation slot) + 1) of
     None \<Rightarrow> (Inl DkCompanion, slot)
   | Some g \<Rightarrow> (Inr g, slot\<lparr>cs_generation := g, cs_spawned := True\<rparr>))"

definition claim_companion_slot :: "(companion_slot, desktop_error, u64 option) step" where
  "claim_companion_slot slot =
     (if cs_spawned slot then (Inr None, slot)
      else case u64_try (uint (cs_generation slot) + 1) of
        None \<Rightarrow> (Inl DkCompanion, slot)
      | Some g \<Rightarrow> (Inr (Some g), slot\<lparr>cs_generation := g, cs_spawned := True\<rparr>))"

definition release_companion_slot :: "u64 \<Rightarrow> (companion_slot, desktop_error, bool) step" where
  "release_companion_slot generation slot =
     (if cs_generation slot \<noteq> generation then (Inr False, slot)
      else (Inr True, slot\<lparr>cs_spawned := False\<rparr>))"

definition invalidate_companion_slot :: "(companion_slot, desktop_error, unit) step" where
  "invalidate_companion_slot slot = (case u64_try (uint (cs_generation slot) + 1) of
     None \<Rightarrow> (Inl DkCompanion, slot)
   | Some g \<Rightarrow> (Inr (), slot\<lparr>cs_generation := g, cs_spawned := False\<rparr>))"

section \<open>The desktop's state\<close>

record 'w desktop_env =
  dk_P :: prims
  dk_K :: "'w keychain"
  dk_N :: "'w net"
  dk_C :: auth_codec
  dk_origin :: "string option"
  dk_now :: "'w \<Rightarrow> int \<times> 'w"
  dk_uuid :: "string \<Rightarrow> uuid option"
  dk_time_ok :: "int \<Rightarrow> bool"

record companion_credentials =
  cc_secret :: string
  cc_ipc_name :: string

record 'w desktop =
  dt_vault :: "'w vault_state"
  dt_pending :: "auth_session option"
  dt_companion_nonce :: u64
  dt_credentials :: "companion_credentials option"
  dt_credentials_unavailable :: bool
  dt_slot :: companion_slot
  dt_status :: "bool option"
  dt_tokens :: "device_tokens option"
  dt_tokens_unavailable :: bool

type_synonym ('w, 'a) desktop_step = "('w desktop, desktop_error, 'a) step"

definition new_desktop :: "'w vault_state \<Rightarrow> 'w desktop" where
  "new_desktop v = \<lparr>dt_vault = v, dt_pending = None, dt_companion_nonce = 0, dt_credentials = None,
     dt_credentials_unavailable = False, dt_slot = \<lparr>cs_generation = 0, cs_spawned = False\<rparr>, dt_status = Some False,
     dt_tokens = None, dt_tokens_unavailable = False\<rparr>"

definition on_vault :: "('w, 'a) vault_step \<Rightarrow> ('w, 'a) desktop_step" where
  "on_vault m s = (case m (dt_vault s) of (r, v) \<Rightarrow> (r, s\<lparr>dt_vault := v\<rparr>))"

definition vault_call :: "('e \<Rightarrow> desktop_error) \<Rightarrow> ('w, 'e, 'a) call \<Rightarrow> ('w, 'a) vault_step" where
  "vault_call f m s = (case m (vs_wire s) of (r, t) \<Rightarrow> (map_err f r, s\<lparr>vs_wire := t\<rparr>))"

text \<open>\<open>to_string\<close> and \<open>parse\<close> of an \<open>i64\<close>.\<close>

definition int_text :: "int \<Rightarrow> string" where
  "int_text n = (if n < 0 then ''-'' @ digits (nat (- n)) else digits (nat n))"

definition parse_i64 :: "string \<Rightarrow> int option" where
  "parse_i64 s =
     (let negative = starts_with s ''-''; body = (if negative \<or> starts_with s ''+'' then drop 1 s else s) in
      if body = [] \<or> \<not> list_all is_ascii_digit body then None
      else i64_try (if negative then - int (digits_value body) else int (digits_value body)))"

definition load_password :: "'w keychain \<Rightarrow> string \<Rightarrow> ('w, string) vault_step" where
  "load_password K account =
     read_vault K (\<lambda>v. ok_or
       (if account = ACCESS_TOKEN_ACCOUNT then va_access_token v
        else if account = ACCESS_EXPIRES_AT_ACCOUNT then map_option int_text (va_access_expires_at v)
        else if account = REFRESH_TOKEN_ACCOUNT then va_refresh_token v
        else if account = DEVICE_ID_ACCOUNT then va_device_id v
        else if account = CONTROLLER_NONCE_ACCOUNT then Some (digits (unat (va_controller_nonce v)))
        else None) DkCredential)"

definition store_tokens :: "'w desktop_env \<Rightarrow> device_tokens \<Rightarrow> ('w, unit) vault_step" where
  "store_tokens E t =
     update_vault (dk_K E) (\<lambda>v. (Inr (), v\<lparr>va_access_token := Some (dt_access_token t),
       va_access_expires_at := Some (dt_access_expires_at t div 1000000000),
       va_refresh_token := Some (dt_refresh_token t),
       va_device_id := Some (uuid_str (dk_P E) (dt_device_id t))\<rparr>))"

definition api_origin_of :: "'w desktop_env \<Rightarrow> string" where
  "api_origin_of E = (case dk_origin E of None \<Rightarrow> PRODUCTION_API_ORIGIN | Some v \<Rightarrow> v)"

text \<open>The stored access token, when everything of it reads and it is good for another minute.\<close>

definition stored_tokens ::
    "'w desktop_env \<Rightarrow> string \<Rightarrow> desktop_error + string \<Rightarrow> desktop_error + string \<Rightarrow> desktop_error + string
      \<Rightarrow> device_tokens option" where
  "stored_tokens E refresh access device expires =
     (case (access, device, expires) of
        (Inr access_token, Inr device_id, Inr expires_at) \<Rightarrow>
          (case (dk_uuid E device_id, parse_i64 expires_at) of
             (Some device_id, Some timestamp) \<Rightarrow>
               if dk_time_ok E (timestamp * 1000000000)
               then Some \<lparr>dt_device_id = device_id, dt_access_token = access_token, dt_refresh_token = refresh,
                 dt_access_expires_at = timestamp * 1000000000\<rparr>
               else None
           | _ \<Rightarrow> None)
      | _ \<Rightarrow> None)"

definition fresh_tokens ::
    "'w desktop_env \<Rightarrow> string \<Rightarrow> desktop_error + string \<Rightarrow> desktop_error + string \<Rightarrow> desktop_error + string
      \<Rightarrow> ('w, device_tokens option) vault_step" where
  "fresh_tokens E refresh access device expires =
     (case stored_tokens E refresh access device expires of
        None \<Rightarrow> sret None
      | Some t \<Rightarrow> sbind (vault_world (dk_now E)) (\<lambda>now.
          sret (if now + 60000000000 < dt_access_expires_at t then Some t else None)))"

definition rotate_stored_tokens :: "'w desktop_env \<Rightarrow> string \<Rightarrow> ('w, device_tokens) vault_step" where
  "rotate_stored_tokens E refresh_token =
     (if \<not> starts_with refresh_token ''crow_device_refresh_'' then slift (Inl DkCredential)
      else
      sbind (load_or_create_identity (dk_P E) (dk_K E)) (\<lambda>identity.
      sbind (slift (map_err (\<lambda>_. DkAuthorization) (new_auth_client (dk_N E) (api_origin_of E)))) (\<lambda>client.
      sbind (vault_call (\<lambda>_. DkAuthorization)
        (rotate_tokens (dk_P E) (dk_N E) (dk_C E) client refresh_token identity)) (\<lambda>tokens.
      sbind (store_tokens E tokens) (\<lambda>_. sret tokens)))))"

definition load_or_rotate_tokens :: "'w desktop_env \<Rightarrow> ('w, device_tokens) vault_step" where
  "load_or_rotate_tokens E =
     sbind (load_password (dk_K E) REFRESH_TOKEN_ACCOUNT) (\<lambda>refresh_token.
     sbind (stry (load_password (dk_K E) ACCESS_TOKEN_ACCOUNT)) (\<lambda>access.
     sbind (stry (load_password (dk_K E) DEVICE_ID_ACCOUNT)) (\<lambda>device.
     sbind (stry (load_password (dk_K E) ACCESS_EXPIRES_AT_ACCOUNT)) (\<lambda>expires.
     sbind (fresh_tokens E refresh_token access device expires) (\<lambda>fresh.
     case fresh of Some t \<Rightarrow> sret t | None \<Rightarrow> rotate_stored_tokens E refresh_token)))))"

definition companion_credentials_of :: "'w desktop_env \<Rightarrow> ('w, companion_credentials) desktop_step" where
  "companion_credentials_of E s =
     (if dt_credentials_unavailable s then (Inl DkCredential, s)
      else case dt_credentials s of
        Some c \<Rightarrow> (Inr c, s)
      | None \<Rightarrow>
          (case on_vault (load_or_create_companion_secret (dk_P E) (dk_K E)) s of
             (Inl e, t) \<Rightarrow> (Inl e, t\<lparr>dt_credentials_unavailable := True\<rparr>)
           | (Inr secret_bytes, t) \<Rightarrow>
               let c = \<lparr>cc_secret = secret_bytes,
                 cc_ipc_name = ''crow-agent-'' @ hex_encode (dk_P E) (take 12 (sha256 (dk_P E) secret_bytes))\<rparr> in
               (Inr c, t\<lparr>dt_credentials := Some c\<rparr>)))"

definition device_authorized :: "'w desktop \<Rightarrow> bool" where
  "device_authorized s = (case dt_status s of None \<Rightarrow> False | Some b \<Rightarrow> b)"

definition cache_device_tokens :: "device_tokens \<Rightarrow> 'w desktop \<Rightarrow> 'w desktop" where
  "cache_device_tokens t s = s\<lparr>dt_tokens_unavailable := False, dt_status := Some True, dt_tokens := Some t\<rparr>"

definition device_tokens_of :: "'w desktop_env \<Rightarrow> ('w, device_tokens) desktop_step" where
  "device_tokens_of E s =
     (if \<not> device_authorized s then (Inl DkNoAuthorization, s)
      else if dt_tokens_unavailable s then (Inl DkCredential, s)
      else
      let refresh = (\<lambda>s. case on_vault (load_or_rotate_tokens E) s of
          (Inr t, s') \<Rightarrow> (Inr t, s'\<lparr>dt_tokens := Some t\<rparr>)
        | (Inl e, s') \<Rightarrow> (Inl e, if e = DkCredential then s'\<lparr>dt_tokens_unavailable := True\<rparr> else s')) in
      case dt_tokens s of
        None \<Rightarrow> refresh s
      | Some t \<Rightarrow> sbind (on_vault (vault_world (dk_now E))) (\<lambda>now.
          if now + 60000000000 < dt_access_expires_at t then sret t else refresh) s)"

definition unlock_device_credentials :: "'w desktop_env \<Rightarrow> ('w, device_tokens) desktop_step" where
  "unlock_device_credentials E =
     sbind (on_vault (read_vault (dk_K E) (\<lambda>v. Inr (case va_refresh_token v of None \<Rightarrow> False | Some t \<Rightarrow> t \<noteq> [])))) (\<lambda>has_token.
     if \<not> has_token then slift (Inl DkNoAuthorization)
     else (\<lambda>s. case device_tokens_of E (s\<lparr>dt_status := Some True, dt_tokens_unavailable := False\<rparr>) of
         (Inr t, s') \<Rightarrow> (Inr t, s')
       | (Inl e, s') \<Rightarrow> (Inl e, s'\<lparr>dt_status := Some False\<rparr>)))"

definition complete_device_authorization :: "'w desktop_env \<Rightarrow> ('w desktop, string, device_tokens) step" where
  "complete_device_authorization E s =
     (case dt_pending s of
        None \<Rightarrow> (Inl (desktop_error_code DkNoAuthorization), s)
      | Some session \<Rightarrow>
          sbind (serr desktop_error_code (on_vault (load_or_create_identity (dk_P E) (dk_K E)))) (\<lambda>identity.
          sbind (slift (map_err (\<lambda>_. desktop_error_code DkAuthorization) (production_client (dk_N E)))) (\<lambda>client.
          sbind (serr desktop_error_code (on_vault (vault_world (dk_now E)))) (\<lambda>now.
          sbind (stry (\<lambda>s. case exchange (dk_P E) (dk_N E) (dk_C E) client now session identity (vs_wire (dt_vault s)) of
              (r, t) \<Rightarrow> (r, s\<lparr>dt_vault := (dt_vault s)\<lparr>vs_wire := t\<rparr>\<rparr>))) (\<lambda>r.
          case r of
            Inr tokens \<Rightarrow> sbind (serr desktop_error_code (on_vault (store_tokens E tokens))) (\<lambda>_.
              sbind (sput (cache_device_tokens tokens)) (\<lambda>_. sret tokens))
          | Inl e \<Rightarrow>
              if e = DaPending \<or> e = DaRequest
              then sbind (sput (\<lambda>s. s\<lparr>dt_pending := Some session\<rparr>)) (\<lambda>_. slift (Inl
                (if e = DaPending then ''device_authorization_pending'' else desktop_error_code DkAuthorization)))
              else slift (Inl (desktop_error_code DkAuthorization)))))) (s\<lparr>dt_pending := None\<rparr>))"

section \<open>Nonces only grow\<close>

text \<open>What serde promises of the vault's encoding.\<close>

definition vault_law :: "'w keychain \<Rightarrow> bool" where
  "vault_law K \<longleftrightarrow> (\<forall>v encoded. kc_encode K v = Some encoded \<longrightarrow> kc_decode K encoded = Some v)"

text \<open>Nonces up to \<open>n\<close> are used up, for the cached vault and for the one in the keychain.\<close>

definition used_up :: "'w keychain \<Rightarrow> u64 \<Rightarrow> 'w vault_state \<Rightarrow> bool" where
  "used_up K n s \<longleftrightarrow> (\<forall>v. vs_value s = Some v \<longrightarrow> n \<le> va_controller_nonce v)
     \<and> (\<forall>v. decoded_vault K (vs_entry s) = Some v \<longrightarrow> n \<le> va_controller_nonce v)"

definition nonce_kept :: "'w keychain \<Rightarrow> 'w vault_state \<Rightarrow> 'w vault_state \<Rightarrow> bool" where
  "nonce_kept K s s' \<longleftrightarrow> (\<forall>n. used_up K n s \<longrightarrow> used_up K n s')"

interpretation nonce: step_relation "nonce_kept K"
  by unfold_locales (auto simp: nonce_kept_def)

lemma keeps_world: "keeps (nonce_kept K) (vault_world f)"
  by (auto simp: keeps_def vault_world_def nonce_kept_def used_up_def split: prod.splits)

lemma keeps_off: "keeps (nonce_kept K) vault_off"
  by (auto simp: keeps_def vault_off_def nonce_kept_def used_up_def)

lemma keeps_load: "keeps (nonce_kept K) (load_credential_vault K)"
proof -
  have "keeps (nonce_kept K) (sbind (sget (\<lambda>s. decoded_vault K (vs_entry s))) (\<lambda>decoded.
      case decoded of None \<Rightarrow> vault_off | Some v \<Rightarrow> sput (\<lambda>s. s\<lparr>vs_value := Some v\<rparr>)))"
    by (auto simp: keeps_def sbind_def sget_def sput_def vault_off_def nonce_kept_def used_up_def split: option.split)
  then have "keeps (nonce_kept K) (sbind (vault_world (kc_opens K)) (\<lambda>opened.
      if \<not> opened then vault_off
      else
      sbind (vault_world (kc_reads K)) (\<lambda>works.
      if \<not> works then vault_off
      else
      sbind (sget (\<lambda>s. decoded_vault K (vs_entry s))) (\<lambda>decoded.
      case decoded of None \<Rightarrow> vault_off | Some v \<Rightarrow> sput (\<lambda>s. s\<lparr>vs_value := Some v\<rparr>)))))"
    by (intro nonce.keeps_bind [OF keeps_world] nonce.keeps_if keeps_off)
  then show ?thesis unfolding keeps_def load_credential_vault_def by (simp add: nonce.R_refl)
qed

text \<open>Writing the cached vault.\<close>

lemma persist_cases:
  assumes "persist_credential_vault K s = (r, s')"
  obtains "vs_entry s' = vs_entry s" and "vs_value s' = vs_value s" and "r \<noteq> Inr ()"
  | v encoded where "vs_value s = Some v" and "kc_encode K v = Some encoded"
    and "vs_entry s' = Some encoded" and "vs_value s' = vs_value s"
  using assms unfolding persist_credential_vault_def
  by (fastforce simp: sbind_def vault_world_def vault_off_def write_entry_def Let_def
      split: option.splits prod.splits if_splits)

lemma decoded_encoded:
  assumes "vault_law K" and "kc_encode K v = Some encoded" and "decoded_vault K (Some encoded) = Some u"
  shows "u = v"
  using assms by (auto simp: vault_law_def decoded_vault_def split: if_splits)

lemma keeps_persist:
  assumes "vault_law K"
  shows "keeps (nonce_kept K) (persist_credential_vault K)"
proof (rule keepsI)
  fix s r s' assume "persist_credential_vault K s = (r, s')"
  then show "nonce_kept K s s'"
    by (cases rule: persist_cases) (auto simp: nonce_kept_def used_up_def dest: decoded_encoded [OF assms])
qed

lemma keeps_update:
  assumes "vault_law K" and "\<And>v. va_controller_nonce v \<le> va_controller_nonce (snd (operation v))"
  shows "keeps (nonce_kept K) (update_vault K operation)"
proof -
  have "keeps (nonce_kept K) (\<lambda>s. case vs_value s of None \<Rightarrow> (Inl DkCredential, s)
        | Some v \<Rightarrow> (case operation v of (r, v') \<Rightarrow> (r, s\<lparr>vs_value := Some v'\<rparr>)))"
    using order_trans [OF _ assms(2)]
    by (auto simp: keeps_def nonce_kept_def used_up_def split: option.splits prod.splits) (metis snd_conv)
  then show ?thesis unfolding update_vault_def
    by (intro nonce.keeps_intros keeps_load keeps_persist assms(1))
qed

lemma keeps_read: "keeps (nonce_kept K) (read_vault K operation)"
  unfolding read_vault_def by (intro nonce.keeps_intros keeps_load)

lemma next_nonce_Inr:
  assumes "vault_law K" and "used_up K n s" and "next_controller_nonce K s = (Inr m, s')"
  shows "n < m" and "used_up K m s'"
proof -
  from assms(3) obtain s1 v s3 where l: "load_credential_vault K s = (Inr (), s1)" and v: "vs_value s1 = Some v"
    and m: "u64_try (uint (va_controller_nonce v) + 1) = Some m"
    and p: "persist_credential_vault K (s1\<lparr>vs_value := Some (v\<lparr>va_controller_nonce := m\<rparr>)\<rparr>) = (Inr (), s')"
    unfolding next_controller_nonce_def next_persisted_nonce_def update_vault_def
    by (auto elim!: sbind_InrE simp: sret_def split: option.splits if_splits simp del: u64_try_eq_Some)
  have "used_up K n s1" using keepsD [OF keeps_load l] assms(2) by (simp add: nonce_kept_def)
  then have "n \<le> va_controller_nonce v" using v by (simp add: used_up_def)
  moreover have "uint m = uint (va_controller_nonce v) + 1"
    using m by (rule uint_u64_try)
  ultimately show "n < m" by (simp add: word_le_def word_less_def)
  from p show "used_up K m s'"
    by (cases rule: persist_cases) (auto simp: used_up_def dest: decoded_encoded [OF assms(1)])
qed

section \<open>Any use of the vault\<close>

datatype vault_use =
    UseNonce
  | UseRestart
  | UseTokens device_tokens
  | UseSecret string
  | UseNewSecret string
  | UseIdentity
  | UseEncryptionKey
  | UseWalletKey
  | UseSession

text \<open>A restart of the desktop forgets the cache; the keychain stays. The list is the nonces issued.\<close>

definition use_vault :: "'w desktop_env \<Rightarrow> vault_use \<Rightarrow> 'w vault_state \<Rightarrow> u64 list \<times> 'w vault_state" where
  "use_vault E u s =
     (let K = dk_K E; P = dk_P E in case u of
       UseNonce \<Rightarrow> (case next_controller_nonce K s of (Inr n, s') \<Rightarrow> ([n], s') | (Inl _, s') \<Rightarrow> ([], s'))
     | UseRestart \<Rightarrow> ([], s\<lparr>vs_value := None, vs_unavailable := False\<rparr>)
     | UseTokens t \<Rightarrow> ([], snd (store_tokens E t s))
     | UseSecret account \<Rightarrow> ([], snd (load_secret_32 P K account s))
     | UseNewSecret account \<Rightarrow> ([], snd (load_or_create_secret_32 P K account s))
     | UseIdentity \<Rightarrow> ([], snd (load_or_create_identity P K s))
     | UseEncryptionKey \<Rightarrow> ([], snd (load_or_create_encryption_key P K s))
     | UseWalletKey \<Rightarrow> ([], snd (load_or_create_wallet_key P K s))
     | UseSession \<Rightarrow> ([], snd (load_or_rotate_tokens E s)))"

fun use_vaults :: "'w desktop_env \<Rightarrow> vault_use list \<Rightarrow> 'w vault_state \<Rightarrow> u64 list \<times> 'w vault_state" where
  "use_vaults E [] s = ([], s)"
| "use_vaults E (u # us) s = (case use_vault E u s of (ns, t) \<Rightarrow> case use_vaults E us t of (ms, s') \<Rightarrow> (ns @ ms, s'))"

lemma keeps_call: "keeps (nonce_kept K) (vault_call f m)"
  by (auto simp: keeps_def vault_call_def nonce_kept_def used_up_def split: prod.splits)

lemma set_secret_nonce:
  "va_controller_nonce (snd (set_vault_secret_for_account account encoded v)) = va_controller_nonce v"
  by (simp add: set_vault_secret_for_account_def)

lemma keeps_store: "vault_law (dk_K E) \<Longrightarrow> keeps (nonce_kept (dk_K E)) (store_tokens E t)"
  unfolding store_tokens_def by (rule keeps_update) simp_all

lemma keeps_identity: "vault_law K \<Longrightarrow> keeps (nonce_kept K) (load_or_create_identity P K)"
  unfolding load_or_create_identity_def
  by (intro nonce.keeps_bind keeps_read) (auto intro!: nonce.keeps_intros keeps_world keeps_update split: option.split)

lemma keeps_secrets:
  assumes "vault_law K"
  shows "keeps (nonce_kept K) (load_secret_32 P K account)"
    and "keeps (nonce_kept K) (load_or_create_secret_32 P K account)"
    and "keeps (nonce_kept K) (load_or_create_encryption_key P K)"
  unfolding load_secret_32_def load_or_create_secret_32_def load_or_create_encryption_key_def
  by (auto intro!: nonce.keeps_intros keeps_read keeps_world keeps_update assms simp: set_secret_nonce split: option.split)

lemma keeps_generate: "vault_law K \<Longrightarrow> keeps (nonce_kept K) (generate_wallet_key P K n)"
  by (induction n) (auto intro!: nonce.keeps_intros keeps_world keeps_update)

lemma keeps_wallet: "vault_law K \<Longrightarrow> keeps (nonce_kept K) (load_or_create_wallet_key P K)"
  unfolding load_or_create_wallet_key_def
  by (auto intro!: nonce.keeps_intros keeps_read keeps_generate split: option.split)

lemma keeps_rotate:
  assumes "vault_law (dk_K E)"
  shows "keeps (nonce_kept (dk_K E)) (load_or_rotate_tokens E)"
  unfolding load_or_rotate_tokens_def load_password_def fresh_tokens_def rotate_stored_tokens_def
  by (intro nonce.keeps_bind keeps_try keeps_read)
    (auto intro!: nonce.keeps_intros keeps_world keeps_identity keeps_call keeps_store assms split: option.split)

lemma used_up_after: "keeps (nonce_kept K) x \<Longrightarrow> used_up K n s \<Longrightarrow> used_up K n (snd (x s))"
  by (auto simp: keeps_def nonce_kept_def)

lemma use_vault_nonces:
  assumes "vault_law (dk_K E)" and "used_up (dk_K E) n s" and "use_vault E u s = (ns, s')"
  shows "\<exists>m. n \<le> m \<and> used_up (dk_K E) m s' \<and> (ns = [] \<or> ns = [m] \<and> n < m)"
proof -
  show ?thesis
  proof (cases u)
    case UseNonce
    obtain r t where r: "next_controller_nonce (dk_K E) s = (r, t)" by fastforce
    have k: "keeps (nonce_kept (dk_K E)) (next_controller_nonce (dk_K E))"
      unfolding next_controller_nonce_def next_persisted_nonce_def if_not_P [of "_ \<noteq> _", simplified]
      by (auto intro!: keeps_update assms(1) nonce.keeps_lift split: option.split simp: word_le_def dest!: uint_u64_try simp del: u64_try_eq_Some)
    show ?thesis
    proof (cases r)
      case (Inl e)
      then have "ns = []" "s' = t" using assms(3) UseNonce r by (simp_all add: use_vault_def Let_def)
      then show ?thesis using used_up_after [OF k assms(2)] r by auto
    next
      case (Inr m)
      then have "ns = [m]" "s' = t" using assms(3) UseNonce r by (simp_all add: use_vault_def Let_def)
      then show ?thesis using next_nonce_Inr [OF assms(1,2)] r Inr by (auto intro: less_imp_le)
    qed
  next
    case UseRestart
    then have "ns = []" "s' = s\<lparr>vs_value := None, vs_unavailable := False\<rparr>" using assms(3) by (simp_all add: use_vault_def)
    then show ?thesis using assms(2) by (auto simp: used_up_def)
  qed (use assms(3) used_up_after [OF _ assms(2)] in
      \<open>auto simp: use_vault_def Let_def intro!: exI [of _ n] keeps_store keeps_secrets keeps_identity keeps_wallet keeps_rotate assms(1)\<close>)
qed

lemma use_vaults_nonces:
  assumes "vault_law (dk_K E)" and "used_up (dk_K E) n s" and "use_vaults E us s = (ns, s')"
  shows "sorted_wrt (<) (n # ns)"
  using assms(2,3)
proof (induction us arbitrary: n s ns)
  case (Cons u us)
  obtain ms t where t: "use_vault E u s = (ms, t)" by fastforce
  obtain ls where ls: "use_vaults E us t = (ls, s')" "ns = ms @ ls" using Cons.prems(2) t by (auto split: prod.splits)
  from use_vault_nonces [OF assms(1) Cons.prems(1) t] obtain m where m: "n \<le> m" "used_up (dk_K E) m t"
    "ms = [] \<or> ms = [m] \<and> n < m" by blast
  from Cons.IH [OF m(2) ls(1)] m ls(2) show ?case by auto
qed simp

text \<open>
  C36. The nonces of the desktop's remote commands never repeat: over any use of the vault, with restarts of
  the desktop and keychain calls that fail or half succeed, every nonce is larger than all before it,
  also those issued before the last restart.
\<close>

theorem controller_nonces_increase:
  assumes "vault_law (dk_K E)" and "vs_value s = None" and "use_vaults E us s = (ns, s')"
  shows "sorted_wrt (<) ns \<and> (\<forall>v n. decoded_vault (dk_K E) (vs_entry s) = Some v \<longrightarrow> n \<in> set ns \<longrightarrow> va_controller_nonce v < n)"
proof -
  have "sorted_wrt (<) (0 # ns)"
    using use_vaults_nonces [OF assms(1) _ assms(3), of 0] by (simp add: used_up_def)
  moreover have "va_controller_nonce v < n" if "decoded_vault (dk_K E) (vs_entry s) = Some v" and "n \<in> set ns" for v n
  proof -
    have "used_up (dk_K E) (va_controller_nonce v) s" using assms(2) that(1) by (simp add: used_up_def)
    from use_vaults_nonces [OF assms(1) this assms(3)] that(2) show ?thesis by simp
  qed
  ultimately show ?thesis by simp
qed

section \<open>A concrete keychain\<close>

definition nonce_vault :: "u64 \<Rightarrow> vault" where
  "nonce_vault n = default_vault\<lparr>va_version := 1, va_controller_nonce := n\<rparr>"

text \<open>The world counts the writes; the second one fails after it has reached the entry.\<close>

definition toy_keychain :: "nat keychain" where
  "toy_keychain = \<lparr>kc_encode = (\<lambda>v. if v = nonce_vault (va_controller_nonce v)
       then Some (to_be_bytes (va_controller_nonce v)) else None),
     kc_decode = (\<lambda>b. map_option nonce_vault (from_be_bytes b)), kc_opens = (\<lambda>w. (True, w)),
     kc_reads = (\<lambda>w. (True, w)), kc_writes = (\<lambda>w. ((w \<noteq> 1, True), w + 1)), kc_random = (\<lambda>w. ('''', w)),
     kc_wallet_ok = (\<lambda>k. True)\<rparr>"

definition toy_desktop_net :: "nat net" where
  "toy_desktop_net = \<lparr>ne_parse = (\<lambda>s. None), ne_join = (\<lambda>u p. None), ne_header = (\<lambda>v. True), ne_builds = True,
     ne_send = (\<lambda>q w. (Inl HttpTimeout, w))\<rparr>"

definition toy_desktop_env :: "nat desktop_env" where
  "toy_desktop_env = \<lparr>dk_P = toy_prims, dk_K = toy_keychain, dk_N = toy_desktop_net,
     dk_C = \<lparr>ad_start = (\<lambda>v. None), ad_tokens = (\<lambda>v. None)\<rparr>, dk_origin = None, dk_now = (\<lambda>w. (0, w)),
     dk_uuid = (\<lambda>s. None), dk_time_ok = (\<lambda>t. True)\<rparr>"

definition toy_vault_state :: "nat vault_state" where
  "toy_vault_state = \<lparr>vs_value = None, vs_unavailable = False, vs_entry = None,
     vs_wire = \<lparr>wi_sent = [], wi_world = 0\<rparr>\<rparr>"

lemma toy_vault_law: "vault_law (dk_K toy_desktop_env)"
  by (auto simp: vault_law_def toy_desktop_env_def toy_keychain_def split: if_splits)

lemma toy_nonces:
  "fst (use_vaults toy_desktop_env [UseNonce, UseNonce, UseNonce, UseRestart, UseNonce] toy_vault_state) = [1, 3]"
  by code_simp

theorem controller_nonces_increase_witness:
  "fst (use_vaults toy_desktop_env [UseNonce, UseNonce, UseNonce, UseRestart, UseNonce] toy_vault_state) = [1, 3]
     \<and> sorted_wrt (<) (fst (use_vaults toy_desktop_env [UseNonce, UseNonce, UseNonce, UseRestart, UseNonce] toy_vault_state))"
proof -
  have "vs_value toy_vault_state = None" by (simp add: toy_vault_state_def)
  from controller_nonces_increase [OF toy_vault_law this, of "[UseNonce, UseNonce, UseNonce, UseRestart, UseNonce]"]
  show ?thesis using toy_nonces by (metis prod.collapse)
qed

section \<open>Rotated tokens\<close>

definition vault_open :: "vault \<Rightarrow> 'w vault_state \<Rightarrow> bool" where
  "vault_open v s \<longleftrightarrow> vs_value s = Some v \<and> \<not> vs_unavailable s"

lemma open_load: "vault_open v s \<Longrightarrow> load_credential_vault K s = (Inr (), s)"
  by (simp add: vault_open_def load_credential_vault_def)

lemma open_read: "vault_open v s \<Longrightarrow> read_vault K operation s = (operation v, s)"
  by (auto simp: read_vault_def sbind_def open_load sget_def slift_def) (simp add: vault_open_def)

lemma vault_world_sent:
  assumes "vault_world f s = (r, s')"
  shows "wi_sent (vs_wire s') = wi_sent (vs_wire s)" and "vs_value s' = vs_value s" and "vs_unavailable s' = vs_unavailable s"
  using assms by (auto simp: vault_world_def split: prod.splits)

lemma load_Inr:
  assumes "load_credential_vault K s = (Inr (), s')"
  obtains v where "vault_open v s'" and "wi_sent (vs_wire s') = wi_sent (vs_wire s)"
proof (cases "vs_value s")
  case None
  with assms obtain s1 s2 where w: "vault_world (kc_opens K) s = (Inr True, s1)" "vault_world (kc_reads K) s1 = (Inr True, s2)"
    and d: "(case decoded_vault K (vs_entry s2) of None \<Rightarrow> vault_off | Some v \<Rightarrow> sput (\<lambda>s. s\<lparr>vs_value := Some v\<rparr>)) s2 = (Inr (), s')"
    and u: "\<not> vs_unavailable s"
    unfolding load_credential_vault_def
    by (auto elim!: sbind_InrE simp: sget_def vault_off_def split: if_splits)
  from d obtain v where v: "s' = s2\<lparr>vs_value := Some v\<rparr>"
    by (auto simp: vault_off_def sput_def split: option.splits)
  show thesis
    by (rule that [of v]) (use u v vault_world_sent [OF w(1)] vault_world_sent [OF w(2)] in \<open>simp_all add: vault_open_def\<close>)
next
  case (Some v)
  with assms have "vault_open v s" and "s' = s" by (auto simp: load_credential_vault_def vault_open_def split: if_splits)
  then show thesis using that by blast
qed

lemma read_Inr:
  assumes "read_vault K operation s = (Inr x, s')"
  obtains v where "vault_open v s'" and "operation v = Inr x" and "wi_sent (vs_wire s') = wi_sent (vs_wire s)"
proof -
  obtain r s1 where l: "load_credential_vault K s = (r, s1)" by fastforce
  from assms l have r: "r = Inr ()" and o: "rbind (ok_or (vs_value s1) DkCredential) operation = Inr x" and s1: "s' = s1"
    unfolding read_vault_def sbind_def sget_def slift_def by (cases r; simp)+
  from l [unfolded r] obtain v where v: "vault_open v s1" and w: "wi_sent (vs_wire s1) = wi_sent (vs_wire s)"
    by (rule load_Inr)
  from o v have "operation v = Inr x" by (simp add: vault_open_def)
  then show thesis by (rule that [OF v [folded s1] _ w [folded s1]])
qed

lemma update_Inr:
  assumes "vault_law K" and "update_vault K operation s = (Inr x, s')"
  obtains v where "vs_value s' = Some (snd (operation v))" and "kc_decode K (the (vs_entry s')) = Some (snd (operation v))"
    and "vs_entry s' \<noteq> None"
proof -
  from assms(2) obtain s1 s2 where m: "(case vs_value s1 of None \<Rightarrow> (Inl DkCredential, s1)
        | Some v \<Rightarrow> (case operation v of (r, v') \<Rightarrow> (r, s1\<lparr>vs_value := Some v'\<rparr>))) = (Inr x, s2)"
    and p: "persist_credential_vault K s2 = (Inr (), s')"
    unfolding update_vault_def by (auto elim!: sbind_InrE simp: sret_def)
  have "\<exists>v. vs_value s2 = Some (snd (operation v))"
    using m by (cases "vs_value s1") (auto split: prod.splits intro: exI [of _ "the (vs_value s1)"])
  then obtain v where v: "vs_value s2 = Some (snd (operation v))" ..
  from p show thesis
    by (cases rule: persist_cases) (use assms(1) v that [of v] in \<open>auto simp: vault_law_def\<close>)
qed

lemma fresh_tokens_kept:
  assumes "fresh_tokens E refresh a d e s = (Inr (Some t), s')"
  shows "dt_refresh_token t = refresh" and "vs_value s' = vs_value s" and "wi_sent (vs_wire s') = wi_sent (vs_wire s)"
  using assms unfolding fresh_tokens_def
  by (auto simp: sret_def stored_tokens_def elim!: sbind_InrE dest: vault_world_sent split: option.splits sum.splits if_splits)

lemma rotated_tokens_stored:
  assumes "rotate_stored_tokens E refresh s = (Inr t, s')"
  obtains s1 where "store_tokens E t s1 = (Inr (), s')"
  using assms unfolding rotate_stored_tokens_def
  by (auto elim!: sbind_InrE simp: slift_def sret_def split: if_splits)

lemma load_password_open:
  assumes "vault_open v s"
  obtains r where "load_password K account s = (r, s)"
  using open_read [OF assms] unfolding load_password_def by blast

lemma load_or_rotate_cases:
  assumes "load_or_rotate_tokens E s = (Inr t, s')"
  obtains (fresh) v refresh s1 a d e where "vault_open v s1" and "va_refresh_token v = Some refresh"
      and "wi_sent (vs_wire s1) = wi_sent (vs_wire s)" and "fresh_tokens E refresh a d e s1 = (Inr (Some t), s')"
    | (rotated) refresh s1 where "rotate_stored_tokens E refresh s1 = (Inr t, s')"
proof -
  let ?K = "dk_K E"
  from assms obtain refresh s1 where r: "load_password ?K REFRESH_TOKEN_ACCOUNT s = (Inr refresh, s1)"
    and rest: "sbind (stry (load_password ?K ACCESS_TOKEN_ACCOUNT)) (\<lambda>access.
     sbind (stry (load_password ?K DEVICE_ID_ACCOUNT)) (\<lambda>device.
     sbind (stry (load_password ?K ACCESS_EXPIRES_AT_ACCOUNT)) (\<lambda>expires.
     sbind (fresh_tokens E refresh access device expires) (\<lambda>fresh.
     case fresh of Some t \<Rightarrow> sret t | None \<Rightarrow> rotate_stored_tokens E refresh)))) s1 = (Inr t, s')"
    unfolding load_or_rotate_tokens_def by (rule sbind_InrE)
  from r obtain v where o: "vault_open v s1" and rv: "va_refresh_token v = Some refresh"
    and w1: "wi_sent (vs_wire s1) = wi_sent (vs_wire s)"
    unfolding load_password_def
    by (elim read_Inr) (simp add: REFRESH_TOKEN_ACCOUNT_def ACCESS_TOKEN_ACCOUNT_def ACCESS_EXPIRES_AT_ACCOUNT_def)
  obtain ra where a: "load_password ?K ACCESS_TOKEN_ACCOUNT s1 = (ra, s1)" using load_password_open [OF o] .
  obtain rd where d: "load_password ?K DEVICE_ID_ACCOUNT s1 = (rd, s1)" using load_password_open [OF o] .
  obtain re where e: "load_password ?K ACCESS_EXPIRES_AT_ACCOUNT s1 = (re, s1)" using load_password_open [OF o] .
  from rest obtain found s2 where f: "fresh_tokens E refresh ra rd re s1 = (Inr found, s2)"
    and g: "(case found of Some t \<Rightarrow> sret t | None \<Rightarrow> rotate_stored_tokens E refresh) s2 = (Inr t, s')"
    by (auto simp: sbind_def stry_def a d e split: prod.splits sum.splits)
  show thesis
  proof (cases found)
    case None
    then show thesis using rotated g by simp
  next
    case (Some t')
    then show thesis using fresh [OF o rv w1] f g by (simp add: sret_def)
  qed
qed

text \<open>
  A rotated token is not lost: whenever the desktop gets device tokens, from the vault or by rotating them
  at the server, the refresh token that goes with them is the one in the vault; and when it has asked
  the server, the keychain's entry holds the new tokens too.
\<close>

theorem rotated_tokens_are_kept:
  assumes "vault_law (dk_K E)" and "load_or_rotate_tokens E s = (Inr t, s')"
  shows "\<exists>v. vs_value s' = Some v \<and> va_refresh_token v = Some (dt_refresh_token t)
    \<and> (wi_sent (vs_wire s') = wi_sent (vs_wire s)
       \<or> va_access_token v = Some (dt_access_token t) \<and> (\<exists>encoded. vs_entry s' = Some encoded \<and> kc_decode (dk_K E) encoded = Some v))"
  using assms(2)
proof (cases rule: load_or_rotate_cases)
  case (fresh v refresh s1 a d e)
  then show ?thesis using fresh_tokens_kept [OF fresh(4)] by (simp add: vault_open_def)
next
  case (rotated refresh s1)
  then obtain s2 where "store_tokens E t s2 = (Inr (), s')" by (rule rotated_tokens_stored)
  then show ?thesis unfolding store_tokens_def by (elim update_Inr [OF assms(1)]) auto
qed

text \<open>A desktop whose stored access token expired: it rotates, and the keychain only knows the vaults before and after.\<close>

definition stale_vault :: vault where
  "stale_vault = default_vault\<lparr>va_version := 1, va_signing_seed := Some (replicate 32 (CHR ''s'')),
     va_refresh_token := Some ''crow_device_refresh_1''\<rparr>"

definition rotated_vault :: vault where
  "rotated_vault = stale_vault\<lparr>va_access_token := Some ''new'', va_access_expires_at := Some 900,
     va_refresh_token := Some ''crow_device_refresh_2'', va_device_id := Some ''uuid''\<rparr>"

definition rotated_tokens :: device_tokens where
  "rotated_tokens = \<lparr>dt_device_id = 3, dt_access_token = ''new'', dt_refresh_token = ''crow_device_refresh_2'',
     dt_access_expires_at = 900000000000\<rparr>"

definition toy_rotating :: "nat desktop_env" where
  "toy_rotating = toy_desktop_env\<lparr>
     dk_K := toy_keychain\<lparr>kc_encode := (\<lambda>v. if v = stale_vault then Some ''a'' else if v = rotated_vault then Some ''b'' else None),
       kc_decode := (\<lambda>b. if b = ''a'' then Some stale_vault else if b = ''b'' then Some rotated_vault else None)\<rparr>,
     dk_N := toy_desktop_net\<lparr>ne_parse := (\<lambda>s. Some \<lparr>ur_scheme = ''https'', ur_host = Some ''api.crowcompute.ai'',
         ur_opaque = False, ur_rest = []\<rparr>), ne_join := (\<lambda>u p. Some (u\<lparr>ur_rest := p\<rparr>)),
       ne_send := (\<lambda>q w. (Inr \<lparr>hp_status = 200, hp_body = Inr JNull\<rparr>, w))\<rparr>,
     dk_C := \<lparr>ad_start = (\<lambda>v. None), ad_tokens = (\<lambda>v. Some rotated_tokens)\<rparr>\<rparr>"

definition stale_state :: "nat vault_state" where
  "stale_state = toy_vault_state\<lparr>vs_entry := Some ''a''\<rparr>"

lemma toy_rotating_law: "vault_law (dk_K toy_rotating)"
  by (auto simp: vault_law_def toy_rotating_def toy_keychain_def split: if_splits)

lemma toy_rotates: "fst (load_or_rotate_tokens toy_rotating stale_state) = Inr rotated_tokens"
  by code_simp

theorem rotated_tokens_are_kept_witness:
  "\<exists>s' v. load_or_rotate_tokens toy_rotating stale_state = (Inr rotated_tokens, s') \<and> vs_value s' = Some v
     \<and> va_refresh_token v = Some ''crow_device_refresh_2''"
proof -
  obtain s' where s': "load_or_rotate_tokens toy_rotating stale_state = (Inr rotated_tokens, s')"
    using toy_rotates by (metis prod.collapse)
  show ?thesis using s' rotated_tokens_are_kept [OF toy_rotating_law s'] by (auto simp: rotated_tokens_def)
qed

end
