(* ===== verification/RunView.thy ===== *)
theory RunView
  imports Vault Gateway Venue "HOL-Library.List_Lexorder" "HOL-Library.Char_ord"
begin

text \<open>
  What the desktop shows of the local journal, \<open>apps/desktop/src-tauri/src/lib.rs\<close>: the summary of every
  run, the events of the selected run with their details stripped of private fields and bounded in
  size, and the schedules of arenas whose signed manifest is on disk. The only error, a time that does
  not format, is the journal error the command maps it to.
\<close>

section \<open>Details without private fields\<close>

definition PRIVATE_FRAGMENTS :: "string list" where
  "PRIVATE_FRAGMENTS = [''raw'', ''prompt'', ''transcript'', ''instruction'', ''strategy'', ''secret'', ''private'',
     ''credential'', ''authorization'', ''ciphertext'', ''signature'', ''hash'', ''receipt'', ''nonce'', ''address'',
     ''wallet'']"

definition PRIVATE_NAMES :: "string list" where
  "PRIVATE_NAMES = [''token'', ''access_token'', ''refresh_token'', ''api_key'', ''private_key'', ''oid'', ''cloid'',
     ''tid'', ''client_order_id'', ''event_id'', ''device_id'']"

definition private_journal_field :: "string \<Rightarrow> bool" where
  "private_journal_field key =
     (let key = map to_ascii_lower key in
      list_ex (contains_sub key) PRIVATE_FRAGMENTS \<or> List.member PRIVATE_NAMES key)"

text \<open>\<open>chars().take(n)\<close> of a string, which is valid UTF-8.\<close>

definition take_chars :: "nat \<Rightarrow> string \<Rightarrow> string" where
  "take_chars n s = utf8 (take n (scalars (map of_char s)))"

function bounded_public_value :: "json \<Rightarrow> nat \<Rightarrow> json" where
  "bounded_public_value v depth =
     (if 5 \<le> depth then JNull
      else case v of
        JNull \<Rightarrow> v | JBool _ \<Rightarrow> v | JInt _ \<Rightarrow> v | JFloat _ \<Rightarrow> v
      | JStr s \<Rightarrow> JStr (take_chars 256 s)
      | JArr vs \<Rightarrow> JArr (map (\<lambda>v. bounded_public_value v (depth + 1)) (take 50 vs))
      | JObj fs \<Rightarrow> JObj (map (\<lambda>(k, v). (k, bounded_public_value v (depth + 1)))
          (take 64 (filter (\<lambda>(k, _). \<not> private_journal_field k) fs))))"
  by pat_completeness auto
termination by (relation "measure (\<lambda>(_, depth). 5 - depth)") auto

declare bounded_public_value.simps [simp del]

definition PUBLIC_EVENT_TYPES :: "string list" where
  "PUBLIC_EVENT_TYPES = [''run_started'', ''run_paused'', ''run_resumed'', ''run_stopped'', ''handoff_snapshot'',
     ''cycle_started'', ''cycle_completed'', ''cycle_failed'', ''cycle_missed'', ''proposal'', ''policy_outcome'',
     ''order_submitted'', ''venue_acknowledgement'', ''fill'', ''funding'', ''reconciliation'', ''portfolio_snapshot'']"

definition sanitize_journal_payload :: "string \<Rightarrow> json \<Rightarrow> json" where
  "sanitize_journal_payload event_type payload =
     (if \<not> List.member PUBLIC_EVENT_TYPES event_type then JObj [] else bounded_public_value payload 0)"

section \<open>Summaries\<close>

record arena_schedule =
  sd_starts_at :: string
  sd_ends_at :: string
  sd_decision_interval_seconds :: u32

record run_summary =
  su_run_id :: string
  su_arena_id :: string
  su_state :: string
  su_started_at :: string
  su_latest_at :: string
  su_arena_starts_at :: "string option"
  su_arena_ends_at :: "string option"
  su_decision_interval_seconds :: "u32 option"
  su_isolated_leverage :: "u8 option"
  su_event_count :: u64
  su_cycle_count :: u64
  su_order_count :: u64
  su_fill_count :: u64
  su_all_receipted :: bool

record shown_event =
  sw_sequence :: u64
  sw_cycle_id :: "string option"
  sw_event_type :: string
  sw_occurred_at :: string
  sw_receipted :: bool
  sw_details :: json

record run_journal =
  rj_runs :: "run_summary list"
  rj_selected_run_id :: "string option"
  rj_events :: "shown_event list"

text \<open>\<open>as_u64\<close> of a field and its conversion to a narrower type.\<close>

definition payload_u32 :: "string \<Rightarrow> json \<Rightarrow> u32 option" where
  "payload_u32 key payload = (case json_get key payload of Some (JInt n) \<Rightarrow> u32_try n | _ \<Rightarrow> None)"

definition payload_u8 :: "string \<Rightarrow> json \<Rightarrow> u8 option" where
  "payload_u8 key payload = (case json_get key payload of Some (JInt n) \<Rightarrow> u8_try n | _ \<Rightarrow> None)"

definition payload_fills :: "json \<Rightarrow> nat" where
  "payload_fills payload = (case json_get ''fills'' payload of Some (JArr fills) \<Rightarrow> length fills | _ \<Rightarrow> 0)"

definition new_summary :: "prims \<Rightarrow> (uuid \<times> arena_schedule) list \<Rightarrow> run_event \<Rightarrow> string \<Rightarrow> run_summary" where
  "new_summary P schedules e occurred_at =
     (let schedule = map_of schedules (ev_arena_id e) in
      \<lparr>su_run_id = uuid_str P (ev_run_id e), su_arena_id = uuid_str P (ev_arena_id e), su_state = ''running'',
       su_started_at = occurred_at, su_latest_at = occurred_at, su_arena_starts_at = map_option sd_starts_at schedule,
       su_arena_ends_at = map_option sd_ends_at schedule,
       su_decision_interval_seconds = map_option sd_decision_interval_seconds schedule,
       su_isolated_leverage = None, su_event_count = 0, su_cycle_count = 0, su_order_count = 0, su_fill_count = 0,
       su_all_receipted = True\<rparr>)"

definition note_event :: "run_event \<Rightarrow> string \<Rightarrow> run_summary \<Rightarrow> run_summary" where
  "note_event e occurred_at s0 =
     (let s = s0\<lparr>su_event_count := su_event_count s0 + 1, su_latest_at := occurred_at,
        su_all_receipted := su_all_receipted s0 \<and> ev_server_receipt e \<noteq> None\<rparr>;
        ty = ev_event_type e; payload = ev_payload e;
        cooldown = payload_u32 ''decision_cooldown_seconds'' payload;
        leverage = payload_u8 ''isolated_leverage'' payload in
      if ty = ''run_started'' then
        s\<lparr>su_state := ''running'',
          su_decision_interval_seconds := (case cooldown of None \<Rightarrow> su_decision_interval_seconds s | Some n \<Rightarrow> Some n),
          su_isolated_leverage := leverage\<rparr>
      else if ty = ''run_resumed'' then s\<lparr>su_state := ''running''\<rparr>
      else if ty = ''run_paused'' then s\<lparr>su_state := ''paused''\<rparr>
      else if ty = ''run_stopped'' then s\<lparr>su_state := ''stopped''\<rparr>
      else if ty = ''run_settings_changed'' then
        s\<lparr>su_decision_interval_seconds := cooldown, su_isolated_leverage := leverage\<rparr>
      else if ty = ''cycle_started'' then s\<lparr>su_cycle_count := su_cycle_count s + 1\<rparr>
      else if ty = ''order_submitted'' then s\<lparr>su_order_count := su_order_count s + 1\<rparr>
      else if ty = ''fill'' then
        s\<lparr>su_fill_count := su_fill_count s
           + (case u64_try (int (payload_fills payload)) of None \<Rightarrow> - 1 | Some n \<Rightarrow> n)\<rparr>
      else s)"

definition note_run ::
    "prims \<Rightarrow> (uuid \<times> arena_schedule) list \<Rightarrow> run_summary list \<Rightarrow> run_event \<Rightarrow> desktop_error + run_summary list" where
  "note_run P schedules runs e =
     rbind (ok_or (rfc3339 P (ev_occurred_at e)) DkJournal) (\<lambda>occurred_at.
       let run_id = uuid_str P (ev_run_id e);
           runs = (if list_ex (\<lambda>s. su_run_id s = run_id) runs then runs
             else runs @ [new_summary P schedules e occurred_at]);
           index = length (takeWhile (\<lambda>s. su_run_id s \<noteq> run_id) runs) in
       Inr (runs[index := note_event e occurred_at (runs ! index)]))"

text \<open>A stable sort, the latest first.\<close>

definition sort_runs :: "run_summary list \<Rightarrow> run_summary list" where
  "sort_runs runs = rev (sort_key su_latest_at (rev runs))"

definition show_event :: "prims \<Rightarrow> run_event \<Rightarrow> desktop_error + shown_event" where
  "show_event P e =
     rbind (ok_or (rfc3339 P (ev_occurred_at e)) DkJournal) (\<lambda>occurred_at.
       Inr \<lparr>sw_sequence = ev_sequence e, sw_cycle_id = map_option (uuid_str P) (ev_cycle_id e),
         sw_event_type = ev_event_type e, sw_occurred_at = occurred_at, sw_receipted = (ev_server_receipt e \<noteq> None),
         sw_details = sanitize_journal_payload (ev_event_type e) (ev_payload e)\<rparr>)"

definition select_run :: "string option \<Rightarrow> run_summary list \<Rightarrow> string option" where
  "select_run requested runs =
     (case Option.bind requested (\<lambda>r. if list_ex (\<lambda>s. su_run_id s = r) runs then Some r else None) of
        Some r \<Rightarrow> Some r
      | None \<Rightarrow> (case runs of [] \<Rightarrow> None | s # _ \<Rightarrow> Some (su_run_id s)))"

definition build_local_run_journal ::
    "prims \<Rightarrow> run_event list \<Rightarrow> string option \<Rightarrow> (uuid \<times> arena_schedule) list \<Rightarrow> desktop_error + run_journal" where
  "build_local_run_journal P events requested schedules =
     rbind (rfold (note_run P schedules) [] events) (\<lambda>noted.
     let runs = sort_runs noted; selected = select_run requested runs in
     rbind (case selected of None \<Rightarrow> Inr []
       | Some r \<Rightarrow> rmap (show_event P) (filter (\<lambda>e. uuid_str P (ev_run_id e) = r) events)) (\<lambda>shown.
       Inr \<lparr>rj_runs = runs, rj_selected_run_id = selected, rj_events = shown\<rparr>))"

section \<open>The command\<close>

record manifest_codec =
  mc_file :: "string \<Rightarrow> signed_manifest option"
  mc_enc :: "arena_manifest \<Rightarrow> json option"
  mc_dec :: "json \<Rightarrow> arena_manifest option"

definition verified_local_arena_schedule ::
    "prims \<Rightarrow> manifest_codec \<Rightarrow> string \<Rightarrow> uuid \<Rightarrow> arena_schedule option" where
  "verified_local_arena_schedule P M bytes expected_arena_id =
     (case mc_file M bytes of None \<Rightarrow> None
      | Some s \<Rightarrow>
          if \<not> is_ok (verify_manifest P (mc_enc M) (mc_dec M) s) then None
          else if am_arena_id (sm_manifest s) \<noteq> expected_arena_id then None
          else Option.bind (rfc3339 P (am_starts_at (sm_manifest s))) (\<lambda>starts_at.
            Option.bind (rfc3339 P (am_ends_at (sm_manifest s))) (\<lambda>ends_at.
              Some \<lparr>sd_starts_at = starts_at, sd_ends_at = ends_at,
                sd_decision_interval_seconds = am_decision_interval_seconds (sm_manifest s)\<rparr>)))"

text \<open>The arenas of the events with a readable manifest file; the order of the map's keys does not show.\<close>

definition load_local_arena_schedules ::
    "prims \<Rightarrow> manifest_codec \<Rightarrow> (uuid \<Rightarrow> string option) \<Rightarrow> run_event list \<Rightarrow> (uuid \<times> arena_schedule) list" where
  "load_local_arena_schedules P M files events =
     List.map_filter (\<lambda>arena. Option.bind (files arena) (\<lambda>bytes.
         map_option (Pair arena) (verified_local_arena_schedule P M bytes arena)))
       (remdups (map ev_arena_id events))"

text \<open>The journal file is missing, or opens with the key or not.\<close>

definition get_local_run_journal ::
    "'w desktop_env \<Rightarrow> manifest_codec \<Rightarrow> (string \<Rightarrow> journal_error + journal) option \<Rightarrow> (uuid \<Rightarrow> string option)
      \<Rightarrow> string option \<Rightarrow> ('w, run_journal) desktop_step" where
  "get_local_run_journal E M file arena_files run_id s =
     (if \<not> device_authorized s then (Inl DkNoAuthorization, s)
      else case file of
        None \<Rightarrow> (Inr \<lparr>rj_runs = [], rj_selected_run_id = None, rj_events = []\<rparr>, s)
      | Some opens \<Rightarrow>
          sbind (serr (\<lambda>_. DkJournal) (on_vault (load_secret_32 (dk_P E) (dk_K E) JOURNAL_KEY_ACCOUNT))) (\<lambda>key.
          slift (rbind (map_err (\<lambda>_. DkJournal) (opens key)) (\<lambda>journal.
            rbind (map_err (\<lambda>_. DkJournal) (public_events (dk_P E) journal)) (\<lambda>events.
              build_local_run_journal (dk_P E) events run_id
                (load_local_arena_schedules (dk_P E) M arena_files events))))) s)"

section \<open>Shown details are public and bounded\<close>

fun public_value :: "nat \<Rightarrow> json \<Rightarrow> bool" where
  "public_value 0 v = (v = JNull)"
| "public_value (Suc d) v = (case v of
       JStr s \<Rightarrow> \<exists>t. length t \<le> 256 \<and> s = utf8 t
     | JArr vs \<Rightarrow> length vs \<le> 50 \<and> list_all (public_value d) vs
     | JObj fs \<Rightarrow> length fs \<le> 64 \<and> list_all (\<lambda>(k, v). \<not> private_journal_field k \<and> public_value d v) fs
     | _ \<Rightarrow> True)"

lemma bounded_is_public: "depth + d = 5 \<Longrightarrow> public_value d (bounded_public_value v depth)"
proof (induction d arbitrary: v depth)
  case 0
  then show ?case by (simp add: bounded_public_value.simps)
next
  case (Suc d)
  have IH: "public_value d (bounded_public_value v (Suc depth))" for v using Suc by simp
  have "\<not> 5 \<le> depth" using Suc.prems by simp
  then show ?case
    using IH
    by (subst bounded_public_value.simps)
      (auto simp: take_chars_def list_all_iff split: json.split dest!: in_set_takeD intro!: exI [of _ "take 256 _"])
qed

lemma sanitized_is_public: "public_value 5 (sanitize_journal_payload ty payload)"
  using bounded_is_public [of 0 5 payload]
  by (simp add: sanitize_journal_payload_def eval_nat_numeral)

text \<open>A value within the bounds and without private fields is shown as it is.\<close>

fun whole_value :: "nat \<Rightarrow> json \<Rightarrow> bool" where
  "whole_value 0 v = (v = JNull)"
| "whole_value (Suc d) v = (case v of
       JStr s \<Rightarrow> \<exists>t. length t \<le> 256 \<and> list_all (\<lambda>n. n < 1114112) t \<and> s = utf8 t
     | JArr vs \<Rightarrow> length vs \<le> 50 \<and> list_all (whole_value d) vs
     | JObj fs \<Rightarrow> length fs \<le> 64 \<and> list_all (\<lambda>(k, v). \<not> private_journal_field k \<and> whole_value d v) fs
     | _ \<Rightarrow> True)"

lemma whole_is_shown: "whole_value d v \<Longrightarrow> depth + d = 5 \<Longrightarrow> bounded_public_value v depth = v"
proof (induction d arbitrary: v depth)
  case 0
  then show ?case by (simp add: bounded_public_value.simps)
next
  case (Suc d)
  have IH: "whole_value d v \<Longrightarrow> bounded_public_value v (Suc depth) = v" for v using Suc by simp
  have depth: "\<not> 5 \<le> depth" using Suc.prems by simp
  show ?case
  proof (cases v)
    case (JStr s)
    with Suc.prems depth show ?thesis
      by (subst bounded_public_value.simps) (auto simp: take_chars_def scalars_utf8)
  next
    case (JArr vs)
    with Suc.prems depth IH show ?thesis
      by (subst bounded_public_value.simps) (auto simp: list_all_iff intro: map_idI)
  next
    case (JObj fs)
    have "filter (\<lambda>(k, _). \<not> private_journal_field k) fs = fs"
      using Suc.prems JObj by (intro filter_True) (auto simp: list_all_iff)
    moreover have "map (\<lambda>(k, v). (k, bounded_public_value v (Suc depth))) fs = fs"
      using Suc.prems JObj IH by (intro map_idI) (auto simp: list_all_iff)
    ultimately show ?thesis
      using Suc.prems JObj depth by (subst bounded_public_value.simps) simp
  qed (use depth in \<open>subst bounded_public_value.simps, simp\<close>)+
qed

text \<open>
  How an event must be shown: its own fields; of an event type that is not public no details, of a
  public type details within the bounds, and the payload itself when it is already within them.
\<close>

definition shown_as :: "prims \<Rightarrow> run_event \<Rightarrow> shown_event \<Rightarrow> bool" where
  "shown_as P e w \<longleftrightarrow> sw_sequence w = ev_sequence e \<and> sw_cycle_id w = map_option (uuid_str P) (ev_cycle_id e)
     \<and> sw_event_type w = ev_event_type e \<and> rfc3339 P (ev_occurred_at e) = Some (sw_occurred_at w)
     \<and> (sw_receipted w \<longleftrightarrow> ev_server_receipt e \<noteq> None)
     \<and> (if List.member PUBLIC_EVENT_TYPES (ev_event_type e)
        then public_value 5 (sw_details w) \<and> (whole_value 5 (ev_payload e) \<longrightarrow> sw_details w = ev_payload e)
        else sw_details w = JObj [])"

section \<open>Summaries are per run\<close>

abbreviation of_run :: "prims \<Rightarrow> string \<Rightarrow> run_event list \<Rightarrow> run_event list" where
  "of_run P r es \<equiv> filter (\<lambda>e. uuid_str P (ev_run_id e) = r) es"

text \<open>The summary of one run on its own: its first event makes it, every event is noted.\<close>

definition run_alone :: "prims \<Rightarrow> (uuid \<times> arena_schedule) list \<Rightarrow> run_event list \<Rightarrow> run_summary" where
  "run_alone P schedules es =
     fold (\<lambda>e. note_event e (the (rfc3339 P (ev_occurred_at e)))) es
       (new_summary P schedules (hd es) (the (rfc3339 P (ev_occurred_at (hd es)))))"

lemma note_event_id [simp]: "su_run_id (note_event e t s) = su_run_id s"
  by (simp add: note_event_def Let_def)

lemma run_alone_id: "es \<noteq> [] \<Longrightarrow> su_run_id (run_alone P schedules es) = uuid_str P (ev_run_id (hd es))"
proof -
  have "su_run_id (fold (\<lambda>e. note_event e (f e)) es s) = su_run_id s" for f es s
    by (induction es arbitrary: s) auto
  then show ?thesis by (simp add: run_alone_def new_summary_def Let_def)
qed

definition runs_of :: "prims \<Rightarrow> run_event list \<Rightarrow> string list" where
  "runs_of P es = rev (remdups (rev (map (\<lambda>e. uuid_str P (ev_run_id e)) es)))"

lemma runs_of_snoc:
  "runs_of P (es @ [e]) = (if uuid_str P (ev_run_id e) \<in> set (runs_of P es)
     then runs_of P es else runs_of P es @ [uuid_str P (ev_run_id e)])"
  by (simp add: runs_of_def)

lemma runs_of_facts: "distinct (runs_of P es)" "set (runs_of P es) = (\<lambda>e. uuid_str P (ev_run_id e)) ` set es"
  by (simp_all add: runs_of_def)

lemma update_first:
  assumes "distinct rs" and "r \<in> set rs" and "\<And>x. x \<in> set rs \<Longrightarrow> su_run_id (f x) = x"
  shows "(map f rs)[length (takeWhile (\<lambda>s. su_run_id s \<noteq> r) (map f rs)) :=
      g (map f rs ! length (takeWhile (\<lambda>s. su_run_id s \<noteq> r) (map f rs)))]
    = map (\<lambda>x. if x = r then g (f x) else f x) rs"
  using assms by (induction rs) auto

lemma run_alone_snoc:
  assumes "rfc3339 P (ev_occurred_at e) = Some t"
  shows "run_alone P schedules (es @ [e]) = note_event e t (if es = [] then new_summary P schedules e t else run_alone P schedules es)"
  using assms by (simp add: run_alone_def)

lemma note_run_Inr:
  assumes "note_run P schedules (map (\<lambda>r. run_alone P schedules (of_run P r es)) (runs_of P es)) e = Inr runs"
  shows "runs = map (\<lambda>r. run_alone P schedules (of_run P r (es @ [e]))) (runs_of P (es @ [e]))"
proof -
  let ?r = "uuid_str P (ev_run_id e)" and ?f = "\<lambda>r. run_alone P schedules (of_run P r es)"
  from assms obtain t where t: "rfc3339 P (ev_occurred_at e) = Some t"
    by (auto simp: note_run_def)
  define f where "f r = (if of_run P r es = [] then new_summary P schedules e t else ?f r)" for r
  define rs where "rs = runs_of P (es @ [e])"
  have id: "su_run_id (f x) = x" if "x \<in> set rs" for x
  proof (cases "of_run P x es")
    case Nil
    then have "x = ?r" using that by (auto simp: rs_def runs_of_facts filter_empty_conv)
    then show ?thesis using Nil by (simp add: f_def new_summary_def Let_def)
  next
    case (Cons a as)
    then have "uuid_str P (ev_run_id a) = x" by (auto simp: filter_eq_Cons_iff)
    then show ?thesis using Cons run_alone_id [of "of_run P x es" P schedules] by (simp add: f_def)
  qed
  have old: "map f (runs_of P es) = map ?f (runs_of P es)"
    by (auto simp: f_def runs_of_facts filter_empty_conv)
  have new: "f ?r = new_summary P schedules e t" if "?r \<notin> set (runs_of P es)"
  proof -
    have "of_run P ?r es = []" using that unfolding runs_of_facts filter_empty_conv by (metis imageI)
    then show ?thesis by (simp add: f_def)
  qed
  have mem: "list_ex (\<lambda>s. su_run_id s = ?r) (map ?f (runs_of P es)) \<longleftrightarrow> ?r \<in> set (runs_of P es)"
    using id by (auto simp: list_ex_iff rs_def runs_of_snoc old [symmetric] split: if_splits)
  have "(if list_ex (\<lambda>s. su_run_id s = ?r) (map ?f (runs_of P es)) then map ?f (runs_of P es)
      else map ?f (runs_of P es) @ [new_summary P schedules e t]) = map f rs"
    by (simp add: mem rs_def runs_of_snoc old new)
  with assms t have "runs = (map f rs)[length (takeWhile (\<lambda>s. su_run_id s \<noteq> ?r) (map f rs)) :=
      note_event e t (map f rs ! length (takeWhile (\<lambda>s. su_run_id s \<noteq> ?r) (map f rs)))]"
    by (simp add: note_run_def Let_def)
  also have "\<dots> = map (\<lambda>x. if x = ?r then note_event e t (f x) else f x) rs"
    by (rule update_first) (auto simp: rs_def runs_of_facts intro: id [unfolded rs_def])
  also have "\<dots> = map (\<lambda>r. run_alone P schedules (of_run P r (es @ [e]))) rs"
    by (auto simp: run_alone_snoc [OF t] f_def rs_def runs_of_facts filter_empty_conv)
  finally show ?thesis by (simp add: rs_def)
qed

lemma noted_runs:
  "rfold (note_run P schedules) [] es = Inr runs \<Longrightarrow>
    runs = map (\<lambda>r. run_alone P schedules (of_run P r es)) (runs_of P es)"
proof (induction es arbitrary: runs rule: rev_induct)
  case Nil
  then show ?case by (simp add: runs_of_def)
next
  case (snoc e es)
  from snoc.prems obtain noted where "rfold (note_run P schedules) [] es = Inr noted"
    and "note_run P schedules noted e = Inr runs" by (auto simp: rfold_append)
  with snoc.IH show ?case using note_run_Inr by blast
qed

lemma run_alone_run:
  assumes "r \<in> (\<lambda>e. uuid_str P (ev_run_id e)) ` set es"
  shows "su_run_id (run_alone P schedules (of_run P r es)) = r"
proof -
  have ne: "of_run P r es \<noteq> []" using assms by (auto simp: filter_empty_conv)
  then have "hd (of_run P r es) \<in> set (of_run P r es)" by (rule hd_in_set)
  then show ?thesis using run_alone_id [OF ne] by simp
qed

lemma note_event_counts:
  "su_event_count (note_event e t s) = su_event_count s + 1"
  "su_cycle_count (note_event e t s) = su_cycle_count s + (if ev_event_type e = ''cycle_started'' then 1 else 0)"
  "su_order_count (note_event e t s) = su_order_count s + (if ev_event_type e = ''order_submitted'' then 1 else 0)"
  "su_all_receipted (note_event e t s) \<longleftrightarrow> su_all_receipted s \<and> ev_server_receipt e \<noteq> None"
  by (simp_all add: note_event_def Let_def)

lemma fold_note_counts:
  "su_event_count (fold (\<lambda>e. note_event e (f e)) es s) = su_event_count s + of_nat (length es)"
  "su_cycle_count (fold (\<lambda>e. note_event e (f e)) es s)
     = su_cycle_count s + of_nat (length (filter (\<lambda>e. ev_event_type e = ''cycle_started'') es))"
  "su_order_count (fold (\<lambda>e. note_event e (f e)) es s)
     = su_order_count s + of_nat (length (filter (\<lambda>e. ev_event_type e = ''order_submitted'') es))"
  "su_all_receipted (fold (\<lambda>e. note_event e (f e)) es s)
     \<longleftrightarrow> su_all_receipted s \<and> list_all (\<lambda>e. ev_server_receipt e \<noteq> None) es"
  by (induction es arbitrary: s) (simp_all add: note_event_counts)

lemma run_alone_counts:
  "su_event_count (run_alone P schedules es) = of_nat (length es)"
  "su_cycle_count (run_alone P schedules es) = of_nat (length (filter (\<lambda>e. ev_event_type e = ''cycle_started'') es))"
  "su_order_count (run_alone P schedules es) = of_nat (length (filter (\<lambda>e. ev_event_type e = ''order_submitted'') es))"
  "su_all_receipted (run_alone P schedules es) \<longleftrightarrow> list_all (\<lambda>e. ev_server_receipt e \<noteq> None) es"
  unfolding run_alone_def fold_note_counts by (simp_all add: new_summary_def Let_def)

lemma sort_runs_facts: "mset (sort_runs runs) = mset runs"
  "sorted_wrt (\<lambda>a b. su_latest_at b \<le> su_latest_at a) (sort_runs runs)"
  using sorted_sort_key [of su_latest_at "rev runs"]
  by (simp_all add: sort_runs_def sorted_wrt_rev sorted_map)

lemma show_event_shown: "show_event P e = Inr w \<Longrightarrow> shown_as P e w"
  using sanitized_is_public [of "ev_event_type e" "ev_payload e"] whole_is_shown [of 5 "ev_payload e" 0]
  by (auto simp: show_event_def shown_as_def sanitize_journal_payload_def ok_or_def split: option.splits)

lemma rmap_shown: "rmap (show_event P) xs = Inr ws \<Longrightarrow> list_all2 (shown_as P) xs ws"
  by (induction xs arbitrary: ws) (auto intro: show_event_shown)

lemma built_journal:
  assumes "build_local_run_journal P es requested schedules = Inr J"
  shows "rj_runs J = sort_runs (map (\<lambda>r. run_alone P schedules (of_run P r es)) (runs_of P es))"
    and "rj_selected_run_id J = select_run requested (rj_runs J)"
    and "(case rj_selected_run_id J of None \<Rightarrow> Inr [] | Some r \<Rightarrow> rmap (show_event P) (of_run P r es)) = Inr (rj_events J)"
  using assms by (auto simp: build_local_run_journal_def Let_def dest!: noted_runs)

text \<open>
  C37. The desktop's summaries agree with the journal: it shows every run of the journal exactly once, the
  latest first, and the summary of a run is the one its own events give, whatever the events of other
  runs between them; in particular it counts the run's events, cycles and orders and says whether
  all of them have receipts.
\<close>

theorem summaries_agree_with_journal:
  assumes "build_local_run_journal P es requested schedules = Inr J"
  shows "mset (rj_runs J) = mset (map (\<lambda>r. run_alone P schedules (of_run P r es)) (runs_of P es))
    \<and> sorted_wrt (\<lambda>a b. su_latest_at b \<le> su_latest_at a) (rj_runs J)
    \<and> distinct (map su_run_id (rj_runs J)) \<and> set (map su_run_id (rj_runs J)) = (\<lambda>e. uuid_str P (ev_run_id e)) ` set es
    \<and> (\<forall>s \<in> set (rj_runs J). let mine = of_run P (su_run_id s) es in
        s = run_alone P schedules mine
        \<and> su_event_count s = of_nat (length mine)
        \<and> su_cycle_count s = of_nat (length (filter (\<lambda>e. ev_event_type e = ''cycle_started'') mine))
        \<and> su_order_count s = of_nat (length (filter (\<lambda>e. ev_event_type e = ''order_submitted'') mine))
        \<and> (su_all_receipted s \<longleftrightarrow> list_all (\<lambda>e. ev_server_receipt e \<noteq> None) mine))"
proof -
  let ?alone = "\<lambda>r. run_alone P schedules (of_run P r es)"
  note J = built_journal(1) [OF assms]
  have m: "mset (rj_runs J) = mset (map ?alone (runs_of P es))" by (simp add: J sort_runs_facts)
  have id: "su_run_id (?alone r) = r" if "r \<in> set (runs_of P es)" for r
    by (rule run_alone_run) (use that in \<open>simp add: runs_of_facts\<close>)
  have "map su_run_id (map ?alone (runs_of P es)) = runs_of P es"
    by (simp add: map_idI id)
  then have ids: "mset (map su_run_id (rj_runs J)) = mset (runs_of P es)"
    by (metis m mset_map)
  have s: "s = ?alone (su_run_id s)" if "s \<in> set (rj_runs J)" for s
  proof -
    have "s \<in> set (map ?alone (runs_of P es))" using that m by (metis set_mset_mset)
    then show ?thesis using id by auto
  qed
  have d: "distinct (map su_run_id (rj_runs J))"
    using mset_eq_imp_distinct_iff [OF ids] runs_of_facts(1) by simp
  have i: "set (map su_run_id (rj_runs J)) = (\<lambda>e. uuid_str P (ev_run_id e)) ` set es"
    using mset_eq_setD [OF ids] runs_of_facts(2) by simp
  have c: "let mine = of_run P (su_run_id s) es in
        s = run_alone P schedules mine
        \<and> su_event_count s = of_nat (length mine)
        \<and> su_cycle_count s = of_nat (length (filter (\<lambda>e. ev_event_type e = ''cycle_started'') mine))
        \<and> su_order_count s = of_nat (length (filter (\<lambda>e. ev_event_type e = ''order_submitted'') mine))
        \<and> (su_all_receipted s \<longleftrightarrow> list_all (\<lambda>e. ev_server_receipt e \<noteq> None) mine)"
    if "s \<in> set (rj_runs J)" for s
    using s [OF that] run_alone_counts [of P schedules "of_run P (su_run_id s) es"] by (simp only: Let_def)
  show ?thesis
    using m d i c sort_runs_facts(2) by (simp only: J) blast
qed

text \<open>
  C38. What the desktop shows of a run is complete, in order and public: it shows the run that was asked for when
  the journal has it, and exactly its events in their order, each with its own sequence, type, time and
  receipt mark. An event whose type is not on the public list shows no details at all. The details of the
  others have, at any depth, no private field, no more than 64 fields, 50 elements or 256 characters,
  and no more than five levels; a payload that already keeps these bounds is shown as it is.
\<close>

theorem shown_events_are_public:
  assumes "build_local_run_journal P es requested schedules = Inr J"
  shows "(\<forall>r e. requested = Some r \<longrightarrow> e \<in> set es \<longrightarrow> uuid_str P (ev_run_id e) = r \<longrightarrow> rj_selected_run_id J = Some r)
    \<and> list_all2 (shown_as P) (case rj_selected_run_id J of None \<Rightarrow> [] | Some r \<Rightarrow> of_run P r es) (rj_events J)
    \<and> list_all (\<lambda>w. public_value 5 (sw_details w)) (rj_events J)"
proof -
  note runs = built_journal(1) [OF assms] and sel = built_journal(2) [OF assms] and shown = built_journal(3) [OF assms]
  have "list_ex (\<lambda>s. su_run_id s = uuid_str P (ev_run_id e)) (rj_runs J)" if "e \<in> set es" for e
  proof -
    have "uuid_str P (ev_run_id e) \<in> set (runs_of P es)" using that by (simp add: runs_of_facts)
    moreover have "set (rj_runs J) = set (map (\<lambda>r. run_alone P schedules (of_run P r es)) (runs_of P es))"
      unfolding runs by (metis set_mset_mset sort_runs_facts(1))
    ultimately show ?thesis using run_alone_run [of _ P es] by (force simp: list_ex_iff runs_of_facts)
  qed
  then have "\<forall>r e. requested = Some r \<longrightarrow> e \<in> set es \<longrightarrow> uuid_str P (ev_run_id e) = r \<longrightarrow> rj_selected_run_id J = Some r"
    by (auto simp: sel select_run_def)
  moreover have all: "list_all2 (shown_as P) (case rj_selected_run_id J of None \<Rightarrow> [] | Some r \<Rightarrow> of_run P r es) (rj_events J)"
    using shown rmap_shown by (cases "rj_selected_run_id J") auto
  moreover have "public_value 5 (sw_details w)" if "shown_as P e w" for e w
    using that by (auto simp: shown_as_def eval_nat_numeral split: if_splits)
  with all have "list_all (\<lambda>w. public_value 5 (sw_details w)) (rj_events J)"
    by (auto simp: list_all2_conv_all_nth list_all_length)
  ultimately show ?thesis by blast
qed

section \<open>A concrete journal\<close>

definition view_prims :: prims where
  "view_prims = toy_prims\<lparr>uuid_str := (\<lambda>u. if u = 2 then ''a'' else ''b'')\<rparr>"

definition view_event :: "uuid \<Rightarrow> u64 \<Rightarrow> string \<Rightarrow> json \<Rightarrow> run_event" where
  "view_event run n ty payload = toy_event\<lparr>ev_run_id := run, ev_sequence := n, ev_event_type := ty, ev_payload := payload\<rparr>"

definition view_events :: "run_event list" where
  "view_events = [view_event 2 1 ''run_started'' (JObj [(''isolated_leverage'', JInt 3)]), view_event 3 1 ''run_started'' JNull,
     view_event 2 2 ''fill'' (JObj [(''fills'', JArr [JObj [(''coin'', JStr ''BTC''), (''oid'', JInt 42)]]),
       (''Wallet_x'', JStr ''0x1'')])]"

definition shown_fill :: json where
  "shown_fill = JObj [(''fills'', JArr [JObj [(''coin'', JStr ''BTC'')]])]"

lemma view_built:
  "\<exists>J. build_local_run_journal view_prims view_events (Some ''a'') [] = Inr J \<and> map su_run_id (rj_runs J) = [''a'', ''b'']
     \<and> map sw_details (rj_events J) = [JObj [(''isolated_leverage'', JInt 3)], shown_fill]"
proof -
  have "(case build_local_run_journal view_prims view_events (Some ''a'') [] of Inl _ \<Rightarrow> False
    | Inr J \<Rightarrow> map su_run_id (rj_runs J) = [''a'', ''b'']
        \<and> map sw_details (rj_events J) = [JObj [(''isolated_leverage'', JInt 3)], shown_fill])"
    by code_simp
  then show ?thesis by (auto split: sum.splits)
qed

theorem summaries_agree_with_journal_witness:
  "\<exists>J. build_local_run_journal view_prims view_events (Some ''a'') [] = Inr J
     \<and> map su_run_id (rj_runs J) = [''a'', ''b'']
     \<and> set (map su_run_id (rj_runs J)) = (\<lambda>e. uuid_str view_prims (ev_run_id e)) ` set view_events"
  using view_built summaries_agree_with_journal by metis

theorem shown_events_are_public_witness:
  "\<exists>J. build_local_run_journal view_prims view_events (Some ''a'') [] = Inr J
     \<and> map sw_details (rj_events J) = [JObj [(''isolated_leverage'', JInt 3)], shown_fill]
     \<and> list_all (\<lambda>w. public_value 5 (sw_details w)) (rj_events J)"
  using view_built shown_events_are_public by metis

end

