(* ===== verification/Shell.thy ===== *)
theory Shell
  imports RunView Schedule
begin

text \<open>
  The commands of the desktop shell, \<open>apps/desktop/src-tauri/src/lib.rs\<close>: its calls of the device API, the
  companion process with the requests it is sent, and the Tauri commands. Processes, the local
  socket, files, the browser and serde's forms are the record \<open>shell_env\<close>. The request and
  transition locks make the modelled calls run one after the other. A command's error is the
  code of its \<open>desktop_error\<close>, except where it passes on a message of the daemon.
\<close>

section \<open>Environment and state\<close>

record remote_device =
  rd_id :: string
  rd_device_label :: string
  rd_platform :: string
  rd_state :: string
  rd_last_seen_at :: "string option"
  rd_encryption_public_key :: string

record remote_run =
  rn_id :: string
  rn_arena_id :: string
  rn_device_id :: string
  rn_agent_version_id :: string
  rn_status :: string
  rn_client_release :: string
  rn_started_at :: "string option"

record public_arena =
  pn_id :: string
  pn_mode :: string
  pn_manifest :: json
  pn_state :: string
  pn_starts_at :: string
  pn_ends_at :: string
  pn_tickets_enabled :: bool
  pn_manifest_sha256 :: string
  pn_signer_public_key :: string
  pn_signature :: string

record shell_codec =
  sc_devices :: "json \<Rightarrow> remote_device list option"
  sc_runs :: "json \<Rightarrow> remote_run list option"
  sc_arenas :: "json \<Rightarrow> public_arena list option"
  sc_versions :: "json \<Rightarrow> version_envelope list option"
  sc_envelope :: "version_envelope \<Rightarrow> json option"
  sc_enc_bundle :: "strategy_bundle \<Rightarrow> json option"
  sc_dec_bundle :: "string \<Rightarrow> strategy_bundle option"
  sc_enc_manifest :: "arena_manifest \<Rightarrow> json option"
  sc_dec_manifest :: "json \<Rightarrow> arena_manifest option"
  sc_signed :: "signed_manifest \<Rightarrow> string option"
  sc_request :: "companion_request \<Rightarrow> string option"
  sc_response :: "string \<Rightarrow> companion_response option"

text \<open>A sidecar cannot be started, dies while its credentials are written, or runs.\<close>

datatype spawn_outcome = SpawnFailed | NotWritten nat | Spawned nat

record 'w shell_env =
  se_D :: "'w desktop_env"
  se_A :: aead_prims
  se_C :: shell_codec
  se_uuid :: "'w \<Rightarrow> uuid \<times> 'w"
  se_ipc :: "string \<Rightarrow> string \<Rightarrow> 'w \<Rightarrow> string option \<times> 'w"
  se_spawn :: "string list \<Rightarrow> string \<Rightarrow> 'w \<Rightarrow> spawn_outcome \<times> 'w"
  se_kill :: "nat \<Rightarrow> 'w \<Rightarrow> 'w"
  se_sleep :: "nat \<Rightarrow> 'w \<Rightarrow> 'w"
  se_instant :: "'w \<Rightarrow> int \<times> 'w"
  se_url_text :: "url \<Rightarrow> string"
  se_browser :: "string \<Rightarrow> 'w \<Rightarrow> bool \<times> 'w"
  se_account :: "arena_mode \<Rightarrow> string \<Rightarrow> string \<Rightarrow> 'w \<Rightarrow> account_snapshot option \<times> 'w"
  se_address :: "string \<Rightarrow> string option"
  se_seal :: "'w \<Rightarrow> (string \<times> string \<times> (nat \<Rightarrow> string \<times> string)) \<times> 'w"
  se_runtime :: "string option"
  se_mkdir :: "string \<Rightarrow> 'w \<Rightarrow> bool \<times> 'w"
  se_write :: "string \<Rightarrow> string \<Rightarrow> 'w \<Rightarrow> (bool \<times> string option) \<times> 'w"
  se_platform :: utext

text \<open>The desktop with its child process, its files and what it has started, which nothing reads.\<close>

record 'w shell =
  sl_desktop :: "'w desktop"
  sl_child :: "nat option"
  sl_files :: "string \<Rightarrow> string option"
  sl_started :: "(string list \<times> string) list"

type_synonym ('w, 'a) shell_step = "('w shell, desktop_error, 'a) step"

definition on_desktop :: "('w desktop, 'e, 'a) step \<Rightarrow> ('w shell, 'e, 'a) step" where
  "on_desktop m s = (case m (sl_desktop s) of (r, d) \<Rightarrow> (r, s\<lparr>sl_desktop := d\<rparr>))"

definition shell_world :: "('w \<Rightarrow> 'a \<times> 'w) \<Rightarrow> ('w, 'a) shell_step" where
  "shell_world f = on_desktop (on_vault (vault_world f))"

definition on_slot :: "(companion_slot, desktop_error, 'a) step \<Rightarrow> ('w, 'a) shell_step" where
  "on_slot m = on_desktop (\<lambda>d. case m (dt_slot d) of (r, t) \<Rightarrow> (r, d\<lparr>dt_slot := t\<rparr>))"

definition on_net :: "('w, desktop_error, 'a) call \<Rightarrow> ('w, 'a) shell_step" where
  "on_net m = on_desktop (on_vault (vault_call (\<lambda>e. e) m))"

definition tokens_of :: "'w shell_env \<Rightarrow> ('w, device_tokens) shell_step" where
  "tokens_of E = on_desktop (device_tokens_of (se_D E))"

section \<open>The device API\<close>

definition device_endpoint :: "'w desktop_env \<Rightarrow> string \<Rightarrow> desktop_error + url" where
  "device_endpoint D path =
     ok_or (Option.bind (ne_parse (dk_N D) (api_origin_of D)) (\<lambda>origin. ne_join (dk_N D) origin path)) DkNetwork"

definition device_send ::
    "'w desktop_env \<Rightarrow> http_method \<Rightarrow> string \<Rightarrow> string option \<Rightarrow> json option \<Rightarrow> ('w, desktop_error, http_response) call" where
  "device_send D method path authorization body =
     sbind (slift (device_endpoint D path)) (\<lambda>endpoint.
     if \<not> ne_builds (dk_N D) then slift (Inl DkNetwork)
     else if (case authorization of None \<Rightarrow> False | Some value \<Rightarrow> \<not> ne_header (dk_N D) value) then slift (Inl DkNetwork)
     else serr (\<lambda>_. DkNetwork) (transmit (dk_N D)
       \<lparr>hq_method = method, hq_url = endpoint, hq_authorization = authorization, hq_body = body\<rparr>))"

definition device_api ::
    "'w desktop_env \<Rightarrow> http_method \<Rightarrow> string \<Rightarrow> string \<Rightarrow> json option \<Rightarrow> ('w, desktop_error, json) call" where
  "device_api D method path access_token body =
     sbind (device_send D method path (Some (''Bearer '' @ access_token)) body) (\<lambda>response.
     if \<not> is_success (hp_status response) then slift (Inl DkRemoteCommand)
     else slift (map_err (\<lambda>_. DkNetwork) (hp_body response)))"

definition device_api_empty ::
    "'w desktop_env \<Rightarrow> http_method \<Rightarrow> string \<Rightarrow> string \<Rightarrow> json \<Rightarrow> ('w, desktop_error, unit) call" where
  "device_api_empty D method path access_token body =
     sbind (device_send D method path (Some (''Bearer '' @ access_token)) (Some body)) (\<lambda>response.
     if \<not> is_success (hp_status response) then slift (Inl DkArena) else sret ())"

definition array_field_or_empty :: "json \<Rightarrow> string \<Rightarrow> json" where
  "array_field_or_empty payload field = (case json_get field payload of
     None \<Rightarrow> JArr [] | Some v \<Rightarrow> if v = JNull then JArr [] else v)"

definition fetch_public_arenas :: "'w shell_env \<Rightarrow> ('w, desktop_error, public_arena list) call" where
  "fetch_public_arenas E =
     sbind (device_send (se_D E) HGet ''/api/v1/harness/arenas'' None None) (\<lambda>response.
     if hp_status response \<noteq> 200 then slift (Inl DkNetwork)
     else slift (rbind (map_err (\<lambda>_. DkNetwork) (hp_body response)) (\<lambda>payload.
       ok_or (sc_arenas (se_C E) (array_field_or_empty payload ''arenas'')) DkNetwork)))"

definition list_agent_version_envelopes ::
    "'w shell_env \<Rightarrow> string \<Rightarrow> ('w, desktop_error, version_envelope list) call" where
  "list_agent_version_envelopes E access_token =
     sbind (device_api (se_D E) HGet ''/api/v1/harness/agent-versions'' access_token None) (\<lambda>payload.
       slift (ok_or (sc_versions (se_C E) (array_field_or_empty payload ''versions'')) DkAgentVersion))"

definition enroll_arena_with_token ::
    "'w shell_env \<Rightarrow> uuid \<Rightarrow> uuid \<Rightarrow> string \<Rightarrow> string \<Rightarrow> ('w, desktop_error, unit) call" where
  "enroll_arena_with_token E arena_id agent_version_id model_id access_token =
     device_api_empty (se_D E) HPost
       (''/api/v1/harness/device/arenas/'' @ uuid_str (dk_P (se_D E)) arena_id @ ''/enrollments'') access_token
       (JObj [(''agent_version_id'', juuid (dk_P (se_D E)) agent_version_id), (''model_id'', JStr model_id)])"

section \<open>The companion process\<close>

definition kill_child :: "'w shell_env \<Rightarrow> nat \<Rightarrow> ('w, unit) shell_step" where
  "kill_child E pid = shell_world (\<lambda>w. ((), se_kill E pid w))"

definition start_sidecar :: "'w shell_env \<Rightarrow> string list \<Rightarrow> string \<Rightarrow> ('w, spawn_outcome) shell_step" where
  "start_sidecar E args input =
     sbind (shell_world (se_spawn E args input)) (\<lambda>outcome.
     sbind (sput (\<lambda>s. if outcome = SpawnFailed then s else s\<lparr>sl_started := sl_started s @ [(args, input)]\<rparr>)) (\<lambda>_.
       sret outcome))"

text \<open>What launching the companion and launching a run have in common, once the slot is taken.\<close>

definition occupy_slot :: "'w shell_env \<Rightarrow> u64 \<Rightarrow> string list \<Rightarrow> string \<Rightarrow> ('w, unit) shell_step" where
  "occupy_slot E generation args input =
     sbind (start_sidecar E args input) (\<lambda>outcome.
     case outcome of
       SpawnFailed \<Rightarrow> sbind (on_slot (release_companion_slot generation)) (\<lambda>_. slift (Inl DkCompanion))
     | NotWritten pid \<Rightarrow>
         sbind (kill_child E pid) (\<lambda>_.
         sbind (on_slot (release_companion_slot generation)) (\<lambda>_. slift (Inl DkCompanion)))
     | Spawned pid \<Rightarrow> sput (\<lambda>s. s\<lparr>sl_child := Some pid\<rparr>))"

definition launch_companion :: "'w shell_env \<Rightarrow> ('w, unit) shell_step" where
  "launch_companion E =
     sbind (on_desktop (companion_credentials_of (se_D E))) (\<lambda>credentials.
     sbind (on_slot claim_companion_slot) (\<lambda>claimed.
     case claimed of
       None \<Rightarrow> sret ()
     | Some generation \<Rightarrow>
         occupy_slot E generation [''companion'', ''--ipc-name'', cc_ipc_name credentials] (cc_secret credentials)))"

definition take_child :: "'w shell_env \<Rightarrow> ('w, unit) shell_step" where
  "take_child E =
     sbind (sget sl_child) (\<lambda>child.
     sbind (sput (\<lambda>s. s\<lparr>sl_child := None\<rparr>)) (\<lambda>_.
     case child of None \<Rightarrow> sret () | Some pid \<Rightarrow> kill_child E pid))"

definition launch_desktop_run :: "'w shell_env \<Rightarrow> string \<Rightarrow> string \<Rightarrow> ('w, unit) shell_step" where
  "launch_desktop_run E config_path credential_frame =
     sbind (on_desktop (companion_credentials_of (se_D E))) (\<lambda>credentials.
     sbind (on_slot reserve_companion_slot) (\<lambda>generation.
     sbind (take_child E) (\<lambda>_.
     sbind (shell_world (\<lambda>w. ((), se_sleep E 150 w))) (\<lambda>_.
       occupy_slot E generation [''desktop-run'', config_path, ''--ipc-name'', cc_ipc_name credentials] credential_frame))))"

text \<open>The task that watches a child, when the child ends.\<close>

definition child_ended :: "u64 \<Rightarrow> ('w, unit) shell_step" where
  "child_ended generation = sbind (on_slot (release_companion_slot generation)) (\<lambda>_. sret ())"

definition stop_owned_companion :: "'w shell_env \<Rightarrow> ('w, unit) shell_step" where
  "stop_owned_companion E =
     sbind (stry (on_slot invalidate_companion_slot)) (\<lambda>_ :: desktop_error + unit. take_child E)"

section \<open>Requests to the companion\<close>

definition send_companion_request ::
    "'w shell_env \<Rightarrow> string \<Rightarrow> string \<Rightarrow> companion_request \<Rightarrow> ('w, companion_response) shell_step" where
  "send_companion_request E ipc_name secret_key request =
     sbind (slift (ok_or (sc_request (se_C E) request) DkCompanion)) (\<lambda>encoded.
     sbind (shell_world (se_ipc E ipc_name (encoded @ [CHR 0x0A]))) (\<lambda>reply.
     sbind (slift (ok_or reply DkCompanion)) (\<lambda>raw.
     if raw = [] \<or> MAX_COMPANION_MESSAGE_BYTES < length raw then slift (Inl DkCompanion)
     else
     sbind (slift (ok_or (Option.bind (from_utf8 raw) (\<lambda>t. sc_response (se_C E) (utf8 (trim_end t)))) DkCompanion)) (\<lambda>response.
     sbind (slift (map_err (\<lambda>_. DkCompanion) (verify_response (dk_P (se_D E)) secret_key response request))) (\<lambda>_.
       sret response)))))"

definition companion_request_with_options ::
    "'w shell_env \<Rightarrow> companion_action \<Rightarrow> strategy_bundle option \<Rightarrow> run_settings option
      \<Rightarrow> ('w, companion_response) shell_step" where
  "companion_request_with_options E action strategy settings =
     sbind (on_desktop (companion_credentials_of (se_D E))) (\<lambda>credentials.
     sbind (on_desktop (\<lambda>d. case next_companion_nonce (dt_companion_nonce d) of (r, n) \<Rightarrow> (r, d\<lparr>dt_companion_nonce := n\<rparr>))) (\<lambda>nonce.
     sbind (shell_world (se_uuid E)) (\<lambda>request_id.
     sbind (slift (map_err (\<lambda>_. DkCompanion) (sign_request (dk_P (se_D E)) (sc_enc_bundle (se_C E)) (cc_secret credentials)
              request_id nonce action strategy settings))) (\<lambda>request.
       send_companion_request E (cc_ipc_name credentials) (cc_secret credentials) request))))"

definition companion_request_of :: "'w shell_env \<Rightarrow> companion_action \<Rightarrow> ('w, companion_response) shell_step" where
  "companion_request_of E action = companion_request_with_options E action None None"

section \<open>Status and local commands\<close>

record agent_status =
  ag_protocol :: string
  ag_execution_boundary :: string
  ag_daemon :: string
  ag_active_run :: "string option"
  ag_error :: "string option"
  ag_device_authorized :: bool

definition status_of :: "prims \<Rightarrow> string \<Rightarrow> uuid option \<Rightarrow> string option \<Rightarrow> bool \<Rightarrow> agent_status" where
  "status_of P daemon active_run error authorized =
     \<lparr>ag_protocol = HARNESS_PROTOCOL_V1, ag_execution_boundary = ''local_device'', ag_daemon = daemon,
      ag_active_run = map_option (uuid_str P) active_run, ag_error = error, ag_device_authorized = authorized\<rparr>"

definition get_agent_status :: "'w shell_env \<Rightarrow> ('w, agent_status) shell_step" where
  "get_agent_status E =
     sbind (sget (\<lambda>s. device_authorized (sl_desktop s))) (\<lambda>authorized.
     if \<not> authorized then sret (status_of (dk_P (se_D E)) ''stopped'' None None authorized)
     else
     sbind (stry (companion_request_of E AStatus)) (\<lambda>first.
     sbind (case first of
         Inr r \<Rightarrow> sret (Some r)
       | Inl _ \<Rightarrow>
           sbind (stry (launch_companion E)) (\<lambda>launched.
           if \<not> is_ok launched then sret None
           else
           sbind (shell_world (\<lambda>w. ((), se_sleep E 100 w))) (\<lambda>_.
           sbind (stry (companion_request_of E AStatus)) (\<lambda>again.
             sret (case again of Inl _ \<Rightarrow> None | Inr r \<Rightarrow> Some r))))) (\<lambda>response.
       sret (case response of
         None \<Rightarrow> status_of (dk_P (se_D E)) ''stopped'' None None authorized
       | Some r \<Rightarrow> status_of (dk_P (se_D E)) (cr_execution_state r) (cr_active_run r) (cr_error r) authorized))))"

definition local_action :: "string \<Rightarrow> companion_action option" where
  "local_action action =
     (if action = ''pause'' then Some APause
      else if action = ''resume'' then Some AResume
      else if action = ''stop'' then Some AStop
      else if action = ''update_settings'' then Some AUpdateSettings
      else None)"

definition local_settings :: "companion_action \<Rightarrow> u32 option \<Rightarrow> u8 option \<Rightarrow> desktop_error + run_settings option" where
  "local_settings action cooldown leverage =
     (if action = AUpdateSettings then
        rbind (ok_or cooldown DkArena) (\<lambda>c.
        rbind (ok_or leverage DkArena) (\<lambda>l.
        let settings = \<lparr>st_decision_cooldown_seconds = c, st_isolated_leverage = l\<rparr> in
        rbind (map_err (\<lambda>_. DkArena) (validate_settings settings)) (\<lambda>_. Inr (Some settings))))
      else if cooldown \<noteq> None \<or> leverage \<noteq> None then Inl DkCompanion
      else Inr None)"

definition stored_device_id :: "'w shell_env \<Rightarrow> ('w, uuid) shell_step" where
  "stored_device_id E =
     sbind (on_desktop (on_vault (load_password (dk_K (se_D E)) DEVICE_ID_ACCOUNT))) (\<lambda>v.
       slift (ok_or (dk_uuid (se_D E) v) DkCredential))"

text \<open>The strategy of the account's version \<open>version_id\<close>, opened on this device.\<close>

definition opened_strategy :: "'w shell_env \<Rightarrow> uuid \<Rightarrow> string \<Rightarrow> ('w, version_envelope \<times> uuid \<times> strategy_bundle) shell_step" where
  "opened_strategy E version_id access_token =
     sbind (on_net (list_agent_version_envelopes E access_token)) (\<lambda>versions.
     sbind (slift (ok_or (find (\<lambda>v. ve_version_id v = version_id) versions) DkAgentVersion)) (\<lambda>envelope.
     sbind (stored_device_id E) (\<lambda>device_id.
     sbind (on_desktop (on_vault (load_or_create_encryption_key (dk_P (se_D E)) (dk_K (se_D E))))) (\<lambda>key.
     sbind (slift (map_err (\<lambda>_. DkAgentVersion)
         (open_agent_version (dk_P (se_D E)) (se_A E) (sc_dec_bundle (se_C E)) envelope device_id key))) (\<lambda>strategy.
       sret (envelope, device_id, strategy))))))"

definition send_local_command ::
    "'w shell_env \<Rightarrow> string \<Rightarrow> string option \<Rightarrow> u32 option \<Rightarrow> u8 option \<Rightarrow> ('w, agent_status) shell_step" where
  "send_local_command E action_text agent_version_id cooldown leverage =
     sbind (slift (ok_or (local_action action_text) DkCompanion)) (\<lambda>action.
     sbind (slift (local_settings action cooldown leverage)) (\<lambda>settings.
     sbind (case agent_version_id of
         None \<Rightarrow> sret None
       | Some version_text \<Rightarrow>
           if action \<noteq> AResume then slift (Inl DkCompanion)
           else
           sbind (slift (ok_or (dk_uuid (se_D E) version_text) DkAgentVersion)) (\<lambda>version_id.
           sbind (tokens_of E) (\<lambda>token.
           sbind (opened_strategy E version_id (dt_access_token token)) (\<lambda>(_, _, strategy). sret (Some strategy))))) (\<lambda>strategy.
     sbind (companion_request_with_options E action strategy settings) (\<lambda>response.
     if \<not> cr_accepted response then slift (Inl DkCompanion)
     else sbind (sget (\<lambda>s. device_authorized (sl_desktop s))) (\<lambda>authorized.
       sret (status_of (dk_P (se_D E)) (cr_execution_state response) (cr_active_run response) (cr_error response) authorized))))))"

section \<open>Commands of the account\<close>

definition begin_device_authorization :: "'w shell_env \<Rightarrow> utext \<Rightarrow> ('w, auth_session) shell_step" where
  "begin_device_authorization E device_label =
     (let D = se_D E in
     sbind (on_desktop (on_vault (load_or_create_identity (dk_P D) (dk_K D)))) (\<lambda>identity.
     sbind (on_desktop (on_vault (load_or_create_encryption_key (dk_P D) (dk_K D)))) (\<lambda>key.
     sbind (slift (map_err (\<lambda>_. DkAuthorization) (production_client (dk_N D)))) (\<lambda>client.
     sbind (on_net (serr (\<lambda>_. DkAuthorization) (start_session (dk_P D) (dk_N D) (dk_C D) client device_label (se_platform E)
              identity (url64_encode (se_A E) (x_public (se_A E) key))))) (\<lambda>session.
     sbind (shell_world (se_browser E (se_url_text E (as_verification_uri session)))) (\<lambda>opened.
     if \<not> opened then slift (Inl DkBrowser)
     else sbind (sput (\<lambda>s. s\<lparr>sl_desktop := (sl_desktop s)\<lparr>dt_pending := Some session\<rparr>\<rparr>)) (\<lambda>_. sret session)))))))"

definition get_remote_state :: "'w shell_env \<Rightarrow> ('w, remote_device list \<times> remote_run list) shell_step" where
  "get_remote_state E =
     sbind (tokens_of E) (\<lambda>token.
     sbind (on_net (device_api (se_D E) HGet ''/api/v1/harness/remote-devices'' (dt_access_token token) None)) (\<lambda>devices.
     sbind (on_net (device_api (se_D E) HGet ''/api/v1/harness/runs'' (dt_access_token token) None)) (\<lambda>runs.
     sbind (slift (ok_or (sc_devices (se_C E) (array_field_or_empty devices ''devices'')) DkNetwork)) (\<lambda>devices.
     sbind (slift (ok_or (sc_runs (se_C E) (array_field_or_empty runs ''runs'')) DkNetwork)) (\<lambda>runs.
       sret (devices, runs))))))"

definition get_public_arenas :: "'w shell_env \<Rightarrow> ('w, public_arena list) shell_step" where
  "get_public_arenas E = on_net (fetch_public_arenas E)"

record version_summary =
  vm_id :: string
  vm_agent_id :: string
  vm_version :: u32
  vm_model_id :: string
  vm_configuration_sha256 :: string
  vm_created_at :: string

definition agent_version_summary :: "prims \<Rightarrow> version_envelope \<Rightarrow> version_summary" where
  "agent_version_summary P e = \<lparr>vm_id = uuid_str P (ve_version_id e), vm_agent_id = uuid_str P (ve_agent_id e),
     vm_version = ve_version e, vm_model_id = ve_model_id e, vm_configuration_sha256 = ve_configuration_sha256 e,
     vm_created_at = (case rfc3339 P (ve_created_at e) of Some t \<Rightarrow> t | None \<Rightarrow> int_text (ve_created_at e div 1000000000))\<rparr>"

definition get_agent_versions :: "'w shell_env \<Rightarrow> ('w, version_summary list) shell_step" where
  "get_agent_versions E =
     sbind (tokens_of E) (\<lambda>token.
     sbind (on_net (list_agent_version_envelopes E (dt_access_token token))) (\<lambda>versions.
       sret (map (agent_version_summary (dk_P (se_D E))) versions)))"

definition device_recipient :: "'w shell_env \<Rightarrow> remote_device \<Rightarrow> desktop_error + version_recipient" where
  "device_recipient E d =
     rbind (ok_or (dk_uuid (se_D E) (rd_id d)) DkAgentVersion) (\<lambda>device_id.
     rbind (map_err (\<lambda>_. DkAgentVersion) (decode_device_encryption_public_key (se_A E) (rd_encryption_public_key d))) (\<lambda>key.
       Inr \<lparr>vr_device_id = device_id, vr_public_key = key\<rparr>))"

definition create_agent_version ::
    "'w shell_env \<Rightarrow> utext \<Rightarrow> string \<Rightarrow> utext \<Rightarrow> ('w, version_summary) shell_step" where
  "create_agent_version E name model_id system_instructions =
     (let P = dk_P (se_D E) in
     sbind (tokens_of E) (\<lambda>token.
     sbind (on_net (device_api (se_D E) HGet ''/api/v1/harness/remote-devices'' (dt_access_token token) None)) (\<lambda>devices.
     sbind (slift (ok_or (sc_devices (se_C E) (array_field_or_empty devices ''devices'')) DkAgentVersion)) (\<lambda>devices.
     sbind (slift (rmap (device_recipient E) (filter (\<lambda>d. rd_state d = ''active'') devices))) (\<lambda>recipients.
     sbind (shell_world (se_uuid E)) (\<lambda>version_id.
     sbind (shell_world (dk_now (se_D E))) (\<lambda>now.
     let bundle = \<lparr>sb_protocol = HARNESS_PROTOCOL_V1, sb_version_id = version_id, sb_model_id = model_id, sb_name = name,
       sb_system_instructions = system_instructions, sb_tools = REQUIRED_STRATEGY_TOOLS, sb_created_at = now\<rparr> in
     sbind (shell_world (se_uuid E)) (\<lambda>agent_id.
     sbind (shell_world (se_seal E)) (\<lambda>(bundle_key, nonce, rnd).
     sbind (slift (map_err (\<lambda>_. DkAgentVersion) (seal_agent_version P (se_A E) (sc_enc_bundle (se_C E)) bundle_key nonce rnd
              bundle agent_id 1 recipients))) (\<lambda>envelope.
     sbind (slift (ok_or (sc_envelope (se_C E) envelope) DkAgentVersion)) (\<lambda>body.
     sbind (on_net (device_api (se_D E) HPost ''/api/v1/harness/agent-versions'' (dt_access_token token) (Some body))) (\<lambda>_.
       sret (agent_version_summary P envelope)))))))))))))"

definition HYPERLIQUID_TESTNET_API_URL :: string where
  "HYPERLIQUID_TESTNET_API_URL = ''https://app.hyperliquid-testnet.xyz/API''"
definition HYPERLIQUID_MAINNET_API_URL :: string where
  "HYPERLIQUID_MAINNET_API_URL = ''https://app.hyperliquid.xyz/API''"

definition prepare_hyperliquid_wallet :: "'w shell_env \<Rightarrow> bool option \<Rightarrow> ('w, string \<times> string) shell_step" where
  "prepare_hyperliquid_wallet E mainnet =
     sbind (on_desktop (on_vault (load_or_create_wallet_key (dk_P (se_D E)) (dk_K (se_D E))))) (\<lambda>key.
     sbind (slift (ok_or (se_address E key) DkVenue)) (\<lambda>address.
     let approval_url = (if mainnet = Some True then HYPERLIQUID_MAINNET_API_URL else HYPERLIQUID_TESTNET_API_URL) in
     sbind (shell_world (se_browser E approval_url)) (\<lambda>opened.
     if \<not> opened then slift (Inl DkBrowser) else sret (address, approval_url))))"

definition enroll_arena :: "'w shell_env \<Rightarrow> string \<Rightarrow> string \<Rightarrow> string \<Rightarrow> ('w, unit) shell_step" where
  "enroll_arena E arena_text version_text model_id =
     sbind (slift (ok_or (dk_uuid (se_D E) arena_text) DkArena)) (\<lambda>arena_id.
     sbind (slift (ok_or (dk_uuid (se_D E) version_text) DkAgentVersion)) (\<lambda>agent_version_id.
     sbind (tokens_of E) (\<lambda>token.
       on_net (enroll_arena_with_token E arena_id agent_version_id model_id (dt_access_token token)))))"

text \<open>\<open>RemoteCommandV1\<close> in JSON: what is signed, the signature and the relay's receipt.\<close>

definition command_json :: "prims \<Rightarrow> remote_command \<Rightarrow> json option" where
  "command_json P c = (case unsigned_command P c of
     Some (JObj fs) \<Rightarrow> Some (JObj (fs @ [(''controller_signature'', JStr (rc_controller_signature c)),
       (''relay_receipt'', case rc_relay_receipt c of None \<Rightarrow> JNull | Some r \<Rightarrow> JStr r)]))
   | _ \<Rightarrow> None)"

definition remote_action_of :: "string \<Rightarrow> remote_action option" where
  "remote_action_of action =
     (if action = ''pause'' then Some Pause
      else if action = ''resume'' then Some Resume
      else if action = ''stop'' then Some Stop
      else None)"

definition signed_remote_command ::
    "'w shell_env \<Rightarrow> string \<Rightarrow> string \<Rightarrow> string \<Rightarrow> ('w, remote_command) shell_step" where
  "signed_remote_command E target_text run_text action =
     (let D = se_D E in
     sbind (slift (ok_or (dk_uuid D target_text) DkRemoteCommand)) (\<lambda>target.
     sbind (slift (ok_or (dk_uuid D run_text) DkRemoteCommand)) (\<lambda>run.
     sbind (stored_device_id E) (\<lambda>controller.
     sbind (slift (ok_or (remote_action_of action) DkRemoteCommand)) (\<lambda>remote_action.
     sbind (on_desktop (on_vault (next_controller_nonce (dk_K D)))) (\<lambda>nonce.
     sbind (on_desktop (on_vault (load_or_create_identity (dk_P D) (dk_K D)))) (\<lambda>identity.
     sbind (shell_world (dk_now D)) (\<lambda>issued_at.
     sbind (shell_world (se_uuid E)) (\<lambda>command_id.
       slift (map_err (\<lambda>_. DkRemoteCommand) (sign_command (dk_P D) identity command_id target run remote_action nonce
         issued_at (issued_at + 5000000000) controller)))))))))))"

definition send_remote_command ::
    "'w shell_env \<Rightarrow> string \<Rightarrow> string \<Rightarrow> string \<Rightarrow> ('w, string \<times> string \<times> bool) shell_step" where
  "send_remote_command E target_text run_text action =
     sbind (signed_remote_command E target_text run_text action) (\<lambda>command.
     sbind (tokens_of E) (\<lambda>token.
     sbind (slift (ok_or (command_json (dk_P (se_D E)) command) DkRemoteCommand)) (\<lambda>body.
     sbind (on_net (device_api (se_D E) HPost ''/api/v1/harness/remote-commands'' (dt_access_token token) (Some body))) (\<lambda>response.
     case json_get ''relay_receipt'' response of
       Some (JStr _) \<Rightarrow> sret (uuid_str (dk_P (se_D E)) (rc_command_id command), action, True)
     | _ \<Rightarrow> slift (Inl DkRemoteCommand)))))"

end
