(* ===== verification/Launch.thy ===== *)
theory Launch
  imports Shell
begin

text \<open>
  \<open>start_local_arena\<close> of the desktop shell: the checks, the arena's manifest, the account, the strategy and the
  runner's tokens, the files the daemon reads, its launch with the credential frame, and the wait
  for the run. The venue's snapshot is \<open>se_account\<close>; the credential frame is built from the vault.
\<close>

definition PRODUCTION_RELAY_URL :: string where
  "PRODUCTION_RELAY_URL = ''wss://api.crowcompute.ai/harness/v1/connect''"

text \<open>\<open>CARGO_PKG_VERSION\<close> of the workspace.\<close>

definition CARGO_PKG_VERSION :: string where "CARGO_PKG_VERSION = ''0.1.30''"

definition DESKTOP_RUN_START_TIMEOUT :: int where "DESKTOP_RUN_START_TIMEOUT = 90 * 1000000000"

definition validate_launch_account :: "account_snapshot \<Rightarrow> int option \<Rightarrow> desktop_error + unit" where
  "validate_launch_account account exact_clean_capital =
     (case exact_clean_capital of
        Some required \<Rightarrow>
          if as_equity account \<noteq> required \<or> as_withdrawable account \<noteq> required \<or> as_positions account \<noteq> []
          then Inl DkVenueCollateral else Inr ()
      | None \<Rightarrow> if as_equity account \<le> 0 then Inl DkVenueCollateral else Inr ())"

section \<open>Before anything is written\<close>

definition no_active_run :: "'w shell_env \<Rightarrow> ('w, unit) shell_step" where
  "no_active_run E =
     sbind (stry (companion_request_of E AStatus)) (\<lambda>r.
       slift (case r of
         Inl _ \<Rightarrow> Inr ()
       | Inr response \<Rightarrow> if cr_active_run response \<noteq> None then Inl DkArena else Inr ()))"

definition arena_settings_ok :: "u32 \<Rightarrow> u8 \<Rightarrow> bool" where
  "arena_settings_ok cooldown leverage \<longleftrightarrow>
     MIN_LIVE_DECISION_INTERVAL_SECONDS \<le> cooldown \<and> cooldown \<le> MAX_CLIENT_DECISION_COOLDOWN_SECONDS
     \<and> cooldown mod 60 = 0
     \<and> MIN_CLIENT_ISOLATED_LEVERAGE \<le> leverage \<and> leverage \<le> MAX_CLIENT_ISOLATED_LEVERAGE"

definition signed_arena :: "'w shell_env \<Rightarrow> uuid \<Rightarrow> ('w, signed_manifest) shell_step" where
  "signed_arena E arena_id =
     sbind (on_net (fetch_public_arenas E)) (\<lambda>arenas.
     sbind (slift (ok_or (find (\<lambda>a. pn_id a = uuid_str (dk_P (se_D E)) arena_id) arenas) DkArena)) (\<lambda>arena.
       slift (map_err (\<lambda>_. DkArena) (from_signed_value (dk_P (se_D E)) (sc_enc_manifest (se_C E)) (sc_dec_manifest (se_C E))
         (pn_manifest arena) (pn_manifest_sha256 arena) (pn_signer_public_key arena) (pn_signature arena)))))"

definition checked_launch_account :: "'w shell_env \<Rightarrow> arena_manifest \<Rightarrow> string \<Rightarrow> ('w, account_snapshot) shell_step" where
  "checked_launch_account E m execution_account =
     sbind (on_desktop (on_vault (load_or_create_wallet_key (dk_P (se_D E)) (dk_K (se_D E))))) (\<lambda>key.
     if am_mode m = HistoricalBacktest then slift (Inl DkArena)
     else
     sbind (shell_world (se_account E (am_mode m) key execution_account)) (\<lambda>snapshot.
     sbind (slift (ok_or snapshot DkVenueAccount)) (\<lambda>account.
     sbind (slift (if am_mode m = HyperliquidMainnet \<and> tk_enabled (am_ticket m) \<and> tk_asset (am_ticket m) = ''CC''
         then rbind (ok_or (i64_try (uint (am_starting_capital_micro_usdc m))) DkArena) (\<lambda>n. Inr (Some n))
         else Inr None)) (\<lambda>exact_clean_capital.
     sbind (slift (validate_launch_account account exact_clean_capital)) (\<lambda>_. sret account)))))"

definition eligible_strategy ::
    "'w shell_env \<Rightarrow> arena_manifest \<Rightarrow> uuid \<Rightarrow> string \<Rightarrow> ('w, uuid \<times> strategy_bundle) shell_step" where
  "eligible_strategy E m agent_version_id access_token =
     sbind (opened_strategy E agent_version_id access_token) (\<lambda>(envelope, device_id, strategy).
     if sb_model_id strategy \<noteq> ve_model_id envelope \<or> \<not> List.member (am_eligible_models m) (sb_model_id strategy)
     then slift (Inl DkAgentVersion) else sret (device_id, strategy))"

definition forked_tokens :: "'w shell_env \<Rightarrow> string \<Rightarrow> uuid \<Rightarrow> ('w, device_tokens) shell_step" where
  "forked_tokens E access_token device_id =
     (let D = se_D E in
     sbind (on_desktop (on_vault (load_or_create_identity (dk_P D) (dk_K D)))) (\<lambda>identity.
     sbind (slift (map_err (\<lambda>_. DkAuthorization) (new_auth_client (dk_N D) (api_origin_of D)))) (\<lambda>client.
     sbind (shell_world (se_uuid E)) (\<lambda>fresh.
     sbind (on_net (serr (\<lambda>_. DkAuthorization) (fork_tokens (dk_P D) (dk_N D) (dk_C D) client fresh access_token identity))) (\<lambda>tokens.
     if dt_device_id tokens \<noteq> device_id then slift (Inl DkAuthorization) else sret tokens)))))"

section \<open>The files and the credential frame\<close>

definition desktop_runtime_directory :: "'w shell_env \<Rightarrow> desktop_error + string" where
  "desktop_runtime_directory E = ok_or (se_runtime E) DkCompanion"

definition create_private_directory :: "'w shell_env \<Rightarrow> string \<Rightarrow> ('w, unit) shell_step" where
  "create_private_directory E path =
     sbind (shell_world (se_mkdir E path)) (\<lambda>made. if made then sret () else slift (Inl DkCompanion))"

text \<open>A write that fails leaves the file as the outcome says.\<close>

definition write_runtime_json :: "'w shell_env \<Rightarrow> string \<Rightarrow> string option \<Rightarrow> ('w, unit) shell_step" where
  "write_runtime_json E path content =
     sbind (slift (ok_or content DkCompanion)) (\<lambda>encoded.
     sbind (shell_world (se_write E path encoded)) (\<lambda>(ok, left).
     sbind (sput (\<lambda>s. s\<lparr>sl_files := (sl_files s)(path := (if ok then Some encoded else left))\<rparr>)) (\<lambda>_.
       if ok then sret () else slift (Inl DkCompanion))))"

definition in_directory :: "string \<Rightarrow> string \<Rightarrow> string" where
  "in_directory directory name = directory @ ''/'' @ name"

definition runtime_file :: "prims \<Rightarrow> string \<Rightarrow> string \<Rightarrow> uuid \<Rightarrow> string" where
  "runtime_file P directory kind arena_id = in_directory directory (kind @ ''-'' @ uuid_str P arena_id @ ''.json'')"

definition optional_text :: "string option \<Rightarrow> json" where
  "optional_text v = (case v of None \<Rightarrow> JNull | Some s \<Rightarrow> JStr s)"

definition live_arena_json :: "prims \<Rightarrow> live_arena_config \<Rightarrow> json" where
  "live_arena_json P c = JObj
     [(''arena_manifest'', JStr (la_arena_manifest c)), (''handoff_snapshot'', optional_text (la_handoff_snapshot c)),
      (''agent_version_id'', juuid P (la_agent_version_id c)), (''execution_account'', JStr (la_execution_account c)),
      (''model_id'', JStr (la_model_id c)), (''client_release'', JStr (la_client_release c)),
      (''decision_cooldown_seconds'', case la_decision_cooldown_seconds c of None \<Rightarrow> JNull | Some n \<Rightarrow> jword n),
      (''isolated_leverage'', case la_isolated_leverage c of None \<Rightarrow> JNull | Some n \<Rightarrow> jword n)]"

definition run_config_json :: "prims \<Rightarrow> uuid \<Rightarrow> string \<Rightarrow> string \<Rightarrow> live_arena_config \<Rightarrow> json" where
  "run_config_json P device_id api_origin state_directory c = JObj
     [(''device_id'', juuid P device_id), (''relay_url'', JStr PRODUCTION_RELAY_URL), (''api_origin'', JStr api_origin),
      (''state_directory'', JStr state_directory), (''live_arena'', live_arena_json P c)]"

definition launch_config ::
    "prims \<Rightarrow> string \<Rightarrow> uuid \<Rightarrow> json option \<Rightarrow> uuid \<Rightarrow> string \<Rightarrow> strategy_bundle \<Rightarrow> u32 \<Rightarrow> u8 \<Rightarrow> live_arena_config" where
  "launch_config P directory arena_id handoff agent_version_id account strategy cooldown leverage =
     \<lparr>la_arena_manifest = runtime_file P directory ''arena'' arena_id,
      la_handoff_snapshot = map_option (\<lambda>_. runtime_file P directory ''handoff'' arena_id) handoff,
      la_agent_version_id = agent_version_id, la_execution_account = map to_ascii_lower account,
      la_model_id = sb_model_id strategy, la_client_release = CARGO_PKG_VERSION,
      la_decision_cooldown_seconds = Some cooldown, la_isolated_leverage = Some leverage\<rparr>"

text \<open>The paths of the manifest and of the configuration.\<close>

definition write_launch_files ::
    "'w shell_env \<Rightarrow> uuid \<Rightarrow> signed_manifest \<Rightarrow> json option \<Rightarrow> uuid \<Rightarrow> string \<Rightarrow> uuid \<Rightarrow> strategy_bundle \<Rightarrow> u32 \<Rightarrow> u8
      \<Rightarrow> ('w, string \<times> live_arena_config) shell_step" where
  "write_launch_files E arena_id manifest handoff agent_version_id account device_id strategy cooldown leverage =
     (let P = dk_P (se_D E) in
     sbind (slift (desktop_runtime_directory E)) (\<lambda>directory.
     let state_directory = in_directory directory ''state'';
         c = launch_config P directory arena_id handoff agent_version_id account strategy cooldown leverage;
         config_path = runtime_file P directory ''run'' arena_id in
     sbind (create_private_directory E directory) (\<lambda>_.
     sbind (create_private_directory E state_directory) (\<lambda>_.
     sbind (write_runtime_json E (la_arena_manifest c) (sc_signed (se_C E) manifest)) (\<lambda>_.
     sbind (case handoff of
         None \<Rightarrow> sret ()
       | Some v \<Rightarrow> write_runtime_json E (runtime_file P directory ''handoff'' arena_id) (json_to_vec P v)) (\<lambda>_.
     sbind (write_runtime_json E config_path (json_to_vec P
         (run_config_json P device_id (api_origin_of (se_D E)) state_directory c))) (\<lambda>_.
       sret (config_path, c))))))))"

definition desktop_secrets :: "'w desktop_env \<Rightarrow> string \<Rightarrow> ('w, desktop_credentials) desktop_step" where
  "desktop_secrets D runner_refresh_token =
     sbind (companion_credentials_of D) (\<lambda>companion.
     sbind (on_vault (load_secret_32 (dk_P D) (dk_K D) SIGNING_SEED_ACCOUNT)) (\<lambda>signing_seed.
     sbind (on_vault (load_secret_32 (dk_P D) (dk_K D) ENCRYPTION_SECRET_ACCOUNT)) (\<lambda>encryption_secret.
     sbind (on_vault (load_or_create_secret_32 (dk_P D) (dk_K D) JOURNAL_KEY_ACCOUNT)) (\<lambda>journal_key.
     sbind (on_vault (load_or_create_wallet_key (dk_P D) (dk_K D))) (\<lambda>api_wallet_key.
       sret \<lparr>dc_companion_secret = cc_secret companion, dc_signing_seed = signing_seed,
         dc_encryption_secret = encryption_secret, dc_journal_key = journal_key, dc_api_wallet_key = api_wallet_key,
         dc_refresh_token = runner_refresh_token\<rparr>)))))"

definition credential_frame :: "'w desktop_env \<Rightarrow> string \<Rightarrow> ('w, string) desktop_step" where
  "credential_frame D runner_refresh_token =
     sbind (desktop_secrets D runner_refresh_token) (\<lambda>c. slift (ok_or (desktop_credential_frame c) DkCredential))"

section \<open>Launching and waiting\<close>

record launch_request =
  lq_arena_id :: string
  lq_agent_version_id :: string
  lq_execution_account :: string
  lq_handoff_snapshot :: "json option"
  lq_decision_cooldown_seconds :: u32
  lq_isolated_leverage :: u8

record arena_launch =
  al_arena_id :: uuid
  al_agent_version_id :: uuid
  al_manifest :: signed_manifest
  al_device_id :: uuid
  al_strategy :: strategy_bundle
  al_runner :: device_tokens

text \<open>All that is checked before a file is written.\<close>

definition checked_launch :: "'w shell_env \<Rightarrow> launch_request \<Rightarrow> ('w, arena_launch) shell_step" where
  "checked_launch E q =
     sbind (no_active_run E) (\<lambda>_.
     if \<not> valid_execution_account (lq_execution_account q) then slift (Inl DkVenue)
     else if \<not> arena_settings_ok (lq_decision_cooldown_seconds q) (lq_isolated_leverage q) then slift (Inl DkArena)
     else
     sbind (slift (ok_or (dk_uuid (se_D E) (lq_arena_id q)) DkArena)) (\<lambda>arena_id.
     sbind (slift (ok_or (dk_uuid (se_D E) (lq_agent_version_id q)) DkAgentVersion)) (\<lambda>agent_version_id.
     sbind (tokens_of E) (\<lambda>token.
     sbind (signed_arena E arena_id) (\<lambda>manifest.
     sbind (checked_launch_account E (sm_manifest manifest) (lq_execution_account q)) (\<lambda>_.
     sbind (eligible_strategy E (sm_manifest manifest) agent_version_id (dt_access_token token)) (\<lambda>(device_id, strategy).
     sbind (on_net (enroll_arena_with_token E arena_id agent_version_id (sb_model_id strategy) (dt_access_token token))) (\<lambda>_.
     sbind (forked_tokens E (dt_access_token token) device_id) (\<lambda>runner.
       sret \<lparr>al_arena_id = arena_id, al_agent_version_id = agent_version_id, al_manifest = manifest,
         al_device_id = device_id, al_strategy = strategy, al_runner = runner\<rparr>)))))))))"

text \<open>Everything up to the launch of the daemon; the configuration is what the daemon is started with.\<close>

definition launch_arena :: "'w shell_env \<Rightarrow> launch_request \<Rightarrow> ('w, live_arena_config) shell_step" where
  "launch_arena E q =
     sbind (checked_launch E q) (\<lambda>l.
     sbind (write_launch_files E (al_arena_id l) (al_manifest l) (lq_handoff_snapshot q) (al_agent_version_id l)
              (lq_execution_account q) (al_device_id l) (al_strategy l) (lq_decision_cooldown_seconds q)
              (lq_isolated_leverage q)) (\<lambda>(config_path, config).
     sbind (on_desktop (credential_frame (se_D E) (dt_refresh_token (al_runner l)))) (\<lambda>frame.
     sbind (launch_desktop_run E config_path frame) (\<lambda>_. sret config))))"

text \<open>A turn of the wait: \<open>None\<close> to go on.\<close>

definition await_turn :: "'w shell_env \<Rightarrow> ('w shell, string, agent_status option) step" where
  "await_turn E =
     sbind (serr desktop_error_code (shell_world (\<lambda>w. ((), se_sleep E 200 w)))) (\<lambda>_.
     sbind (stry (companion_request_of E AStatus)) (\<lambda>r.
     case r of
       Inl (_ :: desktop_error) \<Rightarrow> sret None
     | Inr response \<Rightarrow>
         (case cr_error response of
            Some error \<Rightarrow> sbind (serr desktop_error_code (stop_owned_companion E)) (\<lambda>_. slift (Inl error))
          | None \<Rightarrow>
              sret (if cr_active_run response = None then None
                else Some (status_of (dk_P (se_D E)) (cr_execution_state response) (cr_active_run response) None True)))))"

partial_function (option) await_run ::
    "'w shell_env \<Rightarrow> int \<Rightarrow> 'w shell \<Rightarrow> ((string + agent_status) \<times> 'w shell) option" where
  "await_run E deadline s =
     (case shell_world (se_instant E) s of
        (Inl e, s) \<Rightarrow> Some (Inl (desktop_error_code e), s)
      | (Inr now, s) \<Rightarrow>
          if deadline \<le> now
          then (case stop_owned_companion E s of (_, s) \<Rightarrow> Some (Inl (desktop_error_code DkCompanion), s))
          else (case await_turn E s of
              (Inl e, s) \<Rightarrow> Some (Inl e, s)
            | (Inr (Some status), s) \<Rightarrow> Some (Inr status, s)
            | (Inr None, s) \<Rightarrow> await_run E deadline s))"

definition start_local_arena ::
    "'w shell_env \<Rightarrow> launch_request \<Rightarrow> 'w shell \<Rightarrow> ((string + agent_status) \<times> 'w shell) option" where
  "start_local_arena E q s =
     (case launch_arena E q s of
        (Inl e, s) \<Rightarrow> Some (Inl (desktop_error_code e), s)
      | (Inr _, s) \<Rightarrow>
          (case shell_world (se_instant E) s of
             (Inl e, s) \<Rightarrow> Some (Inl (desktop_error_code e), s)
           | (Inr now, s) \<Rightarrow> await_run E (now + DESKTOP_RUN_START_TIMEOUT) s))"

section \<open>What leaves the files and the started processes alone\<close>

definition same_launch :: "'w shell \<Rightarrow> 'w shell \<Rightarrow> bool" where
  "same_launch s s' \<longleftrightarrow> sl_started s' = sl_started s \<and> sl_files s' = sl_files s"

interpretation quiet: step_relation same_launch
  by unfold_locales (simp_all add: same_launch_def)

lemma quiet_on_desktop: "keeps same_launch (on_desktop m)"
  by (auto simp: keeps_def on_desktop_def same_launch_def split: prod.splits)

lemma quiet_steps: "keeps same_launch (shell_world f)" "keeps same_launch (on_slot m1)" "keeps same_launch (on_net m2)"
  "keeps same_launch (tokens_of E)" "keeps same_launch (kill_child E pid)"
  by (simp_all add: shell_world_def on_slot_def on_net_def tokens_of_def kill_child_def quiet_on_desktop)

lemma quiet_request: "keeps same_launch (companion_request_of E action)"
  unfolding companion_request_of_def companion_request_with_options_def send_companion_request_def
  by (intro quiet.keeps_intros quiet_steps quiet_on_desktop)

lemma quiet_put_child: "keeps same_launch (sput (\<lambda>s. s\<lparr>sl_child := c\<rparr>))"
  by (simp add: keeps_def sput_def same_launch_def)

lemma quiet_take: "keeps same_launch (take_child E)"
  unfolding take_child_def
  by (intro quiet.keeps_bind quiet.keeps_get quiet_put_child) (auto intro: quiet.keeps_ret quiet_steps split: option.split)

lemma quiet_opened: "keeps same_launch (opened_strategy E v t)"
  unfolding opened_strategy_def stored_device_id_def
  by (intro quiet.keeps_intros quiet_steps quiet_on_desktop)

lemma quiet_phases: "keeps same_launch (no_active_run E)" "keeps same_launch (signed_arena E a)"
  "keeps same_launch (checked_launch_account E m acc)" "keeps same_launch (eligible_strategy E m v t)"
  "keeps same_launch (forked_tokens E t d)"
  unfolding no_active_run_def signed_arena_def checked_launch_account_def eligible_strategy_def forked_tokens_def Let_def
  by (intro quiet.keeps_intros keeps_try quiet_steps quiet_on_desktop quiet_request quiet_opened; auto intro: quiet.keeps_intros)+

lemma quiet_checked: "keeps same_launch (checked_launch E q)"
  unfolding checked_launch_def
  by (intro quiet.keeps_intros quiet_phases quiet_steps) (auto intro!: quiet.keeps_intros quiet_phases quiet_steps)

section \<open>What the checks establish\<close>

text \<open>The manifest is the one of the arena with this id among those the server lists.\<close>

definition offered_arena :: "'w shell_env \<Rightarrow> uuid \<Rightarrow> signed_manifest \<Rightarrow> bool" where
  "offered_arena E arena_id manifest \<longleftrightarrow> (\<exists>arenas a (s :: 'w shell) s'. on_net (fetch_public_arenas E) s = (Inr arenas, s')
     \<and> a \<in> set arenas \<and> pn_id a = uuid_str (dk_P (se_D E)) arena_id
     \<and> from_signed_value (dk_P (se_D E)) (sc_enc_manifest (se_C E)) (sc_dec_manifest (se_C E))
          (pn_manifest a) (pn_manifest_sha256 a) (pn_signer_public_key a) (pn_signature a) = Inr manifest)"

text \<open>The strategy is what the account's version with this id opens to, for the device the vault names.\<close>

definition opened_version :: "'w shell_env \<Rightarrow> uuid \<Rightarrow> uuid \<Rightarrow> strategy_bundle \<Rightarrow> bool" where
  "opened_version E version_id device_id strategy \<longleftrightarrow>
     (\<exists>token versions e key (s1 :: 'w shell) s2 s3 s4. on_net (list_agent_version_envelopes E token) s1 = (Inr versions, s2)
        \<and> e \<in> set versions \<and> ve_version_id e = version_id \<and> stored_device_id E s3 = (Inr device_id, s4)
        \<and> open_agent_version (dk_P (se_D E)) (se_A E) (sc_dec_bundle (se_C E)) e device_id key = Inr strategy
        \<and> ve_model_id e = sb_model_id strategy)"

definition launch_checked :: "'w shell_env \<Rightarrow> launch_request \<Rightarrow> arena_launch \<Rightarrow> bool" where
  "launch_checked E q l \<longleftrightarrow>
     valid_execution_account (lq_execution_account q)
     \<and> arena_settings_ok (lq_decision_cooldown_seconds q) (lq_isolated_leverage q)
     \<and> verify_manifest (dk_P (se_D E)) (sc_enc_manifest (se_C E)) (sc_dec_manifest (se_C E)) (al_manifest l) = Inr ()
     \<and> am_mode (sm_manifest (al_manifest l)) \<noteq> HistoricalBacktest
     \<and> (\<exists>a. valid_initial_venue_account (sm_manifest (al_manifest l)) a)
     \<and> List.member (am_eligible_models (sm_manifest (al_manifest l))) (sb_model_id (al_strategy l))
     \<and> al_agent_version_id l \<noteq> 0 \<and> dt_device_id (al_runner l) = al_device_id l
     \<and> dk_uuid (se_D E) (lq_arena_id q) = Some (al_arena_id l)
     \<and> dk_uuid (se_D E) (lq_agent_version_id q) = Some (al_agent_version_id l)
     \<and> offered_arena E (al_arena_id l) (al_manifest l)
     \<and> opened_version E (al_agent_version_id l) (al_device_id l) (al_strategy l)"

lemma signed_arena_Inr:
  assumes "signed_arena E arena_id s = (Inr manifest, s')"
  shows "offered_arena E arena_id manifest"
    and "verify_manifest (dk_P (se_D E)) (sc_enc_manifest (se_C E)) (sc_dec_manifest (se_C E)) manifest = Inr ()"
proof -
  from assms obtain arenas a s1 where f: "on_net (fetch_public_arenas E) s = (Inr arenas, s1)"
    and a: "find (\<lambda>a. pn_id a = uuid_str (dk_P (se_D E)) arena_id) arenas = Some a"
    and m: "from_signed_value (dk_P (se_D E)) (sc_enc_manifest (se_C E)) (sc_dec_manifest (se_C E))
          (pn_manifest a) (pn_manifest_sha256 a) (pn_signer_public_key a) (pn_signature a) = Inr manifest"
    by (auto simp: signed_arena_def slift_def elim!: sbind_InrE)
  have "a \<in> set arenas" "pn_id a = uuid_str (dk_P (se_D E)) arena_id" using a by (auto simp: find_Some_iff)
  with f m show "offered_arena E arena_id manifest" unfolding offered_arena_def by blast
  show "verify_manifest (dk_P (se_D E)) (sc_enc_manifest (se_C E)) (sc_dec_manifest (se_C E)) manifest = Inr ()"
    using m by (auto simp: from_signed_value_def Let_def)
qed

text \<open>The desktop's check of the account is the one the daemon makes.\<close>

lemma checked_launch_account_Inr:
  assumes "checked_launch_account E m acc s = (Inr a, s')"
  shows "am_mode m \<noteq> HistoricalBacktest" and "valid_initial_venue_account m a"
  using assms
  by (auto simp: checked_launch_account_def slift_def sret_def validate_launch_account_def valid_initial_venue_account_def
      elim!: sbind_InrE split: if_splits option.splits)

lemma open_agent_version_id: "open_agent_version P A dec e d k = Inr b \<Longrightarrow> ve_version_id e \<noteq> 0"
  by (auto simp: open_agent_version_def split: if_splits)

lemma eligible_strategy_Inr:
  assumes "eligible_strategy E m v t s = (Inr (d, b), s')"
  shows "List.member (am_eligible_models m) (sb_model_id b)" and "v \<noteq> 0" and "opened_version E v d b"
proof -
  obtain x s1 where x: "opened_strategy E v t s = (Inr x, s1)"
    and rest: "(case x of (envelope, device_id, strategy) \<Rightarrow>
      if sb_model_id strategy \<noteq> ve_model_id envelope \<or> \<not> List.member (am_eligible_models m) (sb_model_id strategy)
      then slift (Inl DkAgentVersion) else sret (device_id, strategy)) s1 = (Inr (d, b), s')"
    using assms unfolding eligible_strategy_def by (rule sbind_InrE)
  obtain e d' b' where e': "x = (e, d', b')" by (cases x)
  have ok: "\<not> (sb_model_id b' \<noteq> ve_model_id e \<or> \<not> List.member (am_eligible_models m) (sb_model_id b'))" and "d' = d" "b' = b"
    using rest by (simp_all add: e' slift_def sret_def split: if_splits)
  then have m: "List.member (am_eligible_models m) (sb_model_id b)" and model: "ve_model_id e = sb_model_id b"
    and o: "opened_strategy E v t s = (Inr (e, d, b), s1)" using x e' by simp_all
  show "List.member (am_eligible_models m) (sb_model_id b)" by (rule m)
  from o obtain versions key s2 s3 where l: "on_net (list_agent_version_envelopes E t) s = (Inr versions, s2)"
    and f: "find (\<lambda>v'. ve_version_id v' = v) versions = Some e" and d: "stored_device_id E s2 = (Inr d, s3)"
    and b: "open_agent_version (dk_P (se_D E)) (se_A E) (sc_dec_bundle (se_C E)) e d key = Inr b"
    by (auto simp: opened_strategy_def slift_def sret_def elim!: sbind_InrE)
  have e: "e \<in> set versions" "ve_version_id e = v" using f by (auto simp: find_Some_iff)
  with b show "v \<noteq> 0" by (auto dest: open_agent_version_id)
  show "opened_version E v d b" unfolding opened_version_def using l e d b model by blast
qed

lemma forked_tokens_Inr: "forked_tokens E t d s = (Inr tokens, s') \<Longrightarrow> dt_device_id tokens = d"
  by (auto simp: forked_tokens_def Let_def slift_def sret_def elim!: sbind_InrE split: if_splits)

lemma checked_launch_Inr:
  assumes "checked_launch E q s = (Inr l, s')"
  shows "launch_checked E q l"
proof -
  from assms obtain token :: device_tokens and account s1 s2 s3 s4 s5 s6 where
      v: "valid_execution_account (lq_execution_account q)" "arena_settings_ok (lq_decision_cooldown_seconds q) (lq_isolated_leverage q)"
        "dk_uuid (se_D E) (lq_arena_id q) = Some (al_arena_id l)"
        "dk_uuid (se_D E) (lq_agent_version_id q) = Some (al_agent_version_id l)"
    and m: "signed_arena E (al_arena_id l) s1 = (Inr (al_manifest l), s2)"
    and a: "checked_launch_account E (sm_manifest (al_manifest l)) (lq_execution_account q) s2 = (Inr account, s3)"
    and b: "eligible_strategy E (sm_manifest (al_manifest l)) (al_agent_version_id l) (dt_access_token token) s3
      = (Inr (al_device_id l, al_strategy l), s4)"
    and t: "forked_tokens E (dt_access_token token) (al_device_id l) s5 = (Inr (al_runner l), s6)"
    unfolding checked_launch_def by (auto simp: slift_def sret_def elim!: sbind_InrE split: if_splits)
  show ?thesis
    unfolding launch_checked_def
    using v signed_arena_Inr [OF m] checked_launch_account_Inr [OF a] eligible_strategy_Inr [OF b] forked_tokens_Inr [OF t] by blast
qed

section \<open>What is written and started\<close>

lemma write_runtime_json_started: "keeps (\<lambda>s s'. sl_started s' = sl_started s) (write_runtime_json E path content)"
  by (auto simp: keeps_def write_runtime_json_def sbind_def slift_def sput_def sret_def shell_world_def on_desktop_def on_vault_def
      vault_world_def split: prod.splits option.splits sum.splits)

lemma write_runtime_json_Inr:
  assumes "write_runtime_json E path content s = (Inr (), s')"
  shows "sl_files s' = (sl_files s)(path := content)" and "content \<noteq> None"
proof -
  from assms obtain encoded left s1 where c: "content = Some encoded"
    and w: "shell_world (se_write E path encoded) s = (Inr (True, left), s1)"
    and s': "s' = s1\<lparr>sl_files := (sl_files s1)(path := Some encoded)\<rparr>"
    unfolding write_runtime_json_def
    by (auto simp: slift_def sput_def sret_def elim!: sbind_InrE split: if_splits)
  have "sl_files s1 = sl_files s" using keepsD [OF quiet_steps(1) w] by (simp add: same_launch_def)
  then show "sl_files s' = (sl_files s)(path := content)" "content \<noteq> None" by (simp_all add: s' c)
qed

lemma create_private_directory_quiet: "keeps same_launch (create_private_directory E path)"
  unfolding create_private_directory_def by (intro quiet.keeps_intros quiet_steps)

lemma keeps_started: "keeps same_launch m \<Longrightarrow> keeps (\<lambda>s s'. sl_started s' = sl_started s) m"
  by (auto simp: keeps_def same_launch_def)

interpretation started: step_relation "\<lambda>s s'. sl_started s' = sl_started s"
  by unfold_locales simp_all

lemma write_launch_files_started:
  "keeps (\<lambda>s s'. sl_started s' = sl_started s) (write_launch_files E a m h v acc d b n l)"
  unfolding write_launch_files_def Let_def
  by (intro started.keeps_intros write_runtime_json_started keeps_started [OF create_private_directory_quiet])
    (auto intro: started.keeps_ret write_runtime_json_started split: option.split)

lemma write_launch_files_Inr:
  assumes "write_launch_files E arena_id manifest handoff version acc device strategy n l s = (Inr (path, c), s')"
  obtains directory where "c = launch_config (dk_P (se_D E)) directory arena_id handoff version acc strategy n l"
    and "sl_files s' (la_arena_manifest c) = sc_signed (se_C E) manifest" and "sc_signed (se_C E) manifest \<noteq> None"
    and "case handoff of None \<Rightarrow> True | Some v \<Rightarrow> json_to_vec (dk_P (se_D E)) v \<noteq> None
      \<and> sl_files s' (runtime_file (dk_P (se_D E)) directory ''handoff'' arena_id) = json_to_vec (dk_P (se_D E)) v"
    and "sl_files s' path = json_to_vec (dk_P (se_D E)) (run_config_json (dk_P (se_D E)) device (api_origin_of (se_D E))
      (in_directory directory ''state'') c)" and "sl_files s' path \<noteq> None"
proof -
  let ?P = "dk_P (se_D E)"
  from assms obtain directory s1 s2 s3 where
      c: "c = launch_config ?P directory arena_id handoff version acc strategy n l"
    and path: "path = runtime_file ?P directory ''run'' arena_id"
    and m: "write_runtime_json E (la_arena_manifest c) (sc_signed (se_C E) manifest) s1 = (Inr (), s2)"
    and h: "(case handoff of None \<Rightarrow> sret ()
       | Some v \<Rightarrow> write_runtime_json E (runtime_file ?P directory ''handoff'' arena_id) (json_to_vec ?P v)) s2 = (Inr (), s3)"
    and r: "write_runtime_json E path (json_to_vec ?P (run_config_json ?P device (api_origin_of (se_D E))
         (in_directory directory ''state'') c)) s3 = (Inr (), s')"
    unfolding write_launch_files_def Let_def by (auto simp: slift_def sret_def elim!: sbind_InrE)
  have files: "la_arena_manifest c = runtime_file ?P directory ''arena'' arena_id" by (simp add: c launch_config_def)
  have apart: "runtime_file ?P directory ''arena'' arena_id \<noteq> runtime_file ?P directory ''handoff'' arena_id"
    "runtime_file ?P directory ''arena'' arena_id \<noteq> path" "runtime_file ?P directory ''handoff'' arena_id \<noteq> path"
    by (simp_all add: path runtime_file_def in_directory_def)
  note f = write_runtime_json_Inr [OF m] write_runtime_json_Inr [OF r]
  show thesis
  proof (cases handoff)
    case None
    show ?thesis by (rule that [OF c]) (use f h None apart in \<open>simp_all add: files sret_def\<close>)
  next
    case (Some v)
    then have "write_runtime_json E (runtime_file ?P directory ''handoff'' arena_id) (json_to_vec ?P v) s2 = (Inr (), s3)"
      using h by simp
    note f = f write_runtime_json_Inr [OF this]
    show ?thesis by (rule that [OF c]) (use f Some apart in \<open>simp_all add: files\<close>)
  qed
qed

text \<open>At most one process is started, and no file is touched.\<close>

definition starts_one :: "string list \<Rightarrow> string \<Rightarrow> 'w shell \<Rightarrow> 'w shell \<Rightarrow> bool" where
  "starts_one args input s s' \<longleftrightarrow> sl_files s' = sl_files s
     \<and> (sl_started s' = sl_started s \<or> sl_started s' = sl_started s @ [(args, input)])"

lemma start_sidecar_one:
  assumes "start_sidecar E args input s = (r, s')"
  shows "starts_one args input s s'"
  using assms unfolding start_sidecar_def
  by (auto simp: sput_def sret_def starts_one_def same_launch_def elim!: sbind_cases dest!: keepsD [OF quiet_steps(1)] split: if_splits)

lemma occupy_slot_one:
  assumes "occupy_slot E g args input s = (r, s')"
  shows "starts_one args input s s'"
  using assms unfolding occupy_slot_def
proof (cases rule: sbind_cases)
  case (failed e)
  then show ?thesis by (blast intro: start_sidecar_one)
next
  case (ok outcome s1)
  have k: "keeps same_launch (case outcome of
       SpawnFailed \<Rightarrow> sbind (on_slot (release_companion_slot g)) (\<lambda>_. slift (Inl DkCompanion))
     | NotWritten pid \<Rightarrow>
         sbind (kill_child E pid) (\<lambda>_.
         sbind (on_slot (release_companion_slot g)) (\<lambda>_. slift (Inl DkCompanion)))
     | Spawned pid \<Rightarrow> sput (\<lambda>s. s\<lparr>sl_child := Some pid\<rparr>))"
    by (auto intro!: quiet.keeps_intros quiet_steps quiet_put_child split: spawn_outcome.split)
  show ?thesis
    using keepsD [OF k ok(2)] start_sidecar_one [OF ok(1)] by (auto simp: starts_one_def same_launch_def)
qed

lemma quiet_then_one:
  assumes "sbind m f s = (r, s')" and "keeps same_launch m" and "\<And>x s1. f x s1 = (r, s') \<Longrightarrow> starts_one args input s1 s'"
  shows "starts_one args input s s'"
  using assms(1)
proof (cases rule: sbind_cases)
  case (failed e)
  then show ?thesis using keepsD [OF assms(2)] by (auto simp: starts_one_def same_launch_def)
next
  case (ok x s1)
  then show ?thesis using keepsD [OF assms(2)] assms(3) by (fastforce simp: starts_one_def same_launch_def)
qed

lemma launch_desktop_run_one:
  assumes "launch_desktop_run E path frame s = (r, s')"
  shows "\<exists>name. starts_one [''desktop-run'', path, ''--ipc-name'', name] frame s s'"
  using assms unfolding launch_desktop_run_def
proof (cases rule: sbind_cases)
  case (failed e)
  then show ?thesis using keepsD [OF quiet_on_desktop] by (fastforce simp: starts_one_def same_launch_def)
next
  case (ok credentials s1)
  have "starts_one [''desktop-run'', path, ''--ipc-name'', cc_ipc_name credentials] frame s1 s'"
    using ok(2) by (elim quiet_then_one) (auto intro: quiet_steps quiet_take occupy_slot_one elim!: quiet_then_one)
  then show ?thesis using keepsD [OF quiet_on_desktop ok(1)] by (auto simp: starts_one_def same_launch_def)
qed

section \<open>A launched arena is one the daemon prepares\<close>

lemma launch_config_valid:
  assumes "launch_checked E q l"
  shows "\<not> configuration_invalid (launch_config P directory arena_id handoff (al_agent_version_id l) (lq_execution_account q)
      (al_strategy l) (lq_decision_cooldown_seconds q) (lq_isolated_leverage q)) (sm_manifest (al_manifest l))
      (lq_decision_cooldown_seconds q) (lq_isolated_leverage q)"
proof -
  have "\<not> blank CARGO_PKG_VERSION" by (simp add: CARGO_PKG_VERSION_def) code_simp
  moreover have "m = HyperliquidTestnet \<or> m = HyperliquidMainnet" if "m \<noteq> HistoricalBacktest" for m
    using that by (cases m) simp_all
  ultimately show ?thesis
    using assms
    by (simp add: configuration_invalid_def launch_config_def launch_checked_def lower_account arena_settings_ok_def not_less)
qed

text \<open>Reading a manifest and a snapshot back from their files.\<close>

definition file_law :: "'w shell_env \<Rightarrow> (string \<Rightarrow> signed_manifest option) \<Rightarrow> (string \<Rightarrow> json option) \<Rightarrow> bool" where
  "file_law E parse_signed parse_value \<longleftrightarrow>
     (\<forall>m bytes. sc_signed (se_C E) m = Some bytes \<longrightarrow> parse_signed bytes = Some m)
     \<and> (\<forall>v bytes. json_to_vec (dk_P (se_D E)) v = Some bytes \<longrightarrow> parse_value bytes = Some v)"

lemma prepared_files:
  assumes "file_law E parse_signed parse_value" and "launch_checked E q l"
    and "write_launch_files E (al_arena_id l) (al_manifest l) (lq_handoff_snapshot q) (al_agent_version_id l)
              (lq_execution_account q) (al_device_id l) (al_strategy l) (lq_decision_cooldown_seconds q)
              (lq_isolated_leverage q) s = (Inr (path, c), s')"
  shows "\<exists>directory. sl_files s' path = json_to_vec (dk_P (se_D E)) (run_config_json (dk_P (se_D E)) (al_device_id l)
      (api_origin_of (se_D E)) directory c)"
    and "(\<forall>v. lq_handoff_snapshot q = Some v \<longrightarrow> is_object v \<and> fixed_point_value v) \<longrightarrow>
      (\<exists>pa. prepare (dk_P (se_D E)) (sc_enc_manifest (se_C E)) (sc_dec_manifest (se_C E)) (sl_files s') parse_signed parse_value c = Inr pa
        \<and> pa_decision_cooldown_seconds pa = lq_decision_cooldown_seconds q \<and> pa_isolated_leverage pa = lq_isolated_leverage q
        \<and> pa_execution_account pa = map to_ascii_lower (lq_execution_account q) \<and> pa_handoff_snapshot pa = lq_handoff_snapshot q
        \<and> pa_signed pa = al_manifest l \<and> pa_agent_version_id pa = al_agent_version_id l \<and> pa_model_id pa = sb_model_id (al_strategy l))"
proof -
  let ?P = "dk_P (se_D E)"
  from assms(3) obtain directory where
      c: "c = launch_config ?P directory (al_arena_id l) (lq_handoff_snapshot q) (al_agent_version_id l)
              (lq_execution_account q) (al_strategy l) (lq_decision_cooldown_seconds q) (lq_isolated_leverage q)"
    and m: "sl_files s' (la_arena_manifest c) = sc_signed (se_C E) (al_manifest l)" "sc_signed (se_C E) (al_manifest l) \<noteq> None"
    and h: "case lq_handoff_snapshot q of None \<Rightarrow> True | Some v \<Rightarrow> json_to_vec ?P v \<noteq> None
      \<and> sl_files s' (runtime_file ?P directory ''handoff'' (al_arena_id l)) = json_to_vec ?P v"
    and r: "sl_files s' path = json_to_vec ?P (run_config_json ?P (al_device_id l) (api_origin_of (se_D E))
      (in_directory directory ''state'') c)"
    by (rule write_launch_files_Inr)
  show "\<exists>directory. sl_files s' path = json_to_vec ?P (run_config_json ?P (al_device_id l) (api_origin_of (se_D E)) directory c)"
    using r by blast
  obtain bytes where b: "sl_files s' (la_arena_manifest c) = Some bytes" "parse_signed bytes = Some (al_manifest l)"
    using m assms(1) by (auto simp: file_law_def)
  have v: "verify_manifest ?P (sc_enc_manifest (se_C E)) (sc_dec_manifest (se_C E)) (al_manifest l) = Inr ()"
    using assms(2) by (simp add: launch_checked_def)
  have f: "la_decision_cooldown_seconds c = Some (lq_decision_cooldown_seconds q)" "la_isolated_leverage c = Some (lq_isolated_leverage q)"
    "la_execution_account c = map to_ascii_lower (lq_execution_account q)"
    "la_agent_version_id c = al_agent_version_id l" "la_model_id c = sb_model_id (al_strategy l)"
    "la_handoff_snapshot c = map_option (\<lambda>_. runtime_file ?P directory ''handoff'' (al_arena_id l)) (lq_handoff_snapshot q)"
    by (simp_all add: c launch_config_def)
  have ok: "\<not> configuration_invalid c (sm_manifest (al_manifest l)) (lq_decision_cooldown_seconds q) (lq_isolated_leverage q)"
    unfolding c by (rule launch_config_valid [OF assms(2)])
  have idem: "to_ascii_lower (to_ascii_lower x) = to_ascii_lower x" for x
    by (auto simp: to_ascii_lower_def byte_def)
  show "(\<forall>v. lq_handoff_snapshot q = Some v \<longrightarrow> is_object v \<and> fixed_point_value v) \<longrightarrow>
      (\<exists>pa. prepare ?P (sc_enc_manifest (se_C E)) (sc_dec_manifest (se_C E)) (sl_files s') parse_signed parse_value c = Inr pa
        \<and> pa_decision_cooldown_seconds pa = lq_decision_cooldown_seconds q \<and> pa_isolated_leverage pa = lq_isolated_leverage q
        \<and> pa_execution_account pa = map to_ascii_lower (lq_execution_account q) \<and> pa_handoff_snapshot pa = lq_handoff_snapshot q
        \<and> pa_signed pa = al_manifest l \<and> pa_agent_version_id pa = al_agent_version_id l \<and> pa_model_id pa = sb_model_id (al_strategy l))"
  proof (intro impI)
    assume fixed: "\<forall>v. lq_handoff_snapshot q = Some v \<longrightarrow> is_object v \<and> fixed_point_value v"
    show "\<exists>pa. prepare ?P (sc_enc_manifest (se_C E)) (sc_dec_manifest (se_C E)) (sl_files s') parse_signed parse_value c = Inr pa
        \<and> pa_decision_cooldown_seconds pa = lq_decision_cooldown_seconds q \<and> pa_isolated_leverage pa = lq_isolated_leverage q
        \<and> pa_execution_account pa = map to_ascii_lower (lq_execution_account q) \<and> pa_handoff_snapshot pa = lq_handoff_snapshot q
        \<and> pa_signed pa = al_manifest l \<and> pa_agent_version_id pa = al_agent_version_id l \<and> pa_model_id pa = sb_model_id (al_strategy l)"
      using h assms(1) fixed
      by (cases "lq_handoff_snapshot q") (auto simp: prepare_def b v f ok idem file_law_def Let_def)
  qed
qed

text \<open>A launch fails before it starts anything, or goes through all of its phases.\<close>

lemma launch_arena_started:
  assumes "launch_arena E q s = (r, s')"
  obtains (not_started) "sl_started s' = sl_started s"
  | (launched) l s1 path c s2 frame s3 r' where "checked_launch E q s = (Inr l, s1)"
      and "write_launch_files E (al_arena_id l) (al_manifest l) (lq_handoff_snapshot q) (al_agent_version_id l)
              (lq_execution_account q) (al_device_id l) (al_strategy l) (lq_decision_cooldown_seconds q)
              (lq_isolated_leverage q) s1 = (Inr (path, c), s2)"
      and "on_desktop (credential_frame (se_D E) (dt_refresh_token (al_runner l))) s2 = (Inr frame, s3)"
      and "launch_desktop_run E path frame s3 = (r', s')"
      and "sl_started s3 = sl_started s" and "sl_files s3 = sl_files s2"
  using assms unfolding launch_arena_def
proof (cases rule: sbind_cases)
  case (failed e)
  show ?thesis using keepsD [OF quiet_checked failed(1)] not_started by (simp add: same_launch_def)
next
  case (ok l s1)
  have same1: "sl_started s1 = sl_started s" using keepsD [OF quiet_checked ok(1)] by (simp add: same_launch_def)
  from ok(2) show ?thesis
  proof (cases rule: sbind_cases)
    case (failed e)
    show ?thesis using keepsD [OF write_launch_files_started failed(1)] same1 not_started by simp
  next
    case inner: (ok pc s2)
    obtain path c where pc: "pc = (path, c)" by fastforce
    have same2: "sl_started s2 = sl_started s" using keepsD [OF write_launch_files_started inner(1)] same1 by simp
    from inner(2) show ?thesis unfolding pc prod.case
    proof (cases rule: sbind_cases)
      case (failed e)
      show ?thesis using keepsD [OF quiet_on_desktop failed(1)] same2 not_started by (simp add: same_launch_def)
    next
      case frame: (ok frame s3)
      have "sl_started s3 = sl_started s" "sl_files s3 = sl_files s2"
        using keepsD [OF quiet_on_desktop frame(1)] same2 by (simp_all add: same_launch_def)
      moreover from frame(2) obtain r' where "launch_desktop_run E path frame s3 = (r', s')"
        by (auto simp: sret_def elim!: sbind_cases)
      ultimately show ?thesis using launched [OF ok(1) inner(1) [unfolded pc] frame(1)] by blast
    qed
  qed
qed

text \<open>
  The desktop only starts runs that the daemon accepts: whatever a launch does, it starts no process, or
  exactly one, on the configuration it has written; and with that configuration and the files on disk
  the daemon's own \<open>prepare\<close> succeeds, with the verified manifest, the requested settings and account,
  if the handoff snapshot, when there is one, is an object of fixed-point values.
\<close>

theorem launched_arena_is_prepared:
  assumes "file_law E parse_signed parse_value" and "launch_arena E q s = (r, s')"
  shows "sl_started s' = sl_started s \<or>
    (\<exists>path name frame device directory c.
      sl_started s' = sl_started s @ [([''desktop-run'', path, ''--ipc-name'', name], frame)]
      \<and> sl_files s' path = json_to_vec (dk_P (se_D E)) (run_config_json (dk_P (se_D E)) device (api_origin_of (se_D E)) directory c)
      \<and> ((\<forall>v. lq_handoff_snapshot q = Some v \<longrightarrow> is_object v \<and> fixed_point_value v) \<longrightarrow>
        (\<exists>pa. prepare (dk_P (se_D E)) (sc_enc_manifest (se_C E)) (sc_dec_manifest (se_C E)) (sl_files s') parse_signed parse_value c = Inr pa
          \<and> pa_decision_cooldown_seconds pa = lq_decision_cooldown_seconds q \<and> pa_isolated_leverage pa = lq_isolated_leverage q
          \<and> pa_execution_account pa = map to_ascii_lower (lq_execution_account q) \<and> pa_handoff_snapshot pa = lq_handoff_snapshot q)))"
  using assms(2)
proof (cases rule: launch_arena_started)
  case (launched l s1 path c s2 frame s3 r')
  obtain name where f: "sl_files s' = sl_files s2"
    and one: "sl_started s' = sl_started s
      \<or> sl_started s' = sl_started s @ [([''desktop-run'', path, ''--ipc-name'', name], frame)]"
    using launch_desktop_run_one [OF launched(4)] launched(5,6) unfolding starts_one_def by metis
  note prepared = prepared_files [OF assms(1) checked_launch_Inr [OF launched(1)] launched(2)]
  from prepared(1) obtain directory where "sl_files s' path = json_to_vec (dk_P (se_D E))
      (run_config_json (dk_P (se_D E)) (al_device_id l) (api_origin_of (se_D E)) directory c)" unfolding f ..
  with one prepared(2) show ?thesis unfolding f by blast
qed (rule disjI1)

end
