(* ===== verification/LaunchTrial.thy ===== *)
theory LaunchTrial
  imports Launch
begin

text \<open>
  A launch of the desktop shell that succeeds, step by step: an environment with an open vault, one arena and
  one strategy, and the witness of \<open>launched_arena_is_prepared\<close>.
\<close>

section \<open>A concrete launch\<close>

definition launch_bundle :: strategy_bundle where
  "launch_bundle = toy_bundle\<lparr>sb_model_id := ''crow-qwen3-5-27b''\<rparr>"

definition launch_manifest :: signed_manifest where
  "launch_manifest = toy_signed_arena\<lparr>sm_signed_manifest := Some JNull\<rparr>"

definition toy_launch :: launch_request where
  "toy_launch = \<lparr>lq_arena_id = ''arena'', lq_agent_version_id = ''version'', lq_execution_account = ''0x'' @ replicate 40 (CHR ''A''),
     lq_handoff_snapshot = None, lq_decision_cooldown_seconds = 600, lq_isolated_leverage = 1\<rparr>"

text \<open>The three ids of the launch have texts of their own.\<close>

definition launch_ids :: prims where
  "launch_ids = toy_prims\<lparr>uuid_str := \<lambda>u. if u = 5 then ''uuid'' else if u = 9 then ''nine'' else ''other''\<rparr>"

definition launch_json :: json where
  "launch_json = run_config_json launch_ids 9 ''origin'' ''r/state''
     (launch_config launch_ids ''r'' 1 None 5 (lq_execution_account toy_launch) launch_bundle 600 1)"

definition launch_prims :: prims where
  "launch_prims = launch_ids\<lparr>json_to_vec := (\<lambda>v. if v = JNull then Some ''json'' else if v = launch_json then Some ''config'' else None)\<rparr>"

definition launch_vault :: vault where
  "launch_vault = stale_vault\<lparr>va_device_id := Some ''device'', va_encryption_secret := Some (replicate 32 (CHR ''e'')),
     va_journal_key := Some (replicate 32 (CHR ''j'')), va_hyperliquid_api_wallet_key := Some (replicate 32 (CHR ''w''))\<rparr>"

definition toy_shell_env :: "nat shell_env" where
  "toy_shell_env = \<lparr>se_D = toy_rotating\<lparr>dk_P := launch_prims,
       dk_K := (dk_K toy_rotating)\<lparr>kc_random := \<lambda>w. (replicate 32 (CHR ''r''), w)\<rparr>, dk_origin := Some ''origin'',
       dk_uuid := (\<lambda>s. Some (if s = ''version'' then 5 else if s = ''device'' then 9 else 1)),
       dk_C := \<lparr>ad_start = (\<lambda>v. None), ad_tokens = (\<lambda>v. Some (rotated_tokens\<lparr>dt_device_id := 9\<rparr>))\<rparr>\<rparr>,
     se_A = toy_aead,
     se_C = \<lparr>sc_devices = (\<lambda>v. None), sc_runs = (\<lambda>v. None),
       sc_arenas = (\<lambda>v. Some [\<lparr>pn_id = ''other'', pn_mode = '''', pn_manifest = JNull, pn_state = '''', pn_starts_at = '''',
         pn_ends_at = '''', pn_tickets_enabled = False, pn_manifest_sha256 = ''json'',
         pn_signer_public_key = replicate 32 (CHR ''k''), pn_signature = ''sig''\<rparr>]),
       sc_versions = (\<lambda>v. Some [toy_envelope\<lparr>ve_model_id := ''crow-qwen3-5-27b''\<rparr>]), sc_envelope = (\<lambda>e. None),
       sc_enc_bundle = (\<lambda>b. None), sc_dec_bundle = (\<lambda>s. Some launch_bundle), sc_enc_manifest = (\<lambda>m. Some JNull),
       sc_dec_manifest = (\<lambda>v. Some sample_manifest), sc_signed = (\<lambda>m. if m = launch_manifest then Some ''manifest'' else None),
       sc_request = (\<lambda>q. None), sc_response = (\<lambda>s. None)\<rparr>,
     se_uuid = (\<lambda>w. (3, w)), se_ipc = (\<lambda>name line w. (None, w)), se_spawn = (\<lambda>args input w. (Spawned 7, w)),
     se_kill = (\<lambda>pid w. w), se_sleep = (\<lambda>n w. w), se_instant = (\<lambda>w. (0, w)), se_url_text = ur_rest,
     se_browser = (\<lambda>u w. (True, w)),
     se_account = (\<lambda>m key a w. (Some \<lparr>as_venue_time_ms = 0, as_equity = 100, as_withdrawable = 100, as_positions = []\<rparr>, w)),
     se_address = (\<lambda>k. None), se_seal = (\<lambda>w. (('''', '''', \<lambda>i. ('''', '''')), w)), se_runtime = Some ''r'',
     se_mkdir = (\<lambda>d w. (True, w)), se_write = (\<lambda>p b w. ((True, None), w)), se_platform = []\<rparr>"

definition toy_shell :: "nat shell" where
  "toy_shell = \<lparr>sl_desktop = (new_desktop (toy_vault_state\<lparr>vs_value := Some launch_vault\<rparr>))\<lparr>dt_status := Some True,
       dt_credentials := Some \<lparr>cc_secret = replicate 32 (CHR ''c''), cc_ipc_name = ''ipc''\<rparr>,
       dt_tokens := Some (rotated_tokens\<lparr>dt_device_id := 9\<rparr>)\<rparr>,
     sl_child = None, sl_files = (\<lambda>p. None), sl_started = []\<rparr>"

lemma toy_file_law:
  "file_law toy_shell_env (\<lambda>b. if b = ''manifest'' then Some launch_manifest else None)
     (\<lambda>b. if b = ''json'' then Some JNull else if b = ''config'' then Some launch_json else None)"
  by (auto simp: file_law_def toy_shell_env_def launch_prims_def toy_rotating_def split: if_splits)

text \<open>The vault is open and holds every secret, the tokens are fresh and the slot was never taken.\<close>

definition launch_ready :: "nat shell \<Rightarrow> bool" where
  "launch_ready s \<longleftrightarrow> (let d = sl_desktop s in vault_open launch_vault (dt_vault d) \<and> dt_status d = Some True
     \<and> dt_credentials d = Some \<lparr>cc_secret = replicate 32 (CHR ''c''), cc_ipc_name = ''ipc''\<rparr> \<and> \<not> dt_credentials_unavailable d
     \<and> dt_tokens d = Some (rotated_tokens\<lparr>dt_device_id := 9\<rparr>) \<and> \<not> dt_tokens_unavailable d
     \<and> cs_generation (dt_slot d) = 0) \<and> sl_started s = []"

lemmas shell_defs = on_desktop_def on_vault_def on_net_def on_slot_def shell_world_def vault_world_def vault_call_def
  sbind_def slift_def sret_def sget_def sput_def stry_def serr_def

lemma toy_shell_fields:
  "dk_P (se_D toy_shell_env) = launch_prims" "se_A toy_shell_env = toy_aead" "se_runtime toy_shell_env = Some ''r''"
  "dk_origin (se_D toy_shell_env) = Some ''origin''" "dk_now (se_D toy_shell_env) w = (0, w)" "se_uuid toy_shell_env w = (3, w)"
  "dk_uuid (se_D toy_shell_env) t = Some (if t = ''version'' then 5 else if t = ''device'' then 9 else 1)"
  "se_ipc toy_shell_env name line w = (None, w)" "se_spawn toy_shell_env args i w = (Spawned 7, w)" "se_sleep toy_shell_env n w = w"
  "se_mkdir toy_shell_env dir w = (True, w)" "se_write toy_shell_env p b w = ((True, None), w)"
  "sc_request (se_C toy_shell_env) q = None"
  by (simp_all add: toy_shell_env_def toy_rotating_def toy_desktop_env_def)

lemma ready_read:
  assumes "launch_ready s"
  shows "on_desktop (on_vault (read_vault K f)) s = (f launch_vault, s)"
  using assms open_read [of launch_vault "dt_vault (sl_desktop s)" K f]
  by (simp add: launch_ready_def Let_def on_desktop_def on_vault_def)

lemma ready_credentials:
  assumes "launch_ready s"
  shows "on_desktop (companion_credentials_of D) s = (Inr \<lparr>cc_secret = replicate 32 (CHR ''c''), cc_ipc_name = ''ipc''\<rparr>, s)"
  using assms by (simp add: launch_ready_def Let_def on_desktop_def companion_credentials_of_def)

lemma ready_no_active_run: "launch_ready s \<Longrightarrow> \<exists>s'. no_active_run toy_shell_env s = (Inr (), s') \<and> launch_ready s'"
  by (simp add: no_active_run_def companion_request_of_def companion_request_with_options_def send_companion_request_def
      stry_def sbind_def ready_credentials toy_shell_fields)
    (auto simp: shell_defs launch_ready_def Let_def vault_open_def split: prod.splits sum.splits)

lemma ready_tokens:
  assumes "launch_ready s"
  shows "\<exists>s'. tokens_of toy_shell_env s = (Inr (rotated_tokens\<lparr>dt_device_id := 9\<rparr>), s') \<and> launch_ready s'"
  using assms
  by (simp add: launch_ready_def Let_def tokens_of_def device_tokens_of_def device_authorized_def vault_open_def shell_defs
      toy_shell_fields rotated_tokens_def)

lemma ready_net:
  assumes "launch_ready s"
  shows "\<exists>s'. on_net (device_send (se_D toy_shell_env) m p a b) s = (Inr \<lparr>hp_status = 200, hp_body = Inr JNull\<rparr>, s') \<and> launch_ready s'"
  using assms
  by (simp add: on_net_def on_desktop_def on_vault_def vault_call_def device_send_def device_endpoint_def sbind_def slift_def serr_def
      transmit_def toy_shell_env_def toy_rotating_def toy_desktop_env_def toy_desktop_net_def launch_ready_def Let_def vault_open_def
      split: option.split)

lemma on_net_bind: "on_net (sbind m f) = sbind (on_net m) (\<lambda>x. on_net (f x))"
  by (auto simp: fun_eq_iff on_net_def on_desktop_def on_vault_def vault_call_def sbind_def split: prod.splits sum.splits)

lemma on_net_lift: "on_net (slift r) s = (r, s)" "on_net (sret x) s = (Inr x, s)"
  by (cases r) (simp_all add: on_net_def on_desktop_def on_vault_def vault_call_def slift_def sret_def)

lemma ready_signed_arena: "launch_ready s \<Longrightarrow> \<exists>s'. signed_arena toy_shell_env 1 s = (Inr launch_manifest, s') \<and> launch_ready s'"
proof -
  assume "launch_ready s"
  then obtain s1 where s1: "on_net (device_send (se_D toy_shell_env) HGet ''/api/v1/harness/arenas'' None None) s
      = (Inr \<lparr>hp_status = 200, hp_body = Inr JNull\<rparr>, s1)" "launch_ready s1" using ready_net by blast
  have v: "from_signed_value launch_prims (\<lambda>m. Some JNull) (\<lambda>v. Some sample_manifest) JNull ''json'' (replicate 32 (CHR ''k'')) ''sig''
      = Inr launch_manifest"
    by (simp add: from_signed_value_def Let_def verify_manifest_def sample_manifest_valid manifest_canonical_def canonical_json_def
        launch_prims_def launch_ids_def toy_prims_def verify_signature_def launch_manifest_def toy_signed_arena_def)
  have "sc_arenas (se_C toy_shell_env) w = Some [\<lparr>pn_id = ''other'', pn_mode = '''', pn_manifest = JNull, pn_state = '''',
       pn_starts_at = '''', pn_ends_at = '''', pn_tickets_enabled = False, pn_manifest_sha256 = ''json'',
       pn_signer_public_key = replicate 32 (CHR ''k''), pn_signature = ''sig''\<rparr>]"
    "sc_enc_manifest (se_C toy_shell_env) = (\<lambda>m. Some JNull)" "sc_dec_manifest (se_C toy_shell_env) = (\<lambda>v. Some sample_manifest)"
    "uuid_str launch_prims 1 = ''other''" for w
    by (simp_all add: toy_shell_env_def launch_prims_def launch_ids_def toy_prims_def)
  then show ?thesis
    using s1 v by (simp add: signed_arena_def fetch_public_arenas_def on_net_bind on_net_lift sbind_def slift_def toy_shell_fields)
qed

lemma launch_vault_secrets:
  "load_or_create_wallet_key launch_prims (dk_K (se_D toy_shell_env)) v = (Inr (replicate 32 (CHR ''w'')), v)"
  "load_or_create_encryption_key launch_prims (dk_K (se_D toy_shell_env)) v = (Inr (replicate 32 (CHR ''e'')), v)"
  "load_or_create_identity launch_prims (dk_K (se_D toy_shell_env)) v = (Inr (replicate 32 (CHR ''s'')), v)"
  "load_or_create_secret_32 launch_prims (dk_K (se_D toy_shell_env)) JOURNAL_KEY_ACCOUNT v = (Inr (replicate 32 (CHR ''j'')), v)"
  "load_secret_32 launch_prims (dk_K (se_D toy_shell_env)) SIGNING_SEED_ACCOUNT v = (Inr (replicate 32 (CHR ''s'')), v)"
  "load_secret_32 launch_prims (dk_K (se_D toy_shell_env)) ENCRYPTION_SECRET_ACCOUNT v = (Inr (replicate 32 (CHR ''e'')), v)"
  "load_password (dk_K (se_D toy_shell_env)) DEVICE_ID_ACCOUNT v = (Inr ''device'', v)"
  if "vault_open launch_vault v"
  using that
  by (simp_all add: load_or_create_wallet_key_def load_or_create_encryption_key_def load_or_create_identity_def
      load_or_create_secret_32_def load_secret_32_def load_password_def sbind_def open_read slift_def launch_vault_def stale_vault_def
      decode_vault_secret_def launch_prims_def launch_ids_def toy_prims_def toy_shell_env_def toy_rotating_def toy_keychain_def toy_desktop_env_def
      SIGNING_SEED_ACCOUNT_def ENCRYPTION_SECRET_ACCOUNT_def JOURNAL_KEY_ACCOUNT_def DEVICE_ID_ACCOUNT_def COMPANION_SECRET_ACCOUNT_def
      vault_secret_for_account_def HYPERLIQUID_API_WALLET_ACCOUNT_def ACCESS_TOKEN_ACCOUNT_def ACCESS_EXPIRES_AT_ACCOUNT_def
      REFRESH_TOKEN_ACCOUNT_def default_vault_def)

lemma ready_open: "launch_ready s \<Longrightarrow> vault_open launch_vault (dt_vault (sl_desktop s))"
  by (simp add: launch_ready_def Let_def)

lemma ready_secrets:
  assumes "launch_ready s"
  shows "on_desktop (on_vault (load_or_create_wallet_key launch_prims (dk_K (se_D toy_shell_env)))) s = (Inr (replicate 32 (CHR ''w'')), s)"
    and "on_desktop (on_vault (load_or_create_encryption_key launch_prims (dk_K (se_D toy_shell_env)))) s = (Inr (replicate 32 (CHR ''e'')), s)"
    and "on_desktop (on_vault (load_or_create_identity launch_prims (dk_K (se_D toy_shell_env)))) s = (Inr (replicate 32 (CHR ''s'')), s)"
    and "on_desktop (on_vault (load_password (dk_K (se_D toy_shell_env)) DEVICE_ID_ACCOUNT)) s = (Inr ''device'', s)"
  by (simp_all add: on_desktop_def on_vault_def launch_vault_secrets [OF ready_open [OF assms]])

lemma ready_account:
  assumes "launch_ready s"
  shows "\<exists>a s'. checked_launch_account toy_shell_env sample_manifest acc s = (Inr a, s') \<and> launch_ready s'"
proof -
  have m: "am_mode sample_manifest = HyperliquidTestnet" by (simp add: sample_manifest_def)
  show ?thesis
    using assms
    by (simp add: checked_launch_account_def sbind_def toy_shell_fields ready_secrets [OF assms] m)
      (simp add: shell_defs toy_shell_env_def validate_launch_account_def launch_ready_def Let_def vault_open_def)
qed

lemma launch_opened:
  "open_agent_version launch_prims toy_aead (\<lambda>s. Some launch_bundle) (toy_envelope\<lparr>ve_model_id := ''crow-qwen3-5-27b''\<rparr>) 9 k
     = Inr launch_bundle"
proof -
  have "validate_bundle launch_bundle = Inr ()"
    using toy_bundle_valid by (simp add: validate_bundle_def launch_bundle_def toy_bundle_def blank_def byte_def ascii_ws_def)
  then show ?thesis
    by (simp add: open_agent_version_def toy_envelope_def launch_prims_def launch_ids_def toy_prims_def toy_aead_def agent_version_aad_def
      unwrap_bundle_key_def decrypt_bundle_def decode_32_def decode_24_def derive_wrapping_key_def
      blank_def byte_def ascii_ws_def) (simp add: launch_bundle_def toy_bundle_def)
qed

lemma ready_strategy:
  assumes "launch_ready s"
  shows "\<exists>s'. eligible_strategy toy_shell_env sample_manifest 5 t s = (Inr (9, launch_bundle), s') \<and> launch_ready s'"
proof -
  obtain s1 where s1: "on_net (device_send (se_D toy_shell_env) HGet ''/api/v1/harness/agent-versions'' (Some (''Bearer '' @ t)) None) s
      = (Inr \<lparr>hp_status = 200, hp_body = Inr JNull\<rparr>, s1)" "launch_ready s1" using ready_net [OF assms] by blast
  have c: "sc_versions (se_C toy_shell_env) v = Some [toy_envelope\<lparr>ve_model_id := ''crow-qwen3-5-27b''\<rparr>]"
    "sc_dec_bundle (se_C toy_shell_env) = (\<lambda>s. Some launch_bundle)" for v
    by (simp_all add: toy_shell_env_def)
  have e: "ve_version_id (toy_envelope\<lparr>ve_model_id := ''crow-qwen3-5-27b''\<rparr>) = 5" "am_eligible_models sample_manifest = [''crow-qwen3-5-27b'']"
    "sb_model_id launch_bundle = ''crow-qwen3-5-27b''"
    by (simp_all add: toy_envelope_def sample_manifest_def launch_bundle_def)
  have o: "opened_strategy toy_shell_env 5 t s = (Inr (toy_envelope\<lparr>ve_model_id := ''crow-qwen3-5-27b''\<rparr>, 9, launch_bundle), s1)"
    using s1(1)
    by (simp add: opened_strategy_def list_agent_version_envelopes_def device_api_def on_net_bind on_net_lift sbind_def slift_def sret_def
      is_success_def c e(1) stored_device_id_def toy_shell_fields ready_secrets [OF s1(2)] launch_opened)
  have "\<exists>s'. eligible_strategy toy_shell_env sample_manifest 5 t s = (Inr (9, launch_bundle), s') \<and> s' = s1"
    by (simp add: eligible_strategy_def sbind_def o e(2,3) sret_def)
  then show ?thesis using s1(2) by blast
qed

lemma ready_enroll:
  assumes "launch_ready s"
  shows "\<exists>s'. on_net (enroll_arena_with_token toy_shell_env i v m t) s = (Inr (), s') \<and> launch_ready s'"
proof -
  have "\<exists>s'. on_net (device_api_empty (se_D toy_shell_env) HPost p t b) s = (Inr (), s') \<and> launch_ready s'" for p b
    using ready_net [OF assms, of HPost p "Some (''Bearer '' @ t)" "Some b"]
    by (auto simp: device_api_empty_def on_net_bind sbind_def on_net_lift is_success_def)
  then show ?thesis by (simp add: enroll_arena_with_token_def)
qed

lemma ready_fork:
  assumes "launch_ready s" and "t \<noteq> []"
  shows "\<exists>s'. forked_tokens toy_shell_env t 9 s = (Inr (rotated_tokens\<lparr>dt_device_id := 9\<rparr>), s') \<and> launch_ready s'"
proof -
  let ?u = "\<lparr>ur_scheme = ''https'', ur_host = Some ''api.crowcompute.ai'', ur_opaque = False, ur_rest = []\<rparr>"
  have "\<exists>s'. on_net (serr (\<lambda>_. DkAuthorization) (fork_tokens launch_prims (dk_N (se_D toy_shell_env)) (dk_C (se_D toy_shell_env)) ?u 3 t
      (replicate 32 (CHR ''s'')))) s = (Inr (rotated_tokens\<lparr>dt_device_id := 9\<rparr>), s') \<and> launch_ready s'"
    using assms
    by (simp add: fork_tokens_def Let_def auth_post_def send_body_def transmit_def sbind_def slift_def serr_def on_net_def on_desktop_def
      on_vault_def vault_call_def toy_shell_env_def toy_rotating_def toy_desktop_net_def toy_desktop_env_def error_for_status_def
      response_json_def checked_tokens_def rotated_tokens_def launch_ready_def vault_open_def)
  then obtain s' where f: "on_net (serr (\<lambda>_. DkAuthorization) (fork_tokens launch_prims (dk_N (se_D toy_shell_env))
      (dk_C (se_D toy_shell_env)) ?u 3 t (replicate 32 (CHR ''s'')))) s = (Inr (rotated_tokens\<lparr>dt_device_id := 9\<rparr>), s')" "launch_ready s'"
    by blast
  have "new_auth_client (dk_N (se_D toy_shell_env)) origin = Inr ?u" for origin
    by (simp add: new_auth_client_def check_origin_def crow_host_def ends_with_def toy_shell_env_def toy_rotating_def toy_desktop_net_def
      toy_desktop_env_def)
  moreover have "shell_world (se_uuid toy_shell_env) s = (Inr 3, s)"
    by (simp add: shell_world_def on_desktop_def on_vault_def vault_world_def toy_shell_fields)
  moreover have "dt_device_id (rotated_tokens\<lparr>dt_device_id := 9\<rparr>) = 9" by simp
  ultimately have "forked_tokens toy_shell_env t 9 s = (Inr (rotated_tokens\<lparr>dt_device_id := 9\<rparr>), s')"
    unfolding forked_tokens_def Let_def toy_shell_fields(1)
    by (simp add: sbind_def ready_secrets [OF assms(1)] slift_def sret_def f(1))
  then show ?thesis using f(2) by blast
qed

lemma ready_checked:
  assumes "launch_ready s"
  shows "\<exists>l s'. checked_launch toy_shell_env toy_launch s = (Inr l, s') \<and> launch_ready s'
    \<and> al_arena_id l = 1 \<and> al_manifest l = launch_manifest \<and> al_agent_version_id l = 5 \<and> al_device_id l = 9
    \<and> al_strategy l = launch_bundle \<and> dt_refresh_token (al_runner l) = ''crow_device_refresh_2''"
proof -
  have t: "dt_access_token (rotated_tokens\<lparr>dt_device_id := 9\<rparr>) = ''new''" by (simp add: rotated_tokens_def)
  obtain s1 where s1: "no_active_run toy_shell_env s = (Inr (), s1)" "launch_ready s1" using ready_no_active_run [OF assms] by blast
  obtain s2 where s2: "tokens_of toy_shell_env s1 = (Inr (rotated_tokens\<lparr>dt_device_id := 9\<rparr>), s2)" "launch_ready s2"
    using ready_tokens [OF s1(2)] by blast
  obtain s3 where s3: "signed_arena toy_shell_env 1 s2 = (Inr launch_manifest, s3)" "launch_ready s3"
    using ready_signed_arena [OF s2(2)] by blast
  obtain a s4 where s4: "checked_launch_account toy_shell_env sample_manifest (lq_execution_account toy_launch) s3 = (Inr a, s4)" "launch_ready s4"
    using ready_account [OF s3(2)] by blast
  obtain s5 where s5: "eligible_strategy toy_shell_env sample_manifest 5 ''new'' s4 = (Inr (9, launch_bundle), s5)" "launch_ready s5"
    using ready_strategy [OF s4(2)] by blast
  obtain s6 where s6: "on_net (enroll_arena_with_token toy_shell_env 1 5 (sb_model_id launch_bundle) ''new'') s5 = (Inr (), s6)" "launch_ready s6"
    using ready_enroll [OF s5(2)] by blast
  obtain s7 where s7: "forked_tokens toy_shell_env ''new'' 9 s6 = (Inr (rotated_tokens\<lparr>dt_device_id := 9\<rparr>), s7)" "launch_ready s7"
    using ready_fork [OF s6(2)] by blast
  have m: "sm_manifest launch_manifest = sample_manifest" by (simp add: launch_manifest_def toy_signed_arena_def)
  have v: "valid_execution_account (lq_execution_account toy_launch)"
    by (simp add: toy_launch_def valid_execution_account_def is_ascii_hexdigit_def is_ascii_digit_def byte_def list_all_iff)
  have w: "arena_settings_ok (lq_decision_cooldown_seconds toy_launch) (lq_isolated_leverage toy_launch)"
    by (simp add: toy_launch_def arena_settings_ok_def MIN_LIVE_DECISION_INTERVAL_SECONDS_def MAX_CLIENT_DECISION_COOLDOWN_SECONDS_def
        MIN_CLIENT_ISOLATED_LEVERAGE_def MAX_CLIENT_ISOLATED_LEVERAGE_def)
  have u: "lq_arena_id toy_launch = ''arena''" "lq_agent_version_id toy_launch = ''version''" by (simp_all add: toy_launch_def)
  have "checked_launch toy_shell_env toy_launch s = (Inr \<lparr>al_arena_id = 1, al_agent_version_id = 5, al_manifest = launch_manifest,
         al_device_id = 9, al_strategy = launch_bundle, al_runner = rotated_tokens\<lparr>dt_device_id := 9\<rparr>\<rparr>, s7)"
    by (simp add: checked_launch_def sbind_def s1(1) v w u toy_shell_fields slift_def s2(1) s3(1) m s4(1) t s5(1) s6(1) s7(1) sret_def)
  then show ?thesis using s7(2) by (simp add: rotated_tokens_def)
qed

lemma ready_files:
  assumes "launch_ready s"
  shows "\<exists>s'. write_launch_files toy_shell_env 1 launch_manifest None 5 (lq_execution_account toy_launch) 9 launch_bundle 600 1 s
      = (Inr (''r/run-other.json'', launch_config launch_ids ''r'' 1 None 5 (lq_execution_account toy_launch) launch_bundle 600 1), s')
    \<and> launch_ready s'"
proof -
  have u: "uuid_str launch_prims = uuid_str launch_ids" "uuid_str launch_ids 1 = ''other''"
    by (simp_all add: launch_prims_def launch_ids_def toy_prims_def)
  have c: "launch_config launch_prims = launch_config launch_ids" "run_config_json launch_prims = run_config_json launch_ids"
    by (simp_all add: fun_eq_iff launch_config_def runtime_file_def run_config_json_def live_arena_json_def u juuid_def)
  have p: "json_to_vec launch_prims (run_config_json launch_ids 9 ''origin'' ''r/state''
     (launch_config launch_ids ''r'' 1 None 5 (lq_execution_account toy_launch) launch_bundle 600 1)) = Some ''config''"
    "sc_signed (se_C toy_shell_env) launch_manifest = Some ''manifest''"
    by (simp_all add: launch_prims_def launch_json_def [symmetric] toy_shell_env_def) (simp add: launch_json_def run_config_json_def)
  have o: "api_origin_of (se_D toy_shell_env) = ''origin''" by (simp add: api_origin_of_def toy_shell_fields)
  have w: "\<exists>s'. write_runtime_json toy_shell_env path (Some b) t = (Inr (), s') \<and> launch_ready s'" if "launch_ready t" for path b t
    using that by (simp add: write_runtime_json_def shell_defs toy_shell_fields launch_ready_def Let_def vault_open_def)
  have k: "\<exists>s'. create_private_directory toy_shell_env path t = (Inr (), s') \<and> launch_ready s'" if "launch_ready t" for path t
    using that by (simp add: create_private_directory_def shell_defs toy_shell_fields launch_ready_def Let_def vault_open_def)
  obtain s1 where s1: "create_private_directory toy_shell_env ''r'' s = (Inr (), s1)" "launch_ready s1" using k [OF assms] by blast
  obtain s2 where s2: "create_private_directory toy_shell_env ''r/state'' s1 = (Inr (), s2)" "launch_ready s2" using k [OF s1(2)] by blast
  obtain s3 where s3: "write_runtime_json toy_shell_env ''r/arena-other.json'' (Some ''manifest'') s2 = (Inr (), s3)" "launch_ready s3"
    using w [OF s2(2)] by blast
  obtain s4 where s4: "write_runtime_json toy_shell_env ''r/run-other.json'' (Some ''config'') s3 = (Inr (), s4)" "launch_ready s4"
    using w [OF s3(2)] by blast
  have n: "runtime_file launch_ids ''r'' ''run'' 1 = ''r/run-other.json''"
    "la_arena_manifest (launch_config launch_ids ''r'' 1 None 5 acc launch_bundle 600 1) = ''r/arena-other.json''" for acc
    by (simp_all add: runtime_file_def in_directory_def u launch_config_def)
  have r: "runtime_file launch_prims = runtime_file launch_ids" by (simp add: fun_eq_iff runtime_file_def u)
  have "write_launch_files toy_shell_env 1 launch_manifest None 5 (lq_execution_account toy_launch) 9 launch_bundle 600 1 s
      = (Inr (''r/run-other.json'', launch_config launch_ids ''r'' 1 None 5 (lq_execution_account toy_launch) launch_bundle 600 1), s4)"
    by (simp add: write_launch_files_def Let_def desktop_runtime_directory_def toy_shell_fields sbind_def slift_def sret_def c r n
        in_directory_def s1(1) s2(1) p s3(1) o s4(1))
  then show ?thesis using s4(2) by blast
qed

lemma ready_frame:
  assumes "launch_ready s"
  shows "\<exists>frame s'. on_desktop (credential_frame (se_D toy_shell_env) ''crow_device_refresh_2'') s = (Inr frame, s') \<and> launch_ready s'"
proof -
  have o: "vault_open launch_vault (dt_vault (sl_desktop s))" by (rule ready_open [OF assms])
  have c: "companion_credentials_of (se_D toy_shell_env) (sl_desktop s)
      = (Inr \<lparr>cc_secret = replicate 32 (CHR ''c''), cc_ipc_name = ''ipc''\<rparr>, sl_desktop s)"
    using assms by (simp add: launch_ready_def Let_def companion_credentials_of_def)
  have "\<exists>frame. on_desktop (credential_frame (se_D toy_shell_env) ''crow_device_refresh_2'') s = (Inr frame, s)"
    by (simp add: on_desktop_def credential_frame_def desktop_secrets_def sbind_def c on_vault_def toy_shell_fields
        launch_vault_secrets [OF o] sret_def slift_def desktop_credential_frame_def MAX_DESKTOP_REFRESH_TOKEN_BYTES_def)
  then show ?thesis using assms by blast
qed

lemma ready_launch:
  assumes "launch_ready s"
  shows "\<exists>s'. launch_desktop_run toy_shell_env path frame s = (Inr (), s')
    \<and> sl_started s' = [([''desktop-run'', path, ''--ipc-name'', ''ipc''], frame)]"
  using assms
  by (simp add: launch_desktop_run_def sbind_def ready_credentials toy_shell_fields)
    (simp add: shell_defs reserve_companion_slot_def take_child_def kill_child_def occupy_slot_def start_sidecar_def toy_shell_fields
      launch_ready_def Let_def split: option.split)

lemma toy_launched:
  "\<exists>s'. launch_arena toy_shell_env toy_launch toy_shell
      = (Inr (launch_config launch_ids ''r'' 1 None 5 (lq_execution_account toy_launch) launch_bundle 600 1), s')
    \<and> sl_started s' \<noteq> []"
proof -
  have r: "launch_ready toy_shell"
    by (simp add: launch_ready_def toy_shell_def new_desktop_def vault_open_def toy_vault_state_def Let_def)
  obtain l s1 where s1: "checked_launch toy_shell_env toy_launch toy_shell = (Inr l, s1)" "launch_ready s1"
    and l: "al_arena_id l = 1" "al_manifest l = launch_manifest" "al_agent_version_id l = 5" "al_device_id l = 9"
    "al_strategy l = launch_bundle" "dt_refresh_token (al_runner l) = ''crow_device_refresh_2''"
    using ready_checked [OF r] by blast
  obtain s2 where s2: "write_launch_files toy_shell_env 1 launch_manifest None 5 (lq_execution_account toy_launch) 9 launch_bundle 600 1 s1
      = (Inr (''r/run-other.json'', launch_config launch_ids ''r'' 1 None 5 (lq_execution_account toy_launch) launch_bundle 600 1), s2)"
    "launch_ready s2" using ready_files [OF s1(2)] by blast
  obtain frame s3 where s3: "on_desktop (credential_frame (se_D toy_shell_env) ''crow_device_refresh_2'') s2 = (Inr frame, s3)" "launch_ready s3"
    using ready_frame [OF s2(2)] by blast
  obtain s4 where s4: "launch_desktop_run toy_shell_env ''r/run-other.json'' frame s3 = (Inr (), s4)" "sl_started s4 \<noteq> []"
    using ready_launch [OF s3(2), of "''r/run-other.json''" frame] by auto
  have q: "lq_handoff_snapshot toy_launch = None" "lq_decision_cooldown_seconds toy_launch = 600" "lq_isolated_leverage toy_launch = 1"
    by (simp_all add: toy_launch_def)
  have "launch_arena toy_shell_env toy_launch toy_shell
      = (Inr (launch_config launch_ids ''r'' 1 None 5 (lq_execution_account toy_launch) launch_bundle 600 1), s4)"
    by (simp add: launch_arena_def sbind_def s1(1) l q s2(1) s3(1) s4(1) sret_def)
  then show ?thesis using s4(2) by blast
qed

theorem launched_arena_is_prepared_witness:
  "\<exists>s' c pa. snd (launch_arena toy_shell_env toy_launch toy_shell) = s' \<and> sl_started s' \<noteq> []
    \<and> prepare launch_prims (\<lambda>m. Some JNull) (\<lambda>v. Some sample_manifest) (sl_files s')
        (\<lambda>b. if b = ''manifest'' then Some launch_manifest else None)
        (\<lambda>b. if b = ''json'' then Some JNull else if b = ''config'' then Some launch_json else None) c = Inr pa
    \<and> pa_decision_cooldown_seconds pa = 600"
proof -
  obtain c s' where s': "launch_arena toy_shell_env toy_launch toy_shell = (Inr c, s')" "sl_started s' \<noteq> []"
    using toy_launched by blast
  have q: "lq_handoff_snapshot toy_launch = None" "lq_decision_cooldown_seconds toy_launch = 600" by (simp_all add: toy_launch_def)
  have e: "sc_enc_manifest (se_C toy_shell_env) = (\<lambda>m. Some JNull)" "sc_dec_manifest (se_C toy_shell_env) = (\<lambda>v. Some sample_manifest)"
    by (simp_all add: toy_shell_env_def)
  have "sl_started s' \<noteq> sl_started toy_shell" using s'(2) by (simp add: toy_shell_def)
  then show ?thesis using launched_arena_is_prepared [OF toy_file_law s'(1)] s' by (simp add: toy_shell_fields e q) blast
qed

end
