(* ===== verification/Relay.thy ===== *)
theory Relay
  imports Enrolment ControlPlane
begin

text \<open>
  The relay connection of the daemon, \<open>apps/crow-agentd/src/main.rs\<close>: \<open>run_relay\<close> with its rotations and
  reconnections, \<open>relay_session\<close>, \<open>connect_authenticated\<close> and the envelopes. The tasks of the process run
  concurrently, so the loop is a state machine: a state says where \<open>run_relay\<close> is, an input is what the
  \<open>select!\<close> it waits in returns (an answer of the network, a timer, the end of the live session) or a
  step of another task (a companion request, an effect of the live session). The live session is only
  polled while the relay session is, so it has no step during a rotation or a back-off. The loop refines
  the events of \<open>Daemon\<close>.
\<close>

section \<open>The wire\<close>

datatype relay_frame = FText string | FClose | FOther

text \<open>What \<open>connection.next()\<close> returns.\<close>

datatype relay_incoming = IcFrame relay_frame | IcEnded | IcFailed

text \<open>What leaves on the connection; nothing reads it.\<close>

datatype relay_sent = SConnect string | SText outbound_envelope | SClose

record 'w relay_env =
  ry_D :: daemon_env
  ry_N :: "'w net"
  ry_parse :: "string \<Rightarrow> wire_envelope option"
  ry_request :: "string \<Rightarrow> bool"
  ry_relay_url :: string
  ry_api_origin :: string
  ry_identity :: string
  ry_live :: bool

definition envelope_json :: "outbound_envelope \<Rightarrow> string \<Rightarrow> json" where
  "envelope_json e timestamp = JObj [(''protocol'', JStr (oe_protocol e)), (''type'', JStr (oe_kind e)), (''id'', JStr (oe_id e)),
     (''timestamp'', JStr timestamp), (''payload'', oe_payload e)]"

definition envelope_text :: "prims \<Rightarrow> outbound_envelope \<Rightarrow> daemon_error + string" where
  "envelope_text P e = ok_or (Option.bind (rfc3339 P (oe_timestamp e)) (\<lambda>t. json_to_vec P (envelope_json e t))) DeJson"

definition decode_envelope :: "'w relay_env \<Rightarrow> relay_frame \<Rightarrow> daemon_error + wire_envelope" where
  "decode_envelope E frame = (case frame of FText raw \<Rightarrow> ok_or (ry_parse E raw) DeJson | _ \<Rightarrow> Inl DeChallenge)"

text \<open>The answers of one connection: the negotiated protocol, the first message, and the sending of the proof.\<close>

record handshake =
  hk_answer :: "string option option"
  hk_first :: relay_incoming
  hk_signed_at :: int
  hk_sent :: bool
  hk_ready_at :: int

definition challenge_of :: "'w relay_env \<Rightarrow> relay_incoming \<Rightarrow> daemon_error + string \<times> string" where
  "challenge_of E incoming =
     rbind (case incoming of IcFrame f \<Rightarrow> decode_envelope E f | IcEnded \<Rightarrow> Inl DeRelayClosed | IcFailed \<Rightarrow> Inl DeRelay) (\<lambda>challenge.
     if we_protocol challenge \<noteq> HARNESS_PROTOCOL_V1 \<or> we_kind challenge \<noteq> ''challenge'' then Inl DeChallenge
     else (case we_payload challenge of
         JObj fs \<Rightarrow> (case map_of fs ''nonce'' of Some (JStr nonce) \<Rightarrow> Inr (we_id challenge, nonce) | _ \<Rightarrow> Inl DeChallenge)
       | _ \<Rightarrow> Inl DeChallenge))"

definition auth_envelope :: "'w relay_env \<Rightarrow> string \<Rightarrow> string \<Rightarrow> string \<Rightarrow> int \<Rightarrow> outbound_envelope" where
  "auth_envelope E access_token challenge_id nonce now = (let P = de_P (ry_D E) in
     \<lparr>oe_protocol = HARNESS_PROTOCOL_V1, oe_kind = ''auth'', oe_id = challenge_id, oe_timestamp = now,
      oe_payload = JObj [(''device_id'', juuid P (de_device_id (ry_D E))), (''device_public_key'', JStr (public_key P (ry_identity E))),
        (''access_token'', JStr access_token), (''signature'', JStr (sign_bytes P (ry_identity E) nonce))]\<rparr>)"

definition send_envelope :: "prims \<Rightarrow> outbound_envelope \<Rightarrow> bool \<Rightarrow> (relay_sent list, daemon_error, unit) step" where
  "send_envelope P e sent log =
     (case envelope_text P e of
        Inl err \<Rightarrow> (Inl err, log)
      | Inr _ \<Rightarrow> (if sent then Inr () else Inl DeRelay, log @ [SText e]))"

definition connect_authenticated :: "'w relay_env \<Rightarrow> string \<Rightarrow> handshake \<Rightarrow> (relay_sent list, daemon_error, unit) step" where
  "connect_authenticated E access_token h =
     (if \<not> ry_request E (ry_relay_url E) then slift (Inl DeRelay)
      else
      sbind (sput (\<lambda>log. log @ [SConnect (ry_relay_url E)])) (\<lambda>_.
      sbind (slift (ok_or (hk_answer h) DeRelay)) (\<lambda>protocol.
      if protocol \<noteq> Some HARNESS_PROTOCOL_V1 then slift (Inl DeChallenge)
      else
      sbind (slift (challenge_of E (hk_first h))) (\<lambda>(challenge_id, nonce).
        send_envelope (de_P (ry_D E)) (auth_envelope E access_token challenge_id nonce (hk_signed_at h)) (hk_sent h)))))"

section \<open>The states of the loop\<close>

datatype relay_phase =
    PhStarting
  | PhConnecting
  | PhConnected
  | PhRotating
  | PhWaiting nat
  | PhEnded "daemon_error + unit"

record relay =
  rl_daemon :: daemon
  rl_phase :: relay_phase
  rl_tokens :: "device_tokens option"
  rl_access :: rotating_token
  rl_rotate_at :: int
  rl_sent :: "relay_sent list"

datatype session_effect = SeResume | SeRun "uuid option" | SeSettings | SeStrategy

datatype relay_input =
    InRotation "device_auth_error + device_tokens" string
  | InHandshake handshake
  | InRotationDue int
  | InHeartbeat int uuid bool
  | InMessage relay_incoming int int string bool
  | InSlept
  | InLiveStopped
  | InLiveFailed string
  | InSession session_effect
  | InCompanion companion_request

text \<open>Nothing runs before the URL and the origin are checked.\<close>

definition relay_start :: "'w relay_env \<Rightarrow> journal \<Rightarrow> string \<Rightarrow> daemon_error + relay" where
  "relay_start E j refresh_token =
     rbind (ok_or (ne_parse (ry_N E) (ry_relay_url E)) DeRelayUrl) (\<lambda>u.
     if ur_scheme u \<noteq> ''wss'' then Inl DeRelayUrl
     else rbind (map_err (\<lambda>_. DeDeviceAuthorization) (new_auth_client (ry_N E) (ry_api_origin E))) (\<lambda>_.
       Inr \<lparr>rl_daemon = (start_daemon j refresh_token)\<lparr>dm_live := False\<rparr>, rl_phase = PhStarting, rl_tokens = None,
         rl_access = \<lparr>rt_token = []\<rparr>, rl_rotate_at = 0, rl_sent = []\<rparr>))"

definition ended :: "daemon_error + unit \<Rightarrow> relay \<Rightarrow> relay" where "ended result r = r\<lparr>rl_phase := PhEnded result\<rparr>"

text \<open>A failed relay session: the gate is paused, the wait is the old back-off, the next one twice as long.\<close>

definition relay_failed :: "relay \<Rightarrow> relay" where
  "relay_failed r = r\<lparr>rl_daemon := fail_closed (rl_daemon r), rl_phase := PhWaiting (dm_backoff (rl_daemon r))\<rparr>"

definition after_send :: "(daemon_error + unit) \<times> relay_sent list \<Rightarrow> relay \<Rightarrow> relay" where
  "after_send result r = (case result of
       (Inl _, log) \<Rightarrow> relay_failed (r\<lparr>rl_sent := log\<rparr>) | (Inr _, log) \<Rightarrow> r\<lparr>rl_sent := log\<rparr>)"

section \<open>Rotations\<close>

definition first_rotation :: "'w relay_env \<Rightarrow> device_auth_error + device_tokens \<Rightarrow> string \<Rightarrow> relay \<Rightarrow> relay" where
  "first_rotation E answer nonce r = (let d = rl_daemon r in
     case answer of
       Inl _ \<Rightarrow> r\<lparr>rl_daemon := d\<lparr>dm_backoff := min (2 * dm_backoff d) 60\<rparr>\<rparr>
     | Inr tokens \<Rightarrow>
         (case put_secret (de_A (ry_D E)) nonce REFRESH_TOKEN_SECRET (dt_refresh_token tokens) (dm_journal d) of
            Inl e \<Rightarrow> ended (Inl (DeJournal e)) r
          | Inr j \<Rightarrow>
              let r1 = r\<lparr>rl_daemon := d\<lparr>dm_journal := j, dm_refresh_token := dt_refresh_token tokens\<rparr>\<rparr> in
              (case new_token (dt_access_token tokens) of
                 Inl _ \<Rightarrow> ended (Inl DeHarnessApi) r1
               | Inr access \<Rightarrow>
                   r1\<lparr>rl_daemon := (rl_daemon r1)\<lparr>dm_live := ry_live E \<and> gate_label (sh_gate (dm_shared d)) \<noteq> ''stopped''\<rparr>,
                      rl_tokens := Some tokens, rl_access := access, rl_phase := PhConnecting\<rparr>)))"

definition next_rotation :: "'w relay_env \<Rightarrow> device_auth_error + device_tokens \<Rightarrow> string \<Rightarrow> relay \<Rightarrow> relay" where
  "next_rotation E answer nonce r = (let d = rl_daemon r in
     case answer of
       Inl _ \<Rightarrow> r\<lparr>rl_daemon := fail_closed d\<rparr>
     | Inr tokens \<Rightarrow>
         (case put_secret (de_A (ry_D E)) nonce REFRESH_TOKEN_SECRET (dt_refresh_token tokens) (dm_journal d) of
            Inl e \<Rightarrow> ended (Inl (DeJournal e)) r
          | Inr j \<Rightarrow>
              let r1 = r\<lparr>rl_daemon := d\<lparr>dm_journal := j, dm_refresh_token := dt_refresh_token tokens\<rparr>\<rparr> in
              (case replace_token (dt_access_token tokens) (rl_access r) of
                 (Inl _, _) \<Rightarrow> ended (Inl DeHarnessApi) r1
               | (Inr _, access) \<Rightarrow>
                   r1\<lparr>rl_daemon := (rl_daemon r1)\<lparr>dm_backoff := 1\<rparr>, rl_tokens := Some tokens, rl_access := access,
                      rl_phase := PhConnecting\<rparr>)))"

section \<open>The relay session\<close>

definition session_started :: "'w relay_env \<Rightarrow> handshake \<Rightarrow> relay \<Rightarrow> relay" where
  "session_started E h r = (case rl_tokens r of
       None \<Rightarrow> r
     | Some tokens \<Rightarrow>
         (case connect_authenticated E (dt_access_token tokens) h (rl_sent r) of
            (Inl _, log) \<Rightarrow> relay_failed (r\<lparr>rl_sent := log\<rparr>)
          | (Inr _, log) \<Rightarrow> r\<lparr>rl_sent := log, rl_phase := PhConnected,
              rl_rotate_at := hk_ready_at h + max 0 (dt_access_expires_at tokens - hk_ready_at h - 60000000000)\<rparr>))"

definition heartbeat :: "'w relay_env \<Rightarrow> int \<Rightarrow> uuid \<Rightarrow> relay \<Rightarrow> outbound_envelope" where
  "heartbeat E now envelope_id r = (let P = de_P (ry_D E); s = dm_shared (rl_daemon r) in
     \<lparr>oe_protocol = HARNESS_PROTOCOL_V1, oe_kind = ''heartbeat'', oe_id = uuid_str P envelope_id, oe_timestamp = now,
      oe_payload = JObj [(''device_id'', juuid P (de_device_id (ry_D E))),
        (''active_run'', case sh_active_run s of None \<Rightarrow> JNull | Some run \<Rightarrow> juuid P run),
        (''execution_state'', JStr (gate_label (sh_gate s)))]\<rparr>)"

definition session_text :: "'w relay_env \<Rightarrow> string \<Rightarrow> int \<Rightarrow> int \<Rightarrow> string \<Rightarrow> bool \<Rightarrow> relay \<Rightarrow> relay" where
  "session_text E raw now acked_at nonce sent r =
     (case ry_parse E raw of
        None \<Rightarrow> relay_failed r
      | Some envelope \<Rightarrow>
          if we_protocol envelope = HARNESS_PROTOCOL_V1 \<and> we_kind envelope = ''shutdown'' then ended (Inr ()) r
          else (let D = ry_D E; d = rl_daemon r in
            (case apply_relay_message (de_P D) (de_A D) (de_parse D) envelope (de_device_id D) (sh_active_run (dm_shared d))
                    now acked_at nonce (dm_shared d, dm_journal d) of
               (Inl _, s, j) \<Rightarrow> relay_failed (r\<lparr>rl_daemon := d\<lparr>dm_shared := s, dm_journal := j\<rparr>\<rparr>)
             | (Inr reply, s, j) \<Rightarrow>
                 let r1 = r\<lparr>rl_daemon := d\<lparr>dm_shared := s, dm_journal := j\<rparr>\<rparr> in
                 (case reply of None \<Rightarrow> r1
                  | Some acknowledgement \<Rightarrow> after_send (send_envelope (de_P D) acknowledgement sent (rl_sent r)) r1))))"

definition session_message :: "'w relay_env \<Rightarrow> relay_incoming \<Rightarrow> int \<Rightarrow> int \<Rightarrow> string \<Rightarrow> bool \<Rightarrow> relay \<Rightarrow> relay" where
  "session_message E incoming now acked_at nonce sent r = (case incoming of
       IcFrame (FText raw) \<Rightarrow> session_text E raw now acked_at nonce sent r
     | IcFrame FClose \<Rightarrow> relay_failed r
     | IcFrame FOther \<Rightarrow> r
     | IcEnded \<Rightarrow> relay_failed r
     | IcFailed \<Rightarrow> relay_failed r)"

section \<open>The loop\<close>

definition in_session :: "relay \<Rightarrow> bool" where
  "in_session r \<longleftrightarrow> rl_phase r = PhConnecting \<or> rl_phase r = PhConnected"

definition effect_event :: "session_effect \<Rightarrow> daemon_event" where
  "effect_event e = (case e of SeResume \<Rightarrow> DvSessionResume | SeRun run \<Rightarrow> DvSessionRun run
     | SeSettings \<Rightarrow> DvSettingsTaken | SeStrategy \<Rightarrow> DvStrategyTaken)"

definition running_loop :: "relay \<Rightarrow> bool" where
  "running_loop r \<longleftrightarrow> (case rl_phase r of PhEnded _ \<Rightarrow> False | _ \<Rightarrow> True)"

text \<open>\<open>None\<close> when the input cannot happen in the state.\<close>

fun relay_next :: "'w relay_env \<Rightarrow> relay_input \<Rightarrow> relay \<Rightarrow> relay option" where
  "relay_next E (InRotation answer nonce) r =
     (if rl_phase r = PhStarting then Some (first_rotation E answer nonce r)
      else if rl_phase r = PhRotating then Some (next_rotation E answer nonce r) else None)"
| "relay_next E (InHandshake h) r = (if rl_phase r = PhConnecting then Some (session_started E h r) else None)"
| "relay_next E (InRotationDue now) r =
     (if rl_phase r = PhConnected \<and> rl_rotate_at r \<le> now
      then Some (r\<lparr>rl_phase := PhRotating, rl_sent := rl_sent r @ [SClose]\<rparr>) else None)"
| "relay_next E (InHeartbeat now envelope_id sent) r =
     (if rl_phase r = PhConnected
      then Some (after_send (send_envelope (de_P (ry_D E)) (heartbeat E now envelope_id r) sent (rl_sent r)) r) else None)"
| "relay_next E (InMessage incoming now acked_at nonce sent) r =
     (if rl_phase r = PhConnected then Some (session_message E incoming now acked_at nonce sent r) else None)"
| "relay_next E InSlept r = (case rl_phase r of PhWaiting _ \<Rightarrow> Some (r\<lparr>rl_phase := PhConnecting\<rparr>) | _ \<Rightarrow> None)"
| "relay_next E InLiveStopped r =
     (if in_session r \<and> dm_live (rl_daemon r)
      then Some (r\<lparr>rl_daemon := live_stopped (rl_daemon r), rl_phase := PhConnecting\<rparr>) else None)"
| "relay_next E (InLiveFailed code) r =
     (if in_session r \<and> dm_live (rl_daemon r)
      then Some (r\<lparr>rl_daemon := live_failed code (rl_daemon r), rl_phase := PhConnecting\<rparr>) else None)"
| "relay_next E (InSession effect) r =
     (if in_session r then map_option (\<lambda>d. r\<lparr>rl_daemon := d\<rparr>) (daemon_next (ry_D E) (effect_event effect) (rl_daemon r))
      else None)"
| "relay_next E (InCompanion q) r =
     (if running_loop r then Some (r\<lparr>rl_daemon := companion_message (ry_D E) q (rl_daemon r)\<rparr>) else None)"

inductive relay_run :: "'w relay_env \<Rightarrow> relay \<Rightarrow> relay_input list \<Rightarrow> relay \<Rightarrow> bool" for E r where
  begun: "relay_run E r [] r"
| went: "relay_run E r ins r' \<Longrightarrow> relay_next E i r' = Some r'' \<Longrightarrow> relay_run E r (ins @ [i]) r''"

code_pred relay_run .

inductive_simps relay_run_nil: "relay_run E r [] r'"
inductive_simps relay_run_snoc: "relay_run E r (ins @ [i]) r'"

fun_cases relay_rotationE: "relay_next E (InRotation answer nonce) r = Some r'"
fun_cases relay_handshakeE: "relay_next E (InHandshake h) r = Some r'"
fun_cases relay_heartbeatE: "relay_next E (InHeartbeat now envelope_id sent) r = Some r'"
fun_cases relay_messageE: "relay_next E (InMessage incoming now acked_at nonce sent) r = Some r'"

section \<open>The loop refines the daemon's events\<close>

text \<open>The same state but for the back-off; what is live in the loop is live for the daemon's events.\<close>

definition daemon_like :: "daemon \<Rightarrow> daemon \<Rightarrow> bool" where
  "daemon_like c a \<longleftrightarrow> dm_shared c = dm_shared a \<and> dm_journal c = dm_journal a \<and> dm_highest_nonce c = dm_highest_nonce a
     \<and> dm_refresh_token c = dm_refresh_token a \<and> (dm_live c \<longrightarrow> dm_live a)"

lemma daemon_like_next:
  assumes "daemon_like c a" and "daemon_next D e c = Some c'"
  shows "\<exists>a'. daemon_next D e a = Some a' \<and> daemon_like c' a'"
  using assms
  by (cases e) (auto simp: daemon_like_def companion_message_def relay_message_def fail_closed_def rotated_def live_stopped_def
      live_failed_def when_live_def start_daemon_def split: prod.splits sum.splits if_splits)

lemma daemon_run_append:
  "daemon_run D d1 es2 d2 \<Longrightarrow> daemon_run D d es1 d1 \<Longrightarrow> daemon_run D d (es1 @ es2) d2"
  by (induction rule: daemon_run.induct) (auto intro: daemon_run.intros simp flip: append_assoc)

lemma daemon_run_one: "daemon_next D e d = Some d' \<Longrightarrow> daemon_run D d [e] d'"
  using daemon_run.happened [OF daemon_run.started, of D e d d'] by simp

lemma daemon_run_two: "daemon_next D e1 d = Some d1 \<Longrightarrow> daemon_next D e2 d1 = Some d2 \<Longrightarrow> daemon_run D d [e1, e2] d2"
  using daemon_run.happened [OF daemon_run_one] by fastforce

definition represents :: "relay \<Rightarrow> daemon \<Rightarrow> bool" where
  "represents r a \<longleftrightarrow> daemon_like (rl_daemon r) a \<and> (rl_phase r = PhStarting \<longrightarrow> dm_live a)"

definition simulated :: "daemon_env \<Rightarrow> daemon \<Rightarrow> relay \<Rightarrow> bool" where
  "simulated D a r \<longleftrightarrow> (\<exists>es a'. daemon_run D a es a' \<and> represents r a')"

lemma simulated_none: "represents r a \<Longrightarrow> simulated D a r"
  unfolding simulated_def using daemon_run.started by blast

lemma simulated_one:
  "daemon_next D e a = Some a' \<Longrightarrow> represents r a' \<Longrightarrow> simulated D a r"
  unfolding simulated_def using daemon_run_one by blast

lemma simulated_like:
  assumes "daemon_like c a" and "daemon_next D e c = Some c'" and "daemon_like (rl_daemon r) c'" and "rl_phase r \<noteq> PhStarting"
  shows "simulated D a r"
proof -
  obtain a' where a': "daemon_next D e a = Some a'" "daemon_like c' a'" using daemon_like_next [OF assms(1,2)] by blast
  then have "daemon_like (rl_daemon r) a'" using assms(3) by (simp add: daemon_like_def)
  with a'(1) assms(4) show ?thesis by (intro simulated_one) (simp_all add: represents_def)
qed

lemma simulated_after:
  assumes "daemon_next D e a = Some a1" and "simulated D a1 r"
  shows "simulated D a r"
  using assms daemon_run_append daemon_run_one unfolding simulated_def by blast

lemma like_refl [simp]: "daemon_like d d"
  by (simp add: daemon_like_def)

lemma failed_simulated:
  assumes "daemon_like (rl_daemon r) a"
  shows "simulated D a (relay_failed r)"
  by (rule simulated_like [OF assms, of D DvRelayLost "fail_closed (rl_daemon r)"]) (simp_all add: relay_failed_def)

lemma after_send_simulated:
  assumes "represents r a" and "rl_phase r \<noteq> PhStarting"
  shows "simulated D a (after_send result r)"
proof -
  have like: "daemon_like (rl_daemon (r\<lparr>rl_sent := log\<rparr>)) a" for log using assms(1) by (simp add: represents_def)
  show ?thesis
    using failed_simulated [OF like] like assms(2)
    by (auto simp: after_send_def represents_def intro: simulated_none split: prod.splits sum.splits)
qed

lemma rotation_simulated:
  assumes "daemon_like (rl_daemon r) a" and "rl_phase r = PhStarting \<longrightarrow> dm_live a"
    and "put_secret (de_A D) nonce REFRESH_TOKEN_SECRET token (dm_journal (rl_daemon r)) = Inr j"
    and "dm_shared (rl_daemon r') = dm_shared (rl_daemon r)" and "dm_highest_nonce (rl_daemon r') = dm_highest_nonce (rl_daemon r)"
    and "dm_journal (rl_daemon r') = j" and "dm_refresh_token (rl_daemon r') = token"
    and "dm_live (rl_daemon r') \<longrightarrow> dm_live (rl_daemon r) \<or> rl_phase r = PhStarting"
    and "rl_phase r' \<noteq> PhStarting"
  shows "simulated D a r'"
proof -
  have "daemon_next D (DvRotated token nonce) a = Some (a\<lparr>dm_journal := j, dm_refresh_token := token, dm_backoff := 1\<rparr>)"
    using assms(1,3) by (simp add: rotated_def daemon_like_def)
  moreover have "represents r' (a\<lparr>dm_journal := j, dm_refresh_token := token, dm_backoff := 1\<rparr>)"
    using assms by (auto simp: represents_def daemon_like_def)
  ultimately show ?thesis by (rule simulated_one)
qed

lemma first_rotation_simulated:
  assumes "represents r a" and "rl_phase r = PhStarting"
  shows "simulated (ry_D E) a (first_rotation E answer nonce r)"
proof (cases answer)
  case (Inl e)
  then show ?thesis using assms
    by (auto simp: first_rotation_def represents_def daemon_like_def Let_def intro!: simulated_none)
next
  case (Inr tokens)
  show ?thesis
  proof (cases "put_secret (de_A (ry_D E)) nonce REFRESH_TOKEN_SECRET (dt_refresh_token tokens) (dm_journal (rl_daemon r))")
    case (Inl e)
    with assms Inr show ?thesis
      by (auto simp: first_rotation_def represents_def ended_def Let_def intro!: simulated_none)
  next
    case put: (Inr j)
    show ?thesis
      by (rule rotation_simulated [OF _ _ put])
        (use assms Inr put in \<open>auto simp: first_rotation_def represents_def ended_def Let_def split: sum.splits\<close>)
  qed
qed

lemma next_rotation_simulated:
  assumes "represents r a" and "rl_phase r = PhRotating"
  shows "simulated (ry_D E) a (next_rotation E answer nonce r)"
proof (cases answer)
  case (Inl e)
  then show ?thesis using assms
    by (auto simp: next_rotation_def represents_def intro!: simulated_like [of "rl_daemon r" a _ DvRotationFailed])
next
  case (Inr tokens)
  show ?thesis
  proof (cases "put_secret (de_A (ry_D E)) nonce REFRESH_TOKEN_SECRET (dt_refresh_token tokens) (dm_journal (rl_daemon r))")
    case (Inl e)
    with assms Inr show ?thesis
      by (auto simp: next_rotation_def represents_def ended_def Let_def intro!: simulated_none)
  next
    case put: (Inr j)
    show ?thesis
      by (rule rotation_simulated [OF _ _ put])
        (use assms Inr put in \<open>auto simp: next_rotation_def represents_def ended_def Let_def split: sum.splits prod.splits\<close>)
  qed
qed

lemma text_simulated:
  assumes "daemon_like (rl_daemon r) a" and "rl_phase r = PhConnected"
  shows "simulated (ry_D E) a (session_text E raw now acked_at nonce sent r)"
proof (cases "ry_parse E raw")
  case None
  then show ?thesis using failed_simulated [OF assms(1)] by (simp add: session_text_def)
next
  case (Some envelope)
  let ?D = "ry_D E" and ?d = "rl_daemon r"
  show ?thesis
  proof (cases "we_protocol envelope = HARNESS_PROTOCOL_V1 \<and> we_kind envelope = ''shutdown''")
    case True
    with Some assms show ?thesis by (auto simp: session_text_def ended_def represents_def intro!: simulated_none)
  next
    case False
    obtain m s j where m: "apply_relay_message (de_P ?D) (de_A ?D) (de_parse ?D) envelope (de_device_id ?D)
        (sh_active_run (dm_shared ?d)) now acked_at nonce (dm_shared ?d, dm_journal ?d) = (m, s, j)" by (metis prod_cases3)
    obtain a1 where a1: "daemon_next ?D (DvRelay envelope now acked_at nonce) a = Some a1"
        "daemon_like (relay_message ?D envelope now acked_at nonce ?d) a1"
      using daemon_like_next [OF assms(1), of ?D "DvRelay envelope now acked_at nonce"] by auto
    show ?thesis
    proof (cases m)
      case (Inl e)
      then have "represents (session_text E raw now acked_at nonce sent r) a1"
        using a1(2) False Some m
        by (auto simp: session_text_def relay_message_def relay_failed_def represents_def Let_def)
      with a1(1) show ?thesis by (rule simulated_one)
    next
      case (Inr reply)
      let ?r = "r\<lparr>rl_daemon := ?d\<lparr>dm_shared := s, dm_journal := j\<rparr>\<rparr>"
      have rep: "represents ?r a1" using a1(2) m Inr assms(2) by (simp add: relay_message_def represents_def)
      have "simulated ?D a1 (session_text E raw now acked_at nonce sent r)"
        using False Some m Inr simulated_none [OF rep] after_send_simulated [OF rep] assms(2)
        by (auto simp: session_text_def Let_def split: option.splits)
      with a1(1) show ?thesis by (rule simulated_after)
    qed
  qed
qed

lemma relay_next_simulated:
  assumes "represents r a" and "relay_next E i r = Some r'"
  shows "simulated (ry_D E) a r'"
proof -
  have like: "daemon_like (rl_daemon r) a" using assms(1) by (simp add: represents_def)
  show ?thesis
  proof (cases i)
    case (InRotation answer nonce)
    then show ?thesis using assms first_rotation_simulated next_rotation_simulated by (auto split: if_splits)
  next
    case (InHandshake h)
    then have r': "r' = session_started E h r" and ph: "rl_phase r = PhConnecting"
      using assms(2) by (auto elim: relay_handshakeE split: if_splits)
    have "daemon_like (rl_daemon (r\<lparr>rl_sent := log\<rparr>)) a" for log using like by simp
    then show ?thesis using like ph failed_simulated
      by (auto simp: r' session_started_def represents_def intro!: simulated_none split: option.splits prod.splits sum.splits)
  next
    case (InHeartbeat now envelope_id sent)
    then have "r' = after_send (send_envelope (de_P (ry_D E)) (heartbeat E now envelope_id r) sent (rl_sent r)) r"
      "rl_phase r = PhConnected" using assms(2) by (auto elim: relay_heartbeatE split: if_splits)
    then show ?thesis using after_send_simulated [OF assms(1)] by simp
  next
    case (InMessage incoming now acked_at nonce sent)
    then have r': "r' = session_message E incoming now acked_at nonce sent r" and ph: "rl_phase r = PhConnected"
      using assms(2) by (auto elim: relay_messageE split: if_splits)
    show ?thesis
      unfolding r' session_message_def
      using text_simulated [OF like ph, of E] failed_simulated [OF like] simulated_none [OF assms(1)]
      by (simp split: relay_incoming.split relay_frame.split)
  next
    case InLiveStopped
    then show ?thesis using assms by (intro simulated_like [OF like, of _ DvLiveStopped]) (auto split: if_splits)
  next
    case (InLiveFailed code)
    then show ?thesis using assms by (intro simulated_like [OF like, of _ "DvLiveFailed code"]) (auto split: if_splits)
  next
    case (InSession effect)
    then obtain d where d: "daemon_next (ry_D E) (effect_event effect) (rl_daemon r) = Some d" "r' = r\<lparr>rl_daemon := d\<rparr>"
        "in_session r" using assms(2) by (auto split: if_splits)
    then show ?thesis by (intro simulated_like [OF like d(1)]) (auto simp: in_session_def)
  next
    case (InCompanion q)
    let ?d = "companion_message (ry_D E) q (rl_daemon r)"
    have r': "r' = r\<lparr>rl_daemon := ?d\<rparr>" using assms(2) InCompanion by (auto split: if_splits)
    obtain a' where a': "daemon_next (ry_D E) (DvCompanion q) a = Some a'" "daemon_like ?d a'"
      using daemon_like_next [OF like, of "ry_D E" "DvCompanion q"] by auto
    moreover have "dm_live a' = dm_live a" using a'(1) by (auto simp: companion_message_def split: prod.splits)
    ultimately have "represents r' a'" using assms(1) by (simp add: r' represents_def)
    with a'(1) show ?thesis by (rule simulated_one)
  qed (use assms in \<open>auto simp: represents_def intro!: simulated_none split: if_splits relay_phase.splits\<close>)
qed

text \<open>
  C13. The daemon's control loop refines the daemon's events: whatever rotations, handshakes, messages, lost
  connections, ends of the live session and companion requests \<open>run_relay\<close> goes through, there is a run of
  the abstract daemon that ends with the same gate, active run, queues, journal, nonces and refresh token,
  so that what holds in every run of the daemon holds in the loop.
\<close>

theorem relay_loop_refines_daemon:
  assumes "relay_start E j token = Inr r0" and "relay_run E r0 ins r"
  shows "\<exists>es d. daemon_run (ry_D E) (start_daemon j token) es d
    \<and> dm_shared (rl_daemon r) = dm_shared d \<and> dm_journal (rl_daemon r) = dm_journal d
    \<and> dm_highest_nonce (rl_daemon r) = dm_highest_nonce d \<and> dm_refresh_token (rl_daemon r) = dm_refresh_token d
    \<and> (dm_live (rl_daemon r) \<longrightarrow> dm_live d)"
proof -
  have start: "represents r0 (start_daemon j token)"
    using assms(1) by (auto simp: relay_start_def represents_def daemon_like_def start_daemon_def split: if_splits)
  have "simulated (ry_D E) (start_daemon j token) r" using assms(2)
  proof (induction rule: relay_run.induct)
    case begun
    show ?case using start by (rule simulated_none)
  next
    case (went ins r' i r'')
    then show ?case using relay_next_simulated daemon_run_append unfolding simulated_def by blast
  qed
  then show ?thesis by (auto simp: simulated_def represents_def daemon_like_def)
qed

section \<open>The newest tokens\<close>

definition tokens_of_input :: "relay_input \<Rightarrow> device_tokens option" where
  "tokens_of_input i = (case i of InRotation (Inr tokens) _ \<Rightarrow> Some tokens | _ \<Rightarrow> None)"

definition newest_tokens :: "relay_input list \<Rightarrow> device_tokens option" where
  "newest_tokens ins = fold (\<lambda>i newest. case tokens_of_input i of None \<Rightarrow> newest | Some tokens \<Rightarrow> Some tokens) ins None"

definition fresh_input :: "relay_input \<Rightarrow> bool" where
  "fresh_input i = (case i of InRotation _ nonce \<Rightarrow> length nonce = 24 | InMessage _ _ _ nonce _ \<Rightarrow> length nonce = 24 | _ \<Rightarrow> True)"

definition stored_token :: "'w relay_env \<Rightarrow> relay \<Rightarrow> journal_error + string option" where
  "stored_token E r = secret (de_A (ry_D E)) REFRESH_TOKEN_SECRET (dm_journal (rl_daemon r))"

definition tokens_held :: "'w relay_env \<Rightarrow> relay \<Rightarrow> device_tokens option \<Rightarrow> bool" where
  "tokens_held E r newest = (case newest of
       None \<Rightarrow> rl_phase r = PhStarting
     | Some tokens \<Rightarrow> rl_phase r \<noteq> PhStarting \<and> rl_tokens r = Some tokens \<and> rt_token (rl_access r) = dt_access_token tokens
         \<and> stored_token E r = Inr (Some (dt_refresh_token tokens)))"

definition same_tokens :: "'w relay_env \<Rightarrow> relay \<Rightarrow> relay \<Rightarrow> bool" where
  "same_tokens E r r' \<longleftrightarrow> rl_tokens r' = rl_tokens r \<and> rl_access r' = rl_access r \<and> stored_token E r' = stored_token E r
     \<and> (rl_phase r' = PhStarting \<longleftrightarrow> rl_phase r = PhStarting)"

lemma same_tokens_held: "same_tokens E r r' \<Longrightarrow> tokens_held E r newest \<Longrightarrow> tokens_held E r' newest"
  by (auto simp: same_tokens_def tokens_held_def split: option.splits)

lemma message_keeps_stored:
  assumes "apply_relay_message P A parse e dev run now at nonce (s, j) = (m, s', j')"
  shows "secret A REFRESH_TOKEN_SECRET j' = secret A REFRESH_TOKEN_SECRET j"
  using assms jsec.put_other refresh_token_key
  by (fastforce simp: apply_relay_message_def apply_remote_command_def split: if_splits option.splits sum.splits prod.splits)

lemma failed_same: "rl_phase r \<noteq> PhStarting \<Longrightarrow> same_tokens E r (relay_failed r)"
  by (simp add: same_tokens_def relay_failed_def stored_token_def fail_closed_def)

lemma after_send_same: "rl_phase r \<noteq> PhStarting \<Longrightarrow> same_tokens E r (after_send result r)"
  by (auto simp: same_tokens_def relay_failed_def stored_token_def fail_closed_def after_send_def split: prod.splits sum.splits)

lemma same_tokens_trans: "same_tokens E r r1 \<Longrightarrow> same_tokens E r1 r2 \<Longrightarrow> same_tokens E r r2"
  by (simp add: same_tokens_def)

lemma text_same:
  assumes "rl_phase r = PhConnected"
  shows "same_tokens E r (session_text E raw now acked_at nonce sent r)"
proof (cases "ry_parse E raw")
  case None
  then show ?thesis using failed_same [of r E] assms by (simp add: session_text_def)
next
  case (Some envelope)
  let ?D = "ry_D E" and ?d = "rl_daemon r"
  obtain m s j where m: "apply_relay_message (de_P ?D) (de_A ?D) (de_parse ?D) envelope (de_device_id ?D)
      (sh_active_run (dm_shared ?d)) now acked_at nonce (dm_shared ?d, dm_journal ?d) = (m, s, j)" by (metis prod_cases3)
  let ?r = "r\<lparr>rl_daemon := ?d\<lparr>dm_shared := s, dm_journal := j\<rparr>\<rparr>"
  have "same_tokens E r ?r" using message_keeps_stored [OF m] by (simp add: same_tokens_def stored_token_def)
  moreover have "same_tokens E ?r (relay_failed ?r)"
    "same_tokens E ?r (after_send (send_envelope (de_P ?D) acknowledgement sent (rl_sent r)) ?r)" for acknowledgement
    using failed_same [of ?r E] after_send_same [of ?r E] assms by simp_all
  moreover have "same_tokens E r (ended (Inr ()) r)" using assms by (simp add: same_tokens_def ended_def stored_token_def)
  ultimately show ?thesis
    using Some m by (auto simp: session_text_def Let_def intro: same_tokens_trans split: sum.splits option.splits)
qed

lemma session_effect_journal:
  "daemon_next D (effect_event effect) d = Some d' \<Longrightarrow> dm_journal d' = dm_journal d"
  by (cases effect) (auto simp: effect_event_def when_live_def split: if_splits)

lemma relay_next_same:
  assumes "relay_next E i r = Some r'" and "\<And>answer nonce. i \<noteq> InRotation answer nonce"
  shows "same_tokens E r r'"
proof (cases i)
  case (InHandshake h)
  then have "r' = session_started E h r" "rl_phase r = PhConnecting"
    using assms(1) by (auto elim: relay_handshakeE split: if_splits)
  then show ?thesis
    by (auto simp: session_started_def same_tokens_def relay_failed_def stored_token_def fail_closed_def
      split: option.splits prod.splits sum.splits)
next
  case (InHeartbeat now envelope_id sent)
  then have "r' = after_send (send_envelope (de_P (ry_D E)) (heartbeat E now envelope_id r) sent (rl_sent r)) r"
    "rl_phase r = PhConnected" using assms(1) by (auto elim: relay_heartbeatE split: if_splits)
  then show ?thesis using after_send_same [of r E] by simp
next
  case (InMessage incoming now acked_at nonce sent)
  then have r': "r' = session_message E incoming now acked_at nonce sent r" and ph: "rl_phase r = PhConnected"
    using assms(1) by (auto elim: relay_messageE split: if_splits)
  have "same_tokens E r r" by (simp add: same_tokens_def)
  then show ?thesis using ph text_same [OF ph, of E] failed_same [of r E] unfolding r' session_message_def
    by (simp split: relay_incoming.split relay_frame.split)
next
  case (InSession effect)
  then show ?thesis using assms session_effect_journal
    by (auto simp: same_tokens_def stored_token_def in_session_def split: if_splits)
next
  case (InCompanion q)
  then show ?thesis using assms by (auto simp: same_tokens_def stored_token_def companion_message_def split: if_splits prod.splits)
qed (use assms in \<open>auto simp: same_tokens_def stored_token_def in_session_def live_stopped_def live_failed_def
      split: if_splits relay_phase.splits\<close>)

lemma rotation_held:
  assumes "aead_law (de_A (ry_D E))" and "length nonce = 24" and "tokens_held E r newest"
    and "relay_next E (InRotation answer nonce) r = Some r'"
  shows "(\<exists>e. rl_phase r' = PhEnded (Inl e))
    \<or> tokens_held E r' (case answer of Inl _ \<Rightarrow> newest | Inr tokens \<Rightarrow> Some tokens)"
proof -
  have ph: "rl_phase r = PhStarting \<and> r' = first_rotation E answer nonce r \<or> rl_phase r = PhRotating \<and> r' = next_rotation E answer nonce r"
    using assms(4) by (auto elim: relay_rotationE split: if_splits)
  show ?thesis
  proof (cases answer)
    case (Inl e)
    have "same_tokens E r r'" using ph Inl
      by (auto simp: first_rotation_def next_rotation_def same_tokens_def stored_token_def fail_closed_def Let_def)
    then show ?thesis using same_tokens_held [OF _ assms(3), of r'] Inl by simp
  next
    case (Inr tokens)
    show ?thesis
    proof (cases "put_secret (de_A (ry_D E)) nonce REFRESH_TOKEN_SECRET (dt_refresh_token tokens) (dm_journal (rl_daemon r))")
      case (Inl e)
      then show ?thesis using ph Inr by (auto simp: first_rotation_def next_rotation_def ended_def Let_def)
    next
      case put: (Inr j)
      have s: "secret (de_A (ry_D E)) REFRESH_TOKEN_SECRET j = Inr (Some (dt_refresh_token tokens))"
        using jsec.put_get [OF conjI [OF assms(1,2)] put] .
      show ?thesis using ph Inr put s
        by (cases "blank (dt_access_token tokens)") (auto simp: first_rotation_def next_rotation_def ended_def tokens_held_def
          stored_token_def new_token_def replace_token_def Let_def)
    qed
  qed
qed

lemma relay_tokens_held:
  assumes "relay_run E r0 ins r" and "rl_phase r0 = PhStarting" and "aead_law (de_A (ry_D E))" and "list_all fresh_input ins"
  shows "(\<exists>e. rl_phase r = PhEnded (Inl e)) \<or> tokens_held E r (newest_tokens ins)"
  using assms(1,4)
proof (induction rule: relay_run.induct)
  case begun
  then show ?case using assms(2) by (simp add: tokens_held_def newest_tokens_def)
next
  case (went ins r i r')
  have alive: "\<not> (\<exists>e. rl_phase r = PhEnded (Inl e))"
    using went.hyps(2) by (cases i) (auto simp: in_session_def running_loop_def)
  with went have held: "tokens_held E r (newest_tokens ins)" by simp
  have newest: "newest_tokens (ins @ [i]) = (case tokens_of_input i of None \<Rightarrow> newest_tokens ins | Some tokens \<Rightarrow> Some tokens)"
    by (cases "tokens_of_input i") (simp_all add: newest_tokens_def)
  show ?case
  proof (cases "\<exists>answer nonce. i = InRotation answer nonce")
    case True
    then obtain answer nonce where i: "i = InRotation answer nonce" by blast
    have "length nonce = 24" using went.prems i by (simp add: fresh_input_def)
    moreover have "newest_tokens (ins @ [i]) = (case answer of Inl _ \<Rightarrow> newest_tokens ins | Inr tokens \<Rightarrow> Some tokens)"
      unfolding newest by (simp add: i tokens_of_input_def split: sum.split)
    ultimately show ?thesis using rotation_held [OF assms(3) _ held] went.hyps(2) [unfolded i] by metis
  next
    case False
    then have "tokens_of_input i = None" by (cases i) (auto simp: tokens_of_input_def)
    then show ?thesis using same_tokens_held [OF relay_next_same [OF went.hyps(2)] held] False by (simp add: newest)
  qed
qed

text \<open>
  C14. The daemon works with the newest tokens it was given and never loses them: as long as the loop has not
  ended with an error, after any inputs, the access token of the live session's clients and of the next
  relay connection is the one of the last successful rotation, and the journal holds that rotation's refresh
  token, so a restart at any moment starts from it, whatever the credential files hold, if it has the form
  of a refresh token; before the first rotation there is neither a session nor a connection.
\<close>

theorem relay_keeps_newest_tokens:
  assumes "aead_law (de_A (ry_D E))" and "relay_start E j token = Inr r0" and "relay_run E r0 ins r"
    and "list_all fresh_input ins" and "\<And>e. rl_phase r \<noteq> PhEnded (Inl e)"
  shows "case newest_tokens ins of
      None \<Rightarrow> rl_phase r = PhStarting
    | Some tokens \<Rightarrow> rl_tokens r = Some tokens \<and> rt_token (rl_access r) = dt_access_token tokens
        \<and> (is_utf8 (dt_refresh_token tokens) \<and> starts_with (dt_refresh_token tokens) REFRESH_PREFIX \<longrightarrow>
            load_refresh_token (de_A (ry_D E)) files (dm_journal (rl_daemon r)) = Inr (dt_refresh_token tokens))"
proof -
  have "rl_phase r0 = PhStarting" using assms(2) by (auto simp: relay_start_def split: if_splits)
  then have "tokens_held E r (newest_tokens ins)" using relay_tokens_held assms by blast
  then show ?thesis
    by (auto simp: tokens_held_def stored_token_def load_refresh_token_def split: option.splits)
qed

section \<open>A concrete loop\<close>

fun relay_exec :: "'w relay_env \<Rightarrow> relay_input list \<Rightarrow> relay \<Rightarrow> relay option" where
  "relay_exec E [] r = Some r"
| "relay_exec E (i # ins) r = Option.bind (relay_next E i r) (relay_exec E ins)"

lemma relay_run_cons: "relay_run E r1 ins r' \<Longrightarrow> relay_next E i r = Some r1 \<Longrightarrow> relay_run E r (i # ins) r'"
proof (induction ins arbitrary: r' rule: rev_induct)
  case Nil
  then show ?case using relay_run_snoc [of E r "[]" i r'] by (simp add: relay_run_nil)
next
  case (snoc i' ins)
  then show ?case using relay_run_snoc [of E r "i # ins" i' r'] by (auto simp: relay_run_snoc)
qed

lemma relay_exec_run: "relay_exec E ins r = Some r' \<Longrightarrow> relay_run E r ins r'"
  by (induction ins arbitrary: r) (auto intro: relay_run.begun relay_run_cons split: bind_splits)

definition toy_relay_net :: "unit net" where
  "toy_relay_net = \<lparr>ne_parse = (\<lambda>t. Some \<lparr>ur_scheme = takeWhile (\<lambda>c. c \<noteq> CHR '':'') t, ur_host = Some ''crowcompute.ai'',
       ur_opaque = False, ur_rest = []\<rparr>),
     ne_join = (\<lambda>u p. Some u), ne_header = (\<lambda>_. True), ne_builds = True, ne_send = (\<lambda>q w. (Inl HttpFailed, w))\<rparr>"

definition toy_relay_env :: "unit relay_env" where
  "toy_relay_env = \<lparr>ry_D = toy_daemon_env, ry_N = toy_relay_net,
     ry_parse = (\<lambda>raw. Some \<lparr>we_protocol = HARNESS_PROTOCOL_V1, we_kind = raw, we_id = ''i'',
       we_payload = JObj [(''nonce'', JStr ''n'')]\<rparr>),
     ry_request = (\<lambda>_. True), ry_relay_url = ''wss:r'', ry_api_origin = ''https:a'', ry_identity = ''seed'', ry_live = True\<rparr>"

definition newer_tokens :: device_tokens where
  "newer_tokens = toy_tokens\<lparr>dt_access_token := ''b'', dt_refresh_token := REFRESH_PREFIX @ ''2''\<rparr>"

definition toy_handshake :: handshake where
  "toy_handshake = \<lparr>hk_answer = Some (Some HARNESS_PROTOCOL_V1), hk_first = IcFrame (FText ''challenge''), hk_signed_at = 0,
     hk_sent = True, hk_ready_at = 0\<rparr>"

definition toy_inputs :: "relay_input list" where
  "toy_inputs = [InRotation (Inr toy_tokens) toy_nonce, InHandshake toy_handshake,
     InMessage (IcFrame (FText ''auth.ok'')) 0 0 toy_nonce True, InSession (SeRun (Some 2)), InSession SeResume,
     InRotationDue 9000000000000000, InRotation (Inl DaRequest) toy_nonce, InRotation (Inr newer_tokens) toy_nonce]"

definition toy_relay :: relay where
  "toy_relay = \<lparr>rl_daemon = (start_daemon (open_journal ''key'') ''old'')\<lparr>dm_live := False\<rparr>, rl_phase = PhStarting,
     rl_tokens = None, rl_access = \<lparr>rt_token = []\<rparr>, rl_rotate_at = 0, rl_sent = []\<rparr>"

lemma toy_relay_start: "relay_start toy_relay_env (open_journal ''key'') ''old'' = Inr toy_relay"
  by (simp add: relay_start_def toy_relay_env_def toy_relay_net_def new_auth_client_def check_origin_def crow_host_def toy_relay_def)

lemma toy_looped:
  "case relay_exec toy_relay_env toy_inputs toy_relay of
     None \<Rightarrow> False
   | Some r \<Rightarrow> rl_phase r = PhConnecting \<and> length (rl_sent r) = 3 \<and> sh_active_run (dm_shared (rl_daemon r)) = Some 2
       \<and> sh_gate (dm_shared (rl_daemon r)) = EXECUTION_PAUSED"
  by code_simp

lemma toy_loop:
  obtains r where "relay_run toy_relay_env toy_relay toy_inputs r" and "rl_phase r = PhConnecting"
    and "sh_active_run (dm_shared (rl_daemon r)) = Some 2"
proof -
  obtain r where "relay_exec toy_relay_env toy_inputs toy_relay = Some r" "rl_phase r = PhConnecting"
      "sh_active_run (dm_shared (rl_daemon r)) = Some 2"
    using toy_looped by (auto split: option.splits)
  then show thesis using that relay_exec_run by blast
qed

theorem relay_loop_refines_daemon_witness:
  "\<exists>r es d. relay_run toy_relay_env toy_relay toy_inputs r \<and> daemon_run toy_daemon_env (start_daemon (open_journal ''key'') ''old'') es d
     \<and> dm_shared (rl_daemon r) = dm_shared d \<and> sh_active_run (dm_shared d) = Some 2"
proof (rule toy_loop)
  fix r assume r: "relay_run toy_relay_env toy_relay toy_inputs r" "sh_active_run (dm_shared (rl_daemon r)) = Some 2"
  have "ry_D toy_relay_env = toy_daemon_env" by (simp add: toy_relay_env_def)
  with relay_loop_refines_daemon [OF toy_relay_start r(1)] r show ?thesis by metis
qed

theorem relay_keeps_newest_tokens_witness:
  "\<exists>r. relay_run toy_relay_env toy_relay toy_inputs r \<and> rl_tokens r = Some newer_tokens \<and> rt_token (rl_access r) = ''b''
     \<and> load_refresh_token toy_aead None (dm_journal (rl_daemon r)) = Inr (REFRESH_PREFIX @ ''2'')"
proof (rule toy_loop)
  fix r assume r: "relay_run toy_relay_env toy_relay toy_inputs r" "rl_phase r = PhConnecting"
  have law: "aead_law (de_A (ry_D toy_relay_env))" "de_A (ry_D toy_relay_env) = toy_aead"
    by (simp_all add: toy_relay_env_def toy_daemon_env_def toy_aead_law)
  have fresh: "list_all fresh_input toy_inputs" by (simp add: toy_inputs_def fresh_input_def toy_nonce_def)
  have new: "newest_tokens toy_inputs = Some newer_tokens" by (simp add: newest_tokens_def toy_inputs_def tokens_of_input_def)
  have "is_utf8 (dt_refresh_token newer_tokens) \<and> starts_with (dt_refresh_token newer_tokens) REFRESH_PREFIX" by code_simp
  then show ?thesis
    using relay_keeps_newest_tokens [OF law(1) toy_relay_start r(1) fresh, of None] r new law(2)
    by (auto simp: newer_tokens_def)
qed

end
