(* ===== verification/Commands.thy ===== *)
theory Commands
  imports Relay Schedule Datasets
begin

text \<open>
  The commands of the daemon, \<open>main\<close> of \<open>apps/crow-agentd/src/main.rs\<close>: the manifest check, the backtest of
  a signed dataset, the device's public key, and how \<open>run\<close> and \<open>desktop-run\<close> are set up before the relay
  loop of \<open>Relay\<close> starts; and the companion's listener on the local socket. Files, serde's readers and the
  opening of the journal are the record \<open>command_io\<close>; what a command prints is its result.
\<close>

section \<open>Files\<close>

record config_file =
  cf_device_id :: uuid
  cf_relay_url :: string
  cf_api_origin :: "string option"
  cf_state_directory :: "string option"
  cf_live_arena :: "live_arena_config option"

record daemon_config =
  df_device_id :: uuid
  df_relay_url :: string
  df_api_origin :: string
  df_state_directory :: string
  df_live_arena :: "live_arena_config option"

definition production_api_origin :: string where "production_api_origin = ''https://api.crowcompute.ai''"
definition default_state_directory :: string where "default_state_directory = ''/var/lib/crow-agent''"

text \<open>The defaults of \<open>DaemonConfig\<close>.\<close>

definition with_defaults :: "config_file \<Rightarrow> daemon_config" where
  "with_defaults c = \<lparr>df_device_id = cf_device_id c, df_relay_url = cf_relay_url c,
     df_api_origin = (case cf_api_origin c of None \<Rightarrow> production_api_origin | Some origin \<Rightarrow> origin),
     df_state_directory = (case cf_state_directory c of None \<Rightarrow> default_state_directory | Some directory \<Rightarrow> directory),
     df_live_arena = cf_live_arena c\<rparr>"

record command_io =
  ci_P :: prims
  ci_A :: aead_prims
  ci_files :: "string \<Rightarrow> string option"
  ci_signed :: "string \<Rightarrow> signed_manifest option"
  ci_enc :: "arena_manifest \<Rightarrow> json option"
  ci_dec :: "json \<Rightarrow> arena_manifest option"
  ci_value :: "string \<Rightarrow> json option"
  ci_dataset :: "string \<Rightarrow> dataset_manifest option"
  ci_parquet :: dataset_io
  ci_directory :: "string \<Rightarrow> directory"
  ci_proposals :: "string \<Rightarrow> scheduled_proposal list option"
  ci_config :: "string \<Rightarrow> config_file option"
  ci_mkdir :: "string \<Rightarrow> bool"
  ci_journal :: "string \<Rightarrow> string \<Rightarrow> journal_error + journal"
  ci_credentials :: credentials

definition read_file :: "command_io \<Rightarrow> string \<Rightarrow> daemon_error + string" where
  "read_file I path = ok_or (ci_files I path) DeIo"

definition read_parsed :: "command_io \<Rightarrow> (string \<Rightarrow> 'a option) \<Rightarrow> string \<Rightarrow> daemon_error + 'a" where
  "read_parsed I parse path = rbind (read_file I path) (\<lambda>bytes. ok_or (parse bytes) DeJson)"

definition read_verified_manifest :: "command_io \<Rightarrow> string \<Rightarrow> daemon_error + signed_manifest" where
  "read_verified_manifest I path =
     rbind (read_parsed I (ci_signed I) path) (\<lambda>signed.
     rbind (map_err (\<lambda>_. DeManifest) (verify_manifest (ci_P I) (ci_enc I) (ci_dec I) signed)) (\<lambda>_. Inr signed))"

section \<open>Manifest, backtest and public key\<close>

definition validate_manifest_command :: "command_io \<Rightarrow> string \<Rightarrow> daemon_error + string" where
  "validate_manifest_command I path =
     rbind (read_verified_manifest I path) (\<lambda>signed.
       Inr (''valid '' @ uuid_str (ci_P I) (am_arena_id (sm_manifest signed)) @ '' ''
         @ digits (unat (am_manifest_version (sm_manifest signed))) @ '' '' @ sm_manifest_sha256 signed))"

definition fill_json :: "simulated_fill \<Rightarrow> json" where
  "fill_json f = JObj [(''symbol'', JStr (f_symbol f)), (''side'', JStr (side_str (f_side f))), (''quantity_e8'', JInt (f_quantity_e8 f)),
     (''price_micro_usdc'', JInt (f_price f)), (''fee_micro_usdc'', JInt (f_fee f)), (''candle_open_time_ms'', JInt (f_candle_open_time f))]"

definition equity_point_json :: "equity_point \<Rightarrow> json" where
  "equity_point_json p = JObj [(''close_time_ms'', JInt (ep_close_time p)), (''equity_micro_usdc'', JInt (ep_equity p))]"

definition backtest_result_json :: "backtest_result \<Rightarrow> json" where
  "backtest_result_json r = JObj [(''ending_cash_micro_usdc'', JInt (br_ending_cash r)),
     (''ending_equity_micro_usdc'', JInt (br_ending_equity r)), (''fees_micro_usdc'', JInt (br_fees r)),
     (''funding_micro_usdc'', JInt (br_funding r)), (''fills'', JArr (map fill_json (br_fills r))),
     (''equity_curve'', JArr (map equity_point_json (br_equity_curve r))), (''policy_rejections'', jword (br_policy_rejections r))]"

definition replay_json :: "prims \<Rightarrow> signed_manifest \<Rightarrow> dataset_manifest \<Rightarrow> backtest_result \<Rightarrow> json" where
  "replay_json P arena dataset result = JObj [(''protocol'', JStr HARNESS_PROTOCOL_V1),
     (''arena_id'', juuid P (am_arena_id (sm_manifest arena))), (''arena_manifest_sha256'', JStr (sm_manifest_sha256 arena)),
     (''dataset_sha256'', JStr (dm_package_sha256 dataset)), (''result'', backtest_result_json result)]"

text \<open>The replay of a signed historical arena over exactly the dataset its manifest names.\<close>

definition replay_dataset ::
    "command_io \<Rightarrow> string \<Rightarrow> string \<Rightarrow> string \<Rightarrow> string \<Rightarrow> int \<Rightarrow> daemon_error + signed_manifest \<times> dataset_manifest \<times> backtest_result" where
  "replay_dataset I arena_path dataset_path dataset_directory proposals_path starting_cash =
     rbind (read_verified_manifest I arena_path) (\<lambda>signed.
     rbind (read_parsed I (ci_dataset I) dataset_path) (\<lambda>dataset.
     rbind (map_err (\<lambda>_. DeDataset) (read_verified_dataset (ci_P I) (ci_parquet I) (ci_directory I dataset_directory) dataset)) (\<lambda>candles.
     let m = sm_manifest signed in
     if am_mode m \<noteq> HistoricalBacktest \<or> am_dataset_sha256 m \<noteq> Some (dm_package_sha256 dataset) then Inl DeManifest
     else
     rbind (read_parsed I (ci_proposals I) proposals_path) (\<lambda>scheduled.
     rbind (map_err (\<lambda>_. DeBacktest) (run_synchronized_proposals \<lparr>en_rules = am_risk_rules m, en_execution = am_execution m\<rparr>
         candles scheduled starting_cash)) (\<lambda>result.
       Inr (signed, dataset, result))))))"

definition backtest_command :: "command_io \<Rightarrow> string \<Rightarrow> string \<Rightarrow> string \<Rightarrow> string \<Rightarrow> int \<Rightarrow> daemon_error + string" where
  "backtest_command I arena_path dataset_path dataset_directory proposals_path starting_cash =
     rbind (replay_dataset I arena_path dataset_path dataset_directory proposals_path starting_cash) (\<lambda>(signed, dataset, result).
     let P = ci_P I; replay = replay_json P signed dataset result in
     rbind (map_err (\<lambda>_. DeManifest) (canonical_json P (Some replay))) (\<lambda>canonical.
       ok_or (json_to_vec P (JObj [(''replay'', replay), (''replay_sha256'', JStr (hex_encode P (sha256 P canonical)))])) DeJson))"

definition device_public_command :: "command_io \<Rightarrow> daemon_error + string" where
  "device_public_command I = rbind (load_identity (ci_credentials I)) (\<lambda>seed. Inr (public_key (ci_P I) seed))"

section \<open>Starting a run\<close>

definition prepare_live :: "command_io \<Rightarrow> live_arena_config \<Rightarrow> daemon_error + prepared_arena" where
  "prepare_live I c = map_err (\<lambda>_. DeLiveRun) (prepare (ci_P I) (ci_enc I) (ci_dec I) (ci_files I) (ci_signed I) (ci_value I) c)"

text \<open>What the relay loop and the live session are given.\<close>

record run_setup =
  rs_config :: daemon_config
  rs_prepared :: "prepared_arena option"
  rs_signing_seed :: string
  rs_encryption_secret :: string
  rs_journal_key :: string
  rs_journal :: journal
  rs_refresh_token :: string
  rs_api_wallet_key :: "string option"
  rs_companion_secret :: "string option"

definition open_state :: "command_io \<Rightarrow> daemon_config \<Rightarrow> string \<Rightarrow> daemon_error + journal" where
  "open_state I c journal_key =
     map_err DeJournal (ci_journal I (df_state_directory c @ ''/journal.db'') journal_key)"

definition make_state_directory :: "command_io \<Rightarrow> daemon_config \<Rightarrow> daemon_error + unit" where
  "make_state_directory I c = (if ci_mkdir I (df_state_directory c) then Inr () else Inl DeIo)"

definition desktop_run_setup :: "command_io \<Rightarrow> string \<Rightarrow> string \<Rightarrow> daemon_error + run_setup" where
  "desktop_run_setup I path stdin =
     rbind (read_parsed I (ci_config I) path) (\<lambda>file.
     let config = with_defaults file in
     rbind (case df_live_arena config of None \<Rightarrow> Inl DeManifest | Some c \<Rightarrow> prepare_live I c) (\<lambda>prepared.
     rbind (read_desktop_credentials_from stdin) (\<lambda>credentials.
     rbind (make_state_directory I config) (\<lambda>_.
     rbind (open_state I config (dc_journal_key credentials)) (\<lambda>journal.
       Inr \<lparr>rs_config = config, rs_prepared = Some prepared, rs_signing_seed = dc_signing_seed credentials,
         rs_encryption_secret = dc_encryption_secret credentials, rs_journal_key = dc_journal_key credentials,
         rs_journal = journal, rs_refresh_token = dc_refresh_token credentials,
         rs_api_wallet_key = Some (dc_api_wallet_key credentials), rs_companion_secret = Some (dc_companion_secret credentials)\<rparr>)))))"

definition run_setup_of :: "command_io \<Rightarrow> string \<Rightarrow> daemon_error + run_setup" where
  "run_setup_of I path =
     rbind (read_parsed I (ci_config I) path) (\<lambda>file.
     let config = with_defaults file; dir = ci_credentials I in
     rbind (case df_live_arena config of None \<Rightarrow> Inr None | Some c \<Rightarrow> rbind (prepare_live I c) (\<lambda>p. Inr (Some p))) (\<lambda>prepared.
     rbind (load_identity dir) (\<lambda>seed.
     rbind (make_state_directory I config) (\<lambda>_.
     rbind (load_credential_32 dir ''journal-key'' DeJournalCredential) (\<lambda>journal_key.
     rbind (load_credential_32 dir ''device-encryption-secret'' DeEncryptionCredential) (\<lambda>encryption_secret.
     rbind (open_state I config journal_key) (\<lambda>journal.
     rbind (load_refresh_token (ci_A I) dir journal) (\<lambda>refresh_token.
     rbind (if prepared = None then Inr None
        else rbind (load_credential_32 dir ''hyperliquid-api-wallet-key'' DeApiWalletCredential) (\<lambda>k. Inr (Some k))) (\<lambda>wallet.
       Inr \<lparr>rs_config = config, rs_prepared = prepared, rs_signing_seed = seed, rs_encryption_secret = encryption_secret,
         rs_journal_key = journal_key, rs_journal = journal, rs_refresh_token = refresh_token, rs_api_wallet_key = wallet,
         rs_companion_secret = None\<rparr>)))))))))"

text \<open>The environment of the loop for a run; \<open>B\<close> has what is the same for every run.\<close>

definition relay_env_for :: "'w relay_env \<Rightarrow> run_setup \<Rightarrow> 'w relay_env" where
  "relay_env_for B s = B\<lparr>ry_relay_url := df_relay_url (rs_config s), ry_api_origin := df_api_origin (rs_config s),
     ry_identity := rs_signing_seed s, ry_live := rs_prepared s \<noteq> None \<and> rs_api_wallet_key s \<noteq> None,
     ry_D := (ry_D B)\<lparr>de_device_id := df_device_id (rs_config s),
        de_secret := (case rs_companion_secret s of None \<Rightarrow> de_secret (ry_D B) | Some secret_key \<Rightarrow> secret_key)\<rparr>\<rparr>"

definition start_run_loop :: "'w relay_env \<Rightarrow> run_setup \<Rightarrow> daemon_error + relay" where
  "start_run_loop B s = relay_start (relay_env_for B s) (rs_journal s) (rs_refresh_token s)"

section \<open>The companion's listener\<close>

record listener_codec =
  lc_request :: "string \<Rightarrow> companion_request option"
  lc_response :: "companion_response \<Rightarrow> string option"

text \<open>A connection: the bytes of its line (\<open>None\<close> when reading fails) and whether the answer can be written.\<close>

definition handle_companion_connection ::
    "daemon_env \<Rightarrow> listener_codec \<Rightarrow> string option \<times> bool \<Rightarrow> (u64 \<times> shared, daemon_error, string) step" where
  "handle_companion_connection E C connection =
     (case connection of (raw, writes) \<Rightarrow>
     sbind (slift (ok_or raw DeIo)) (\<lambda>bytes.
     sbind (slift (ok_or (from_utf8 bytes) DeIo)) (\<lambda>line.
     if bytes = [] \<or> MAX_COMPANION_MESSAGE_BYTES < length bytes then slift (Inl DeRemoteCommand)
     else
     sbind (slift (ok_or (lc_request C (utf8 (trim_end line))) DeJson)) (\<lambda>request.
     sbind (apply_companion_request (de_P E) (de_enc E) (de_secret E) request) (\<lambda>response.
     sbind (slift (ok_or (lc_response C response) DeJson)) (\<lambda>encoded.
       if writes then sret (encoded @ [CHR 0x0A]) else slift (Inl DeIo)))))))"

text \<open>The listener goes on after an error of a connection and ends when it cannot accept one.\<close>

fun run_companion_listener ::
    "daemon_env \<Rightarrow> listener_codec \<Rightarrow> (string option \<times> bool) option list \<Rightarrow> u64 \<times> shared \<Rightarrow> (daemon_error option \<times> string list) \<times> u64 \<times> shared" where
  "run_companion_listener E C [] x = ((None, []), x)"
| "run_companion_listener E C (None # cs) x = ((Some DeIo, []), x)"
| "run_companion_listener E C (Some connection # cs) x =
     (case handle_companion_connection E C connection x of (answer, x1) \<Rightarrow>
      (case run_companion_listener E C cs x1 of ((result, answers), x2) \<Rightarrow>
        ((result, (case answer of Inl _ \<Rightarrow> answers | Inr a \<Rightarrow> a # answers)), x2)))"

definition run_companion ::
    "daemon_env \<Rightarrow> listener_codec \<Rightarrow> string \<Rightarrow> (string option \<times> bool) option list \<Rightarrow> daemon_error + (daemon_error option \<times> string list) \<times> u64 \<times> shared" where
  "run_companion E C stdin connections =
     rbind (read_exact 32 stdin) (\<lambda>(key, _). Inr (run_companion_listener (E\<lparr>de_secret := key\<rparr>) C connections (0, new_shared)))"

end
