(* ===== verification/Handover.thy ===== *)
theory Handover
  imports Launch Commands
begin

text \<open>
  The hand-over from the desktop shell to the daemon: what the shell's launch writes and pipes
  (\<open>apps/desktop/src-tauri/src/lib.rs\<close>) is what \<open>crow-agentd desktop-run\<close>
  (\<open>apps/crow-agentd/src/main.rs\<close>) sets itself up from. The two programs share no state but the files, the
  frame on the pipe and the name of the socket.
\<close>

section \<open>The shared secret stays\<close>

text \<open>Once the companion credentials are loaded they stay, and their secret has 32 bytes.\<close>

definition secret_ok :: "'w desktop \<Rightarrow> bool" where
  "secret_ok d \<longleftrightarrow> (case dt_credentials d of None \<Rightarrow> True | Some c \<Rightarrow> length (cc_secret c) = 32)"

definition keeps_credentials :: "'w shell \<Rightarrow> 'w shell \<Rightarrow> bool" where
  "keeps_credentials s s' \<longleftrightarrow>
     (dt_credentials (sl_desktop s) = None \<or> dt_credentials (sl_desktop s') = dt_credentials (sl_desktop s))
     \<and> (secret_ok (sl_desktop s) \<longrightarrow> secret_ok (sl_desktop s'))"

interpretation creds: step_relation keeps_credentials
  by unfold_locales (auto simp: keeps_credentials_def)

text \<open>Secrets are drawn with 32 bytes, and device tokens are issued with their prefix.\<close>

definition issue_laws :: "'w shell_env \<Rightarrow> bool" where
  "issue_laws E \<longleftrightarrow> (\<forall>w. length (fst (kc_random (dk_K (se_D E)) w)) = 32)
     \<and> (\<forall>v t. ad_tokens (dk_C (se_D E)) v = Some t \<longrightarrow> is_utf8 (dt_refresh_token t) \<and> starts_with (dt_refresh_token t) REFRESH_PREFIX)"

lemma decoded_length: "decode_vault_secret P e = Inr b \<Longrightarrow> length b = 32"
  by (auto simp: decode_vault_secret_def split: if_splits)

lemma vault_world_Inr: "vault_world f v = (Inr x, v') \<Longrightarrow> x = fst (f (wi_world (vs_wire v)))"
  by (auto simp: vault_world_def split: prod.splits)

lemma secret_length:
  assumes "issue_laws E" and "load_or_create_secret_32 P (dk_K (se_D E)) account v = (Inr b, v')"
  shows "length b = 32"
  using assms
  by (auto simp: load_or_create_secret_32_def issue_laws_def slift_def sret_def decoded_length
      elim!: sbind_InrE split: option.splits dest!: vault_world_Inr)

lemma existing_secret_length:
  assumes "load_secret_32 P K account v = (Inr b, v')"
  shows "length b = 32"
  using assms by (auto simp: load_secret_32_def slift_def decoded_length elim!: sbind_InrE)

lemma generated_key:
  assumes "issue_laws E" and "generate_wallet_key P (dk_K (se_D E)) n v = (Inr key, v')"
  shows "length key = 32 \<and> kc_wallet_ok (dk_K (se_D E)) key"
proof -
  have r: "length (fst (kc_random (dk_K (se_D E)) w)) = 32" for w using assms(1) by (simp add: issue_laws_def)
  show ?thesis using assms(2)
    by (induction n arbitrary: v)
      (auto simp: slift_def sret_def r elim!: sbind_InrE split: if_splits dest!: vault_world_Inr)
qed

lemma wallet_key_length:
  assumes "issue_laws E" and "load_or_create_wallet_key P (dk_K (se_D E)) v = (Inr key, v')"
  shows "length key = 32 \<and> kc_wallet_ok (dk_K (se_D E)) key"
  using assms(2) generated_key [OF assms(1)]
  by (auto simp: load_or_create_wallet_key_def slift_def decoded_length elim!: sbind_InrE split: option.splits if_splits)

lemma keep_on_vault: "keeps keeps_credentials (on_desktop (on_vault m))"
  by (auto simp: keeps_def on_desktop_def on_vault_def keeps_credentials_def secret_ok_def split: prod.splits)

lemma keep_steps: "keeps keeps_credentials (shell_world f)" "keeps keeps_credentials (on_slot m1)" "keeps keeps_credentials (on_net m2)"
  "keeps keeps_credentials (kill_child E pid)"
  by (simp_all add: shell_world_def on_net_def kill_child_def keep_on_vault)
    (auto simp: keeps_def on_slot_def on_desktop_def keeps_credentials_def secret_ok_def split: prod.splits)

lemma keep_shell:
  "keeps keeps_credentials (sput (\<lambda>s. s\<lparr>sl_child := c\<rparr>))" "keeps keeps_credentials (sput (\<lambda>s. s\<lparr>sl_files := g s\<rparr>))"
  "keeps keeps_credentials (sput (\<lambda>s. if b then s else s\<lparr>sl_started := h s\<rparr>))"
  by (simp_all add: keeps_def sput_def keeps_credentials_def)

lemma credentials_loaded:
  assumes "issue_laws E" and "on_desktop (companion_credentials_of (se_D E)) s = (r, s')"
  shows "keeps_credentials s s'" and "r = Inr c \<Longrightarrow> dt_credentials (sl_desktop s') = Some c"
  using assms(2) secret_length [OF assms(1)]
  by (auto simp: on_desktop_def companion_credentials_of_def load_or_create_companion_secret_def on_vault_def keeps_credentials_def
      secret_ok_def Let_def split: if_splits option.splits sum.splits prod.splits)

lemma keep_credentials_of: "issue_laws E \<Longrightarrow> keeps keeps_credentials (on_desktop (companion_credentials_of (se_D E)))"
  by (rule keepsI) (rule credentials_loaded(1))

lemma keep_tokens: "keeps keeps_credentials (tokens_of E)"
proof -
  have v: "keeps keeps_credentials (on_desktop (\<lambda>d. case on_vault m d of (Inr t, d') \<Rightarrow> (Inr t, d'\<lparr>dt_tokens := Some t\<rparr>)
      | (Inl e, d') \<Rightarrow> (Inl e, if e = DkCredential then d'\<lparr>dt_tokens_unavailable := True\<rparr> else d')))" for m
    by (auto simp: keeps_def on_desktop_def on_vault_def keeps_credentials_def secret_ok_def split: prod.splits sum.splits)
  show ?thesis
    using v [of "load_or_rotate_tokens (se_D E)"]
    by (auto simp: keeps_def tokens_of_def on_desktop_def device_tokens_of_def keeps_credentials_def secret_ok_def Let_def
        sbind_def sret_def on_vault_def vault_world_def split: prod.splits sum.splits option.splits if_splits)
qed

lemma keep_nonce:
  "keeps keeps_credentials (on_desktop (\<lambda>d. case next_companion_nonce (dt_companion_nonce d) of (r, n) \<Rightarrow> (r, d\<lparr>dt_companion_nonce := n\<rparr>)))"
  by (auto simp: keeps_def on_desktop_def keeps_credentials_def secret_ok_def split: prod.splits)

lemma keep_request: "issue_laws E \<Longrightarrow> keeps keeps_credentials (companion_request_of E action)"
  unfolding companion_request_of_def companion_request_with_options_def send_companion_request_def
  by (intro creds.keeps_intros keep_steps keep_credentials_of keep_nonce)

lemma keep_opened: "keeps keeps_credentials (opened_strategy E v t)"
  unfolding opened_strategy_def stored_device_id_def
  by (intro creds.keeps_intros keep_steps keep_on_vault)

lemma keep_phases: "issue_laws E \<Longrightarrow> keeps keeps_credentials (no_active_run E)" "keeps keeps_credentials (signed_arena E a)"
  "keeps keeps_credentials (checked_launch_account E m acc)" "keeps keeps_credentials (eligible_strategy E m v t)"
  "keeps keeps_credentials (forked_tokens E t d)"
  unfolding no_active_run_def signed_arena_def checked_launch_account_def eligible_strategy_def forked_tokens_def Let_def
  by (intro creds.keeps_intros keeps_try keep_steps keep_on_vault keep_request keep_opened; auto intro: creds.keeps_intros)+

lemma keep_checked: "issue_laws E \<Longrightarrow> keeps keeps_credentials (checked_launch E q)"
  unfolding checked_launch_def
  by (intro creds.keeps_intros keep_phases keep_steps keep_tokens) (auto intro!: creds.keeps_intros keep_phases keep_steps keep_tokens)

lemma keep_written: "keeps keeps_credentials (write_launch_files E a m h v acc d b n l)"
proof -
  have "keeps keeps_credentials (create_private_directory E p)" "keeps keeps_credentials (write_runtime_json E p b)" for p b
    unfolding create_private_directory_def write_runtime_json_def
    by (intro creds.keeps_intros keep_steps keep_shell; auto intro!: creds.keeps_intros keep_shell)+
  then show ?thesis
    unfolding write_launch_files_def Let_def
    by (intro creds.keeps_intros) (auto intro: creds.keeps_ret split: option.split)
qed

lemma keep_launch: "issue_laws E \<Longrightarrow> keeps keeps_credentials (launch_desktop_run E path frame)"
  unfolding launch_desktop_run_def take_child_def occupy_slot_def start_sidecar_def
  by (intro creds.keeps_intros keep_credentials_of keep_steps keep_shell)
    (auto intro!: creds.keeps_intros keep_steps keep_shell split: option.split spawn_outcome.split)

section \<open>The frame and the name\<close>

lemma loaded_credentials:
  assumes "issue_laws E" and "secret_ok d" and "companion_credentials_of (se_D E) d = (Inr c, d')"
  shows "dt_credentials d' = Some c" and "length (cc_secret c) = 32"
  using assms(2,3) secret_length [OF assms(1)]
  by (auto simp: companion_credentials_of_def load_or_create_companion_secret_def on_vault_def
      secret_ok_def Let_def split: if_splits option.splits sum.splits prod.splits)

lemma on_vault_Inr:
  assumes "on_vault m d = (Inr x, d')"
  obtains v v' where "m v = (Inr x, v')" and "dt_credentials d' = dt_credentials d"
  using assms by (auto simp: on_vault_def split: prod.splits)

lemma frame_arrives:
  assumes laws: "issue_laws E" and ok: "secret_ok (sl_desktop s)"
    and f: "on_desktop (credential_frame (se_D E) token) s = (Inr frame, s')"
    and token: "is_utf8 token" "starts_with token REFRESH_PREFIX"
  obtains c creds where "read_desktop_credentials_from frame = Inr c" and "dc_refresh_token c = token"
    and "dt_credentials (sl_desktop s') = Some creds" and "dc_companion_secret c = cc_secret creds"
    and "kc_wallet_ok (dk_K (se_D E)) (dc_api_wallet_key c)"
proof -
  obtain d' where d: "credential_frame (se_D E) token (sl_desktop s) = (Inr frame, d')" "sl_desktop s' = d'"
    using f by (auto simp: on_desktop_def split: prod.splits)
  then obtain c where c: "desktop_secrets (se_D E) token (sl_desktop s) = (Inr c, d')" and frame: "desktop_credential_frame c = Some frame"
    by (auto simp: credential_frame_def slift_def elim!: sbind_InrE)
  from c obtain creds d1 seed d2 enc d3 jkey d4 wallet d5 where
    1: "companion_credentials_of (se_D E) (sl_desktop s) = (Inr creds, d1)"
    and 2: "on_vault (load_secret_32 (dk_P (se_D E)) (dk_K (se_D E)) SIGNING_SEED_ACCOUNT) d1 = (Inr seed, d2)"
    and 3: "on_vault (load_secret_32 (dk_P (se_D E)) (dk_K (se_D E)) ENCRYPTION_SECRET_ACCOUNT) d2 = (Inr enc, d3)"
    and 4: "on_vault (load_or_create_secret_32 (dk_P (se_D E)) (dk_K (se_D E)) JOURNAL_KEY_ACCOUNT) d3 = (Inr jkey, d4)"
    and 5: "on_vault (load_or_create_wallet_key (dk_P (se_D E)) (dk_K (se_D E))) d4 = (Inr wallet, d5)"
    and c': "c = \<lparr>dc_companion_secret = cc_secret creds, dc_signing_seed = seed, dc_encryption_secret = enc, dc_journal_key = jkey,
      dc_api_wallet_key = wallet, dc_refresh_token = token\<rparr>" and d5: "d' = d5"
    unfolding desktop_secrets_def sret_def by (auto elim!: sbind_InrE)
  note creds = loaded_credentials [OF laws ok 1]
  have len: "length seed = 32" "length enc = 32" "length jkey = 32" "length wallet = 32 \<and> kc_wallet_ok (dk_K (se_D E)) wallet"
    by (rule on_vault_Inr [OF 2], rule existing_secret_length, assumption)
      (rule on_vault_Inr [OF 3], rule existing_secret_length, assumption,
       rule on_vault_Inr [OF 4], rule secret_length [OF laws], assumption,
       rule on_vault_Inr [OF 5], rule wallet_key_length [OF laws], assumption)
  have same: "dt_credentials d5 = Some creds"
    using creds(1) by (metis on_vault_Inr 2 3 4 5)
  have "read_desktop_credentials_from frame = Inr c"
    by (rule desktop_credentials_arrive [OF frame]) (use c' creds(2) len token in \<open>simp_all add: REFRESH_PREFIX_def\<close>)
  then show ?thesis using that c' same d(2) d5 len(4) by simp
qed

text \<open>The daemon is started under the name the desktop then talks to.\<close>

lemma started_under_name:
  assumes "issue_laws E" and "dt_credentials (sl_desktop s) = Some creds" and run: "launch_desktop_run E path frame s = (r, s')"
  shows "starts_one [''desktop-run'', path, ''--ipc-name'', cc_ipc_name creds] frame s s'"
    and "dt_credentials (sl_desktop s') = Some creds"
proof -
  have kept: "keeps_credentials s s'" by (rule keepsD [OF keep_launch [OF assms(1)] run])
  then show "dt_credentials (sl_desktop s') = Some creds" using assms(2) by (simp add: keeps_credentials_def)
  show "starts_one [''desktop-run'', path, ''--ipc-name'', cc_ipc_name creds] frame s s'"
    using run unfolding launch_desktop_run_def
  proof (cases rule: sbind_cases)
    case (failed e)
    then show ?thesis using keepsD [OF quiet_on_desktop] by (fastforce simp: starts_one_def same_launch_def)
  next
    case (ok credentials s1)
    have "credentials = creds"
      using ok(1) assms(2) by (auto simp: on_desktop_def companion_credentials_of_def split: if_splits prod.splits)
    moreover have "starts_one [''desktop-run'', path, ''--ipc-name'', cc_ipc_name credentials] frame s1 s'"
      using ok(2) by (elim quiet_then_one) (auto intro: quiet_steps quiet_take occupy_slot_one elim!: quiet_then_one)
    ultimately show ?thesis using keepsD [OF quiet_on_desktop ok(1)] by (auto simp: starts_one_def same_launch_def)
  qed
qed

text \<open>The runner's tokens are tokens the server issued in answer to a fork request.\<close>

definition forked_runner :: "'w shell_env \<Rightarrow> device_tokens \<Rightarrow> bool" where
  "forked_runner E tokens \<longleftrightarrow> (\<exists>client fresh access_token identity (net :: 'w wire) net'.
     fork_tokens (dk_P (se_D E)) (dk_N (se_D E)) (dk_C (se_D E)) client fresh access_token identity net = (Inr tokens, net'))"

lemma runner_token:
  assumes "issue_laws E" and "checked_launch E q s = (Inr l, s')"
  shows "is_utf8 (dt_refresh_token (al_runner l)) \<and> starts_with (dt_refresh_token (al_runner l)) REFRESH_PREFIX
    \<and> forked_runner E (al_runner l)"
proof -
  obtain t d s5 s6 where "forked_tokens E t d s5 = (Inr (al_runner l), s6)"
    using assms(2) unfolding checked_launch_def by (auto simp: slift_def sret_def elim!: sbind_InrE split: if_splits)
  then obtain fresh identity client net net' where
    f: "fork_tokens (dk_P (se_D E)) (dk_N (se_D E)) (dk_C (se_D E)) client fresh t identity net = (Inr (al_runner l), net')"
    unfolding forked_tokens_def Let_def
    by (auto simp: slift_def sret_def on_net_def on_desktop_def on_vault_def vault_call_def elim!: sbind_InrE serr_cases
        split: if_splits prod.splits dest!: map_err_eq_Inr [THEN iffD1, OF sym])
  then obtain v where "ad_tokens (dk_C (se_D E)) v = Some (al_runner l)"
    by (auto simp: fork_tokens_def Let_def slift_def response_json_def checked_tokens_def elim!: sbind_InrE split: if_splits sum.splits)
  moreover have "forked_runner E (al_runner l)" unfolding forked_runner_def using f by blast
  ultimately show ?thesis using assms(1) by (simp add: issue_laws_def)
qed

section \<open>The daemon of a launch\<close>

text \<open>
  The daemon runs on the desktop's machine with the same formats: it reads the files the desktop has, serde
  reads the configuration that was written, and its directory and journal can be opened.
\<close>

definition daemon_reads :: "'w shell_env \<Rightarrow> command_io \<Rightarrow> 'w shell \<Rightarrow> bool" where
  "daemon_reads E I s \<longleftrightarrow> ci_P I = dk_P (se_D E) \<and> ci_enc I = sc_enc_manifest (se_C E) \<and> ci_dec I = sc_dec_manifest (se_C E)
     \<and> ci_files I = sl_files s \<and> file_law E (ci_signed I) (ci_value I)
     \<and> (\<forall>device origin directory c bytes.
          json_to_vec (dk_P (se_D E)) (run_config_json (dk_P (se_D E)) device origin directory c) = Some bytes \<longrightarrow>
          ci_config I bytes = Some \<lparr>cf_device_id = device, cf_relay_url = PRODUCTION_RELAY_URL, cf_api_origin = Some origin,
            cf_state_directory = Some directory, cf_live_arena = Some c\<rparr>)
     \<and> (\<forall>directory. ci_mkdir I directory) \<and> (\<forall>path key. is_ok (ci_journal I path key))"

text \<open>
  What the daemon is set up with, in terms of the request, of the desktop and of the server's answers: the
  listed arena with the requested id, the requested agent version, opened for the device the vault names,
  whose model is eligible in that arena, and tokens issued to that device.
\<close>

definition set_up_as_launched :: "'w shell_env \<Rightarrow> launch_request \<Rightarrow> companion_credentials \<Rightarrow> run_setup \<Rightarrow> bool" where
  "set_up_as_launched E q creds ready \<longleftrightarrow>
     df_relay_url (rs_config ready) = PRODUCTION_RELAY_URL \<and> df_api_origin (rs_config ready) = api_origin_of (se_D E)
     \<and> rs_companion_secret ready = Some (cc_secret creds)
     \<and> starts_with (rs_refresh_token ready) REFRESH_PREFIX
     \<and> (\<exists>tokens. forked_runner E tokens \<and> dt_device_id tokens = df_device_id (rs_config ready)
          \<and> rs_refresh_token ready = dt_refresh_token tokens)
     \<and> (\<exists>key. rs_api_wallet_key ready = Some key \<and> kc_wallet_ok (dk_K (se_D E)) key)
     \<and> (\<exists>pa arena_id strategy. rs_prepared ready = Some pa
          \<and> dk_uuid (se_D E) (lq_arena_id q) = Some arena_id \<and> offered_arena E arena_id (pa_signed pa)
          \<and> dk_uuid (se_D E) (lq_agent_version_id q) = Some (pa_agent_version_id pa)
          \<and> opened_version E (pa_agent_version_id pa) (df_device_id (rs_config ready)) strategy
          \<and> pa_model_id pa = sb_model_id strategy
          \<and> List.member (am_eligible_models (sm_manifest (pa_signed pa))) (pa_model_id pa)
          \<and> pa_decision_cooldown_seconds pa = lq_decision_cooldown_seconds q \<and> pa_isolated_leverage pa = lq_isolated_leverage q
          \<and> pa_execution_account pa = map to_ascii_lower (lq_execution_account q) \<and> pa_handoff_snapshot pa = lq_handoff_snapshot q)"

lemma desktop_run_sets_up:
  assumes reads: "daemon_reads E I s" and written: "sl_files s path = json_to_vec (dk_P (se_D E))
      (run_config_json (dk_P (se_D E)) device (api_origin_of (se_D E)) directory c)" and "sl_files s path \<noteq> None"
    and pa: "prepare (dk_P (se_D E)) (sc_enc_manifest (se_C E)) (sc_dec_manifest (se_C E)) (sl_files s) (ci_signed I) (ci_value I) c = Inr pa"
    and frame: "read_desktop_credentials_from frame = Inr cr"
  obtains ready where "desktop_run_setup I path frame = Inr ready" and "rs_prepared ready = Some pa"
    and "rs_companion_secret ready = Some (dc_companion_secret cr)" and "rs_refresh_token ready = dc_refresh_token cr"
    and "rs_api_wallet_key ready = Some (dc_api_wallet_key cr)" and "df_relay_url (rs_config ready) = PRODUCTION_RELAY_URL"
    and "df_api_origin (rs_config ready) = api_origin_of (se_D E)" and "df_device_id (rs_config ready) = device"
proof -
  obtain bytes where b: "sl_files s path = Some bytes" using assms(3) by blast
  have config: "ci_config I bytes = Some \<lparr>cf_device_id = device, cf_relay_url = PRODUCTION_RELAY_URL,
      cf_api_origin = Some (api_origin_of (se_D E)), cf_state_directory = Some directory, cf_live_arena = Some c\<rparr>"
    using reads b written by (simp add: daemon_reads_def)
  obtain j where "ci_journal I (directory @ ''/journal.db'') (dc_journal_key cr) = Inr j"
    using reads unfolding daemon_reads_def is_ok_iff by metis
  then have "\<exists>ready. desktop_run_setup I path frame = Inr ready \<and> rs_prepared ready = Some pa
    \<and> rs_companion_secret ready = Some (dc_companion_secret cr) \<and> rs_refresh_token ready = dc_refresh_token cr
    \<and> rs_api_wallet_key ready = Some (dc_api_wallet_key cr) \<and> df_relay_url (rs_config ready) = PRODUCTION_RELAY_URL
    \<and> df_api_origin (rs_config ready) = api_origin_of (se_D E) \<and> df_device_id (rs_config ready) = device"
    using reads b config pa frame
    by (simp add: desktop_run_setup_def read_parsed_def read_file_def with_defaults_def prepare_live_def make_state_directory_def
        open_state_def daemon_reads_def)
  then show ?thesis using that by blast
qed

text \<open>
  C18. What the desktop launches is a daemon that sets itself up: when a launch starts a process at all, it is one
  \<open>desktop-run\<close> on the written configuration, and the daemon's own start-up accepts that configuration, the arena's
  files and the credentials on its pipe, provided that the hand-over snapshot, when there is one, is an object of
  fixed-point values. The run it then has is the one that was requested: the relay and API origin; the signed
  manifest of the listed arena with the requested id; the requested agent version, which opens on the device of the
  vault to a strategy whose model the arena admits, and that device and model; the requested cooldown,
  leverage, account and hand-over; a wallet key the venue accepts; the refresh token issued to that device by a
  fork; and the companion secret and socket name the desktop itself goes on using.
\<close>

theorem launched_daemon_is_set_up:
  assumes "issue_laws E" and "secret_ok (sl_desktop s)" and "launch_arena E q s = (r, s')" and "daemon_reads E I s'"
    and "\<And>v. lq_handoff_snapshot q = Some v \<Longrightarrow> is_object v \<and> fixed_point_value v"
  shows "sl_started s' = sl_started s \<or>
    (\<exists>path creds frame ready. sl_started s' = sl_started s @ [([''desktop-run'', path, ''--ipc-name'', cc_ipc_name creds], frame)]
      \<and> dt_credentials (sl_desktop s') = Some creds \<and> desktop_run_setup I path frame = Inr ready
      \<and> set_up_as_launched E q creds ready)"
  using assms(3)
proof (cases rule: launch_arena_started)
  case (launched l s1 path c s2 frame s3 r')
  have ok: "secret_ok (sl_desktop s2)"
    using keepsD [OF keep_checked [OF assms(1)] launched(1)] keepsD [OF keep_written launched(2)] assms(2)
    by (simp add: keeps_credentials_def)
  obtain cr creds where cr: "read_desktop_credentials_from frame = Inr cr" "dc_refresh_token cr = dt_refresh_token (al_runner l)"
      "dt_credentials (sl_desktop s3) = Some creds" "dc_companion_secret cr = cc_secret creds"
      "kc_wallet_ok (dk_K (se_D E)) (dc_api_wallet_key cr)"
    using runner_token [OF assms(1) launched(1)] by (auto intro: frame_arrives [OF assms(1) ok launched(3)])
  note named = started_under_name [OF assms(1) cr(3) launched(4)]
  have f: "sl_files s' = sl_files s2" using named(1) launched(6) by (simp add: starts_one_def)
  have law: "file_law E (ci_signed I) (ci_value I)" using assms(4) by (simp add: daemon_reads_def)
  note prepared = prepared_files [OF law checked_launch_Inr [OF launched(1)] launched(2)]
  obtain pa where pa: "prepare (dk_P (se_D E)) (sc_enc_manifest (se_C E)) (sc_dec_manifest (se_C E)) (sl_files s') (ci_signed I) (ci_value I) c = Inr pa"
    "pa_decision_cooldown_seconds pa = lq_decision_cooldown_seconds q" "pa_isolated_leverage pa = lq_isolated_leverage q"
    "pa_execution_account pa = map to_ascii_lower (lq_execution_account q)" "pa_handoff_snapshot pa = lq_handoff_snapshot q"
    "pa_signed pa = al_manifest l" "pa_agent_version_id pa = al_agent_version_id l" "pa_model_id pa = sb_model_id (al_strategy l)"
    using prepared(2) assms(5) unfolding f by blast
  obtain directory where written: "sl_files s' path = json_to_vec (dk_P (se_D E))
      (run_config_json (dk_P (se_D E)) (al_device_id l) (api_origin_of (se_D E)) directory c)" "sl_files s' path \<noteq> None"
    unfolding f by (rule write_launch_files_Inr [OF launched(2)]) blast
  obtain ready where run: "desktop_run_setup I path frame = Inr ready" "set_up_as_launched E q creds ready"
  proof (rule desktop_run_sets_up [OF assms(4) written pa(1) cr(1)])
    fix su
    assume "desktop_run_setup I path frame = Inr su" and "rs_prepared su = Some pa"
      and "rs_companion_secret su = Some (dc_companion_secret cr)" and "rs_refresh_token su = dc_refresh_token cr"
      and "rs_api_wallet_key su = Some (dc_api_wallet_key cr)" and "df_relay_url (rs_config su) = PRODUCTION_RELAY_URL"
      and "df_api_origin (rs_config su) = api_origin_of (se_D E)" and "df_device_id (rs_config su) = al_device_id l"
    moreover have "launch_checked E q l" by (rule checked_launch_Inr [OF launched(1)])
    ultimately show ?thesis
      using that [of su] pa(2-8) cr(2,4,5) runner_token [OF assms(1) launched(1)]
      by (auto simp: set_up_as_launched_def launch_checked_def)
  qed
  have "sl_started s' = sl_started s \<or>
      sl_started s' = sl_started s @ [([''desktop-run'', path, ''--ipc-name'', cc_ipc_name creds], frame)]"
    using named(1) launched(5) by (simp add: starts_one_def)
  then show ?thesis using named(2) run by blast
qed (rule disjI1)

end
