(* ===== verification/HandoverTrial.thy ===== *)
theory HandoverTrial
  imports LaunchTrial Handover
begin

text \<open>The launch of \<open>LaunchTrial\<close> handed over to a daemon that reads its files: the witness of \<open>Handover\<close>.\<close>

section \<open>The configuration is determined by its text\<close>

lemma launch_ids_eq:
  "uuid_str launch_ids u = ''uuid'' \<longleftrightarrow> u = 5" "uuid_str launch_ids u = ''nine'' \<longleftrightarrow> u = 9"
  by (simp_all add: launch_ids_def)

lemma uint_is: "uint (n :: u32) = 600 \<longleftrightarrow> n = 600" "uint (l :: u8) = 1 \<longleftrightarrow> l = 1"
  by (simp_all add: word_uint_eq_iff)

lemma launch_json_determines:
  assumes "run_config_json launch_prims device origin directory c = launch_json"
  shows "device = 9 \<and> origin = ''origin'' \<and> directory = ''r/state''
    \<and> c = launch_config launch_ids ''r'' 1 None 5 (lq_execution_account toy_launch) launch_bundle 600 1"
proof -
  have u: "uuid_str launch_prims = uuid_str launch_ids" by (simp add: launch_prims_def)
  have i: "uuid_str launch_ids 5 = ''uuid''" "uuid_str launch_ids 9 = ''nine''" by (simp_all add: launch_ids_def)
  let ?c = "launch_config launch_ids ''r'' 1 None 5 (lq_execution_account toy_launch) launch_bundle 600 1"
  have f: "la_handoff_snapshot ?c = None" "la_agent_version_id ?c = 5" "la_decision_cooldown_seconds ?c = Some 600"
    "la_isolated_leverage ?c = Some 1" by (simp_all add: launch_config_def)
  have j: "live_arena_json launch_prims c = live_arena_json launch_ids ?c" and d: "device = 9" "origin = ''origin''" "directory = ''r/state''"
    using assms by (simp_all add: run_config_json_def launch_json_def juuid_def u i launch_ids_eq)
  have "c = ?c"
    by (rule live_arena_config.equality)
      (use j f in \<open>simp_all add: live_arena_json_def optional_text_def juuid_def jword_def u i launch_ids_eq uint_is split: option.splits\<close>)
  with d show ?thesis by simp
qed

section \<open>The hand-over\<close>

definition toy_daemon_io :: "(string \<Rightarrow> string option) \<Rightarrow> command_io" where
  "toy_daemon_io files = \<lparr>ci_P = launch_prims, ci_A = toy_aead, ci_files = files,
     ci_signed = (\<lambda>b. if b = ''manifest'' then Some launch_manifest else None),
     ci_enc = (\<lambda>m. Some JNull), ci_dec = (\<lambda>v. Some sample_manifest),
     ci_value = (\<lambda>b. if b = ''json'' then Some JNull else if b = ''config'' then Some launch_json else None),
     ci_dataset = (\<lambda>b. None), ci_parquet = toy_io, ci_directory = (\<lambda>d p. None), ci_proposals = (\<lambda>b. None),
     ci_config = (\<lambda>b. if b = ''config'' then Some \<lparr>cf_device_id = 9, cf_relay_url = PRODUCTION_RELAY_URL,
          cf_api_origin = Some ''origin'', cf_state_directory = Some ''r/state'',
          cf_live_arena = Some (launch_config launch_ids ''r'' 1 None 5 (lq_execution_account toy_launch) launch_bundle 600 1)\<rparr> else None),
     ci_mkdir = (\<lambda>d. True), ci_journal = (\<lambda>path key. Inr (open_journal key)), ci_credentials = None\<rparr>"

lemma toy_issue_laws: "issue_laws toy_shell_env"
  by (simp add: issue_laws_def toy_shell_env_def toy_rotating_def toy_desktop_env_def toy_keychain_def rotated_tokens_def
      REFRESH_PREFIX_def is_utf8_def)

lemma toy_daemon_reads: "daemon_reads toy_shell_env (toy_daemon_io (sl_files s)) s"
proof -
  have e: "sc_enc_manifest (se_C toy_shell_env) = (\<lambda>m. Some JNull)" "sc_dec_manifest (se_C toy_shell_env) = (\<lambda>v. Some sample_manifest)"
    by (simp_all add: toy_shell_env_def)
  have "v = launch_json \<and> bytes = ''config''" if "json_to_vec launch_prims v = Some bytes" and "v = JObj fs" for v bytes fs
    using that by (auto simp: launch_prims_def split: if_splits)
  then have "ci_config (toy_daemon_io (sl_files s)) bytes = Some \<lparr>cf_device_id = device, cf_relay_url = PRODUCTION_RELAY_URL,
      cf_api_origin = Some origin, cf_state_directory = Some directory, cf_live_arena = Some c\<rparr>"
    if "json_to_vec launch_prims (run_config_json launch_prims device origin directory c) = Some bytes" for device origin directory c bytes
    using launch_json_determines [of device origin directory c] that
    by (simp add: run_config_json_def toy_daemon_io_def)
  then show ?thesis using toy_file_law
    by (simp add: daemon_reads_def toy_shell_fields e) (simp add: toy_daemon_io_def)
qed

theorem launched_daemon_is_set_up_witness:
  "\<exists>s' path creds frame ready. snd (launch_arena toy_shell_env toy_launch toy_shell) = s'
    \<and> sl_started s' = [([''desktop-run'', path, ''--ipc-name'', cc_ipc_name creds], frame)]
    \<and> desktop_run_setup (toy_daemon_io (sl_files s')) path frame = Inr ready
    \<and> set_up_as_launched toy_shell_env toy_launch creds ready"
proof -
  obtain c s' where s': "launch_arena toy_shell_env toy_launch toy_shell = (Inr c, s')" "sl_started s' \<noteq> []"
    using toy_launched by blast
  have n: "sl_started toy_shell = []" and ok: "secret_ok (sl_desktop toy_shell)"
    by (simp_all add: toy_shell_def secret_ok_def)
  have q: "lq_handoff_snapshot toy_launch = Some v \<Longrightarrow> is_object v \<and> fixed_point_value v" for v by (simp add: toy_launch_def)
  from launched_daemon_is_set_up [OF toy_issue_laws ok s'(1) toy_daemon_reads q] s' n
  show ?thesis by auto
qed

end
