(* ===== verification/VenueClient.thy ===== *)
theory VenueClient
  imports LiveCycle
begin

text \<open>
  The client of the venue, \<open>HyperliquidVenue\<close> and \<open>HyperliquidBookStream\<close> of
  \<open>crates/crow-agent-core/src/hyperliquid.rs\<close>: every call with the request budget it spends, the checks of
  the answers and the errors. The SDK (the HTTP client, the signer, its nonces and the web socket) is
  the record \<open>sdk\<close> on a world. What is exchanged on the trading account is kept in a log, which nothing reads.
\<close>

section \<open>The SDK\<close>

datatype hl_network = Testnet | Mainnet

datatype order_state = StResting u64 | StWaitingForTrigger | StWaitingForFill | StOther

text \<open>An \<open>OrderResponseStatus\<close>: its variant and the answers of \<open>is_ok\<close>, \<open>is_err\<close>, \<open>oid\<close> and \<open>error\<close>.\<close>

record order_status =
  os_state :: order_state
  os_is_ok :: bool
  os_is_err :: bool
  os_oid :: "u64 option"
  os_error :: "string option"

record clearinghouse =
  ch_time :: u64
  ch_account_value :: string
  ch_withdrawable :: string
  ch_positions :: "venue_position list"

datatype stream_event = SBook string u64 "(string \<times> string \<times> nat) list list" | SOther | SClosed

record 'w sdk =
  sk_signer :: "string \<Rightarrow> string option"
  sk_address :: "string \<Rightarrow> string"
  sk_account :: "string \<Rightarrow> string option"
  sk_cloid :: "string \<Rightarrow> string option"
  sk_decimal :: "string \<Rightarrow> bool"
  sk_decimal_is :: "string \<Rightarrow> u32 \<Rightarrow> bool"
  sk_ops :: decimal_ops
  sk_contexts :: "json \<Rightarrow> (string \<times> string) list option"
  sk_now :: "'w \<Rightarrow> int \<times> 'w"
  sk_time_ms :: "'w \<Rightarrow> int \<times> 'w"
  sk_nonce :: "'w \<Rightarrow> u64 \<times> 'w"
  sk_perps :: "hl_network \<Rightarrow> 'w \<Rightarrow> (string \<times> nat \<times> int \<times> u64) list option \<times> 'w"
  sk_place :: "hl_network \<Rightarrow> string \<Rightarrow> ioc_request list \<Rightarrow> u64 \<Rightarrow> 'w \<Rightarrow> order_status list option \<times> 'w"
  sk_cancel :: "hl_network \<Rightarrow> string \<Rightarrow> (u32 \<times> u64) list \<Rightarrow> u64 \<Rightarrow> 'w \<Rightarrow> order_status list option \<times> 'w"
  sk_leverage :: "hl_network \<Rightarrow> string \<Rightarrow> u32 \<Rightarrow> bool \<Rightarrow> u32 \<Rightarrow> u64 \<Rightarrow> 'w \<Rightarrow> unit option \<times> 'w"
  sk_active :: "hl_network \<Rightarrow> string \<Rightarrow> string \<Rightarrow> 'w \<Rightarrow> (string \<times> string) option \<times> 'w"
  sk_standard :: "hl_network \<Rightarrow> string \<Rightarrow> 'w \<Rightarrow> bool option \<times> 'w"
  sk_clearinghouse :: "hl_network \<Rightarrow> string \<Rightarrow> 'w \<Rightarrow> clearinghouse option \<times> 'w"
  sk_balances :: "hl_network \<Rightarrow> string \<Rightarrow> 'w \<Rightarrow> (string \<times> string \<times> string) list option \<times> 'w"
  sk_meta :: "hl_network \<Rightarrow> 'w \<Rightarrow> json option \<times> 'w"
  sk_book :: "hl_network \<Rightarrow> string \<Rightarrow> 'w \<Rightarrow> (string \<times> u64 \<times> (string \<times> string \<times> nat) list list) option \<times> 'w"
  sk_candles :: "hl_network \<Rightarrow> string \<Rightarrow> u64 \<Rightarrow> u64 \<Rightarrow> 'w \<Rightarrow> json option option \<times> 'w"
  sk_fills :: "hl_network \<Rightarrow> string \<Rightarrow> u64 \<Rightarrow> u64 \<Rightarrow> 'w \<Rightarrow> (string \<times> json option) list option \<times> 'w"
  sk_funding :: "hl_network \<Rightarrow> string \<Rightarrow> u64 \<Rightarrow> u64 \<Rightarrow> 'w \<Rightarrow> (string \<times> json option) list option \<times> 'w"
  sk_subscribe :: "hl_network \<Rightarrow> string list \<Rightarrow> 'w \<Rightarrow> 'w"
  sk_next :: "hl_network \<Rightarrow> 'w \<Rightarrow> stream_event \<times> 'w"

section \<open>The client\<close>

text \<open>What was exchanged on the account: a signed action with its nonce and the answer, or a read-back of the leverage.\<close>

datatype exchange_call =
    XPlace u64 "ioc_request list" "order_status list option"
  | XCancel u64 "(u32 \<times> u64) list" "order_status list option"
  | XLeverage u64 u32 bool u32 "unit option"
  | XActive string string "(string \<times> string) option"

record 'w venue_client =
  hv_signer :: string
  hv_assets :: assets
  hv_budget :: request_budget
  hv_network :: hl_network
  hv_exchanged :: "exchange_call list"
  hv_world :: 'w

type_synonym ('w, 'a) venue_step = "('w venue_client, hl_error, 'a) step"

definition INFO_META_WEIGHT :: u16 where "INFO_META_WEIGHT = 20"
definition INFO_L2_WEIGHT :: u16 where "INFO_L2_WEIGHT = 2"
definition INFO_USER_MODE_WEIGHT :: u16 where "INFO_USER_MODE_WEIGHT = 20"
definition INFO_ACCOUNT_STATE_WEIGHT :: u16 where "INFO_ACCOUNT_STATE_WEIGHT = 2"
definition INFO_USER_HISTORY_WEIGHT :: u16 where "INFO_USER_HISTORY_WEIGHT = 20"
definition INFO_CANDLE_WEIGHT :: u16 where "INFO_CANDLE_WEIGHT = 20"
definition INFO_ACTIVE_ASSET_WEIGHT :: u16 where "INFO_ACTIVE_ASSET_WEIGHT = 2"

definition venue_world :: "('w \<Rightarrow> 'a \<times> 'w) \<Rightarrow> ('w, 'a) venue_step" where
  "venue_world f s = (case f (hv_world s) of (x, w) \<Rightarrow> (Inr x, s\<lparr>hv_world := w\<rparr>))"

definition spend :: "'w sdk \<Rightarrow> u16 \<Rightarrow> ('w, unit) venue_step" where
  "spend K weight =
     sbind (venue_world (sk_now K)) (\<lambda>now s. case consume now weight (hv_budget s) of
         (Inl e, b) \<Rightarrow> (Inl e, s\<lparr>hv_budget := b\<rparr>)
       | (Inr _, b) \<Rightarrow> (Inr (), s\<lparr>hv_budget := b\<rparr>))"

text \<open>A read of the venue; \<open>e\<close> is the error of an SDK call that fails.\<close>

definition venue_read :: "hl_error \<Rightarrow> (hl_network \<Rightarrow> 'w \<Rightarrow> 'a option \<times> 'w) \<Rightarrow> ('w, 'a) venue_step" where
  "venue_read e f = sbind (sget hv_network) (\<lambda>network. sbind (venue_world (f network)) (\<lambda>r. slift (ok_or r e)))"

text \<open>A signed action, or the read-back, and its place in the log.\<close>

definition exchanged ::
    "hl_error \<Rightarrow> ('a option \<Rightarrow> exchange_call) \<Rightarrow> (hl_network \<Rightarrow> string \<Rightarrow> 'w \<Rightarrow> 'a option \<times> 'w) \<Rightarrow> ('w, 'a) venue_step" where
  "exchanged e entry f =
     sbind (sget (\<lambda>s. (hv_network s, hv_signer s))) (\<lambda>(network, signer).
     sbind (venue_world (f network signer)) (\<lambda>r.
     sbind (sput (\<lambda>s. s\<lparr>hv_exchanged := hv_exchanged s @ [entry r]\<rparr>)) (\<lambda>_. slift (ok_or r e))))"

definition asset_for :: "string \<Rightarrow> hl_error \<Rightarrow> ('w, core_asset) venue_step" where
  "asset_for tkr e = sbind (sget hv_assets) (\<lambda>found. slift (ok_or (map_of found tkr) e))"

definition parse_account :: "'w sdk \<Rightarrow> string \<Rightarrow> hl_error + string" where
  "parse_account K v = ok_or (sk_account K v) HlWallet"

definition wallet_signer :: "prims \<Rightarrow> 'w sdk \<Rightarrow> string \<Rightarrow> hl_error + string" where
  "wallet_signer P K api_wallet_key = ok_or (sk_signer K (''0x'' @ hex_encode P api_wallet_key)) HlWallet"

definition connect :: "prims \<Rightarrow> 'w sdk \<Rightarrow> string \<Rightarrow> hl_network \<Rightarrow> 'w \<Rightarrow> (hl_error + 'w venue_client) \<times> 'w" where
  "connect P K api_wallet_key network w =
     (case wallet_signer P K api_wallet_key of
        Inl e \<Rightarrow> (Inl e, w)
      | Inr signer \<Rightarrow>
          (case sk_now K w of (opened, w) \<Rightarrow>
             let s = \<lparr>hv_signer = signer, hv_assets = [], hv_budget = new_budget opened, hv_network = network,
                      hv_exchanged = [], hv_world = w\<rparr> in
             (case sbind (spend K INFO_META_WEIGHT) (\<lambda>_.
                   sbind (venue_read HlSdk (sk_perps K)) (\<lambda>markets. slift (discover_core_assets markets))) s of
                (Inl e, s) \<Rightarrow> (Inl e, hv_world s)
              | (Inr found, s) \<Rightarrow> (Inr (s\<lparr>hv_assets := found\<rparr>), hv_world s))))"

definition hyperliquid_api_wallet_address :: "prims \<Rightarrow> 'w sdk \<Rightarrow> string \<Rightarrow> hl_error + string" where
  "hyperliquid_api_wallet_address P K api_wallet_key =
     rbind (wallet_signer P K api_wallet_key) (\<lambda>signer. Inr (sk_address K signer))"

section \<open>Orders and leverage\<close>

definition cancel_direct :: "'w sdk \<Rightarrow> string \<Rightarrow> u64 \<Rightarrow> ('w, order_status list) venue_step" where
  "cancel_direct K tkr order_id =
     sbind (asset_for tkr HlSymbol) (\<lambda>asset.
     sbind (spend K 1) (\<lambda>_.
     sbind (venue_world (sk_nonce K)) (\<lambda>nonce.
     let cancels = [(ca_asset_index asset, order_id)] in
       exchanged HlSdk (XCancel nonce cancels) (\<lambda>network signer. sk_cancel K network signer cancels nonce))))"

definition refuse_resting :: "'w sdk \<Rightarrow> string \<Rightarrow> order_status \<Rightarrow> ('w, unit) venue_step" where
  "refuse_resting K tkr status = (case os_state status of
       StResting oid \<Rightarrow> sbind (cancel_direct K tkr oid) (\<lambda>_. slift (Inl HlIocInvariant))
     | StWaitingForTrigger \<Rightarrow> slift (Inl HlIocInvariant)
     | StWaitingForFill \<Rightarrow> slift (Inl HlIocInvariant)
     | StOther \<Rightarrow> sret ())"

definition status_json :: "order_status \<Rightarrow> json" where
  "status_json status = JObj
     [(''accepted'', JBool (os_is_ok status)),
      (''order_id'', case os_oid status of None \<Rightarrow> JNull | Some n \<Rightarrow> JStr (digits (unat n))),
      (''reason'', case os_error status of None \<Rightarrow> JNull | Some m \<Rightarrow> JStr (display_safe_venue_rejection m)),
      (''state'', JStr (if os_is_err status then ''venue_rejected''
         else if os_oid status \<noteq> None then ''acknowledged'' else ''accepted''))]"

definition submit_ioc :: "'w sdk \<Rightarrow> order_decision \<Rightarrow> string \<Rightarrow> ('w, venue_submission) venue_step" where
  "submit_ioc K order client_order_id =
     sbind (spend K 1) (\<lambda>_.
     sbind (slift (ok_or (sk_cloid K (''0x'' @ client_order_id)) HlNumeric)) (\<lambda>cloid.
     sbind (sget hv_assets) (\<lambda>found.
     sbind (slift (build_ioc_request (sk_decimal K) order found cloid)) (\<lambda>request.
     sbind (venue_world (sk_nonce K)) (\<lambda>nonce.
     sbind (exchanged HlSdk (XPlace nonce [request]) (\<lambda>network signer. sk_place K network signer [request] nonce)) (\<lambda>statuses.
     sbind (sfor (refuse_resting K (o_symbol order)) statuses) (\<lambda>_.
       sret \<lparr>vs_client_order_id = client_order_id, vs_statuses = JArr (map status_json statuses)\<rparr>)))))))"

definition set_leverage :: "'w sdk \<Rightarrow> u32 \<Rightarrow> core_asset \<Rightarrow> ('w, unit) venue_step" where
  "set_leverage K leverage asset =
     sbind (spend K 1) (\<lambda>_.
     sbind (venue_world (sk_nonce K)) (\<lambda>nonce.
       exchanged HlSdk (XLeverage nonce (ca_asset_index asset) False leverage)
         (\<lambda>network signer. sk_leverage K network signer (ca_asset_index asset) False leverage nonce)))"

definition read_leverage :: "'w sdk \<Rightarrow> string \<Rightarrow> u32 \<Rightarrow> string \<Rightarrow> ('w, unit) venue_step" where
  "read_leverage K account leverage tkr =
     sbind (spend K INFO_ACTIVE_ASSET_WEIGHT) (\<lambda>_.
     sbind (exchanged HlSnapshot (XActive account tkr) (\<lambda>network _. sk_active K network account tkr)) (\<lambda>(kind, set_value).
       if map to_ascii_lower kind \<noteq> ''isolated'' \<or> \<not> sk_decimal_is K set_value leverage
       then slift (Inl HlSnapshot) else sret ()))"

definition confirm_leverage :: "'w sdk \<Rightarrow> string \<Rightarrow> u32 \<Rightarrow> string \<Rightarrow> ('w, unit) venue_step" where
  "confirm_leverage K account leverage tkr =
     sbind (asset_for tkr HlMetadata) (\<lambda>asset.
     sbind (set_leverage K leverage asset) (\<lambda>_. read_leverage K account leverage tkr))"

definition configure_isolated_leverage :: "'w sdk \<Rightarrow> string \<Rightarrow> u8 \<Rightarrow> ('w, unit) venue_step" where
  "configure_isolated_leverage K execution_account leverage8 =
     (let leverage = ucast leverage8 :: u32 in
     sbind (sget hv_assets) (\<lambda>found.
     if leverage = 0 \<or> list_ex (\<lambda>(_, asset). ca_max_leverage asset < leverage) found then slift (Inl HlMetadata)
     else
     sbind (slift (parse_account K execution_account)) (\<lambda>account.
     sbind (sfor (confirm_leverage K account leverage) ALLOWED_SYMBOLS) (\<lambda>_. sret ()))))"

section \<open>Accounts, markets and history\<close>

definition account_snapshot_of :: "'w sdk \<Rightarrow> string \<Rightarrow> ('w, account_snapshot) venue_step" where
  "account_snapshot_of K execution_account =
     sbind (slift (parse_account K execution_account)) (\<lambda>account.
     sbind (spend K (INFO_USER_MODE_WEIGHT + INFO_ACCOUNT_STATE_WEIGHT * 2)) (\<lambda>_.
     sbind (venue_read HlSnapshot (\<lambda>network. sk_standard K network account)) (\<lambda>standard.
     sbind (venue_read HlSdk (\<lambda>network. sk_clearinghouse K network account)) (\<lambda>state.
     sbind (slift (account_positions (sk_ops K) (ch_positions state))) (\<lambda>positions.
     sbind (if standard then sret [] else venue_read HlSnapshot (\<lambda>network. sk_balances K network account)) (\<lambda>balances.
     sbind (slift (account_collateral (sk_ops K) standard (ch_account_value state) (ch_withdrawable state) balances))
       (\<lambda>(equity, withdrawable).
       sret \<lparr>as_venue_time_ms = ch_time state, as_equity = equity, as_withdrawable = withdrawable,
         as_positions = positions\<rparr>)))))))"

text \<open>The contexts of the perpetuals, the second of the two values of the metadata.\<close>

definition asset_contexts :: "'w sdk \<Rightarrow> ('w, (string \<times> string) list) venue_step" where
  "asset_contexts K =
     sbind (spend K INFO_META_WEIGHT) (\<lambda>_.
     sbind (venue_read HlSdk (sk_meta K)) (\<lambda>raw.
       slift (case raw of
         JArr vs \<Rightarrow> if length vs \<noteq> 2 then Inl HlSnapshot else ok_or (sk_contexts K (vs ! 1)) HlSnapshot
       | _ \<Rightarrow> Inl HlSnapshot)))"

definition context_of :: "(string \<times> string) list \<Rightarrow> core_asset \<Rightarrow> hl_error + string \<times> string" where
  "context_of contexts asset =
     (let i = unat (ca_asset_index asset) in if i < length contexts then Inr (contexts ! i) else Inl HlSnapshot)"

definition market_snapshots :: "'w sdk \<Rightarrow> book_snapshot list \<Rightarrow> u64 \<Rightarrow> ('w, (string \<times> market_snapshot) list) venue_step" where
  "market_snapshots K books now_ms =
     sbind (asset_contexts K) (\<lambda>contexts.
     sbind (sget hv_assets) (\<lambda>found.
     let by_symbol = bt_of_list (map (\<lambda>b. (bk_symbol b, b)) books) in
       slift (rfold (\<lambda>snapshots tkr.
         rbind (ok_or (map_of found tkr) HlMetadata) (\<lambda>asset.
         rbind (context_of contexts asset) (\<lambda>(mark_px, oracle_px).
         rbind (ok_or (map_of by_symbol tkr) HlBook) (\<lambda>b.
         rbind (market_snapshot_from_parts asset mark_px oracle_px b now_ms) (\<lambda>snapshot.
           Inr (bt_insert tkr snapshot snapshots)))))) [] ALLOWED_SYMBOLS)))"

definition fresh_market_snapshot :: "'w sdk \<Rightarrow> string \<Rightarrow> u64 \<Rightarrow> ('w, market_snapshot) venue_step" where
  "fresh_market_snapshot K tkr now_ms =
     sbind (asset_for tkr HlSymbol) (\<lambda>asset.
     sbind (asset_contexts K) (\<lambda>contexts.
     sbind (slift (context_of contexts asset)) (\<lambda>(mark_px, oracle_px).
     sbind (spend K INFO_L2_WEIGHT) (\<lambda>_.
     sbind (venue_read HlSdk (\<lambda>network. sk_book K network tkr)) (\<lambda>(coin, time_ms, levels).
     sbind (slift (book_from_parts coin time_ms levels)) (\<lambda>b.
     sbind (venue_world (sk_time_ms K)) (\<lambda>now.
     sbind (slift (ok_or (u64_try now) HlSnapshot)) (\<lambda>observed_at_ms.
       slift (market_snapshot_from_parts asset mark_px oracle_px b (max observed_at_ms now_ms))))))))))"

definition recent_candles :: "'w sdk \<Rightarrow> u64 \<Rightarrow> u64 \<Rightarrow> ('w, json) venue_step" where
  "recent_candles K start_time_ms end_time_ms =
     sbind (sfor (\<lambda>tkr.
         sbind (spend K INFO_CANDLE_WEIGHT) (\<lambda>_.
         sbind (venue_read HlSdk (\<lambda>network. sk_candles K network tkr start_time_ms end_time_ms)) (\<lambda>candles.
         sbind (slift (ok_or candles HlSnapshot)) (\<lambda>value_json. sret (tkr, value_json))))) ALLOWED_SYMBOLS) (\<lambda>entries.
       sret (JObj (bt_of_list entries)))"

text \<open>A history in JSON: its entries of the allowed symbols, each with its serde form.\<close>

definition history_json :: "(string \<times> json option) list \<Rightarrow> hl_error + json" where
  "history_json entries =
     rbind (rmap (\<lambda>(_, form). ok_or form HlSnapshot) (filter (\<lambda>(coin, _). List.member ALLOWED_SYMBOLS coin) entries))
       (\<lambda>forms. Inr (JArr forms))"

definition fills_since :: "'w sdk \<Rightarrow> string \<Rightarrow> u64 \<Rightarrow> u64 \<Rightarrow> ('w, json) venue_step" where
  "fills_since K execution_account start_time_ms end_time_ms =
     sbind (slift (parse_account K execution_account)) (\<lambda>account.
     sbind (spend K INFO_USER_HISTORY_WEIGHT) (\<lambda>_.
     sbind (venue_read HlSdk (\<lambda>network. sk_fills K network account start_time_ms end_time_ms)) (\<lambda>fills.
       slift (history_json fills))))"

definition funding_since :: "'w sdk \<Rightarrow> string \<Rightarrow> u64 \<Rightarrow> u64 \<Rightarrow> ('w, json) venue_step" where
  "funding_since K execution_account start_time_ms end_time_ms =
     sbind (slift (parse_account K execution_account)) (\<lambda>account.
     sbind (spend K INFO_USER_HISTORY_WEIGHT) (\<lambda>_.
     sbind (venue_read HlSdk (\<lambda>network. sk_funding K network account start_time_ms end_time_ms)) (\<lambda>funding.
       slift (history_json funding))))"

text \<open>The venue of a live cycle is a client with its SDK.\<close>

definition client_venue :: "'w sdk \<Rightarrow> 'w venue_client live_venue" where
  "client_venue K = \<lparr>vn_account = account_snapshot_of K, vn_markets = market_snapshots K,
     vn_fresh_market = fresh_market_snapshot K, vn_candles = recent_candles K, vn_submit = submit_ioc K,
     vn_fills = fills_since K, vn_funding = funding_since K\<rparr>"

section \<open>The book stream\<close>

record 'w book_stream =
  bm_budget :: request_budget
  bm_network :: hl_network
  bm_world :: 'w

definition connect_stream :: "'w sdk \<Rightarrow> hl_network \<Rightarrow> 'w \<Rightarrow> 'w book_stream" where
  "connect_stream K network w = (case sk_now K w of (opened, w) \<Rightarrow>
     \<lparr>bm_budget = new_budget opened, bm_network = network, bm_world = sk_subscribe K network ALLOWED_SYMBOLS w\<rparr>)"

text \<open>Messages that are no book are skipped; a stream that only sends those is waited for forever.\<close>

partial_function (option) next_snapshot ::
    "'w sdk \<Rightarrow> 'w book_stream \<Rightarrow> ((hl_error + book_snapshot) \<times> 'w book_stream) option" where
  "next_snapshot K s =
     (case sk_next K (bm_network s) (bm_world s) of (event, w) \<Rightarrow>
        let s = s\<lparr>bm_world := w\<rparr> in
        (case event of
           SBook coin time_ms levels \<Rightarrow> Some (book_from_parts coin time_ms levels, s)
         | SClosed \<Rightarrow> Some (Inl HlStreamClosed, s)
         | SOther \<Rightarrow> next_snapshot K s))"

definition reconcile_book :: "'w sdk \<Rightarrow> string \<Rightarrow> ('w book_stream, hl_error, book_snapshot) step" where
  "reconcile_book K tkr s =
     (case sk_now K (bm_world s) of (now, w) \<Rightarrow>
      (case consume now INFO_L2_WEIGHT (bm_budget s) of
         (Inl e, b) \<Rightarrow> (Inl e, s\<lparr>bm_budget := b, bm_world := w\<rparr>)
       | (Inr _, b) \<Rightarrow>
           (case sk_book K (bm_network s) tkr w of (answer, w) \<Rightarrow>
             (rbind (ok_or answer HlSdk) (\<lambda>(coin, time_ms, levels). book_from_parts coin time_ms levels),
              s\<lparr>bm_budget := b, bm_world := w\<rparr>))))"

definition reconcile_books :: "'w sdk \<Rightarrow> ('w book_stream, hl_error, book_snapshot list) step" where
  "reconcile_books K = sfor (reconcile_book K) ALLOWED_SYMBOLS"

section \<open>What leaves the log alone\<close>

definition same_venue :: "'w venue_client \<Rightarrow> 'w venue_client \<Rightarrow> bool" where
  "same_venue s s' \<longleftrightarrow> hv_exchanged s' = hv_exchanged s \<and> hv_assets s' = hv_assets s"

interpretation silent: step_relation same_venue
  by unfold_locales (simp_all add: same_venue_def)

lemma silent_world: "keeps same_venue (venue_world f)"
  by (auto simp: keeps_def venue_world_def same_venue_def split: prod.splits)

lemma silent_spend: "keeps same_venue (spend K weight)"
  unfolding spend_def
  by (intro silent.keeps_bind silent_world) (auto simp: keeps_def same_venue_def split: prod.splits sum.splits)

lemma silent_read: "keeps same_venue (venue_read e f)"
  unfolding venue_read_def by (intro silent.keeps_intros silent_world)

lemma silent_asset: "keeps same_venue (asset_for tkr e)"
  unfolding asset_for_def by (intro silent.keeps_intros)

lemmas silent_steps = silent_world silent_spend silent_read silent_asset

text \<open>Reads never exchange anything on the account.\<close>

lemma silent_reads: "keeps same_venue (account_snapshot_of K account)" "keeps same_venue (market_snapshots K books now)"
  "keeps same_venue (fresh_market_snapshot K tkr now)" "keeps same_venue (recent_candles K a b)"
  "keeps same_venue (fills_since K account a b)" "keeps same_venue (funding_since K account a b)"
  unfolding account_snapshot_of_def market_snapshots_def fresh_market_snapshot_def recent_candles_def fills_since_def
    funding_since_def asset_contexts_def Let_def
  by (intro silent.keeps_intros silent_steps; auto intro!: silent.keeps_intros silent_steps)+

lemma exchanged_cases:
  assumes "exchanged e entry f s = (r, s')"
  obtains answer where "r = ok_or answer e" and "hv_exchanged s' = hv_exchanged s @ [entry answer]"
    and "hv_assets s' = hv_assets s"
  using assms that by (auto simp: exchanged_def sbind_def sget_def sput_def slift_def venue_world_def split: prod.splits)

lemma asset_for_cases:
  assumes "asset_for tkr e s = (r, s')"
  shows "s' = s \<and> r = ok_or (map_of (hv_assets s) tkr) e"
  using assms by (auto simp: asset_for_def sbind_def sget_def slift_def)

lemma spend_cases:
  assumes "spend K weight s = (r, s')"
  shows "same_venue s s' \<and> (r = Inr () \<or> r = Inl HlRateLimit)"
  using keepsD [OF silent_spend assms] assms
  by (auto simp: spend_def sbind_def venue_world_def consume_def Let_def split: prod.splits if_splits)

section \<open>Orders never rest\<close>

text \<open>What the cancel of a resting order does: the budget may refuse it, otherwise it is sent.\<close>

definition cancel_outcome :: "core_asset \<Rightarrow> u64 \<Rightarrow> exchange_call list \<Rightarrow> hl_error + order_status list \<Rightarrow> bool" where
  "cancel_outcome asset oid new r \<longleftrightarrow> (new = [] \<and> r = Inl HlRateLimit)
     \<or> (\<exists>nonce answer. new = [XCancel nonce [(ca_asset_index asset, oid)] answer] \<and> r = ok_or answer HlSdk)"

lemma cancel_direct_cases:
  assumes "cancel_direct K tkr oid s = (r, s')" and "map_of (hv_assets s) tkr = Some asset"
  shows "\<exists>new. hv_exchanged s' = hv_exchanged s @ new \<and> cancel_outcome asset oid new r"
  using assms(1) unfolding cancel_direct_def
proof (cases rule: sbind_cases)
  case (failed e)
  then show ?thesis using asset_for_cases [OF failed(1)] assms(2) by simp
next
  case (ok a s1)
  have a: "s1 = s" "a = asset" using asset_for_cases [OF ok(1)] assms(2) by simp_all
  from ok(2) show ?thesis unfolding a
  proof (cases rule: sbind_cases)
    case (failed e)
    then show ?thesis using spend_cases [OF failed(1)] by (auto simp: same_venue_def cancel_outcome_def)
  next
    case spent: (ok u s2)
    have s2: "hv_exchanged s2 = hv_exchanged s" using spend_cases [OF spent(1)] by (simp add: same_venue_def)
    from spent(2) show ?thesis
    proof (cases rule: sbind_cases)
      case (failed e)
      then show ?thesis by (auto simp: venue_world_def split: prod.splits)
    next
      case n: (ok nonce s3)
      have s3: "hv_exchanged s3 = hv_exchanged s" using keepsD [OF silent_world n(1)] s2 by (simp add: same_venue_def)
      from n(2) [unfolded Let_def] show ?thesis
        by (rule exchanged_cases) (auto simp: s3 cancel_outcome_def)
    qed
  qed
qed

text \<open>
  What follows an order, by the venue's answer: nothing when every status is final, the cancel of the
  first resting order when there is one, nothing more when the order waits for a trigger or a fill.
\<close>

fun after_order :: "core_asset \<Rightarrow> order_status list \<Rightarrow> exchange_call list \<Rightarrow> hl_error + unit \<Rightarrow> bool" where
  "after_order asset [] new r = (new = [] \<and> r = Inr ())"
| "after_order asset (status # statuses) new r = (case os_state status of
     StResting oid \<Rightarrow> (\<exists>c. cancel_outcome asset oid new c
       \<and> r = (case c of Inl e \<Rightarrow> Inl e | Inr _ \<Rightarrow> Inl HlIocInvariant))
   | StOther \<Rightarrow> after_order asset statuses new r
   | _ \<Rightarrow> new = [] \<and> r = Inl HlIocInvariant)"

lemma refuse_all_cases:
  assumes "sfor (refuse_resting K tkr) statuses s = (r, s')" and "map_of (hv_assets s) tkr = Some asset"
  shows "\<exists>new. hv_exchanged s' = hv_exchanged s @ new
    \<and> after_order asset statuses new (map_sum id (\<lambda>_. ()) r)"
  using assms
proof (induction statuses arbitrary: s r)
  case Nil
  then show ?case by (auto simp: sret_def)
next
  case (Cons status statuses)
  show ?case
  proof (cases "os_state status")
    case (StResting oid)
    obtain c s1 where c: "cancel_direct K tkr oid s = (c, s1)" by fastforce
    have "r = (case c of Inl e \<Rightarrow> Inl e | Inr _ \<Rightarrow> Inl HlIocInvariant)" "s' = s1"
      using Cons.prems(1) c StResting
      by (auto simp: refuse_resting_def sbind_def slift_def split: sum.splits)
    moreover obtain new where "hv_exchanged s1 = hv_exchanged s @ new" "cancel_outcome asset oid new c"
      using cancel_direct_cases [OF c Cons.prems(2)] by blast
    ultimately show ?thesis using StResting by (auto intro!: exI [of _ new] exI [of _ c] split: sum.splits)
  next
    case StOther
    then have "refuse_resting K tkr status = sret ()" by (simp add: refuse_resting_def)
    then have "sbind (sfor (refuse_resting K tkr) statuses) (\<lambda>us. sret (() # us)) s = (r, s')"
      using Cons.prems(1) by simp
    then obtain q where "sfor (refuse_resting K tkr) statuses s = (q, s')" "map_sum id (\<lambda>_. ()) r = map_sum id (\<lambda>_. ()) q"
      by (auto simp: sret_def elim!: sbind_cases)
    then show ?thesis using Cons.IH [of s q] Cons.prems(2) StOther by (simp add: id_def)
  qed (use Cons.prems in \<open>auto simp: refuse_resting_def sbind_def slift_def\<close>)
qed


lemma after_order_final:
  "after_order asset statuses new (Inr ()) \<Longrightarrow> new = [] \<and> list_all (\<lambda>status. os_state status = StOther) statuses"
proof (induction statuses)
  case (Cons status statuses)
  have fails: "(case c of Inl e \<Rightarrow> Inl e | Inr _ \<Rightarrow> Inl HlIocInvariant) \<noteq> Inr ()" for c :: "hl_error + order_status list"
    by (cases c) simp_all
  from Cons.prems fails have "os_state status = StOther \<and> after_order asset statuses new (Inr ())"
    by (cases "os_state status") (simp_all, metis)
  with Cons.IH show ?case by simp
qed simp

text \<open>The statuses of an order that was sent, and what the call makes of them.\<close>

definition finish_order :: "'w sdk \<Rightarrow> string \<Rightarrow> string \<Rightarrow> order_status list \<Rightarrow> ('w, venue_submission) venue_step" where
  "finish_order K tkr client_order_id statuses =
     sbind (sfor (refuse_resting K tkr) statuses) (\<lambda>_.
       sret \<lparr>vs_client_order_id = client_order_id, vs_statuses = JArr (map status_json statuses)\<rparr>)"

definition order_outcome :: "core_asset \<Rightarrow> string \<Rightarrow> order_status list option \<Rightarrow> exchange_call list \<Rightarrow> hl_error + venue_submission \<Rightarrow> bool" where
  "order_outcome asset client_order_id answer follow r = (case answer of
       None \<Rightarrow> follow = [] \<and> r = Inl HlSdk
     | Some statuses \<Rightarrow> after_order asset statuses follow (map_sum id (\<lambda>_. ()) r)
         \<and> (is_ok r \<longrightarrow> follow = [] \<and> list_all (\<lambda>status. os_state status = StOther) statuses
              \<and> r = Inr \<lparr>vs_client_order_id = client_order_id, vs_statuses = JArr (map status_json statuses)\<rparr>))"

lemma finish_order_cases:
  assumes "finish_order K tkr client_order_id statuses s = (r, s')" and "map_of (hv_assets s) tkr = Some asset"
  shows "\<exists>follow. hv_exchanged s' = hv_exchanged s @ follow \<and> order_outcome asset client_order_id (Some statuses) follow r"
proof -
  obtain q s4 where q: "sfor (refuse_resting K tkr) statuses s = (q, s4)" by fastforce
  have r: "r = map_sum id (\<lambda>_. \<lparr>vs_client_order_id = client_order_id, vs_statuses = JArr (map status_json statuses)\<rparr>) q"
      "s' = s4"
    using assms(1) q by (auto simp: finish_order_def sbind_def sret_def split: sum.splits)
  obtain follow where f: "hv_exchanged s4 = hv_exchanged s @ follow"
      "after_order asset statuses follow (map_sum id (\<lambda>_. ()) q)"
    using refuse_all_cases [OF q assms(2)] by blast
  show ?thesis
  proof (cases q)
    case (Inl e)
    with f show ?thesis by (auto simp: order_outcome_def r)
  next
    case (Inr u)
    then have "follow = [] \<and> list_all (\<lambda>status. os_state status = StOther) statuses"
      using f(2) by (intro after_order_final) simp
    with f show ?thesis by (auto simp: order_outcome_def r Inr)
  qed
qed

lemma sbind_pure:
  "sbind (slift m) f s = (case m of Inl e \<Rightarrow> (Inl e, s) | Inr x \<Rightarrow> f x s)" "sbind (sget g) f s = f (g s) s"
  by (auto simp: sbind_def slift_def sget_def split: sum.splits)

text \<open>The sending of a request and what follows it.\<close>

lemma place_cases:
  assumes "sbind (venue_world (sk_nonce K)) (\<lambda>nonce.
      sbind (exchanged HlSdk (XPlace nonce [request]) (\<lambda>network signer. sk_place K network signer [request] nonce))
        (finish_order K tkr client_order_id)) s = (r, s')"
    and asset: "map_of (hv_assets s) tkr = Some asset"
  shows "hv_exchanged s' = hv_exchanged s \<and> \<not> is_ok r
    \<or> (\<exists>nonce answer follow. hv_exchanged s' = hv_exchanged s @ XPlace nonce [request] answer # follow
        \<and> order_outcome asset client_order_id answer follow r)"
  using assms(1)
proof (cases rule: sbind_cases)
  case (failed e)
  then show ?thesis by (auto simp: venue_world_def split: prod.splits)
next
  case n: (ok nonce s2)
  have s2: "hv_exchanged s2 = hv_exchanged s" "hv_assets s2 = hv_assets s"
    using keepsD [OF silent_world n(1)] by (simp_all add: same_venue_def)
  from n(2) show ?thesis
  proof (cases rule: sbind_cases)
    case (failed e)
    obtain answer where a: "Inl e = ok_or answer HlSdk" "hv_exchanged s' = hv_exchanged s @ [XPlace nonce [request] answer]"
      by (rule exchanged_cases [OF failed(1)]) (simp add: s2)
    have "answer = None \<and> e = HlSdk" using a(1) by (cases answer) simp_all
    then have "order_outcome asset client_order_id answer [] r" using failed(2) by (simp add: order_outcome_def)
    with a(2) show ?thesis by blast
  next
    case p: (ok statuses s3)
    obtain answer where a: "Inr statuses = ok_or answer HlSdk"
        "hv_exchanged s3 = hv_exchanged s @ [XPlace nonce [request] answer]" "hv_assets s3 = hv_assets s"
      by (rule exchanged_cases [OF p(1)]) (simp add: s2)
    have "answer = Some statuses" using a(1) by (metis ok_or_eq_Inr)
    moreover obtain follow where "hv_exchanged s' = hv_exchanged s3 @ follow"
        "order_outcome asset client_order_id (Some statuses) follow r"
      using finish_order_cases [OF p(2)] a(3) asset by auto
    ultimately show ?thesis using a(2) by auto
  qed
qed

text \<open>
  C12. A submitted order is one immediate-or-cancel order and is never left resting unnoticed: \<open>submit_ioc\<close>
  sends at most one order, built from the policy's decision; it succeeds only when the venue answered and
  no status rests or waits; when one rests, the only thing that follows is the cancel of exactly that
  order, and the call fails. The cancel itself is refused only by a spent request budget.
\<close>

theorem submitted_order_never_rests:
  assumes "submit_ioc K order client_order_id s = (r, s')"
  shows "(hv_exchanged s' = hv_exchanged s \<and> \<not> is_ok r)
    \<or> (\<exists>cloid asset request nonce answer follow.
        hv_exchanged s' = hv_exchanged s @ XPlace nonce [request] answer # follow
        \<and> sk_cloid K (''0x'' @ client_order_id) = Some cloid \<and> map_of (hv_assets s) (o_symbol order) = Some asset
        \<and> build_ioc_request (sk_decimal K) order (hv_assets s) cloid = Inr request \<and> io_tif request = ''Ioc''
        \<and> order_outcome asset client_order_id answer follow r)"
  using assms unfolding submit_ioc_def finish_order_def [symmetric]
proof (cases rule: sbind_cases)
  case (failed e)
  then show ?thesis using spend_cases [OF failed(1)] by (simp add: same_venue_def)
next
  case spent: (ok u s1)
  have s1: "hv_exchanged s1 = hv_exchanged s" "hv_assets s1 = hv_assets s"
    using spend_cases [OF spent(1)] by (simp_all add: same_venue_def)
  consider (no_cloid) "sk_cloid K (''0x'' @ client_order_id) = None"
    | (no_request) cloid e where "sk_cloid K (''0x'' @ client_order_id) = Some cloid"
        "build_ioc_request (sk_decimal K) order (hv_assets s) cloid = Inl e"
    | (sent) cloid request where "sk_cloid K (''0x'' @ client_order_id) = Some cloid"
        "build_ioc_request (sk_decimal K) order (hv_assets s) cloid = Inr request"
    by (metis option.exhaust sum.exhaust)
  then show ?thesis
  proof cases
    case no_cloid
    then show ?thesis using spent(2) s1 by (auto simp: sbind_pure)
  next
    case no_request
    then show ?thesis using spent(2) s1 by (auto simp: sbind_pure)
  next
    case sent
    obtain asset where asset: "map_of (hv_assets s) (o_symbol order) = Some asset"
      using sent(2) by (auto simp: build_ioc_request_def)
    have tif: "io_tif request = ''Ioc''" using sent(2) by (auto simp: build_ioc_request_def split: if_splits)
    note run = spent(2) [unfolded sbind_pure sent(1) ok_or_simps sum.case s1(2) sent(2)]
    show ?thesis
      using place_cases [OF run] asset s1 sent tif by auto
  qed
qed

section \<open>Leverage\<close>

definition leverage_set :: "'w sdk \<Rightarrow> string \<Rightarrow> u32 \<Rightarrow> string \<Rightarrow> core_asset \<Rightarrow> exchange_call list \<Rightarrow> bool" where
  "leverage_set K account leverage tkr asset new \<longleftrightarrow> (\<exists>nonce kind set_value.
     new = [XLeverage nonce (ca_asset_index asset) False leverage (Some ()), XActive account tkr (Some (kind, set_value))]
     \<and> map to_ascii_lower kind = ''isolated'' \<and> sk_decimal_is K set_value leverage)"

lemma set_leverage_Inr:
  assumes "set_leverage K leverage asset s = (Inr u, s')"
  shows "hv_assets s' = hv_assets s
    \<and> (\<exists>nonce. hv_exchanged s' = hv_exchanged s @ [XLeverage nonce (ca_asset_index asset) False leverage (Some ())])"
  using assms unfolding set_leverage_def
proof (rule sbind_InrE, elim sbind_InrE)
  fix x s1 nonce s2
  assume q: "spend K 1 s = (Inr x, s1)" "venue_world (sk_nonce K) s1 = (Inr nonce, s2)"
    and l: "exchanged HlSdk (XLeverage nonce (ca_asset_index asset) False leverage)
         (\<lambda>network signer. sk_leverage K network signer (ca_asset_index asset) False leverage nonce) s2 = (Inr u, s')"
  have "same_venue s s2"
    using silent.R_trans [OF keepsD [OF silent_spend q(1)] keepsD [OF silent_world q(2)]] .
  moreover obtain a where "Inr u = ok_or a HlSdk" "hv_exchanged s' = hv_exchanged s2 @ [XLeverage nonce (ca_asset_index asset) False leverage a]"
      "hv_assets s' = hv_assets s2" by (rule exchanged_cases [OF l])
  moreover have "a = Some ()" using calculation(2) by (cases a) simp_all
  ultimately show ?thesis by (auto simp: same_venue_def)
qed

lemma read_leverage_Inr:
  assumes "read_leverage K account leverage tkr s = (Inr u, s')"
  shows "hv_assets s' = hv_assets s \<and> (\<exists>kind set_value.
    hv_exchanged s' = hv_exchanged s @ [XActive account tkr (Some (kind, set_value))]
    \<and> map to_ascii_lower kind = ''isolated'' \<and> sk_decimal_is K set_value leverage)"
  using assms unfolding read_leverage_def
proof (rule sbind_InrE, elim sbind_InrE)
  fix x s1 p s2
  assume q: "spend K INFO_ACTIVE_ASSET_WEIGHT s = (Inr x, s1)"
    and l: "exchanged HlSnapshot (XActive account tkr) (\<lambda>network _. sk_active K network account tkr) s1 = (Inr p, s2)"
    and f: "(case p of (kind, set_value) \<Rightarrow>
       if map to_ascii_lower kind \<noteq> ''isolated'' \<or> \<not> sk_decimal_is K set_value leverage
       then slift (Inl HlSnapshot) else sret ()) s2 = (Inr u, s')"
  obtain kind set_value where p: "p = (kind, set_value)" by fastforce
  have ok: "s2 = s'" "map to_ascii_lower kind = ''isolated''" "sk_decimal_is K set_value leverage"
    using f by (auto simp: p slift_def sret_def split: if_splits)
  obtain a where "Inr p = ok_or a HlSnapshot" "hv_exchanged s2 = hv_exchanged s1 @ [XActive account tkr a]"
      "hv_assets s2 = hv_assets s1" by (rule exchanged_cases [OF l])
  moreover have "a = Some p" using calculation(1) by (cases a) simp_all
  ultimately show ?thesis using keepsD [OF silent_spend q] ok by (auto simp: same_venue_def p)
qed

lemma confirm_leverage_Inr:
  assumes "confirm_leverage K account leverage tkr s = (Inr u, s')"
  shows "hv_assets s' = hv_assets s \<and> (\<exists>asset new. map_of (hv_assets s) tkr = Some asset
    \<and> hv_exchanged s' = hv_exchanged s @ new \<and> leverage_set K account leverage tkr asset new)"
  using assms unfolding confirm_leverage_def
proof (rule sbind_InrE, elim sbind_InrE)
  fix asset s1 x s2
  assume q: "asset_for tkr HlMetadata s = (Inr asset, s1)"
    and m: "set_leverage K leverage asset s1 = (Inr x, s2)" and n: "read_leverage K account leverage tkr s2 = (Inr u, s')"
  have "map_of (hv_assets s) tkr = Some asset" "s1 = s"
    using asset_for_cases [OF q] ok_or_eq_Inr [of "map_of (hv_assets s) tkr" HlMetadata asset] by auto
  with set_leverage_Inr [OF m] read_leverage_Inr [OF n] show ?thesis
    by (auto simp: leverage_set_def)
qed

lemma confirm_all:
  assumes "sfor (confirm_leverage K account leverage) tkrs s = (Inr us, s')"
  shows "\<exists>news. hv_exchanged s' = hv_exchanged s @ concat news
    \<and> list_all2 (\<lambda>tkr new. \<exists>asset. map_of (hv_assets s) tkr = Some asset \<and> leverage_set K account leverage tkr asset new) tkrs news"
  using assms
proof (induction tkrs arbitrary: s us)
  case (Cons tkr tkrs)
  from Cons.prems obtain u s1 vs where
      one: "confirm_leverage K account leverage tkr s = (Inr u, s1)"
    and rest: "sfor (confirm_leverage K account leverage) tkrs s1 = (Inr vs, s')"
    by (auto simp: sret_def elim!: sbind_InrE)
  obtain asset new where n: "map_of (hv_assets s) tkr = Some asset" "hv_exchanged s1 = hv_exchanged s @ new"
      "leverage_set K account leverage tkr asset new" and a: "hv_assets s1 = hv_assets s"
    using confirm_leverage_Inr [OF one] by blast
  obtain news where "hv_exchanged s' = hv_exchanged s1 @ concat news"
      "list_all2 (\<lambda>tkr new. \<exists>asset. map_of (hv_assets s) tkr = Some asset \<and> leverage_set K account leverage tkr asset new) tkrs news"
    using Cons.IH [OF rest] unfolding a by blast
  with n show ?case by (intro exI [of _ "new # news"]) auto
qed (auto simp: sret_def)

text \<open>
  C15. Leverage is confirmed, not assumed: when \<open>configure_isolated_leverage\<close> succeeds, each of the three
  symbols in turn got one leverage update on its own asset, not crossed and with exactly the requested leverage, and
  the venue's own read-back for the account then said isolated with that leverage; and the leverage is
  positive and within the maximum of every asset.
\<close>

theorem leverage_is_confirmed:
  assumes "configure_isolated_leverage K execution_account leverage s = (Inr u, s')"
  shows "\<exists>account news. sk_account K execution_account = Some account
    \<and> hv_exchanged s' = hv_exchanged s @ concat news
    \<and> list_all2 (\<lambda>tkr new. \<exists>asset. map_of (hv_assets s) tkr = Some asset
         \<and> leverage_set K account (ucast leverage) tkr asset new) ALLOWED_SYMBOLS news
    \<and> 0 < leverage \<and> list_all (\<lambda>(_, asset). ucast leverage \<le> ca_max_leverage asset) (hv_assets s)"
proof -
  have small: "(ucast leverage :: u32) \<noteq> 0" "\<not> list_ex (\<lambda>(_, asset). ca_max_leverage asset < ucast leverage) (hv_assets s)"
    using assms by (auto simp: configure_isolated_leverage_def Let_def sbind_def sget_def slift_def split: if_splits)
  obtain account where account: "sk_account K execution_account = Some account"
    using assms small by (cases "sk_account K execution_account")
      (auto simp: configure_isolated_leverage_def Let_def sbind_def sget_def slift_def parse_account_def)
  have "sbind (sfor (confirm_leverage K account (ucast leverage)) ALLOWED_SYMBOLS) (\<lambda>_. sret ()) s = (Inr u, s')"
    using assms small account
    by (simp add: configure_isolated_leverage_def Let_def sbind_pure parse_account_def split: if_splits)
  then obtain us where "sfor (confirm_leverage K account (ucast leverage)) ALLOWED_SYMBOLS s = (Inr us, s')"
    by (auto simp: sret_def elim!: sbind_InrE)
  from confirm_all [OF this] obtain news where "hv_exchanged s' = hv_exchanged s @ concat news"
      "list_all2 (\<lambda>tkr new. \<exists>asset. map_of (hv_assets s) tkr = Some asset
         \<and> leverage_set K account (ucast leverage) tkr asset new) ALLOWED_SYMBOLS news" by blast
  moreover have "list_all (\<lambda>(_, asset). ucast leverage \<le> ca_max_leverage asset) (hv_assets s)"
    using small(2) by (auto simp: list_all_iff list_ex_iff not_less)
  moreover have "0 < leverage" using small(1) by (cases "leverage = 0") (auto simp: word_neq_0_conv)
  ultimately show ?thesis using account by blast
qed

end
