(* ===== verification/VenueTrial.thy ===== *)
theory VenueTrial
  imports VenueClient
begin

text \<open>
  A venue that answers an order with given statuses, and the two theorems of the venue client on it: an order
  that rests, with and without budget for its cancel, and a leverage that is set and read back.
\<close>

section \<open>The venue\<close>

text \<open>A venue that answers an order with the given statuses; the world counts the nonces.\<close>

definition toy_sdk :: "order_status list \<Rightarrow> nat sdk" where
  "toy_sdk statuses = \<lparr>sk_signer = Some, sk_address = id, sk_account = Some, sk_cloid = Some, sk_decimal = (\<lambda>_. True),
     sk_decimal_is = (\<lambda>t n. t = digits (unat n)),
     sk_ops = \<lparr>dec_is_zero = (\<lambda>t. t = ''0''), dec_negative = (\<lambda>t. hd t = CHR ''-''), dec_abs = id,
       dec_less = (\<lambda>_ _. False), dec_available = (\<lambda>a _. a)\<rparr>,
     sk_contexts = (\<lambda>_. None), sk_now = (\<lambda>w. (0, w)), sk_time_ms = (\<lambda>w. (0, w)), sk_nonce = (\<lambda>w. (of_nat w, w + 1)),
     sk_perps = (\<lambda>_ w. (None, w)), sk_place = (\<lambda>_ _ _ _ w. (Some statuses, w)),
     sk_cancel = (\<lambda>_ _ _ _ w. (Some [], w)), sk_leverage = (\<lambda>_ _ _ _ _ _ w. (Some (), w)),
     sk_active = (\<lambda>_ _ _ w. (Some (''Isolated'', ''3''), w)), sk_standard = (\<lambda>_ _ w. (None, w)),
     sk_clearinghouse = (\<lambda>_ _ w. (None, w)), sk_balances = (\<lambda>_ _ w. (None, w)), sk_meta = (\<lambda>_ w. (None, w)),
     sk_book = (\<lambda>_ _ w. (None, w)), sk_candles = (\<lambda>_ _ _ _ w. (None, w)), sk_fills = (\<lambda>_ _ _ _ w. (None, w)),
     sk_funding = (\<lambda>_ _ _ _ w. (None, w)), sk_subscribe = (\<lambda>_ _ w. w), sk_next = (\<lambda>_ w. (SClosed, w))\<rparr>"

definition toy_client :: "u16 \<Rightarrow> nat venue_client" where
  "toy_client used = \<lparr>hv_signer = ''k'',
     hv_assets = map (\<lambda>(tkr, i). (tkr, sample_asset\<lparr>ca_symbol := tkr, ca_asset_index := i\<rparr>)) (zip ALLOWED_SYMBOLS [0, 1, 2]),
     hv_budget = \<lparr>rq_opened_at = 0, rq_used = used\<rparr>, hv_network = Testnet, hv_exchanged = [], hv_world = 5\<rparr>"

definition resting_status :: order_status where
  "resting_status = \<lparr>os_state = StResting 7, os_is_ok = True, os_is_err = False, os_oid = Some 7, os_error = None\<rparr>"

definition toy_request :: ioc_request where
  "toy_request = \<lparr>io_asset = 1, io_is_buy = True, io_reduce_only = False, io_limit_px = ''2000'', io_sz = ''0.005'', io_cloid = ''0xc'', io_tif = ''Ioc''\<rparr>"

lemma toy_pad: "pad_digits 8 500000 = ''00500000''"
proof -
  have "digits 500000 = ''500000''" by (simp add: digits.simps digit_char_def)
  then show ?thesis by (simp add: pad_digits_def numeral_2_eq_2)
qed

lemma toy_texts: "fixed_decimal 2000000000 6 = Inr ''2000''" "fixed_decimal 500000 8 = Inr ''0.005''"
  using toy_pad by (simp_all add: fixed_decimal_def digits.simps is_i64_def i64_try_def Let_def digit_char_def)

lemma toy_places: "decimal_places ''0.005'' = 3"
  by (simp add: decimal_places_def split_once_def)

lemma toy_assets: "map_of (hv_assets (toy_client n)) ''ETH'' = Some (sample_asset\<lparr>ca_asset_index := 1\<rparr>)"
  by (simp add: toy_client_def ALLOWED_SYMBOLS_def sample_asset_def)

lemma toy_request_built: "build_ioc_request (\<lambda>_. True) sample_order (hv_assets (toy_client n)) ''0xc'' = Inr toy_request"
  by (simp add: build_ioc_request_def sample_order_def toy_assets toy_texts toy_places toy_request_def sample_asset_def)

lemma sbind_toy_world: "sbind (venue_world g) f s = (case g (hv_world s) of (x, w) \<Rightarrow> f x (s\<lparr>hv_world := w\<rparr>))"
  by (auto simp: sbind_def venue_world_def split: prod.splits)

lemma sbind_toy_spend:
  "sbind (spend (toy_sdk st) n) f s = (case consume 0 n (hv_budget s) of
     (Inl e, b) \<Rightarrow> (Inl e, s\<lparr>hv_budget := b\<rparr>) | (Inr _, b) \<Rightarrow> f () (s\<lparr>hv_budget := b\<rparr>))"
  by (auto simp: sbind_def spend_def venue_world_def toy_sdk_def split: prod.splits sum.splits)

lemma sbind_toy_exchanged:
  "sbind (exchanged e entry g) f s = (case g (hv_network s) (hv_signer s) (hv_world s) of (x, w) \<Rightarrow>
     (case ok_or x e of
        Inl e \<Rightarrow> (Inl e, s\<lparr>hv_world := w, hv_exchanged := hv_exchanged s @ [entry x]\<rparr>)
      | Inr y \<Rightarrow> f y (s\<lparr>hv_world := w, hv_exchanged := hv_exchanged s @ [entry x]\<rparr>)))"
  by (auto simp: sbind_def exchanged_def venue_world_def sget_def sput_def slift_def split: prod.splits sum.splits)

lemmas toy_steps = sbind_pure sbind_toy_world sbind_toy_spend sbind_toy_exchanged

text \<open>The state of the client after the order was sent, with the budget and the log.\<close>

lemma toy_sdk_simps:
  "sk_cloid (toy_sdk st) = Some" "sk_decimal (toy_sdk st) = (\<lambda>_. True)" "sk_nonce (toy_sdk st) w = (of_nat w, w + 1)"
  "sk_place (toy_sdk st) network signer requests nonce w = (Some st, w)" "sk_cancel (toy_sdk st) network signer cancels nonce w = (Some [], w)"
  "sk_leverage (toy_sdk st) network signer i cross n nonce w = (Some (), w)"
  "sk_active (toy_sdk st) network account tkr w = (Some (''Isolated'', ''3''), w)" "sk_account (toy_sdk st) = Some"
  "sk_decimal_is (toy_sdk st) t n = (t = digits (unat n))"
  by (simp_all add: toy_sdk_def)

definition sent_client :: "u16 \<Rightarrow> nat venue_client" where
  "sent_client used = (toy_client 0)\<lparr>hv_budget := \<lparr>rq_opened_at = 0, rq_used = used\<rparr>, hv_world := 6,
     hv_exchanged := [XPlace 5 [toy_request] (Some [resting_status])]\<rparr>"

lemma toy_sent:
  assumes "consume 0 1 \<lparr>rq_opened_at = 0, rq_used = used\<rparr> = (Inr (), \<lparr>rq_opened_at = 0, rq_used = used'\<rparr>)"
  shows "submit_ioc (toy_sdk [resting_status]) sample_order ''c'' (toy_client used) =
    finish_order (toy_sdk [resting_status]) ''ETH'' ''c'' [resting_status] (sent_client used')"
proof -
  have "hv_budget (toy_client used) = \<lparr>rq_opened_at = 0, rq_used = used\<rparr>" by (simp add: toy_client_def)
  then show ?thesis
    using toy_request_built [of used] assms
    by (simp add: submit_ioc_def finish_order_def [symmetric] toy_steps toy_sdk_simps)
      (simp add: sent_client_def toy_client_def sample_order_def)
qed

lemma toy_cancelled:
  "finish_order (toy_sdk [resting_status]) ''ETH'' ''c'' [resting_status] (sent_client used) =
    (case consume 0 1 \<lparr>rq_opened_at = 0, rq_used = used\<rparr> of
       (Inl e, b) \<Rightarrow> (Inl e, (sent_client used)\<lparr>hv_budget := b\<rparr>)
     | (Inr _, b) \<Rightarrow> (Inl HlIocInvariant, (sent_client used)\<lparr>hv_budget := b, hv_world := 7,
         hv_exchanged := [XPlace 5 [toy_request] (Some [resting_status]), XCancel 6 [(1, 7)] (Some [])]\<rparr>))"
proof -
  have a: "map_of (hv_assets (sent_client used)) ''ETH'' = Some (sample_asset\<lparr>ca_asset_index := 1\<rparr>)"
    using toy_assets [of 0] by (simp add: sent_client_def)
  have b: "hv_budget (sent_client used) = \<lparr>rq_opened_at = 0, rq_used = used\<rparr>" "hv_world (sent_client used) = 6"
    "hv_exchanged (sent_client used) = [XPlace 5 [toy_request] (Some [resting_status])]"
    by (simp_all add: sent_client_def)
  have c: "refuse_resting K ''ETH'' resting_status = sbind (cancel_direct K ''ETH'' 7) (\<lambda>_. slift (Inl HlIocInvariant))"
    for K :: "nat sdk" by (simp add: refuse_resting_def resting_status_def)
  show ?thesis
    by (simp add: finish_order_def c cancel_direct_def asset_for_def sbind_assoc toy_steps a b toy_sdk_simps Let_def
      split: prod.split sum.split)
qed

lemma toy_budget:
  "consume 0 1 \<lparr>rq_opened_at = 0, rq_used = n\<rparr> = (if 1000 < sat_add n 1 then (Inl HlRateLimit, \<lparr>rq_opened_at = 0, rq_used = n\<rparr>)
     else (Inr (), \<lparr>rq_opened_at = 0, rq_used = n + 1\<rparr>))"
  by (simp add: consume_def REST_WEIGHT_PER_MINUTE_def)

lemma toy_weights: "sat_add 0 1 = (1 :: u16)" "sat_add 1 1 = (2 :: u16)" "sat_add 999 1 = (1000 :: u16)" "sat_add 1000 1 = (1001 :: u16)"
  by (simp_all add: sat_add_def)

lemma toy_submitted:
  "\<exists>s'. submit_ioc (toy_sdk [resting_status]) sample_order ''c'' (toy_client 0) = (Inl HlIocInvariant, s')
     \<and> hv_exchanged s' = [XPlace 5 [toy_request] (Some [resting_status]), XCancel 6 [(1, 7)] (Some [])]"
  by (simp add: toy_sent [of 0 1] toy_cancelled toy_budget toy_weights)

text \<open>When the order took the last of the budget, the cancel of a resting order is not sent.\<close>

lemma resting_order_outlives_budget:
  "\<exists>s'. submit_ioc (toy_sdk [resting_status]) sample_order ''c'' (toy_client 999) = (Inl HlRateLimit, s')
     \<and> hv_exchanged s' = [XPlace 5 [toy_request] (Some [resting_status])]"
proof -
  have "hv_exchanged (sent_client 1000) = [XPlace 5 [toy_request] (Some [resting_status])]" by (simp add: sent_client_def)
  then show ?thesis by (simp add: toy_sent [of 999 1000] toy_cancelled toy_budget toy_weights)
qed

theorem submitted_order_never_rests_witness:
  "\<exists>s' asset request nonce answer follow.
     submit_ioc (toy_sdk [resting_status]) sample_order ''c'' (toy_client 0) = (Inl HlIocInvariant, s')
     \<and> hv_exchanged s' = XPlace nonce [request] answer # follow \<and> length (hv_exchanged s') = 2
     \<and> order_outcome asset ''c'' answer follow (Inl HlIocInvariant)"
proof -
  obtain s' where s': "submit_ioc (toy_sdk [resting_status]) sample_order ''c'' (toy_client 0) = (Inl HlIocInvariant, s')"
    and log: "hv_exchanged s' = [XPlace 5 [toy_request] (Some [resting_status]), XCancel 6 [(1, 7)] (Some [])]"
    using toy_submitted by blast
  have "hv_exchanged (toy_client 0) = []" by (simp add: toy_client_def)
  with submitted_order_never_rests [OF s'] log s' show ?thesis by auto
qed

lemma toy_lower: "map to_ascii_lower ''Isolated'' = ''isolated''" "digits 3 = ''3''"
  by (code_simp, simp add: digits.simps digit_char_def)

lemma toy_confirm:
  assumes "map_of (hv_assets s) tkr = Some asset" and "consume 0 1 (hv_budget s) = (Inr (), b)"
    and "consume 0 INFO_ACTIVE_ASSET_WEIGHT b = (Inr (), b')"
  shows "\<exists>s'. confirm_leverage (toy_sdk st) account 3 tkr s = (Inr (), s') \<and> hv_assets s' = hv_assets s \<and> hv_budget s' = b'"
  by (simp add: confirm_leverage_def set_leverage_def read_leverage_def asset_for_def sbind_assoc toy_steps toy_sdk_simps assms
    toy_lower del: list.map) (simp add: sret_def)

lemma toy_spent:
  "consume 0 1 \<lparr>rq_opened_at = 0, rq_used = 0\<rparr> = (Inr (), \<lparr>rq_opened_at = 0, rq_used = 1\<rparr>)"
  "consume 0 INFO_ACTIVE_ASSET_WEIGHT \<lparr>rq_opened_at = 0, rq_used = 1\<rparr> = (Inr (), \<lparr>rq_opened_at = 0, rq_used = 3\<rparr>)"
  "consume 0 1 \<lparr>rq_opened_at = 0, rq_used = 3\<rparr> = (Inr (), \<lparr>rq_opened_at = 0, rq_used = 4\<rparr>)"
  "consume 0 INFO_ACTIVE_ASSET_WEIGHT \<lparr>rq_opened_at = 0, rq_used = 4\<rparr> = (Inr (), \<lparr>rq_opened_at = 0, rq_used = 6\<rparr>)"
  "consume 0 1 \<lparr>rq_opened_at = 0, rq_used = 6\<rparr> = (Inr (), \<lparr>rq_opened_at = 0, rq_used = 7\<rparr>)"
  "consume 0 INFO_ACTIVE_ASSET_WEIGHT \<lparr>rq_opened_at = 0, rq_used = 7\<rparr> = (Inr (), \<lparr>rq_opened_at = 0, rq_used = 9\<rparr>)"
  by (simp_all add: consume_def INFO_ACTIVE_ASSET_WEIGHT_def REST_WEIGHT_PER_MINUTE_def sat_add_def)

lemma toy_leverage:
  "\<exists>s'. configure_isolated_leverage (toy_sdk []) ''a'' 3 (toy_client 0) = (Inr (), s')"
proof -
  let ?K = "toy_sdk [] :: nat sdk"
  have assets: "map_of (hv_assets (toy_client 0)) ''BTC'' = Some (sample_asset\<lparr>ca_symbol := ''BTC'', ca_asset_index := 0\<rparr>)"
    "map_of (hv_assets (toy_client 0)) ''ETH'' = Some (sample_asset\<lparr>ca_symbol := ''ETH'', ca_asset_index := 1\<rparr>)"
    "map_of (hv_assets (toy_client 0)) ''SOL'' = Some (sample_asset\<lparr>ca_symbol := ''SOL'', ca_asset_index := 2\<rparr>)"
    by (simp_all add: toy_client_def ALLOWED_SYMBOLS_def)
  have b: "hv_budget (toy_client 0) = \<lparr>rq_opened_at = 0, rq_used = 0\<rparr>" by (simp add: toy_client_def)
  obtain s1 where s1: "confirm_leverage ?K ''a'' 3 ''BTC'' (toy_client 0) = (Inr (), s1)"
      "hv_assets s1 = hv_assets (toy_client 0)" "hv_budget s1 = \<lparr>rq_opened_at = 0, rq_used = 3\<rparr>"
    using toy_confirm [OF assets(1), unfolded b, OF toy_spent(1,2)] by blast
  obtain s2 where s2: "confirm_leverage ?K ''a'' 3 ''ETH'' s1 = (Inr (), s2)"
      "hv_assets s2 = hv_assets (toy_client 0)" "hv_budget s2 = \<lparr>rq_opened_at = 0, rq_used = 6\<rparr>"
    using toy_confirm [of s1 "''ETH''", unfolded s1(2,3), OF assets(2) toy_spent(3,4)] by blast
  obtain s3 where s3: "confirm_leverage ?K ''a'' 3 ''SOL'' s2 = (Inr (), s3)"
    using toy_confirm [of s2 "''SOL''", unfolded s2(2,3), OF assets(3) toy_spent(5,6)] by blast
  have small: "\<not> list_ex (\<lambda>(_, asset). ca_max_leverage asset < 3) (hv_assets (toy_client 0))"
    by (simp add: toy_client_def ALLOWED_SYMBOLS_def sample_asset_def)
  show ?thesis
    using small by (simp add: configure_isolated_leverage_def Let_def ALLOWED_SYMBOLS_def sbind_pure parse_account_def toy_sdk_simps)
      (simp add: sbind_def sret_def s1(1) s2(1) s3(1))
qed

theorem leverage_is_confirmed_witness:
  "\<exists>s' news. configure_isolated_leverage (toy_sdk []) ''a'' 3 (toy_client 0) = (Inr (), s') \<and> hv_exchanged s' = concat news
     \<and> length news = 3"
proof -
  obtain s' where s': "configure_isolated_leverage (toy_sdk []) ''a'' 3 (toy_client 0) = (Inr (), s')" using toy_leverage by blast
  have "hv_exchanged (toy_client 0) = []" by (simp add: toy_client_def)
  with leverage_is_confirmed [OF s'] obtain account news where n: "hv_exchanged s' = concat news"
      "list_all2 (\<lambda>tkr new. \<exists>asset. map_of (hv_assets (toy_client 0)) tkr = Some asset
         \<and> leverage_set (toy_sdk []) account (ucast (3 :: u8)) tkr asset new) ALLOWED_SYMBOLS news" by auto
  have "length news = 3" using list_all2_lengthD [OF n(2)] by (simp add: ALLOWED_SYMBOLS_def)
  with n(1) s' show ?thesis by blast
qed

end
