(* ===== verification/Soak.thy ===== *)
theory Soak
  imports Daemon Effects
begin

text \<open>
  The soak driver of the daemon, \<open>apps/crow-agentd/src/soak.rs\<close>: cycles that append a signed event to the
  encrypted journal, inject a duplicate and a gap, exercise the execution gate and scan the state directory
  for plaintext, with a report that is written after every cycle and from which a stopped soak resumes. The
  journal is the one of \<open>Journal\<close> and the gate the one of \<open>Daemon\<close>; the clock, the fresh ids and nonces
  and whether a file operation succeeds come from the world, and the bytes SQLite leaves in the state
  directory are a function of the journal and the report.
\<close>

section \<open>The report\<close>

datatype soak_error =
    SoInvalidSchedule | SoIo | SoJournal | SoProtocol | SoJson | SoFaultAccepted | SoPlaintextLeak | SoRecovery
  | SoRemoteControl | SoCheckpoint | SoAlreadyComplete

record soak_report =
  sr_protocol :: string
  sr_mode :: string
  sr_status :: string
  sr_started_at :: string
  sr_expected_end_at :: string
  sr_updated_at :: string
  sr_duration :: u64
  sr_interval :: u64
  sr_cycles :: u64
  sr_events :: u64
  sr_reopens :: u64
  sr_duplicates :: u64
  sr_gaps :: u64
  sr_controls :: u64
  sr_recoveries :: u64
  sr_scans :: u64
  sr_last_hash :: string

record 'w soak_env =
  sv_P :: prims
  sv_A :: aead_prims
  sv_json :: "string \<Rightarrow> json option"
  sv_encode :: "soak_report \<Rightarrow> string option"
  sv_decode :: "string \<Rightarrow> soak_report option"
  sv_time :: "string \<Rightarrow> int option"
  sv_files :: "journal option \<Rightarrow> string option \<Rightarrow> string list"
  sv_now :: "'w \<Rightarrow> int \<times> 'w"
  sv_sleep :: "int \<Rightarrow> 'w \<Rightarrow> 'w"
  sv_uuid :: "'w \<Rightarrow> uuid \<times> 'w"
  sv_nonce :: "'w \<Rightarrow> string \<times> 'w"
  sv_disk :: "'w \<Rightarrow> bool \<times> 'w"

record 'w soak =
  so_journal :: "journal option"
  so_report :: "string option"
  so_temporary :: "string option"
  so_world :: 'w

type_synonym ('w, 'a) soak_step = "('w soak, soak_error, 'a) step"

definition SYNTHETIC_PRIVATE_SENTINEL :: string where "SYNTHETIC_PRIVATE_SENTINEL = ''crow-soak-private-payload-sentinel''"
definition SYNTHETIC_TOKEN_SENTINEL :: string where "SYNTHETIC_TOKEN_SENTINEL = ''crow_soak_refresh_token_sentinel''"
definition JOURNAL_KEY :: string where "JOURNAL_KEY = replicate 32 (CHR 0x5A)"
definition DEVICE_SEED :: string where "DEVICE_SEED = replicate 32 (CHR 0x33)"
definition SOAK_MODE :: string where "SOAK_MODE = ''local_headless_component_soak''"
definition soak_arena_id :: uuid where "soak_arena_id = 1"
definition soak_run_id :: uuid where "soak_run_id = 2"

definition soak_world :: "('w \<Rightarrow> 'a \<times> 'w) \<Rightarrow> ('w, 'a) soak_step" where
  "soak_world f s = (case f (so_world s) of (x, w) \<Rightarrow> (Inr x, s\<lparr>so_world := w\<rparr>))"

definition file_op :: "'w soak_env \<Rightarrow> ('w, unit) soak_step" where
  "file_op E = sbind (soak_world (sv_disk E)) (\<lambda>ok. if ok then sret () else slift (Inl SoIo))"

definition format_time :: "'w soak_env \<Rightarrow> int \<Rightarrow> string" where
  "format_time E v = (case rfc3339 (sv_P E) v of Some t \<Rightarrow> t | None \<Rightarrow> ''invalid-time'')"

definition parse_time :: "'w soak_env \<Rightarrow> string \<Rightarrow> soak_error + int" where
  "parse_time E v = ok_or (sv_time E v) SoCheckpoint"

text \<open>The report is written beside its file and renamed over it.\<close>

definition write_report :: "'w soak_env \<Rightarrow> soak_report \<Rightarrow> ('w, unit) soak_step" where
  "write_report E report =
     sbind (slift (ok_or (sv_encode E report) SoJson)) (\<lambda>bytes.
     sbind (file_op E) (\<lambda>_.
     sbind (sput (\<lambda>s. s\<lparr>so_temporary := Some bytes\<rparr>)) (\<lambda>_.
     sbind (file_op E) (\<lambda>_.
       sput (\<lambda>s. s\<lparr>so_report := Some bytes, so_temporary := None\<rparr>)))))"

text \<open>A span of whole seconds in nanoseconds.\<close>

definition span :: "u64 \<Rightarrow> soak_error + int" where
  "span seconds = (if is_i64 (uint seconds) then Inr (uint seconds * 1000000000) else Inl SoInvalidSchedule)"

definition fresh_report :: "'w soak_env \<Rightarrow> int \<Rightarrow> int \<Rightarrow> u64 \<Rightarrow> u64 \<Rightarrow> soak_report" where
  "fresh_report E started_at expected_end_at duration interval =
     \<lparr>sr_protocol = HARNESS_PROTOCOL_V1, sr_mode = SOAK_MODE, sr_status = ''running'',
      sr_started_at = format_time E started_at, sr_expected_end_at = format_time E expected_end_at,
      sr_updated_at = format_time E started_at, sr_duration = duration, sr_interval = interval,
      sr_cycles = 0, sr_events = 0, sr_reopens = 0, sr_duplicates = 0, sr_gaps = 0, sr_controls = 0,
      sr_recoveries = 0, sr_scans = 0, sr_last_hash = zero_hash\<rparr>"

definition new_report :: "'w soak_env \<Rightarrow> u64 \<Rightarrow> u64 \<Rightarrow> ('w, soak_report \<times> int \<times> int) soak_step" where
  "new_report E duration interval =
     sbind (soak_world (sv_now E)) (\<lambda>started_at.
     sbind (slift (span duration)) (\<lambda>length_ns.
     let expected_end_at = started_at + length_ns;
         report = fresh_report E started_at expected_end_at duration interval in
     sbind (write_report E report) (\<lambda>_. sret (report, started_at, expected_end_at))))"

definition balanced :: "u64 \<Rightarrow> u64 \<Rightarrow> soak_report \<Rightarrow> bool" where
  "balanced duration interval r \<longleftrightarrow> sr_protocol r = HARNESS_PROTOCOL_V1 \<and> sr_mode r = SOAK_MODE
     \<and> sr_status r = ''running'' \<and> sr_duration r = duration \<and> sr_interval r = interval
     \<and> sr_events r = sr_cycles r \<and> sr_reopens r = sr_cycles r \<and> sr_duplicates r = sr_cycles r
     \<and> sr_gaps r = sr_cycles r \<and> sr_controls r = sat_mul (sr_cycles r) 3
     \<and> sr_recoveries r = sat_mul (sr_cycles r) 2 \<and> sr_scans r = sr_cycles r"

section \<open>The journal on disk\<close>

text \<open>\<open>EncryptedJournal::open\<close> under the soak's key; it creates the file.\<close>

definition disk_journal :: "'w soak \<Rightarrow> journal" where
  "disk_journal s = (case so_journal s of None \<Rightarrow> open_journal JOURNAL_KEY | Some j \<Rightarrow> j\<lparr>jn_key := JOURNAL_KEY\<rparr>)"

definition open_disk_journal :: "('w, unit) soak_step" where
  "open_disk_journal = sput (\<lambda>s. s\<lparr>so_journal := Some (disk_journal s)\<rparr>)"

definition soak_journal_read :: "(journal \<Rightarrow> journal_error + 'a) \<Rightarrow> ('w, 'a) soak_step" where
  "soak_journal_read f s = (map_err (\<lambda>_. SoJournal) (f (disk_journal s)), s)"

definition journal_change :: "(journal \<Rightarrow> journal_error + journal) \<Rightarrow> ('w, unit) soak_step" where
  "journal_change f s = (case f (disk_journal s) of
       Inl _ \<Rightarrow> (Inl SoJournal, s)
     | Inr j \<Rightarrow> (Inr (), s\<lparr>so_journal := Some j\<rparr>))"

definition soak_payload :: json where
  "soak_payload = JObj [(''raw_prompt'', JStr SYNTHETIC_PRIVATE_SENTINEL)]"

definition soak_append :: "'w soak_env \<Rightarrow> run_event \<Rightarrow> json \<Rightarrow> ('w, unit) soak_step" where
  "soak_append E e payload =
     sbind (soak_world (sv_nonce E)) (\<lambda>nonce. journal_change (append_event (sv_P E) (sv_A E) nonce e payload))"

definition soak_signed :: "'w soak_env \<Rightarrow> uuid \<Rightarrow> u64 \<Rightarrow> string \<Rightarrow> json \<Rightarrow> ('w, run_event) soak_step" where
  "soak_signed E cycle_id n previous payload =
     sbind (soak_world (sv_now E)) (\<lambda>now.
     sbind (soak_world (sv_uuid E)) (\<lambda>event_id.
       slift (map_err (\<lambda>_. SoProtocol) (sign_event (sv_P E) DEVICE_SEED event_id soak_arena_id soak_run_id (Some cycle_id)
         n previous ''portfolio_snapshot'' now payload))))"

section \<open>A cycle\<close>

text \<open>The event and its payload, then the token, are written and read back.\<close>

definition recover_payload :: "'w soak_env \<Rightarrow> run_event \<Rightarrow> ('w, unit) soak_step" where
  "recover_payload E e =
     sbind (soak_append E e soak_payload) (\<lambda>_.
     sbind (soak_journal_read (private_payload (sv_A E) (sv_json E) (ev_event_sha256 e))) (\<lambda>found.
     if found \<noteq> Some soak_payload then slift (Inl SoRecovery) else sret ()))"

definition recover_token :: "'w soak_env \<Rightarrow> ('w, unit) soak_step" where
  "recover_token E =
     sbind (soak_world (sv_nonce E)) (\<lambda>nonce.
     sbind (journal_change (put_secret (sv_A E) nonce REFRESH_TOKEN_SECRET SYNTHETIC_TOKEN_SENTINEL)) (\<lambda>_.
     sbind (soak_journal_read (secret (sv_A E) REFRESH_TOKEN_SECRET)) (\<lambda>found.
     sbind (slift (ok_or found SoRecovery)) (\<lambda>recovered.
     if recovered \<noteq> SYNTHETIC_TOKEN_SENTINEL then slift (Inl SoRecovery) else sret ()))))"

text \<open>An append that must fail.\<close>

definition refuse_append :: "'w soak_env \<Rightarrow> run_event \<Rightarrow> json \<Rightarrow> ('w, unit) soak_step" where
  "refuse_append E e payload =
     sbind (stry (soak_append E e payload)) (\<lambda>r. if is_ok r then slift (Inl SoFaultAccepted) else sret ())"

definition inject_faults :: "'w soak_env \<Rightarrow> uuid \<Rightarrow> u64 \<Rightarrow> run_event \<Rightarrow> ('w, unit) soak_step" where
  "inject_faults E cycle_id n e =
     sbind (refuse_append E e soak_payload) (\<lambda>_.
     sbind (soak_signed E cycle_id (sat_add n 2) (ev_event_sha256 e) (JObj [(''equity_micro_usdc'', JInt 1000000)])) (\<lambda>gap.
       refuse_append E gap (JObj [])))"

definition count_exercise :: "soak_report \<Rightarrow> soak_report" where
  "count_exercise report = report\<lparr>sr_reopens := sat_add (sr_reopens report) 1,
     sr_recoveries := sat_add (sat_add (sr_recoveries report) 1) 1,
     sr_duplicates := sat_add (sr_duplicates report) 1, sr_gaps := sat_add (sr_gaps report) 1\<rparr>"

definition exercise_journal :: "'w soak_env \<Rightarrow> uuid \<Rightarrow> u64 \<Rightarrow> run_event \<Rightarrow> soak_report \<Rightarrow> ('w, soak_report) soak_step" where
  "exercise_journal E cycle_id n e report =
     sbind open_disk_journal (\<lambda>_.
     sbind (recover_payload E e) (\<lambda>_.
     sbind (recover_token E) (\<lambda>_.
     sbind (inject_faults E cycle_id n e) (\<lambda>_. sret (count_exercise report)))))"

definition control_step :: "remote_action \<Rightarrow> string \<Rightarrow> u8 \<Rightarrow> soak_error + u8" where
  "control_step action label gate = (case gate_apply action gate of (applied, gate') \<Rightarrow>
     if \<not> applied \<or> gate_label gate' \<noteq> label then Inl SoRemoteControl else Inr gate')"

definition exercise_remote_controls :: "soak_error + unit" where
  "exercise_remote_controls =
     rbind (control_step Resume ''running'' new_gate) (\<lambda>g1.
     rbind (control_step Pause ''paused'' g1) (\<lambda>g2.
     rbind (control_step Stop ''stopped'' g2) (\<lambda>_. Inr ())))"

text \<open>A window of the bytes equals the sentinel.\<close>

definition leaks :: "string \<Rightarrow> bool" where
  "leaks raw \<longleftrightarrow> contains_sub raw SYNTHETIC_PRIVATE_SENTINEL \<or> contains_sub raw SYNTHETIC_TOKEN_SENTINEL"

definition scan_for_plaintext :: "'w soak_env \<Rightarrow> ('w, unit) soak_step" where
  "scan_for_plaintext E =
     sbind (file_op E) (\<lambda>_.
     sbind (sget (\<lambda>s. sv_files E (so_journal s) (so_report s))) (\<lambda>files.
     if list_ex leaks files then slift (Inl SoPlaintextLeak) else sret ()))"

definition sleep_until :: "'w soak_env \<Rightarrow> int \<Rightarrow> ('w, unit) soak_step" where
  "sleep_until E target =
     sbind (soak_world (sv_now E)) (\<lambda>now.
       if now < target then soak_world (\<lambda>w. ((), sv_sleep E (target - now) w)) else sret ())"

definition cycle_offset :: "soak_report \<Rightarrow> soak_error + u64" where
  "cycle_offset report = ok_or (u64_try (uint (sr_interval report) * uint (sr_cycles report))) SoInvalidSchedule"

definition record_cycle :: "'w soak_env \<Rightarrow> u64 \<Rightarrow> run_event \<Rightarrow> soak_report \<Rightarrow> ('w, soak_report) soak_step" where
  "record_cycle E n e report =
     sbind (soak_world (sv_now E)) (\<lambda>now.
     let report = report\<lparr>sr_controls := sat_add (sr_controls report) 3, sr_scans := sat_add (sr_scans report) 1,
           sr_cycles := sat_add (sr_cycles report) 1, sr_events := n, sr_last_hash := ev_event_sha256 e,
           sr_updated_at := format_time E now\<rparr> in
     sbind (write_report E report) (\<lambda>_. sret report))"

definition cycle_work :: "'w soak_env \<Rightarrow> soak_report \<Rightarrow> u64 \<Rightarrow> uuid \<Rightarrow> ('w, soak_report) soak_step" where
  "cycle_work E report n cycle_id =
     sbind (soak_signed E cycle_id n (sr_last_hash report)
        (JObj [(''cycle'', jword (sr_cycles report + 1)), (''equity_micro_usdc'', JInt 1000000)])) (\<lambda>e.
     sbind (exercise_journal E cycle_id n e report) (\<lambda>report.
     sbind (slift exercise_remote_controls) (\<lambda>_.
     sbind (scan_for_plaintext E) (\<lambda>_. record_cycle E n e report))))"

definition soak_cycle :: "'w soak_env \<Rightarrow> int \<Rightarrow> soak_report \<Rightarrow> ('w, soak_report) soak_step" where
  "soak_cycle E started_at report =
     sbind (slift (rbind (cycle_offset report) span)) (\<lambda>offset.
     sbind (sleep_until E (started_at + offset)) (\<lambda>_.
     sbind (slift (ok_or (u64_try (uint (sr_events report) + 1)) SoRecovery)) (\<lambda>n.
     sbind (soak_world (sv_uuid E)) (\<lambda>cycle_id. cycle_work E report n cycle_id))))"

section \<open>The run\<close>

definition resume_report :: "'w soak_env \<Rightarrow> u64 \<Rightarrow> u64 \<Rightarrow> ('w, soak_report \<times> int \<times> int) soak_step" where
  "resume_report E duration interval =
     sbind (sget so_report) (\<lambda>file.
     sbind (slift (ok_or file SoIo)) (\<lambda>bytes.
     sbind (file_op E) (\<lambda>_.
     sbind (slift (ok_or (sv_decode E bytes) SoJson)) (\<lambda>report.
     if sr_status report = ''complete'' then slift (Inl SoAlreadyComplete)
     else if \<not> balanced duration interval report then slift (Inl SoCheckpoint)
     else
     sbind (slift (parse_time E (sr_started_at report))) (\<lambda>started_at.
     sbind (slift (parse_time E (sr_expected_end_at report))) (\<lambda>expected_end_at.
     sbind (slift (span duration)) (\<lambda>length_ns.
     if expected_end_at \<noteq> started_at + length_ns then slift (Inl SoCheckpoint)
     else
     sbind open_disk_journal (\<lambda>_.
     sbind (soak_journal_read (latest_event_state soak_run_id)) (\<lambda>latest.
     if latest \<noteq> (if sr_events report = 0 then None else Some (sr_events report, sr_last_hash report))
     then slift (Inl SoCheckpoint)
     else sret (report, started_at, expected_end_at))))))))))"

text \<open>The loop: it may not end as far as its definition goes.\<close>

partial_function (option) soak_loop ::
    "'w soak_env \<Rightarrow> u64 \<Rightarrow> int \<Rightarrow> soak_report \<Rightarrow> 'w soak \<Rightarrow> ((soak_error + soak_report) \<times> 'w soak) option" where
  "soak_loop E expected started_at report s =
     (if expected \<le> sr_cycles report then Some (Inr report, s)
      else (case soak_cycle E started_at report s of (r, s') \<Rightarrow>
        (case r of
           Inl e \<Rightarrow> Some (Inl e, s')
         | Inr report' \<Rightarrow> soak_loop E expected started_at report' s')))"

definition finish_soak :: "'w soak_env \<Rightarrow> int \<Rightarrow> soak_report \<Rightarrow> ('w, soak_report) soak_step" where
  "finish_soak E expected_end_at report =
     sbind (sleep_until E expected_end_at) (\<lambda>_.
     sbind (soak_world (sv_now E)) (\<lambda>now.
     let report = report\<lparr>sr_status := ''complete'', sr_updated_at := format_time E now\<rparr> in
     sbind (write_report E report) (\<lambda>_. sret report)))"

definition start_soak :: "'w soak_env \<Rightarrow> u64 \<Rightarrow> u64 \<Rightarrow> ('w, soak_report \<times> int \<times> int) soak_step" where
  "start_soak E duration interval =
     sbind (file_op E) (\<lambda>_.
     sbind (file_op E) (\<lambda>_.
     sbind (sget so_report) (\<lambda>file.
     if file \<noteq> None then resume_report E duration interval else new_report E duration interval)))"

text \<open>A \<open>Duration\<close> is its seconds and the nanoseconds below a second.\<close>

definition schedule_refused :: "u64 \<times> u32 \<Rightarrow> u64 \<times> u32 \<Rightarrow> bool" where
  "schedule_refused duration interval \<longleftrightarrow>
     fst duration < fst interval \<or> fst duration = fst interval \<and> snd duration < snd interval
     \<or> interval = (0, 0) \<or> snd duration \<noteq> 0 \<or> snd interval \<noteq> 0 \<or> fst duration mod fst interval \<noteq> 0"

definition run_soak ::
    "'w soak_env \<Rightarrow> u64 \<times> u32 \<Rightarrow> u64 \<times> u32 \<Rightarrow> 'w soak \<Rightarrow> ((soak_error + soak_report) \<times> 'w soak) option" where
  "run_soak E duration interval s =
     (if schedule_refused duration interval then Some (Inl SoInvalidSchedule, s)
      else (case start_soak E (fst duration) (fst interval) s of
          (Inl e, s1) \<Rightarrow> Some (Inl e, s1)
        | (Inr (report, started_at, expected_end_at), s1) \<Rightarrow>
            Option.bind (soak_loop E (fst duration div fst interval) started_at report s1) (\<lambda>(r, s2).
              (case r of
                 Inl e \<Rightarrow> Some (Inl e, s2)
               | Inr report \<Rightarrow> Some (finish_soak E expected_end_at report s2)))))"

section \<open>What a cycle leaves\<close>

text \<open>Only the journal and the report are read again; the world is not.\<close>

definition same_files :: "'w soak \<Rightarrow> 'w soak \<Rightarrow> bool" where
  "same_files s s' \<longleftrightarrow> so_journal s' = so_journal s \<and> so_report s' = so_report s"

interpretation files: step_relation same_files
  by unfold_locales (auto simp: same_files_def)

lemma keeps_soak_world [intro]: "keeps same_files (soak_world f)"
  by (auto intro!: keepsI simp: soak_world_def same_files_def split: prod.splits)

lemma keeps_file_op [intro]: "keeps same_files (file_op E)"
  unfolding file_op_def by (intro files.keeps_intros keeps_soak_world)

lemma keeps_sleep_until [intro]: "keeps same_files (sleep_until E t)"
  unfolding sleep_until_def by (intro files.keeps_intros keeps_soak_world)

lemma keeps_soak_signed [intro]: "keeps same_files (soak_signed E c n h p)"
  unfolding soak_signed_def by (intro files.keeps_intros keeps_soak_world)

lemma keeps_scan [intro]: "keeps same_files (scan_for_plaintext E)"
  unfolding scan_for_plaintext_def by (intro files.keeps_intros keeps_file_op)

lemma same_files_journal: "same_files s s' \<Longrightarrow> disk_journal s' = disk_journal s \<and> so_report s' = so_report s"
  by (simp add: same_files_def disk_journal_def)

lemma disk_journal_key [simp]: "jn_key (disk_journal s) = JOURNAL_KEY"
  by (simp add: disk_journal_def open_journal_def split: option.splits)

lemma disk_journal_world [simp]: "disk_journal (s\<lparr>so_world := w\<rparr>) = disk_journal s"
  "disk_journal (s\<lparr>so_temporary := t\<rparr>) = disk_journal s" "disk_journal (s\<lparr>so_report := t\<rparr>) = disk_journal s"
  by (simp_all add: disk_journal_def)

lemma disk_journal_written: "jn_key j = JOURNAL_KEY \<Longrightarrow> disk_journal (s\<lparr>so_journal := Some j\<rparr>) = j"
  by (cases j) (simp add: disk_journal_def)

lemma opened_again: "disk_journal (s\<lparr>so_journal := Some (disk_journal s)\<rparr>) = disk_journal s"
  by (rule disk_journal_written) simp

lemma same_row_events:
  assumes "jn_events j' = jn_events j"
  shows "journal_inv P j' = journal_inv P j" and "latest_event_state run j' = latest_event_state run j"
  using assms by (simp_all add: journal_inv_def run_rows_def latest_event_state_def latest_row_def)

lemma append_keeps_key: "append_event P A nonce e p j = Inr j' \<Longrightarrow> jn_key j' = jn_key j"
  by (elim append_event_Inr) simp

lemma soak_append_cases:
  assumes "soak_append E e p s = (r, s')"
  obtains (refused) "r = Inl SoJournal" and "disk_journal s' = disk_journal s" and "so_report s' = so_report s"
      and "so_journal s' = so_journal s"
  | (appended) nonce j where "append_event (sv_P E) (sv_A E) nonce e p (disk_journal s) = Inr j"
      and "nonce = fst (sv_nonce E (so_world s))" and "r = Inr ()" and "disk_journal s' = j" and "so_report s' = so_report s"
proof -
  obtain nonce w where n: "sv_nonce E (so_world s) = (nonce, w)" by fastforce
  let ?m = "append_event (sv_P E) (sv_A E) nonce e p (disk_journal s)"
  have c: "(r, s') = (case ?m of Inl _ \<Rightarrow> (Inl SoJournal, s\<lparr>so_world := w\<rparr>)
      | Inr j \<Rightarrow> (Inr (), s\<lparr>so_world := w, so_journal := Some j\<rparr>))"
    using assms by (simp add: soak_append_def sbind_def soak_world_def journal_change_def n)
  show ?thesis
  proof (cases ?m)
    case (Inl x)
    then show ?thesis using c refused by simp
  next
    case (Inr j)
    moreover have "disk_journal (s\<lparr>so_world := w, so_journal := Some j\<rparr>) = j"
      using append_keeps_key [OF Inr] by (simp add: disk_journal_written)
    ultimately show ?thesis using c appended n by simp
  qed
qed

text \<open>What the driver relies on of the libraries: the cipher, nonces of its length, and serde on the payload.\<close>

definition soak_laws :: "'w soak_env \<Rightarrow> bool" where
  "soak_laws E \<longleftrightarrow> aead_law (sv_A E) \<and> (\<forall>w. length (fst (sv_nonce E w)) = 24)
     \<and> (\<forall>bytes. json_to_vec (sv_P E) soak_payload = Some bytes \<longrightarrow> sv_json E bytes = Some soak_payload)"

lemma recover_payload_cases:
  assumes "soak_laws E" and inv: "journal_inv (sv_P E) (disk_journal s)" and run: "recover_payload E e s = (r, s')"
  obtains (refused) "r = Inl SoJournal" and "so_report s' = so_report s"
  | (appended) nonce where "append_event (sv_P E) (sv_A E) nonce e soak_payload (disk_journal s) = Inr (disk_journal s')"
      and "r = Inr ()" and "so_report s' = so_report s"
  using run unfolding recover_payload_def
proof (cases rule: sbind_cases)
  case (failed x)
  then show ?thesis by (cases rule: soak_append_cases [OF failed(1)]) (use that in auto)
next
  case (ok u s1)
  from ok(1) show ?thesis
  proof (cases rule: soak_append_cases)
    case (appended nonce j)
    obtain bytes where "json_to_vec (sv_P E) soak_payload = Some bytes"
      using append_event_Inr [OF appended(1)] by metis
    moreover from this have "private_payload (sv_A E) (sv_json E) (ev_event_sha256 e) j = Inr (Some soak_payload)"
      using private_payload_reads_back [OF _ _ inv appended(1)] assms(1) appended(2) by (simp add: soak_laws_def)
    ultimately have "r = Inr ()" "s' = s1"
      using ok(2) appended(4) by (simp_all add: sbind_def soak_journal_read_def sret_def)
    then show ?thesis using that(2) appended by simp
  qed simp
qed

lemma recover_token_cases:
  assumes "soak_laws E" and run: "recover_token E s = (r, s')"
  obtains "r = Inl SoJournal \<or> r = Inr ()" and "jn_events (disk_journal s') = jn_events (disk_journal s)"
    and "so_report s' = so_report s"
proof -
  obtain nonce w where n: "sv_nonce E (so_world s) = (nonce, w)" by fastforce
  let ?m = "put_secret (sv_A E) nonce REFRESH_TOKEN_SECRET SYNTHETIC_TOKEN_SENTINEL (disk_journal s)"
  show ?thesis
  proof (cases ?m)
    case (Inl x)
    then have "r = Inl SoJournal" "s' = s\<lparr>so_world := w\<rparr>"
      using run by (simp_all add: recover_token_def sbind_def soak_world_def journal_change_def n)
    then show ?thesis using that by simp
  next
    case (Inr j)
    have l: "aead_law (sv_A E)" "length nonce = 24"
      using assms(1) n by (simp_all add: soak_laws_def) (metis fst_conv)
    have k: "jn_key j = JOURNAL_KEY" "jn_events j = jn_events (disk_journal s)"
      using Inr by (auto simp: put_secret_def split: if_splits)
    have "secret (sv_A E) REFRESH_TOKEN_SECRET j = Inr (Some SYNTHETIC_TOKEN_SENTINEL)"
      using secret_reads_back [OF l Inr] by simp
    then have "r = Inr ()" "s' = s\<lparr>so_world := w, so_journal := Some j\<rparr>"
      using run Inr k(1) by (simp_all add: recover_token_def sbind_def soak_world_def journal_change_def soak_journal_read_def
          n disk_journal_written sret_def slift_def)
    then show ?thesis using that k by (simp add: disk_journal_written)
  qed
qed

text \<open>An event that is not the next of its run is refused, and nothing changes.\<close>

lemma refuse_append_refuses:
  assumes "journal_inv (sv_P E) (disk_journal s)"
    and "latest_event_state (ev_run_id e) (disk_journal s) = Inr (Some (k, h))" and "ev_sequence e \<noteq> k + 1"
    and "refuse_append E e p s = (r, s')"
  shows "r = Inr () \<and> same_files s s'"
proof -
  obtain r1 s1 where a: "soak_append E e p s = (r1, s1)" by fastforce
  show ?thesis using a
  proof (cases rule: soak_append_cases)
    case refused
    then show ?thesis using assms(4) a
      by (simp add: refuse_append_def sbind_def stry_def sret_def same_files_def)
  next
    case (appended nonce j)
    then show ?thesis using jlog.append_next [OF assms(1) appended(1) assms(2)] assms(3) by simp
  qed
qed

section \<open>No fault gets through\<close>

definition soak_fault :: "soak_error + 'a \<Rightarrow> bool" where
  "soak_fault r \<longleftrightarrow> r = Inl SoFaultAccepted \<or> r = Inl SoRecovery \<or> r = Inl SoRemoteControl"

text \<open>The gate obeys resume, pause and stop.\<close>

lemma controls_obeyed: "exercise_remote_controls = Inr ()"
  by (simp add: exercise_remote_controls_def control_step_def gate_apply_def new_gate_def gate_label_def
      EXECUTION_PAUSED_def EXECUTION_RUNNING_def EXECUTION_STOPPED_def)

text \<open>The report and the journal agree on the events of the run.\<close>

definition journal_at :: "'w soak_env \<Rightarrow> u64 \<Rightarrow> string \<Rightarrow> 'w soak \<Rightarrow> bool" where
  "journal_at E n h s \<longleftrightarrow> journal_inv (sv_P E) (disk_journal s)
     \<and> latest_event_state soak_run_id (disk_journal s) = Inr (if n = 0 then None else Some (n, h))"

lemma soak_signed_cases:
  assumes "soak_signed E cycle_id n prev p s = (r, s')"
  obtains (refused) "r = Inl SoProtocol" and "same_files s s'"
  | (signed_event) e where "r = Inr e" and "same_files s s'" and "ev_run_id e = soak_run_id" and "ev_sequence e = n"
proof -
  obtain now w1 where 1: "sv_now E (so_world s) = (now, w1)" by fastforce
  obtain event_id w2 where 2: "sv_uuid E w1 = (event_id, w2)" by fastforce
  let ?m = "sign_event (sv_P E) DEVICE_SEED event_id soak_arena_id soak_run_id (Some cycle_id) n prev ''portfolio_snapshot'' now p"
  have r: "r = map_err (\<lambda>_. SoProtocol) ?m" and s: "same_files s s'"
    using assms keepsD [OF keeps_soak_signed assms] 1 2
    by (simp_all add: soak_signed_def sbind_def soak_world_def slift_def)
  show ?thesis
  proof (cases ?m)
    case (Inl x)
    then show ?thesis using refused r s by simp
  next
    case (Inr e)
    then show ?thesis using signed_event [of e] r s sign_event_Inr(1,3) [OF Inr] by simp
  qed
qed

lemma seq_after:
  fixes n :: u64
  assumes "is_i64 (uint n)"
  shows "sat_add n 2 \<noteq> n + 1"
proof -
  have "uint n \<le> 9223372036854775807" using assms unfolding is_i64_def by (rule conjunct2)
  moreover have "uint n = int (unat n)" by simp
  ultimately have "unat n \<le> 9223372036854775807" by linarith
  moreover have "unat (2 :: u64) = 2" "(2 :: nat) ^ LENGTH(64) = 18446744073709551616" by simp_all
  ultimately have "unat n + unat (2 :: u64) < 2 ^ LENGTH(64)" by linarith
  then have "sat_add n 2 = n + 2" unfolding sat_add_def by (rule if_P)
  moreover have "n + 2 \<noteq> n + 1" by simp
  ultimately show ?thesis by simp
qed

lemma append_sequence:
  assumes "append_event P A nonce e p j = Inr j'"
  shows "is_i64 (uint (ev_sequence e))"
  using assms by (auto simp: append_event_def split: if_splits)

lemma sbind_put: "sbind (sput g) f s = f () (g s)"
  by (simp add: sbind_def sput_def)

lemma inject_faults_refused:
  assumes inv: "journal_inv (sv_P E) (disk_journal s)" and i64: "is_i64 (uint n)"
    and latest: "latest_event_state soak_run_id (disk_journal s) = Inr (Some (n, ev_event_sha256 e))"
    and e: "ev_run_id e = soak_run_id" "ev_sequence e = n"
    and run: "inject_faults E cycle_id n e s = (r, s')"
  shows "(r = Inl SoProtocol \<or> r = Inr ()) \<and> same_files s s'"
proof -
  obtain r1 s1 where 1: "refuse_append E e soak_payload s = (r1, s1)" by fastforce
  have d: "r1 = Inr ()" "same_files s s1"
    using refuse_append_refuses [OF inv _ _ 1] latest e by simp_all
  let ?gap = "soak_signed E cycle_id (sat_add n 2) (ev_event_sha256 e) (JObj [(''equity_micro_usdc'', JInt 1000000)])"
  have "sbind ?gap (\<lambda>gap. refuse_append E gap (JObj [])) s1 = (r, s')"
    using run 1 d(1) by (simp add: inject_faults_def sbind_def [of "refuse_append E e soak_payload"])
  then show ?thesis
  proof (cases rule: sbind_cases)
    case (failed x)
    from failed(1) show ?thesis
      by (cases rule: soak_signed_cases) (use failed(2) d(2) in \<open>auto simp: same_files_def\<close>)
  next
    case (ok gap s2)
    from ok(1) have gap: "ev_run_id gap = soak_run_id" "ev_sequence gap = sat_add n 2" and s2: "same_files s1 s2"
      by (auto elim: soak_signed_cases)
    have j2: "disk_journal s2 = disk_journal s"
      using same_files_journal [OF s2] same_files_journal [OF d(2)] by simp
    have "r = Inr () \<and> same_files s2 s'"
      by (rule refuse_append_refuses [OF _ _ _ ok(2)]) (use j2 inv latest gap seq_after [OF i64] in auto)
    then show ?thesis using s2 d(2) by (simp add: same_files_def)
  qed
qed

lemma exercise_journal_cases:
  assumes laws: "soak_laws E" and inv: "journal_inv (sv_P E) (disk_journal s)"
    and e: "ev_run_id e = soak_run_id" "ev_sequence e = n"
    and run: "exercise_journal E cycle_id n e report s = (r, s')"
  obtains (refused) x where "r = Inl x" and "\<not> soak_fault r" and "so_report s' = so_report s"
  | (exercised) nonce j where "r = Inr (count_exercise report)"
      and "append_event (sv_P E) (sv_A E) nonce e soak_payload (disk_journal s) = Inr j"
      and "jn_events (disk_journal s') = jn_events j" and "so_report s' = so_report s"
proof -
  let ?s0 = "s\<lparr>so_journal := Some (disk_journal s)\<rparr>"
  have j0: "disk_journal ?s0 = disk_journal s" by (rule opened_again)
  have inv0: "journal_inv (sv_P E) (disk_journal ?s0)" using inv j0 by simp
  have "sbind (recover_payload E e) (\<lambda>_. sbind (recover_token E) (\<lambda>_.
     sbind (inject_faults E cycle_id n e) (\<lambda>_. sret (count_exercise report)))) ?s0 = (r, s')"
    using run by (simp add: exercise_journal_def open_disk_journal_def sbind_put)
  then show ?thesis
  proof (cases rule: sbind_cases)
    case (failed x)
    from failed(1) show ?thesis
      by (cases rule: recover_payload_cases [OF laws inv0]) (use refused failed(2) in \<open>auto simp: soak_fault_def\<close>)
  next
    case (ok u s1)
    from ok(1) obtain nonce where
      a: "append_event (sv_P E) (sv_A E) nonce e soak_payload (disk_journal s) = Inr (disk_journal s1)"
      and rep1: "so_report s1 = so_report s" using j0 by (cases rule: recover_payload_cases [OF laws inv0]) auto
    from ok(2) show ?thesis
    proof (cases rule: sbind_cases)
      case (failed x)
      from failed(1) show ?thesis
        by (cases rule: recover_token_cases [OF laws]) (use refused failed(2) rep1 in \<open>auto simp: soak_fault_def\<close>)
    next
      case (ok u2 s2)
      from ok(1) have ev: "jn_events (disk_journal s2) = jn_events (disk_journal s1)" and rep2: "so_report s2 = so_report s"
        using rep1 by (auto elim: recover_token_cases [OF laws])
      have inv2: "journal_inv (sv_P E) (disk_journal s2)"
        and l2: "latest_event_state soak_run_id (disk_journal s2) = Inr (Some (n, ev_event_sha256 e))"
        using append_event_inv [OF inv a] jlog.append_latest [OF inv a] e same_row_events [OF ev] by simp_all
      obtain r3 where 3: "inject_faults E cycle_id n e s2 = (r3, s')" and r: "r = (case r3 of Inl x \<Rightarrow> Inl x | Inr _ \<Rightarrow> Inr (count_exercise report))"
        using ok(2) by (cases rule: sbind_cases) (auto simp: sret_def)
      have i: "is_i64 (uint n)" using append_sequence [OF a] e(2) by simp
      have "(r3 = Inl SoProtocol \<or> r3 = Inr ()) \<and> same_files s2 s'"
        by (rule inject_faults_refused [OF inv2 i l2 e 3])
      then show ?thesis
        using refused exercised [OF _ a] r ev rep2 same_files_journal [of s2 s'] by (auto simp: soak_fault_def)
    qed
  qed
qed

section \<open>A cycle keeps the checkpoint\<close>

definition checkpoint :: "'w soak_env \<Rightarrow> u64 \<Rightarrow> u64 \<Rightarrow> soak_report \<Rightarrow> 'w soak \<Rightarrow> bool" where
  "checkpoint E duration interval report s \<longleftrightarrow> balanced duration interval report
     \<and> journal_at E (sr_events report) (sr_last_hash report) s
     \<and> so_report s = sv_encode E report \<and> so_report s \<noteq> None"

definition same_schedule :: "soak_report \<Rightarrow> soak_report \<Rightarrow> bool" where
  "same_schedule r r' \<longleftrightarrow> sr_started_at r' = sr_started_at r \<and> sr_expected_end_at r' = sr_expected_end_at r"

lemma unat_sat_add_u64: "unat (sat_add a b) = min (unat a + unat b) 18446744073709551615" for a b :: u64
  by (auto simp: sat_add_def unat_word_ariths unsigned_minus_1_eq_mask mask_eq_exp_minus_1)

lemma unat_sat_mul_u64: "unat (sat_mul a b) = min (unat a * unat b) 18446744073709551615" for a b :: u64
  by (auto simp: sat_mul_def unat_word_ariths unsigned_minus_1_eq_mask mask_eq_exp_minus_1)

lemma sat_mul_step: "sat_add (sat_mul c k) k = sat_mul (sat_add c 1) k" if "c \<noteq> - 1" for c k :: u64
proof -
  have "unat c \<noteq> unat (- 1 :: u64)" using that by (simp only: word_unat_eq_iff not_False_eq_True)
  then have "unat c \<noteq> 18446744073709551615" by (simp add: unsigned_minus_1_eq_mask mask_eq_exp_minus_1)
  moreover have "unat c < 2 ^ LENGTH(64)" by (rule unsigned_less)
  ultimately have "unat c + 1 \<le> 18446744073709551615" by simp
  then have "unat (sat_add (sat_mul c k) k) = unat (sat_mul (sat_add c 1) k)"
    by (simp add: unat_sat_add_u64 unat_sat_mul_u64 algebra_simps min_def)
  then show ?thesis by (simp only: word_unat_eq_iff)
qed


lemma sat_add_twice: "sat_add (sat_add a 1) 1 = sat_add a (2 :: u64)"
proof -
  have "unat (sat_add (sat_add a 1) 1) = unat (sat_add a (2 :: u64))"
    by (simp add: unat_sat_add_u64 min_def)
  then show ?thesis by (simp only: word_unat_eq_iff)
qed

lemma counted_step:
  fixes c expected :: u64
  assumes "c < expected"
  shows "u64_try (uint c + 1) = Some (sat_add c 1)" and "sat_add c 1 \<noteq> 0" and "sat_add c 1 = c + 1" and "c \<noteq> - 1"
    and "unat (c + 1) = unat c + 1"
proof -
  have "unat c < unat expected" using assms by (simp only: word_less_nat_alt)
  moreover have "unat expected < 2 ^ LENGTH(64)" by (rule unsigned_less)
  ultimately have c: "unat c + 1 < 2 ^ LENGTH(64)" by linarith
  moreover have one: "unat (1 :: u64) = 1" by simp
  ultimately show sat: "sat_add c 1 = c + 1" unfolding sat_add_def by simp
  show u: "unat (c + 1) = unat c + 1" using c one by (simp add: unat_word_ariths)
  then show "sat_add c 1 \<noteq> 0" using sat by (metis add_is_0 one one_neq_zero unat_0)
  show "c \<noteq> - 1" using u by auto
  have "uint c = int (unat c)" by simp
  moreover have "(2 :: nat) ^ LENGTH(64) = 18446744073709551616" by simp
  ultimately have "uint c + 1 < 18446744073709551616" using c by linarith
  moreover have "0 \<le> uint c" by simp
  ultimately have "u64_try (uint c + 1) = Some (word_of_int (uint c + 1))" by (intro u64_try_is) linarith+
  then show "u64_try (uint c + 1) = Some (sat_add c 1)" unfolding sat by simp
qed

lemma file_op_eq:
  "file_op E s = (if fst (sv_disk E (so_world s)) then Inr () else Inl SoIo, s\<lparr>so_world := snd (sv_disk E (so_world s))\<rparr>)"
  by (simp add: file_op_def sbind_def soak_world_def sret_def slift_def split: prod.splits)

lemma write_report_cases:
  assumes "write_report E report s = (r, s')"
  obtains (refused) x where "r = Inl x" and "\<not> soak_fault r" and "disk_journal s' = disk_journal s" and "so_report s' = so_report s"
  | (written) bytes where "r = Inr ()" and "disk_journal s' = disk_journal s" and "sv_encode E report = Some bytes"
      and "so_report s' = Some bytes"
proof (cases "sv_encode E report")
  case None
  then show ?thesis using assms refused [of SoJson] by (auto simp: write_report_def sbind_def slift_def soak_fault_def)
next
  case (Some bytes)
  show ?thesis
    by (cases "fst (sv_disk E (so_world s))"; cases "fst (sv_disk E (snd (sv_disk E (so_world s))))")
      (use assms that Some in \<open>auto simp: write_report_def sbind_def slift_def sput_def soak_fault_def file_op_eq\<close>)
qed

lemma record_cycle_cases:
  assumes "record_cycle E n e report s = (r, s')"
  obtains (refused) x where "r = Inl x" and "\<not> soak_fault r"
  | (recorded) report' now where "r = Inr report'"
      and "report' = report\<lparr>sr_controls := sat_add (sr_controls report) 3, sr_scans := sat_add (sr_scans report) 1,
           sr_cycles := sat_add (sr_cycles report) 1, sr_events := n, sr_last_hash := ev_event_sha256 e,
           sr_updated_at := format_time E now\<rparr>"
      and "disk_journal s' = disk_journal s" and "so_report s' = sv_encode E report'" and "so_report s' \<noteq> None"
proof -
  obtain now w where n: "sv_now E (so_world s) = (now, w)" by fastforce
  let ?report = "report\<lparr>sr_controls := sat_add (sr_controls report) 3, sr_scans := sat_add (sr_scans report) 1,
           sr_cycles := sat_add (sr_cycles report) 1, sr_events := n, sr_last_hash := ev_event_sha256 e,
           sr_updated_at := format_time E now\<rparr>"
  have "sbind (write_report E ?report) (\<lambda>_. sret ?report) (s\<lparr>so_world := w\<rparr>) = (r, s')"
    using assms n by (simp add: record_cycle_def sbind_def [of "soak_world _"] soak_world_def Let_def)
  then show ?thesis
  proof (cases rule: sbind_cases)
    case (failed x)
    from failed(1) show ?thesis
      by (cases rule: write_report_cases) (use refused failed(2) in \<open>auto simp: soak_fault_def\<close>)
  next
    case (ok u s1)
    from ok(1) show ?thesis
      by (cases rule: write_report_cases) (use recorded [of ?report now] ok(2) in \<open>simp_all add: sret_def\<close>)
  qed
qed

lemma scan_fault: "scan_for_plaintext E s = (r, s') \<Longrightarrow> r = Inl SoIo \<or> r = Inl SoPlaintextLeak \<or> r = Inr ()"
  by (auto simp: scan_for_plaintext_def file_op_def sbind_def soak_world_def sret_def slift_def sget_def
      split: prod.splits sum.splits if_splits)

lemma cycle_work_step:
  assumes laws: "soak_laws E" and cp: "checkpoint E duration interval report s" and less: "sr_cycles report < expected"
    and run: "cycle_work E report (sat_add (sr_cycles report) 1) cycle_id s = (r, s')"
  shows "\<not> soak_fault r \<and> (\<forall>report'. r = Inr report' \<longrightarrow> checkpoint E duration interval report' s'
    \<and> same_schedule report report' \<and> unat (sr_cycles report') = unat (sr_cycles report) + 1)"
  using run unfolding cycle_work_def
proof (cases rule: sbind_cases)
  case (failed x)
  from failed(1) show ?thesis by (cases rule: soak_signed_cases) (use failed(2) in \<open>auto simp: soak_fault_def\<close>)
next
  case (ok e s1)
  have b: "balanced duration interval report" and inv: "journal_inv (sv_P E) (disk_journal s)"
    using cp by (simp_all add: checkpoint_def journal_at_def)
  note step = counted_step [OF less]
  from ok(1) have e: "ev_run_id e = soak_run_id" "ev_sequence e = sat_add (sr_cycles report) 1" and q: "same_files s s1"
    by (auto elim: soak_signed_cases)
  have inv1: "journal_inv (sv_P E) (disk_journal s1)" using inv same_files_journal [OF q] by simp
  from ok(2) show ?thesis
  proof (cases rule: sbind_cases)
    case (failed x)
    from failed(1) show ?thesis
      by (cases rule: exercise_journal_cases [OF laws inv1 e]) (use failed(2) in \<open>auto simp: soak_fault_def\<close>)
  next
    case (ok report1 s2)
    from ok(1) obtain nonce j where report1: "report1 = count_exercise report"
      and a: "append_event (sv_P E) (sv_A E) nonce e soak_payload (disk_journal s1) = Inr j"
      and ev: "jn_events (disk_journal s2) = jn_events j"
      by (auto elim: exercise_journal_cases [OF laws inv1 e])
    have at: "journal_at E (sat_add (sr_cycles report) 1) (ev_event_sha256 e) s2"
      using append_event_inv [OF inv1 a] jlog.append_latest [OF inv1 a] e same_row_events [OF ev] step(2)
      by (simp add: journal_at_def)
    from ok(2) have rest: "sbind (scan_for_plaintext E) (\<lambda>_. record_cycle E (sat_add (sr_cycles report) 1) e report1) s2 = (r, s')"
      by (simp add: controls_obeyed sbind_def [of "slift _"] slift_def)
    then show ?thesis
    proof (cases rule: sbind_cases)
      case (failed x)
      then show ?thesis using scan_fault [OF failed(1)] by (auto simp: soak_fault_def)
    next
      case (ok u s3)
      have q3: "same_files s2 s3" by (rule keepsD [OF keeps_scan ok(1)])
      from ok(2) show ?thesis
      proof (cases rule: record_cycle_cases)
        case (recorded report' now)
        have "balanced duration interval report'"
          using b sat_mul_step [OF step(4)] sat_mul_step [OF step(4), of 2] recorded(2) report1
          by (simp add: balanced_def count_exercise_def sat_add_twice)
        then have "checkpoint E duration interval report' s'"
          using recorded at same_files_journal [OF q3] by (simp add: checkpoint_def journal_at_def)
        moreover have "same_schedule report report'" "unat (sr_cycles report') = unat (sr_cycles report) + 1"
          using recorded(2) report1 step(3,5) by (simp_all add: same_schedule_def count_exercise_def)
        ultimately show ?thesis using recorded(1) by (simp add: soak_fault_def)
      qed simp
    qed
  qed
qed

lemma offset_error: "rbind (cycle_offset report) span = Inl x \<Longrightarrow> x = SoInvalidSchedule"
  by (cases "u64_try (uint (sr_interval report) * uint (sr_cycles report))")
    (simp_all add: cycle_offset_def span_def split: if_splits del: u64_try_eq_Some)

lemma sleep_ok: "sleep_until E t s = (r, s') \<Longrightarrow> r = Inr ()"
  by (auto simp: sleep_until_def sbind_def soak_world_def sret_def split: prod.splits if_splits)

lemma soak_cycle_step:
  assumes laws: "soak_laws E" and cp: "checkpoint E duration interval report s" and less: "sr_cycles report < expected"
    and run: "soak_cycle E started_at report s = (r, s')"
  shows "\<not> soak_fault r \<and> (\<forall>report'. r = Inr report' \<longrightarrow> checkpoint E duration interval report' s'
    \<and> same_schedule report report' \<and> unat (sr_cycles report') = unat (sr_cycles report) + 1)"
  using run unfolding soak_cycle_def
proof (cases rule: sbind_cases)
  case (failed x)
  then show ?thesis using offset_error [of report x] by (simp add: slift_def soak_fault_def)
next
  case (ok offset s0)
  have cyc: "sr_events report = sr_cycles report" and s0: "s0 = s"
    using cp ok(1) by (simp_all add: checkpoint_def balanced_def slift_def)
  from ok(2) show ?thesis
  proof (cases rule: sbind_cases)
    case (failed x)
    then show ?thesis using sleep_ok [OF failed(1)] by simp
  next
    case (ok u1 s1)
    obtain cycle_id w where c: "sv_uuid E (so_world s1) = (cycle_id, w)" by fastforce
    have "same_files s (s1\<lparr>so_world := w\<rparr>)" using keepsD [OF keeps_sleep_until ok(1)] s0 by (simp add: same_files_def)
    from same_files_journal [OF this] have files: "disk_journal (s1\<lparr>so_world := w\<rparr>) = disk_journal s"
      "so_report (s1\<lparr>so_world := w\<rparr>) = so_report s" by (rule conjunct1, rule conjunct2)
    then have cp1: "checkpoint E duration interval report (s1\<lparr>so_world := w\<rparr>)"
      using cp unfolding checkpoint_def journal_at_def by metis
    have "cycle_work E report (sat_add (sr_cycles report) 1) cycle_id (s1\<lparr>so_world := w\<rparr>) = (r, s')"
      using ok(2) c by (simp add: cyc counted_step(1) [OF less] sbind_def slift_def soak_world_def)
    from cycle_work_step [OF laws cp1 less this] show ?thesis .
  qed
qed

section \<open>The loop\<close>

lemma soak_loop_checkpoint:
  assumes "soak_laws E" and "checkpoint E duration interval report s" and "sr_cycles report \<le> expected"
  shows "\<exists>r s'. soak_loop E expected started_at report s = Some (r, s') \<and> \<not> soak_fault r
    \<and> (\<forall>final. r = Inr final \<longrightarrow> sr_cycles final = expected \<and> checkpoint E duration interval final s'
        \<and> same_schedule report final)"
  using assms(2,3)
proof (induction "unat expected - unat (sr_cycles report)" arbitrary: report s rule: less_induct)
  case less
  show ?case
  proof (cases "expected \<le> sr_cycles report")
    case True
    have "sr_cycles report = expected" by (rule order.antisym [OF less.prems(2) True])
    then show ?thesis using True less.prems(1) by (simp add: soak_loop.simps [of E expected] soak_fault_def same_schedule_def)
  next
    case False
    then have lt: "sr_cycles report < expected" by (simp only: not_le)
    obtain r s' where c: "soak_cycle E started_at report s = (r, s')" by fastforce
    note step = soak_cycle_step [OF assms(1) less.prems(1) lt c]
    show ?thesis
    proof (cases r)
      case (Inl x)
      then show ?thesis using False c step by (simp add: soak_loop.simps [of E expected] soak_fault_def)
    next
      case (Inr report')
      have u: "unat (sr_cycles report') = unat (sr_cycles report) + 1" "checkpoint E duration interval report' s'"
        "same_schedule report report'" using step Inr by simp_all
      have l: "unat (sr_cycles report) < unat expected" using lt by (simp only: word_less_nat_alt)
      then have m: "unat expected - unat (sr_cycles report') < unat expected - unat (sr_cycles report)" using u(1) by linarith
      have le: "sr_cycles report' \<le> expected" using l u(1) by (simp only: word_le_nat_alt)
      from less.hyps [OF m u(2) le] show ?thesis
        using False c Inr u(3) by (auto simp: soak_loop.simps [of E expected] same_schedule_def)
    qed
  qed
qed

text \<open>The loop can be stopped after any cycle and go on from there.\<close>

lemma soak_loop_split:
  assumes "soak_laws E" and "checkpoint E duration interval report s" and "m \<le> expected" and "sr_cycles report \<le> m"
    and "soak_loop E m started_at report s = Some (Inr report', s')"
  shows "soak_loop E expected started_at report s = soak_loop E expected started_at report' s'"
  using assms(2,4,5)
proof (induction "unat m - unat (sr_cycles report)" arbitrary: report s rule: less_induct)
  case less
  show ?case
  proof (cases "m \<le> sr_cycles report")
    case True
    then show ?thesis using less.prems(3) by (simp add: soak_loop.simps [of E m])
  next
    case False
    then have lt: "sr_cycles report < m" by (simp only: not_le)
    obtain r s1 where c: "soak_cycle E started_at report s = (r, s1)" by fastforce
    have ex: "\<not> expected \<le> sr_cycles report" using lt assms(3) by (meson le_less_trans not_le less_le_trans)
    obtain report1 where r: "r = Inr report1"
      using less.prems(3) False c by (cases r) (simp_all add: soak_loop.simps [of E m])
    have l1: "soak_loop E m started_at report1 s1 = Some (Inr report', s')"
      using less.prems(3) False c r by (simp add: soak_loop.simps [of E m])
    have u: "unat (sr_cycles report1) = unat (sr_cycles report) + 1" "checkpoint E duration interval report1 s1"
      using soak_cycle_step [OF assms(1) less.prems(1) lt c] r by simp_all
    have l: "unat (sr_cycles report) < unat m" using lt by (simp only: word_less_nat_alt)
    then have d: "unat m - unat (sr_cycles report1) < unat m - unat (sr_cycles report)" using u(1) by linarith
    have le: "sr_cycles report1 \<le> m" using l u(1) by (simp only: word_le_nat_alt)
    have "soak_loop E expected started_at report s = soak_loop E expected started_at report1 s1"
      using ex c r by (simp add: soak_loop.simps [of E expected _ report])
    with less.hyps [OF d u(2) le l1] show ?thesis by simp
  qed
qed

lemma fresh_report_checkpoint:
  assumes "so_journal s = None" and "new_report E duration interval s = (Inr (report, started_at, ends), s')"
  shows "checkpoint E duration interval report s'" and "report = fresh_report E started_at ends duration interval"
    and "span duration = Inr (ends - started_at)"
proof -
  obtain now w where n: "sv_now E (so_world s) = (now, w)" by fastforce
  obtain len where len: "span duration = Inr len"
    using assms(2) n by (cases "span duration") (simp_all add: new_report_def sbind_def soak_world_def slift_def)
  let ?report = "fresh_report E now (now + len) duration interval"
  have wr: "sbind (write_report E ?report) (\<lambda>_. sret (?report, now, now + len)) (s\<lparr>so_world := w\<rparr>) = (Inr (report, started_at, ends), s')"
    using assms(2) n len by (simp add: new_report_def sbind_def [of "soak_world _"] sbind_def [of "slift _"] soak_world_def slift_def Let_def)
  obtain u s1 where w1: "write_report E ?report (s\<lparr>so_world := w\<rparr>) = (Inr u, s1)"
    and w2: "sret (?report, now, now + len) s1 = (Inr (report, started_at, ends) :: soak_error + _, s')"
    by (rule sbind_InrE [OF wr])
  from w2 have e: "report = ?report" "started_at = now" "ends = now + len" "s' = s1"
    unfolding sret_def prod.inject sum.inject by (blast intro: sym)+
  from w1 obtain bytes where b: "disk_journal s1 = disk_journal s" "sv_encode E ?report = Some bytes" "so_report s1 = Some bytes"
    by (cases rule: write_report_cases) auto
  have "journal_at E 0 zero_hash s1"
    using assms(1) b(1) by (simp add: journal_at_def disk_journal_def) (simp add: open_journal_def latest_event_state_def latest_row_def run_rows_def)
  moreover have "balanced duration interval ?report" by (simp add: balanced_def fresh_report_def sat_mul_def)
  ultimately show "checkpoint E duration interval report s'"
    using b e by (simp add: checkpoint_def) (simp add: fresh_report_def)
  show "report = fresh_report E started_at ends duration interval" "span duration = Inr (ends - started_at)"
    using e len by simp_all
qed

section \<open>Running and resuming\<close>

lemma start_fresh:
  assumes "so_journal s = None" and "so_report s = None" and "start_soak E duration interval s = (r, s')"
  shows "\<not> soak_fault r \<and> (\<forall>report started_at ends. r = Inr (report, started_at, ends) \<longrightarrow>
    checkpoint E duration interval report s' \<and> report = fresh_report E started_at ends duration interval)"
proof -
  let ?w = "snd (sv_disk E (so_world s))"
  show ?thesis
  proof (cases "fst (sv_disk E (so_world s)) \<and> fst (sv_disk E ?w)")
    case False
    then show ?thesis using assms(3)
      by (cases "fst (sv_disk E (so_world s))") (auto simp: start_soak_def sbind_def file_op_eq soak_fault_def)
  next
    case True
    let ?s = "s\<lparr>so_world := snd (sv_disk E ?w)\<rparr>"
    have n: "new_report E duration interval ?s = (r, s')"
      using assms True by (simp add: start_soak_def sbind_def file_op_eq sget_def)
    show ?thesis
    proof (cases r)
      case (Inl x)
      have "\<not> soak_fault r" using n unfolding new_report_def
      proof (cases rule: sbind_cases)
        case (failed y)
        then show ?thesis by (simp add: soak_world_def split: prod.splits)
      next
        case (ok now s1)
        from ok(2) show ?thesis
        proof (cases rule: sbind_cases)
          case (failed y)
          then show ?thesis by (auto simp: slift_def span_def soak_fault_def split: if_splits)
        next
          case (ok len s2)
          from ok(2) show ?thesis unfolding Let_def
          proof (cases rule: sbind_cases)
            case (failed y)
            from failed(1) show ?thesis
              by (cases rule: write_report_cases) (use failed(2) in \<open>auto simp: soak_fault_def\<close>)
          qed (auto simp: sret_def soak_fault_def)
        qed
      qed
      then show ?thesis using Inl by simp
    next
      case (Inr x)
      obtain report started_at ends where x: "x = (report, started_at, ends)" by (cases x)
      show ?thesis using fresh_report_checkpoint(1,2) [of ?s E duration interval report started_at ends s'] n Inr x assms(1)
        by (simp add: soak_fault_def)
    qed
  qed
qed

lemma schedule_cycles:
  fixes duration interval :: "u64 \<times> u32"
  assumes "\<not> schedule_refused duration interval"
  shows "fst duration div fst interval \<noteq> 0"
proof -
  have "snd interval = 0" "interval \<noteq> (0, 0)" and le: "\<not> fst duration < fst interval"
    using assms unfolding schedule_refused_def by blast+
  then have i: "fst interval \<noteq> 0" by (metis prod.collapse)
  then have u: "0 < unat (fst interval)" by (simp only: word_neq_0_conv unat_gt_0)
  have "unat (fst interval) \<le> unat (fst duration)" using le by (simp only: not_less word_le_nat_alt)
  then have "0 < unat (fst duration) div unat (fst interval)" using u by (simp only: div_greater_zero_iff)
  then have "unat (fst duration div fst interval) \<noteq> 0" by (simp only: unat_div)
  then show ?thesis by (metis unat_0)
qed

lemma finish_soak_cases:
  assumes "finish_soak E ends report s = (r, s')"
  obtains (refused) x where "r = Inl x" and "\<not> soak_fault r"
  | (complete) final now where "r = Inr final" and "final = report\<lparr>sr_status := ''complete'', sr_updated_at := format_time E now\<rparr>"
      and "disk_journal s' = disk_journal s" and "so_report s' = sv_encode E final" and "so_report s' \<noteq> None"
  using assms unfolding finish_soak_def
proof (cases rule: sbind_cases)
  case (failed x)
  then show ?thesis using sleep_ok [OF failed(1)] by simp
next
  case (ok u s1)
  have q: "disk_journal s1 = disk_journal s" using same_files_journal [OF keepsD [OF keeps_sleep_until ok(1)]] by simp
  obtain now w where n: "sv_now E (so_world s1) = (now, w)" by fastforce
  let ?final = "report\<lparr>sr_status := ''complete'', sr_updated_at := format_time E now\<rparr>"
  have "sbind (write_report E ?final) (\<lambda>_. sret ?final) (s1\<lparr>so_world := w\<rparr>) = (r, s')"
    using ok(2) n by (simp add: sbind_def [of "soak_world _"] soak_world_def Let_def)
  then show ?thesis
  proof (cases rule: sbind_cases)
    case (failed x)
    from failed(1) show ?thesis
      by (cases rule: write_report_cases) (use refused failed(2) in \<open>auto simp: soak_fault_def\<close>)
  next
    case (ok u s2)
    from ok(1) show ?thesis
      by (cases rule: write_report_cases) (use complete [of ?final now] ok(2) q in \<open>simp_all add: sret_def\<close>)
  qed
qed

text \<open>A soak that is complete, as its report and its journal say.\<close>

definition soak_complete :: "'w soak_env \<Rightarrow> u64 \<Rightarrow> u64 \<Rightarrow> u64 \<Rightarrow> soak_report \<Rightarrow> 'w soak \<Rightarrow> bool" where
  "soak_complete E duration interval cycles final s \<longleftrightarrow> sr_status final = ''complete'' \<and> sr_cycles final = cycles
     \<and> balanced duration interval (final\<lparr>sr_status := ''running''\<rparr>)
     \<and> latest_event_state soak_run_id (disk_journal s) = Inr (Some (sr_cycles final, sr_last_hash final))"

lemma finish_complete:
  assumes "checkpoint E duration interval report s" and "sr_cycles report \<noteq> 0" and "finish_soak E ends report s = (r, s')"
  shows "\<not> soak_fault r \<and> (\<forall>final. r = Inr final \<longrightarrow> soak_complete E duration interval (sr_cycles report) final s')"
  using assms(3)
proof (cases rule: finish_soak_cases)
  case (complete final now)
  then show ?thesis using assms(1,2)
    by (simp add: soak_complete_def checkpoint_def journal_at_def balanced_def soak_fault_def)
qed simp

text \<open>
  C16. A soak ends: started on an empty state, its loop returns after at most one turn per scheduled cycle,
  whatever the clock, the ids and the disk do, and never because an injected duplicate or gap got into the
  journal, a payload or secret could not be recovered, or the gate disobeyed. A soak that completes has run
  every scheduled cycle, its counters balance, and the journal's last event is the last one it reports.
\<close>

theorem soak_ends:
  assumes "soak_laws E" and "so_journal s = None" and "so_report s = None"
  shows "\<exists>r s'. run_soak E duration interval s = Some (r, s') \<and> \<not> soak_fault r
    \<and> (\<forall>final. r = Inr final \<longrightarrow>
          soak_complete E (fst duration) (fst interval) (fst duration div fst interval) final s')"
proof (cases "schedule_refused duration interval")
  case True
  then show ?thesis by (simp add: run_soak_def soak_fault_def)
next
  case False
  let ?n = "fst duration div fst interval"
  obtain r1 s1 where 1: "start_soak E (fst duration) (fst interval) s = (r1, s1)" by fastforce
  note start = start_fresh [OF assms(2,3) 1]
  show ?thesis
  proof (cases r1)
    case (Inl x)
    then show ?thesis using False 1 start by (simp add: run_soak_def soak_fault_def)
  next
    case (Inr x)
    obtain report started_at ends where x: "x = (report, started_at, ends)" by (cases x)
    have cp: "checkpoint E (fst duration) (fst interval) report s1"
      and zero: "report = fresh_report E started_at ends (fst duration) (fst interval)" using start Inr x by blast+
    have "sr_cycles report \<le> ?n" by (simp add: zero fresh_report_def)
    from soak_loop_checkpoint [OF assms(1) cp this] obtain r2 s2 where
      2: "soak_loop E ?n started_at report s1 = Some (r2, s2)" "\<not> soak_fault r2"
      and end_cp: "\<And>final. r2 = Inr final \<Longrightarrow> sr_cycles final = ?n \<and> checkpoint E (fst duration) (fst interval) final s2"
      by blast
    show ?thesis
    proof (cases r2)
      case (Inl x2)
      then show ?thesis using False 1 Inr x 2 by (simp add: run_soak_def soak_fault_def)
    next
      case (Inr final2)
      obtain r3 s3 where 3: "finish_soak E ends final2 s2 = (r3, s3)" by fastforce
      have "run_soak E duration interval s = Some (r3, s3)"
        using False 1 \<open>r1 = Inr x\<close> x 2 Inr 3 by (simp add: run_soak_def)
      then show ?thesis using finish_complete [OF _ _ 3] end_cp [OF Inr] schedule_cycles [OF False] by auto
    qed
  qed
qed

text \<open>What serde and the time format give back.\<close>

definition report_laws :: "'w soak_env \<Rightarrow> bool" where
  "report_laws E \<longleftrightarrow> (\<forall>r bytes. sv_encode E r = Some bytes \<longrightarrow> sv_decode E bytes = Some r)
     \<and> (\<forall>t shown. rfc3339 (sv_P E) t = Some shown \<longrightarrow> sv_time E shown = Some t)"

text \<open>
  C17. A soak that is stopped after any number of cycles resumes where it was: the resumed run gets the report of
  the last cycle, the original start and the original end, and the cycles that remain do what they would have
  done without the stop.
\<close>

theorem soak_resumes:
  assumes "soak_laws E" and "report_laws E" and "so_journal s = None"
    and "new_report E duration interval s = (Inr (report, started_at, ends), s1)"
    and "rfc3339 (sv_P E) started_at \<noteq> None" and "rfc3339 (sv_P E) ends \<noteq> None"
    and "soak_loop E m started_at report s1 = Some (Inr report', s2)" and "m \<le> expected"
    and "fst (sv_disk E (so_world s2))"
  shows "\<exists>s3. resume_report E duration interval s2 = (Inr (report', started_at, ends), s3)
    \<and> disk_journal s3 = disk_journal s2 \<and> so_report s3 = so_report s2
    \<and> soak_loop E expected started_at report s1 = soak_loop E expected started_at report' s2"
proof -
  have cp: "checkpoint E duration interval report s1" and fresh: "report = fresh_report E started_at ends duration interval"
    and len: "span duration = Inr (ends - started_at)" by (rule fresh_report_checkpoint [OF assms(3,4)])+
  have "sr_cycles report \<le> m" by (simp add: fresh fresh_report_def)
  note loop = soak_loop_checkpoint [OF assms(1) cp this, of started_at]
  have cp': "checkpoint E duration interval report' s2" and same: "same_schedule report report'"
    using loop assms(7) by auto
  obtain bytes where b: "so_report s2 = Some bytes" "sv_decode E bytes = Some report'"
    using cp' assms(2) unfolding checkpoint_def report_laws_def by (metis not_None_eq)
  have t: "sv_time E (sr_started_at report') = Some started_at" "sv_time E (sr_expected_end_at report') = Some ends"
    using same assms(2,5,6) by (auto simp: same_schedule_def fresh fresh_report_def format_time_def report_laws_def)
  let ?s = "s2\<lparr>so_world := snd (sv_disk E (so_world s2))\<rparr>"
  let ?s3 = "?s\<lparr>so_journal := Some (disk_journal ?s)\<rparr>"
  have bal: "balanced duration interval report'" "sr_status report' = ''running''"
    and latest: "latest_event_state soak_run_id (disk_journal s2)
        = Inr (if sr_events report' = 0 then None else Some (sr_events report', sr_last_hash report'))"
    using cp' by (simp_all add: checkpoint_def journal_at_def balanced_def)
  have j: "disk_journal ?s3 = disk_journal s2" using opened_again [of ?s] by simp
  have "resume_report E duration interval s2 = (Inr (report', started_at, ends), ?s3)"
    using assms(9) b t len bal latest j
    by (simp add: resume_report_def sbind_def sget_def slift_def file_op_eq parse_time_def open_disk_journal_def sput_def
        soak_journal_read_def sret_def)
  then show ?thesis using j soak_loop_split [OF assms(1) cp assms(8) \<open>sr_cycles report \<le> m\<close> assms(7)] by auto
qed

text \<open>
  A soak that stopped after its event was appended and before its report was written does not resume: the
  journal is one event ahead of the report.
\<close>

theorem unsaved_event_blocks_resume:
  assumes "report_laws E" and cp: "checkpoint E duration interval report s"
    and a: "append_event (sv_P E) (sv_A E) nonce e payload (disk_journal s) = Inr j" and e: "ev_run_id e = soak_run_id"
  shows "\<not> is_ok (fst (resume_report E duration interval (s\<lparr>so_journal := Some j\<rparr>)))"
proof
  let ?s = "s\<lparr>so_journal := Some j\<rparr>"
  assume "is_ok (fst (resume_report E duration interval ?s))"
  then obtain x s' where x: "resume_report E duration interval ?s = (Inr x, s')" by (metis is_ok_iff prod.collapse)
  have key: "jn_key j = JOURNAL_KEY" using append_keeps_key [OF a] by simp
  have inv: "journal_inv (sv_P E) (disk_journal s)" and old: "latest_event_state soak_run_id (disk_journal s)
      = Inr (if sr_events report = 0 then None else Some (sr_events report, sr_last_hash report))"
    using cp by (simp_all add: checkpoint_def journal_at_def)
  have new: "latest_event_state soak_run_id j = Inr (Some (ev_sequence e, ev_event_sha256 e))"
    using jlog.append_latest [OF inv a] e by simp
  have n: "ev_sequence e = sr_events report + 1"
    using jlog.append_next [OF inv a] old e by (auto split: if_splits)
  obtain bytes where b: "so_report ?s = Some bytes" "sv_decode E bytes = Some report"
    using cp assms(1) unfolding checkpoint_def report_laws_def by (metis not_None_eq soak.select_convs(2) soak.surjective soak.update_convs(1))
  have bal: "balanced duration interval report" "sr_status report \<noteq> ''complete''"
    using cp by (simp_all add: checkpoint_def balanced_def)
  have j: "disk_journal (s\<lparr>so_world := w, so_journal := Some (disk_journal (s\<lparr>so_journal := Some j, so_world := w\<rparr>))\<rparr>) = j" for w
    by (simp add: disk_journal_written [OF key])
  show False
    using x b new n bal j
    by (cases "fst (sv_disk E (so_world s))"; cases "parse_time E (sr_started_at report)";
        cases "parse_time E (sr_expected_end_at report)"; cases "span duration")
      (auto simp: resume_report_def sbind_def sget_def slift_def file_op_eq open_disk_journal_def sput_def soak_journal_read_def
        split: if_splits)
qed

end
