(* ===== verification/SoakTrial.thy ===== *)
theory SoakTrial
  imports Soak
begin

text \<open>
  A concrete soak of two cycles, with its first cycle run to its report: the witnesses of \<open>Soak\<close>.
\<close>

section \<open>A concrete soak\<close>

definition toy_soak_prims :: prims where
  "toy_soak_prims = toy_ids\<lparr>rfc3339 := \<lambda>t. if t = 0 then Some ''0'' else if t = 2000000000 then Some ''2'' else None\<rparr>"

definition toy_report :: soak_report where
  "toy_report = \<lparr>sr_protocol = HARNESS_PROTOCOL_V1, sr_mode = SOAK_MODE, sr_status = ''running'',
      sr_started_at = ''0'', sr_expected_end_at = ''2'', sr_updated_at = ''0'', sr_duration = 2, sr_interval = 1,
      sr_cycles = 0, sr_events = 0, sr_reopens = 0, sr_duplicates = 0, sr_gaps = 0, sr_controls = 0,
      sr_recoveries = 0, sr_scans = 0, sr_last_hash = zero_hash\<rparr>"

definition toy_cycled :: soak_report where
  "toy_cycled = toy_report\<lparr>sr_cycles := 1, sr_events := 1, sr_reopens := 1, sr_duplicates := 1, sr_gaps := 1, sr_controls := 3,
      sr_recoveries := 2, sr_scans := 1, sr_last_hash := ''json''\<rparr>"

definition toy_soak_env :: "unit soak_env" where
  "toy_soak_env = \<lparr>sv_P = toy_soak_prims, sv_A = toy_aead, sv_json = (\<lambda>b. Some soak_payload),
     sv_encode = (\<lambda>r. if r = toy_report then Some ''0'' else if r = toy_cycled then Some ''1'' else None),
     sv_decode = (\<lambda>b. if b = ''0'' then Some toy_report else if b = ''1'' then Some toy_cycled else None),
     sv_time = (\<lambda>t. if t = ''0'' then Some 0 else if t = ''2'' then Some 2000000000 else None),
     sv_files = (\<lambda>j r. [''sealed'']), sv_now = (\<lambda>w. (0, w)), sv_sleep = (\<lambda>t w. w), sv_uuid = (\<lambda>w. (3, w)),
     sv_nonce = (\<lambda>w. (toy_nonce, w)), sv_disk = (\<lambda>w. (True, w))\<rparr>"

definition empty_soak :: "unit soak" where
  "empty_soak = \<lparr>so_journal = None, so_report = None, so_temporary = None, so_world = ()\<rparr>"

definition started_soak :: "unit soak" where
  "started_soak = empty_soak\<lparr>so_report := Some ''0''\<rparr>"

definition toy_soak_event :: "u64 \<Rightarrow> string \<Rightarrow> json \<Rightarrow> run_event" where
  "toy_soak_event n prev payload = \<lparr>ev_protocol = HARNESS_PROTOCOL_V1, ev_event_id = 3, ev_arena_id = soak_arena_id,
     ev_run_id = soak_run_id, ev_cycle_id = Some 3, ev_sequence = n, ev_previous_event_sha256 = prev,
     ev_event_type = ''portfolio_snapshot'', ev_occurred_at = 0, ev_payload = payload, ev_event_sha256 = ''json'',
     ev_device_public_key = replicate 32 (CHR ''k''), ev_device_signature = ''sig'', ev_server_receipt = None\<rparr>"

lemma toy_soak_selectors [simp]:
  "sv_P toy_soak_env = toy_soak_prims" "sv_A toy_soak_env = toy_aead" "sv_now toy_soak_env w = (0, w)"
  "sv_uuid toy_soak_env w = (3, w)" "sv_nonce toy_soak_env w = (toy_nonce, w)" "sv_disk toy_soak_env w = (True, w)"
  "sv_files toy_soak_env j r = [''sealed'']" "sv_json toy_soak_env b = Some soak_payload"
  by (simp_all add: toy_soak_env_def)

lemma toy_soak_signed:
  "soak_signed toy_soak_env 3 n prev payload s = (Inr (toy_soak_event n prev payload), s)"
  by (simp add: soak_signed_def sbind_def soak_world_def slift_def sign_event_def unsigned_event_def canonical_json_def
      jtime_def toy_soak_prims_def toy_ids_def toy_prims_def toy_soak_event_def)

definition toy_soak_row :: journal_row where
  "toy_soak_row = new_row (toy_soak_event 1 zero_hash (JObj [(''cycle'', JInt 1), (''equity_micro_usdc'', JInt 1000000)]))
     \<lparr>bc_nonce = toy_nonce, bc_ciphertext = ''jsonjson''\<rparr>"

definition toy_soak_journal :: journal where
  "toy_soak_journal = (open_journal JOURNAL_KEY)\<lparr>jn_events := [toy_soak_row]\<rparr>"

abbreviation first_event :: run_event where
  "first_event \<equiv> toy_soak_event 1 zero_hash (JObj [(''cycle'', JInt 1), (''equity_micro_usdc'', JInt 1000000)])"

lemma toy_soak_appended:
  "append_event toy_soak_prims toy_aead toy_nonce first_event soak_payload (open_journal JOURNAL_KEY) = Inr toy_soak_journal"
proof -
  have "verify_event toy_soak_prims first_event = Inr ()"
    by (simp add: verify_event_def canonical_json_def unsigned_event_def toy_soak_prims_def toy_ids_def toy_prims_def
      toy_soak_event_def jtime_def verify_signature_def)
  moreover have "next_link (open_journal JOURNAL_KEY) first_event"
    by (simp add: next_link_def latest_row_def run_rows_def open_journal_def toy_soak_event_def)
  moreover have "json_to_vec toy_soak_prims soak_payload = Some ''json''"
    by (simp add: toy_soak_prims_def toy_ids_def toy_prims_def)
  moreover have "encrypt_bundle toy_aead JOURNAL_KEY toy_nonce ''json'' ''json''
      = Inr \<lparr>bc_nonce = toy_nonce, bc_ciphertext = ''jsonjson''\<rparr>"
    by (simp add: encrypt_bundle_def toy_aead_def)
  moreover have "ev_event_sha256 first_event = ''json''" "ev_sequence first_event = 1"
    by (simp_all add: toy_soak_event_def)
  ultimately show ?thesis
    by (simp add: append_event_def is_i64_def row_conflict_def toy_soak_journal_def toy_soak_row_def)
      (simp add: open_journal_def)
qed

lemma toy_soak_laws: "soak_laws toy_soak_env"
  by (simp add: soak_laws_def toy_aead_law toy_nonce_def)

lemma toy_report_laws: "report_laws toy_soak_env"
  by (auto simp: report_laws_def toy_soak_env_def toy_soak_prims_def toy_cycled_def toy_report_def split: if_splits)

lemma toy_payload_recovered:
  assumes "disk_journal s = open_journal JOURNAL_KEY"
  shows "recover_payload toy_soak_env first_event s = (Inr (), s\<lparr>so_journal := Some toy_soak_journal\<rparr>)"
proof -
  have k: "jn_key toy_soak_journal = JOURNAL_KEY" by (simp add: toy_soak_journal_def open_journal_def)
  have "json_to_vec toy_soak_prims soak_payload = Some ''json''" by (simp add: toy_soak_prims_def toy_ids_def toy_prims_def)
  then have "private_payload toy_aead (sv_json toy_soak_env) (ev_event_sha256 first_event) toy_soak_journal = Inr (Some soak_payload)"
    by (intro private_payload_reads_back [OF toy_aead_law _ open_journal_inv toy_soak_appended]) (simp_all add: toy_nonce_def)
  then show ?thesis using assms toy_soak_appended
    by (simp add: recover_payload_def soak_append_def sbind_def soak_world_def journal_change_def soak_journal_read_def
        disk_journal_written [OF k] sret_def)
qed

lemma toy_token_recovered: "\<exists>j. recover_token toy_soak_env s = (Inr (), s\<lparr>so_journal := Some j\<rparr>)"
proof -
  obtain j where j: "put_secret toy_aead toy_nonce REFRESH_TOKEN_SECRET SYNTHETIC_TOKEN_SENTINEL (disk_journal s) = Inr j"
    by (simp add: put_secret_def encrypt_bundle_def toy_aead_def REFRESH_TOKEN_SECRET_def)
  then have k: "jn_key j = JOURNAL_KEY" by (auto simp: put_secret_def split: if_splits)
  have "length toy_nonce = 24" by (simp add: toy_nonce_def)
  with secret_reads_back [OF toy_aead_law _ j] have "secret toy_aead REFRESH_TOKEN_SECRET j = Inr (Some SYNTHETIC_TOKEN_SENTINEL)" by simp
  moreover have "s\<lparr>so_world := ()\<rparr> = s" by (cases s) simp
  ultimately have "recover_token toy_soak_env s = (Inr (), s\<lparr>so_journal := Some j\<rparr>)" using j
    by (simp add: recover_token_def sbind_def soak_world_def journal_change_def soak_journal_read_def
        disk_journal_written [OF k] sret_def slift_def)
  then show ?thesis by blast
qed

lemma toy_first_journal: "disk_journal started_soak = open_journal JOURNAL_KEY"
  by (simp add: started_soak_def empty_soak_def disk_journal_def)

lemma toy_started: "new_report toy_soak_env 2 1 empty_soak = (Inr (toy_report, 0, 2000000000), started_soak)"
proof -
  have r: "fresh_report toy_soak_env 0 2000000000 2 1 = toy_report"
    by (simp add: fresh_report_def format_time_def toy_soak_prims_def toy_report_def)
  have w: "write_report toy_soak_env toy_report empty_soak = (Inr (), started_soak)"
    by (simp add: write_report_def sbind_def slift_def sput_def file_op_eq toy_soak_env_def started_soak_def empty_soak_def)
  show ?thesis
    using w r by (simp add: new_report_def sbind_def soak_world_def slift_def span_def is_i64_def) (simp add: empty_soak_def sret_def)
qed

lemma toy_exercised: "\<exists>s'. exercise_journal toy_soak_env 3 1 first_event toy_report started_soak = (Inr (count_exercise toy_report), s')"
proof -
  let ?s0 = "started_soak\<lparr>so_journal := Some (disk_journal started_soak)\<rparr>"
  let ?s1 = "?s0\<lparr>so_journal := Some toy_soak_journal\<rparr>"
  have 1: "recover_payload toy_soak_env first_event ?s0 = (Inr (), ?s1)"
    using toy_payload_recovered [of ?s0] opened_again [of started_soak] toy_first_journal by simp
  obtain j where 2: "recover_token toy_soak_env ?s1 = (Inr (), ?s1\<lparr>so_journal := Some j\<rparr>)"
    using toy_token_recovered by blast
  obtain r s3 where 3: "inject_faults toy_soak_env 3 1 first_event (?s1\<lparr>so_journal := Some j\<rparr>) = (r, s3)" by fastforce
  obtain r' s' where x: "exercise_journal toy_soak_env 3 1 first_event toy_report started_soak = (r', s')" by fastforce
  have inv: "journal_inv (sv_P toy_soak_env) (disk_journal started_soak)" by (simp only: toy_first_journal open_journal_inv)
  have e: "ev_run_id first_event = soak_run_id" "ev_sequence first_event = 1" by (simp_all add: toy_soak_event_def)
  have "r' = (case r of Inl x \<Rightarrow> Inl x | Inr _ \<Rightarrow> Inr (count_exercise toy_report))"
    using x 1 2 3 by (simp add: exercise_journal_def open_disk_journal_def sbind_put)
      (simp add: sbind_def sret_def split: sum.splits)
  moreover have "r = Inl SoFaultAccepted \<or> r = Inr ()"
    using 3 by (auto simp: inject_faults_def sbind_def toy_soak_signed refuse_append_def stry_def slift_def sret_def
        split: prod.splits sum.splits if_splits)
  moreover have "\<not> soak_fault r'"
    by (cases rule: exercise_journal_cases [OF toy_soak_laws inv e x]) (auto simp: soak_fault_def)
  ultimately show ?thesis using x by (auto simp: soak_fault_def)
qed

lemma toy_cycle: "\<exists>s'. soak_cycle toy_soak_env 0 toy_report started_soak = (Inr toy_cycled, s')"
proof -
  obtain s1 where 1: "exercise_journal toy_soak_env 3 1 first_event toy_report started_soak = (Inr (count_exercise toy_report), s1)"
    using toy_exercised by blast
  have "\<not> leaks ''sealed''"
    by (simp add: leaks_def SYNTHETIC_PRIVATE_SENTINEL_def SYNTHETIC_TOKEN_SENTINEL_def)
  then have scan: "scan_for_plaintext toy_soak_env s1 = (Inr (), s1)"
    by (simp add: scan_for_plaintext_def sbind_def file_op_eq sget_def sret_def)
  have f: "sr_interval toy_report = 1" "sr_cycles toy_report = 0" "sr_events toy_report = 0" "sr_last_hash toy_report = zero_hash"
    by (simp_all add: toy_report_def)
  have c: "(count_exercise toy_report)\<lparr>sr_controls := sat_add (sr_controls (count_exercise toy_report)) 3,
      sr_scans := sat_add (sr_scans (count_exercise toy_report)) 1,
      sr_cycles := sat_add (sr_cycles (count_exercise toy_report)) 1, sr_events := 1, sr_last_hash := ''json'',
      sr_updated_at := ''0''\<rparr> = toy_cycled"
    by (simp add: count_exercise_def toy_cycled_def toy_report_def sat_add_def)
  have ne: "toy_cycled \<noteq> toy_report" by (simp add: toy_cycled_def toy_report_def)
  have "\<exists>s'. record_cycle toy_soak_env 1 first_event (count_exercise toy_report) s1 = (Inr toy_cycled, s')"
  proof -
    have "format_time toy_soak_env 0 = ''0''" by (simp add: format_time_def toy_soak_prims_def)
    moreover have "ev_event_sha256 first_event = ''json''" by (simp add: toy_soak_event_def)
    moreover have "sv_encode toy_soak_env toy_cycled = Some ''1''" using ne by (simp add: toy_soak_env_def)
    ultimately show ?thesis
      by (simp add: record_cycle_def c sbind_def soak_world_def write_report_def slift_def sput_def file_op_eq sret_def Let_def)
  qed
  then obtain s' where 2: "record_cycle toy_soak_env 1 first_event (count_exercise toy_report) s1 = (Inr toy_cycled, s')" by blast
  have w: "cycle_work toy_soak_env toy_report 1 3 started_soak = (Inr toy_cycled, s')"
    using 1 scan 2 by (simp add: cycle_work_def f jword_def sbind_def toy_soak_signed controls_obeyed slift_def)
  have started: "started_soak\<lparr>so_world := ()\<rparr> = started_soak" by (cases started_soak) simp
  have sl: "sleep_until toy_soak_env 0 started_soak = (Inr (), started_soak)"
    by (simp add: sleep_until_def sbind_def soak_world_def sret_def)
  have "soak_cycle toy_soak_env 0 toy_report started_soak = cycle_work toy_soak_env toy_report 1 3 (started_soak\<lparr>so_world := ()\<rparr>)"
    using sl by (simp add: soak_cycle_def cycle_offset_def span_def u64_try_def f is_i64_def sbind_def slift_def soak_world_def)
  then show ?thesis using w started by (intro exI [of _ s']) (simp only:)
qed

theorem soak_ends_witness:
  "\<exists>r s'. run_soak toy_soak_env (2, 0) (1, 0) empty_soak = Some (r, s') \<and> \<not> soak_fault r"
  using soak_ends [OF toy_soak_laws, of empty_soak "(2, 0)" "(1, 0)"] by (auto simp: empty_soak_def)

theorem soak_resumes_witness:
  "\<exists>s2 s3. soak_loop toy_soak_env 1 0 toy_report started_soak = Some (Inr toy_cycled, s2)
    \<and> resume_report toy_soak_env 2 1 s2 = (Inr (toy_cycled, 0, 2000000000), s3)"
proof -
  obtain s2 where c: "soak_cycle toy_soak_env 0 toy_report started_soak = (Inr toy_cycled, s2)" using toy_cycle by blast
  have n: "sr_cycles toy_report = 0" "sr_cycles toy_cycled = 1" by (simp_all add: toy_report_def toy_cycled_def)
  have l: "soak_loop toy_soak_env 1 0 toy_report started_soak = Some (Inr toy_cycled, s2)"
    using c n by (simp add: soak_loop.simps [of _ 1 0 toy_report] soak_loop.simps [of _ 1 0 toy_cycled])
  have j: "so_journal empty_soak = None" by (simp add: empty_soak_def)
  have t: "rfc3339 (sv_P toy_soak_env) 0 \<noteq> None" "rfc3339 (sv_P toy_soak_env) 2000000000 \<noteq> None"
    by (simp_all add: toy_soak_prims_def)
  have m: "(1 :: u64) \<le> 2" "fst (sv_disk toy_soak_env (so_world s2))" by simp_all
  from soak_resumes [OF toy_soak_laws toy_report_laws j toy_started t l m] l show ?thesis by blast
qed

end
