(* ===== verification/LaunchWait.thy ===== *)
theory LaunchWait
  imports LaunchTrial
begin

text \<open>
  The wait of \<open>start_local_arena\<close> for the run of the daemon it started: it comes to an end, because every turn
  sleeps and the wait has a deadline.
\<close>

section \<open>The clock of the desktop\<close>

text \<open>The clock reads the time of the world, nothing turns it back, and a sleep takes its milliseconds.\<close>

definition desktop_clock :: "'w shell_env \<Rightarrow> ('w \<Rightarrow> int) \<Rightarrow> bool" where
  "desktop_clock E tm \<longleftrightarrow> (let K = dk_K (se_D E) in
     (\<forall>w. fst (se_instant E w) = tm w \<and> tm w \<le> tm (snd (se_instant E w)))
     \<and> (\<forall>n w. tm w + int n * 1000000 \<le> tm (se_sleep E n w))
     \<and> (\<forall>w. tm w \<le> tm (snd (kc_opens K w))) \<and> (\<forall>w. tm w \<le> tm (snd (kc_reads K w)))
     \<and> (\<forall>w. tm w \<le> tm (snd (kc_writes K w))) \<and> (\<forall>w. tm w \<le> tm (snd (kc_random K w)))
     \<and> (\<forall>w. tm w \<le> tm (snd (se_uuid E w))) \<and> (\<forall>name line w. tm w \<le> tm (snd (se_ipc E name line w))))"

abbreviation shell_time :: "('w \<Rightarrow> int) \<Rightarrow> 'w shell \<Rightarrow> int" where
  "shell_time tm s \<equiv> tm (wi_world (vs_wire (dt_vault (sl_desktop s))))"

definition vault_later :: "('w \<Rightarrow> int) \<Rightarrow> 'w vault_state \<Rightarrow> 'w vault_state \<Rightarrow> bool" where
  "vault_later tm v v' \<longleftrightarrow> tm (wi_world (vs_wire v)) \<le> tm (wi_world (vs_wire v'))"

definition shell_later :: "('w \<Rightarrow> int) \<Rightarrow> 'w shell \<Rightarrow> 'w shell \<Rightarrow> bool" where
  "shell_later tm s s' \<longleftrightarrow> shell_time tm s \<le> shell_time tm s'"

interpretation vaulted: step_relation "vault_later tm"
  by unfold_locales (auto simp: vault_later_def)

interpretation shelled: step_relation "shell_later tm"
  by unfold_locales (auto simp: shell_later_def)

lemma vault_world_later: "(\<And>w. tm w \<le> tm (snd (f w))) \<Longrightarrow> keeps (vault_later tm) (vault_world f)"
  by (auto simp: keeps_def vault_later_def vault_world_def split: prod.splits) (metis snd_conv)

lemma vault_kept_later:
  "keeps (vault_later tm) vault_off" "keeps (vault_later tm) (sput (\<lambda>s. s\<lparr>vs_value := v\<rparr>))"
  "keeps (vault_later tm) (write_entry encoded outcome)"
  by (auto simp: keeps_def vault_later_def vault_off_def sput_def write_entry_def Let_def split: prod.splits)

lemma on_vault_later:
  "keeps (vault_later tm) m \<Longrightarrow> keeps (shell_later tm) (on_desktop (on_vault m))"
  by (auto simp: keeps_def shell_later_def vault_later_def on_desktop_def on_vault_def split: prod.splits) (metis snd_conv)

lemma shell_world_later: "(\<And>w. tm w \<le> tm (snd (f w))) \<Longrightarrow> keeps (shell_later tm) (shell_world f)"
  unfolding shell_world_def by (intro on_vault_later vault_world_later)

lemma load_vault_later:
  assumes "desktop_clock E tm"
  shows "keeps (vault_later tm) (load_credential_vault (dk_K (se_D E)))"
proof -
  let ?K = "dk_K (se_D E)"
  have "keeps (vault_later tm) (sbind (vault_world (kc_opens ?K)) (\<lambda>opened. if \<not> opened then vault_off
      else sbind (vault_world (kc_reads ?K)) (\<lambda>works. if \<not> works then vault_off
      else sbind (sget (\<lambda>s. decoded_vault ?K (vs_entry s))) (\<lambda>decoded.
        case decoded of None \<Rightarrow> vault_off | Some v \<Rightarrow> sput (\<lambda>s. s\<lparr>vs_value := Some v\<rparr>)))))"
    using assms
    by (intro vaulted.keeps_intros vault_world_later vault_kept_later)
      (auto simp: desktop_clock_def Let_def intro: vault_kept_later split: option.split)
  then show ?thesis
    unfolding keeps_def load_credential_vault_def by (simp add: vaulted.R_refl)
qed

lemma persist_vault_later:
  assumes "desktop_clock E tm"
  shows "keeps (vault_later tm) (persist_credential_vault (dk_K (se_D E)))"
proof -
  let ?K = "dk_K (se_D E)"
  have "keeps (vault_later tm) (sbind (vault_world (kc_opens ?K)) (\<lambda>opened. if \<not> opened then vault_off
      else sbind (vault_world (kc_writes ?K)) (write_entry encoded)))" for encoded
    using assms
    by (intro vaulted.keeps_intros vault_world_later vault_kept_later) (auto simp: desktop_clock_def Let_def)
  then show ?thesis
    unfolding keeps_def persist_credential_vault_def by (simp add: vaulted.R_refl split: option.split)
qed

lemma stored_secret_later:
  assumes "desktop_clock E tm"
  shows "keeps (vault_later tm) (load_or_create_companion_secret (dk_P (se_D E)) (dk_K (se_D E)))"
proof -
  have op: "keeps (vault_later tm) (\<lambda>s. case vs_value s of None \<Rightarrow> (Inl DkCredential, s)
      | Some v \<Rightarrow> (case operation v of (r, v') \<Rightarrow> (r, s\<lparr>vs_value := Some v'\<rparr>)))" for operation :: "vault \<Rightarrow> (desktop_error + unit) \<times> vault"
    by (auto simp: keeps_def vault_later_def split: option.splits prod.splits)
  show ?thesis
    unfolding load_or_create_companion_secret_def load_or_create_secret_32_def read_vault_def update_vault_def
    using assms op
    by (intro vaulted.keeps_intros load_vault_later [OF assms])
      (auto simp: desktop_clock_def Let_def split: option.split intro!: vaulted.keeps_intros vault_world_later
        load_vault_later persist_vault_later)
qed

lemma credentials_later:
  assumes "desktop_clock E tm"
  shows "keeps (shell_later tm) (on_desktop (companion_credentials_of (se_D E)))"
  using on_vault_later [OF stored_secret_later [OF assms]]
  by (auto simp: keeps_def shell_later_def on_desktop_def companion_credentials_of_def Let_def
      split: option.splits sum.splits prod.splits)

lemma request_later:
  assumes "desktop_clock E tm"
  shows "keeps (shell_later tm) (companion_request_of E action)"
proof -
  have nonce: "keeps (shell_later tm) (on_desktop (\<lambda>d. case next_companion_nonce (dt_companion_nonce d) of
      (r, n) \<Rightarrow> (r, d\<lparr>dt_companion_nonce := n\<rparr>)))"
    by (auto simp: keeps_def shell_later_def on_desktop_def split: prod.splits)
  show ?thesis
    unfolding companion_request_of_def companion_request_with_options_def send_companion_request_def
    using assms by (intro shelled.keeps_intros credentials_later nonce shell_world_later) (auto simp: desktop_clock_def Let_def)
qed

section \<open>The wait ends\<close>

lemma await_turn_takes_time:
  assumes "desktop_clock E tm" and "await_turn E s = (Inr None, s')"
  shows "shell_time tm s + 200000000 \<le> shell_time tm s'"
proof -
  from assms(2) obtain s1 r where slept: "serr desktop_error_code (shell_world (\<lambda>w. ((), se_sleep E 200 w))) s = (Inr (), s1)"
    and asked: "stry (companion_request_of E AStatus) s1 = ((Inr r :: string + _), s')"
    unfolding await_turn_def
    by (auto elim!: sbind_InrE simp: sret_def slift_def split: sum.splits option.splits if_splits)
  have "shell_time tm s1 = tm (se_sleep E 200 (wi_world (vs_wire (dt_vault (sl_desktop s)))))"
    using slept by (auto simp: serr_def shell_world_def on_desktop_def on_vault_def vault_world_def)
  moreover have "tm w + int 200 * 1000000 \<le> tm (se_sleep E 200 w)" for w
    using assms(1) unfolding desktop_clock_def Let_def by blast
  ultimately have "shell_time tm s + int 200 * 1000000 \<le> shell_time tm s1" by presburger
  moreover have "shell_time tm s1 \<le> shell_time tm s'"
    using keepsD [OF keeps_try [OF request_later [OF assms(1)]] asked] by (simp add: shell_later_def)
  ultimately show ?thesis by simp
qed

lemma await_run_returns:
  assumes "desktop_clock E tm"
  shows "\<exists>r. await_run E deadline s = Some r"
proof (induction "nat (deadline - shell_time tm s)" arbitrary: s rule: less_induct)
  case less
  obtain now s1 where clock: "shell_world (se_instant E) s = (Inr now, s1)"
    by (cases "se_instant E (wi_world (vs_wire (dt_vault (sl_desktop s))))")
      (simp add: shell_world_def on_desktop_def on_vault_def vault_world_def)
  have now: "now = shell_time tm s" "shell_time tm s \<le> shell_time tm s1"
    using clock assms
    by (auto simp: shell_world_def on_desktop_def on_vault_def vault_world_def desktop_clock_def Let_def split: prod.splits)
      (metis fst_conv, metis snd_conv)
  show ?case
  proof (cases "now < deadline \<and> (\<exists>s2. await_turn E s1 = (Inr None, s2))")
    case True
    then obtain s2 where turn: "await_turn E s1 = (Inr None, s2)" by blast
    have "nat (deadline - shell_time tm s2) < nat (deadline - shell_time tm s)"
      using await_turn_takes_time [OF assms turn] now True by linarith
    from less [OF this] show ?thesis using clock turn True by (simp add: await_run.simps [of _ _ s])
  next
    case False
    then show ?thesis using clock
      by (auto simp: await_run.simps [of _ _ s] split: prod.split sum.split option.split)
  qed
qed

text \<open>
  Starting an arena always comes to an end: with a clock that nothing turns back, \<open>start_local_arena\<close> returns,
  whatever the companion answers while the shell waits for the run.
\<close>

theorem local_arena_start_ends:
  assumes "desktop_clock E tm"
  shows "\<exists>r s'. start_local_arena E q s = Some (r, s')"
  using await_run_returns [OF assms]
  by (auto simp: start_local_arena_def split: prod.split sum.split)

text \<open>The environment of \<open>LaunchTrial\<close> with a clock that counts nanoseconds; its daemon never answers.\<close>

definition ticking_env :: "nat shell_env" where
  "ticking_env = toy_shell_env\<lparr>se_instant := \<lambda>w. (int w, w), se_sleep := \<lambda>n w. w + n * 1000000\<rparr>"

lemma ticking_clock: "desktop_clock ticking_env int"
  by (simp add: desktop_clock_def ticking_env_def toy_shell_env_def toy_rotating_def toy_desktop_env_def toy_keychain_def)

theorem local_arena_start_ends_witness:
  "\<exists>r s'. start_local_arena ticking_env toy_launch toy_shell = Some (r, s')"
  by (rule local_arena_start_ends [OF ticking_clock])

end
