(* ===== verification/Spec2Isabelle.thy ===== *)
theory Spec2Isabelle
  imports Replays Scoring AgentVersion Runtime Venue SessionTrial EventLog Publisher Enrolment Gateway Vault HandoverTrial VenueTrial SoakTrial LaunchWait
begin

text \<open>
  The Crow agent lets a user's own device trade in an arena: a strategy is sealed on the desktop, a daemon on
  the same machine runs it against a model gateway and a venue, and what happens is written to a signed,
  encrypted journal and reported to a server. This is a verification development of its Rust code.

  \<^bold>\<open>The program and its theories.\<close> Everything below \<open>src/\<close>; each theory says in
  its own opening text which functions it translates, and definitions keep the names of the code where Isabelle
  allows it.

  \<^item> What all share: \<open>Prelude\<close> (results, machine integers, ordered maps, strings),
    \<open>Effects\<close> (sequencing of fallible steps on a state), \<open>Utf8\<close>,
    \<open>Decimals\<close> (decimal texts and fixed-point integers), \<open>Http\<close> (the calls of the
    clients).
  \<^item> Wire types, \<open>crates/crow-agent-protocol/src/lib.rs\<close>: \<open>Protocol\<close> (types,
    validation, canonical JSON), \<open>Envelopes\<close> (signing and verifying manifests, receipts, commands
    and events), \<open>Manifests\<close> (what a validated manifest guarantees).
  \<^item> The core, \<open>crates/crow-agent-core/src\<close>: \<open>Policy\<close>
    (\<open>policy.rs\<close>), \<open>Backtest\<close> and \<open>Replays\<close> (\<open>backtest.rs\<close>),
    \<open>Scoring\<close> (\<open>scoring.rs\<close>), \<open>Crypto\<close> (\<open>crypto.rs\<close>),
    \<open>AgentVersion\<close> (\<open>agent_version.rs\<close>), \<open>Companion\<close>
    (\<open>companion.rs\<close>), \<open>Journal\<close> and \<open>EventLog\<close>
    (\<open>journal.rs\<close>), \<open>LiveWriter\<close> (\<open>live.rs\<close>), \<open>Runtime\<close>
    (\<open>runtime.rs\<close>), \<open>Gateway\<close> (\<open>gateway.rs\<close>), \<open>ControlPlane\<close>
    (\<open>control_plane.rs\<close>), \<open>DeviceAuth\<close> (\<open>device_auth.rs\<close>),
    \<open>Datasets\<close> (\<open>dataset.rs\<close>), \<open>Venue\<close>, \<open>VenueClient\<close> and
    \<open>VenueTrial\<close> (\<open>hyperliquid.rs\<close>), \<open>LiveCycle\<close> and
    \<open>LiveTrial\<close> (\<open>live_cycle.rs\<close>).
  \<^item> The daemon, \<open>apps/crow-agentd/src\<close>: \<open>Schedule\<close>, \<open>Session\<close>,
    \<open>SessionLog\<close>, \<open>Restart\<close> and \<open>SessionTrial\<close>
    (\<open>live_run.rs\<close>); \<open>Daemon\<close> (gate, companion and relay commands),
    \<open>Enrolment\<close> (device authorisation), \<open>Relay\<close> (\<open>run_relay\<close>) and
    \<open>Commands\<close> (\<open>main.rs\<close>); \<open>Soak\<close> and \<open>SoakTrial\<close>
    (\<open>soak.rs\<close>).
  \<^item> The dataset publisher, \<open>apps/crow-dataset-publisher/src/main.rs\<close>:
    \<open>Publisher\<close>.
  \<^item> The desktop shell, \<open>apps/desktop/src-tauri/src/lib.rs\<close>: \<open>Vault\<close>
    (credentials), \<open>RunView\<close> (what it shows), \<open>Shell\<close> (device API, companion process,
    commands), \<open>Launch\<close>, \<open>LaunchTrial\<close> and \<open>LaunchWait\<close> (starting an
    arena); \<open>Handover\<close> and \<open>HandoverTrial\<close> join the shell to the daemon it starts.

  \<^bold>\<open>How the parts interact.\<close> The shell (\<open>Launch\<close>) checks an arena, writes the
  files of a run and starts the daemon with a frame of credentials on its standard input;
  \<open>Commands\<close> reads both and \<open>Handover\<close> shows that it reads what was meant. The
  daemon's tasks share one record (\<open>shared\<close> of \<open>Daemon\<close>: the execution gate, the
  active run, what is queued for the session, the last error) and one journal. \<open>Relay\<close> is the loop
  that keeps the connection to the server and polls the session; the companion's requests come from the shell
  over a local socket. A session (\<open>Session\<close>) ticks: each tick may run one live cycle
  (\<open>LiveCycle\<close>), which reads the venue (\<open>VenueClient\<close>), lets the model decide
  (\<open>Runtime\<close> over \<open>Gateway\<close>), asks the policy (\<open>Policy\<close>) and submits an
  order. Every event goes through \<open>LiveWriter\<close>, which appends it to the \<open>Journal\<close>
  before the server sees it. After a restart (\<open>Restart\<close>) the journal alone decides whether the run
  goes on.

  \<^bold>\<open>How the code is modelled.\<close> A \<open>Result\<close> is a sum with the error on the left;
  \<open>u8\<close> to \<open>u64\<close> are words, whose \<open>+\<close> wraps as in the release build;
  \<open>i64\<close> and \<open>i128\<close> are integers with a range test wherever the code narrows or checks;
  strings are lists of UTF-8 bytes; times are nanoseconds. A fallible operation on a state is a
  \<open>step\<close>: it returns its result and the state it leaves, which an early return keeps. Packages and
  services are parameters: \<open>prims\<close> and \<open>aead_prims\<close> (hashes, signatures, encryption,
  text forms), the \<open>_codec\<close> records (the readers and writers serde derives), \<open>net\<close>
  (URLs and the network), \<open>sdk\<close> (the venue's SDK), \<open>dataset_io\<close> (Arrow and Parquet),
  \<open>keychain\<close>, \<open>shell_env\<close>, \<open>soak_env\<close>, \<open>relay_env\<close>; what
  they may do is a function on an abstract world, so they may answer anything at any time. What a theorem needs
  of them is a named law (\<open>signature_law\<close>, \<open>b64_law\<close>, \<open>aead_law\<close>,
  \<open>clock_law\<close>, \<open>issue_laws\<close>, \<open>file_law\<close> and the like), and a concrete
  instance in the trial theories meets it. Effects on the outside (orders, requests, frames, started processes)
  are kept in a log that nothing reads, so that a theorem can speak of their order.

  Concurrency. The tasks of the daemon are interleaved steps: \<open>daemon_run\<close> and
  \<open>relay_run\<close> are inductive relations over lists of events, \<open>session_run\<close> one over the
  branches of the session's \<open>select\<close>; while a session awaits something, the world it is given may
  change the shared record. \<open>Relay\<close> refines \<open>Daemon\<close>, so an invariant of the latter's
  runs holds in the loop.

  \<^bold>\<open>Interfaces.\<close> \<open>step_relation\<close> (\<open>Effects\<close>): a reflexive and
  transitive relation is kept by every composed step; interpreted on the durable and quiet relations of the
  writer, the views of a cycle, the rows and lifecycle of a session, the requests on the wire, the passing of
  time, the vault's nonces and the shell's launches, among others. \<open>event_log\<close> and
  \<open>secret_store\<close> (\<open>Journal\<close>): what appending and storing promise, interpreted on the
  journal's tables and used by the daemon's nonces and tokens, the relay and the soak.
  \<open>order_policy\<close> (\<open>Policy\<close>): what an accepted order satisfies, interpreted on
  \<open>evaluate_proposal\<close> and used by the live cycle and the replays. \<open>columnar\<close>
  (\<open>Datasets\<close>): rows and their columns, interpreted on candles and instruments.
  \<open>EventLog\<close> states the journal abstractly, one list of receipted events per run, and shows that
  the tables refine it.

  \<^bold>\<open>What is shown.\<close> The properties are numbered in the order of their importance.

  \<^item> Trading: an order leaves only at an open gate, after its event and the risk state that counts it are durable,
    within the caps and the day's count (C1 to C3, C20, C21); the venue client never leaves an order resting that it
    reports as submitted, and a leverage counts only once read back (C12, C15).
  \<^item> Durability: the writer delivers in order and loses nothing (C4, C5); the journal is a chain, exports
    completely and refines its log (C19, C22, C29); what a session counts and whether it resumes is what its
    journal says (C6 to C8).
  \<^item> Control: the gate opens only by an accepted command and stays open only until the next pause, stop or
    failure, and a remote command is applied once, also across restarts (C10, C11, C28); the relay loop
    refines this and works with the newest tokens (C13, C14); a stop can be lost (C39); the shell's nonces
    grow (C36); the launched daemon is the requested one (C18).
  \<^item> Termination: the session's loop (C9), the soak (C16) with its resumption (C17), and, as theorems of
    their theories, device authorisation (\<open>Enrolment.authorization_ends\<close>) and the wait for a run
    (\<open>LaunchWait.local_arena_start_ends\<close>).
  \<^item> Decisions and scores: receipts are bound to cycle, model and the request that was sent (C24, C34); the
    synchronized replay agrees with a ledger, and the two replays differ on shorts (C25, C26); ranking (C27).
  \<^item> Data: strategies open for their recipients (C23); datasets and publications round trip and are
    complete (C30 to C33); tokens stay on the service's hosts (C35); what the shell shows agrees with the
    journal and is public (C37, C38); the ticket split wraps (C40).

  \<^bold>\<open>Bounds.\<close> The recursions that take a counter are the code's own bounded loops: the tool
  rounds of a cycle, 32 pages of the funding history, 64 tries for a wallet key, 5 levels of a shown value. The
  loops that may not end are \<open>partial_function (option)\<close>, \<open>None\<close> standing for not
  returning: \<open>soak_loop\<close>, which returns after at most one turn per scheduled cycle;
  \<open>authorize_loop\<close> and \<open>await_run\<close>, which return when the clock does not run backwards
  and sleeps take their time; and \<open>next_snapshot\<close>, which waits for as long as the stream sends
  messages that are no book. The loop of a session is a run of its steps; C9 bounds the steps of one kind.

  \<^bold>\<open>Not modelled.\<close> \<open>tls.rs\<close> and the re-exports of
  \<open>crow-agent-core/src/lib.rs\<close>; the window set-up and \<open>run\<close> of the desktop shell;
  parsing of command lines, names of local sockets, printing, logging and the \<open>Debug\<close> forms;
  zeroising of memory; panics of other tasks that would poison a mutex; failures of the disk below SQLite and a
  second process on the same database; the release manifest, which no modelled program reads. Downloads and
  socket tasks that run concurrently without sharing state are taken in one order. The unit tests of the files
  are not translated, but several of their inputs return in the trial theories.
\<close>

end
